(* ===== verification/Prelude.thy ===== *)
theory Prelude
  imports Main "HOL-Library.Word" "HOL-Library.Monad_Syntax"
begin

unbundle bit_operations_syntax

text \<open>
  Shared vocabulary of the development: the C integer types, the serial-number comparisons
  of \<^verbatim>\<open>ortp/rtp.h\<close>, the byte order conversions used wherever a packet
  field is read from or written to the network, and the collections of facts the component
  theories add to.

  Unsigned C integers are machine words (they wrap); \<^verbatim>\<open>int\<close> values are
  mathematical integers, because signed overflow is undefined in C. A pointer is a natural
  number and \<^verbatim>\<open>NULL\<close> is \<open>None\<close>.
\<close>

type_synonym u8 = "8 word"
type_synonym u16 = "16 word"
type_synonym u32 = "32 word"
type_synonym u64 = "64 word"
type_synonym ptr = nat

text \<open>\<^verbatim>\<open>struct timeval\<close>.\<close>

record timeval =
  tv_sec :: int
  tv_usec :: int

named_theorems heap_simps \<open>evaluation of reads after writes in the message heap\<close>
named_theorems model_defs \<open>definitions of straight-line operations, unfolded by the proofs\<close>

section \<open>Options\<close>

lemma bind_SomeI: "a = Some x \<Longrightarrow> f x = Some y \<Longrightarrow> a \<bind> f = Some y"
  by simp

lemma option_bind_Some_iff [simp]: "(a \<bind> f = Some y) \<longleftrightarrow> (\<exists>x. a = Some x \<and> f x = Some y)"
  by (cases a) auto

section \<open>Serial number arithmetic\<close>

text \<open>
  \<^verbatim>\<open>RTP_TIMESTAMP_IS_NEWER_THAN\<close> (also \<^verbatim>\<open>TIME_IS_NEWER_THAN\<close>),
  its strict form, and \<^verbatim>\<open>RTP_SEQ_IS_GREATER\<close>: the difference is taken modulo
  the width and compared with half of the range.
\<close>

definition RTP_TIMESTAMP_IS_NEWER_THAN :: "u32 \<Rightarrow> u32 \<Rightarrow> bool" where
  "RTP_TIMESTAMP_IS_NEWER_THAN ts1 ts2 \<longleftrightarrow> ts1 - ts2 < 0x80000000"

definition RTP_TIMESTAMP_IS_STRICTLY_NEWER_THAN :: "u32 \<Rightarrow> u32 \<Rightarrow> bool" where
  "RTP_TIMESTAMP_IS_STRICTLY_NEWER_THAN ts1 ts2 \<longleftrightarrow> ts1 - ts2 < 0x80000000 \<and> ts1 \<noteq> ts2"

definition RTP_SEQ_IS_GREATER :: "u16 \<Rightarrow> u16 \<Rightarrow> bool" where
  "RTP_SEQ_IS_GREATER seq1 seq2 \<longleftrightarrow> seq1 - seq2 < 0x8000"

lemma ts_newer_refl [simp]: "RTP_TIMESTAMP_IS_NEWER_THAN t t"
  by (simp add: RTP_TIMESTAMP_IS_NEWER_THAN_def)

lemma seq_greater_refl [simp]: "RTP_SEQ_IS_GREATER s s"
  by (simp add: RTP_SEQ_IS_GREATER_def)

lemma ts_strictly_newer_iff:
  "RTP_TIMESTAMP_IS_STRICTLY_NEWER_THAN a b \<longleftrightarrow> RTP_TIMESTAMP_IS_NEWER_THAN a b \<and> a \<noteq> b"
  by (simp add: RTP_TIMESTAMP_IS_STRICTLY_NEWER_THAN_def RTP_TIMESTAMP_IS_NEWER_THAN_def)

text \<open>The difference modulo the width, on the integers the words stand for.\<close>

lemma diff_mod_cases:
  fixes x y :: int
  assumes "0 \<le> x" "x < m" "0 \<le> y" "y < m"
  shows "(x - y) mod m = (if y \<le> x then x - y else x - y + m)"
proof (cases "y \<le> x")
  case True
  then show ?thesis using assms by simp
next
  case False
  then have "(x - y + m) mod m = x - y + m" using assms by (intro mod_pos_pos_trivial) auto
  then show ?thesis using False by simp
qed

lemma uint_diff_cases:
  fixes a b :: "'a::len word"
  shows "uint (a - b) = (if uint b \<le> uint a then uint a - uint b
                         else uint a - uint b + 2 ^ LENGTH('a))"
  by (simp add: uint_word_ariths diff_mod_cases)

lemma seq_greater_uint: "RTP_SEQ_IS_GREATER a b \<longleftrightarrow>
   (if uint b \<le> uint a then uint a - uint b < 32768 else uint a + 32768 < uint b)"
  by (auto simp add: RTP_SEQ_IS_GREATER_def word_less_def uint_diff_cases)

lemma ts_newer_uint: "RTP_TIMESTAMP_IS_NEWER_THAN a b \<longleftrightarrow>
   (if uint b \<le> uint a then uint a - uint b < 2147483648 else uint a + 2147483648 < uint b)"
  by (auto simp add: RTP_TIMESTAMP_IS_NEWER_THAN_def word_less_def uint_diff_cases)

text \<open>The comparisons are antisymmetric, and total away from the antipode.\<close>

lemma seq_antisym: "RTP_SEQ_IS_GREATER a b \<Longrightarrow> RTP_SEQ_IS_GREATER b a \<Longrightarrow> a = b"
  by (auto simp: seq_greater_uint word_uint_eq_iff split: if_splits)

lemma ts_antisym:
  "RTP_TIMESTAMP_IS_NEWER_THAN a b \<Longrightarrow> RTP_TIMESTAMP_IS_NEWER_THAN b a \<Longrightarrow> a = b"
  by (auto simp: ts_newer_uint word_uint_eq_iff split: if_splits)

lemma seq_total: "a - b \<noteq> 0x8000 \<Longrightarrow> RTP_SEQ_IS_GREATER a b \<or> RTP_SEQ_IS_GREATER b a"
  by (auto simp: seq_greater_uint word_uint_eq_iff uint_diff_cases split: if_splits)

section \<open>Runs of an operation\<close>

text \<open>An operation that may fault, applied to a list of inputs in turn.\<close>

primrec run_steps :: "('i \<Rightarrow> 's \<Rightarrow> 's option) \<Rightarrow> 'i list \<Rightarrow> 's \<Rightarrow> 's option" where
  "run_steps step [] s = Some s"
| "run_steps step (i # is) s = step i s \<bind> run_steps step is"

lemma run_steps_append: "run_steps step (is @ js) s = run_steps step is s \<bind> run_steps step js"
  by (induction "is" arbitrary: s) (auto split: bind_splits)

text \<open>
  The contract of a component that is fed from outside: in a good state every input it accepts is
  treated without fault and leaves a good state.
\<close>

locale total_machine =
  fixes good :: "'s \<Rightarrow> bool"
    and accepts :: "'i \<Rightarrow> bool"
    and step :: "'i \<Rightarrow> 's \<Rightarrow> 's option"
  assumes step_total: "good s \<Longrightarrow> accepts i \<Longrightarrow> \<exists>s'. step i s = Some s' \<and> good s'"
begin

lemma run_total:
  "good s \<Longrightarrow> \<forall>i \<in> set is. accepts i \<Longrightarrow> \<exists>s'. run_steps step is s = Some s' \<and> good s'"
proof (induction "is" arbitrary: s)
  case (Cons i "is")
  then obtain s1 where "step i s = Some s1" "good s1"
    using step_total [OF Cons.prems(1), of i] by auto
  then show ?case using Cons by auto
qed simp

lemma run_good: "good s \<Longrightarrow> \<forall>i \<in> set is. accepts i \<Longrightarrow> run_steps step is s = Some s' \<Longrightarrow> good s'"
  using run_total [of s "is"] by simp

end

end
