(* ===== verification/Str_Utils.thy ===== *)
theory Str_Utils
  imports Prelude
begin

text \<open>
  Message blocks and message queues, \<^verbatim>\<open>oRTP/src/str_utils.c\<close> and
  \<^verbatim>\<open>oRTP/include/ortp/str_utils.h\<close>.

  The C code works on a graph of heap cells: \<^verbatim>\<open>mblk_t\<close> blocks that point to
  shared, reference counted \<^verbatim>\<open>dblk_t\<close> data buffers, chained by
  \<^verbatim>\<open>b_cont\<close> into fragmented messages and by \<^verbatim>\<open>b_next\<close> and
  \<^verbatim>\<open>b_prev\<close> into circular queues whose stopper block is embedded in the
  \<^verbatim>\<open>queue_t\<close>. The model keeps that graph: a \<open>heap\<close> maps pointers to records,
  and every access through a pointer that is \<^verbatim>\<open>NULL\<close>, was never allocated or has
  been freed makes the operation return \<open>None\<close>, as does a copy that leaves a buffer. An
  operation that returns \<open>Some\<close> has therefore executed without a memory fault. A queue is
  named by the address of its stopper.
\<close>

section \<open>The heap\<close>

record dblk =
  db_base :: int
  db_buf :: "u8 list"       \<comment> \<open>the bytes from \<open>db_base\<close> up to \<open>db_lim\<close>\<close>
  db_freefn :: "nat option"
  db_ref :: int

definition db_lim :: "dblk \<Rightarrow> int" where
  "db_lim d = db_base d + int (length (db_buf d))"

record mblk =
  b_prev :: "ptr option"
  b_next :: "ptr option"
  b_cont :: "ptr option"
  b_datap :: "ptr option"
  b_rptr :: int
  b_wptr :: int
  reserved1 :: u32
  reserved2 :: u32
  recv_addr :: nat

record heap =
  mblks :: "ptr \<rightharpoonup> mblk"
  dblks :: "ptr \<rightharpoonup> dblk"
  q_mcount :: "ptr \<rightharpoonup> int"          \<comment> \<open>\<open>queue_t.q_mcount\<close>, by the stopper's address\<close>
  next_ptr :: ptr                     \<comment> \<open>the allocator: no cell at or above it is in use\<close>
  brk :: int                          \<comment> \<open>the allocator: the next free byte address\<close>
  freefn_calls :: "(nat \<times> int) list"  \<comment> \<open>calls of user \<open>db_freefn\<close>s, newest first\<close>

definition upd_mblk :: "ptr \<Rightarrow> (mblk \<Rightarrow> mblk) \<Rightarrow> heap \<Rightarrow> heap option" where
  "upd_mblk p f h = (case mblks h p of None \<Rightarrow> None
     | Some m \<Rightarrow> Some (h\<lparr>mblks := (mblks h)(p \<mapsto> f m)\<rparr>))"

definition upd_dblk :: "ptr \<Rightarrow> (dblk \<Rightarrow> dblk) \<Rightarrow> heap \<Rightarrow> heap option" where
  "upd_dblk p f h = (case dblks h p of None \<Rightarrow> None
     | Some d \<Rightarrow> Some (h\<lparr>dblks := (dblks h)(p \<mapsto> f d)\<rparr>))"

definition upd_mcount :: "ptr \<Rightarrow> (int \<Rightarrow> int) \<Rightarrow> heap \<Rightarrow> heap option" where
  "upd_mcount q f h = (case q_mcount h q of None \<Rightarrow> None
     | Some n \<Rightarrow> Some (h\<lparr>q_mcount := (q_mcount h)(q \<mapsto> f n)\<rparr>))"

definition set_next :: "ptr \<Rightarrow> ptr option \<Rightarrow> heap \<Rightarrow> heap option" where
  "set_next p v = upd_mblk p (\<lambda>m. m\<lparr>b_next := v\<rparr>)"

definition set_prev :: "ptr \<Rightarrow> ptr option \<Rightarrow> heap \<Rightarrow> heap option" where
  "set_prev p v = upd_mblk p (\<lambda>m. m\<lparr>b_prev := v\<rparr>)"

definition get_next :: "ptr \<Rightarrow> heap \<Rightarrow> ptr option option" where
  "get_next p h = map_option b_next (mblks h p)"

definition get_prev :: "ptr \<Rightarrow> heap \<Rightarrow> ptr option option" where
  "get_prev p h = map_option b_prev (mblks h p)"

definition set_cont :: "ptr \<Rightarrow> ptr option \<Rightarrow> heap \<Rightarrow> heap option" where
  "set_cont p v = upd_mblk p (\<lambda>m. m\<lparr>b_cont := v\<rparr>)"

definition set_wptr :: "ptr \<Rightarrow> int \<Rightarrow> heap \<Rightarrow> heap option" where
  "set_wptr p v = upd_mblk p (\<lambda>m. m\<lparr>b_wptr := v\<rparr>)"

text \<open>\<^verbatim>\<open>memcpy\<close> from and to a data block; \<open>None\<close> outside its buffer.\<close>

definition db_read :: "dblk \<Rightarrow> int \<Rightarrow> nat \<Rightarrow> u8 list option" where
  "db_read d a n =
     (if db_base d \<le> a \<and> a + int n \<le> db_lim d
      then Some (take n (drop (nat (a - db_base d)) (db_buf d))) else None)"

definition db_write :: "dblk \<Rightarrow> int \<Rightarrow> u8 list \<Rightarrow> dblk option" where
  "db_write d a bs =
     (if db_base d \<le> a \<and> a + int (length bs) \<le> db_lim d
      then let i = nat (a - db_base d)
           in Some (d\<lparr>db_buf := take i (db_buf d) @ bs @ drop (i + length bs) (db_buf d)\<rparr>)
      else None)"

definition heap_write :: "ptr \<Rightarrow> int \<Rightarrow> u8 list \<Rightarrow> heap \<Rightarrow> heap option" where
  "heap_write dp a bs h = do {
     d \<leftarrow> dblks h dp;
     d' \<leftarrow> db_write d a bs;
     Some (h\<lparr>dblks := (dblks h)(dp \<mapsto> d')\<rparr>) }"

section \<open>Allocation and reference counting\<close>

text \<open>
  \<^verbatim>\<open>sizeof(dblk_t)\<close> on the armeabi-v7a target (three pointers and an
  \<^verbatim>\<open>int\<close>). \<^verbatim>\<open>ortp_malloc\<close> is taken not to fail and to return
  addresses aligned to 8, which is what the code relies on.
\<close>

definition SIZEOF_DBLK :: int where "SIZEOF_DBLK = 16"

definition align8 :: "int \<Rightarrow> int" where "align8 a = (a + 7) div 8 * 8"

definition mblk_init :: "mblk \<Rightarrow> mblk" where
  "mblk_init mp = mp\<lparr>b_cont := None, b_prev := None, b_next := None, b_rptr := 0, b_wptr := 0,
     reserved1 := 0, reserved2 := 0\<rparr>"

definition mblk_raw :: mblk where
  "mblk_raw = \<lparr>b_prev = None, b_next = None, b_cont = None, b_datap = None, b_rptr = 0, b_wptr = 0,
     reserved1 = 0, reserved2 = 0, recv_addr = 0\<rparr>"

definition mblk_alloc :: "heap \<Rightarrow> ptr \<times> heap" where
  "mblk_alloc h = (next_ptr h,
     h\<lparr>mblks := (mblks h)(next_ptr h \<mapsto> mblk_raw), next_ptr := Suc (next_ptr h)\<rparr>)"

definition mblk_meta_copy :: "mblk \<Rightarrow> mblk \<Rightarrow> mblk" where
  "mblk_meta_copy source dest =
     dest\<lparr>reserved1 := reserved1 source, reserved2 := reserved2 source\<rparr>"

definition datab_alloc :: "nat \<Rightarrow> heap \<Rightarrow> ptr \<times> heap" where
  "datab_alloc sz h =
     (let base = brk h + SIZEOF_DBLK;
          d = \<lparr>db_base = base, db_buf = replicate sz 0, db_freefn = None, db_ref = 1\<rparr>
      in (next_ptr h, h\<lparr>dblks := (dblks h)(next_ptr h \<mapsto> d), next_ptr := Suc (next_ptr h),
            brk := align8 (base + int sz)\<rparr>))"

definition datab_ref :: "ptr \<Rightarrow> heap \<Rightarrow> heap option" where
  "datab_ref dp = upd_dblk dp (\<lambda>d. d\<lparr>db_ref := db_ref d + 1\<rparr>)"

definition datab_unref :: "ptr \<Rightarrow> heap \<Rightarrow> heap option" where
  "datab_unref dp h = do {
     d \<leftarrow> dblks h dp;
     let d' = d\<lparr>db_ref := db_ref d - 1\<rparr>;
     if db_ref d' = 0
     then Some (h\<lparr>dblks := (dblks h)(dp := None),
            freefn_calls := (case db_freefn d of None \<Rightarrow> freefn_calls h
                             | Some fn \<Rightarrow> (fn, db_base d) # freefn_calls h)\<rparr>)
     else Some (h\<lparr>dblks := (dblks h)(dp \<mapsto> d')\<rparr>) }"

definition mblk_free :: "ptr \<Rightarrow> heap \<Rightarrow> heap option" where
  "mblk_free p h = (case mblks h p of None \<Rightarrow> None
     | Some _ \<Rightarrow> Some (h\<lparr>mblks := (mblks h)(p := None)\<rparr>))"

definition allocb :: "nat \<Rightarrow> heap \<Rightarrow> (ptr \<times> heap) option" where
  "allocb sz h0 =
     (let (mp, h1) = mblk_alloc h0;
          (dp, h2) = datab_alloc sz h1
      in do {
        d \<leftarrow> dblks h2 dp;
        h3 \<leftarrow> upd_mblk mp (\<lambda>m. (mblk_init m)\<lparr>b_datap := Some dp, b_rptr := db_base d,
                 b_wptr := db_base d\<rparr>) h2;
        Some (mp, h3) })"

text \<open>
  \<^verbatim>\<open>esballoc\<close> wraps the caller's buffer: \<open>a\<close> is its address, \<open>bs\<close> its bytes.
\<close>

definition esballoc :: "int \<Rightarrow> u8 list \<Rightarrow> nat option \<Rightarrow> heap \<Rightarrow> (ptr \<times> heap) option" where
  "esballoc a bs freefn h0 =
     (let (mp, h1) = mblk_alloc h0;
          dp = next_ptr h1;
          d = \<lparr>db_base = a, db_buf = bs, db_freefn = freefn, db_ref = 1\<rparr>;
          h2 = h1\<lparr>dblks := (dblks h1)(dp \<mapsto> d), next_ptr := Suc dp\<rparr>
      in do {
        h3 \<leftarrow> upd_mblk mp (\<lambda>m. (mblk_init m)\<lparr>b_datap := Some dp, b_rptr := a, b_wptr := a\<rparr>) h2;
        Some (mp, h3) })"

definition freeb :: "ptr \<Rightarrow> heap \<Rightarrow> heap option" where
  "freeb mp h = do {
     m \<leftarrow> mblks h mp;
     case b_datap m of
       None \<Rightarrow> Some h
     | Some dp \<Rightarrow> do {
         d \<leftarrow> dblks h dp;
         if db_base d = 0 then Some h
         else do { h1 \<leftarrow> datab_unref dp h; mblk_free mp h1 } } }"

partial_function (option) freemsg :: "ptr option \<Rightarrow> heap \<Rightarrow> heap option" where
  "freemsg tmp1 h = (case tmp1 of
      None \<Rightarrow> Some h
    | Some p \<Rightarrow> do {
        m \<leftarrow> mblks h p;
        h1 \<leftarrow> freeb p h;
        freemsg (b_cont m) h1 })"

definition dupb :: "ptr \<Rightarrow> heap \<Rightarrow> (ptr option \<times> heap) option" where
  "dupb mp h = do {
     m \<leftarrow> mblks h mp;
     case b_datap m of
       None \<Rightarrow> Some (None, h)
     | Some dp \<Rightarrow> do {
         d \<leftarrow> dblks h dp;
         if db_base d = 0 then Some (None, h)
         else do {
           h1 \<leftarrow> datab_ref dp h;
           let (newm, h2) = mblk_alloc h1;
           h3 \<leftarrow> upd_mblk newm (\<lambda>n. (mblk_meta_copy m (mblk_init n))\<lparr>b_datap := Some dp,
                    b_rptr := b_rptr m, b_wptr := b_wptr m\<rparr>) h2;
           Some (Some newm, h3) } } }"

text \<open>The loop of \<^verbatim>\<open>dupmsg\<close> over the rest of the chain.\<close>

partial_function (option) dupmsg_loop :: "ptr option \<Rightarrow> ptr option \<Rightarrow> heap \<Rightarrow> heap option" where
  "dupmsg_loop prev m h = (case m of
      None \<Rightarrow> Some h
    | Some p \<Rightarrow> do {
        (mp, h1) \<leftarrow> dupb p h;
        pr \<leftarrow> prev;
        h2 \<leftarrow> set_cont pr mp h1;
        mb \<leftarrow> mblks h2 p;
        dupmsg_loop mp (b_cont mb) h2 })"

definition dupmsg :: "ptr \<Rightarrow> heap \<Rightarrow> (ptr option \<times> heap) option" where
  "dupmsg m h = do {
     (newm, h1) \<leftarrow> dupb m h;
     mb \<leftarrow> mblks h1 m;
     h2 \<leftarrow> dupmsg_loop newm (b_cont mb) h1;
     Some (newm, h2) }"

section \<open>Queues\<close>

definition qinit :: "ptr \<Rightarrow> heap \<Rightarrow> heap option" where
  "qinit q h = do {
     h1 \<leftarrow> upd_mblk q (\<lambda>m. (mblk_init m)\<lparr>b_next := Some q, b_prev := Some q\<rparr>) h;
     Some (h1\<lparr>q_mcount := (q_mcount h1)(q \<mapsto> 0)\<rparr>) }"

definition putq :: "ptr \<Rightarrow> ptr \<Rightarrow> heap \<Rightarrow> heap option" where
  "putq q mp h = do {
     l \<leftarrow> get_prev q h;
     last \<leftarrow> l;
     h1 \<leftarrow> set_next last (Some mp) h;
     l1 \<leftarrow> get_prev q h1;
     h2 \<leftarrow> set_prev mp l1 h1;
     h3 \<leftarrow> set_next mp (Some q) h2;
     h4 \<leftarrow> set_prev q (Some mp) h3;
     upd_mcount q (\<lambda>n. n + 1) h4 }"

definition getq :: "ptr \<Rightarrow> heap \<Rightarrow> (ptr option \<times> heap) option" where
  "getq q h = do {
     t \<leftarrow> get_next q h;
     if t = Some q then Some (None, h)
     else do {
       tmp \<leftarrow> t;
       n \<leftarrow> get_next tmp h;
       h1 \<leftarrow> set_next q n h;
       n1 \<leftarrow> get_next tmp h1;
       nxt \<leftarrow> n1;
       h2 \<leftarrow> set_prev nxt (Some q) h1;
       h3 \<leftarrow> set_prev tmp None h2;
       h4 \<leftarrow> set_next tmp None h3;
       h5 \<leftarrow> upd_mcount q (\<lambda>n. n - 1) h4;
       Some (Some tmp, h5) } }"

definition peekq :: "ptr \<Rightarrow> heap \<Rightarrow> ptr option option" where
  "peekq q h = do {
     tmp \<leftarrow> get_next q h;
     Some (if tmp = Some q then None else tmp) }"

definition insq :: "ptr \<Rightarrow> ptr option \<Rightarrow> ptr \<Rightarrow> heap \<Rightarrow> heap option" where
  "insq q emp mp h = (case emp of
      None \<Rightarrow> putq q mp h
    | Some e \<Rightarrow> do {
        h1 \<leftarrow> upd_mcount q (\<lambda>n. n + 1) h;
        l \<leftarrow> get_prev e h1;
        pr \<leftarrow> l;
        h2 \<leftarrow> set_next pr (Some mp) h1;
        l2 \<leftarrow> get_prev e h2;
        h3 \<leftarrow> set_prev mp l2 h2;
        h4 \<leftarrow> set_prev e (Some mp) h3;
        set_next mp (Some e) h4 })"

definition remq :: "ptr \<Rightarrow> ptr \<Rightarrow> heap \<Rightarrow> heap option" where
  "remq q mp h = do {
     h1 \<leftarrow> upd_mcount q (\<lambda>n. n - 1) h;
     l \<leftarrow> get_prev mp h1;
     pr \<leftarrow> l;
     n \<leftarrow> get_next mp h1;
     h2 \<leftarrow> set_next pr n h1;
     n2 \<leftarrow> get_next mp h2;
     nxt \<leftarrow> n2;
     l2 \<leftarrow> get_prev mp h2;
     h3 \<leftarrow> set_prev nxt l2 h2;
     h4 \<leftarrow> set_next mp None h3;
     set_prev mp None h4 }"

text \<open>The queue macros of the header.\<close>

definition qempty :: "ptr \<Rightarrow> heap \<Rightarrow> bool option" where
  "qempty q h = do { n \<leftarrow> get_next q h; Some (n = Some q) }"

definition qfirst :: "ptr \<Rightarrow> heap \<Rightarrow> ptr option option" where
  "qfirst q h = do { n \<leftarrow> get_next q h; Some (if n \<noteq> Some q then n else None) }"

definition qbegin :: "ptr \<Rightarrow> heap \<Rightarrow> ptr option option" where
  "qbegin q h = get_next q h"

definition qlast :: "ptr \<Rightarrow> heap \<Rightarrow> ptr option option" where
  "qlast q h = do { l \<leftarrow> get_prev q h; Some (if l \<noteq> Some q then l else None) }"

partial_function (option) flushq :: "ptr \<Rightarrow> heap \<Rightarrow> heap option" where
  "flushq q h = do {
     (mp, h1) \<leftarrow> getq q h;
     case mp of None \<Rightarrow> Some h1
     | Some p \<Rightarrow> do { h2 \<leftarrow> freemsg (Some p) h1; flushq q h2 } }"

section \<open>Message contents\<close>

partial_function (option) msgdsize_loop :: "ptr option \<Rightarrow> int \<Rightarrow> heap \<Rightarrow> int option" where
  "msgdsize_loop mp msgsize h = (case mp of
      None \<Rightarrow> Some msgsize
    | Some p \<Rightarrow> do {
        m \<leftarrow> mblks h p;
        msgdsize_loop (b_cont m) (msgsize + (b_wptr m - b_rptr m)) h })"

definition msgdsize :: "ptr option \<Rightarrow> heap \<Rightarrow> int option" where
  "msgdsize mp h = msgdsize_loop mp 0 h"

text \<open>The bytes a block holds between its read and write pointers.\<close>

definition blk_bytes :: "heap \<Rightarrow> ptr \<Rightarrow> u8 list option" where
  "blk_bytes h p = do {
     m \<leftarrow> mblks h p;
     dp \<leftarrow> b_datap m;
     d \<leftarrow> dblks h dp;
     if b_wptr m < b_rptr m then None else db_read d (b_rptr m) (nat (b_wptr m - b_rptr m)) }"

partial_function (option) msgpullup_loop ::
  "ptr \<Rightarrow> int \<Rightarrow> int \<Rightarrow> ptr option \<Rightarrow> heap \<Rightarrow> (int \<times> heap) option" where
  "msgpullup_loop db len wlen mp h = (case mp of
      None \<Rightarrow> Some (wlen, h)
    | Some p \<Rightarrow>
        if wlen < len then do {
          m \<leftarrow> mblks h p;
          dp \<leftarrow> b_datap m;
          d \<leftarrow> dblks h dp;
          nd \<leftarrow> dblks h db;
          let remain = len - wlen;
          let mlen = b_wptr m - b_rptr m;
          if mlen < 0 then None
          else if mlen \<le> remain then do {
            bs \<leftarrow> db_read d (b_rptr m) (nat mlen);
            h1 \<leftarrow> heap_write db (db_base nd + wlen) bs h;
            msgpullup_loop db len (wlen + mlen) (b_cont m) h1 }
          else do {
            bs \<leftarrow> db_read d (b_rptr m) (nat remain);
            h1 \<leftarrow> heap_write db (db_base nd + wlen) bs h;
            msgpullup_loop db len (wlen + remain) mp h1 } }
        else Some (wlen, h))"

definition msgpullup :: "ptr \<Rightarrow> int \<Rightarrow> heap \<Rightarrow> heap option" where
  "msgpullup firstm len h = do {
     m \<leftarrow> mblks h firstm;
     if b_cont m = None \<and> len = -1 then Some h
     else do {
       len' \<leftarrow> (if len = -1 then msgdsize (Some firstm) h else Some len);
       let (db, h1) = datab_alloc (nat len') h;
       (wlen, h2) \<leftarrow> msgpullup_loop db len' 0 (Some firstm) h1;
       m2 \<leftarrow> mblks h2 firstm;
       h3 \<leftarrow> freemsg (b_cont m2) h2;
       h4 \<leftarrow> set_cont firstm None h3;
       m4 \<leftarrow> mblks h4 firstm;
       odp \<leftarrow> b_datap m4;
       h5 \<leftarrow> datab_unref odp h4;
       d \<leftarrow> dblks h5 db;
       upd_mblk firstm (\<lambda>m. m\<lparr>b_datap := Some db, b_rptr := db_base d,
           b_wptr := db_base d + wlen\<rparr>) h5 } }"

definition copyb :: "ptr \<Rightarrow> heap \<Rightarrow> (ptr \<times> heap) option" where
  "copyb mp h = do {
     m \<leftarrow> mblks h mp;
     let len = b_wptr m - b_rptr m;
     (newm, h1) \<leftarrow> allocb (nat len) h;
     dp \<leftarrow> b_datap m;
     d \<leftarrow> dblks h1 dp;
     bs \<leftarrow> (if len < 0 then None else db_read d (b_rptr m) (nat len));
     n \<leftarrow> mblks h1 newm;
     ndp \<leftarrow> b_datap n;
     h2 \<leftarrow> heap_write ndp (b_wptr n) bs h1;
     h3 \<leftarrow> upd_mblk newm (\<lambda>n. n\<lparr>b_wptr := b_wptr n + len, recv_addr := recv_addr m\<rparr>) h2;
     Some (newm, h3) }"

partial_function (option) copymsg_loop :: "ptr \<Rightarrow> ptr option \<Rightarrow> heap \<Rightarrow> heap option" where
  "copymsg_loop m mp h = (case mp of
      None \<Rightarrow> Some h
    | Some p \<Rightarrow> do {
        (c, h1) \<leftarrow> copyb p h;
        h2 \<leftarrow> set_cont m (Some c) h1;
        mb \<leftarrow> mblks h2 p;
        copymsg_loop c (b_cont mb) h2 })"

definition copymsg :: "ptr \<Rightarrow> heap \<Rightarrow> (ptr \<times> heap) option" where
  "copymsg mp h = do {
     (newm, h1) \<leftarrow> copyb mp h;
     mb \<leftarrow> mblks h1 mp;
     h2 \<leftarrow> copymsg_loop newm (b_cont mb) h1;
     Some (newm, h2) }"

definition pad_count :: "int \<Rightarrow> int \<Rightarrow> bool \<Rightarrow> int" where
  "pad_count wptr sz pad = (if pad then (4 - (wptr + sz) mod 4) mod 4 else 0)"

definition appendb :: "ptr \<Rightarrow> u8 list \<Rightarrow> bool \<Rightarrow> heap \<Rightarrow> (ptr \<times> heap) option" where
  "appendb mp data pad h = do {
     m \<leftarrow> mblks h mp;
     dp \<leftarrow> b_datap m;
     d \<leftarrow> dblks h dp;
     let sz = int (length data);
     let padcnt = pad_count (b_wptr m) sz pad;
     (mp1, h1) \<leftarrow>
       (if b_wptr m + sz + padcnt > db_lim d
        then do {
          (n, h1) \<leftarrow> allocb (nat (max (db_lim d - db_base d) sz)) h;
          h2 \<leftarrow> set_cont mp (Some n) h1;
          Some (n, h2) }
        else Some (mp, h));
     m1 \<leftarrow> mblks h1 mp1;
     dp1 \<leftarrow> b_datap m1;
     h2 \<leftarrow> heap_write dp1 (b_wptr m1) data h1;
     h3 \<leftarrow> heap_write dp1 (b_wptr m1 + sz) (replicate (nat padcnt) 0) h2;
     h4 \<leftarrow> set_wptr mp1 (b_wptr m1 + sz + padcnt) h3;
     Some (mp1, h4) }"

partial_function (option) last_cont :: "ptr \<Rightarrow> heap \<Rightarrow> ptr option" where
  "last_cont mp h = do {
     m \<leftarrow> mblks h mp;
     case b_cont m of None \<Rightarrow> Some mp | Some c \<Rightarrow> last_cont c h }"

definition msgappend :: "ptr \<Rightarrow> u8 list \<Rightarrow> bool \<Rightarrow> heap \<Rightarrow> heap option" where
  "msgappend mp data pad h = do {
     l \<leftarrow> last_cont mp h;
     (_, h1) \<leftarrow> appendb l data pad h;
     Some h1 }"

definition concatb :: "ptr \<Rightarrow> ptr option \<Rightarrow> heap \<Rightarrow> (ptr \<times> heap) option" where
  "concatb mp newm h = do {
     l \<leftarrow> last_cont mp h;
     h1 \<leftarrow> set_cont l newm h;
     n \<leftarrow> newm;
     r \<leftarrow> last_cont n h1;
     Some (r, h1) }"

section \<open>The message allocator\<close>

definition msgb_allocator_init :: "ptr \<Rightarrow> heap \<Rightarrow> heap option" where
  "msgb_allocator_init q h = qinit q h"

text \<open>The search for a block that only the allocator itself still references.\<close>

partial_function (option) msgb_allocator_find ::
  "ptr \<Rightarrow> nat \<Rightarrow> ptr option \<Rightarrow> heap \<Rightarrow> ptr option option" where
  "msgb_allocator_find q sz m h =
     (if m = Some q then Some None
      else do {
        p \<leftarrow> m;
        mb \<leftarrow> mblks h p;
        dp \<leftarrow> b_datap mb;
        d \<leftarrow> dblks h dp;
        if db_ref d = 1 \<and> db_lim d - db_base d \<ge> int sz then Some (Some p)
        else msgb_allocator_find q sz (b_next mb) h })"

definition msgb_allocator_alloc :: "ptr \<Rightarrow> nat \<Rightarrow> heap \<Rightarrow> (ptr option \<times> heap) option" where
  "msgb_allocator_alloc q sz h = do {
     b \<leftarrow> qbegin q h;
     found \<leftarrow> msgb_allocator_find q sz b h;
     (f, h1) \<leftarrow> (case found of
         Some p \<Rightarrow> Some (p, h)
       | None \<Rightarrow> do {
           (p, h1) \<leftarrow> allocb sz h;
           h2 \<leftarrow> putq q p h1;
           Some (p, h2) });
     dupb f h1 }"

definition msgb_allocator_uninit :: "ptr \<Rightarrow> heap \<Rightarrow> heap option" where
  "msgb_allocator_uninit q h = flushq q h"

end
