(* ===== verification/Msg_Queue.thy ===== *)
theory Msg_Queue
  imports Str_Utils
begin

text \<open>
  The queues of \<^verbatim>\<open>str_utils.c\<close> refine lists. \<open>q_rep h q xs\<close> says that the
  stopper \<open>q\<close> and the blocks \<open>xs\<close> form one circular doubly linked ring whose counter is the
  length of \<open>xs\<close>. Each queue operation is shown to run without a fault on such a ring and to
  act on \<open>xs\<close> as the list operation of its name. The contract is packaged as the locale
  \<open>msg_queue\<close>, which the packet queue of the RTP session uses.
\<close>

section \<open>Links of a heap\<close>

definition nx :: "heap \<Rightarrow> ptr \<Rightarrow> ptr option" where
  "nx h p = (case mblks h p of None \<Rightarrow> None | Some m \<Rightarrow> b_next m)"

definition pv :: "heap \<Rightarrow> ptr \<Rightarrow> ptr option" where
  "pv h p = (case mblks h p of None \<Rightarrow> None | Some m \<Rightarrow> b_prev m)"

text \<open>
  The part of the heap the queue operations leave alone: all fields of a block but its links,
  and all data blocks.
\<close>

definition mcore :: "heap \<Rightarrow> ptr \<Rightarrow> mblk option" where
  "mcore h p = map_option (\<lambda>m. m\<lparr>b_next := None, b_prev := None\<rparr>) (mblks h p)"

definition same_msgs :: "heap \<Rightarrow> heap \<Rightarrow> bool" where
  "same_msgs h h' \<longleftrightarrow> mcore h' = mcore h \<and> dblks h' = dblks h \<and> next_ptr h' = next_ptr h \<and>
     brk h' = brk h \<and> freefn_calls h' = freefn_calls h"

lemma same_msgs_refl [simp]: "same_msgs h h"
  by (simp add: same_msgs_def)

lemma same_msgs_trans: "same_msgs h h1 \<Longrightarrow> same_msgs h1 h2 \<Longrightarrow> same_msgs h h2"
  by (simp add: same_msgs_def)

lemma same_msgs_dom:
  assumes "same_msgs h h'"
  shows "dom (mblks h') = dom (mblks h)"
proof -
  have "mblks h' p = None \<longleftrightarrow> mblks h p = None" for p
    using assms unfolding same_msgs_def mcore_def by (metis map_option_is_None)
  then show ?thesis by (auto simp: dom_def)
qed

text \<open>
  The writes in the form they take on allocated blocks, and what reads see after them.
\<close>

definition w_next :: "ptr \<Rightarrow> ptr option \<Rightarrow> heap \<Rightarrow> heap" where
  "w_next p v h = h\<lparr>mblks := (mblks h)(p := map_option (\<lambda>m. m\<lparr>b_next := v\<rparr>) (mblks h p))\<rparr>"

definition w_prev :: "ptr \<Rightarrow> ptr option \<Rightarrow> heap \<Rightarrow> heap" where
  "w_prev p v h = h\<lparr>mblks := (mblks h)(p := map_option (\<lambda>m. m\<lparr>b_prev := v\<rparr>) (mblks h p))\<rparr>"

definition w_mcount :: "ptr \<Rightarrow> int \<Rightarrow> heap \<Rightarrow> heap" where
  "w_mcount q n h = h\<lparr>q_mcount := (q_mcount h)(q \<mapsto> n)\<rparr>"

lemma set_next_w [heap_simps]: "p \<in> dom (mblks h) \<Longrightarrow> set_next p v h = Some (w_next p v h)"
  by (auto simp: set_next_def upd_mblk_def w_next_def)

lemma set_prev_w [heap_simps]: "p \<in> dom (mblks h) \<Longrightarrow> set_prev p v h = Some (w_prev p v h)"
  by (auto simp: set_prev_def upd_mblk_def w_prev_def)

lemma upd_mcount_w [heap_simps]:
  "q_mcount h q = Some n \<Longrightarrow> upd_mcount q f h = Some (w_mcount q (f n) h)"
  by (simp add: upd_mcount_def w_mcount_def)

lemma get_next_nx [heap_simps]: "p \<in> dom (mblks h) \<Longrightarrow> get_next p h = Some (nx h p)"
  by (auto simp: get_next_def nx_def)

lemma get_prev_pv [heap_simps]: "p \<in> dom (mblks h) \<Longrightarrow> get_prev p h = Some (pv h p)"
  by (auto simp: get_prev_def pv_def)

lemma dom_w [heap_simps]:
  "dom (mblks (w_next p v h)) = dom (mblks h)"
  "dom (mblks (w_prev p v h)) = dom (mblks h)"
  "dom (mblks (w_mcount q n h)) = dom (mblks h)"
  by (auto simp: w_next_def w_prev_def w_mcount_def dom_def split: if_splits)

lemma nx_w [heap_simps]:
  "p \<in> dom (mblks h) \<Longrightarrow> nx (w_next p v h) = (nx h)(p := v)"
  "nx (w_prev p v h) = nx h"
  "nx (w_mcount q n h) = nx h"
  by (auto simp: w_next_def w_prev_def w_mcount_def nx_def fun_eq_iff split: option.splits)

lemma pv_w [heap_simps]:
  "pv (w_next p v h) = pv h"
  "p \<in> dom (mblks h) \<Longrightarrow> pv (w_prev p v h) = (pv h)(p := v)"
  "pv (w_mcount q n h) = pv h"
  by (auto simp: w_next_def w_prev_def w_mcount_def pv_def fun_eq_iff split: option.splits)

lemma q_mcount_w [heap_simps]:
  "q_mcount (w_next p v h) = q_mcount h"
  "q_mcount (w_prev p v h) = q_mcount h"
  "q_mcount (w_mcount q n h) = (q_mcount h)(q \<mapsto> n)"
  by (simp_all add: w_next_def w_prev_def w_mcount_def)

lemma same_msgs_w [heap_simps]:
  "same_msgs h0 (w_next p v h) \<longleftrightarrow> same_msgs h0 h"
  "same_msgs h0 (w_prev p v h) \<longleftrightarrow> same_msgs h0 h"
  "same_msgs h0 (w_mcount q n h) \<longleftrightarrow> same_msgs h0 h"
proof -
  have "mcore (w_next p v h) = mcore h" "mcore (w_prev p v h) = mcore h"
      "mcore (w_mcount q n h) = mcore h"
    by (auto simp: w_next_def w_prev_def w_mcount_def mcore_def fun_eq_iff option.map_comp o_def)
  then show "same_msgs h0 (w_next p v h) \<longleftrightarrow> same_msgs h0 h"
    "same_msgs h0 (w_prev p v h) \<longleftrightarrow> same_msgs h0 h"
    "same_msgs h0 (w_mcount q n h) \<longleftrightarrow> same_msgs h0 h"
    by (simp_all add: same_msgs_def w_next_def w_prev_def w_mcount_def)
qed

section \<open>Doubly linked segments\<close>

fun dseg :: "(ptr \<Rightarrow> ptr option) \<Rightarrow> (ptr \<Rightarrow> ptr option) \<Rightarrow> ptr \<Rightarrow> ptr list \<Rightarrow> ptr \<Rightarrow> bool" where
  "dseg n p a [] b \<longleftrightarrow> n a = Some b \<and> p b = Some a"
| "dseg n p a (x # xs) b \<longleftrightarrow> n a = Some x \<and> p x = Some a \<and> dseg n p x xs b"

lemma dseg_append: "dseg n p a (xs @ y # ys) b \<longleftrightarrow> dseg n p a xs y \<and> dseg n p y ys b"
  by (induction xs arbitrary: a) auto

lemma dseg_next: "dseg n p a xs b \<Longrightarrow> n a = Some (hd (xs @ [b]))"
  by (cases xs) auto

lemma dseg_prev: "dseg n p a xs b \<Longrightarrow> p b = Some (last (a # xs))"
  by (induction xs arbitrary: a) auto

lemma dseg_frame:
  assumes "\<And>c. c \<in> set (a # xs) \<Longrightarrow> n' c = n c" and "\<And>c. c \<in> set (b # xs) \<Longrightarrow> p' c = p c"
  shows "dseg n' p' a xs b \<longleftrightarrow> dseg n p a xs b"
  using assms
proof (induction xs arbitrary: a)
  case Nil
  then show ?case by simp
next
  case (Cons x xs)
  have "dseg n' p' x xs b \<longleftrightarrow> dseg n p x xs b"
    using Cons.prems by (intro Cons.IH) auto
  with Cons.prems show ?case by simp
qed

text \<open>Linking \<open>m\<close> in front of the end of a segment.\<close>

lemma dseg_insert:
  assumes seg: "dseg n p a xs b" and m: "m \<notin> set (a # b # xs)" and b: "b \<notin> set xs"
    and d: "distinct (a # xs)"
  shows "dseg (n(last (a # xs) := Some m, m := Some b)) (p(m := Some (last (a # xs)), b := Some m))
           a (xs @ [m]) b"
proof (cases xs rule: rev_exhaust)
  case Nil
  then show ?thesis using assms by auto
next
  case (snoc ys y)
  let ?n = "n(y := Some m, m := Some b)" and ?p = "p(m := Some y, b := Some m)"
  from seg snoc have ay: "dseg n p a ys y" by (simp add: dseg_append)
  have "dseg ?n ?p a ys y"
    by (rule dseg_frame [THEN iffD2, OF _ _ ay]) (use m b d snoc in auto)
  then show ?thesis using m b d snoc by (auto simp: dseg_append)
qed

text \<open>Taking the block \<open>m\<close> between two segments out.\<close>

lemma dseg_remove:
  assumes l: "dseg n p a xs m" and r: "dseg n p m ys b"
    and d: "distinct (a # xs @ m # ys)" and b: "b \<notin> set (xs @ m # ys)"
  shows "dseg (n(last (a # xs) := Some (hd (ys @ [b])), m := None))
              (p(hd (ys @ [b]) := Some (last (a # xs)), m := None)) a (xs @ ys) b"
    (is "dseg ?n ?p a (xs @ ys) b")
proof (cases ys)
  case Nil
  show ?thesis
  proof (cases xs rule: rev_exhaust)
    case Nil
    then show ?thesis using \<open>ys = []\<close> d b by auto
  next
    case (snoc zs z)
    from l snoc have "dseg n p a zs z" by (simp add: dseg_append)
    then have "dseg ?n ?p a zs z"
      by (rule dseg_frame [THEN iffD2, rotated 2]) (use d b snoc \<open>ys = []\<close> in auto)
    then show ?thesis using d b snoc \<open>ys = []\<close> by (auto simp: dseg_append)
  qed
next
  case (Cons y ys')
  from r Cons have yb: "dseg n p y ys' b" by simp
  have "last (a # xs) \<in> set (a # xs)" by (rule last_in_set) simp
  then have "last (a # xs) \<notin> set (y # ys')" using d Cons by auto
  then have R: "dseg ?n ?p y ys' b"
    by (intro dseg_frame [THEN iffD2, OF _ _ yb]) (use d b Cons in \<open>auto simp del: last.simps\<close>)
  show ?thesis
  proof (cases xs rule: rev_exhaust)
    case Nil
    then show ?thesis using R Cons d b by auto
  next
    case (snoc zs z)
    from l snoc have "dseg n p a zs z" by (simp add: dseg_append)
    then have "dseg ?n ?p a zs z"
      by (rule dseg_frame [THEN iffD2, rotated 2]) (use d b snoc Cons in auto)
    then show ?thesis using R d b snoc Cons by (auto simp: dseg_append)
  qed
qed

section \<open>Queues as lists\<close>

definition q_rep :: "heap \<Rightarrow> ptr \<Rightarrow> ptr list \<Rightarrow> bool" where
  "q_rep h q xs \<longleftrightarrow> dseg (nx h) (pv h) q xs q \<and> distinct (q # xs) \<and>
     set (q # xs) \<subseteq> dom (mblks h) \<and> q_mcount h q = Some (int (length xs))"

text \<open>A block that is in no list yet.\<close>

definition unlinked :: "heap \<Rightarrow> ptr \<Rightarrow> ptr list \<Rightarrow> ptr \<Rightarrow> bool" where
  "unlinked h q xs mp \<longleftrightarrow> mp \<in> dom (mblks h) \<and> mp \<notin> set (q # xs)"

lemma q_rep_next: "q_rep h q xs \<Longrightarrow> nx h q = Some (hd (xs @ [q]))"
  by (auto simp: q_rep_def dest: dseg_next)

lemma q_rep_prev: "q_rep h q xs \<Longrightarrow> pv h q = Some (last (q # xs))"
  unfolding q_rep_def using dseg_prev by blast

lemma q_rep_alloc: "q_rep h q xs \<Longrightarrow> c \<in> set (q # xs) \<Longrightarrow> c \<in> dom (mblks h)"
  by (auto simp: q_rep_def)

theorem putq_refines:
  assumes q: "q_rep h q xs" and mp: "unlinked h q xs mp"
  shows "\<exists>h'. putq q mp h = Some h' \<and> q_rep h' q (xs @ [mp]) \<and> same_msgs h h'"
proof -
  let ?l = "last (q # xs)"
  have d: "?l \<in> dom (mblks h)" "q \<in> dom (mblks h)" "mp \<in> dom (mblks h)"
    using q_rep_alloc [OF q last_in_set] q mp by (auto simp: q_rep_def unlinked_def)
  have pvq: "pv h q = Some ?l" and c: "q_mcount h q = Some (int (length xs))"
    using q_rep_prev [OF q] q by (simp_all add: q_rep_def)
  let ?h = "w_mcount q (int (length xs) + 1)
              (w_prev q (Some mp) (w_next mp (Some q) (w_prev mp (Some ?l) (w_next ?l (Some mp) h))))"
  have "putq q mp h = Some ?h"
    using d pvq c by (simp add: putq_def heap_simps del: last.simps)
  moreover have "q_rep ?h q (xs @ [mp])"
    using dseg_insert [of "nx h" "pv h" q xs q mp] q mp d
    by (auto simp: q_rep_def unlinked_def heap_simps simp del: last.simps)
  moreover have "same_msgs h ?h" by (simp add: heap_simps)
  ultimately show ?thesis by blast
qed

theorem insq_refines:
  assumes q: "q_rep h q (xs @ e # ys)" and mp: "unlinked h q (xs @ e # ys) mp"
  shows "\<exists>h'. insq q (Some e) mp h = Some h' \<and> q_rep h' q (xs @ mp # e # ys) \<and> same_msgs h h'"
proof -
  let ?l = "last (q # xs)"
  have l: "?l \<in> set (q # xs)" by (rule last_in_set) simp
  then have d: "?l \<in> dom (mblks h)" "q \<in> dom (mblks h)" "e \<in> dom (mblks h)" "mp \<in> dom (mblks h)"
    using q mp by (auto simp: q_rep_def unlinked_def simp del: last.simps)
  have xe: "dseg (nx h) (pv h) q xs e" and ey: "dseg (nx h) (pv h) e ys q"
    using q by (simp_all add: q_rep_def dseg_append)
  have pve: "pv h e = Some ?l" using dseg_prev [OF xe] .
  have c: "q_mcount h q = Some (int (length (xs @ e # ys)))" using q by (simp add: q_rep_def)
  let ?h = "w_next mp (Some e) (w_prev e (Some mp) (w_prev mp (Some ?l) (w_next ?l (Some mp)
              (w_mcount q (int (length (xs @ e # ys)) + 1) h))))"
  have "insq q (Some e) mp h = Some ?h"
    using d pve c by (simp add: insq_def heap_simps del: last.simps)
  moreover have "dseg (nx ?h) (pv ?h) q (xs @ [mp]) e"
    using dseg_insert [OF xe, of mp] q mp d
    by (auto simp: q_rep_def unlinked_def heap_simps simp del: last.simps)
  moreover have "dseg (nx ?h) (pv ?h) e ys q"
    by (rule dseg_frame [THEN iffD2, OF _ _ ey])
       (use q mp d l in \<open>auto simp: q_rep_def unlinked_def heap_simps simp del: last.simps\<close>)
  ultimately have "insq q (Some e) mp h = Some ?h \<and> q_rep ?h q (xs @ mp # e # ys)"
    using q mp d by (auto simp: q_rep_def unlinked_def heap_simps dseg_append simp del: last.simps)
  then show ?thesis by (intro exI [of _ ?h]) (simp add: heap_simps)
qed

lemma insq_None_refines:
  assumes "q_rep h q xs" and "unlinked h q xs mp"
  shows "\<exists>h'. insq q None mp h = Some h' \<and> q_rep h' q (xs @ [mp]) \<and> same_msgs h h'"
  using putq_refines [OF assms] by (simp add: insq_def)

lemma getq_empty:
  assumes "q_rep h q []"
  shows "getq q h = Some (None, h)"
  using assms by (simp add: q_rep_def getq_def heap_simps)

theorem getq_refines:
  assumes q: "q_rep h q (x # ys)"
  shows "\<exists>h'. getq q h = Some (Some x, h') \<and> q_rep h' q ys \<and> same_msgs h h'
           \<and> nx h' x = None \<and> pv h' x = None"
proof -
  let ?n = "hd (ys @ [q])"
  have xq: "x \<noteq> q" and qx: "nx h q = Some x"
    and seg: "dseg (nx h) (pv h) q [] x" "dseg (nx h) (pv h) x ys q"
    using q by (auto simp: q_rep_def)
  have nxx: "nx h x = Some ?n" using dseg_next [OF seg(2)] .
  have "?n \<in> set (ys @ [q])" by (rule hd_in_set) simp
  then have n: "?n \<in> dom (mblks h)" "?n \<noteq> x" using q by (auto simp: q_rep_def)
  have d: "q \<in> dom (mblks h)" "x \<in> dom (mblks h)" using q by (auto simp: q_rep_def)
  have c: "q_mcount h q = Some (int (length (x # ys)))" using q by (simp add: q_rep_def)
  let ?h = "w_mcount q (int (length ys))
              (w_next x None (w_prev x None (w_prev ?n (Some q) (w_next q (Some ?n) h))))"
  have "getq q h = Some (Some x, ?h)"
    using d n qx nxx xq c by (simp add: getq_def heap_simps)
  moreover have "dseg (nx ?h) (pv ?h) q ([] @ ys) q"
    using dseg_remove [OF seg] q d n by (auto simp: q_rep_def heap_simps fun_upd_twist)
  then have "q_rep ?h q ys" using q d n by (auto simp: q_rep_def heap_simps)
  moreover have "nx ?h x = None" "pv ?h x = None" using d n by (simp_all add: heap_simps)
  moreover have "same_msgs h ?h" by (simp add: heap_simps)
  ultimately show ?thesis by blast
qed

theorem remq_refines:
  assumes q: "q_rep h q (xs @ m # ys)"
  shows "\<exists>h'. remq q m h = Some h' \<and> q_rep h' q (xs @ ys) \<and> same_msgs h h'
           \<and> nx h' m = None \<and> pv h' m = None"
proof -
  let ?l = "last (q # xs)" and ?n = "hd (ys @ [q])"
  have seg: "dseg (nx h) (pv h) q xs m" "dseg (nx h) (pv h) m ys q"
    using q by (simp_all add: q_rep_def dseg_append)
  have pvm: "pv h m = Some ?l" and nxm: "nx h m = Some ?n"
    using dseg_prev [OF seg(1)] dseg_next [OF seg(2)] by blast+
  have "?n \<in> set (ys @ [q])" "?l \<in> set (q # xs)" by (rule hd_in_set last_in_set, simp)+
  then have d: "?n \<in> dom (mblks h)" "?l \<in> dom (mblks h)" "m \<in> dom (mblks h)" "?n \<noteq> m" "?l \<noteq> m"
    using q by (auto simp: q_rep_def simp del: last.simps)
  have c: "q_mcount h q = Some (int (length (xs @ m # ys)))" using q by (simp add: q_rep_def)
  let ?h = "w_prev m None (w_next m None (w_prev ?n (Some ?l) (w_next ?l (Some ?n)
              (w_mcount q (int (length (xs @ m # ys)) - 1) h))))"
  have "remq q m h = Some ?h"
    using d pvm nxm c by (simp add: remq_def heap_simps del: last.simps)
  moreover have "dseg (nx ?h) (pv ?h) q (xs @ ys) q"
    using dseg_remove [OF seg] q d by (auto simp: q_rep_def heap_simps simp del: last.simps)
  then have "q_rep ?h q (xs @ ys)"
    using q d by (auto simp: q_rep_def heap_simps simp del: last.simps)
  moreover have "nx ?h m = None" "pv ?h m = None" using d by (simp_all add: heap_simps)
  moreover have "same_msgs h ?h" by (simp add: heap_simps)
  ultimately show ?thesis by blast
qed

lemma qinit_refines:
  assumes "q \<in> dom (mblks h)"
  shows "\<exists>h'. qinit q h = Some h' \<and> q_rep h' q []"
proof -
  from assms obtain m where "mblks h q = Some m" by auto
  then show ?thesis
    by (auto simp: qinit_def upd_mblk_def q_rep_def nx_def pv_def mblk_init_def)
qed

lemma qempty_refines: "q_rep h q xs \<Longrightarrow> qempty q h = Some (xs = [])"
  by (cases xs) (auto simp: qempty_def q_rep_def heap_simps)

lemma qfirst_refines:
  "q_rep h q xs \<Longrightarrow> qfirst q h = Some (case xs of [] \<Rightarrow> None | x # _ \<Rightarrow> Some x)"
  by (cases xs) (auto simp: qfirst_def q_rep_def heap_simps)

lemma peekq_refines:
  "q_rep h q xs \<Longrightarrow> peekq q h = Some (case xs of [] \<Rightarrow> None | x # _ \<Rightarrow> Some x)"
  by (cases xs) (auto simp: peekq_def q_rep_def heap_simps)

lemma qlast_refines:
  assumes "q_rep h q xs"
  shows "qlast q h = Some (if xs = [] then None else Some (last xs))"
proof -
  have "last (q # xs) = q \<longleftrightarrow> xs = []" using assms last_in_set [of xs] by (auto simp: q_rep_def)
  then show ?thesis using assms q_rep_prev [OF assms]
    by (auto simp: qlast_def q_rep_def heap_simps)
qed

section \<open>The queue contract\<close>

text \<open>
  A first-in first-out queue as its users see it: \<open>rep s xs\<close> is the abstraction, \<open>pool s\<close> the
  blocks that exist. Sequences of operations on it are compared with the same sequence on the
  list.
\<close>

datatype 'a qop = Put 'a | Get

fun run_queue ::
  "('a \<Rightarrow> 's \<Rightarrow> 's option) \<Rightarrow> ('s \<Rightarrow> ('a option \<times> 's) option) \<Rightarrow> 'a qop list \<Rightarrow> 's
     \<Rightarrow> ('a option list \<times> 's) option" where
  "run_queue put get [] s = Some ([], s)"
| "run_queue put get (Put a # ops) s = do { s1 \<leftarrow> put a s; run_queue put get ops s1 }"
| "run_queue put get (Get # ops) s = do {
     (r, s1) \<leftarrow> get s;
     (rs, s2) \<leftarrow> run_queue put get ops s1;
     Some (r # rs, s2) }"

text \<open>
  The reference run on a list, defined where every block that is put exists and is not queued.
\<close>

fun run_fifo :: "'a set \<Rightarrow> 'a qop list \<Rightarrow> 'a list \<Rightarrow> ('a option list \<times> 'a list) option" where
  "run_fifo A [] xs = Some ([], xs)"
| "run_fifo A (Put a # ops) xs =
     (if a \<in> A \<and> a \<notin> set xs then run_fifo A ops (xs @ [a]) else None)"
| "run_fifo A (Get # ops) [] = map_option (\<lambda>(rs, ys). (None # rs, ys)) (run_fifo A ops [])"
| "run_fifo A (Get # ops) (x # xs) =
     map_option (\<lambda>(rs, ys). (Some x # rs, ys)) (run_fifo A ops xs)"

locale msg_queue =
  fixes rep :: "'s \<Rightarrow> 'a list \<Rightarrow> bool"
    and pool :: "'s \<Rightarrow> 'a set"
    and put :: "'a \<Rightarrow> 's \<Rightarrow> 's option"
    and get :: "'s \<Rightarrow> ('a option \<times> 's) option"
  assumes put: "rep s xs \<Longrightarrow> a \<in> pool s \<Longrightarrow> a \<notin> set xs \<Longrightarrow>
      \<exists>s'. put a s = Some s' \<and> rep s' (xs @ [a]) \<and> pool s' = pool s"
    and get_nil: "rep s [] \<Longrightarrow> get s = Some (None, s)"
    and get_cons: "rep s (x # xs) \<Longrightarrow>
      \<exists>s'. get s = Some (Some x, s') \<and> rep s' xs \<and> pool s' = pool s"
begin

lemma run_refines:
  assumes "rep s xs" and "run_fifo (pool s) ops xs = Some (rs, ys)"
  shows "\<exists>s'. run_queue put get ops s = Some (rs, s') \<and> rep s' ys"
  using assms
proof (induction "pool s" ops xs arbitrary: s rs rule: run_fifo.induct)
  case (1 xs)
  then show ?case by auto
next
  case (2 a ops xs)
  then have a: "a \<in> pool s" "a \<notin> set xs" by (auto split: if_splits)
  with put [OF \<open>rep s xs\<close>] obtain s1 where
    s1: "put a s = Some s1" "rep s1 (xs @ [a])" "pool s1 = pool s" by blast
  then show ?case using "2.hyps" [OF _ s1(3) [symmetric]] "2.prems" a s1(3) by auto
next
  case (3 ops)
  then obtain rs' where "run_fifo (pool s) ops [] = Some (rs', ys)" "rs = None # rs'" by auto
  then show ?case using 3 get_nil by fastforce
next
  case (4 ops x xs)
  then obtain rs' where rs': "run_fifo (pool s) ops xs = Some (rs', ys)" "rs = Some x # rs'"
    by auto
  obtain s1 where s1: "get s = Some (Some x, s1)" "rep s1 xs" "pool s1 = pool s"
    using get_cons [OF \<open>rep s (x # xs)\<close>] by blast
  then obtain s' where "run_queue put get ops s1 = Some (rs', s')" "rep s' ys"
    using "4.hyps" [OF s1(3) [symmetric] s1(2)] rs' by auto
  then show ?case using s1 rs' by auto
qed

end

definition q_pool :: "ptr \<Rightarrow> heap \<Rightarrow> ptr set" where
  "q_pool q h = dom (mblks h) - {q}"

interpretation hq: msg_queue "\<lambda>h xs. q_rep h q xs" "q_pool q" "putq q" "getq q" for q
proof unfold_locales
  fix h xs a
  assume r: "q_rep h q xs" and a: "a \<in> q_pool q h" "a \<notin> set xs"
  then obtain h' where "putq q a h = Some h'" "q_rep h' q (xs @ [a])" "same_msgs h h'"
    using putq_refines [OF r] by (auto simp: unlinked_def q_pool_def)
  then show "\<exists>h'. putq q a h = Some h' \<and> q_rep h' q (xs @ [a]) \<and> q_pool q h' = q_pool q h"
    using same_msgs_dom by (auto simp: q_pool_def)
next
  fix h
  assume "q_rep h q []"
  then show "getq q h = Some (None, h)" by (rule getq_empty)
next
  fix h x xs
  assume "q_rep h q (x # xs)"
  from getq_refines [OF this] obtain h' where
    "getq q h = Some (Some x, h')" "q_rep h' q xs" "same_msgs h h'" by blast
  then show "\<exists>h'. getq q h = Some (Some x, h') \<and> q_rep h' q xs \<and> q_pool q h' = q_pool q h"
    using same_msgs_dom by (auto simp: q_pool_def)
qed


section \<open>Properties\<close>

text \<open>A queue of two blocks, 1 and 2, at stopper 0, and a block 3 that is in no list.\<close>

definition ex_heap :: heap where
  "ex_heap = \<lparr>mblks = [0 \<mapsto> mblk_raw\<lparr>b_next := Some 1, b_prev := Some 2\<rparr>,
       1 \<mapsto> mblk_raw\<lparr>b_next := Some 2, b_prev := Some 0\<rparr>,
       2 \<mapsto> mblk_raw\<lparr>b_next := Some 0, b_prev := Some 1\<rparr>, 3 \<mapsto> mblk_raw],
     dblks = Map.empty, q_mcount = [0 \<mapsto> 2], next_ptr = 4, brk = 1024, freefn_calls = []\<rparr>"

lemma ex_heap_queue: "q_rep ex_heap 0 [1, 2]" "unlinked ex_heap 0 [1, 2] 3" "q_pool 0 ex_heap = {1, 2, 3}"
  by (auto simp: ex_heap_def q_rep_def unlinked_def nx_def pv_def q_pool_def)

text \<open>
  C33. A message queue is a first-in first-out list: for every sequence of \<^verbatim>\<open>putq\<close>
  and \<^verbatim>\<open>getq\<close> calls that only puts live blocks that are not queued yet, the pointer
  operations on the heap succeed without a memory fault, return the blocks the list run returns,
  and leave a well-formed circular list of the remaining blocks, with its count.
\<close>

theorem message_queue_fifo:
  assumes "q_rep h q xs" and "run_fifo (q_pool q h) ops xs = Some (rs, ys)"
  shows "\<exists>h'. run_queue (putq q) (getq q) ops h = Some (rs, h') \<and> q_rep h' q ys"
  using assms by (rule hq.run_refines)

theorem message_queue_fifo_witness:
  "\<exists>h'. run_queue (putq 0) (getq 0) [Get, Put 3, Get, Get, Get] ex_heap
      = Some ([Some 1, Some 2, Some 3, None], h') \<and> q_rep h' 0 []"
proof (rule message_queue_fifo [OF ex_heap_queue(1)])
  show "run_fifo (q_pool 0 ex_heap) [Get, Put 3, Get, Get, Get] [1, 2] =
      Some ([Some 1, Some 2, Some 3, None], [])"
    by (simp add: ex_heap_queue)
qed

text \<open>
  Inserting a block in front of a queued one with \<^verbatim>\<open>insq\<close> and taking it out again
  with \<^verbatim>\<open>remq\<close> restores the queue, leaves the block with no links and changes no
  message.
\<close>

theorem insq_remq_restores:
  assumes "q_rep h q (xs @ e # ys)" and "unlinked h q (xs @ e # ys) mp"
  shows "\<exists>h1 h2. insq q (Some e) mp h = Some h1 \<and> q_rep h1 q (xs @ mp # e # ys) \<and>
     remq q mp h1 = Some h2 \<and> q_rep h2 q (xs @ e # ys) \<and> nx h2 mp = None \<and> pv h2 mp = None \<and>
     same_msgs h h2"
proof -
  obtain h1 where h1: "insq q (Some e) mp h = Some h1" "q_rep h1 q (xs @ mp # e # ys)" "same_msgs h h1"
    using insq_refines [OF assms] by blast
  then show ?thesis using remq_refines [OF h1(2)] same_msgs_trans by blast
qed

theorem insq_remq_restores_witness:
  "\<exists>h1 h2. insq 0 (Some 2) 3 ex_heap = Some h1 \<and> q_rep h1 0 [1, 3, 2] \<and>
     remq 0 3 h1 = Some h2 \<and> q_rep h2 0 [1, 2] \<and> nx h2 3 = None \<and> pv h2 3 = None \<and>
     same_msgs ex_heap h2"
  using insq_remq_restores [of ex_heap 0 "[1]" 2 "[]" 3] ex_heap_queue by simp

end
