(* ===== verification/Rtp_Queue.thy ===== *)
theory Rtp_Queue
  imports Msg_Queue "HOL-Library.Multiset"
begin

text \<open>
  The packet queue of an RTP session, \<^verbatim>\<open>rtp_putq\<close>, \<^verbatim>\<open>rtp_getq\<close> and
  \<^verbatim>\<open>rtp_getq_permissive\<close> of \<^verbatim>\<open>oRTP/src/rtpsession.c\<close>. They are
  given twice: on the heap, statement by statement, and as functions on lists of packets. The
  refinement theorems connect the two; the session model uses the list functions.
\<close>

section \<open>Reading a packet header in place\<close>

text \<open>
  \<^verbatim>\<open>rtp_header_t\<close> laid over the bytes at \<^verbatim>\<open>b_rptr\<close>; the fields have
  been converted to the byte order of the (little endian) host when a packet is queued.
\<close>

definition le16 :: "u8 list \<Rightarrow> u16" where
  "le16 bs = (case bs of [a, b] \<Rightarrow> ucast a OR push_bit 8 (ucast b) | _ \<Rightarrow> 0)"

definition le32 :: "u8 list \<Rightarrow> u32" where
  "le32 bs = (case bs of [a, b, c, d] \<Rightarrow>
     ucast a OR push_bit 8 (ucast b) OR push_bit 16 (ucast c) OR push_bit 24 (ucast d) | _ \<Rightarrow> 0)"

definition rd_at :: "heap \<Rightarrow> ptr \<Rightarrow> int \<Rightarrow> nat \<Rightarrow> u8 list option" where
  "rd_at h p off n = do {
     m \<leftarrow> mblks h p;
     dp \<leftarrow> b_datap m;
     d \<leftarrow> dblks h dp;
     db_read d (b_rptr m + off) n }"

definition hdr_seq :: "heap \<Rightarrow> ptr \<Rightarrow> u16 option" where
  "hdr_seq h p = map_option le16 (rd_at h p 2 2)"

definition hdr_ts :: "heap \<Rightarrow> ptr \<Rightarrow> u32 option" where
  "hdr_ts h p = map_option le32 (rd_at h p 4 4)"

section \<open>The operations on the heap\<close>

partial_function (option) rtp_putq_loop :: "ptr \<Rightarrow> ptr \<Rightarrow> ptr option \<Rightarrow> heap \<Rightarrow> heap option" where
  "rtp_putq_loop q mp tmp h =
     (if tmp = Some q then do { f \<leftarrow> qfirst q h; insq q f mp h }
      else do {
        t \<leftarrow> tmp;
        s1 \<leftarrow> hdr_seq h mp;
        s2 \<leftarrow> hdr_seq h t;
        if s1 = s2 then freemsg (Some mp) h
        else if RTP_SEQ_IS_GREATER s1 s2 then do { n \<leftarrow> get_next t h; insq q n mp h }
        else do { l \<leftarrow> get_prev t h; rtp_putq_loop q mp l h } })"

definition rtp_putq :: "ptr \<Rightarrow> ptr \<Rightarrow> heap \<Rightarrow> heap option" where
  "rtp_putq q mp h = do {
     e \<leftarrow> qempty q h;
     if e then putq q mp h
     else do { tmp \<leftarrow> qlast q h; rtp_putq_loop q mp tmp h } }"

partial_function (option) rtp_getq_loop ::
  "ptr \<Rightarrow> u32 \<Rightarrow> ptr option \<Rightarrow> ptr option \<Rightarrow> u32 \<Rightarrow> int \<Rightarrow> heap \<Rightarrow> (ptr option \<times> int \<times> heap) option" where
  "rtp_getq_loop q timestamp ret old ts_found rejected h = do {
     f \<leftarrow> qfirst q h;
     case f of
       None \<Rightarrow> Some (ret, rejected, h)
     | Some tmp \<Rightarrow> do {
         ts \<leftarrow> hdr_ts h tmp;
         if RTP_TIMESTAMP_IS_NEWER_THAN timestamp ts then
           (if ret \<noteq> None \<and> ts = ts_found then Some (ret, rejected, h)
            else do {
              (rejected1, h1) \<leftarrow>
                (if old \<noteq> None then do { h1 \<leftarrow> freemsg old h; Some (rejected + 1, h1) }
                 else Some (rejected, h));
              (ret1, h2) \<leftarrow> getq q h1;
              ts1 \<leftarrow> hdr_ts h2 tmp;
              rtp_getq_loop q timestamp ret1 ret1 ts1 rejected1 h2 })
         else Some (ret, rejected, h) } }"

definition rtp_getq :: "ptr \<Rightarrow> u32 \<Rightarrow> heap \<Rightarrow> (ptr option \<times> int \<times> heap) option" where
  "rtp_getq q timestamp h = do {
     e \<leftarrow> qempty q h;
     if e then Some (None, 0, h) else rtp_getq_loop q timestamp None None 0 0 h }"

definition rtp_getq_permissive :: "ptr \<Rightarrow> u32 \<Rightarrow> heap \<Rightarrow> (ptr option \<times> int \<times> heap) option" where
  "rtp_getq_permissive q timestamp h = do {
     e \<leftarrow> qempty q h;
     if e then Some (None, 0, h)
     else do {
       f \<leftarrow> qfirst q h;
       tmp \<leftarrow> f;
       ts \<leftarrow> hdr_ts h tmp;
       if RTP_TIMESTAMP_IS_NEWER_THAN timestamp ts
       then do { (ret, h1) \<leftarrow> getq q h; Some (ret, 0, h1) }
       else Some (None, 0, h) } }"

section \<open>The operations on lists\<close>

text \<open>
  The same functions over a list of packets, oldest first; \<open>sq\<close> and \<open>tsf\<close> read a packet's
  sequence number and timestamp. \<open>rtp_putq_rev\<close> walks from the newest packet back, as the
  loop of \<^verbatim>\<open>rtp_putq\<close> does.
\<close>

fun rtp_putq_rev :: "('p \<Rightarrow> u16) \<Rightarrow> 'p \<Rightarrow> 'p list \<Rightarrow> 'p list" where
  "rtp_putq_rev sq mp [] = [mp]"
| "rtp_putq_rev sq mp (t # ts) =
     (if sq mp = sq t then t # ts
      else if RTP_SEQ_IS_GREATER (sq mp) (sq t) then mp # t # ts
      else t # rtp_putq_rev sq mp ts)"

definition rtp_putq_list :: "('p \<Rightarrow> u16) \<Rightarrow> 'p \<Rightarrow> 'p list \<Rightarrow> 'p list" where
  "rtp_putq_list sq mp xs = rev (rtp_putq_rev sq mp (rev xs))"

fun rtp_getq_scan ::
  "('p \<Rightarrow> u32) \<Rightarrow> u32 \<Rightarrow> 'p option \<Rightarrow> u32 \<Rightarrow> int \<Rightarrow> 'p list \<Rightarrow> 'p option \<times> int \<times> 'p list" where
  "rtp_getq_scan tsf timestamp ret ts_found rejected [] = (ret, rejected, [])"
| "rtp_getq_scan tsf timestamp ret ts_found rejected (t # xs) =
     (if RTP_TIMESTAMP_IS_NEWER_THAN timestamp (tsf t)
      then if ret \<noteq> None \<and> tsf t = ts_found then (ret, rejected, t # xs)
           else rtp_getq_scan tsf timestamp (Some t) (tsf t)
                  (if ret \<noteq> None then rejected + 1 else rejected) xs
      else (ret, rejected, t # xs))"

definition rtp_getq_list :: "('p \<Rightarrow> u32) \<Rightarrow> u32 \<Rightarrow> 'p list \<Rightarrow> 'p option \<times> int \<times> 'p list" where
  "rtp_getq_list tsf timestamp xs = rtp_getq_scan tsf timestamp None 0 0 xs"

fun rtp_getq_permissive_list :: "('p \<Rightarrow> u32) \<Rightarrow> u32 \<Rightarrow> 'p list \<Rightarrow> 'p option \<times> int \<times> 'p list" where
  "rtp_getq_permissive_list tsf timestamp [] = (None, 0, [])"
| "rtp_getq_permissive_list tsf timestamp (t # xs) =
     (if RTP_TIMESTAMP_IS_NEWER_THAN timestamp (tsf t) then (Some t, 0, xs) else (None, 0, t # xs))"

section \<open>Refinement of \<^verbatim>\<open>rtp_putq\<close>\<close>

text \<open>Inserting in front of the stopper is appending.\<close>

lemma insq_stopper_refines:
  assumes q: "q_rep h q xs" and mp: "unlinked h q xs mp"
  shows "\<exists>h'. insq q (Some q) mp h = Some h' \<and> q_rep h' q (xs @ [mp]) \<and> same_msgs h h'"
proof -
  let ?l = "last (q # xs)"
  have d: "?l \<in> dom (mblks h)" "q \<in> dom (mblks h)" "mp \<in> dom (mblks h)"
    using q_rep_alloc [OF q last_in_set] q mp by (auto simp: q_rep_def unlinked_def)
  have pvq: "pv h q = Some ?l" and c: "q_mcount h q = Some (int (length xs))"
    using q_rep_prev [OF q] q by (simp_all add: q_rep_def)
  let ?h = "w_next mp (Some q) (w_prev q (Some mp) (w_prev mp (Some ?l) (w_next ?l (Some mp)
              (w_mcount q (int (length xs) + 1) h))))"
  have "insq q (Some q) mp h = Some ?h"
    using d pvq c by (simp add: insq_def heap_simps del: last.simps)
  moreover have "q_rep ?h q (xs @ [mp])"
    using dseg_insert [of "nx h" "pv h" q xs q mp] q mp d
    by (auto simp: q_rep_def unlinked_def heap_simps simp del: last.simps)
  moreover have "same_msgs h ?h" by (simp add: heap_simps)
  ultimately show ?thesis by blast
qed

text \<open>A packet received from a socket is one block with a data block of its own.\<close>

definition single :: "heap \<Rightarrow> ptr \<Rightarrow> bool" where
  "single h p \<longleftrightarrow> (\<exists>m dp d. mblks h p = Some m \<and> b_cont m = None \<and> b_datap m = Some dp \<and>
     dblks h dp = Some d \<and> db_base d \<noteq> 0)"

definition dp_of :: "heap \<Rightarrow> ptr \<Rightarrow> ptr option" where
  "dp_of h p = (case mblks h p of None \<Rightarrow> None | Some m \<Rightarrow> b_datap m)"

lemma freemsg_single:
  assumes "single h p"
  shows "\<exists>h'. freemsg (Some p) h = Some h' \<and> mblks h' = (mblks h)(p := None) \<and>
     q_mcount h' = q_mcount h \<and> (\<forall>e. Some e \<noteq> dp_of h p \<longrightarrow> dblks h' e = dblks h e)"
proof -
  from assms obtain m dp d where m: "mblks h p = Some m" "b_cont m = None" "b_datap m = Some dp"
    "dblks h dp = Some d" "db_base d \<noteq> 0" by (auto simp: single_def)
  let ?d = "d\<lparr>db_ref := db_ref d - 1\<rparr>"
  obtain h1 where h1: "datab_unref dp h = Some h1" "mblks h1 = mblks h" "q_mcount h1 = q_mcount h"
    "\<forall>e. e \<noteq> dp \<longrightarrow> dblks h1 e = dblks h e"
    using m by (cases "db_ref ?d = 0") (auto simp: datab_unref_def)
  let ?h = "h1\<lparr>mblks := (mblks h1)(p := None)\<rparr>"
  have "freeb p h = Some ?h"
    using m h1 by (simp add: freeb_def mblk_free_def)
  then have "freemsg (Some p) h = Some ?h"
    using m by (simp add: freemsg.simps)
  then show ?thesis using h1 m by (auto simp: dp_of_def)
qed

lemma q_rep_free_other:
  assumes q: "q_rep h q xs" and p: "p \<notin> set (q # xs)"
    and h': "mblks h' = (mblks h)(p := None)" "q_mcount h' = q_mcount h"
  shows "q_rep h' q xs"
proof -
  have "nx h' c = nx h c" "pv h' c = pv h c" if "c \<in> set (q # xs)" for c
    using that p h' by (auto simp: nx_def pv_def)
  then have "dseg (nx h') (pv h') q xs q"
    using q dseg_frame [of q xs "nx h'" "nx h" q "pv h'" "pv h"] by (auto simp: q_rep_def)
  then show ?thesis using q p h' by (auto simp: q_rep_def)
qed

lemma rtp_putq_loop_refines:
  assumes "q_rep h q (xs @ ys)" and "unlinked h q (xs @ ys) mp" and "single h mp"
    and "\<forall>p \<in> set (mp # xs @ ys). hdr_seq h p = Some (sq p)"
  shows "\<exists>h'. rtp_putq_loop q mp (Some (last (q # xs))) h = Some h' \<and>
     q_rep h' q (rev (rtp_putq_rev sq mp (rev xs)) @ ys)"
  using assms
proof (induction xs arbitrary: ys rule: rev_induct)
  case Nil
  have "qfirst q h = Some (case ys of [] \<Rightarrow> None | x # _ \<Rightarrow> Some x)"
    using Nil.prems qfirst_refines by simp
  moreover have "\<exists>h'. insq q (case ys of [] \<Rightarrow> None | x # _ \<Rightarrow> Some x) mp h = Some h' \<and>
      q_rep h' q (mp # ys)"
    using Nil.prems insq_None_refines [of h q "[]" mp] insq_refines [of h q "[]"]
    by (cases ys) fastforce+
  ultimately show ?case by (auto simp: rtp_putq_loop.simps)
next
  case (snoc x xs)
  have x: "x \<noteq> q" "x \<in> dom (mblks h)" using snoc.prems(1) by (auto simp: q_rep_def)
  have seqs: "hdr_seq h mp = Some (sq mp)" "hdr_seq h x = Some (sq x)" using snoc.prems(4) by auto
  have seg: "dseg (nx h) (pv h) q xs x" "dseg (nx h) (pv h) x ys q"
    using snoc.prems(1) by (auto simp: q_rep_def dseg_append)
  have step: "rtp_putq_loop q mp (Some x) h =
      (if sq mp = sq x then freemsg (Some mp) h
       else if RTP_SEQ_IS_GREATER (sq mp) (sq x) then insq q (Some (hd (ys @ [q]))) mp h
       else rtp_putq_loop q mp (Some (last (q # xs))) h)"
    using x seqs dseg_next [OF seg(2)] dseg_prev [OF seg(1)]
    by (subst rtp_putq_loop.simps) (simp add: heap_simps del: last.simps)
  consider "sq mp = sq x" | "sq mp \<noteq> sq x" "RTP_SEQ_IS_GREATER (sq mp) (sq x)"
    | "sq mp \<noteq> sq x" "\<not> RTP_SEQ_IS_GREATER (sq mp) (sq x)" by blast
  then show ?case
  proof cases
    case 1
    obtain h' where h': "freemsg (Some mp) h = Some h'" "mblks h' = (mblks h)(mp := None)"
      "q_mcount h' = q_mcount h" using freemsg_single [OF snoc.prems(3)] by blast
    have "q_rep h' q ((xs @ [x]) @ ys)"
      by (rule q_rep_free_other [OF snoc.prems(1) _ h'(2,3)])
         (use snoc.prems(2) in \<open>auto simp: unlinked_def\<close>)
    then show ?thesis using step 1 h' by simp
  next
    case 2
    have "\<exists>h'. insq q (Some (hd (ys @ [q]))) mp h = Some h' \<and> q_rep h' q ((xs @ [x]) @ mp # ys)"
    proof (cases ys)
      case Nil
      then show ?thesis using insq_stopper_refines [OF snoc.prems(1,2)] by auto
    next
      case (Cons y zs)
      then show ?thesis using insq_refines [of h q "xs @ [x]" y zs mp] snoc.prems(1,2) by auto
    qed
    then show ?thesis using step 2 by simp
  next
    case 3
    have "\<exists>h'. rtp_putq_loop q mp (Some (last (q # xs))) h = Some h' \<and>
        q_rep h' q (rev (rtp_putq_rev sq mp (rev xs)) @ x # ys)"
      by (rule snoc.IH) (use snoc.prems in auto)
    then show ?thesis using step 3 by simp
  qed
qed

theorem rtp_putq_refines:
  assumes "q_rep h q xs" and "unlinked h q xs mp" and "single h mp"
    and "\<forall>p \<in> set (mp # xs). hdr_seq h p = Some (sq p)"
  shows "\<exists>h'. rtp_putq q mp h = Some h' \<and> q_rep h' q (rtp_putq_list sq mp xs)"
proof (cases "xs = []")
  case True
  then show ?thesis using assms putq_refines [of h q "[]" mp] qempty_refines [of h q "[]"]
    by (auto simp: rtp_putq_def rtp_putq_list_def)
next
  case False
  then have "qempty q h = Some False" "qlast q h = Some (Some (last (q # xs)))"
    using qempty_refines qlast_refines assms(1) by auto
  then show ?thesis using rtp_putq_loop_refines [of h q xs "[]" mp sq] assms
    by (auto simp: rtp_putq_def rtp_putq_list_def simp del: last.simps)
qed

section \<open>Refinement of \<^verbatim>\<open>rtp_getq\<close>\<close>

lemma same_msgs_mblk:
  assumes "same_msgs h h'" and "mblks h p = Some m"
  obtains m' where "mblks h' p = Some m'" "b_datap m' = b_datap m" "b_rptr m' = b_rptr m"
    "b_cont m' = b_cont m"
proof -
  from assms obtain m' where m': "mblks h' p = Some m'"
    using same_msgs_dom by (metis domD domI)
  have "m'\<lparr>b_next := None, b_prev := None\<rparr> = m\<lparr>b_next := None, b_prev := None\<rparr>"
    using assms m' unfolding same_msgs_def mcore_def by (metis option.map(2) option.inject)
  then show thesis using that [OF m'] by (cases m; cases m') simp
qed

lemma same_msgs_reads:
  assumes "same_msgs h h'"
  shows "rd_at h' p off n = rd_at h p off n" "single h' p = single h p" "dp_of h' p = dp_of h p"
proof -
  have d: "dblks h' = dblks h" using assms by (simp add: same_msgs_def)
  have *: "rd_at h' p off n = rd_at h p off n \<and> single h' p = single h p \<and> dp_of h' p = dp_of h p"
  proof (cases "mblks h p")
    case None
    then have "mblks h' p = None" using same_msgs_dom [OF assms] by (metis domIff)
    with None show ?thesis by (simp add: rd_at_def single_def dp_of_def)
  next
    case (Some m)
    then obtain m' where "mblks h' p = Some m'" "b_datap m' = b_datap m" "b_rptr m' = b_rptr m"
      "b_cont m' = b_cont m" using same_msgs_mblk [OF assms Some] by blast
    then show ?thesis using Some d by (simp add: rd_at_def single_def dp_of_def)
  qed
  then show "rd_at h' p off n = rd_at h p off n" "single h' p = single h p" "dp_of h' p = dp_of h p"
    by simp_all
qed

lemma same_msgs_hdr:
  "same_msgs h h' \<Longrightarrow> hdr_ts h' p = hdr_ts h p" "same_msgs h h' \<Longrightarrow> hdr_seq h' p = hdr_seq h p"
  by (simp_all add: hdr_ts_def hdr_seq_def same_msgs_reads)

lemma free_other_reads:
  assumes h': "mblks h' = (mblks h)(p := None)" "\<forall>e. Some e \<noteq> dp_of h p \<longrightarrow> dblks h' e = dblks h e"
    and c: "c \<noteq> p" "dp_of h c \<noteq> dp_of h p"
  shows "hdr_ts h' c = hdr_ts h c" "single h' c = single h c" "dp_of h' c = dp_of h c"
proof -
  have m: "mblks h' c = mblks h c" using h' c by simp
  have d: "dblks h' e = dblks h e" if "dp_of h c = Some e" for e using h' c that by auto
  have "rd_at h' c 4 4 = rd_at h c 4 4 \<and> single h' c = single h c"
  proof (cases "dp_of h c")
    case None
    then show ?thesis using m
      by (cases "mblks h c") (auto simp: rd_at_def single_def dp_of_def)
  next
    case (Some e)
    then obtain mc where "mblks h c = Some mc" "b_datap mc = Some e"
      by (auto simp: dp_of_def split: option.splits)
    then show ?thesis using m d [OF Some] by (simp add: rd_at_def single_def)
  qed
  then show "hdr_ts h' c = hdr_ts h c" "single h' c = single h c" "dp_of h' c = dp_of h c"
    using m by (simp_all add: hdr_ts_def dp_of_def)
qed

text \<open>
  What the receive queue holds: packets of one block each, no two sharing a data block, with
  readable headers.
\<close>

definition pkts :: "heap \<Rightarrow> (ptr \<Rightarrow> u32) \<Rightarrow> ptr list \<Rightarrow> bool" where
  "pkts h tsf ps \<longleftrightarrow> (\<forall>p \<in> set ps. single h p \<and> hdr_ts h p = Some (tsf p)) \<and>
     distinct ps \<and> distinct (map (dp_of h) ps)"

lemma pkts_same_msgs: "same_msgs h h' \<Longrightarrow> pkts h' tsf ps \<longleftrightarrow> pkts h tsf ps"
proof -
  assume s: "same_msgs h h'"
  have "dp_of h' = dp_of h" using same_msgs_reads(3) [OF s] by blast
  then show ?thesis by (simp add: pkts_def same_msgs_reads [OF s] same_msgs_hdr [OF s])
qed

lemma free_head_ok:
  assumes q: "q_rep h q xs" and ps: "pkts h tsf (p # xs)" and p: "p \<noteq> q"
  shows "\<exists>h'. freemsg (Some p) h = Some h' \<and> q_rep h' q xs \<and> pkts h' tsf xs"
proof -
  obtain h' where h': "freemsg (Some p) h = Some h'" "mblks h' = (mblks h)(p := None)"
    "q_mcount h' = q_mcount h" "\<forall>e. Some e \<noteq> dp_of h p \<longrightarrow> dblks h' e = dblks h e"
    using freemsg_single [of h p] ps by (auto simp: pkts_def)
  have "q_rep h' q xs"
    by (rule q_rep_free_other [OF q _ h'(2,3)]) (use ps p in \<open>auto simp: pkts_def\<close>)
  moreover have same: "hdr_ts h' c = hdr_ts h c \<and> single h' c = single h c \<and> dp_of h' c = dp_of h c"
    if "c \<in> set xs" for c
  proof -
    have "p \<notin> set xs" "dp_of h p \<notin> dp_of h ` set xs" using ps by (simp_all add: pkts_def)
    with that have "c \<noteq> p" "dp_of h c \<noteq> dp_of h p" by (blast, metis imageI)
    then show ?thesis using free_other_reads [OF h'(2,4)] by blast
  qed
  have "map (dp_of h') xs = map (dp_of h) xs" using same by simp
  then have "distinct (map (dp_of h') xs)" using ps by (simp only: pkts_def list.map distinct.simps)
  then have "pkts h' tsf xs" using ps same by (simp add: pkts_def)
  ultimately show ?thesis using h'(1) by blast
qed

lemma rtp_getq_loop_refines:
  assumes "q_rep h q xs" and "pkts h tsf (case_option [] (\<lambda>p. [p]) ret @ xs)" and "ret \<noteq> Some q"
    and "rtp_getq_scan tsf ts ret found rej xs = (ret', rej', rest)"
  shows "\<exists>h'. rtp_getq_loop q ts ret ret found rej h = Some (ret', rej', h') \<and> q_rep h' q rest"
  using assms
proof (induction xs arbitrary: h ret found rej)
  case Nil
  then show ?case using qfirst_refines [OF Nil.prems(1)] by (simp add: rtp_getq_loop.simps)
next
  case (Cons t xs)
  have f: "qfirst q h = Some (Some t)" using qfirst_refines [OF Cons.prems(1)] by simp
  have tt: "hdr_ts h t = Some (tsf t)" using Cons.prems(2) by (auto simp: pkts_def)
  have tq: "t \<noteq> q" using Cons.prems(1) by (auto simp: q_rep_def)
  show ?case
  proof (cases "RTP_TIMESTAMP_IS_NEWER_THAN ts (tsf t) \<and> \<not> (ret \<noteq> None \<and> tsf t = found)")
    case False
    then show ?thesis using Cons.prems f tt
      by (subst rtp_getq_loop.simps) (auto split: if_splits)
  next
    case True
    let ?rej = "if ret \<noteq> None then rej + 1 else rej"
    obtain h1 where h1: "ret = None \<and> h1 = h \<or> ret \<noteq> None \<and> freemsg ret h = Some h1"
        "q_rep h1 q (t # xs)" "pkts h1 tsf (t # xs)"
      using free_head_ok [OF Cons.prems(1)] Cons.prems(1,2,3) by (cases ret) auto
    obtain h2 where h2: "getq q h1 = Some (Some t, h2)" "q_rep h2 q xs" "same_msgs h1 h2"
      using getq_refines [OF h1(2)] by blast
    have p2: "pkts h2 tsf (t # xs)" using pkts_same_msgs [OF h2(3)] h1(3) by blast
    then have t2: "hdr_ts h2 t = Some (tsf t)" by (simp add: pkts_def)
    have "rtp_getq_scan tsf ts (Some t) (tsf t) ?rej xs = (ret', rej', rest)"
      using True Cons.prems(4) by (auto split: if_splits)
    from Cons.IH [OF h2(2) _ _ this] p2 tq obtain h' where
      "rtp_getq_loop q ts (Some t) (Some t) (tsf t) ?rej h2 = Some (ret', rej', h')" "q_rep h' q rest"
      by auto
    then show ?thesis using True f tt h1(1) h2(1) t2
      by (cases ret; subst rtp_getq_loop.simps; simp)
  qed
qed

theorem rtp_getq_refines:
  assumes "q_rep h q xs" and "pkts h tsf xs" and "rtp_getq_list tsf ts xs = (ret, rej, rest)"
  shows "\<exists>h'. rtp_getq q ts h = Some (ret, rej, h') \<and> q_rep h' q rest"
  using rtp_getq_loop_refines [of h q xs tsf None ts 0 0 ret rej rest] assms qempty_refines [OF assms(1)]
  by (auto simp: rtp_getq_def rtp_getq_list_def)

theorem rtp_getq_permissive_refines:
  assumes "q_rep h q xs" and "pkts h tsf xs"
    and "rtp_getq_permissive_list tsf ts xs = (ret, rej, rest)"
  shows "\<exists>h'. rtp_getq_permissive q ts h = Some (ret, rej, h') \<and> q_rep h' q rest"
proof (cases xs)
  case Nil
  then show ?thesis using assms qempty_refines [OF assms(1)] by (simp add: rtp_getq_permissive_def)
next
  case (Cons t zs)
  then have "hdr_ts h t = Some (tsf t)" using assms(2) by (simp add: pkts_def)
  moreover have "qfirst q h = Some (Some t)" using qfirst_refines [OF assms(1)] Cons by simp
  moreover obtain h' where "getq q h = Some (Some t, h')" "q_rep h' q zs"
    using getq_refines assms(1) Cons by blast
  ultimately show ?thesis using assms Cons qempty_refines [OF assms(1)]
    by (auto simp: rtp_getq_permissive_def split: if_splits)
qed

section \<open>What \<^verbatim>\<open>rtp_putq\<close> does to the list\<close>

text \<open>Either the packet is dropped as a duplicate or it is added; no packet is lost.\<close>

lemma mset_rtp_putq_rev:
  "rtp_putq_rev sq mp ts = ts \<or> mset (rtp_putq_rev sq mp ts) = add_mset mp (mset ts)"
proof (induction ts)
  case Nil
  then show ?case by simp
next
  case (Cons t ts)
  from Cons.IH have IH: "t # rtp_putq_rev sq mp ts = t # ts \<or>
      mset (t # rtp_putq_rev sq mp ts) = add_mset mp (mset (t # ts))"
    by (metis add_mset_commute mset.simps(2))
  consider (dup) "rtp_putq_rev sq mp (t # ts) = t # ts"
    | (new) "rtp_putq_rev sq mp (t # ts) = mp # t # ts"
    | (old) "rtp_putq_rev sq mp (t # ts) = t # rtp_putq_rev sq mp ts"
    unfolding rtp_putq_rev.simps by presburger
  then show ?case
  proof cases
    case dup
    then show ?thesis by (rule disjI1)
  next
    case new
    then show ?thesis by (intro disjI2) (simp only: mset.simps)
  next
    case old
    show ?thesis unfolding old by (rule IH)
  qed
qed

lemma mset_rtp_putq_list:
  "rtp_putq_list sq mp xs = xs \<or> mset (rtp_putq_list sq mp xs) = add_mset mp (mset xs)"
  using mset_rtp_putq_rev [of sq mp "rev xs"] by (auto simp: rtp_putq_list_def)

lemma set_rtp_putq_list: "set (rtp_putq_list sq mp xs) \<subseteq> insert mp (set xs)"
proof -
  have "set (rtp_putq_rev sq mp ts) \<subseteq> insert mp (set ts)" for ts by (induction ts) auto
  from this [of "rev xs"] show ?thesis by (simp add: rtp_putq_list_def)
qed

lemma length_rtp_putq_list:
  "length (rtp_putq_list sq mp xs) = length xs \<or> length (rtp_putq_list sq mp xs) = Suc (length xs)"
proof -
  have "length (rtp_putq_rev sq mp ts) = length ts \<or> length (rtp_putq_rev sq mp ts) = Suc (length ts)"
    for ts by (induction ts) auto
  from this [of "rev xs"] show ?thesis by (simp add: rtp_putq_list_def)
qed

text \<open>
  Neighbours stay in order whatever sequence numbers arrive: no packet is newer than, or equal
  to, the packet queued right behind it.
\<close>

definition seq_chain :: "('p \<Rightarrow> u16) \<Rightarrow> 'p list \<Rightarrow> bool" where
  "seq_chain sq xs \<longleftrightarrow> successively (\<lambda>a b. \<not> RTP_SEQ_IS_GREATER (sq a) (sq b)) xs"

lemma rtp_putq_rev_chain:
  assumes "successively (\<lambda>b a. \<not> RTP_SEQ_IS_GREATER (sq a) (sq b)) ts"
  shows "successively (\<lambda>b a. \<not> RTP_SEQ_IS_GREATER (sq a) (sq b)) (rtp_putq_rev sq mp ts)"
  using assms
proof (induction ts)
  case Nil
  then show ?case by simp
next
  case (Cons t ts)
  then have "successively (\<lambda>b a. \<not> RTP_SEQ_IS_GREATER (sq a) (sq b)) ts"
    by (cases ts) auto
  then have IH: "successively (\<lambda>b a. \<not> RTP_SEQ_IS_GREATER (sq a) (sq b)) (rtp_putq_rev sq mp ts)"
    by (rule Cons.IH)
  have hd: "hd (rtp_putq_rev sq mp ts) = mp \<or> ts \<noteq> [] \<and> hd (rtp_putq_rev sq mp ts) = hd ts"
    by (cases ts) auto
  show ?case
    using IH hd Cons.prems seq_antisym by (auto simp: successively_Cons)
qed

theorem rtp_putq_list_chain:
  assumes "seq_chain sq xs"
  shows "seq_chain sq (rtp_putq_list sq mp xs)"
  using rtp_putq_rev_chain [of sq "rev xs" mp] assms
  by (simp add: seq_chain_def rtp_putq_list_def successively_rev)

text \<open>
  Within a window of half the sequence space that starts at \<open>b\<close>, the queue is sorted by the
  distance from \<open>b\<close> and \<^verbatim>\<open>rtp_putq\<close> is insertion into a sorted list.
\<close>

definition in_window :: "u16 \<Rightarrow> u16 \<Rightarrow> bool" where
  "in_window b s \<longleftrightarrow> s - b < 0x8000"

definition seq_key :: "('p \<Rightarrow> u16) \<Rightarrow> u16 \<Rightarrow> 'p \<Rightarrow> nat" where
  "seq_key sq b p = unat (sq p - b)"

lemma seq_greater_window:
  assumes "in_window b s1" and "in_window b s2"
  shows "RTP_SEQ_IS_GREATER s1 s2 \<longleftrightarrow> unat (s2 - b) \<le> unat (s1 - b)"
proof -
  have "s1 - s2 = (s1 - b) - (s2 - b)" by simp
  then have "uint (s1 - s2) = (if uint (s2 - b) \<le> uint (s1 - b) then uint (s1 - b) - uint (s2 - b)
      else uint (s1 - b) - uint (s2 - b) + 65536)"
    using uint_diff_cases [of "s1 - b" "s2 - b"] by simp
  moreover have "uint (s1 - b) < 32768" "uint (s2 - b) < 32768"
    using assms by (simp_all add: in_window_def word_less_def)
  ultimately have "uint (s1 - s2) < 32768 \<longleftrightarrow> uint (s2 - b) \<le> uint (s1 - b)"
    using uint_ge_0 [of "s1 - b"] uint_ge_0 [of "s2 - b"]
    by (cases "uint (s2 - b) \<le> uint (s1 - b)"; simp; linarith)
  then show ?thesis
    by (simp add: RTP_SEQ_IS_GREATER_def word_less_def flip: word_le_nat_alt word_le_def)
qed

lemma seq_key_inj: "seq_key sq b p = seq_key sq b p' \<longleftrightarrow> sq p = sq p'"
proof -
  have "unat (sq p - b) = unat (sq p' - b) \<longleftrightarrow> sq p - b = sq p' - b" by (rule word_unat_eq_iff [symmetric])
  then show ?thesis by (simp add: seq_key_def)
qed

lemma insort_key_snoc_larger:
  "(\<And>a. a \<in> set (xs @ [t]) \<Longrightarrow> f a < f x) \<Longrightarrow> insort_key f x (xs @ [t]) = xs @ [t, x]"
  by (induction xs) fastforce+

lemma insort_key_snoc_smaller: "f x \<le> f t \<Longrightarrow> insort_key f x (xs @ [t]) = insort_key f x xs @ [t]"
  by (induction xs) auto

theorem rtp_putq_list_insort:
  assumes "sorted_wrt (\<lambda>a a'. seq_key sq b a < seq_key sq b a') xs"
    and "\<forall>p \<in> set (mp # xs). in_window b (sq p)"
  shows "rtp_putq_list sq mp xs =
     (if sq mp \<in> sq ` set xs then xs else insort_key (seq_key sq b) mp xs)"
  using assms
proof (induction xs rule: rev_induct)
  case Nil
  then show ?case by (simp add: rtp_putq_list_def)
next
  case (snoc t xs)
  have IH: "rtp_putq_list sq mp xs =
     (if sq mp \<in> sq ` set xs then xs else insort_key (seq_key sq b) mp xs)"
    using snoc.prems by (intro snoc.IH) (auto simp: sorted_wrt_append)
  have step: "rtp_putq_list sq mp (xs @ [t]) =
      (if sq mp = sq t then xs @ [t]
       else if RTP_SEQ_IS_GREATER (sq mp) (sq t) then xs @ [t, mp]
       else rtp_putq_list sq mp xs @ [t])"
    by (simp add: rtp_putq_list_def)
  have less: "seq_key sq b a < seq_key sq b t" if "a \<in> set xs" for a
    using snoc.prems(1) that by (auto simp: sorted_wrt_append)
  have gr: "RTP_SEQ_IS_GREATER (sq mp) (sq t) \<longleftrightarrow> seq_key sq b t \<le> seq_key sq b mp"
    using seq_greater_window snoc.prems(2) by (auto simp: seq_key_def)
  consider "sq mp = sq t" | "seq_key sq b t < seq_key sq b mp" | "seq_key sq b mp < seq_key sq b t"
    using seq_key_inj [of sq b mp t] by linarith
  then show ?case
  proof cases
    case 1
    then show ?thesis using step by simp
  next
    case 2
    then have "sq mp \<notin> sq ` set (xs @ [t])"
      using less seq_key_inj [of sq b mp] by (force simp: image_iff)
    moreover have "insort_key (seq_key sq b) mp (xs @ [t]) = xs @ [t, mp]"
      using 2 less by (intro insort_key_snoc_larger) force
    ultimately show ?thesis using step gr 2 by auto
  next
    case 3
    then have "sq mp \<noteq> sq t" using seq_key_inj [of sq b mp t] by auto
    then show ?thesis using step gr 3 IH
      by (auto simp: insort_key_snoc_smaller)
  qed
qed

section \<open>What \<^verbatim>\<open>rtp_getq\<close> does to the list\<close>

lemma rtp_getq_scan_spec:
  assumes "rtp_getq_scan tsf ts (Some p0) (tsf p0) rej xs = (r, rej', rest)"
  shows "\<exists>old p. r = Some p \<and> p0 # xs = old @ p # rest \<and> rej' = rej + int (length old) \<and>
     (\<forall>x \<in> set (tl (old @ [p])). RTP_TIMESTAMP_IS_NEWER_THAN ts (tsf x)) \<and>
     successively (\<lambda>a b. tsf a \<noteq> tsf b) (old @ [p]) \<and>
     (rest = [] \<or> \<not> RTP_TIMESTAMP_IS_NEWER_THAN ts (tsf (hd rest)) \<or> tsf (hd rest) = tsf p)"
  using assms
proof (induction xs arbitrary: p0 rej)
  case Nil
  then show ?case by (intro exI [of _ "[]"] exI [of _ p0]) auto
next
  case (Cons t xs)
  show ?case
  proof (cases "RTP_TIMESTAMP_IS_NEWER_THAN ts (tsf t) \<and> tsf t \<noteq> tsf p0")
    case False
    then show ?thesis using Cons.prems
      by (intro exI [of _ "[]"] exI [of _ p0]) (auto split: if_splits)
  next
    case True
    with Cons.prems have "rtp_getq_scan tsf ts (Some t) (tsf t) (rej + 1) xs = (r, rej', rest)"
      by simp
    from Cons.IH [OF this] obtain old p where IH: "r = Some p" "t # xs = old @ p # rest"
      "rej' = rej + 1 + int (length old)"
      "\<forall>x \<in> set (tl (old @ [p])). RTP_TIMESTAMP_IS_NEWER_THAN ts (tsf x)"
      "successively (\<lambda>a b. tsf a \<noteq> tsf b) (old @ [p])"
      "rest = [] \<or> \<not> RTP_TIMESTAMP_IS_NEWER_THAN ts (tsf (hd rest)) \<or> tsf (hd rest) = tsf p"
      by blast
    have hd: "hd (old @ [p]) = t" using IH(2) by (cases old) auto
    then have "old @ [p] = t # tl (old @ [p])" by (cases old) auto
    then have "\<forall>x \<in> set (old @ [p]). RTP_TIMESTAMP_IS_NEWER_THAN ts (tsf x)"
      using IH(4) True by (metis set_ConsD)
    then show ?thesis using IH True hd
      by (intro exI [of _ "p0 # old"] exI [of _ p]) (auto simp: successively_Cons)
  qed
qed

theorem rtp_getq_list_spec:
  assumes "rtp_getq_list tsf ts xs = (Some p, rej, rest)"
  shows "\<exists>old. xs = old @ p # rest \<and> rej = int (length old) \<and>
     (\<forall>x \<in> set (old @ [p]). RTP_TIMESTAMP_IS_NEWER_THAN ts (tsf x)) \<and>
     successively (\<lambda>a b. tsf a \<noteq> tsf b) (old @ [p]) \<and>
     (rest = [] \<or> \<not> RTP_TIMESTAMP_IS_NEWER_THAN ts (tsf (hd rest)) \<or> tsf (hd rest) = tsf p)"
proof (cases xs)
  case Nil
  then show ?thesis using assms by (simp add: rtp_getq_list_def)
next
  case (Cons t zs)
  with assms have t: "RTP_TIMESTAMP_IS_NEWER_THAN ts (tsf t)"
    and scan: "rtp_getq_scan tsf ts (Some t) (tsf t) 0 zs = (Some p, rej, rest)"
    by (auto simp: rtp_getq_list_def split: if_splits)
  from rtp_getq_scan_spec [OF scan] obtain old where o: "t # zs = old @ p # rest"
    "rej = int (length old)" "\<forall>x \<in> set (tl (old @ [p])). RTP_TIMESTAMP_IS_NEWER_THAN ts (tsf x)"
    "successively (\<lambda>a b. tsf a \<noteq> tsf b) (old @ [p])"
    "rest = [] \<or> \<not> RTP_TIMESTAMP_IS_NEWER_THAN ts (tsf (hd rest)) \<or> tsf (hd rest) = tsf p"
    by auto
  have "old @ [p] = t # tl (old @ [p])" using o(1) by (cases old) auto
  then have "\<forall>x \<in> set (old @ [p]). RTP_TIMESTAMP_IS_NEWER_THAN ts (tsf x)"
    using o(3) t by (metis set_ConsD)
  with o Cons show ?thesis by auto
qed

lemma rtp_getq_list_None:
  "rtp_getq_list tsf ts xs = (None, rej, rest) \<longleftrightarrow>
     rej = 0 \<and> rest = xs \<and> (xs = [] \<or> \<not> RTP_TIMESTAMP_IS_NEWER_THAN ts (tsf (hd xs)))"
proof (cases xs)
  case (Cons t zs)
  have "fst (rtp_getq_scan tsf ts (Some t) (tsf t) 0 zs) \<noteq> None"
    using rtp_getq_scan_spec [of tsf ts t 0 zs] by (metis fst_conv option.distinct(1) prod_cases3)
  then show ?thesis using Cons by (auto simp: rtp_getq_list_def)
qed (auto simp: rtp_getq_list_def)


section \<open>Properties\<close>

text \<open>
  Packets 65534, 65535 and 1 (at blocks 1, 2, 3) in the queue of stopper 0, and packet 0 in
  block 4: the sequence numbers wrap. Timestamps are 160 apart.
\<close>

definition ex_pkt :: "int \<Rightarrow> u8 list \<Rightarrow> dblk" where
  "ex_pkt base bs = \<lparr>db_base = base, db_buf = bs, db_freefn = None, db_ref = 1\<rparr>"

definition ex_mb :: "ptr option \<Rightarrow> ptr option \<Rightarrow> ptr \<Rightarrow> int \<Rightarrow> mblk" where
  "ex_mb p n dp base = mblk_raw\<lparr>b_prev := p, b_next := n, b_datap := Some dp, b_rptr := base,
     b_wptr := base + 8\<rparr>"

definition ex_rtp_heap :: heap where
  "ex_rtp_heap = \<lparr>mblks = [0 \<mapsto> mblk_raw\<lparr>b_next := Some 1, b_prev := Some 3\<rparr>,
       1 \<mapsto> ex_mb (Some 0) (Some 2) 11 100, 2 \<mapsto> ex_mb (Some 1) (Some 3) 12 200,
       3 \<mapsto> ex_mb (Some 2) (Some 0) 13 300, 4 \<mapsto> ex_mb None None 14 400],
     dblks = [11 \<mapsto> ex_pkt 100 [128, 0, 254, 255, 160, 0, 0, 0],
       12 \<mapsto> ex_pkt 200 [128, 0, 255, 255, 64, 1, 0, 0],
       13 \<mapsto> ex_pkt 300 [128, 0, 1, 0, 128, 2, 0, 0],
       14 \<mapsto> ex_pkt 400 [128, 0, 0, 0, 224, 1, 0, 0]],
     q_mcount = [0 \<mapsto> 3], next_ptr = 15, brk = 1024, freefn_calls = []\<rparr>"

definition ex_seq :: "ptr \<Rightarrow> u16" where
  "ex_seq p = (if p = 1 then 65534 else if p = 2 then 65535 else if p = 3 then 1 else 0)"

definition ex_ts :: "ptr \<Rightarrow> u32" where
  "ex_ts p = (if p = 1 then 160 else if p = 2 then 320 else if p = 3 then 640 else 480)"

lemma ex_rtp_heap_ok:
  "q_rep ex_rtp_heap 0 [1, 2, 3]" "unlinked ex_rtp_heap 0 [1, 2, 3] 4" "single ex_rtp_heap 4"
  "pkts ex_rtp_heap ex_ts [1, 2, 3]"
  "\<forall>p \<in> set [4, 1, 2, 3]. hdr_seq ex_rtp_heap p = Some (ex_seq p)"
  by (auto simp: ex_rtp_heap_def q_rep_def unlinked_def nx_def pv_def single_def ex_mb_def ex_pkt_def
      pkts_def hdr_ts_def hdr_seq_def rd_at_def db_read_def db_lim_def le32_def le16_def ex_ts_def
      ex_seq_def dp_of_def mblk_raw_def)

text \<open>
  C4. \<^verbatim>\<open>rtp_putq\<close> keeps the receive queue sorted across the wrap of the 16 bit
  sequence numbers: as long as all packets lie in a window of half the number space, inserting a
  packet into the circular list on the heap is insertion into the sorted list, and a packet whose
  number is already queued is freed and leaves the queue as it was.
\<close>

theorem rtp_putq_sorted_insert:
  assumes "q_rep h q xs" and "unlinked h q xs mp" and "single h mp"
    and "\<forall>p \<in> set (mp # xs). hdr_seq h p = Some (sq p)"
    and "sorted_wrt (\<lambda>a a'. seq_key sq b a < seq_key sq b a') xs"
    and "\<forall>p \<in> set (mp # xs). in_window b (sq p)"
  shows "\<exists>h'. rtp_putq q mp h = Some h' \<and>
     q_rep h' q (if sq mp \<in> sq ` set xs then xs else insort_key (seq_key sq b) mp xs)"
  using rtp_putq_refines [OF assms(1-4)] rtp_putq_list_insort [OF assms(5,6)] by simp

theorem rtp_putq_sorted_insert_witness:
  "\<exists>h'. rtp_putq 0 4 ex_rtp_heap = Some h' \<and> q_rep h' 0 [1, 2, 4, 3]"
proof -
  have "\<exists>h'. rtp_putq 0 4 ex_rtp_heap = Some h' \<and>
     q_rep h' 0 (if ex_seq 4 \<in> ex_seq ` set [1, 2, 3] then [1, 2, 3]
                 else insort_key (seq_key ex_seq 65534) 4 [1, 2, 3])"
    using ex_rtp_heap_ok
    by (intro rtp_putq_sorted_insert) (simp_all add: ex_seq_def seq_key_def in_window_def)
  then show ?thesis by (simp add: ex_seq_def seq_key_def)
qed

text \<open>
  Whatever sequence numbers arrive, the packet queue never holds two neighbours in the wrong
  order or with equal numbers, and \<^verbatim>\<open>rtp_putq\<close> loses nothing: the queue afterwards has
  the same packets, or exactly one more.
\<close>

theorem rtp_putq_any_order:
  assumes "q_rep h q xs" and "unlinked h q xs mp" and "single h mp"
    and "\<forall>p \<in> set (mp # xs). hdr_seq h p = Some (sq p)" and "seq_chain sq xs"
  shows "\<exists>h' ys. rtp_putq q mp h = Some h' \<and> q_rep h' q ys \<and> seq_chain sq ys \<and>
     (ys = xs \<or> mset ys = add_mset mp (mset xs))"
  using rtp_putq_refines [OF assms(1-4)] rtp_putq_list_chain [OF assms(5)]
    mset_rtp_putq_list [of sq mp xs] by blast

theorem rtp_putq_any_order_witness:
  "\<exists>h' ys. rtp_putq 0 4 ex_rtp_heap = Some h' \<and> q_rep h' 0 ys \<and> seq_chain ex_seq ys \<and>
     (ys = [1, 2, 3] \<or> mset ys = add_mset 4 (mset [1, 2, 3]))"
  by (rule rtp_putq_any_order)
    (use ex_rtp_heap_ok in \<open>simp_all add: seq_chain_def RTP_SEQ_IS_GREATER_def ex_seq_def\<close>)



end
