(* ===== verification/Rtp_Packet.thy ===== *)
theory Rtp_Packet
  imports Rtp_Queue
begin

text \<open>
  RTP packets as the session handles them: \<^verbatim>\<open>oRTP/include/ortp/rtp.h\<close> and the
  packet functions of \<^verbatim>\<open>oRTP/src/rtpsession.c\<close>. A packet is the list of bytes
  between \<^verbatim>\<open>b_rptr\<close> and \<^verbatim>\<open>b_wptr\<close> of its first block, and those of its
  continuation blocks; \<^verbatim>\<open>rtp_header_t\<close> is laid over the bytes of the first block on a
  little endian host. Access past the bytes is \<open>None\<close>.
\<close>

section \<open>Little endian fields\<close>

definition le16_bytes :: "u16 \<Rightarrow> u8 list" where
  "le16_bytes w = [ucast w, ucast (drop_bit 8 w)]"

definition le32_bytes :: "u32 \<Rightarrow> u8 list" where
  "le32_bytes w = [ucast w, ucast (drop_bit 8 w), ucast (drop_bit 16 w), ucast (drop_bit 24 w)]"

definition be16 :: "u8 list \<Rightarrow> u16" where "be16 bs = le16 (rev bs)"
definition be32 :: "u8 list \<Rightarrow> u32" where "be32 bs = le32 (rev bs)"
definition be16_bytes :: "u16 \<Rightarrow> u8 list" where "be16_bytes w = rev (le16_bytes w)"
definition be32_bytes :: "u32 \<Rightarrow> u8 list" where "be32_bytes w = rev (le32_bytes w)"

definition sub :: "nat \<Rightarrow> nat \<Rightarrow> 'a list \<Rightarrow> 'a list" where
  "sub i n bs = take n (drop i bs)"

definition put_at :: "nat \<Rightarrow> u8 list \<Rightarrow> u8 list \<Rightarrow> u8 list" where
  "put_at i vs bs = take i bs @ vs @ drop (i + length vs) bs"

text \<open>\<^verbatim>\<open>ntohs\<close>, \<^verbatim>\<open>ntohl\<close> and their inverses, in place.\<close>

definition bswap_at :: "nat \<Rightarrow> nat \<Rightarrow> u8 list \<Rightarrow> u8 list" where
  "bswap_at i n bs = take i bs @ rev (sub i n bs) @ drop (i + n) bs"

lemma length_le_bytes [simp]: "length (le16_bytes w) = 2" "length (le32_bytes x) = 4"
  by (simp_all add: le16_bytes_def le32_bytes_def)

lemma le16_le16_bytes [simp]: "le16 (le16_bytes w) = w"
  by (rule bit_word_eqI) (auto simp: le16_def le16_bytes_def bit_simps)

lemma le32_le32_bytes [simp]: "le32 (le32_bytes w) = w"
proof (rule bit_word_eqI)
  fix n
  assume "n < LENGTH(32)"
  then consider "n < 8" | "8 \<le> n" "n < 16" | "16 \<le> n" "n < 24" | "24 \<le> n" "n < 32"
    by fastforce
  then show "bit (le32 (le32_bytes w)) n = bit w n"
    by cases (auto simp: le32_def le32_bytes_def bit_simps)
qed

lemma le16_bytes_le16:
  assumes "length bs = 2"
  shows "le16_bytes (le16 bs) = bs"
proof -
  obtain a b where bs: "bs = [a, b]"
    using assms by (auto simp: length_Suc_conv numeral_eq_Suc)
  have r: "ucast (le16 bs) = a" "ucast (drop_bit 8 (le16 bs)) = b"
    by (rule bit_word_eqI, auto simp: le16_def bs bit_simps dest: bit_imp_le_length)+
  show ?thesis by (simp only: le16_bytes_def r) (simp add: bs)
qed

lemma le32_bytes_le32:
  assumes "length bs = 4"
  shows "le32_bytes (le32 bs) = bs"
proof -
  obtain a b c d where bs: "bs = [a, b, c, d]"
    using assms by (auto simp: length_Suc_conv numeral_eq_Suc)
  have r: "ucast (le32 bs) = a" "ucast (drop_bit 8 (le32 bs)) = b" "ucast (drop_bit 16 (le32 bs)) = c"
    "ucast (drop_bit 24 (le32 bs)) = d"
    by (rule bit_word_eqI, auto simp: le32_def bs bit_simps dest: bit_imp_le_length)+
  show ?thesis by (simp only: le32_bytes_def r) (simp add: bs)
qed

lemma length_be_bytes [simp]: "length (be32_bytes x) = 4" "length (be16_bytes y) = 2"
  by (simp_all add: be32_bytes_def be16_bytes_def)

lemma be_be_bytes [simp]: "be32 (be32_bytes w) = w" "be16 (be16_bytes v) = v"
  by (simp_all add: be32_def be32_bytes_def be16_def be16_bytes_def)

lemma length_bswap_at [simp]: "i + n \<le> length bs \<Longrightarrow> length (bswap_at i n bs) = length bs"
  by (simp add: bswap_at_def sub_def)

lemma length_put_at [simp]: "i + length vs \<le> length bs \<Longrightarrow> length (put_at i vs bs) = length bs"
  by (simp add: put_at_def)

lemma length_sub [simp]: "i + n \<le> length bs \<Longrightarrow> length (sub i n bs) = n"
  by (simp add: sub_def)

lemma nth_bswap_at:
  assumes "i + n \<le> length bs" and "k < length bs"
  shows "bswap_at i n bs ! k = (if i \<le> k \<and> k < i + n then bs ! (i + (n - Suc (k - i))) else bs ! k)"
proof -
  have l: "length (take i bs) = i" "length (rev (sub i n bs)) = n"
    using assms by simp_all
  consider "k < i" | "i \<le> k" "k < i + n" | "i + n \<le> k" by linarith
  then show ?thesis
  proof cases
    case 1
    then show ?thesis using assms l by (simp add: bswap_at_def nth_append)
  next
    case 2
    then have "rev (sub i n bs) ! (k - i) = bs ! (i + (n - Suc (k - i)))"
      using assms l by (simp add: rev_nth sub_def)
    moreover have "\<not> k < i" "k - i < n" using 2 by linarith+
    ultimately show ?thesis using 2 l by (simp add: bswap_at_def nth_append)
  next
    case 3
    then have "\<not> k < i" "\<not> k - i < n" by linarith+
    then show ?thesis using 3 assms l by (simp add: bswap_at_def nth_append)
  qed
qed

lemma sub_middle: "length xs = i \<Longrightarrow> length ys = n \<Longrightarrow> sub i n (xs @ ys @ zs) = ys"
  by (simp add: sub_def)

lemma sub_bswap_same: "i + n \<le> length bs \<Longrightarrow> sub i n (bswap_at i n bs) = rev (sub i n bs)"
  unfolding bswap_at_def by (rule sub_middle) simp_all

lemma bswap_at_twice:
  assumes "i + n \<le> length bs"
  shows "bswap_at i n (bswap_at i n bs) = bs"
proof -
  have "take i (bswap_at i n bs) = take i bs" "drop (i + n) (bswap_at i n bs) = drop (i + n) bs"
    using assms by (simp_all add: bswap_at_def)
  moreover have "bs = take i bs @ sub i n bs @ drop (i + n) bs"
    by (metis add.commute append_take_drop_id drop_drop sub_def)
  ultimately show ?thesis
    using sub_bswap_same [OF assms] by (simp add: bswap_at_def [of i n "bswap_at i n bs"])
qed

lemma sub_eqI:
  assumes "length xs = length ys" and "\<And>k. i \<le> k \<Longrightarrow> k < i + n \<Longrightarrow> k < length xs \<Longrightarrow> xs ! k = ys ! k"
  shows "sub i n xs = sub i n ys"
  using assms by (auto intro!: nth_equalityI simp: sub_def)

lemma sub_bswap_disjoint:
  assumes "i + n \<le> length bs" and "j + m \<le> i \<or> i + n \<le> j"
  shows "sub j m (bswap_at i n bs) = sub j m bs"
  by (rule sub_eqI) (use assms in \<open>auto simp: nth_bswap_at\<close>)

lemma bswap_at_commute:
  assumes "i + n \<le> length bs" and "j + m \<le> length bs" and "j + m \<le> i \<or> i + n \<le> j"
  shows "bswap_at i n (bswap_at j m bs) = bswap_at j m (bswap_at i n bs)"
  by (rule nth_equalityI) (use assms in \<open>auto simp: nth_bswap_at\<close>)

section \<open>Packets\<close>

definition RTP_FIXED_HEADER_SIZE :: nat where "RTP_FIXED_HEADER_SIZE = 12"

record packet =
  pk_data :: "u8 list"
  pk_cont :: "u8 list list"
  pk_addr :: nat            \<comment> \<open>\<^verbatim>\<open>recv_addr\<close>\<close>

definition msg_size :: "packet \<Rightarrow> int" where
  "msg_size p = int (length (pk_data p)) + int (sum_list (map length (pk_cont p)))"

text \<open>The fields of the header.\<close>

definition rtp_get_version :: "u8 list \<Rightarrow> u8" where
  "rtp_get_version bs = drop_bit 6 (bs ! 0)"

definition rtp_get_extbit :: "u8 list \<Rightarrow> bool" where
  "rtp_get_extbit bs = bit (bs ! 0) 4"

definition rtp_get_cc :: "u8 list \<Rightarrow> nat" where
  "rtp_get_cc bs = unat (bs ! 0 AND 0x0F)"

definition rtp_get_markbit :: "u8 list \<Rightarrow> bool" where
  "rtp_get_markbit bs = bit (bs ! 1) 7"

definition rtp_get_payload_type :: "u8 list \<Rightarrow> int" where
  "rtp_get_payload_type bs = uint (bs ! 1 AND 0x7F)"

definition rtp_get_seqnumber :: "u8 list \<Rightarrow> u16" where
  "rtp_get_seqnumber bs = le16 (sub 2 2 bs)"

definition rtp_get_timestamp :: "u8 list \<Rightarrow> u32" where
  "rtp_get_timestamp bs = le32 (sub 4 4 bs)"

definition rtp_get_ssrc :: "u8 list \<Rightarrow> u32" where
  "rtp_get_ssrc bs = le32 (sub 8 4 bs)"

definition rtp_get_csrc :: "u8 list \<Rightarrow> nat \<Rightarrow> u32" where
  "rtp_get_csrc bs idx = le32 (sub (12 + 4 * idx) 4 bs)"

definition rtp_set_markbit :: "bool \<Rightarrow> u8 list \<Rightarrow> u8 list" where
  "rtp_set_markbit v bs = bs[1 := (bs ! 1 AND 0x7F) OR (if v then 0x80 else 0)]"

definition rtp_set_seqnumber :: "u16 \<Rightarrow> u8 list \<Rightarrow> u8 list" where
  "rtp_set_seqnumber s bs = put_at 2 (le16_bytes s) bs"

definition rtp_set_timestamp :: "u32 \<Rightarrow> u8 list \<Rightarrow> u8 list" where
  "rtp_set_timestamp ts bs = put_at 4 (le32_bytes ts) bs"

definition rtp_set_ssrc :: "u32 \<Rightarrow> u8 list \<Rightarrow> u8 list" where
  "rtp_set_ssrc s bs = put_at 8 (le32_bytes s) bs"

definition rtp_set_payload_type :: "int \<Rightarrow> u8 list \<Rightarrow> u8 list" where
  "rtp_set_payload_type pt bs = bs[1 := (bs ! 1 AND 0x80) OR (of_int pt AND 0x7F)]"

definition rtp_add_csrc :: "u32 \<Rightarrow> u8 list \<Rightarrow> u8 list option" where
  "rtp_add_csrc csrc bs =
     (if bs = [] \<or> length bs < 12 + 4 * rtp_get_cc bs + 4 then None
      else let b1 = put_at (12 + 4 * rtp_get_cc bs) (le32_bytes csrc) bs
           in Some (b1[0 := (b1 ! 0 AND 0xF0) OR ((b1 ! 0 + 1) AND 0x0F)]))"

section \<open>Payload and extension header\<close>

text \<open>The size of the extension header's content and its profile, if there is a valid one.\<close>

definition rtp_get_extheader :: "u8 list \<Rightarrow> (nat \<times> u16) option" where
  "rtp_get_extheader bs =
     (if rtp_get_extbit bs then
        let ext = 12 + rtp_get_cc bs * 4
        in if ext + 4 \<le> length bs then
             let h = be32 (sub ext 4 bs);
                 n = unat (h AND 0xFFFF) * 4
             in if ext + 4 + n > length bs then None
                else Some (n, ucast (drop_bit 16 h))
           else None
      else None)"

text \<open>Where the payload starts: in the first block or in its continuation; and its length.\<close>

datatype payload_pos = In_block nat nat | In_cont nat nat | Invalid

definition rtp_get_payload :: "packet \<Rightarrow> payload_pos option" where
  "rtp_get_payload p =
     (let bs = pk_data p in
      if bs = [] then None
      else let header_len = 12 + rtp_get_cc bs * 4 in
        if header_len > length bs then
          (case pk_cont p of
             c # _ \<Rightarrow> if header_len - length bs \<le> length c
                      then Some (In_cont (header_len - length bs) (length c - (header_len - length bs)))
                      else Some Invalid
           | [] \<Rightarrow> Some Invalid)
        else
          let tmp = header_len + (case rtp_get_extheader bs of None \<Rightarrow> 0 | Some (n, _) \<Rightarrow> 4 + n)
          in Some (In_block tmp (length bs - tmp)))"

section \<open>Byte order conversion of a header\<close>

text \<open>The \<open>n\<close> contributing sources from index \<open>i\<close>.\<close>

primrec csrc_swap :: "nat \<Rightarrow> nat \<Rightarrow> u8 list \<Rightarrow> u8 list" where
  "csrc_swap i 0 bs = bs"
| "csrc_swap i (Suc n) bs = csrc_swap (i + 1) n (bswap_at (12 + 4 * i) 4 bs)"

definition fixed_swap :: "u8 list \<Rightarrow> u8 list" where
  "fixed_swap bs = bswap_at 8 4 (bswap_at 4 4 (bswap_at 2 2 bs))"

text \<open>\<^verbatim>\<open>rtp_session_rtp_send\<close> converts the fields it finds in the packet.\<close>

definition rtp_hton :: "u8 list \<Rightarrow> u8 list option" where
  "rtp_hton bs =
     (if length bs < 12 + 4 * rtp_get_cc bs then None
      else Some (csrc_swap 0 (rtp_get_cc bs) (fixed_swap bs)))"

section \<open>Facts\<close>

lemma ge_12_cases:
  assumes "12 \<le> length bs"
  obtains a b c d e f g h i j k l r where "bs = [a, b, c, d, e, f, g, h, i, j, k, l] @ r"
  using assms that by (auto simp: numeral_eq_Suc Suc_le_length_iff)

lemma fixed_swap_explicit:
  "fixed_swap ([a, b, c, d, e, f, g, h, i, j, k, l] @ r) = [a, b, d, c, h, g, f, e, l, k, j, i] @ r"
  by (simp add: fixed_swap_def bswap_at_def sub_def)

lemma swap_byte0:
  assumes "12 \<le> length bs"
  shows "fixed_swap bs ! 0 = bs ! 0" "fixed_swap bs ! 1 = bs ! 1" "length (fixed_swap bs) = length bs"
  using assms by (elim ge_12_cases; simp only: fixed_swap_explicit; simp)+

lemma csrc_swap_length: "12 + 4 * (i + n) \<le> length bs \<Longrightarrow> length (csrc_swap i n bs) = length bs"
  by (induction n arbitrary: i bs) auto

lemma csrc_swap_low:
  "12 + 4 * (i + n) \<le> length bs \<Longrightarrow> k < 12 \<Longrightarrow> csrc_swap i n bs ! k = bs ! k"
proof (induction n arbitrary: i bs)
  case (Suc n)
  then have "csrc_swap i (Suc n) bs ! k = bswap_at (12 + 4 * i) 4 bs ! k" by simp
  also have "\<dots> = bs ! k" using Suc.prems by (subst nth_bswap_at) auto
  finally show ?case .
qed simp

lemma csrc_swap_bswap:
  assumes "12 + 4 * (i + n) \<le> length bs" and "j + 4 \<le> 12 + 4 * i" and "j + 4 \<le> length bs"
  shows "csrc_swap i n (bswap_at j 4 bs) = bswap_at j 4 (csrc_swap i n bs)"
  using assms
proof (induction n arbitrary: i bs)
  case (Suc n)
  have "csrc_swap i (Suc n) (bswap_at j 4 bs) = csrc_swap (i + 1) n (bswap_at j 4 (bswap_at (12 + 4 * i) 4 bs))"
    using Suc.prems by (simp add: bswap_at_commute)
  also have "\<dots> = bswap_at j 4 (csrc_swap (i + 1) n (bswap_at (12 + 4 * i) 4 bs))"
    using Suc.prems by (intro Suc.IH) auto
  finally show ?case by simp
qed simp

lemma csrc_swap_twice:
  "12 + 4 * (i + n) \<le> length bs \<Longrightarrow> csrc_swap i n (csrc_swap i n bs) = bs"
proof (induction n arbitrary: i bs)
  case (Suc n)
  let ?b = "bswap_at (12 + 4 * i) 4 bs"
  have "bswap_at (12 + 4 * i) 4 (csrc_swap (i + 1) n ?b) = csrc_swap (i + 1) n (bswap_at (12 + 4 * i) 4 ?b)"
    using Suc.prems by (intro csrc_swap_bswap [symmetric]) auto
  also have "bswap_at (12 + 4 * i) 4 ?b = bs" using Suc.prems by (intro bswap_at_twice) auto
  finally show ?case using Suc.IH [of "i + 1" bs] Suc.prems by simp
qed simp

lemma fixed_swap_twice: "12 \<le> length bs \<Longrightarrow> fixed_swap (fixed_swap bs) = bs"
  by (elim ge_12_cases) (simp only: fixed_swap_explicit)

lemma fixed_swap_append:
  assumes "length us = 12"
  shows "fixed_swap (us @ vs) = fixed_swap us @ vs"
proof -
  from assms have "12 \<le> length us" by simp
  then obtain a b c d e f g h i j k l r where "us = [a, b, c, d, e, f, g, h, i, j, k, l] @ r"
    by (rule ge_12_cases)
  then show ?thesis
    using fixed_swap_explicit [of a b c d e f g h i j k l "r @ vs"]
      fixed_swap_explicit [of a b c d e f g h i j k l r] by simp
qed

lemma csrc_swap_tail:
  "\<exists>zs. \<forall>us. length us = 12 \<longrightarrow> csrc_swap i n (us @ ys) = us @ zs"
proof (induction n arbitrary: i ys)
  case (Suc n)
  have "bswap_at (12 + 4 * i) 4 (us @ ys) = us @ bswap_at (4 * i) 4 ys" if "length us = 12" for us
    using that by (simp add: bswap_at_def sub_def add.commute)
  then show ?case using Suc.IH [of "i + 1" "bswap_at (4 * i) 4 ys"] by simp
qed auto

lemma fixed_csrc_commute:
  assumes "12 \<le> length bs"
  shows "csrc_swap 0 n (fixed_swap bs) = fixed_swap (csrc_swap 0 n bs)"
proof -
  obtain xs ys where bs: "bs = xs @ ys" "length xs = 12"
    using assms by (metis append_take_drop_id length_take min.absorb2)
  have l: "length (fixed_swap xs) = 12" using bs swap_byte0(3) [of xs] by simp
  obtain zs where "\<forall>us. length us = 12 \<longrightarrow> csrc_swap 0 n (us @ ys) = us @ zs"
    using csrc_swap_tail by blast
  then show ?thesis using bs l by (simp add: fixed_swap_append)
qed

text \<open>Converting twice gives the packet back: what is sent is what is parsed.\<close>

lemma rtp_hton_involution:
  assumes "rtp_hton bs = Some ws"
  shows "rtp_hton ws = Some bs"
proof -
  have l: "12 + 4 * rtp_get_cc bs \<le> length bs" and ws: "ws = csrc_swap 0 (rtp_get_cc bs) (fixed_swap bs)"
    using assms by (simp_all add: rtp_hton_def split: if_splits)
  have lf: "length (fixed_swap bs) = length bs" and lw: "length ws = length bs"
    using l swap_byte0(3) [of bs] by (simp_all add: ws csrc_swap_length)
  have "ws ! 0 = bs ! 0"
    using l lf csrc_swap_low [of 0 "rtp_get_cc bs" "fixed_swap bs" 0] swap_byte0(1) [of bs] by (simp add: ws)
  then have cc: "rtp_get_cc ws = rtp_get_cc bs" by (simp add: rtp_get_cc_def)
  have "csrc_swap 0 (rtp_get_cc bs) (fixed_swap ws) = fixed_swap (csrc_swap 0 (rtp_get_cc bs) ws)"
    using l lw by (intro fixed_csrc_commute) simp
  also have "csrc_swap 0 (rtp_get_cc bs) ws = fixed_swap bs"
    unfolding ws using l lf by (intro csrc_swap_twice) simp
  also have "fixed_swap (fixed_swap bs) = bs" using l by (intro fixed_swap_twice) simp
  finally show ?thesis using l lw by (simp add: rtp_hton_def cc)
qed

end
