(* ===== verification/C_Float.thy ===== *)
theory C_Float
  imports Prelude "HOL-Library.Log_Nat" Complex_Main
begin

text \<open>
  C's \<^verbatim>\<open>float\<close> and \<^verbatim>\<open>double\<close> arithmetic, on rational numbers: every
  operation computes the exact value and rounds it to 24 or 53 significant bits, to nearest with
  ties to even. Overflow, subnormal results and NaN are outside the model: the values the code
  computes with (clock rates, timestamp differences, milliseconds) are far from those ranges.
  Conversions to integer types truncate towards zero; conversions between integer types keep the
  low bits.
\<close>

section \<open>Integer conversions\<close>

definition c_int :: "int \<Rightarrow> int" where
  "c_int i = (i + 2147483648) mod 4294967296 - 2147483648"

definition trunc :: "rat \<Rightarrow> int" where
  "trunc x = (if 0 \<le> x then \<lfloor>x\<rfloor> else \<lceil>x\<rceil>)"

text \<open>Integer division and remainder truncate towards zero.\<close>

definition c_div :: "int \<Rightarrow> int \<Rightarrow> int" where
  "c_div a b = (if (0 \<le> a) = (0 \<le> b) then \<bar>a\<bar> div \<bar>b\<bar> else - (\<bar>a\<bar> div \<bar>b\<bar>))"

definition c_mod :: "int \<Rightarrow> int \<Rightarrow> int" where
  "c_mod a b = a - b * c_div a b"

lemma c_int_id: "- 2147483648 \<le> i \<Longrightarrow> i < 2147483648 \<Longrightarrow> c_int i = i"
  by (simp add: c_int_def)

lemma c_int_range: "- 2147483648 \<le> c_int i \<and> c_int i < 2147483648"
proof -
  have "0 \<le> (i + 2147483648) mod 4294967296" "(i + 2147483648) mod 4294967296 < 4294967296"
    by simp_all
  then show ?thesis unfolding c_int_def by linarith
qed

lemma trunc_of_int [simp]: "trunc (of_int i) = i"
  by (simp add: trunc_def)

lemma trunc_mono:
  assumes "x \<le> y"
  shows "trunc x \<le> trunc y"
proof (cases "0 \<le> x \<or> y < 0")
  case True
  then show ?thesis using assms by (auto simp: trunc_def intro: floor_mono ceiling_mono)
next
  case False
  then have "\<lceil>x\<rceil> \<le> 0" "0 \<le> \<lfloor>y\<rfloor>" by (simp_all add: ceiling_le_zero)
  then have "\<lceil>x\<rceil> \<le> \<lfloor>y\<rfloor>" by (rule order_trans)
  then show ?thesis using False by (simp add: trunc_def)
qed

section \<open>Rounding\<close>

text \<open>The exponent of the last place of \<open>x\<close> in a format of \<open>p\<close> bits.\<close>

definition ulp_exp :: "nat \<Rightarrow> rat \<Rightarrow> int" where
  "ulp_exp p x =
     (let (a, b) = quotient_of x; k = bitlen a - bitlen b
      in (if 2 powi k \<le> x then k else k - 1) - int p + 1)"

definition round_even :: "rat \<Rightarrow> int" where
  "round_even x =
     (let f = \<lfloor>x\<rfloor>; r = x - of_int f
      in if r < 1 / 2 \<or> r = 1 / 2 \<and> even f then f else f + 1)"

definition fround :: "nat \<Rightarrow> rat \<Rightarrow> rat" where
  "fround p x =
     (if x = 0 then 0
      else if 0 < x then let e = ulp_exp p x in of_int (round_even (x / 2 powi e)) * 2 powi e
      else let e = ulp_exp p (- x) in - (of_int (round_even (- x / 2 powi e)) * 2 powi e))"

definition to_float :: "rat \<Rightarrow> rat" where "to_float = fround 24"
definition to_double :: "rat \<Rightarrow> rat" where "to_double = fround 53"

lemma round_even_of_int [simp]: "round_even (of_int i) = i"
  by (simp add: round_even_def)

lemma round_even_nonneg: "0 \<le> x \<Longrightarrow> 0 \<le> round_even x"
  by (auto simp: round_even_def Let_def)

lemma fround_0 [simp]: "fround p 0 = 0"
  by (simp add: fround_def)

lemma fround_uminus: "fround p (- x) = - fround p x"
  by (auto simp: fround_def Let_def)

lemma fround_nonneg: "0 \<le> x \<Longrightarrow> 0 \<le> fround p x"
  by (auto simp: fround_def Let_def intro!: mult_nonneg_nonneg round_even_nonneg)

lemma fround_nonpos: "x \<le> 0 \<Longrightarrow> fround p x \<le> 0"
  using fround_nonneg [of "- x" p] by (simp add: fround_uminus)

text \<open>Integers of at most \<open>p\<close> bits are represented exactly.\<close>

lemma ulp_exp_of_int:
  assumes "0 < i" and "i < 2 ^ p"
  shows "ulp_exp p (of_int i) \<le> 0"
proof -
  have "bitlen i \<le> int p" using assms by (simp add: bitlen_le_iff_power)
  moreover have "bitlen (1::int) = 1" by (simp add: bitlen_alt_def)
  ultimately show ?thesis
    by (simp add: ulp_exp_def quotient_of_int Let_def)
qed

lemma fround_of_int_pos:
  assumes "0 < i" and "i < 2 ^ p"
  shows "fround p (of_int i) = of_int i"
proof -
  obtain n where n: "ulp_exp p (of_int i) = - int n"
    using ulp_exp_of_int [OF assms] by (metis nonpos_int_cases)
  have "of_int i / 2 powi (- int n) = (of_int (i * 2 ^ n) :: rat)"
    by (simp add: power_int_minus divide_inverse)
  then have "round_even (of_int i / 2 powi (- int n)) = i * 2 ^ n"
    by (simp only: round_even_of_int)
  moreover have "of_int (i * 2 ^ n) * 2 powi (- int n) = (of_int i :: rat)"
    by (simp add: power_int_minus)
  ultimately show ?thesis using assms(1) n by (simp only: fround_def Let_def) simp
qed

lemma fround_of_int:
  assumes "\<bar>i\<bar> < 2 ^ p"
  shows "fround p (of_int i) = of_int i"
proof -
  consider "i = 0" | "0 < i" | "i < 0" by linarith
  then show ?thesis
  proof cases
    case 3
    then show ?thesis
      using fround_of_int_pos [of "- i" p] assms fround_uminus [of p "of_int i"] by simp
  qed (use fround_of_int_pos assms in auto)
qed

end
