(* ===== verification/Netsim.thy ===== *)
theory Netsim
  imports Rtp_Packet C_Float "HOL-Library.Sublist"
begin

text \<open>
  The network simulator of a session, \<^verbatim>\<open>oRTP/src/netsim.c\<close>: a queue that lets packets
  out at a limited bandwidth, and random loss. The clock and the random number are arguments.
\<close>

record sim_params =
  sp_enabled :: bool
  max_bandwidth :: rat
  loss_rate :: rat

record sim_ctx =
  sim_params :: sim_params
  bit_budget :: int
  sim_qsize :: int
  sim_q :: "packet list"
  last_check :: timeval

definition simulator_ctx_new :: sim_ctx where
  "simulator_ctx_new = \<lparr>sim_params = \<lparr>sp_enabled = False, max_bandwidth = 0, loss_rate = 0\<rparr>,
     bit_budget = 0, sim_qsize = 0, sim_q = [], last_check = \<lparr>tv_sec = 0, tv_usec = 0\<rparr>\<rparr>"

text \<open>The context of the session after the call: \<open>None\<close> when it is destroyed.\<close>

definition rtp_session_enable_network_simulation :: "sim_ctx option \<Rightarrow> sim_params \<Rightarrow> sim_ctx option" where
  "rtp_session_enable_network_simulation sim params =
     (if sp_enabled params
      then Some ((case sim of None \<Rightarrow> simulator_ctx_new | Some c \<Rightarrow> c)\<lparr>sim_params := params\<rparr>)
      else None)"

definition elapsed_us :: "timeval \<Rightarrow> timeval \<Rightarrow> int" where
  "elapsed_us tv1 tv2 = (tv_sec tv2 - tv_sec tv1) * 1000000 + (tv_usec tv2 - tv_usec tv1)"

definition udp_overhead :: "bool \<Rightarrow> int" where
  "udp_overhead ipv6 = (if ipv6 then 48 else 28)"

definition packet_bits :: "bool \<Rightarrow> packet \<Rightarrow> int" where
  "packet_bits ipv6 p = (msg_size p + udp_overhead ipv6) * 8"

text \<open>The flow control loop discards from the head; with an empty queue it may not end.\<close>

fun discard_loop :: "bool \<Rightarrow> rat \<Rightarrow> int \<Rightarrow> packet list \<Rightarrow> (int \<times> packet list) option" where
  "discard_loop ipv6 bw qs [] = (if to_float (of_int qs) \<ge> bw then None else Some (qs, []))"
| "discard_loop ipv6 bw qs (p # ps) =
     (if to_float (of_int qs) \<ge> bw then discard_loop ipv6 bw (qs - packet_bits ipv6 p) ps else Some (qs, p # ps))"

definition sim_update_budget :: "timeval \<Rightarrow> sim_ctx \<Rightarrow> sim_ctx" where
  "sim_update_budget current sim =
     (let s1 = (if tv_sec (last_check sim) = 0 then sim\<lparr>last_check := current, bit_budget := 0\<rparr> else sim)
      in s1\<lparr>bit_budget := bit_budget s1 +
              c_div (elapsed_us (last_check s1) current * trunc (max_bandwidth (sim_params s1))) 1000000,
            last_check := current\<rparr>)"

definition sim_enqueue :: "bool \<Rightarrow> packet option \<Rightarrow> sim_ctx \<Rightarrow> sim_ctx" where
  "sim_enqueue ipv6 input sim = (case input of None \<Rightarrow> sim
     | Some p \<Rightarrow> sim\<lparr>sim_q := sim_q sim @ [p], sim_qsize := sim_qsize sim + packet_bits ipv6 p\<rparr>)"

definition sim_flow_control :: "bool \<Rightarrow> sim_ctx \<Rightarrow> sim_ctx option" where
  "sim_flow_control ipv6 sim = do {
     (qs, q) \<leftarrow> discard_loop ipv6 (max_bandwidth (sim_params sim)) (sim_qsize sim) (sim_q sim);
     Some (sim\<lparr>sim_qsize := qs, sim_q := q\<rparr>) }"

definition sim_output :: "bool \<Rightarrow> sim_ctx \<Rightarrow> packet option \<times> sim_ctx" where
  "sim_output ipv6 sim =
     (if bit_budget sim \<ge> 0 then
        (case sim_q sim of
           [] \<Rightarrow> (None, sim)
         | p # ps \<Rightarrow> (Some p, sim\<lparr>sim_q := ps, bit_budget := bit_budget sim - packet_bits ipv6 p,
                                sim_qsize := sim_qsize sim - packet_bits ipv6 p\<rparr>))
      else (None, sim))"

definition simulate_bandwidth_limit ::
  "bool \<Rightarrow> timeval \<Rightarrow> packet option \<Rightarrow> sim_ctx \<Rightarrow> (packet option \<times> sim_ctx) option" where
  "simulate_bandwidth_limit ipv6 current input sim = do {
     s3 \<leftarrow> sim_flow_control ipv6 (sim_enqueue ipv6 input (sim_update_budget current sim));
     let (output, s4) = sim_output ipv6 s3;
     Some (output,
       if output = None \<and> input = None \<and> bit_budget s4 \<ge> 0
       then s4\<lparr>last_check := (last_check s4)\<lparr>tv_sec := 0\<rparr>\<rparr> else s4) }"

text \<open>The rate is passed as an \<^verbatim>\<open>int\<close>; \<open>rnd\<close> is the result of \<^verbatim>\<open>rand()\<close>.\<close>

definition simulate_loss_rate :: "int \<Rightarrow> packet \<Rightarrow> int \<Rightarrow> packet option" where
  "simulate_loss_rate rnd input rate = (if rnd mod 101 \<ge> rate then Some input else None)"

text \<open>The results of \<^verbatim>\<open>rand()\<close> to come are a list, 0 when there are no more.\<close>

definition rtp_session_network_simulate ::
  "bool \<Rightarrow> timeval \<Rightarrow> int list \<Rightarrow> packet option \<Rightarrow> sim_ctx \<Rightarrow> (packet option \<times> int list \<times> sim_ctx) option" where
  "rtp_session_network_simulate ipv6 current rands input sim = do {
     (om, s1) \<leftarrow> (if max_bandwidth (sim_params sim) > 0
                  then simulate_bandwidth_limit ipv6 current input sim else Some (input, sim));
     Some (case om of
         Some p \<Rightarrow>
           if loss_rate (sim_params s1) > 0
           then (simulate_loss_rate (case rands of [] \<Rightarrow> 0 | r # _ \<Rightarrow> r) p (trunc (loss_rate (sim_params s1))),
                 tl rands, s1)
           else (Some p, rands, s1)
       | None \<Rightarrow> (None, rands, s1)) }"

section \<open>The queue and its size\<close>

definition sim_ok :: "bool \<Rightarrow> sim_ctx \<Rightarrow> bool" where
  "sim_ok ipv6 sim \<longleftrightarrow> sim_qsize sim = sum_list (map (packet_bits ipv6) (sim_q sim))"

lemma packet_bits_pos: "0 < packet_bits ipv6 p"
  by (simp add: packet_bits_def udp_overhead_def msg_size_def)

abbreviation opt_list :: "'a option \<Rightarrow> 'a list" where
  "opt_list x \<equiv> (case x of None \<Rightarrow> [] | Some p \<Rightarrow> [p])"

lemma discard_loop_total:
  assumes "0 < bw" and "qs = sum_list (map (packet_bits ipv6) q)"
  shows "\<exists>k. discard_loop ipv6 bw qs q = Some (sum_list (map (packet_bits ipv6) (drop k q)), drop k q) \<and>
    to_float (of_int (sum_list (map (packet_bits ipv6) (drop k q)))) < bw"
  using assms
proof (induction ipv6 bw qs q rule: discard_loop.induct)
  case (2 ipv6 bw qs p ps)
  show ?case
  proof (cases "to_float (of_int qs) \<ge> bw")
    case True
    then obtain k where "discard_loop ipv6 bw (qs - packet_bits ipv6 p) ps =
        Some (sum_list (map (packet_bits ipv6) (drop k ps)), drop k ps)"
      "to_float (of_int (sum_list (map (packet_bits ipv6) (drop k ps)))) < bw"
      using 2 by auto
    then show ?thesis using True by (intro exI [of _ "Suc k"]) simp
  next
    case False
    then show ?thesis using 2 by (intro exI [of _ 0]) simp
  qed
qed (simp add: to_float_def)

lemma flow_control_step:
  assumes "0 < max_bandwidth (sim_params sim)" and "sim_ok ipv6 sim"
  shows "\<exists>k qs. sim_flow_control ipv6 sim = Some (sim\<lparr>sim_qsize := qs, sim_q := drop k (sim_q sim)\<rparr>) \<and>
    qs = sum_list (map (packet_bits ipv6) (drop k (sim_q sim))) \<and>
    to_float (of_int qs) < max_bandwidth (sim_params sim)"
  using discard_loop_total [OF assms(1), of "sim_qsize sim" ipv6 "sim_q sim"] assms(2)
  by (auto simp: sim_flow_control_def sim_ok_def)

lemma output_step:
  assumes "sim_ok ipv6 sim" and "sim_output ipv6 sim = (om, sim')"
  shows "sim_ok ipv6 sim'" "sim_params sim' = sim_params sim" "sim_q sim = opt_list om @ sim_q sim'"
    "sim_qsize sim' \<le> sim_qsize sim" "om \<noteq> None \<Longrightarrow> 0 \<le> bit_budget sim"
    "bit_budget sim' = bit_budget sim - sum_list (map (packet_bits ipv6) (opt_list om))"
    "last_check sim' = last_check sim"
  using assms packet_bits_pos [of ipv6 "hd (sim_q sim)"]
  by (auto simp: sim_output_def sim_ok_def split: if_splits list.splits)

text \<open>What one call does: packets leave from the head only, first the discarded, then the output.\<close>

lemma bandwidth_limit_step:
  assumes bw: "0 < max_bandwidth (sim_params sim)" and ok: "sim_ok ipv6 sim"
  shows "\<exists>om sim' k qs. simulate_bandwidth_limit ipv6 current input sim = Some (om, sim') \<and> sim_ok ipv6 sim' \<and>
    sim_params sim' = sim_params sim \<and>
    drop k (sim_q sim @ opt_list input) = opt_list om @ sim_q sim' \<and>
    sim_qsize sim' \<le> qs \<and> to_float (of_int qs) < max_bandwidth (sim_params sim) \<and>
    bit_budget sim' = bit_budget (sim_update_budget current sim) -
      sum_list (map (packet_bits ipv6) (opt_list om)) \<and>
    (om \<noteq> None \<longrightarrow> 0 \<le> bit_budget (sim_update_budget current sim)) \<and>
    last_check sim' = (if om = None \<and> input = None \<and> 0 \<le> bit_budget sim'
                       then current\<lparr>tv_sec := 0\<rparr> else current)"
proof -
  define s2 where "s2 = sim_enqueue ipv6 input (sim_update_budget current sim)"
  have f2: "sim_params s2 = sim_params sim" "sim_q s2 = sim_q sim @ opt_list input"
    "bit_budget s2 = bit_budget (sim_update_budget current sim)" "sim_ok ipv6 s2" "last_check s2 = current"
    using ok by (auto simp: s2_def sim_enqueue_def sim_update_budget_def sim_ok_def Let_def split: option.splits)
  obtain k qs where k: "sim_flow_control ipv6 s2 = Some (s2\<lparr>sim_qsize := qs, sim_q := drop k (sim_q s2)\<rparr>)"
    "qs = sum_list (map (packet_bits ipv6) (drop k (sim_q s2)))"
    "to_float (of_int qs) < max_bandwidth (sim_params s2)"
    using flow_control_step [of s2 ipv6] bw f2 by auto
  define s3 where "s3 = s2\<lparr>sim_qsize := qs, sim_q := drop k (sim_q s2)\<rparr>"
  obtain om s4 where o4: "sim_output ipv6 s3 = (om, s4)" by fastforce
  have f3: "sim_ok ipv6 s3" "sim_params s3 = sim_params sim" "sim_qsize s3 = qs"
    "sim_q s3 = drop k (sim_q sim @ opt_list input)"
    "bit_budget s3 = bit_budget (sim_update_budget current sim)" "last_check s3 = current"
    using k f2 by (simp_all only: s3_def sim_ok_def) simp_all
  let ?s5 = "if om = None \<and> input = None \<and> 0 \<le> bit_budget s4
             then s4\<lparr>last_check := (last_check s4)\<lparr>tv_sec := 0\<rparr>\<rparr> else s4"
  have f5: "sim_ok ipv6 ?s5" "sim_params ?s5 = sim_params s4" "sim_q ?s5 = sim_q s4" "sim_qsize ?s5 = sim_qsize s4"
    "bit_budget ?s5 = bit_budget s4"
    "last_check ?s5 = (if om = None \<and> input = None \<and> 0 \<le> bit_budget s4
                       then (last_check s4)\<lparr>tv_sec := 0\<rparr> else last_check s4)"
    using output_step(1) [OF f3(1) o4] by (simp_all add: sim_ok_def)
  have "simulate_bandwidth_limit ipv6 current input sim = Some (om, ?s5)"
    using k(1) o4 by (simp add: simulate_bandwidth_limit_def s2_def [symmetric] s3_def [symmetric])
  then show ?thesis
    using output_step [OF f3(1) o4] f3 f5 k(3) f2(1) by metis
qed

lemma network_simulate_total:
  assumes "sim_ok ipv6 sim"
  shows "\<exists>om rs sim'. rtp_session_network_simulate ipv6 current rands input sim = Some (om, rs, sim') \<and>
    sim_ok ipv6 sim' \<and> set (opt_list om @ sim_q sim') \<subseteq> set (sim_q sim @ opt_list input)"
proof -
  obtain om s1 where s: "(if max_bandwidth (sim_params sim) > 0
      then simulate_bandwidth_limit ipv6 current input sim else Some (input, sim)) = Some (om, s1)"
    "sim_ok ipv6 s1" "set (opt_list om @ sim_q s1) \<subseteq> set (sim_q sim @ opt_list input)"
  proof (cases "max_bandwidth (sim_params sim) > 0")
    case True
    obtain om s1 k where r: "simulate_bandwidth_limit ipv6 current input sim = Some (om, s1)" "sim_ok ipv6 s1"
      "drop k (sim_q sim @ opt_list input) = opt_list om @ sim_q s1"
      using bandwidth_limit_step [OF True assms, of current input] by blast
    have "set (opt_list om @ sim_q s1) \<subseteq> set (sim_q sim @ opt_list input)"
      unfolding r(3) [symmetric] by (rule set_drop_subset)
    then show ?thesis using that True r by simp
  next
    case False
    then show ?thesis using that assms by simp
  qed
  then show ?thesis
    unfolding rtp_session_network_simulate_def s(1) Option.bind.simps(2) prod.case
    by (auto simp: simulate_loss_rate_def split: option.splits)
qed

section \<open>Runs of the bandwidth limit\<close>

text \<open>The packets that come out of a sequence of calls, with their times.\<close>

fun sim_run ::
  "bool \<Rightarrow> (timeval \<times> packet option) list \<Rightarrow> sim_ctx \<Rightarrow> (packet list \<times> sim_ctx) option" where
  "sim_run ipv6 [] sim = Some ([], sim)"
| "sim_run ipv6 ((t, i) # is) sim = do {
     (om, s1) \<leftarrow> simulate_bandwidth_limit ipv6 t i sim;
     (out, s2) \<leftarrow> sim_run ipv6 is s1;
     Some ((case om of None \<Rightarrow> [] | Some p \<Rightarrow> [p]) @ out, s2) }"

definition us :: "timeval \<Rightarrow> int" where
  "us t = tv_sec t * 1000000 + tv_usec t"

text \<open>
  The simulated link neither reorders, duplicates nor invents packets: whatever is fed to it,
  it never hangs, and what comes out followed by what is still queued is a subsequence of what was
  queued and fed.
\<close>

theorem netsim_in_order:
  assumes "0 < max_bandwidth (sim_params sim)" and "sim_ok ipv6 sim"
  shows "\<exists>out sim'. sim_run ipv6 ins sim = Some (out, sim') \<and> sim_ok ipv6 sim' \<and>
    subseq (out @ sim_q sim') (sim_q sim @ concat (map (\<lambda>a. opt_list (snd a)) ins))"
  using assms
proof (induction ins arbitrary: sim)
  case (Cons ti ins)
  obtain t i where ti: "ti = (t, i)" by fastforce
  obtain om s1 k qs where s: "simulate_bandwidth_limit ipv6 t i sim = Some (om, s1)" "sim_ok ipv6 s1"
    "sim_params s1 = sim_params sim" "drop k (sim_q sim @ opt_list i) = opt_list om @ sim_q s1"
    using bandwidth_limit_step [OF Cons.prems(1,2), of t i] by blast
  obtain out s2 where r: "sim_run ipv6 ins s1 = Some (out, s2)" "sim_ok ipv6 s2"
    "subseq (out @ sim_q s2) (sim_q s1 @ concat (map (\<lambda>a. opt_list (snd a)) ins))"
    using Cons.IH [of s1] Cons.prems s by auto
  have "subseq (opt_list om @ out @ sim_q s2)
      (opt_list om @ sim_q s1 @ concat (map (\<lambda>a. opt_list (snd a)) ins))"
    using list_emb_append_mono [OF subseq_order.order_refl r(3)] .
  also have "opt_list om @ sim_q s1 @ concat (map (\<lambda>a. opt_list (snd a)) ins) =
      drop k (sim_q sim @ opt_list i) @ concat (map (\<lambda>a. opt_list (snd a)) ins)"
    by (simp only: s(4) append_assoc)
  also have "subseq \<dots> ((sim_q sim @ opt_list i) @ concat (map (\<lambda>a. opt_list (snd a)) ins))"
    by (intro list_emb_append_mono suffix_imp_subseq suffix_drop subseq_order.order_refl)
  finally show ?case
    using s r by (auto simp: ti)
qed simp

definition ex_sim :: sim_ctx where
  "ex_sim = the (rtp_session_enable_network_simulation None
     \<lparr>sp_enabled = True, max_bandwidth = 64000, loss_rate = 0\<rparr>)"

lemma ex_sim_ok: "sim_ok ipv6 ex_sim" "max_bandwidth (sim_params ex_sim) = 64000" "sim_qsize ex_sim = 0"
  "sim_q ex_sim = []" "bit_budget ex_sim = 0" "tv_sec (last_check ex_sim) = 0"
  by (simp_all add: sim_ok_def ex_sim_def rtp_session_enable_network_simulation_def simulator_ctx_new_def)

lemma netsim_in_order_witness:
  "\<exists>out sim'. sim_run False [(\<lparr>tv_sec = 1, tv_usec = 0\<rparr>, Some \<lparr>pk_data = [1], pk_cont = [], pk_addr = 0\<rparr>)] ex_sim =
     Some (out, sim') \<and> subseq (out @ sim_q sim') [\<lparr>pk_data = [1], pk_cont = [], pk_addr = 0\<rparr>]"
  using netsim_in_order [of ex_sim False "[(\<lparr>tv_sec = 1, tv_usec = 0\<rparr>, Some \<lparr>pk_data = [1], pk_cont = [], pk_addr = 0\<rparr>)]"]
  by (simp add: ex_sim_ok) blast

section \<open>The rate\<close>

text \<open>Between calls: the time of the last one, and what the budget may owe.\<close>

definition rate_ok :: "int \<Rightarrow> int \<Rightarrow> sim_ctx \<Rightarrow> bool" where
  "rate_ok M t sim \<longleftrightarrow> 0 < max_bandwidth (sim_params sim) \<and> - M \<le> bit_budget sim \<and>
     (if tv_sec (last_check sim) = 0 then 0 \<le> bit_budget sim else us (last_check sim) = t)"

lemma trunc_pos: "0 < x \<Longrightarrow> 0 \<le> trunc x"
  by (simp add: trunc_def)

lemma c_div_bounds: "0 \<le> a \<Longrightarrow> 0 < b \<Longrightarrow> 0 \<le> c_div a b \<and> b * c_div a b \<le> a"
  by (simp add: c_div_def pos_imp_zdiv_nonneg_iff mult.commute [of b] flip: minus_mod_eq_div_mult)

lemma budget_update:
  assumes ok: "rate_ok M t sim" and t: "t \<le> us cur" and M: "0 \<le> M"
  shows "1000000 * bit_budget (sim_update_budget cur sim) \<le>
      1000000 * bit_budget sim + trunc (max_bandwidth (sim_params sim)) * (us cur - t)"
    and "- M \<le> bit_budget (sim_update_budget cur sim)"
proof -
  let ?B = "trunc (max_bandwidth (sim_params sim))"
  have B: "0 \<le> ?B * (us cur - t)"
    using ok t trunc_pos by (simp add: rate_ok_def)
  have e: "elapsed_us a b = us b - us a" for a b
    by (simp add: elapsed_us_def us_def)
  have z: "c_div 0 1000000 = 0" by (simp add: c_div_def)
  have "1000000 * bit_budget (sim_update_budget cur sim) \<le> 1000000 * bit_budget sim + ?B * (us cur - t) \<and>
    - M \<le> bit_budget (sim_update_budget cur sim)"
  proof (cases "tv_sec (last_check sim) = 0")
    case True
    then show ?thesis using ok B M by (simp add: sim_update_budget_def rate_ok_def e z)
  next
    case False
    have "0 \<le> c_div (?B * (us cur - t)) 1000000" "1000000 * c_div (?B * (us cur - t)) 1000000 \<le> ?B * (us cur - t)"
      using c_div_bounds [OF B, of 1000000] by simp_all
    then show ?thesis
      using False ok by (simp add: sim_update_budget_def rate_ok_def e mult.commute)
  qed
  then show "1000000 * bit_budget (sim_update_budget cur sim) \<le>
      1000000 * bit_budget sim + ?B * (us cur - t)"
    and "- M \<le> bit_budget (sim_update_budget cur sim)" by simp_all
qed

abbreviation bits :: "bool \<Rightarrow> packet list \<Rightarrow> int" where
  "bits ipv6 ps \<equiv> sum_list (map (packet_bits ipv6) ps)"

text \<open>Calls at times that do not go back, with packets of at most \<open>M\<close> bits.\<close>

fun clocked :: "int \<Rightarrow> (timeval \<times> packet option) list \<Rightarrow> bool" where
  "clocked t [] = True"
| "clocked t ((c, i) # ins) = (t \<le> us c \<and> 0 < tv_sec c \<and> clocked (us c) ins)"

definition small :: "bool \<Rightarrow> int \<Rightarrow> packet list \<Rightarrow> bool" where
  "small ipv6 M ps \<longleftrightarrow> list_all (\<lambda>p. packet_bits ipv6 p \<le> M) ps"

fun end_time :: "int \<Rightarrow> (timeval \<times> packet option) list \<Rightarrow> int" where
  "end_time t [] = t"
| "end_time t ((c, i) # ins) = end_time (us c) ins"

lemma small_append [simp]: "small ipv6 M (ps @ qs) \<longleftrightarrow> small ipv6 M ps \<and> small ipv6 M qs"
  by (simp add: small_def)

lemma small_drop: "small ipv6 M ps \<Longrightarrow> small ipv6 M (drop k ps)"
  by (auto simp: small_def list_all_iff dest: in_set_dropD)

lemma rate_step:
  assumes r: "simulate_bandwidth_limit ipv6 c i sim = Some (om, s1)"
    and ok: "rate_ok M t sim" "sim_ok ipv6 sim" and c: "t \<le> us c" "0 < tv_sec c" and M: "0 \<le> M"
    and sm: "small ipv6 M (sim_q sim @ opt_list i)"
  shows "sim_ok ipv6 s1" "rate_ok M (us c) s1" "sim_params s1 = sim_params sim" "small ipv6 M (sim_q s1)"
    "1000000 * (bits ipv6 (opt_list om) + bit_budget s1) \<le>
     1000000 * bit_budget sim + trunc (max_bandwidth (sim_params sim)) * (us c - t)"
proof -
  have bw: "0 < max_bandwidth (sim_params sim)" using ok by (simp add: rate_ok_def)
  obtain k where s: "sim_ok ipv6 s1" "sim_params s1 = sim_params sim"
    "drop k (sim_q sim @ opt_list i) = opt_list om @ sim_q s1"
    "bit_budget s1 = bit_budget (sim_update_budget c sim) - bits ipv6 (opt_list om)"
    "om \<noteq> None \<longrightarrow> 0 \<le> bit_budget (sim_update_budget c sim)"
    "last_check s1 = (if om = None \<and> i = None \<and> 0 \<le> bit_budget s1 then c\<lparr>tv_sec := 0\<rparr> else c)"
    using bandwidth_limit_step [OF bw ok(2), of c i] r by auto
  note b = budget_update [OF ok(1) c(1) M]
  have sm2: "small ipv6 M (opt_list om)" "small ipv6 M (sim_q s1)"
    using small_drop [OF sm, of k] unfolding s(3) by simp_all
  show "sim_ok ipv6 s1" "sim_params s1 = sim_params sim" by fact+
  show "small ipv6 M (sim_q s1)" by fact
  show "1000000 * (bits ipv6 (opt_list om) + bit_budget s1) \<le>
     1000000 * bit_budget sim + trunc (max_bandwidth (sim_params sim)) * (us c - t)"
    using b(1) s(4) by simp
  have "- M \<le> bit_budget s1"
    using b(2) s(4,5) sm2(1) by (cases om) (simp_all add: small_def)
  then show "rate_ok M (us c) s1"
    using s(2,6) bw c by (auto simp: rate_ok_def us_def)
qed

lemma rate_run:
  assumes "rate_ok M t sim" "sim_ok ipv6 sim" "clocked t ins" "0 \<le> M"
    "small ipv6 M (sim_q sim @ concat (map (\<lambda>a. opt_list (snd a)) ins))"
  shows "\<exists>out sim'. sim_run ipv6 ins sim = Some (out, sim') \<and>
    1000000 * (bits ipv6 out - M) \<le> 1000000 * bit_budget sim +
       trunc (max_bandwidth (sim_params sim)) * (end_time t ins - t)"
  using assms
proof (induction ins arbitrary: sim t)
  case (Cons ci ins)
  obtain c i where ci: "ci = (c, i)" by fastforce
  have bw: "0 < max_bandwidth (sim_params sim)" using Cons.prems by (simp add: rate_ok_def)
  obtain om s1 where s: "simulate_bandwidth_limit ipv6 c i sim = Some (om, s1)"
    using bandwidth_limit_step [OF bw Cons.prems(2), of c i] by blast
  have cl: "t \<le> us c" "0 < tv_sec c" "clocked (us c) ins" and sm: "small ipv6 M (sim_q sim @ opt_list i)"
    "small ipv6 M (concat (map (\<lambda>a. opt_list (snd a)) ins))"
    using Cons.prems ci by auto
  note st = rate_step [OF s Cons.prems(1,2) cl(1,2) Cons.prems(4) sm(1)]
  obtain out s2 where r: "sim_run ipv6 ins s1 = Some (out, s2)"
    "1000000 * (bits ipv6 out - M) \<le> 1000000 * bit_budget s1 +
       trunc (max_bandwidth (sim_params s1)) * (end_time (us c) ins - us c)"
    using Cons.IH [OF st(2,1) cl(3) Cons.prems(4)] st(4) sm(2) by auto
  have "trunc (max_bandwidth (sim_params sim)) * (end_time (us c) ins - us c) +
      trunc (max_bandwidth (sim_params sim)) * (us c - t) =
      trunc (max_bandwidth (sim_params sim)) * (end_time (us c) ins - t)"
    by (simp add: algebra_simps)
  then show ?case
    using s r st(3,5) by (intro exI [of _ "opt_list om @ out"] exI [of _ s2]) (auto simp: ci algebra_simps)
qed (simp add: rate_ok_def)

text \<open>
  C31. The simulated link keeps to its bandwidth: from a new context, over any calls whose clock
  does not go back, the bits let out, headers included, are at most the bandwidth times the time
  passed plus one packet.
\<close>

theorem netsim_rate_limit:
  assumes "sp_enabled ps" and "0 < max_bandwidth ps" and "clocked (us (fst i)) (i # ins)"
    and "small ipv6 M (concat (map (\<lambda>a. opt_list (snd a)) (i # ins)))" and "0 \<le> M"
  shows "\<exists>sim out sim'. rtp_session_enable_network_simulation None ps = Some sim \<and>
    sim_run ipv6 (i # ins) sim = Some (out, sim') \<and>
    1000000 * (\<Sum>p\<leftarrow>out. packet_bits ipv6 p) \<le>
      trunc (max_bandwidth ps) * (end_time (us (fst i)) ins - us (fst i)) + 1000000 * M"
proof -
  let ?sim = "simulator_ctx_new\<lparr>sim_params := ps\<rparr>"
  have "rate_ok M (us (fst i)) ?sim" "sim_ok ipv6 ?sim" "sim_q ?sim = []" "bit_budget ?sim = 0"
    "sim_params ?sim = ps"
    using assms by (simp_all add: rate_ok_def sim_ok_def simulator_ctx_new_def)
  then obtain out sim' where "sim_run ipv6 (i # ins) ?sim = Some (out, sim')"
    "1000000 * (bits ipv6 out - M) \<le> trunc (max_bandwidth ps) * (end_time (us (fst i)) (i # ins) - us (fst i))"
    using rate_run [of M "us (fst i)" ?sim ipv6 "i # ins"] assms(3-5) by auto
  moreover have "end_time (us (fst i)) (i # ins) = end_time (us (fst i)) ins"
    by (cases i) simp
  ultimately show ?thesis
    using assms(1) by (intro exI [of _ ?sim] exI [of _ out] exI [of _ sim'])
      (simp add: rtp_session_enable_network_simulation_def right_diff_distrib)
qed

lemma netsim_rate_limit_witness:
  "\<exists>sim out sim'. rtp_session_enable_network_simulation None
       \<lparr>sp_enabled = True, max_bandwidth = 64000, loss_rate = 0\<rparr> = Some sim \<and>
    sim_run False [(\<lparr>tv_sec = 1, tv_usec = 0\<rparr>, Some \<lparr>pk_data = [1], pk_cont = [], pk_addr = 0\<rparr>),
                   (\<lparr>tv_sec = 2, tv_usec = 0\<rparr>, None)] sim = Some (out, sim') \<and>
    1000000 * (\<Sum>p\<leftarrow>out. packet_bits False p) \<le> trunc 64000 * 1000000 + 1000000 * 300"
  using netsim_rate_limit [of "\<lparr>sp_enabled = True, max_bandwidth = 64000, loss_rate = 0\<rparr>"
      "(\<lparr>tv_sec = 1, tv_usec = 0\<rparr>, Some \<lparr>pk_data = [1], pk_cont = [], pk_addr = 0\<rparr>)"
      "[(\<lparr>tv_sec = 2, tv_usec = 0\<rparr>, None)]" False 300]
  by (simp add: us_def small_def packet_bits_def udp_overhead_def msg_size_def)

end
