(* ===== verification/C_Strings.thy ===== *)
theory C_Strings
  imports Prelude
begin

text \<open>
  The functions of the C string library the modelled code calls, on strings without their
  terminating NUL: \<^verbatim>\<open>strcasecmp\<close>, \<^verbatim>\<open>strchr\<close>,
  \<^verbatim>\<open>strstr\<close>, \<^verbatim>\<open>atoi\<close> and the \<^verbatim>\<open>%i\<close>
  conversion of \<^verbatim>\<open>printf\<close>. A returned \<^verbatim>\<open>char *\<close> is the suffix it
  points to.
\<close>

definition to_lower :: "char \<Rightarrow> char" where
  "to_lower c = (let n = of_char c :: nat in
     if 65 \<le> n \<and> n \<le> 90 then char_of (n + 32) else c)"

definition strcase_eq :: "string \<Rightarrow> string \<Rightarrow> bool" where
  "strcase_eq s t \<longleftrightarrow> map to_lower s = map to_lower t"

fun strchr :: "string \<Rightarrow> char \<Rightarrow> string option" where
  "strchr [] c = None"
| "strchr (x # xs) c = (if x = c then Some (x # xs) else strchr xs c)"

fun starts_with :: "string \<Rightarrow> string \<Rightarrow> bool" where
  "starts_with [] s = True"
| "starts_with (p # ps) [] = False"
| "starts_with (p # ps) (x # xs) = (p = x \<and> starts_with ps xs)"

fun strstr :: "string \<Rightarrow> string \<Rightarrow> string option" where
  "strstr [] sub = (if sub = [] then Some [] else None)"
| "strstr (x # xs) sub = (if starts_with sub (x # xs) then Some (x # xs) else strstr xs sub)"

definition is_digit :: "char \<Rightarrow> bool" where
  "is_digit c \<longleftrightarrow> 48 \<le> (of_char c :: nat) \<and> (of_char c :: nat) \<le> 57"

definition digit_val :: "char \<Rightarrow> nat" where
  "digit_val c = of_char c - 48"

fun atoi_digits :: "nat \<Rightarrow> string \<Rightarrow> nat" where
  "atoi_digits acc [] = acc"
| "atoi_digits acc (c # cs) =
     (if is_digit c then atoi_digits (10 * acc + digit_val c) cs else acc)"

definition is_space :: "char \<Rightarrow> bool" where
  "is_space c \<longleftrightarrow> (let n = of_char c :: nat in n = 32 \<or> 9 \<le> n \<and> n \<le> 13)"

definition atoi :: "string \<Rightarrow> int" where
  "atoi s = (case dropWhile is_space s of
      [] \<Rightarrow> 0
    | c # cs \<Rightarrow>
        if c = CHR ''-'' then - int (atoi_digits 0 cs)
        else if c = CHR ''+'' then int (atoi_digits 0 cs)
        else int (atoi_digits 0 (c # cs)))"

definition digit_char :: "nat \<Rightarrow> char" where
  "digit_char n = char_of (48 + n)"

fun show_nat :: "nat \<Rightarrow> string" where
  "show_nat n = (if n < 10 then [digit_char n] else show_nat (n div 10) @ [digit_char (n mod 10)])"

declare show_nat.simps [simp del]

definition show_int :: "int \<Rightarrow> string" where
  "show_int i = (if i < 0 then CHR ''-'' # show_nat (nat (- i)) else show_nat (nat i))"

section \<open>Facts\<close>

lemma strcase_eq_refl [simp]: "strcase_eq s s"
  by (simp add: strcase_eq_def)

lemma strcase_eq_sym: "strcase_eq s t \<longleftrightarrow> strcase_eq t s"
  by (auto simp: strcase_eq_def)

lemma strcase_eq_trans: "strcase_eq s t \<Longrightarrow> strcase_eq t u \<Longrightarrow> strcase_eq s u"
  by (simp add: strcase_eq_def)

lemma strchr_append: "c \<notin> set s \<Longrightarrow> strchr (s @ t) c = strchr t c"
  by (induction s) auto

lemma strchr_None: "strchr s c = None \<longleftrightarrow> c \<notin> set s"
  by (induction s) auto

lemma strchr_Some: "strchr s c = Some t \<Longrightarrow> \<exists>p. s = p @ t \<and> c \<notin> set p \<and> t \<noteq> [] \<and> hd t = c"
proof (induction s)
  case (Cons x s)
  then show ?case
    by (cases "x = c") (force intro: exI [of _ "[]"], metis Cons_eq_appendI set_ConsD strchr.simps(2))
qed simp

lemma starts_with_iff: "starts_with p s \<longleftrightarrow> (\<exists>t. s = p @ t)"
  by (induction p s rule: starts_with.induct) auto

lemma starts_with_append [simp]: "starts_with p (p @ t)"
  by (auto simp: starts_with_iff)

lemma strstr_Some: "strstr s sub = Some t \<Longrightarrow> \<exists>p r. s = p @ t \<and> t = sub @ r"
proof (induction s)
  case Nil
  then show ?case by (auto split: if_splits)
next
  case (Cons x s)
  then show ?case
    by (auto simp: starts_with_iff split: if_splits) (metis append_Cons)
qed

lemma of_char_digit: "n < 10 \<Longrightarrow> (of_char (digit_char n) :: nat) = 48 + n"
  by (simp add: digit_char_def)

lemma is_digit_digit_char [simp]: "n < 10 \<Longrightarrow> is_digit (digit_char n)"
  by (simp add: is_digit_def of_char_digit)

lemma digit_val_digit_char [simp]: "n < 10 \<Longrightarrow> digit_val (digit_char n) = n"
  by (simp add: digit_val_def of_char_digit)

lemma show_nat_digits: "c \<in> set (show_nat n) \<Longrightarrow> is_digit c"
proof (induction n rule: show_nat.induct)
  case (1 n)
  then show ?case by (cases "n < 10") (auto simp: show_nat.simps [of n])
qed

lemma show_nat_not_Nil [simp]: "show_nat n \<noteq> []"
  by (subst show_nat.simps) simp

lemma atoi_digits_append:
  "\<forall>c \<in> set s. is_digit c \<Longrightarrow> atoi_digits acc (s @ t) = atoi_digits (atoi_digits acc s) t"
  by (induction s arbitrary: acc) auto

lemma atoi_digits_stop: "t = [] \<or> \<not> is_digit (hd t) \<Longrightarrow> atoi_digits acc t = acc"
  by (cases t) auto

lemma atoi_digits_show_nat: "atoi_digits 0 (show_nat n) = n"
proof (induction n rule: show_nat.induct)
  case (1 n)
  show ?case
  proof (cases "n < 10")
    case True
    then show ?thesis by (simp add: show_nat.simps [of n])
  next
    case False
    have "atoi_digits 0 (show_nat n) = atoi_digits (atoi_digits 0 (show_nat (n div 10))) [digit_char (n mod 10)]"
      using False atoi_digits_append [of "show_nat (n div 10)"] show_nat_digits
      by (simp add: show_nat.simps [of n])
    then show ?thesis using 1 False by simp
  qed
qed

lemma is_digit_not:
  "is_digit c \<Longrightarrow> \<not> is_space c" "is_digit c \<Longrightarrow> c \<noteq> CHR ''-''" "is_digit c \<Longrightarrow> c \<noteq> CHR ''+''"
  "is_digit c \<Longrightarrow> c \<noteq> CHR ''/''"
  by (auto simp: is_digit_def is_space_def Let_def)

text \<open>\<^verbatim>\<open>atoi\<close> reads back what \<^verbatim>\<open>%i\<close> writes.\<close>

lemma atoi_show_nat:
  assumes "t = [] \<or> \<not> is_digit (hd t)"
  shows "atoi (show_nat n @ t) = int n"
proof -
  obtain c cs where c: "show_nat n = c # cs" by (cases "show_nat n") auto
  then have "is_digit c" using show_nat_digits [of c n] by simp
  then have "dropWhile is_space (show_nat n @ t) = show_nat n @ t" "c \<noteq> CHR ''-''" "c \<noteq> CHR ''+''"
    using c by (auto dest: is_digit_not)
  moreover have "atoi_digits 0 (show_nat n @ t) = n"
    using atoi_digits_append [of "show_nat n" 0 t] show_nat_digits atoi_digits_show_nat
      atoi_digits_stop [OF assms] by simp
  ultimately show ?thesis using c by (simp add: atoi_def)
qed

lemma slash_notin_show_nat: "CHR ''/'' \<notin> set (show_nat n)"
  using show_nat_digits is_digit_not(4) by blast

end
