(* ===== verification/Payload.thy ===== *)
theory Payload
  imports C_Strings
begin

text \<open>
  Payload types and RTP profiles: \<^verbatim>\<open>oRTP/src/payloadtype.c\<close>,
  \<^verbatim>\<open>oRTP/src/rtpprofile.c\<close>, \<^verbatim>\<open>oRTP/include/ortp/payloadtype.h\<close> and
  \<^verbatim>\<open>oRTP/include/ortp/rtpprofile.h\<close>.

  A \<^verbatim>\<open>PayloadType\<close> is an object a profile points to, and several profiles share it
  (\<^verbatim>\<open>rtp_profile_clone\<close>), so payload types live in a store; a profile is the table
  of 128 pointers. The strings a payload type owns are values of its record: every function
  that stores one duplicates it. Using a freed or unknown pointer is \<open>None\<close>.
\<close>

definition PAYLOAD_TYPE_ALLOCATED :: u32 where "PAYLOAD_TYPE_ALLOCATED = 1"

definition PAYLOAD_AUDIO_CONTINUOUS :: int where "PAYLOAD_AUDIO_CONTINUOUS = 0"
definition PAYLOAD_AUDIO_PACKETIZED :: int where "PAYLOAD_AUDIO_PACKETIZED = 1"
definition PAYLOAD_VIDEO :: int where "PAYLOAD_VIDEO = 2"
definition PAYLOAD_TEXT :: int where "PAYLOAD_TEXT = 4"

record payload_type =
  pt_type :: int
  clock_rate :: int
  bits_per_sample :: int
  zero_pattern :: "u8 list option"
  pattern_length :: int
  normal_bitrate :: int
  mime_type :: "string option"
  channels :: int
  recv_fmtp :: "string option"
  send_fmtp :: "string option"
  pt_flags :: u32
  user_data :: nat

record pt_store =
  pts :: "ptr \<rightharpoonup> payload_type"
  pt_next :: ptr           \<comment> \<open>the allocator: no payload type at or above it\<close>

definition payload_zero :: payload_type where
  "payload_zero = \<lparr>pt_type = 0, clock_rate = 0, bits_per_sample = 0, zero_pattern = None,
     pattern_length = 0, normal_bitrate = 0, mime_type = None, channels = 0, recv_fmtp = None,
     send_fmtp = None, pt_flags = 0, user_data = 0\<rparr>"

definition pt_alloc :: "payload_type \<Rightarrow> pt_store \<Rightarrow> ptr \<times> pt_store" where
  "pt_alloc pt st = (pt_next st, st\<lparr>pts := (pts st)(pt_next st \<mapsto> pt), pt_next := Suc (pt_next st)\<rparr>)"

definition pt_upd :: "ptr \<Rightarrow> (payload_type \<Rightarrow> payload_type) \<Rightarrow> pt_store \<Rightarrow> pt_store option" where
  "pt_upd p f st = (case pts st p of None \<Rightarrow> None
     | Some pt \<Rightarrow> Some (st\<lparr>pts := (pts st)(p \<mapsto> f pt)\<rparr>))"

section \<open>Payload types\<close>

definition payload_type_set_flag :: "u32 \<Rightarrow> payload_type \<Rightarrow> payload_type" where
  "payload_type_set_flag flag pt = pt\<lparr>pt_flags := pt_flags pt OR flag\<rparr>"

definition payload_type_unset_flag :: "u32 \<Rightarrow> payload_type \<Rightarrow> payload_type" where
  "payload_type_unset_flag flag pt = pt\<lparr>pt_flags := pt_flags pt AND NOT flag\<rparr>"

text \<open>The buffer has 15 bytes more than the mime type, one of them for the terminator.\<close>

definition payload_type_get_rtpmap :: "payload_type \<Rightarrow> string option" where
  "payload_type_get_rtpmap pt = do {
     mime \<leftarrow> mime_type pt;
     let len = length mime + 15;
     Some (take (len - 1)
       (if channels pt > 0
        then mime @ ''/'' @ show_int (clock_rate pt) @ ''/'' @ show_int (channels pt)
        else mime @ ''/'' @ show_int (clock_rate pt))) }"

definition payload_type_new :: "pt_store \<Rightarrow> ptr \<times> pt_store" where
  "payload_type_new st = pt_alloc (payload_type_set_flag PAYLOAD_TYPE_ALLOCATED payload_zero) st"

definition payload_type_clone :: "ptr \<Rightarrow> pt_store \<Rightarrow> (ptr \<times> pt_store) option" where
  "payload_type_clone payload st = do {
     pt \<leftarrow> pts st payload;
     Some (pt_alloc (payload_type_set_flag PAYLOAD_TYPE_ALLOCATED pt) st) }"

definition canWrite :: "payload_type \<Rightarrow> bool" where
  "canWrite pt \<longleftrightarrow> pt_flags pt AND PAYLOAD_TYPE_ALLOCATED \<noteq> 0"

definition payload_type_set_recv_fmtp :: "ptr \<Rightarrow> string option \<Rightarrow> pt_store \<Rightarrow> pt_store option" where
  "payload_type_set_recv_fmtp p fmtp =
     pt_upd p (\<lambda>pt. if canWrite pt then pt\<lparr>recv_fmtp := fmtp\<rparr> else pt)"

definition payload_type_set_send_fmtp :: "ptr \<Rightarrow> string option \<Rightarrow> pt_store \<Rightarrow> pt_store option" where
  "payload_type_set_send_fmtp p fmtp =
     pt_upd p (\<lambda>pt. if canWrite pt then pt\<lparr>send_fmtp := fmtp\<rparr> else pt)"

definition payload_type_append_recv_fmtp :: "ptr \<Rightarrow> string \<Rightarrow> pt_store \<Rightarrow> pt_store option" where
  "payload_type_append_recv_fmtp p fmtp = pt_upd p (\<lambda>pt.
     if canWrite pt
     then (case recv_fmtp pt of None \<Rightarrow> pt\<lparr>recv_fmtp := Some fmtp\<rparr>
           | Some s \<Rightarrow> pt\<lparr>recv_fmtp := Some (s @ '';'' @ fmtp)\<rparr>)
     else pt)"

definition payload_type_append_send_fmtp :: "ptr \<Rightarrow> string \<Rightarrow> pt_store \<Rightarrow> pt_store option" where
  "payload_type_append_send_fmtp p fmtp = pt_upd p (\<lambda>pt.
     if canWrite pt
     then (case send_fmtp pt of None \<Rightarrow> pt\<lparr>send_fmtp := Some fmtp\<rparr>
           | Some s \<Rightarrow> pt\<lparr>send_fmtp := Some (s @ '';'' @ fmtp)\<rparr>)
     else pt)"

definition payload_type_destroy :: "ptr \<Rightarrow> pt_store \<Rightarrow> pt_store option" where
  "payload_type_destroy p st = (case pts st p of None \<Rightarrow> None
     | Some _ \<Rightarrow> Some (st\<lparr>pts := (pts st)(p := None)\<rparr>))"

text \<open>
  \<open>fmtp_get_value\<close> returns the function's result and the C string left in \<open>result\<close>, a buffer
  of \<open>result_len\<close> bytes. With \<open>result_len\<close> 0 the subtraction wraps and the copy leaves the
  buffer: \<open>None\<close>.
\<close>

definition fmtp_get_value :: "string \<Rightarrow> string \<Rightarrow> u32 \<Rightarrow> (bool \<times> string) option" where
  "fmtp_get_value fmtp param_name result_len =
     (case strstr fmtp param_name of
        None \<Rightarrow> Some (False, [])
      | Some pos \<Rightarrow>
          (case strchr pos CHR ''='' of
             None \<Rightarrow> Some (False, [])
           | Some equal \<Rightarrow>
               let val = tl equal;
                   n = (case strchr val CHR '';'' of
                          None \<Rightarrow> length val
                        | Some rest \<Rightarrow> length val - length rest);
                   copied = (if result_len - 1 > of_nat n then n else unat (result_len - 1))
               in if copied < unat result_len then Some (True, take copied val) else None))"

section \<open>Profiles\<close>

definition RTP_PROFILE_MAX_PAYLOADS :: int where "RTP_PROFILE_MAX_PAYLOADS = 128"

record rtp_profile =
  prof_name :: "string option"
  payload :: "ptr option list"

definition profile_ok :: "rtp_profile \<Rightarrow> bool" where
  "profile_ok prof \<longleftrightarrow> length (payload prof) = 128"

definition rtp_profile_get_payload :: "rtp_profile \<Rightarrow> int \<Rightarrow> ptr option" where
  "rtp_profile_get_payload prof idx =
     (if idx < 0 \<or> idx \<ge> RTP_PROFILE_MAX_PAYLOADS then None else payload prof ! nat idx)"

definition rtp_profile_set_payload :: "rtp_profile \<Rightarrow> int \<Rightarrow> ptr option \<Rightarrow> rtp_profile" where
  "rtp_profile_set_payload prof idx pt =
     (if idx < 0 \<or> idx \<ge> RTP_PROFILE_MAX_PAYLOADS then prof
      else prof\<lparr>payload := (payload prof)[nat idx := pt]\<rparr>)"

definition rtp_profile_clear_payload :: "rtp_profile \<Rightarrow> int \<Rightarrow> rtp_profile" where
  "rtp_profile_clear_payload prof idx = rtp_profile_set_payload prof idx None"

text \<open>
  The search loops, from index \<open>i\<close>; \<open>n\<close> is the number of entries that remain. The pointers
  of the profile are followed in the store.
\<close>

primrec find_mime_loop :: "pt_store \<Rightarrow> rtp_profile \<Rightarrow> string \<Rightarrow> nat \<Rightarrow> int \<Rightarrow> int option" where
  "find_mime_loop st prof mime 0 i = Some (-1)"
| "find_mime_loop st prof mime (Suc n) i =
     (case rtp_profile_get_payload prof i of
        None \<Rightarrow> find_mime_loop st prof mime n (i + 1)
      | Some p \<Rightarrow> do {
          pt \<leftarrow> pts st p;
          m \<leftarrow> mime_type pt;
          if strcase_eq m mime then Some i else find_mime_loop st prof mime n (i + 1) })"

definition rtp_profile_get_payload_number_from_mime ::
  "pt_store \<Rightarrow> rtp_profile \<Rightarrow> string \<Rightarrow> int option" where
  "rtp_profile_get_payload_number_from_mime st prof mime = find_mime_loop st prof mime 128 0"

definition payload_matches :: "string \<Rightarrow> int \<Rightarrow> int \<Rightarrow> payload_type \<Rightarrow> bool" where
  "payload_matches mime rate ch pt \<longleftrightarrow>
     (case mime_type pt of None \<Rightarrow> False | Some m \<Rightarrow> strcase_eq m mime) \<and> clock_rate pt = rate \<and>
     (channels pt = ch \<or> ch \<le> 0 \<or> channels pt \<le> 0)"

primrec find_payload_loop ::
  "pt_store \<Rightarrow> rtp_profile \<Rightarrow> string \<Rightarrow> int \<Rightarrow> int \<Rightarrow> nat \<Rightarrow> int \<Rightarrow> int option" where
  "find_payload_loop st prof mime rate ch 0 i = Some (-1)"
| "find_payload_loop st prof mime rate ch (Suc n) i =
     (case rtp_profile_get_payload prof i of
        None \<Rightarrow> find_payload_loop st prof mime rate ch n (i + 1)
      | Some p \<Rightarrow> do {
          pt \<leftarrow> pts st p;
          m \<leftarrow> mime_type pt;
          if strcase_eq m mime \<and> clock_rate pt = rate \<and>
             (channels pt = ch \<or> ch \<le> 0 \<or> channels pt \<le> 0)
          then Some i else find_payload_loop st prof mime rate ch n (i + 1) })"

definition rtp_profile_find_payload_number ::
  "pt_store \<Rightarrow> rtp_profile \<Rightarrow> string \<Rightarrow> int \<Rightarrow> int \<Rightarrow> int option" where
  "rtp_profile_find_payload_number st prof mime rate ch = find_payload_loop st prof mime rate ch 128 0"

text \<open>The splitting of \<^verbatim>\<open>subtype/rate/channels\<close>: mime type, clock rate, channels.\<close>

definition rtpmap_split :: "string \<Rightarrow> string \<times> int \<times> int" where
  "rtpmap_split rtpmap =
     (case strchr rtpmap CHR ''/'' of
        Some s \<Rightarrow>
          if length s > 1 then
            let subtype = take (length rtpmap - length s) rtpmap;
                rate_str = tl s
            in (case strchr rate_str CHR ''/'' of
                  Some c \<Rightarrow>
                    if length c > 1
                    then (subtype, atoi (take (length rate_str - length c) rate_str), atoi (tl c))
                    else (subtype, atoi rate_str, -1)
                | None \<Rightarrow> (subtype, atoi rate_str, -1))
          else (rtpmap, 8000, -1)
      | None \<Rightarrow> (rtpmap, 8000, -1))"

definition rtp_profile_get_payload_number_from_rtpmap ::
  "pt_store \<Rightarrow> rtp_profile \<Rightarrow> string \<Rightarrow> int option" where
  "rtp_profile_get_payload_number_from_rtpmap st prof rtpmap =
     (let (subtype, rate, ch) = rtpmap_split rtpmap
      in rtp_profile_find_payload_number st prof subtype rate ch)"

definition rtp_profile_find_payload ::
  "pt_store \<Rightarrow> rtp_profile \<Rightarrow> string \<Rightarrow> int \<Rightarrow> int \<Rightarrow> ptr option option" where
  "rtp_profile_find_payload st prof mime rate ch = do {
     i \<leftarrow> rtp_profile_find_payload_number st prof mime rate ch;
     Some (if i \<ge> 0 then rtp_profile_get_payload prof i else None) }"

definition rtp_profile_get_payload_from_mime ::
  "pt_store \<Rightarrow> rtp_profile \<Rightarrow> string \<Rightarrow> ptr option option" where
  "rtp_profile_get_payload_from_mime st prof mime = do {
     pt \<leftarrow> rtp_profile_get_payload_number_from_mime st prof mime;
     Some (if pt = -1 then None else rtp_profile_get_payload prof pt) }"

definition rtp_profile_get_payload_from_rtpmap ::
  "pt_store \<Rightarrow> rtp_profile \<Rightarrow> string \<Rightarrow> ptr option option" where
  "rtp_profile_get_payload_from_rtpmap st prof rtpmap = do {
     pt \<leftarrow> rtp_profile_get_payload_number_from_rtpmap st prof rtpmap;
     Some (if pt = -1 then None else rtp_profile_get_payload prof pt) }"

text \<open>No bounds are checked here: an index outside the table is \<open>None\<close>.\<close>

definition rtp_profile_move_payload :: "rtp_profile \<Rightarrow> int \<Rightarrow> int \<Rightarrow> rtp_profile option" where
  "rtp_profile_move_payload prof oldpos newpos =
     (if oldpos < 0 \<or> oldpos \<ge> 128 \<or> newpos < 0 \<or> newpos \<ge> 128 then None
      else Some (prof\<lparr>payload :=
        ((payload prof)[nat newpos := payload prof ! nat oldpos])[nat oldpos := None]\<rparr>))"

definition rtp_profile_set_name :: "rtp_profile \<Rightarrow> string option \<Rightarrow> rtp_profile" where
  "rtp_profile_set_name obj name = obj\<lparr>prof_name := name\<rparr>"

definition rtp_profile_new :: "string option \<Rightarrow> rtp_profile" where
  "rtp_profile_new name =
     rtp_profile_set_name \<lparr>prof_name = None, payload = replicate 128 None\<rparr> name"

definition rtp_profile_clear_all :: "rtp_profile \<Rightarrow> rtp_profile" where
  "rtp_profile_clear_all obj = obj\<lparr>payload := replicate 128 None\<rparr>"

primrec profile_clone_loop :: "rtp_profile \<Rightarrow> nat \<Rightarrow> int \<Rightarrow> rtp_profile \<Rightarrow> rtp_profile" where
  "profile_clone_loop prof 0 i newprof = newprof"
| "profile_clone_loop prof (Suc n) i newprof =
     profile_clone_loop prof n (i + 1)
       (case rtp_profile_get_payload prof i of
          None \<Rightarrow> newprof
        | Some p \<Rightarrow> rtp_profile_set_payload newprof i (Some p))"

definition rtp_profile_clone :: "rtp_profile \<Rightarrow> rtp_profile" where
  "rtp_profile_clone prof = profile_clone_loop prof 128 0 (rtp_profile_new (prof_name prof))"

primrec profile_clone_full_loop ::
  "rtp_profile \<Rightarrow> nat \<Rightarrow> int \<Rightarrow> rtp_profile \<Rightarrow> pt_store \<Rightarrow> (rtp_profile \<times> pt_store) option" where
  "profile_clone_full_loop prof 0 i newprof st = Some (newprof, st)"
| "profile_clone_full_loop prof (Suc n) i newprof st =
     (case rtp_profile_get_payload prof i of
        None \<Rightarrow> profile_clone_full_loop prof n (i + 1) newprof st
      | Some p \<Rightarrow> do {
          (q, st1) \<leftarrow> payload_type_clone p st;
          profile_clone_full_loop prof n (i + 1) (rtp_profile_set_payload newprof i (Some q)) st1 })"

definition rtp_profile_clone_full :: "rtp_profile \<Rightarrow> pt_store \<Rightarrow> (rtp_profile \<times> pt_store) option" where
  "rtp_profile_clone_full prof st =
     profile_clone_full_loop prof 128 0 (rtp_profile_new (prof_name prof)) st"

primrec profile_destroy_loop :: "rtp_profile \<Rightarrow> nat \<Rightarrow> int \<Rightarrow> pt_store \<Rightarrow> pt_store option" where
  "profile_destroy_loop prof 0 i st = Some st"
| "profile_destroy_loop prof (Suc n) i st =
     (case rtp_profile_get_payload prof i of
        None \<Rightarrow> profile_destroy_loop prof n (i + 1) st
      | Some p \<Rightarrow> do {
          pt \<leftarrow> pts st p;
          st1 \<leftarrow> (if pt_flags pt AND PAYLOAD_TYPE_ALLOCATED \<noteq> 0
                   then payload_type_destroy p st else Some st);
          profile_destroy_loop prof n (i + 1) st1 })"

definition rtp_profile_destroy :: "rtp_profile \<Rightarrow> pt_store \<Rightarrow> pt_store option" where
  "rtp_profile_destroy prof st = profile_destroy_loop prof 128 0 st"

section \<open>Searching a profile\<close>

text \<open>
  What the library relies on: every pointer of the table is a live payload type with a mime type.
\<close>

definition profile_valid :: "pt_store \<Rightarrow> rtp_profile \<Rightarrow> bool" where
  "profile_valid st prof \<longleftrightarrow> profile_ok prof \<and>
     (\<forall>p. Some p \<in> set (payload prof) \<longrightarrow> (\<exists>pt. pts st p = Some pt \<and> mime_type pt \<noteq> None))"

definition entry :: "pt_store \<Rightarrow> rtp_profile \<Rightarrow> int \<Rightarrow> payload_type option" where
  "entry st prof i = rtp_profile_get_payload prof i \<bind> pts st"

lemma get_payload_set:
  "profile_ok prof \<Longrightarrow> rtp_profile_get_payload (rtp_profile_set_payload prof i v) j =
     (if 0 \<le> i \<and> i < 128 \<and> i = j then v else rtp_profile_get_payload prof j)"
  by (auto simp: rtp_profile_get_payload_def rtp_profile_set_payload_def profile_ok_def
      RTP_PROFILE_MAX_PAYLOADS_def nth_list_update)

lemma profile_ok_set [simp]: "profile_ok (rtp_profile_set_payload prof i v) = profile_ok prof"
  by (simp add: rtp_profile_set_payload_def profile_ok_def)

lemma profile_ok_new [simp]: "profile_ok (rtp_profile_new name)"
  by (simp add: rtp_profile_new_def rtp_profile_set_name_def profile_ok_def)

lemma get_payload_new [simp]: "rtp_profile_get_payload (rtp_profile_new name) i = None"
  by (auto simp: rtp_profile_get_payload_def rtp_profile_new_def rtp_profile_set_name_def
      RTP_PROFILE_MAX_PAYLOADS_def)

lemma profile_valid_entry:
  assumes "profile_valid st prof" and "rtp_profile_get_payload prof i = Some p"
  shows "\<exists>pt m. pts st p = Some pt \<and> mime_type pt = Some m"
proof -
  have "payload prof ! nat i = Some p" "nat i < length (payload prof)"
    using assms by (auto simp: rtp_profile_get_payload_def profile_valid_def profile_ok_def
        RTP_PROFILE_MAX_PAYLOADS_def split: if_splits)
  then have "Some p \<in> set (payload prof)" by (metis nth_mem)
  then show ?thesis using assms by (auto simp: profile_valid_def)
qed

definition first_index :: "(int \<Rightarrow> bool) \<Rightarrow> int \<Rightarrow> int \<Rightarrow> int \<Rightarrow> bool" where
  "first_index P i k r \<longleftrightarrow>
     (i \<le> r \<and> r < k \<and> P r \<and> (\<forall>j. i \<le> j \<and> j < r \<longrightarrow> \<not> P j)) \<or>
     (r = -1 \<and> (\<forall>j. i \<le> j \<and> j < k \<longrightarrow> \<not> P j))"

lemma first_index_step: "\<not> P i \<Longrightarrow> first_index P (i + 1) k r \<Longrightarrow> first_index P i k r"
  by (auto simp: first_index_def) (metis order_le_less zless_imp_add1_zle)+

lemma find_payload_loop_first:
  assumes "profile_valid st prof"
  shows "\<exists>r. find_payload_loop st prof mime rate ch n i = Some r \<and>
     first_index (\<lambda>j. \<exists>pt. entry st prof j = Some pt \<and> payload_matches mime rate ch pt)
       i (i + int n) r"
proof (induction n arbitrary: i)
  case 0
  then show ?case by (auto simp: first_index_def)
next
  case (Suc n)
  let ?P = "\<lambda>j. \<exists>pt. entry st prof j = Some pt \<and> payload_matches mime rate ch pt"
  obtain r where r: "find_payload_loop st prof mime rate ch n (i + 1) = Some r"
    "first_index ?P (i + 1) (i + int (Suc n)) r"
    using Suc.IH [of "i + 1"] by (auto simp: algebra_simps)
  show ?case
  proof (cases "?P i")
    case True
    then have "find_payload_loop st prof mime rate ch (Suc n) i = Some i"
      by (auto simp: entry_def payload_matches_def split: option.splits)
    moreover have "first_index ?P i (i + int (Suc n)) i" using True by (auto simp: first_index_def)
    ultimately show ?thesis by blast
  next
    case False
    then have "find_payload_loop st prof mime rate ch (Suc n) i = Some r"
      using r(1) profile_valid_entry [OF assms, of i]
      by (cases "rtp_profile_get_payload prof i") (fastforce simp: entry_def payload_matches_def)+
    then show ?thesis using first_index_step [OF False r(2)] by blast
  qed
qed

lemma find_mime_loop_first:
  assumes "profile_valid st prof"
  shows "\<exists>r. find_mime_loop st prof mime n i = Some r \<and>
     first_index (\<lambda>j. \<exists>pt m. entry st prof j = Some pt \<and> mime_type pt = Some m \<and> strcase_eq m mime)
       i (i + int n) r"
proof (induction n arbitrary: i)
  case 0
  then show ?case by (auto simp: first_index_def)
next
  case (Suc n)
  let ?P = "\<lambda>j. \<exists>pt m. entry st prof j = Some pt \<and> mime_type pt = Some m \<and> strcase_eq m mime"
  obtain r where r: "find_mime_loop st prof mime n (i + 1) = Some r"
    "first_index ?P (i + 1) (i + int (Suc n)) r"
    using Suc.IH [of "i + 1"] by (auto simp: algebra_simps)
  show ?case
  proof (cases "?P i")
    case True
    then have "find_mime_loop st prof mime (Suc n) i = Some i"
      by (auto simp: entry_def)
    moreover have "first_index ?P i (i + int (Suc n)) i" using True by (auto simp: first_index_def)
    ultimately show ?thesis by blast
  next
    case False
    then have "find_mime_loop st prof mime (Suc n) i = Some r"
      using r(1) profile_valid_entry [OF assms, of i]
      by (cases "rtp_profile_get_payload prof i") (fastforce simp: entry_def)+
    then show ?thesis using first_index_step [OF False r(2)] by blast
  qed
qed

section \<open>The rtpmap round trip\<close>

lemma atoi_show_int: "0 \<le> i \<Longrightarrow> t = [] \<or> \<not> is_digit (hd t) \<Longrightarrow> atoi (show_int i @ t) = i"
  using atoi_show_nat [of t "nat i"] by (simp add: show_int_def)

lemma show_int_nonneg: "0 \<le> i \<Longrightarrow> CHR ''/'' \<notin> set (show_int i) \<and> show_int i \<noteq> []"
  by (simp add: show_int_def slash_notin_show_nat)

lemma rtpmap_split_print:
  assumes "CHR ''/'' \<notin> set mime" and "0 \<le> rate"
  shows "rtpmap_split (mime @ ''/'' @ show_int rate) = (mime, rate, -1)"
    and "0 \<le> ch \<Longrightarrow> rtpmap_split (mime @ ''/'' @ show_int rate @ ''/'' @ show_int ch) = (mime, rate, ch)"
proof -
  have r: "CHR ''/'' \<notin> set (show_int rate)" "show_int rate \<noteq> []" using show_int_nonneg assms(2) by auto
  have s: "strchr (mime @ ''/'' @ t) CHR ''/'' = Some (CHR ''/'' # t)" for t
    using assms(1) by (simp add: strchr_append)
  have s2: "strchr (show_int rate @ ''/'' @ t) CHR ''/'' = Some (CHR ''/'' # t)" for t
    using r by (simp add: strchr_append)
  have "atoi (show_int rate) = rate" using atoi_show_int [of rate "[]"] assms(2) by simp
  moreover have "strchr (show_int rate) CHR ''/'' = None" using r by (simp add: strchr_None)
  ultimately show "rtpmap_split (mime @ ''/'' @ show_int rate) = (mime, rate, -1)"
    using s [of "show_int rate"] r by (simp add: rtpmap_split_def)
  assume ch: "0 \<le> ch"
  then have c: "show_int ch \<noteq> []" "atoi (show_int ch) = ch"
    using show_int_nonneg atoi_show_int [of ch "[]"] by auto
  show "rtpmap_split (mime @ ''/'' @ show_int rate @ ''/'' @ show_int ch) = (mime, rate, ch)"
    using s [of "show_int rate @ ''/'' @ show_int ch"] s2 [of "show_int ch"] c
      \<open>atoi (show_int rate) = rate\<close> by (simp add: rtpmap_split_def)
qed

text \<open>The printed form fits its buffer when the two numbers have at most 12 digits together.\<close>

definition rtpmap_fits :: "payload_type \<Rightarrow> bool" where
  "rtpmap_fits pt \<longleftrightarrow> 0 \<le> clock_rate pt \<and>
     length (show_int (clock_rate pt)) + length (show_int (channels pt)) \<le> 12"

lemma rtpmap_split_get_rtpmap:
  assumes "mime_type pt = Some mime" and "CHR ''/'' \<notin> set mime" and "rtpmap_fits pt"
  shows "\<exists>s. payload_type_get_rtpmap pt = Some s \<and>
     rtpmap_split s = (mime, clock_rate pt, if channels pt > 0 then channels pt else -1)"
proof (cases "channels pt > 0")
  case True
  have "length (mime @ ''/'' @ show_int (clock_rate pt) @ ''/'' @ show_int (channels pt))
      \<le> length mime + 15 - 1"
    using assms(3) by (simp add: rtpmap_fits_def)
  then have "payload_type_get_rtpmap pt =
      Some (mime @ ''/'' @ show_int (clock_rate pt) @ ''/'' @ show_int (channels pt))"
    using True assms(1) by (simp add: payload_type_get_rtpmap_def)
  then show ?thesis using True assms rtpmap_split_print(2) by (auto simp: rtpmap_fits_def)
next
  case False
  then have "payload_type_get_rtpmap pt = Some (mime @ ''/'' @ show_int (clock_rate pt))"
    using assms by (simp add: payload_type_get_rtpmap_def rtpmap_fits_def)
  then show ?thesis using False assms rtpmap_split_print(1) by (auto simp: rtpmap_fits_def)
qed

text \<open>
  Looking a payload type's own rtpmap up in a profile that holds it at index \<open>i\<close> finds the first
  entry with that mime type, rate and compatible channels, which is at most \<open>i\<close>.
\<close>

lemma rtpmap_lookup:
  assumes v: "profile_valid st prof" and e: "entry st prof i = Some pt"
    and m: "mime_type pt = Some mime" "CHR ''/'' \<notin> set mime" and f: "rtpmap_fits pt"
  shows "\<exists>s r pt'. payload_type_get_rtpmap pt = Some s \<and>
     rtp_profile_get_payload_number_from_rtpmap st prof s = Some r \<and> 0 \<le> r \<and> r \<le> i \<and>
     entry st prof r = Some pt' \<and> payload_matches mime (clock_rate pt) (channels pt) pt'"
proof -
  let ?ch = "if channels pt > 0 then channels pt else -1"
  let ?P = "\<lambda>j. \<exists>q. entry st prof j = Some q \<and> payload_matches mime (clock_rate pt) ?ch q"
  obtain s where s: "payload_type_get_rtpmap pt = Some s" "rtpmap_split s = (mime, clock_rate pt, ?ch)"
    using rtpmap_split_get_rtpmap [OF m f] by blast
  obtain r where r: "find_payload_loop st prof mime (clock_rate pt) ?ch 128 0 = Some r"
    "first_index ?P 0 128 r"
    using find_payload_loop_first [OF v, of mime "clock_rate pt" ?ch 128 0] by auto
  have i: "0 \<le> i" "i < 128" using e by (auto simp: entry_def rtp_profile_get_payload_def
        RTP_PROFILE_MAX_PAYLOADS_def split: if_splits)
  have Pi: "?P i" using e m by (auto simp: payload_matches_def)
  have "0 \<le> r" "r \<le> i" "?P r"
    using r(2) i Pi by (auto simp: first_index_def not_less [symmetric])
  then obtain q where q: "entry st prof r = Some q" "payload_matches mime (clock_rate pt) ?ch q" by blast
  moreover have "payload_matches mime (clock_rate pt) (channels pt) q"
    using q(2) by (auto simp: payload_matches_def split: if_splits)
  ultimately show ?thesis using s r(1) \<open>0 \<le> r\<close> \<open>r \<le> i\<close>
    by (auto simp: rtp_profile_get_payload_number_from_rtpmap_def rtp_profile_find_payload_number_def)
qed

section \<open>Cloning and destroying a profile\<close>

definition pt_fresh :: "pt_store \<Rightarrow> bool" where
  "pt_fresh st \<longleftrightarrow> (\<forall>p \<ge> pt_next st. pts st p = None)"

lemma flag_allocated [simp]: "pt_flags (payload_type_set_flag PAYLOAD_TYPE_ALLOCATED pt)
    AND PAYLOAD_TYPE_ALLOCATED \<noteq> 0"
  by (simp add: payload_type_set_flag_def PAYLOAD_TYPE_ALLOCATED_def bit.conj_disj_distrib2
      word_bw_lcs flip: one_and_eq)

lemma profile_clone_full_loop_ok:
  assumes "profile_valid st0 prof" and "\<forall>p < pt_next st0. pts st p = pts st0 p"
    and "pt_fresh st0" and "pt_next st0 \<le> pt_next st"
    and "profile_ok newprof" and "0 \<le> i" and "i + int n \<le> 128"
    and "\<forall>j. i \<le> j \<and> j < i + int n \<longrightarrow> rtp_profile_get_payload newprof j = None"
  shows "\<exists>np st'. profile_clone_full_loop prof n i newprof st = Some (np, st') \<and>
     profile_ok np \<and> prof_name np = prof_name newprof \<and> pt_next st \<le> pt_next st' \<and>
     (\<forall>j. \<not> (i \<le> j \<and> j < i + int n) \<longrightarrow>
        rtp_profile_get_payload np j = rtp_profile_get_payload newprof j) \<and>
     (\<forall>j. i \<le> j \<and> j < i + int n \<longrightarrow> entry st' np j =
        map_option (payload_type_set_flag PAYLOAD_TYPE_ALLOCATED) (entry st0 prof j)) \<and>
     (\<forall>p < pt_next st. pts st' p = pts st p) \<and>
     (\<forall>s. (\<forall>p \<ge> pt_next st. pts s p = pts st' p) \<longrightarrow>
        (\<exists>s'. profile_destroy_loop np n i s = Some s' \<and>
           (\<forall>p. pts s' p = (if p < pt_next st \<or> p \<ge> pt_next st' then pts s p else None))))"
  using assms
proof (induction n arbitrary: i newprof st)
  case 0
  then show ?case by auto
next
  case (Suc n)
  show ?case
  proof (cases "rtp_profile_get_payload prof i")
    case None
    from Suc.IH [of st newprof "i + 1"] Suc.prems obtain np st' where
      IH: "profile_clone_full_loop prof n (i + 1) newprof st = Some (np, st')" "profile_ok np"
      "prof_name np = prof_name newprof" "pt_next st \<le> pt_next st'"
      "\<forall>j. \<not> (i + 1 \<le> j \<and> j < i + 1 + int n) \<longrightarrow>
         rtp_profile_get_payload np j = rtp_profile_get_payload newprof j"
      "\<forall>j. i + 1 \<le> j \<and> j < i + 1 + int n \<longrightarrow> entry st' np j =
         map_option (payload_type_set_flag PAYLOAD_TYPE_ALLOCATED) (entry st0 prof j)"
      "\<forall>p < pt_next st. pts st' p = pts st p"
      "\<forall>s. (\<forall>p \<ge> pt_next st. pts s p = pts st' p) \<longrightarrow>
        (\<exists>s'. profile_destroy_loop np n (i + 1) s = Some s' \<and>
           (\<forall>p. pts s' p = (if p < pt_next st \<or> p \<ge> pt_next st' then pts s p else None)))"
      by auto
    have ni: "rtp_profile_get_payload np i = None" using IH(5) Suc.prems by auto
    have "entry st' np j = map_option (payload_type_set_flag PAYLOAD_TYPE_ALLOCATED) (entry st0 prof j)"
      if "i \<le> j" "j < i + int (Suc n)" for j
      using that ni None IH(6) by (cases "j = i") (auto simp: entry_def)
    then show ?thesis using None ni IH by auto
  next
    case (Some p)
    then obtain pt m where pt: "pts st0 p = Some pt" "mime_type pt = Some m"
      using profile_valid_entry Suc.prems(1) by blast
    have "p < pt_next st0" using pt(1) Suc.prems(3) by (metis pt_fresh_def not_less option.distinct(1))
    then have ptst: "pts st p = Some pt" using pt Suc.prems(2) by simp
    let ?q = "pt_next st"
    let ?pt = "payload_type_set_flag PAYLOAD_TYPE_ALLOCATED pt"
    let ?st1 = "st\<lparr>pts := (pts st)(?q \<mapsto> ?pt), pt_next := Suc ?q\<rparr>"
    let ?np1 = "rtp_profile_set_payload newprof i (Some ?q)"
    have clone: "payload_type_clone p st = Some (?q, ?st1)"
      using ptst by (simp add: payload_type_clone_def pt_alloc_def)
    have name: "prof_name ?np1 = prof_name newprof" by (simp add: rtp_profile_set_payload_def)
    from Suc.IH [of ?st1 ?np1 "i + 1"] Suc.prems obtain np st' where
      IH: "profile_clone_full_loop prof n (i + 1) ?np1 ?st1 = Some (np, st')" "profile_ok np"
      "prof_name np = prof_name newprof" "Suc ?q \<le> pt_next st'"
      "\<forall>j. \<not> (i + 1 \<le> j \<and> j < i + 1 + int n) \<longrightarrow>
         rtp_profile_get_payload np j = rtp_profile_get_payload ?np1 j"
      "\<forall>j. i + 1 \<le> j \<and> j < i + 1 + int n \<longrightarrow> entry st' np j =
         map_option (payload_type_set_flag PAYLOAD_TYPE_ALLOCATED) (entry st0 prof j)"
      "\<forall>p < Suc ?q. pts st' p = pts ?st1 p"
      "\<forall>s. (\<forall>p \<ge> Suc ?q. pts s p = pts st' p) \<longrightarrow>
        (\<exists>s'. profile_destroy_loop np n (i + 1) s = Some s' \<and>
           (\<forall>p. pts s' p = (if p < Suc ?q \<or> p \<ge> pt_next st' then pts s p else None)))"
      by (auto simp: get_payload_set name)
    have ni: "rtp_profile_get_payload np i = Some ?q"
      using IH(5) Suc.prems by (auto simp: get_payload_set)
    have stq: "pts st' ?q = Some ?pt" using IH(7) by simp
    have "entry st' np j = map_option (payload_type_set_flag PAYLOAD_TYPE_ALLOCATED) (entry st0 prof j)"
      if "i \<le> j" "j < i + int (Suc n)" for j
      using that ni Some stq pt IH(6) by (cases "j = i") (auto simp: entry_def)
    moreover have "\<exists>s'. profile_destroy_loop np (Suc n) i s = Some s' \<and>
        (\<forall>p. pts s' p = (if p < ?q \<or> p \<ge> pt_next st' then pts s p else None))"
      if s: "\<forall>p \<ge> ?q. pts s p = pts st' p" for s
    proof -
      let ?s1 = "s\<lparr>pts := (pts s)(?q := None)\<rparr>"
      obtain s' where s': "profile_destroy_loop np n (i + 1) ?s1 = Some s'"
        "\<forall>p. pts s' p = (if p < Suc ?q \<or> p \<ge> pt_next st' then pts ?s1 p else None)"
        using IH(8) s by (auto dest!: spec [of _ ?s1])
      have "pts s ?q = Some ?pt" using s stq by simp
      then have "profile_destroy_loop np (Suc n) i s = Some s'"
        using ni s'(1) by (simp add: payload_type_destroy_def)
      then show ?thesis using s'(2) IH(4) by (auto simp: less_Suc_eq)
    qed
    ultimately show ?thesis using Some clone IH Suc.prems
      by (auto simp: get_payload_set)
  qed
qed

lemma profile_clone_full_ok:
  assumes "profile_valid st prof" and "pt_fresh st"
  shows "\<exists>np st'. rtp_profile_clone_full prof st = Some (np, st') \<and> profile_ok np \<and>
     prof_name np = prof_name prof \<and>
     (\<forall>j. entry st' np j = map_option (payload_type_set_flag PAYLOAD_TYPE_ALLOCATED) (entry st prof j)) \<and>
     (\<forall>p < pt_next st. pts st' p = pts st p) \<and>
     (\<exists>s'. rtp_profile_destroy np st' = Some s' \<and> (\<forall>p < pt_next st'. pts s' p = pts st p))"
proof -
  have out: "entry s q j = None" if "j < 0 \<or> 128 \<le> j" for s q j
    using that by (auto simp: entry_def rtp_profile_get_payload_def RTP_PROFILE_MAX_PAYLOADS_def)
  obtain np st' where c: "rtp_profile_clone_full prof st = Some (np, st')" "profile_ok np"
    "prof_name np = prof_name (rtp_profile_new (prof_name prof))"
    "\<forall>j. 0 \<le> j \<and> j < 128 \<longrightarrow> entry st' np j =
       map_option (payload_type_set_flag PAYLOAD_TYPE_ALLOCATED) (entry st prof j)"
    "\<forall>p < pt_next st. pts st' p = pts st p"
    "\<forall>s. (\<forall>p \<ge> pt_next st. pts s p = pts st' p) \<longrightarrow>
        (\<exists>s'. profile_destroy_loop np 128 0 s = Some s' \<and>
           (\<forall>p. pts s' p = (if p < pt_next st \<or> p \<ge> pt_next st' then pts s p else None)))"
    using profile_clone_full_loop_ok [of st prof st "rtp_profile_new (prof_name prof)" 0 128] assms
    by (auto simp: rtp_profile_clone_full_def)
  obtain s' where s': "profile_destroy_loop np 128 0 st' = Some s'"
    "\<forall>p. pts s' p = (if p < pt_next st \<or> p \<ge> pt_next st' then pts st' p else None)"
    using c(6) by blast
  have "pts s' p = pts st p" if "p < pt_next st'" for p
    using that s'(2) c(5) assms(2) by (auto simp: pt_fresh_def)
  moreover have "entry st' np j =
       map_option (payload_type_set_flag PAYLOAD_TYPE_ALLOCATED) (entry st prof j)" for j
    using c(4) out by (cases "0 \<le> j \<and> j < 128") auto
  ultimately show ?thesis using c s'(1)
    by (auto simp: rtp_profile_destroy_def rtp_profile_new_def rtp_profile_set_name_def)
qed


section \<open>Format parameters\<close>

lemma length_strchr: "strchr s c = Some t \<Longrightarrow> length t \<le> length s"
  by (induction s) (auto split: if_splits)

text \<open>
  A parameter that is the first occurrence of its name, up to the next \<^verbatim>\<open>;\<close>, cut to
  the buffer.
\<close>

lemma fmtp_get_value_found:
  assumes s: "strstr fmtp name = Some (name @ ''='' @ val @ rest)"
    and n: "CHR ''='' \<notin> set name" and v: "CHR '';'' \<notin> set val"
    and r: "rest = [] \<or> hd rest = CHR '';''"
    and l: "0 < result_len" and len: "length val < 2 ^ 32"
  shows "fmtp_get_value fmtp name result_len = Some (True, take (unat (result_len - 1)) val)"
proof -
  have eq: "strchr (name @ ''='' @ val @ rest) CHR ''='' = Some (''='' @ val @ rest)"
    using n by (simp add: strchr_append)
  have semi: "(case strchr (val @ rest) CHR '';'' of None \<Rightarrow> length (val @ rest)
      | Some t \<Rightarrow> length (val @ rest) - length t) = length val"
  proof (cases rest)
    case Nil
    then have "strchr (val @ rest) CHR '';'' = None" using v by (simp add: strchr_None)
    then show ?thesis using Nil by simp
  next
    case (Cons c cs)
    then show ?thesis using v r by (simp add: strchr_append)
  qed
  have un: "unat (result_len - 1) < unat result_len"
    using l by (simp add: unat_minus_one unat_gt_0 word_gt_0)
  have cmp: "(result_len - 1 > of_nat (length val)) \<longleftrightarrow> length val < unat (result_len - 1)"
    using len by (simp add: word_less_nat_alt unat_of_nat)
  show ?thesis
    using s eq semi un cmp by (auto simp: fmtp_get_value_def Let_def)
qed

text \<open>The name is searched as a substring, so a longer name that contains it is taken for it.\<close>

lemma fmtp_get_value_substring:
  "fmtp_get_value ''maxptime=60;ptime=20'' ''ptime'' 32 = Some (True, ''60'')"
  by (simp add: fmtp_get_value_def)

section \<open>Properties\<close>

text \<open>Two statics, one allocated payload type, and a profile that uses all three.\<close>

definition ex_pt :: "string \<Rightarrow> int \<Rightarrow> int \<Rightarrow> u32 \<Rightarrow> payload_type" where
  "ex_pt mime rate ch fl = payload_zero\<lparr>mime_type := Some mime, clock_rate := rate, channels := ch,
     pt_flags := fl\<rparr>"

definition ex_store :: pt_store where
  "ex_store = \<lparr>pts = [0 \<mapsto> ex_pt ''speex'' 8000 1 0, 1 \<mapsto> ex_pt ''speex'' 16000 1 0,
     2 \<mapsto> ex_pt ''H264'' 90000 0 1], pt_next = 3\<rparr>"

definition ex_profile :: rtp_profile where
  "ex_profile = \<lparr>prof_name = Some ''test'',
     payload = (replicate 128 None)[96 := Some 0, 97 := Some 1, 98 := Some 2]\<rparr>"

lemma ex_profile_valid: "profile_valid ex_store ex_profile" "pt_fresh ex_store"
proof -
  have "set (payload ex_profile) \<subseteq> {None, Some 0, Some 1, Some 2}"
    unfolding ex_profile_def rtp_profile.simps
    by (intro subset_trans [OF set_update_subset_insert] insert_subsetI) auto
  then show "profile_valid ex_store ex_profile"
    by (auto simp: profile_valid_def profile_ok_def ex_profile_def ex_store_def ex_pt_def)
  show "pt_fresh ex_store" by (auto simp: pt_fresh_def ex_store_def)
qed

lemma ex_profile_entry: "entry ex_store ex_profile 97 = Some (ex_pt ''speex'' 16000 1 0)"
  by (simp add: entry_def rtp_profile_get_payload_def RTP_PROFILE_MAX_PAYLOADS_def ex_profile_def
      ex_store_def)

text \<open>
  C40. The rtpmap that is printed for a payload type in a profile finds it again: parsing
  \<^verbatim>\<open>mime/rate/channels\<close> and searching the profile gives the first entry, at or before
  it, with the same mime type (ignoring case), the same clock rate and compatible channels.
\<close>

theorem rtpmap_round_trip:
  assumes "profile_valid st prof" and "entry st prof i = Some pt"
    and "mime_type pt = Some mime" and "CHR ''/'' \<notin> set mime" and "rtpmap_fits pt"
  shows "\<exists>s r pt'. payload_type_get_rtpmap pt = Some s \<and>
     rtp_profile_get_payload_number_from_rtpmap st prof s = Some r \<and> 0 \<le> r \<and> r \<le> i \<and>
     entry st prof r = Some pt' \<and> payload_matches mime (clock_rate pt) (channels pt) pt'"
  by (rule rtpmap_lookup [OF assms])

theorem rtpmap_round_trip_witness:
  "\<exists>s r pt'. payload_type_get_rtpmap (ex_pt ''speex'' 16000 1 0) = Some s \<and>
     rtp_profile_get_payload_number_from_rtpmap ex_store ex_profile s = Some r \<and> 0 \<le> r \<and> r \<le> 97 \<and>
     entry ex_store ex_profile r = Some pt' \<and> payload_matches ''speex'' 16000 1 pt'"
  using rtpmap_round_trip [OF ex_profile_valid(1) ex_profile_entry]
  by (simp add: ex_pt_def rtpmap_fits_def show_int_def show_nat.simps)

text \<open>
  \<^verbatim>\<open>rtp_profile_find_payload_number\<close> returns the least index whose payload type
  has the mime type (ignoring case), the rate and compatible channels, and -1 exactly when the
  profile has none.
\<close>

theorem find_payload_first:
  assumes "profile_valid st prof"
  shows "\<exists>r. rtp_profile_find_payload_number st prof mime rate ch = Some r \<and>
     first_index (\<lambda>j. \<exists>pt. entry st prof j = Some pt \<and> payload_matches mime rate ch pt) 0 128 r"
  using find_payload_loop_first [OF assms, of mime rate ch 128 0]
  by (simp add: rtp_profile_find_payload_number_def)

theorem find_payload_first_witness:
  "\<exists>r. rtp_profile_find_payload_number ex_store ex_profile ''SPEEX'' 16000 0 = Some r \<and>
     first_index (\<lambda>j. \<exists>pt. entry ex_store ex_profile j = Some pt \<and>
       payload_matches ''SPEEX'' 16000 0 pt) 0 128 r"
  by (rule find_payload_first [OF ex_profile_valid(1)])

text \<open>
  \<^verbatim>\<open>rtp_profile_clone_full\<close> makes an independent copy: it never faults, every
  entry of the copy equals the original entry with the ownership flag set, no existing payload
  type is changed, and \<^verbatim>\<open>rtp_profile_destroy\<close> of the copy frees exactly the cloned
  payload types, each once, so that the store is as before.
\<close>

theorem profile_clone_full_independent:
  assumes "profile_valid st prof" and "pt_fresh st"
  shows "\<exists>np st'. rtp_profile_clone_full prof st = Some (np, st') \<and> profile_ok np \<and>
     prof_name np = prof_name prof \<and>
     (\<forall>j. entry st' np j = map_option (payload_type_set_flag PAYLOAD_TYPE_ALLOCATED) (entry st prof j)) \<and>
     (\<forall>p < pt_next st. pts st' p = pts st p) \<and>
     (\<exists>s'. rtp_profile_destroy np st' = Some s' \<and> (\<forall>p < pt_next st'. pts s' p = pts st p))"
  by (rule profile_clone_full_ok [OF assms])

theorem profile_clone_full_independent_witness:
  "\<exists>np st'. rtp_profile_clone_full ex_profile ex_store = Some (np, st') \<and> profile_ok np \<and>
     prof_name np = prof_name ex_profile \<and>
     (\<forall>j. entry st' np j =
        map_option (payload_type_set_flag PAYLOAD_TYPE_ALLOCATED) (entry ex_store ex_profile j)) \<and>
     (\<forall>p < pt_next ex_store. pts st' p = pts ex_store p) \<and>
     (\<exists>s'. rtp_profile_destroy np st' = Some s' \<and> (\<forall>p < pt_next st'. pts s' p = pts ex_store p))"
  by (rule profile_clone_full_independent [OF ex_profile_valid])

text \<open>
  \<^verbatim>\<open>fmtp_get_value\<close> extracts the value of the first occurrence of the parameter
  name up to the next separator, truncated to the result buffer, and never writes past it.
\<close>

theorem fmtp_value_extracted:
  assumes "strstr fmtp name = Some (name @ ''='' @ val @ rest)"
    and "CHR ''='' \<notin> set name" and "CHR '';'' \<notin> set val"
    and "rest = [] \<or> hd rest = CHR '';''" and "0 < result_len" and "length val < 2 ^ 32"
  shows "fmtp_get_value fmtp name result_len = Some (True, take (unat (result_len - 1)) val)"
  by (rule fmtp_get_value_found [OF assms])

theorem fmtp_value_extracted_witness:
  "fmtp_get_value ''profile=0;level=10'' ''level'' 2 = Some (True, ''1'')"
  using fmtp_value_extracted [of "''profile=0;level=10''" "''level''" "''10''" "[]" 2] by simp

end
