(* ===== verification/Jitter.thy ===== *)
theory Jitter
  imports Payload C_Float
begin

text \<open>
  The jitter buffer controller, \<^verbatim>\<open>oRTP/src/jitterctl.c\<close> and
  \<^verbatim>\<open>oRTP/src/jitterctl.h\<close>. Floating point fields are rationals rounded after every
  operation; a conversion of a floating point value outside the range of \<^verbatim>\<open>int\<close> is
  undefined in C and keeps its value here.
\<close>

record jb_parameters =
  jb_min_size :: int
  jb_nom_size :: int
  jb_max_size :: int
  jb_adaptive :: bool
  jb_max_packets :: int

record jitter_control =
  jc_count :: u32
  jitt_comp :: int
  jitt_comp_ts :: int
  adapt_jitt_comp_ts :: int
  slide :: int
  prev_slide :: int
  jitter :: rat
  olddiff :: int
  inter_jitter :: rat
  corrective_step :: int
  corrective_slide :: int
  cum_jitter_buffer_size :: u64
  cum_jitter_buffer_count :: u32
  jc_clock_rate :: int
  adaptive :: bool
  jc_enabled :: bool

definition jitter_control_zero :: jitter_control where
  "jitter_control_zero = \<lparr>jc_count = 0, jitt_comp = 0, jitt_comp_ts = 0, adapt_jitt_comp_ts = 0,
     slide = 0, prev_slide = 0, jitter = 0, olddiff = 0, inter_jitter = 0, corrective_step = 0,
     corrective_slide = 0, cum_jitter_buffer_size = 0, cum_jitter_buffer_count = 0,
     jc_clock_rate = 0, adaptive = False, jc_enabled = False\<rparr>"

definition JC_BETA :: rat where "JC_BETA = to_double (1 / 100)"
definition JC_GAMMA :: rat where "JC_GAMMA = JC_BETA"

definition jitter_control_set_payload :: "jitter_control \<Rightarrow> payload_type \<Rightarrow> jitter_control" where
  "jitter_control_set_payload ctl pt =
     (let ts = trunc (to_double (to_double (of_int (jitt_comp ctl) / 1000) * of_int (clock_rate pt)))
      in ctl\<lparr>jitt_comp_ts := ts,
             corrective_step := trunc (to_double (to_double (1 / 100) * to_float (of_int (clock_rate pt)))),
             adapt_jitt_comp_ts := ts,
             jc_clock_rate := clock_rate pt\<rparr>)"

definition jitter_control_init :: "jitter_control \<Rightarrow> int \<Rightarrow> payload_type option \<Rightarrow> jitter_control" where
  "jitter_control_init ctl base_jiitt_time pt =
     (let c1 = ctl\<lparr>jc_count := 0, slide := 0, prev_slide := 0, jitter := 0, inter_jitter := 0,
                cum_jitter_buffer_count := 0, cum_jitter_buffer_size := 0\<rparr>;
          c2 = (if base_jiitt_time \<noteq> -1 then c1\<lparr>jitt_comp := base_jiitt_time\<rparr> else c1);
          c3 = c2\<lparr>jc_clock_rate := 8000\<rparr>;
          c4 = (case pt of None \<Rightarrow> c3 | Some p \<Rightarrow> jitter_control_set_payload c3 p)
      in c4\<lparr>adapt_jitt_comp_ts := jitt_comp_ts c4, corrective_slide := 0\<rparr>)"

definition jitter_control_enable_adaptive :: "jitter_control \<Rightarrow> bool \<Rightarrow> jitter_control" where
  "jitter_control_enable_adaptive ctl val = ctl\<lparr>adaptive := val\<rparr>"

definition jitter_control_update_corrective_slide :: "jitter_control \<Rightarrow> jitter_control" where
  "jitter_control_update_corrective_slide ctl =
     (let tmp = c_int (c_int (slide ctl) - prev_slide ctl)
      in if tmp > corrective_step ctl then
           ctl\<lparr>corrective_slide := corrective_slide ctl + corrective_step ctl,
               prev_slide := slide ctl + corrective_step ctl\<rparr>
         else if tmp < - corrective_step ctl then
           ctl\<lparr>corrective_slide := corrective_slide ctl - corrective_step ctl,
               prev_slide := slide ctl - corrective_step ctl\<rparr>
         else ctl)"

text \<open>The queue is given by the timestamps of its packets, oldest first.\<close>

definition jitter_control_update_size :: "jitter_control \<Rightarrow> u32 list \<Rightarrow> jitter_control" where
  "jitter_control_update_size ctl q =
     (if q = [] then ctl
      else let newest_ts = last q; oldest_ts = hd q
           in ctl\<lparr>cum_jitter_buffer_count := cum_jitter_buffer_count ctl + 1,
                  cum_jitter_buffer_size := cum_jitter_buffer_size ctl + ucast (newest_ts - oldest_ts)\<rparr>)"

definition c_max :: "rat \<Rightarrow> rat \<Rightarrow> rat" where
  "c_max a b = (if a > b then a else b)"

definition jitter_control_new_packet :: "jitter_control \<Rightarrow> u32 \<Rightarrow> u32 \<Rightarrow> jitter_control" where
  "jitter_control_new_packet ctl packet_ts cur_str_ts =
     (let diff = uint packet_ts - uint cur_str_ts;
          (slide1, c1) =
            (if jc_count ctl = 0
             then (of_int diff, ctl\<lparr>slide := diff, prev_slide := diff, olddiff := c_int diff, jitter := 0\<rparr>)
             else (to_double (to_double (of_int (slide ctl) * to_double (1 - JC_BETA))
                              + to_double (of_int diff * JC_BETA)), ctl));
          gap0 = to_double (of_int diff - slide1);
          gap = (if gap0 < 0 then - gap0 else 0);
          c2 = c1\<lparr>jitter := to_float (to_double (to_double (jitter c1 * to_double (1 - JC_GAMMA))
                                              + to_double (gap * JC_GAMMA)))\<rparr>;
          d = c_int (diff - olddiff c2);
          c3 = c2\<lparr>inter_jitter := to_float (to_double (inter_jitter c2 +
                  to_double (to_float (to_float (of_int \<bar>d\<bar>) - inter_jitter c2) * (1 / 16)))),
                  olddiff := c_int diff, jc_count := jc_count c2 + 1\<rparr>
      in if adaptive c3 then
           let c4 = (if jc_count c3 mod 50 = 0
                     then c3\<lparr>adapt_jitt_comp_ts :=
                            trunc (c_max (to_float (of_int (jitt_comp_ts c3))) (to_float (2 * jitter c3)))\<rparr>
                     else c3)
           in c4\<lparr>slide := trunc slide1\<rparr>
         else c3)"

definition jitter_control_compute_mean_size :: "jitter_control \<Rightarrow> rat \<times> jitter_control" where
  "jitter_control_compute_mean_size ctl =
     (if cum_jitter_buffer_count ctl \<noteq> 0
      then let tmp = to_double (to_double (of_int (uint (cum_jitter_buffer_size ctl))) /
                                of_int (uint (cum_jitter_buffer_count ctl)))
           in (to_float (to_double (to_double (1000 * to_float tmp) / to_float (of_int (jc_clock_rate ctl)))),
               ctl\<lparr>cum_jitter_buffer_size := 0, cum_jitter_buffer_count := 0\<rparr>)
      else (0, ctl))"

definition jitter_control_get_compensated_timestamp :: "jitter_control \<Rightarrow> u32 \<Rightarrow> u32" where
  "jitter_control_get_compensated_timestamp obj user_ts =
     of_int (uint user_ts + slide obj - adapt_jitt_comp_ts obj)"

section \<open>What a packet changes\<close>

lemma c_max_ge: "a \<le> c_max a b" "b \<le> c_max a b"
  by (simp_all add: c_max_def)

lemma to_double_0_1: "0 \<le> to_double (1 - JC_GAMMA)" "0 \<le> JC_GAMMA"
  by code_simp+

lemma jitter_nonneg:
  "0 \<le> jitter ctl \<Longrightarrow> 0 \<le> jitter (jitter_control_new_packet ctl pk cts)"
  using to_double_0_1
  by (auto simp: jitter_control_new_packet_def Let_def to_float_def to_double_def
      intro!: fround_nonneg add_nonneg_nonneg mult_nonneg_nonneg mult_nonpos_nonneg)

lemma new_packet_frame:
  "jitt_comp_ts (jitter_control_new_packet ctl pk cts) = jitt_comp_ts ctl"
  "adaptive (jitter_control_new_packet ctl pk cts) = adaptive ctl"
  "jc_count (jitter_control_new_packet ctl pk cts) = jc_count ctl + 1"
  by (simp_all add: jitter_control_new_packet_def Let_def)

text \<open>The nominal size is exact as a \<^verbatim>\<open>float\<close> below 2 to the 24.\<close>

definition jitter_inv :: "jitter_control \<Rightarrow> bool" where
  "jitter_inv ctl \<longleftrightarrow> 0 \<le> jitter ctl \<and> \<bar>jitt_comp_ts ctl\<bar> < 2 ^ 24 \<and>
     jitt_comp_ts ctl \<le> adapt_jitt_comp_ts ctl"

lemma jitter_inv_new_packet:
  assumes "jitter_inv ctl"
  shows "jitter_inv (jitter_control_new_packet ctl pk cts)"
proof -
  have "to_float (of_int (jitt_comp_ts ctl)) = of_int (jitt_comp_ts ctl)"
    using assms by (simp add: to_float_def jitter_inv_def fround_of_int)
  then have "jitt_comp_ts ctl \<le> trunc (c_max (to_float (of_int (jitt_comp_ts ctl))) b)" for b
    using trunc_mono [OF c_max_ge(1) [of "of_int (jitt_comp_ts ctl)" b]] by simp
  then have "jitt_comp_ts ctl \<le> adapt_jitt_comp_ts (jitter_control_new_packet ctl pk cts)"
    using assms by (simp add: jitter_control_new_packet_def Let_def jitter_inv_def)
  then show ?thesis using assms jitter_nonneg new_packet_frame by (simp add: jitter_inv_def)
qed

lemma jitter_inv_init:
  assumes "\<bar>jitt_comp_ts (jitter_control_init ctl base pt)\<bar> < 2 ^ 24"
  shows "jitter_inv (jitter_control_init ctl base pt)"
  using assms
  by (auto simp: jitter_inv_def jitter_control_init_def jitter_control_set_payload_def Let_def
      split: option.splits)

definition new_packets :: "jitter_control \<Rightarrow> (u32 \<times> u32) list \<Rightarrow> jitter_control" where
  "new_packets ctl ps = foldl (\<lambda>c (p, t). jitter_control_new_packet c p t) ctl ps"

lemma new_packets_inv: "jitter_inv ctl \<Longrightarrow> jitter_inv (new_packets ctl ps)"
  by (induction ps arbitrary: ctl) (auto simp: new_packets_def jitter_inv_new_packet)

lemma new_packets_nonadaptive:
  assumes "\<not> adaptive ctl" and "jc_count ctl \<noteq> 0" and "unat (jc_count ctl) + length ps < 2 ^ 32"
  shows "slide (new_packets ctl ps) = slide ctl \<and>
     adapt_jitt_comp_ts (new_packets ctl ps) = adapt_jitt_comp_ts ctl"
  using assms
proof (induction ps arbitrary: ctl)
  case (Cons p ps)
  let ?c = "jitter_control_new_packet ctl (fst p) (snd p)"
  have "unat (jc_count ctl) < 2 ^ 32 - 1" using Cons.prems(3) by simp
  then have n: "unat (jc_count ctl + 1) = unat (jc_count ctl) + 1"
    by (simp add: unat_word_ariths)
  then have "jc_count ?c \<noteq> 0" using new_packet_frame(3) by (metis add_is_0 one_neq_zero unat_0)
  moreover have "unat (jc_count ?c) + length ps < 2 ^ 32"
    using n Cons.prems(3) by (simp add: new_packet_frame)
  ultimately have "slide (new_packets ?c ps) = slide ?c \<and>
      adapt_jitt_comp_ts (new_packets ?c ps) = adapt_jitt_comp_ts ?c"
    using Cons.prems(1) by (intro Cons.IH) (auto simp: new_packet_frame)
  moreover have "slide ?c = slide ctl" "adapt_jitt_comp_ts ?c = adapt_jitt_comp_ts ctl"
    using Cons.prems by (simp_all add: jitter_control_new_packet_def Let_def)
  moreover have "new_packets ctl (p # ps) = new_packets ?c ps"
    by (simp add: new_packets_def split_beta)
  ultimately show ?case by simp
qed (simp add: new_packets_def)

section \<open>Properties\<close>

definition ex_ctl :: jitter_control where
  "ex_ctl = jitter_control_init (jitter_control_enable_adaptive jitter_control_zero True) 60
     (Some (payload_zero\<lparr>clock_rate := 8000\<rparr>))"

lemma ex_ctl_ts: "jitt_comp_ts ex_ctl = 480"
  by code_simp

text \<open>
  C38. The adaptive jitter buffer is never smaller than the nominal one: after initialisation and
  any sequence of packet arrivals, the compensation used for delivery is at least the nominal
  compensation, in timestamp units, and the jitter estimate is not negative.
\<close>

theorem jitter_buffer_at_least_nominal:
  assumes "\<bar>jitt_comp_ts (jitter_control_init ctl base pt)\<bar> < 2 ^ 24"
  shows "let c = new_packets (jitter_control_init ctl base pt) ps
         in 0 \<le> jitter c \<and> jitt_comp_ts c \<le> adapt_jitt_comp_ts c"
  using new_packets_inv [OF jitter_inv_init [OF assms], of ps]
  by (simp add: jitter_inv_def Let_def)

theorem jitter_buffer_at_least_nominal_witness:
  "let c = new_packets ex_ctl [(1000, 900), (1160, 1200)]
   in 0 \<le> jitter c \<and> jitt_comp_ts c \<le> adapt_jitt_comp_ts c"
  unfolding ex_ctl_def
  by (rule jitter_buffer_at_least_nominal) (use ex_ctl_ts in \<open>simp add: ex_ctl_def\<close>)

text \<open>
  Without adaptation the delivery time is fixed: once the first packet has set the slide,
  arriving packets do not change the stream timestamp a user timestamp is compensated to.
\<close>

theorem compensation_fixed_without_adaptation:
  assumes "\<not> adaptive ctl" and "jc_count ctl \<noteq> 0" and "unat (jc_count ctl) + length ps < 2 ^ 32"
  shows "jitter_control_get_compensated_timestamp (new_packets ctl ps) user_ts =
     jitter_control_get_compensated_timestamp ctl user_ts"
  using new_packets_nonadaptive [OF assms]
  by (simp add: jitter_control_get_compensated_timestamp_def)

theorem compensation_fixed_without_adaptation_witness:
  "jitter_control_get_compensated_timestamp
     (new_packets (jitter_control_zero\<lparr>jc_count := 1, slide := 100\<rparr>) [(1000, 800), (1160, 970)]) 5000 =
   jitter_control_get_compensated_timestamp (jitter_control_zero\<lparr>jc_count := 1, slide := 100\<rparr>) 5000"
  using compensation_fixed_without_adaptation
      [of "jitter_control_zero\<lparr>jc_count := 1, slide := 100\<rparr>" "[(1000, 800), (1160, 970)]" 5000]
  by (simp add: jitter_control_zero_def)

end
