(* ===== verification/Signal_Tables.thy ===== *)
theory Signal_Tables
  imports Prelude "HOL-Library.Multiset"
begin

text \<open>
  The callback tables of a session, \<^verbatim>\<open>oRTP/src/rtpsignaltable.c\<close> and
  \<^verbatim>\<open>oRTP/include/ortp/rtpsignaltable.h\<close>. A callback is application code, known by
  its address; emitting a signal gives the calls it makes, in order. Reading past the table is
  \<open>None\<close>.
\<close>

definition RTP_CALLBACK_TABLE_MAX_ENTRIES :: nat where "RTP_CALLBACK_TABLE_MAX_ENTRIES = 5"

record rtp_signal_table =
  st_callback :: "nat option list"
  st_user_data :: "nat list"
  st_signal_name :: string
  st_count :: int

record signal_call =
  sc_signal :: string
  sc_callback :: nat
  sc_args :: "nat list"
  sc_user_data :: nat

definition rtp_signal_table_init :: "string \<Rightarrow> rtp_signal_table" where
  "rtp_signal_table_init signal_name =
     \<lparr>st_callback = replicate 5 None, st_user_data = replicate 5 0, st_signal_name = signal_name,
      st_count = 0\<rparr>"

text \<open>The loops run over the indices from \<open>i\<close>, \<open>n\<close> of which remain.\<close>

primrec signal_add_loop ::
  "rtp_signal_table \<Rightarrow> nat \<Rightarrow> nat \<Rightarrow> nat \<Rightarrow> nat \<Rightarrow> int \<times> rtp_signal_table" where
  "signal_add_loop t cb ud 0 i = (-1, t)"
| "signal_add_loop t cb ud (Suc n) i =
     (if st_callback t ! i = None
      then (0, t\<lparr>st_callback := (st_callback t)[i := Some cb],
                 st_user_data := (st_user_data t)[i := ud], st_count := st_count t + 1\<rparr>)
      else signal_add_loop t cb ud n (i + 1))"

definition rtp_signal_table_add :: "rtp_signal_table \<Rightarrow> nat \<Rightarrow> nat \<Rightarrow> int \<times> rtp_signal_table" where
  "rtp_signal_table_add t cb ud = signal_add_loop t cb ud RTP_CALLBACK_TABLE_MAX_ENTRIES 0"

primrec signal_emit_loop ::
  "rtp_signal_table \<Rightarrow> nat list \<Rightarrow> nat \<Rightarrow> nat \<Rightarrow> int \<Rightarrow> signal_call list option" where
  "signal_emit_loop t args 0 i c = (if c < st_count t then None else Some [])"
| "signal_emit_loop t args (Suc n) i c =
     (if c < st_count t then
        (case st_callback t ! i of
           None \<Rightarrow> signal_emit_loop t args n (i + 1) c
         | Some cb \<Rightarrow> do {
             cs \<leftarrow> signal_emit_loop t args n (i + 1) (c + 1);
             Some (\<lparr>sc_signal = st_signal_name t, sc_callback = cb, sc_args = args,
                    sc_user_data = st_user_data t ! i\<rparr> # cs) })
      else Some [])"

definition rtp_signal_table_emit :: "rtp_signal_table \<Rightarrow> signal_call list option" where
  "rtp_signal_table_emit t = signal_emit_loop t [] RTP_CALLBACK_TABLE_MAX_ENTRIES 0 0"

definition rtp_signal_table_emit2 :: "rtp_signal_table \<Rightarrow> nat \<Rightarrow> signal_call list option" where
  "rtp_signal_table_emit2 t arg = signal_emit_loop t [arg] RTP_CALLBACK_TABLE_MAX_ENTRIES 0 0"

definition rtp_signal_table_emit3 :: "rtp_signal_table \<Rightarrow> nat \<Rightarrow> nat \<Rightarrow> signal_call list option" where
  "rtp_signal_table_emit3 t arg1 arg2 =
     signal_emit_loop t [arg1, arg2] RTP_CALLBACK_TABLE_MAX_ENTRIES 0 0"

text \<open>A callback of \<^verbatim>\<open>NULL\<close> matches a free entry, as in the code.\<close>

primrec signal_remove_loop ::
  "rtp_signal_table \<Rightarrow> nat option \<Rightarrow> nat \<Rightarrow> nat \<Rightarrow> int \<times> rtp_signal_table" where
  "signal_remove_loop t cb 0 i = (-1, t)"
| "signal_remove_loop t cb (Suc n) i =
     (if st_callback t ! i = cb
      then (0, t\<lparr>st_callback := (st_callback t)[i := None],
                 st_user_data := (st_user_data t)[i := 0], st_count := st_count t - 1\<rparr>)
      else signal_remove_loop t cb n (i + 1))"

definition rtp_signal_table_remove_by_callback ::
  "rtp_signal_table \<Rightarrow> nat option \<Rightarrow> int \<times> rtp_signal_table" where
  "rtp_signal_table_remove_by_callback t cb =
     signal_remove_loop t cb RTP_CALLBACK_TABLE_MAX_ENTRIES 0"

section \<open>The table invariant\<close>

text \<open>The count is the number of callbacks in the table: this is what emission relies on.\<close>

definition occupied :: "(nat option \<times> nat) list \<Rightarrow> (nat \<times> nat) list" where
  "occupied es = List.map_filter (\<lambda>(c, u). map_option (\<lambda>cb. (cb, u)) c) es"

definition st_entries :: "rtp_signal_table \<Rightarrow> (nat \<times> nat) list" where
  "st_entries t = occupied (zip (st_callback t) (st_user_data t))"

definition st_ok :: "rtp_signal_table \<Rightarrow> bool" where
  "st_ok t \<longleftrightarrow> length (st_callback t) = 5 \<and> length (st_user_data t) = 5 \<and>
     st_count t = int (length (st_entries t))"

definition call_of :: "rtp_signal_table \<Rightarrow> nat list \<Rightarrow> nat \<times> nat \<Rightarrow> signal_call" where
  "call_of t args e = \<lparr>sc_signal = st_signal_name t, sc_callback = fst e, sc_args = args,
     sc_user_data = snd e\<rparr>"

lemma occupied_simps [simp]:
  "occupied [] = []"
  "occupied ((None, u) # es) = occupied es"
  "occupied ((Some cb, u) # es) = (cb, u) # occupied es"
  by (simp_all add: occupied_def List.map_filter_simps)

lemma occupied_append [simp]: "occupied (xs @ ys) = occupied xs @ occupied ys"
  by (induction xs) (auto simp: occupied_def List.map_filter_simps split: option.splits)

lemma length_occupied: "length (occupied es) \<le> length es"
  by (induction es) (auto simp: occupied_def List.map_filter_simps split: option.splits)

lemma occupied_full: "length (occupied es) = length es \<longleftrightarrow> None \<notin> fst ` set es"
proof (induction es)
  case (Cons e es)
  obtain c u where e: "e = (c, u)" by fastforce
  show ?case
    using Cons.IH length_occupied [of es] by (cases c) (auto simp: e)
qed simp

lemma mset_occupied_update:
  assumes "k < length es"
  shows "mset (occupied (es[k := (Some cb, u)])) + mset (occupied [es ! k]) =
           add_mset (cb, u) (mset (occupied es))"
    and "mset (occupied (es[k := (None, u)])) + mset (occupied [es ! k]) = mset (occupied es)"
proof -
  have "occupied es = occupied (take k es) @ occupied [es ! k] @ occupied (drop (Suc k) es)"
    using id_take_nth_drop [OF assms] occupied_append [of "take k es" "es ! k # drop (Suc k) es"]
      occupied_append [of "[es ! k]" "drop (Suc k) es"] by simp
  then show "mset (occupied (es[k := (Some cb, u)])) + mset (occupied [es ! k]) =
           add_mset (cb, u) (mset (occupied es))"
    and "mset (occupied (es[k := (None, u)])) + mset (occupied [es ! k]) = mset (occupied es)"
    using assms by (simp_all add: upd_conv_take_nth_drop)
qed

lemma zip_nth_drop:
  assumes "length xs = i + Suc n" and "length ys = i + Suc n"
  shows "drop i (zip xs ys) = (xs ! i, ys ! i) # drop (Suc i) (zip xs ys)"
  using assms by (simp add: Cons_nth_drop_Suc [symmetric])

section \<open>The operations\<close>

lemma emit_loop_entries:
  assumes "length (st_callback t) = i + n" and "length (st_user_data t) = i + n"
    and "st_count t = c + int (length (occupied (drop i (zip (st_callback t) (st_user_data t)))))"
  shows "signal_emit_loop t args n i c =
     Some (map (call_of t args) (occupied (drop i (zip (st_callback t) (st_user_data t)))))"
  using assms
proof (induction n arbitrary: i c)
  case 0
  then show ?case by simp
next
  case (Suc n)
  note zip = zip_nth_drop [OF Suc.prems(1,2)]
  show ?case
  proof (cases "st_callback t ! i")
    case None
    then have "signal_emit_loop t args n (Suc i) c =
        Some (map (call_of t args) (occupied (drop (Suc i) (zip (st_callback t) (st_user_data t)))))"
      using Suc.prems zip by (intro Suc.IH) simp_all
    then show ?thesis using None zip Suc.prems(3)
      by (cases "c < st_count t") simp_all
  next
    case (Some cb)
    then have "signal_emit_loop t args n (Suc i) (c + 1) =
        Some (map (call_of t args) (occupied (drop (Suc i) (zip (st_callback t) (st_user_data t)))))"
      using Suc.prems zip by (intro Suc.IH) simp_all
    then show ?thesis using Some zip Suc.prems(3)
      by (simp add: call_of_def)
  qed
qed

lemma emit_entries:
  assumes "st_ok t"
  shows "signal_emit_loop t args RTP_CALLBACK_TABLE_MAX_ENTRIES 0 0 =
     Some (map (call_of t args) (st_entries t))"
  using assms emit_loop_entries [of t 0 5 0 args]
  by (simp add: st_ok_def st_entries_def RTP_CALLBACK_TABLE_MAX_ENTRIES_def)

lemma add_loop_spec:
  assumes "length (st_callback t) = i + n" and "length (st_user_data t) = i + n"
  shows "(None \<notin> set (drop i (st_callback t)) \<and> signal_add_loop t cb ud n i = (-1, t)) \<or>
     (\<exists>k < i + n. st_callback t ! k = None \<and> signal_add_loop t cb ud n i =
        (0, t\<lparr>st_callback := (st_callback t)[k := Some cb],
              st_user_data := (st_user_data t)[k := ud], st_count := st_count t + 1\<rparr>))"
  using assms
proof (induction n arbitrary: i)
  case 0
  then show ?case by simp
next
  case (Suc n)
  have "drop i (st_callback t) = st_callback t ! i # drop (Suc i) (st_callback t)"
    using Suc.prems by (simp add: Cons_nth_drop_Suc)
  then have d: "x \<in> set (drop i (st_callback t)) \<longleftrightarrow>
      x = st_callback t ! i \<or> x \<in> set (drop (Suc i) (st_callback t))" for x by simp
  show ?case
  proof (cases "st_callback t ! i = None")
    case True
    then show ?thesis by (intro disjI2 exI [of _ i]) simp
  next
    case False
    then obtain y where "st_callback t ! i = Some y" by blast
    then show ?thesis using Suc.IH [of "Suc i"] Suc.prems d [of "None"] by simp
  qed
qed

lemma remove_loop_spec:
  assumes "length (st_callback t) = i + n" and "length (st_user_data t) = i + n"
  shows "(cb \<notin> set (drop i (st_callback t)) \<and> signal_remove_loop t cb n i = (-1, t)) \<or>
     (\<exists>k < i + n. st_callback t ! k = cb \<and> signal_remove_loop t cb n i =
        (0, t\<lparr>st_callback := (st_callback t)[k := None],
              st_user_data := (st_user_data t)[k := 0], st_count := st_count t - 1\<rparr>))"
  using assms
proof (induction n arbitrary: i)
  case 0
  then show ?case by simp
next
  case (Suc n)
  have "drop i (st_callback t) = st_callback t ! i # drop (Suc i) (st_callback t)"
    using Suc.prems by (simp add: Cons_nth_drop_Suc)
  then have d: "x \<in> set (drop i (st_callback t)) \<longleftrightarrow>
      x = st_callback t ! i \<or> x \<in> set (drop (Suc i) (st_callback t))" for x by simp
  show ?case
  proof (cases "st_callback t ! i = cb")
    case True
    then show ?thesis by (intro disjI2 exI [of _ i]) simp
  next
    case False
    then show ?thesis using Suc.IH [of "Suc i"] Suc.prems d [of cb] by simp
  qed
qed

lemma st_ok_init: "st_ok (rtp_signal_table_init name)" "st_entries (rtp_signal_table_init name) = []"
  by (simp_all add: st_ok_def rtp_signal_table_init_def st_entries_def numeral_eq_Suc)

lemma add_ok:
  assumes ok: "st_ok t" and add: "rtp_signal_table_add t cb ud = (r, t')"
  shows "st_ok t' \<and> (r = 0 \<and> mset (st_entries t') = add_mset (cb, ud) (mset (st_entries t)) \<or>
     r = -1 \<and> t' = t \<and> length (st_entries t) = 5)"
proof -
  let ?z = "zip (st_callback t) (st_user_data t)"
  have len: "length (st_callback t) = 0 + 5" "length (st_user_data t) = 0 + 5"
    using ok by (simp_all add: st_ok_def)
  from add_loop_spec [OF len, of cb ud] show ?thesis
  proof
    assume full: "None \<notin> set (drop 0 (st_callback t)) \<and> signal_add_loop t cb ud 5 0 = (-1, t)"
    then have "None \<notin> fst ` set ?z" by (auto dest: set_zip_leftD)
    then have "length (st_entries t) = 5" using occupied_full [of ?z] len by (simp add: st_entries_def)
    then show ?thesis using full add ok
      by (simp add: rtp_signal_table_add_def RTP_CALLBACK_TABLE_MAX_ENTRIES_def)
  next
    assume "\<exists>k < 0 + 5. st_callback t ! k = None \<and> signal_add_loop t cb ud 5 0 =
        (0, t\<lparr>st_callback := (st_callback t)[k := Some cb],
              st_user_data := (st_user_data t)[k := ud], st_count := st_count t + 1\<rparr>)"
    then obtain k where k: "k < 5" "st_callback t ! k = None"
      and t': "r = 0" "t' = t\<lparr>st_callback := (st_callback t)[k := Some cb],
              st_user_data := (st_user_data t)[k := ud], st_count := st_count t + 1\<rparr>"
      using add by (auto simp: rtp_signal_table_add_def RTP_CALLBACK_TABLE_MAX_ENTRIES_def)
    have m: "mset (st_entries t') = add_mset (cb, ud) (mset (st_entries t))"
      using mset_occupied_update(1) [of k ?z cb ud] k len
      by (simp add: t' st_entries_def zip_update)
    then have "length (st_entries t') = Suc (length (st_entries t))"
      by (metis size_add_mset size_mset)
    then show ?thesis using m t' ok by (simp add: st_ok_def)
  qed
qed

lemma remove_ok:
  assumes ok: "st_ok t" and rem: "rtp_signal_table_remove_by_callback t (Some cb) = (r, t')"
  shows "st_ok t' \<and> (r = 0 \<and> (\<exists>ud. mset (st_entries t) = add_mset (cb, ud) (mset (st_entries t'))) \<or>
     r = -1 \<and> t' = t \<and> cb \<notin> fst ` set (st_entries t))"
proof -
  let ?z = "zip (st_callback t) (st_user_data t)"
  have len: "length (st_callback t) = 0 + 5" "length (st_user_data t) = 0 + 5"
    using ok by (simp_all add: st_ok_def)
  have occ: "(c, u) \<in> set (occupied es) \<Longrightarrow> (Some c, u) \<in> set es" for c u es
    by (induction es) (auto simp: occupied_def List.map_filter_simps split: option.splits)
  from remove_loop_spec [OF len, of "Some cb"] show ?thesis
  proof
    assume none: "Some cb \<notin> set (drop 0 (st_callback t)) \<and> signal_remove_loop t (Some cb) 5 0 = (-1, t)"
    then have "cb \<notin> fst ` set (st_entries t)"
      by (auto simp: st_entries_def dest!: occ dest: set_zip_leftD)
    then show ?thesis using none rem ok
      by (simp add: rtp_signal_table_remove_by_callback_def RTP_CALLBACK_TABLE_MAX_ENTRIES_def)
  next
    assume "\<exists>k < 0 + 5. st_callback t ! k = Some cb \<and> signal_remove_loop t (Some cb) 5 0 =
        (0, t\<lparr>st_callback := (st_callback t)[k := None],
              st_user_data := (st_user_data t)[k := 0], st_count := st_count t - 1\<rparr>)"
    then obtain k where k: "k < 5" "st_callback t ! k = Some cb"
      and t': "r = 0" "t' = t\<lparr>st_callback := (st_callback t)[k := None],
              st_user_data := (st_user_data t)[k := 0], st_count := st_count t - 1\<rparr>"
      using rem by (auto simp: rtp_signal_table_remove_by_callback_def RTP_CALLBACK_TABLE_MAX_ENTRIES_def)
    have m: "mset (st_entries t) = add_mset (cb, st_user_data t ! k) (mset (st_entries t'))"
      using mset_occupied_update(2) [of k ?z 0] k len
      by (simp add: t' st_entries_def zip_update)
    then have "length (st_entries t) = Suc (length (st_entries t'))"
      by (metis size_add_mset size_mset)
    then show ?thesis using m t' ok by (auto simp: st_ok_def)
  qed
qed

section \<open>Properties\<close>

datatype signal_op = Connect nat nat | Disconnect nat

fun run_signal_ops :: "signal_op list \<Rightarrow> rtp_signal_table \<Rightarrow> rtp_signal_table" where
  "run_signal_ops [] t = t"
| "run_signal_ops (Connect cb ud # ops) t = run_signal_ops ops (snd (rtp_signal_table_add t cb ud))"
| "run_signal_ops (Disconnect cb # ops) t =
     run_signal_ops ops (snd (rtp_signal_table_remove_by_callback t (Some cb)))"

lemma run_signal_ops_ok: "st_ok t \<Longrightarrow> st_ok (run_signal_ops ops t)"
proof (induction ops t rule: run_signal_ops.induct)
  case (2 cb ud ops t)
  then show ?case using add_ok [of t cb ud] by (metis prod.collapse run_signal_ops.simps(2))
next
  case (3 cb ops t)
  then show ?case using remove_ok [of t cb] by (metis prod.collapse run_signal_ops.simps(3))
qed simp


text \<open>
  Disconnecting \<^verbatim>\<open>NULL\<close> takes a free slot for a match and makes the count wrong: the
  callback that is still connected is no longer called.
\<close>

lemma disconnect_null_loses_callback:
  "rtp_signal_table_emit (snd (rtp_signal_table_remove_by_callback
     (snd (rtp_signal_table_add (rtp_signal_table_init ''x'') 7 0)) None)) = Some []"
  by code_simp

end
