(* ===== verification/Session_Set.thy ===== *)
theory Session_Set
  imports Prelude
begin

text \<open>
  Sets of sessions, \<^verbatim>\<open>oRTP/src/sessionset.c\<close> and
  \<^verbatim>\<open>oRTP/include/ortp/sessionset.h\<close>, and the state of the scheduler
  (\<^verbatim>\<open>oRTP/src/scheduler.h\<close>) whose masks \<^verbatim>\<open>session_set_select\<close> reads.
  A set is an \<^verbatim>\<open>fd_set\<close> of 1024 bits, kept as the 32 words the code casts it to;
  setting or testing a bit outside it is \<open>None\<close>.
\<close>

type_synonym session_set = "u32 list"

definition session_set_init :: session_set where
  "session_set_init = replicate 32 0"

definition fd_isset :: "int \<Rightarrow> session_set \<Rightarrow> bool option" where
  "fd_isset d ss = (if d < 0 \<or> d \<ge> 1024 then None
     else Some (bit (ss ! nat (d div 32)) (nat (d mod 32))))"

definition fd_set :: "int \<Rightarrow> session_set \<Rightarrow> session_set option" where
  "fd_set d ss = (if d < 0 \<or> d \<ge> 1024 then None
     else Some (ss[nat (d div 32) := set_bit (nat (d mod 32)) (ss ! nat (d div 32))]))"

definition fd_clr :: "int \<Rightarrow> session_set \<Rightarrow> session_set option" where
  "fd_clr d ss = (if d < 0 \<or> d \<ge> 1024 then None
     else Some (ss[nat (d div 32) := unset_bit (nat (d mod 32)) (ss ! nat (d div 32))]))"

text \<open>The loop over \<open>j\<close>, \<open>n\<close> rounds of which remain; \<^verbatim>\<open>>>\<close> is arithmetic.\<close>

primrec count_power_items_simple_loop :: "int \<Rightarrow> nat \<Rightarrow> nat \<Rightarrow> int \<Rightarrow> int" where
  "count_power_items_simple_loop v 0 j c = c"
| "count_power_items_simple_loop v (Suc n) j c =
     count_power_items_simple_loop v n (j + 1) (if drop_bit j v AND 1 \<noteq> 0 then c + 1 else c)"

definition count_power_items_simple :: "int \<Rightarrow> int" where
  "count_power_items_simple v = count_power_items_simple_loop v 32 0 0"

text \<open>On a negative \<^verbatim>\<open>int\<close> this loop does not end: \<open>None\<close>.\<close>

partial_function (option) count_power_items_fast_loop :: "int \<Rightarrow> int \<Rightarrow> int option" where
  "count_power_items_fast_loop v c =
     (if v \<noteq> 0 then count_power_items_fast_loop (drop_bit 1 v) (c + (v AND 1)) else Some c)"

declare count_power_items_fast_loop.simps [code]

definition count_power_items_fast :: "int \<Rightarrow> int option" where
  "count_power_items_fast v = count_power_items_fast_loop v 0"

text \<open>
  The walk over the words of the three masks: the changed scheduler words, the result words
  and the count. Running past the last word is \<open>None\<close>.
\<close>

fun session_set_and_loop ::
  "int \<Rightarrow> int \<Rightarrow> u32 list \<Rightarrow> u32 list \<Rightarrow> u32 list \<Rightarrow> int \<Rightarrow> (u32 list \<times> u32 list \<times> int) option" where
  "session_set_and_loop maxs i (m1 # ms1) (m2 # ms2) (m3 # ms3) ret =
     (if i < maxs + 1 then do {
        let r = m1 AND m2;
        n \<leftarrow> count_power_items_fast (sint r);
        (s, t, ret') \<leftarrow> session_set_and_loop maxs (i + 32) ms1 ms2 ms3 (ret + n);
        Some ((m1 AND NOT r) # s, r # t, ret') }
      else Some (m1 # ms1, m3 # ms3, ret))"
| "session_set_and_loop maxs i ms1 ms2 ms3 ret =
     (if i < maxs + 1 then None else Some (ms1, ms3, ret))"

definition session_set_and ::
  "session_set \<Rightarrow> int \<Rightarrow> session_set \<Rightarrow> session_set \<Rightarrow> (session_set \<times> session_set \<times> int) option" where
  "session_set_and sched_set maxs user_set result_set =
     session_set_and_loop maxs 0 sched_set user_set result_set 0"

section \<open>The scheduler's state\<close>

record rtp_scheduler =
  sched_list :: "ptr option"     \<comment> \<open>the first scheduled session\<close>
  all_sessions :: session_set
  all_max :: int
  r_sessions :: session_set
  r_max :: int
  w_sessions :: session_set
  w_max :: int
  e_sessions :: session_set
  e_max :: int
  max_sessions :: int
  thread_running :: bool
  sched_time :: u32
  timer_inc :: u32

section \<open>Select\<close>

text \<open>One of the three sets of a pass: the count so far, the scheduler's mask, the user's set.\<close>

definition select_one ::
  "int \<Rightarrow> int \<Rightarrow> session_set \<Rightarrow> session_set option \<Rightarrow> (int \<times> session_set \<times> session_set option) option" where
  "select_one amax ret sched_set user = (case user of
      None \<Rightarrow> Some (ret, sched_set, None)
    | Some u \<Rightarrow> do {
        (s, temp, bits) \<leftarrow> session_set_and sched_set amax u session_set_init;
        let ret1 = ret + bits;
        Some (ret1, s, Some (if ret1 > 0 then temp else u)) })"

definition select_pass ::
  "rtp_scheduler \<Rightarrow> session_set option \<Rightarrow> session_set option \<Rightarrow> session_set option \<Rightarrow>
     (int \<times> rtp_scheduler \<times> session_set option \<times> session_set option \<times> session_set option) option" where
  "select_pass sched recvs sends errors = do {
     (ret1, rs, recvs1) \<leftarrow> select_one (all_max sched) 0 (r_sessions sched) recvs;
     (ret2, ws, sends1) \<leftarrow> select_one (all_max sched) ret1 (w_sessions sched) sends;
     (ret3, es, errors1) \<leftarrow> select_one (all_max sched) ret2 (e_sessions sched) errors;
     Some (ret3, sched\<lparr>r_sessions := rs, w_sessions := ws, e_sessions := es\<rparr>,
           recvs1, sends1, errors1) }"

datatype select_result =
    Blocked
  | Timeout rtp_scheduler
  | Selected int rtp_scheduler "session_set option" "session_set option" "session_set option"

text \<open>
  Each wait on the condition lets the scheduler thread run: \<open>ticks\<close> are the changes it makes
  during the successive waits. When no more are given the call is still blocked.
\<close>

fun session_set_select ::
  "(rtp_scheduler \<Rightarrow> rtp_scheduler) list \<Rightarrow> rtp_scheduler \<Rightarrow> session_set option \<Rightarrow>
     session_set option \<Rightarrow> session_set option \<Rightarrow> select_result option" where
  "session_set_select ticks sched recvs sends errors = do {
     (ret, sched1, recvs1, sends1, errors1) \<leftarrow> select_pass sched recvs sends errors;
     if ret > 0 then Some (Selected ret sched1 recvs1 sends1 errors1)
     else (case ticks of
         [] \<Rightarrow> Some Blocked
       | t # ts \<Rightarrow> session_set_select ts (t sched1) recvs1 sends1 errors1) }"

declare session_set_select.simps [simp del]

fun session_set_timedselect_loop ::
  "int \<Rightarrow> (rtp_scheduler \<Rightarrow> rtp_scheduler) list \<Rightarrow> rtp_scheduler \<Rightarrow> session_set option \<Rightarrow>
     session_set option \<Rightarrow> session_set option \<Rightarrow> select_result option" where
  "session_set_timedselect_loop remaining ticks sched recvs sends errors = do {
     (ret, sched1, recvs1, sends1, errors1) \<leftarrow> select_pass sched recvs sends errors;
     if ret > 0 then Some (Selected ret sched1 recvs1 sends1 errors1)
     else (case ticks of
         [] \<Rightarrow> Some Blocked
       | t # ts \<Rightarrow>
           let sched2 = t sched1;
               remaining1 = sint (of_int remaining - timer_inc sched2)
           in if remaining1 > 0
              then session_set_timedselect_loop remaining1 ts sched2 recvs1 sends1 errors1
              else Some (Timeout sched2)) }"

declare session_set_timedselect_loop.simps [simp del]

text \<open>A timeout is seconds and microseconds; without one this is \<^verbatim>\<open>session_set_select\<close>.\<close>

definition session_set_timedselect ::
  "(int \<times> int) option \<Rightarrow> (rtp_scheduler \<Rightarrow> rtp_scheduler) list \<Rightarrow> rtp_scheduler \<Rightarrow>
     session_set option \<Rightarrow> session_set option \<Rightarrow> session_set option \<Rightarrow> select_result option" where
  "session_set_timedselect timeout ticks sched recvs sends errors = (case timeout of
      None \<Rightarrow> session_set_select ticks sched recvs sends errors
    | Some (sec, usec) \<Rightarrow>
        session_set_timedselect_loop ((if 0 \<le> usec then usec div 1000 else - (- usec div 1000)) + sec * 1000)
          ticks sched recvs sends errors)"

section \<open>Counting bits\<close>

lemma finite_int_bits:
  fixes v :: int
  assumes "0 \<le> v"
  shows "finite {j. bit v j}"
proof (rule finite_subset)
  show "{j. bit v j} \<subseteq> {..<nat v}"
  proof
    fix j
    assume j: "j \<in> {j. bit v j}"
    show "j \<in> {..<nat v}"
    proof (rule ccontr)
      assume "j \<notin> {..<nat v}"
      then have "nat v \<le> j" by simp
      also have "j < 2 ^ j" by (rule less_exp)
      finally have "v < 2 ^ j" using assms by (simp add: nat_less_iff)
      then have "v div 2 ^ j = 0" using assms by simp
      then show False using j by (simp add: bit_iff_odd)
    qed
  qed
qed simp

lemma fast_loop_terminates:
  assumes "0 \<le> v"
  shows "count_power_items_fast_loop v c = Some (c + int (card {j. bit v j}))"
  using assms
proof (induction "nat v" arbitrary: v c rule: less_induct)
  case less
  show ?case
  proof (cases "v = 0")
    case True
    have none: "{j. bit (0::int) j} = {}" by auto
    show ?thesis by (subst count_power_items_fast_loop.simps) (simp only: True none, simp)
  next
    case False
    then have "nat (v div 2) < nat v" "0 \<le> v div 2" using less.prems by auto
    from less.hyps [OF this]
    have IH: "count_power_items_fast_loop (v div 2) (c + v mod 2) =
        Some (c + v mod 2 + int (card {j. bit (v div 2) j}))" .
    have fin: "finite {j. bit (v div 2) j}" by (rule finite_int_bits [OF \<open>0 \<le> v div 2\<close>])
    have "{j. bit v j} = (if odd v then {0} else {}) \<union> Suc ` {j. bit (v div 2) j}"
    proof (rule set_eqI)
      fix j
      show "j \<in> {j. bit v j} \<longleftrightarrow> j \<in> (if odd v then {0} else {}) \<union> Suc ` {j. bit (v div 2) j}"
        by (cases j) (auto simp: bit_0 bit_Suc)
    qed
    then have "int (card {j. bit v j}) = v mod 2 + int (card {j. bit (v div 2) j})"
      using fin by (auto simp: card_insert_if card_image mod_2_eq_odd)
    then show ?thesis using IH False
      by (subst count_power_items_fast_loop.simps) (simp add: drop_bit_Suc and_one_eq)
  qed
qed


lemma fast_loop_nonneg:
  assumes "count_power_items_fast_loop v c = Some r"
  shows "0 \<le> v"
proof (rule count_power_items_fast_loop.raw_induct [of "\<lambda>v c r. 0 \<le> v", OF _ assms])
  fix loop :: "int \<Rightarrow> int \<Rightarrow> int option" and v c r
  assume IH: "\<And>v c r. loop v c = Some r \<Longrightarrow> 0 \<le> v"
    and step: "(if v \<noteq> 0 then loop (drop_bit 1 v) (c + (v AND 1)) else Some c) = Some r"
  show "0 \<le> v"
  proof (cases "v = 0")
    case False
    then have "loop (drop_bit 1 v) (c + (v AND 1)) = Some r" using step by simp
    from IH [OF this] show ?thesis by simp
  qed simp
qed

lemma count_power_items_fast_eq:
  "count_power_items_fast v = (if 0 \<le> v then Some (int (card {j. bit v j})) else None)"
  using fast_loop_terminates [of v 0] fast_loop_nonneg [of v 0]
  by (cases "count_power_items_fast_loop v 0") (auto simp: count_power_items_fast_def)

lemma count_fast_word:
  fixes r :: u32
  shows "count_power_items_fast (sint r) =
     (if bit r 31 then None else Some (int (card {j. bit r j})))"
proof -
  have "sint r < 0 \<longleftrightarrow> bit r 31" using bit_last_iff [of r] by simp
  moreover have "{j. bit (sint r) j} = {j. bit r j}" if "\<not> bit r 31"
    using that by (auto simp: bit_sint_iff min_def dest: bit_imp_le_length split: if_splits)
  ultimately show ?thesis by (auto simp: count_power_items_fast_eq not_less [symmetric])
qed

section \<open>Sets of positions\<close>

definition members :: "u32 list \<Rightarrow> nat set" where
  "members ss = {p. p < 32 * length ss \<and> bit (ss ! (p div 32)) (p mod 32)}"

lemma members_Nil [simp]: "members [] = {}"
  by (simp add: members_def)

lemma members_Cons: "members (x # xs) = {j. bit x j} \<union> (\<lambda>p. p + 32) ` members xs"
proof (rule set_eqI)
  fix p
  show "p \<in> members (x # xs) \<longleftrightarrow> p \<in> {j. bit x j} \<union> (\<lambda>p. p + 32) ` members xs"
  proof (cases "p < 32")
    case True
    then show ?thesis by (auto simp: members_def)
  next
    case False
    then obtain q where q: "p = q + 32" by (metis add.commute le_Suc_ex not_less)
    have "\<not> bit x p" using False bit_imp_le_length [of x p] by auto
    moreover have "p div 32 = Suc (q div 32)" "p mod 32 = q mod 32" using q by simp_all
    ultimately show ?thesis using q by (auto simp: members_def image_iff)
  qed
qed

lemma finite_members [simp]: "finite (members ss)"
  by (rule finite_subset [of _ "{..<32 * length ss}"]) (auto simp: members_def)

lemma finite_word_bits [simp]: "finite {j. bit (x::'a::len word) j}"
  by (rule finite_subset [of _ "{..<LENGTH('a)}"]) (auto dest: bit_imp_le_length)

lemma members_parts:
  "members (x # xs) \<inter> members (y # ys) =
     {j. bit (x AND y) j} \<union> (\<lambda>p. p + 32) ` (members xs \<inter> members ys)"
  "members (x # xs) - members (y # ys) =
     {j. bit (x AND NOT (x AND y)) j} \<union> (\<lambda>p. p + 32) ` (members xs - members ys)"
  by (auto simp: members_Cons bit_simps dest: bit_imp_le_length)

lemma card_members_Int:
  "card (members (x # xs) \<inter> members (y # ys)) =
     card {j. bit (x AND y) j} + card (members xs \<inter> members ys)"
proof -
  have "{j. bit (x AND y) j} \<inter> (\<lambda>p. p + 32) ` (members xs \<inter> members ys) = {}"
    by (auto dest!: bit_imp_le_length)
  then show ?thesis
    unfolding members_parts by (subst card_Un_disjoint) (auto simp: card_image)
qed

text \<open>The positions on which the fast bit count does not return: bit 31 of a word.\<close>

definition stuck :: "nat set \<Rightarrow> bool" where
  "stuck S \<longleftrightarrow> (\<exists>p \<in> S. p mod 32 = 31)"

lemma stuck_parts:
  "stuck (members (x # xs) \<inter> members (y # ys)) \<longleftrightarrow>
     bit (x AND y) 31 \<or> stuck (members xs \<inter> members ys)"
proof -
  have "p mod 32 = 31 \<longleftrightarrow> p = 31" if "bit (x AND y) p" for p
    using bit_imp_le_length [OF that] by auto
  then show ?thesis unfolding members_parts stuck_def by (auto simp: bex_Un)
qed

lemma session_set_and_loop_spec:
  assumes "length ms2 = length ms1" and "length ms3 = length ms1" and "members ms3 = {}"
    and "\<forall>p \<in> members ms1. i + int p \<le> maxs" and "maxs + 1 \<le> i + 32 * int (length ms1)"
  shows "(stuck (members ms1 \<inter> members ms2) \<longrightarrow> session_set_and_loop maxs i ms1 ms2 ms3 ret = None) \<and>
     (\<not> stuck (members ms1 \<inter> members ms2) \<longrightarrow>
       (\<exists>s t. session_set_and_loop maxs i ms1 ms2 ms3 ret =
            Some (s, t, ret + int (card (members ms1 \<inter> members ms2))) \<and>
          length s = length ms1 \<and> length t = length ms1 \<and>
          members s = members ms1 - members ms2 \<and> members t = members ms1 \<inter> members ms2))"
  using assms
proof (induction ms1 arbitrary: ms2 ms3 i ret)
  case Nil
  then show ?case by (auto simp: stuck_def)
next
  case (Cons m1 ms1)
  obtain m2 ms2' m3 ms3' where ms: "ms2 = m2 # ms2'" "ms3 = m3 # ms3'"
    using Cons.prems(1,2) by (cases ms2; cases ms3) auto
  show ?case
  proof (cases "i < maxs + 1")
    case False
    then have "members (m1 # ms1) = {}" using Cons.prems(4) by force
    then show ?thesis using False ms Cons.prems by (auto simp: stuck_def)
  next
    case True
    let ?I = "members ms1 \<inter> members ms2'"
    have "members ms3' = {}" using Cons.prems(3) by (auto simp: ms members_Cons)
    then have IH: "(stuck ?I \<longrightarrow> session_set_and_loop maxs (i + 32) ms1 ms2' ms3' r = None) \<and>
     (\<not> stuck ?I \<longrightarrow>
       (\<exists>s t. session_set_and_loop maxs (i + 32) ms1 ms2' ms3' r = Some (s, t, r + int (card ?I)) \<and>
          length s = length ms1 \<and> length t = length ms1 \<and>
          members s = members ms1 - members ms2' \<and> members t = ?I))" for r
      using Cons.prems by (intro Cons.IH) (force simp: ms members_Cons)+
    show ?thesis
    proof (cases "bit (m1 AND m2) 31 \<or> stuck ?I")
      case stuck: True
      then show ?thesis using True IH
        by (auto simp: ms stuck_parts count_fast_word)
    next
      case ok: False
      let ?n = "int (card {j. bit (m1 AND m2) j})"
      obtain s t where st: "session_set_and_loop maxs (i + 32) ms1 ms2' ms3' (ret + ?n) =
          Some (s, t, ret + ?n + int (card ?I))" "length s = length ms1" "length t = length ms1"
          "members s = members ms1 - members ms2'" "members t = ?I"
        using IH [of "ret + ?n"] ok by blast
      let ?s = "(m1 AND NOT (m1 AND m2)) # s" and ?t = "(m1 AND m2) # t"
      have "session_set_and_loop maxs i (m1 # ms1) ms2 ms3 ret =
          Some (?s, ?t, ret + int (card (members (m1 # ms1) \<inter> members ms2)))"
        using True ok st(1) card_members_Int [of m1 ms1 m2 ms2']
        by (simp add: ms count_fast_word Let_def)
      moreover have "members ?s = members (m1 # ms1) - members ms2"
        "members ?t = members (m1 # ms1) \<inter> members ms2"
        using st(4,5) members_parts [of m1 ms1 m2 ms2'] by (simp_all add: ms members_Cons [of _ s] members_Cons [of _ t])
      ultimately show ?thesis using ok st(2,3) by (auto simp: ms stuck_parts)
    qed
  qed
qed


lemma session_set_and_spec:
  assumes "length S = 32" and "length U = 32" and "maxs < 1024"
    and "\<forall>p \<in> members S. int p \<le> maxs"
  shows "(stuck (members S \<inter> members U) \<longrightarrow> session_set_and S maxs U session_set_init = None) \<and>
     (\<not> stuck (members S \<inter> members U) \<longrightarrow>
       (\<exists>s t. session_set_and S maxs U session_set_init = Some (s, t, int (card (members S \<inter> members U))) \<and>
          length s = 32 \<and> length t = 32 \<and>
          members s = members S - members U \<and> members t = members S \<inter> members U))"
proof -
  have "members session_set_init = {}"
    by (auto simp: members_def session_set_init_def)
  moreover have "maxs + 1 \<le> 0 + 32 * int (length S)" using assms(1,3) by simp
  ultimately show ?thesis
    using session_set_and_loop_spec [of U S session_set_init 0 maxs 0] assms
    by (simp add: session_set_and_def session_set_init_def)
qed

section \<open>Bits of a set\<close>

lemma div_mod_32: "p div 32 = q div 32 \<Longrightarrow> p mod 32 = q mod 32 \<Longrightarrow> p = (q::nat)"
  by (metis div_mult_mod_eq)

lemma fd_set_members:
  assumes "length ss = 32" and "p < 1024"
  shows "\<exists>s. fd_set (int p) ss = Some s \<and> length s = 32 \<and> members s = insert p (members ss)"
proof -
  have i: "nat (int p div 32) = p div 32" "nat (int p mod 32) = p mod 32"
    by (simp_all add: nat_div_distrib nat_mod_distrib)
  have "p div 32 < 32" using assms(2) by (simp add: less_mult_imp_div_less)
  then have "members (ss[p div 32 := set_bit (p mod 32) (ss ! (p div 32))]) = insert p (members ss)"
    using assms div_mod_32 [of _ p]
    by (auto simp: members_def nth_list_update bit_set_bit_iff exp_eq_zero_iff split: if_splits)
  then show ?thesis using assms by (simp add: fd_set_def i)
qed

lemma fd_clr_members:
  assumes "length ss = 32" and "p < 1024"
  shows "\<exists>s. fd_clr (int p) ss = Some s \<and> length s = 32 \<and> members s = members ss - {p}"
proof -
  have i: "nat (int p div 32) = p div 32" "nat (int p mod 32) = p mod 32"
    by (simp_all add: nat_div_distrib nat_mod_distrib)
  have "p div 32 < 32" using assms(2) by (simp add: less_mult_imp_div_less)
  then have "members (ss[p div 32 := unset_bit (p mod 32) (ss ! (p div 32))]) = members ss - {p}"
    using assms div_mod_32 [of _ p]
    by (auto simp: members_def nth_list_update bit_unset_bit_iff split: if_splits)
  then show ?thesis using assms by (simp add: fd_clr_def i)
qed

lemma fd_isset_members:
  assumes "length ss = 32" and "p < 1024"
  shows "fd_isset (int p) ss = Some (p \<in> members ss)"
  using assms by (simp add: fd_isset_def members_def nat_div_distrib nat_mod_distrib)

section \<open>Properties\<close>

definition ex_sched :: rtp_scheduler where
  "ex_sched = \<lparr>sched_list = None, all_sessions = 0xFF # replicate 31 0, all_max = 40,
     r_sessions = 0x15 # 0x80 # replicate 30 0, r_max = 0, w_sessions = 0x2 # replicate 31 0, w_max = 0,
     e_sessions = session_set_init, e_max = 0, max_sessions = 1024, thread_running = True,
     sched_time = 0, timer_inc = 10\<rparr>"


lemma word_bits_filter: "{j. bit (x::u32) j} = set (filter (bit x) [0..<32])"
  by (auto dest: bit_imp_le_length)

lemma ex_sched_members:
  "members (r_sessions ex_sched) = {0, 2, 4, 39}" "members (0x7 # 0xF0 # replicate 30 0) = {0, 1, 2, 36, 37, 38, 39}"
proof -
  have z: "members (replicate n 0) = {}" for n by (auto simp: members_def)
  have b: "{j. bit (0x15::u32) j} = {0, 2, 4}" "{j. bit (0x80::u32) j} = {7}"
    "{j. bit (0x7::u32) j} = {0, 1, 2}" "{j. bit (0xF0::u32) j} = {4, 5, 6, 7}"
    unfolding word_bits_filter by code_simp+
  show "members (r_sessions ex_sched) = {0, 2, 4, 39}"
    "members (0x7 # 0xF0 # replicate 30 0) = {0, 1, 2, 36, 37, 38, 39}"
    unfolding ex_sched_def rtp_scheduler.simps members_Cons z b by auto
qed


text \<open>
  C37. A session at position 31 (or any position that is 31 modulo 32) hangs
  \<^verbatim>\<open>session_set_select\<close>: when it is ready and in the user's set, the bit count of
  the result word, taken as a negative \<^verbatim>\<open>int\<close>, never returns.
\<close>

theorem select_hangs_at_position_31:
  assumes "length (r_sessions sched) = 32" and "length recvs = 32" and "all_max sched < 1024"
    and "\<forall>p \<in> members (r_sessions sched). int p \<le> all_max sched"
    and "stuck (members (r_sessions sched) \<inter> members recvs)"
  shows "session_set_select ticks sched (Some recvs) sends errors = None"
  using session_set_and_spec [OF assms(1-4)] assms(5)
  by (subst session_set_select.simps) (simp add: select_pass_def select_one_def)

theorem select_hangs_at_position_31_witness:
  "session_set_select [] (ex_sched\<lparr>r_sessions := 0x80000000 # replicate 31 0\<rparr>)
     (Some (0x80000000 # replicate 31 0)) None None = None"
proof (rule select_hangs_at_position_31)
  have m: "members (0x80000000 # replicate 31 0) = {31}"
  proof -
    have "members (replicate n 0) = {}" for n by (auto simp: members_def)
    moreover have "{j. bit (0x80000000::u32) j} = {31}"
      unfolding word_bits_filter by code_simp
    ultimately show ?thesis by (auto simp: members_Cons)
  qed
  show "\<forall>p \<in> members (r_sessions (ex_sched\<lparr>r_sessions := 0x80000000 # replicate 31 0\<rparr>)).
      int p \<le> all_max (ex_sched\<lparr>r_sessions := 0x80000000 # replicate 31 0\<rparr>)"
    using m by (simp add: ex_sched_def)
  show "stuck (members (r_sessions (ex_sched\<lparr>r_sessions := 0x80000000 # replicate 31 0\<rparr>)) \<inter>
      members (0x80000000 # replicate 31 0))"
    using m by (simp add: stuck_def)
qed (simp_all add: ex_sched_def)

text \<open>
  When only a later set has an event, an earlier one is returned as the user passed it, although
  none of its sessions is ready.
\<close>

lemma select_leaves_recvs_unchanged:
  "(case select_pass (ex_sched\<lparr>r_sessions := session_set_init\<rparr>) (Some (0x7 # replicate 31 0))
       (Some (0x7 # replicate 31 0)) None of
      Some (ret, _, rv, _, _) \<Rightarrow> ret = 1 \<and> rv = Some (0x7 # replicate 31 0) | None \<Rightarrow> False)"
  by code_simp

end
