(* ===== verification/Av_Profile.thy ===== *)
theory Av_Profile
  imports Payload
begin

text \<open>
  The static payload types and the audio/video profile of \<^verbatim>\<open>oRTP/src/avprofile.c\<close>.
  The C objects are global variables; their addresses are their positions in
  \<open>static_payload_types\<close>.
\<close>

definition payload_type_pcmu8000 :: payload_type where
  "payload_type_pcmu8000 = \<lparr>pt_type = PAYLOAD_AUDIO_CONTINUOUS, clock_rate = 8000,
     bits_per_sample = 8, zero_pattern = Some [127], pattern_length = 1,
     normal_bitrate = 64000, mime_type = Some ''PCMU'', channels = 1,
     recv_fmtp = None, send_fmtp = None, pt_flags = 0, user_data = 0\<rparr>"

definition payload_type_pcma8000 :: payload_type where
  "payload_type_pcma8000 = \<lparr>pt_type = PAYLOAD_AUDIO_CONTINUOUS, clock_rate = 8000,
     bits_per_sample = 8, zero_pattern = Some [0xD5], pattern_length = 1,
     normal_bitrate = 64000, mime_type = Some ''PCMA'', channels = 1,
     recv_fmtp = None, send_fmtp = None, pt_flags = 0, user_data = 0\<rparr>"

definition payload_type_pcm8000 :: payload_type where
  "payload_type_pcm8000 = \<lparr>pt_type = PAYLOAD_AUDIO_CONTINUOUS, clock_rate = 8000,
     bits_per_sample = 16, zero_pattern = Some [0, 0, 0, 0], pattern_length = 1,
     normal_bitrate = 128000, mime_type = Some ''PCM'', channels = 1,
     recv_fmtp = None, send_fmtp = None, pt_flags = 0, user_data = 0\<rparr>"

definition payload_type_l16_mono :: payload_type where
  "payload_type_l16_mono = \<lparr>pt_type = PAYLOAD_AUDIO_CONTINUOUS, clock_rate = 44100,
     bits_per_sample = 16, zero_pattern = Some [0, 0, 0, 0], pattern_length = 2,
     normal_bitrate = 705600, mime_type = Some ''L16'', channels = 1,
     recv_fmtp = None, send_fmtp = None, pt_flags = 0, user_data = 0\<rparr>"

definition payload_type_l16_stereo :: payload_type where
  "payload_type_l16_stereo = \<lparr>pt_type = PAYLOAD_AUDIO_CONTINUOUS, clock_rate = 44100,
     bits_per_sample = 32, zero_pattern = Some [0, 0, 0, 0], pattern_length = 4,
     normal_bitrate = 1411200, mime_type = Some ''L16'', channels = 2,
     recv_fmtp = None, send_fmtp = None, pt_flags = 0, user_data = 0\<rparr>"

definition payload_type_lpc1016 :: payload_type where
  "payload_type_lpc1016 = \<lparr>pt_type = PAYLOAD_AUDIO_PACKETIZED, clock_rate = 8000,
     bits_per_sample = 0, zero_pattern = None, pattern_length = 0,
     normal_bitrate = 2400, mime_type = Some ''1016'', channels = 1,
     recv_fmtp = None, send_fmtp = None, pt_flags = 0, user_data = 0\<rparr>"

definition payload_type_gsm :: payload_type where
  "payload_type_gsm = \<lparr>pt_type = PAYLOAD_AUDIO_PACKETIZED, clock_rate = 8000,
     bits_per_sample = 0, zero_pattern = None, pattern_length = 0,
     normal_bitrate = 13500, mime_type = Some ''GSM'', channels = 1,
     recv_fmtp = None, send_fmtp = None, pt_flags = 0, user_data = 0\<rparr>"

definition payload_type_lpc :: payload_type where
  "payload_type_lpc = \<lparr>pt_type = PAYLOAD_AUDIO_PACKETIZED, clock_rate = 8000,
     bits_per_sample = 0, zero_pattern = None, pattern_length = 0,
     normal_bitrate = 5600, mime_type = Some ''LPC'', channels = 1,
     recv_fmtp = None, send_fmtp = None, pt_flags = 0, user_data = 0\<rparr>"

definition payload_type_g7231 :: payload_type where
  "payload_type_g7231 = \<lparr>pt_type = PAYLOAD_AUDIO_PACKETIZED, clock_rate = 8000,
     bits_per_sample = 0, zero_pattern = None, pattern_length = 0,
     normal_bitrate = 6300, mime_type = Some ''G723'', channels = 1,
     recv_fmtp = None, send_fmtp = None, pt_flags = 0, user_data = 0\<rparr>"

definition payload_type_g729 :: payload_type where
  "payload_type_g729 = \<lparr>pt_type = PAYLOAD_AUDIO_PACKETIZED, clock_rate = 8000,
     bits_per_sample = 0, zero_pattern = None, pattern_length = 0,
     normal_bitrate = 8000, mime_type = Some ''G729'', channels = 1,
     recv_fmtp = None, send_fmtp = None, pt_flags = 0, user_data = 0\<rparr>"

definition payload_type_g7221 :: payload_type where
  "payload_type_g7221 = \<lparr>pt_type = PAYLOAD_AUDIO_PACKETIZED, clock_rate = 16000,
     bits_per_sample = 0, zero_pattern = None, pattern_length = 0,
     normal_bitrate = 24000, mime_type = Some ''G7221'', channels = 1,
     recv_fmtp = None, send_fmtp = None, pt_flags = 0, user_data = 0\<rparr>"

definition payload_type_g726_40 :: payload_type where
  "payload_type_g726_40 = \<lparr>pt_type = PAYLOAD_AUDIO_PACKETIZED, clock_rate = 8000,
     bits_per_sample = 0, zero_pattern = None, pattern_length = 0,
     normal_bitrate = 8000, mime_type = Some ''G726-40'', channels = 1,
     recv_fmtp = None, send_fmtp = None, pt_flags = 0, user_data = 0\<rparr>"

definition payload_type_g726_32 :: payload_type where
  "payload_type_g726_32 = \<lparr>pt_type = PAYLOAD_AUDIO_PACKETIZED, clock_rate = 8000,
     bits_per_sample = 0, zero_pattern = None, pattern_length = 0,
     normal_bitrate = 8000, mime_type = Some ''G726-32'', channels = 1,
     recv_fmtp = None, send_fmtp = None, pt_flags = 0, user_data = 0\<rparr>"

definition payload_type_g726_24 :: payload_type where
  "payload_type_g726_24 = \<lparr>pt_type = PAYLOAD_AUDIO_PACKETIZED, clock_rate = 8000,
     bits_per_sample = 0, zero_pattern = None, pattern_length = 0,
     normal_bitrate = 8000, mime_type = Some ''G726-24'', channels = 1,
     recv_fmtp = None, send_fmtp = None, pt_flags = 0, user_data = 0\<rparr>"

definition payload_type_g726_16 :: payload_type where
  "payload_type_g726_16 = \<lparr>pt_type = PAYLOAD_AUDIO_PACKETIZED, clock_rate = 8000,
     bits_per_sample = 0, zero_pattern = None, pattern_length = 0,
     normal_bitrate = 8000, mime_type = Some ''G726-16'', channels = 1,
     recv_fmtp = None, send_fmtp = None, pt_flags = 0, user_data = 0\<rparr>"

definition payload_type_aal2_g726_40 :: payload_type where
  "payload_type_aal2_g726_40 = \<lparr>pt_type = PAYLOAD_AUDIO_PACKETIZED, clock_rate = 8000,
     bits_per_sample = 0, zero_pattern = None, pattern_length = 0,
     normal_bitrate = 8000, mime_type = Some ''AAL2-G726-40'', channels = 1,
     recv_fmtp = None, send_fmtp = None, pt_flags = 0, user_data = 0\<rparr>"

definition payload_type_aal2_g726_32 :: payload_type where
  "payload_type_aal2_g726_32 = \<lparr>pt_type = PAYLOAD_AUDIO_PACKETIZED, clock_rate = 8000,
     bits_per_sample = 0, zero_pattern = None, pattern_length = 0,
     normal_bitrate = 8000, mime_type = Some ''AAL2-G726-32'', channels = 1,
     recv_fmtp = None, send_fmtp = None, pt_flags = 0, user_data = 0\<rparr>"

definition payload_type_aal2_g726_24 :: payload_type where
  "payload_type_aal2_g726_24 = \<lparr>pt_type = PAYLOAD_AUDIO_PACKETIZED, clock_rate = 8000,
     bits_per_sample = 0, zero_pattern = None, pattern_length = 0,
     normal_bitrate = 8000, mime_type = Some ''AAL2-G726-24'', channels = 1,
     recv_fmtp = None, send_fmtp = None, pt_flags = 0, user_data = 0\<rparr>"

definition payload_type_aal2_g726_16 :: payload_type where
  "payload_type_aal2_g726_16 = \<lparr>pt_type = PAYLOAD_AUDIO_PACKETIZED, clock_rate = 8000,
     bits_per_sample = 0, zero_pattern = None, pattern_length = 0,
     normal_bitrate = 8000, mime_type = Some ''AAL2-G726-16'', channels = 1,
     recv_fmtp = None, send_fmtp = None, pt_flags = 0, user_data = 0\<rparr>"

definition payload_type_mpv :: payload_type where
  "payload_type_mpv = \<lparr>pt_type = PAYLOAD_VIDEO, clock_rate = 90000,
     bits_per_sample = 0, zero_pattern = None, pattern_length = 0,
     normal_bitrate = 256000, mime_type = Some ''MPV'', channels = 0,
     recv_fmtp = None, send_fmtp = None, pt_flags = 0, user_data = 0\<rparr>"

definition payload_type_h261 :: payload_type where
  "payload_type_h261 = \<lparr>pt_type = PAYLOAD_VIDEO, clock_rate = 90000,
     bits_per_sample = 0, zero_pattern = None, pattern_length = 0,
     normal_bitrate = 0, mime_type = Some ''H261'', channels = 0,
     recv_fmtp = None, send_fmtp = None, pt_flags = 0, user_data = 0\<rparr>"

definition payload_type_h263 :: payload_type where
  "payload_type_h263 = \<lparr>pt_type = PAYLOAD_VIDEO, clock_rate = 90000,
     bits_per_sample = 0, zero_pattern = None, pattern_length = 0,
     normal_bitrate = 256000, mime_type = Some ''H263'', channels = 0,
     recv_fmtp = None, send_fmtp = None, pt_flags = 0, user_data = 0\<rparr>"

definition payload_type_truespeech :: payload_type where
  "payload_type_truespeech = \<lparr>pt_type = PAYLOAD_AUDIO_PACKETIZED, clock_rate = 8000,
     bits_per_sample = 0, zero_pattern = None, pattern_length = 0,
     normal_bitrate = 8536, mime_type = Some ''TSP0'', channels = 0,
     recv_fmtp = None, send_fmtp = None, pt_flags = 0, user_data = 0\<rparr>"

definition payload_type_lpc1015 :: payload_type where
  "payload_type_lpc1015 = \<lparr>pt_type = PAYLOAD_AUDIO_PACKETIZED, clock_rate = 8000,
     bits_per_sample = 0, zero_pattern = None, pattern_length = 0,
     normal_bitrate = 2400, mime_type = Some ''1015'', channels = 1,
     recv_fmtp = None, send_fmtp = None, pt_flags = 0, user_data = 0\<rparr>"

definition payload_type_speex_nb :: payload_type where
  "payload_type_speex_nb = \<lparr>pt_type = PAYLOAD_AUDIO_PACKETIZED, clock_rate = 8000,
     bits_per_sample = 0, zero_pattern = None, pattern_length = 0,
     normal_bitrate = 8000, mime_type = Some ''speex'', channels = 1,
     recv_fmtp = None, send_fmtp = None, pt_flags = 0, user_data = 0\<rparr>"

definition payload_type_speex_wb :: payload_type where
  "payload_type_speex_wb = \<lparr>pt_type = PAYLOAD_AUDIO_PACKETIZED, clock_rate = 16000,
     bits_per_sample = 0, zero_pattern = None, pattern_length = 0,
     normal_bitrate = 28000, mime_type = Some ''speex'', channels = 1,
     recv_fmtp = None, send_fmtp = None, pt_flags = 0, user_data = 0\<rparr>"

definition payload_type_speex_uwb :: payload_type where
  "payload_type_speex_uwb = \<lparr>pt_type = PAYLOAD_AUDIO_PACKETIZED, clock_rate = 32000,
     bits_per_sample = 0, zero_pattern = None, pattern_length = 0,
     normal_bitrate = 28000, mime_type = Some ''speex'', channels = 1,
     recv_fmtp = None, send_fmtp = None, pt_flags = 0, user_data = 0\<rparr>"

definition payload_type_ilbc :: payload_type where
  "payload_type_ilbc = \<lparr>pt_type = PAYLOAD_AUDIO_PACKETIZED, clock_rate = 8000,
     bits_per_sample = 0, zero_pattern = None, pattern_length = 0,
     normal_bitrate = 13300, mime_type = Some ''iLBC'', channels = 1,
     recv_fmtp = None, send_fmtp = None, pt_flags = 0, user_data = 0\<rparr>"

definition payload_type_amr :: payload_type where
  "payload_type_amr = \<lparr>pt_type = PAYLOAD_AUDIO_PACKETIZED, clock_rate = 8000,
     bits_per_sample = 0, zero_pattern = None, pattern_length = 0,
     normal_bitrate = 12200, mime_type = Some ''AMR'', channels = 1,
     recv_fmtp = None, send_fmtp = None, pt_flags = 0, user_data = 0\<rparr>"

definition payload_type_amrwb :: payload_type where
  "payload_type_amrwb = \<lparr>pt_type = PAYLOAD_AUDIO_PACKETIZED, clock_rate = 16000,
     bits_per_sample = 0, zero_pattern = None, pattern_length = 0,
     normal_bitrate = 23850, mime_type = Some ''AMR-WB'', channels = 1,
     recv_fmtp = None, send_fmtp = None, pt_flags = 0, user_data = 0\<rparr>"

definition payload_type_mp4v :: payload_type where
  "payload_type_mp4v = \<lparr>pt_type = PAYLOAD_VIDEO, clock_rate = 90000,
     bits_per_sample = 0, zero_pattern = None, pattern_length = 0,
     normal_bitrate = 0, mime_type = Some ''MP4V-ES'', channels = 0,
     recv_fmtp = None, send_fmtp = None, pt_flags = 0, user_data = 0\<rparr>"

definition payload_type_evrc0 :: payload_type where
  "payload_type_evrc0 = \<lparr>pt_type = PAYLOAD_AUDIO_PACKETIZED, clock_rate = 8000,
     bits_per_sample = 0, zero_pattern = None, pattern_length = 0,
     normal_bitrate = 0, mime_type = Some ''EVRC0'', channels = 1,
     recv_fmtp = None, send_fmtp = None, pt_flags = 0, user_data = 0\<rparr>"

definition payload_type_evrcb0 :: payload_type where
  "payload_type_evrcb0 = \<lparr>pt_type = PAYLOAD_AUDIO_PACKETIZED, clock_rate = 8000,
     bits_per_sample = 0, zero_pattern = None, pattern_length = 0,
     normal_bitrate = 0, mime_type = Some ''EVRCB0'', channels = 1,
     recv_fmtp = None, send_fmtp = None, pt_flags = 0, user_data = 0\<rparr>"

definition payload_type_h263_1998 :: payload_type where
  "payload_type_h263_1998 = \<lparr>pt_type = PAYLOAD_VIDEO, clock_rate = 90000,
     bits_per_sample = 0, zero_pattern = None, pattern_length = 0,
     normal_bitrate = 256000, mime_type = Some ''H263-1998'', channels = 0,
     recv_fmtp = None, send_fmtp = None, pt_flags = 0, user_data = 0\<rparr>"

definition payload_type_h263_2000 :: payload_type where
  "payload_type_h263_2000 = \<lparr>pt_type = PAYLOAD_VIDEO, clock_rate = 90000,
     bits_per_sample = 0, zero_pattern = None, pattern_length = 0,
     normal_bitrate = 0, mime_type = Some ''H263-2000'', channels = 0,
     recv_fmtp = None, send_fmtp = None, pt_flags = 0, user_data = 0\<rparr>"

definition payload_type_theora :: payload_type where
  "payload_type_theora = \<lparr>pt_type = PAYLOAD_VIDEO, clock_rate = 90000,
     bits_per_sample = 0, zero_pattern = None, pattern_length = 0,
     normal_bitrate = 256000, mime_type = Some ''theora'', channels = 0,
     recv_fmtp = None, send_fmtp = None, pt_flags = 0, user_data = 0\<rparr>"

definition payload_type_h264 :: payload_type where
  "payload_type_h264 = \<lparr>pt_type = PAYLOAD_VIDEO, clock_rate = 90000,
     bits_per_sample = 0, zero_pattern = None, pattern_length = 0,
     normal_bitrate = 256000, mime_type = Some ''H264'', channels = 0,
     recv_fmtp = None, send_fmtp = None, pt_flags = 0, user_data = 0\<rparr>"

definition payload_type_x_snow :: payload_type where
  "payload_type_x_snow = \<lparr>pt_type = PAYLOAD_VIDEO, clock_rate = 90000,
     bits_per_sample = 0, zero_pattern = None, pattern_length = 0,
     normal_bitrate = 256000, mime_type = Some ''x-snow'', channels = 0,
     recv_fmtp = None, send_fmtp = None, pt_flags = 0, user_data = 0\<rparr>"

definition payload_type_jpeg :: payload_type where
  "payload_type_jpeg = \<lparr>pt_type = PAYLOAD_VIDEO, clock_rate = 90000,
     bits_per_sample = 0, zero_pattern = None, pattern_length = 0,
     normal_bitrate = 256000, mime_type = Some ''JPEG'', channels = 0,
     recv_fmtp = None, send_fmtp = None, pt_flags = 0, user_data = 0\<rparr>"

definition payload_type_vp8 :: payload_type where
  "payload_type_vp8 = \<lparr>pt_type = PAYLOAD_VIDEO, clock_rate = 90000,
     bits_per_sample = 0, zero_pattern = None, pattern_length = 0,
     normal_bitrate = 256000, mime_type = Some ''VP8'', channels = 0,
     recv_fmtp = None, send_fmtp = None, pt_flags = 0, user_data = 0\<rparr>"

definition payload_type_t140 :: payload_type where
  "payload_type_t140 = \<lparr>pt_type = PAYLOAD_TEXT, clock_rate = 1000,
     bits_per_sample = 0, zero_pattern = None, pattern_length = 0,
     normal_bitrate = 0, mime_type = Some ''t140'', channels = 0,
     recv_fmtp = None, send_fmtp = None, pt_flags = 0, user_data = 0\<rparr>"

definition payload_type_t140_red :: payload_type where
  "payload_type_t140_red = \<lparr>pt_type = PAYLOAD_TEXT, clock_rate = 1000,
     bits_per_sample = 0, zero_pattern = None, pattern_length = 0,
     normal_bitrate = 0, mime_type = Some ''red'', channels = 0,
     recv_fmtp = None, send_fmtp = None, pt_flags = 0, user_data = 0\<rparr>"

definition payload_type_x_udpftp :: payload_type where
  "payload_type_x_udpftp = \<lparr>pt_type = PAYLOAD_AUDIO_PACKETIZED, clock_rate = 1000,
     bits_per_sample = 0, zero_pattern = None, pattern_length = 0,
     normal_bitrate = 0, mime_type = Some ''x-udpftp'', channels = 0,
     recv_fmtp = None, send_fmtp = None, pt_flags = 0, user_data = 0\<rparr>"

definition payload_type_g722 :: payload_type where
  "payload_type_g722 = \<lparr>pt_type = PAYLOAD_AUDIO_PACKETIZED, clock_rate = 8000,
     bits_per_sample = 0, zero_pattern = None, pattern_length = 0,
     normal_bitrate = 64000, mime_type = Some ''G722'', channels = 1,
     recv_fmtp = None, send_fmtp = None, pt_flags = 0, user_data = 0\<rparr>"

definition payload_type_silk_nb :: payload_type where
  "payload_type_silk_nb = \<lparr>pt_type = PAYLOAD_AUDIO_PACKETIZED, clock_rate = 8000,
     bits_per_sample = 0, zero_pattern = None, pattern_length = 0,
     normal_bitrate = 13000, mime_type = Some ''SILK'', channels = 1,
     recv_fmtp = None, send_fmtp = None, pt_flags = 0, user_data = 0\<rparr>"

definition payload_type_silk_mb :: payload_type where
  "payload_type_silk_mb = \<lparr>pt_type = PAYLOAD_AUDIO_PACKETIZED, clock_rate = 12000,
     bits_per_sample = 0, zero_pattern = None, pattern_length = 0,
     normal_bitrate = 15000, mime_type = Some ''SILK'', channels = 1,
     recv_fmtp = None, send_fmtp = None, pt_flags = 0, user_data = 0\<rparr>"

definition payload_type_silk_wb :: payload_type where
  "payload_type_silk_wb = \<lparr>pt_type = PAYLOAD_AUDIO_PACKETIZED, clock_rate = 16000,
     bits_per_sample = 0, zero_pattern = None, pattern_length = 0,
     normal_bitrate = 20000, mime_type = Some ''SILK'', channels = 1,
     recv_fmtp = None, send_fmtp = None, pt_flags = 0, user_data = 0\<rparr>"

definition payload_type_silk_swb :: payload_type where
  "payload_type_silk_swb = \<lparr>pt_type = PAYLOAD_AUDIO_PACKETIZED, clock_rate = 24000,
     bits_per_sample = 0, zero_pattern = None, pattern_length = 0,
     normal_bitrate = 30000, mime_type = Some ''SILK'', channels = 1,
     recv_fmtp = None, send_fmtp = None, pt_flags = 0, user_data = 0\<rparr>"

definition payload_type_aaceld_22k :: payload_type where
  "payload_type_aaceld_22k = \<lparr>pt_type = PAYLOAD_AUDIO_PACKETIZED, clock_rate = 22050,
     bits_per_sample = 0, zero_pattern = None, pattern_length = 0,
     normal_bitrate = 32000, mime_type = Some ''mpeg4-generic'', channels = 1,
     recv_fmtp = None, send_fmtp = None, pt_flags = 0, user_data = 0\<rparr>"

definition payload_type_aaceld_44k :: payload_type where
  "payload_type_aaceld_44k = \<lparr>pt_type = PAYLOAD_AUDIO_PACKETIZED, clock_rate = 44100,
     bits_per_sample = 0, zero_pattern = None, pattern_length = 0,
     normal_bitrate = 64000, mime_type = Some ''mpeg4-generic'', channels = 1,
     recv_fmtp = None, send_fmtp = None, pt_flags = 0, user_data = 0\<rparr>"

definition payload_type_opus :: payload_type where
  "payload_type_opus = \<lparr>pt_type = PAYLOAD_AUDIO_PACKETIZED, clock_rate = 48000,
     bits_per_sample = 0, zero_pattern = None, pattern_length = 0,
     normal_bitrate = 20000, mime_type = Some ''opus'', channels = 1,
     recv_fmtp = None, send_fmtp = None, pt_flags = 0, user_data = 0\<rparr>"

definition static_payload_types :: "payload_type list" where
  "static_payload_types =
    [payload_type_pcmu8000, payload_type_pcma8000, payload_type_pcm8000,
     payload_type_l16_mono, payload_type_l16_stereo, payload_type_lpc1016,
     payload_type_gsm, payload_type_lpc, payload_type_g7231,
     payload_type_g729, payload_type_g7221, payload_type_g726_40,
     payload_type_g726_32, payload_type_g726_24, payload_type_g726_16,
     payload_type_aal2_g726_40, payload_type_aal2_g726_32, payload_type_aal2_g726_24,
     payload_type_aal2_g726_16, payload_type_mpv, payload_type_h261,
     payload_type_h263, payload_type_truespeech, payload_type_lpc1015,
     payload_type_speex_nb, payload_type_speex_wb, payload_type_speex_uwb,
     payload_type_ilbc, payload_type_amr, payload_type_amrwb,
     payload_type_mp4v, payload_type_evrc0, payload_type_evrcb0,
     payload_type_h263_1998, payload_type_h263_2000, payload_type_theora,
     payload_type_h264, payload_type_x_snow, payload_type_jpeg,
     payload_type_vp8, payload_type_t140, payload_type_t140_red,
     payload_type_x_udpftp, payload_type_g722, payload_type_silk_nb,
     payload_type_silk_mb, payload_type_silk_wb, payload_type_silk_swb,
     payload_type_aaceld_22k, payload_type_aaceld_44k, payload_type_opus]"

definition av_store :: pt_store where
  "av_store = \<lparr>pts = (\<lambda>p. if p < length static_payload_types then Some (static_payload_types ! p) else None),
     pt_next = length static_payload_types\<rparr>"

text \<open>The table \<open>av_profile_init\<close> fills in: payload number, and the position of the static it names.\<close>

definition av_profile_table :: "(int \<times> ptr) list" where
  "av_profile_table =
    [(0, 0), (1, 5), (3, 6), (7, 7), (4, 8), (8, 1), (9, 43), (10, 4), (11, 3), (18, 9), (31, 20), (32, 19), (34, 21)]"

definition av_profile_init :: "rtp_profile \<Rightarrow> rtp_profile" where
  "av_profile_init profile =
     foldl (\<lambda>p (i, a). rtp_profile_set_payload p i (Some a))
       ((rtp_profile_clear_all profile)\<lparr>prof_name := Some ''AV profile''\<rparr>) av_profile_table"


section \<open>Lookups in the profile\<close>

lemma get_payload_foldl_set:
  assumes "profile_ok p" and "\<forall>(i, a) \<in> set tbl. 0 \<le> i \<and> i < 128"
  shows "profile_ok (foldl (\<lambda>p (i, a). rtp_profile_set_payload p i (Some a)) p tbl) \<and>
     rtp_profile_get_payload (foldl (\<lambda>p (i, a). rtp_profile_set_payload p i (Some a)) p tbl) j =
       (case map_of (rev tbl) j of Some a \<Rightarrow> Some a | None \<Rightarrow> rtp_profile_get_payload p j)"
  using assms by (induction tbl rule: rev_induct) (auto simp: get_payload_set)

lemma av_profile_init_get:
  "profile_ok (av_profile_init prof)"
  "rtp_profile_get_payload (av_profile_init prof) j = map_of (rev av_profile_table) j"
proof -
  let ?p = "(rtp_profile_clear_all prof)\<lparr>prof_name := Some ''AV profile''\<rparr>"
  have p: "profile_ok ?p" "rtp_profile_get_payload ?p j = None"
    by (auto simp: profile_ok_def rtp_profile_clear_all_def rtp_profile_get_payload_def
        RTP_PROFILE_MAX_PAYLOADS_def)
  have t: "\<forall>(i, a) \<in> set av_profile_table. 0 \<le> i \<and> i < 128" by (simp add: av_profile_table_def)
  show "profile_ok (av_profile_init prof)"
    "rtp_profile_get_payload (av_profile_init prof) j = map_of (rev av_profile_table) j"
    using get_payload_foldl_set [OF p(1) t, of j] p(2)
    by (auto simp: av_profile_init_def split: option.splits)
qed

lemmas av_static_defs =
  payload_type_pcmu8000_def payload_type_pcma8000_def payload_type_pcm8000_def
  payload_type_l16_mono_def payload_type_l16_stereo_def payload_type_lpc1016_def
  payload_type_gsm_def payload_type_lpc_def payload_type_g7231_def
  payload_type_g729_def payload_type_g7221_def payload_type_g726_40_def
  payload_type_g726_32_def payload_type_g726_24_def payload_type_g726_16_def
  payload_type_aal2_g726_40_def payload_type_aal2_g726_32_def payload_type_aal2_g726_24_def
  payload_type_aal2_g726_16_def payload_type_mpv_def payload_type_h261_def
  payload_type_h263_def payload_type_truespeech_def payload_type_lpc1015_def
  payload_type_speex_nb_def payload_type_speex_wb_def payload_type_speex_uwb_def
  payload_type_ilbc_def payload_type_amr_def payload_type_amrwb_def
  payload_type_mp4v_def payload_type_evrc0_def payload_type_evrcb0_def
  payload_type_h263_1998_def payload_type_h263_2000_def payload_type_theora_def
  payload_type_h264_def payload_type_x_snow_def payload_type_jpeg_def
  payload_type_vp8_def payload_type_t140_def payload_type_t140_red_def
  payload_type_x_udpftp_def payload_type_g722_def payload_type_silk_nb_def
  payload_type_silk_mb_def payload_type_silk_wb_def payload_type_silk_swb_def
  payload_type_aaceld_22k_def payload_type_aaceld_44k_def payload_type_opus_def

lemma av_profile_table_ok:
  "distinct (map fst av_profile_table)"
  "list_all (\<lambda>(i, a). a < length static_payload_types) av_profile_table"
  by (simp_all add: av_profile_table_def static_payload_types_def)

lemma av_static_ok:
  "list_all (\<lambda>pt. rtpmap_fits pt \<and> (case mime_type pt of None \<Rightarrow> False | Some m \<Rightarrow> CHR ''/'' \<notin> set m))
     static_payload_types"
  by (simp add: static_payload_types_def rtpmap_fits_def av_static_defs show_int_def show_nat.simps)

lemma av_profile_entries:
  "map (\<lambda>(i, a). (i, static_payload_types ! a)) av_profile_table =
     [(0, payload_type_pcmu8000), (1, payload_type_lpc1016), (3, payload_type_gsm),
      (7, payload_type_lpc), (4, payload_type_g7231), (8, payload_type_pcma8000),
      (9, payload_type_g722), (10, payload_type_l16_stereo), (11, payload_type_l16_mono),
      (18, payload_type_g729), (31, payload_type_h261), (32, payload_type_mpv),
      (34, payload_type_h263)]"
  by (simp add: av_profile_table_def static_payload_types_def)

lemma av_profile_unambiguous:
  "list_all (\<lambda>(i, p). list_all (\<lambda>(j, q).
      payload_matches (the (mime_type p)) (clock_rate p) (channels p) q \<longrightarrow> i = j)
     (map (\<lambda>(i, a). (i, static_payload_types ! a)) av_profile_table))
     (map (\<lambda>(i, a). (i, static_payload_types ! a)) av_profile_table)"
  unfolding av_profile_entries
  by (simp add: payload_matches_def av_static_defs strcase_eq_def to_lower_def char_of_def)


lemma av_profile_valid: "profile_valid av_store (av_profile_init prof)"
proof -
  have "\<exists>pt. pts av_store p = Some pt \<and> mime_type pt \<noteq> None"
    if p: "Some p \<in> set (payload (av_profile_init prof))" for p
  proof -
    obtain n where n: "n < 128" "payload (av_profile_init prof) ! n = Some p"
      using p av_profile_init_get(1) [of prof] by (auto simp: in_set_conv_nth profile_ok_def)
    then have "rtp_profile_get_payload (av_profile_init prof) (int n) = Some p"
      by (simp add: rtp_profile_get_payload_def RTP_PROFILE_MAX_PAYLOADS_def)
    then have "(int n, p) \<in> set av_profile_table"
      unfolding av_profile_init_get(2) by (auto dest: map_of_SomeD)
    then have "p < length static_payload_types"
      using av_profile_table_ok(2) by (auto simp: list_all_iff)
    then show ?thesis
      using av_static_ok by (auto simp: av_store_def list_all_length split: option.splits)
  qed
  then show ?thesis using av_profile_init_get(1) by (simp add: profile_valid_def)
qed

lemma av_profile_rtpmap:
  assumes a: "(i, a) \<in> set av_profile_table"
  shows "\<exists>s. payload_type_get_rtpmap (static_payload_types ! a) = Some s \<and>
     rtp_profile_get_payload_number_from_rtpmap av_store (av_profile_init prof) s = Some i"
proof -
  let ?prof = "av_profile_init prof" and ?pt = "static_payload_types ! a"
  have len: "b < length static_payload_types" if "(j, b) \<in> set av_profile_table" for j b
    using that av_profile_table_ok(2) by (auto simp: list_all_iff)
  have ent: "entry av_store ?prof j = Some pt \<longleftrightarrow>
      (\<exists>b. (j, b) \<in> set av_profile_table \<and> pt = static_payload_types ! b)" for j pt
  proof -
    have "distinct (map fst (rev av_profile_table))"
      using av_profile_table_ok(1) by (simp add: rev_map [symmetric])
    then have "map_of (rev av_profile_table) j = Some b \<longleftrightarrow> (j, b) \<in> set av_profile_table" for b
      by (metis map_of_eq_Some_iff set_rev)
    then show ?thesis using len by (auto simp: entry_def av_profile_init_get av_store_def)
  qed
  have fits: "rtpmap_fits ?pt \<and> (\<exists>m. mime_type ?pt = Some m \<and> CHR ''/'' \<notin> set m)"
    using av_static_ok len [OF a] by (auto simp: list_all_length split: option.splits)
  then obtain m where m: "mime_type ?pt = Some m" "CHR ''/'' \<notin> set m" by blast
  obtain s r q where r: "payload_type_get_rtpmap ?pt = Some s"
    "rtp_profile_get_payload_number_from_rtpmap av_store ?prof s = Some r"
    "entry av_store ?prof r = Some q" "payload_matches m (clock_rate ?pt) (channels ?pt) q"
    using rtpmap_lookup [OF av_profile_valid _ m] ent a fits by blast
  then obtain b where b: "(r, b) \<in> set av_profile_table" "q = static_payload_types ! b"
    using ent by blast
  have "i = r" using av_profile_unambiguous a b r(4) m(1) by (fastforce simp: list_all_iff)
  then show ?thesis using r by blast
qed


section \<open>Properties\<close>

text \<open>
  In the audio/video profile every static payload type is found at its own number by the
  rtpmap that is printed for it: no two entries can be confused.
\<close>

theorem av_profile_rtpmap_exact:
  "list_all (\<lambda>(i, a). payload_type_get_rtpmap (static_payload_types ! a) \<bind>
      rtp_profile_get_payload_number_from_rtpmap av_store (av_profile_init prof) = Some i)
     av_profile_table"
  using av_profile_rtpmap by (fastforce simp: list_all_iff)

end
