(* ===== verification/Rtp_Session.thy ===== *)
theory Rtp_Session
  imports Netsim Jitter Signal_Tables Session_Set Av_Profile
begin

text \<open>
  The RTP session: its state (\<^verbatim>\<open>oRTP/include/ortp/rtpsession.h\<close>), its creation,
  settings and resets, and the conversions between timestamps and time
  (\<^verbatim>\<open>oRTP/src/rtpsession.c\<close>, \<^verbatim>\<open>oRTP/src/jitterctl.c\<close>).

  A session is a record with the fields of \<^verbatim>\<open>RtpSession\<close>,
  \<^verbatim>\<open>RtpStream\<close> and \<^verbatim>\<open>RtcpStream\<close>; its packet queues are lists of
  packets (the theory \<open>Rtp_Queue\<close> connects them to the heap). What a session shares with the
  rest of the program is the environment: payload types and profiles, the scheduler, the global
  statistics, the clock, the sockets, the event queues and the callbacks made. Callbacks are
  recorded, not run: what the application does in them is outside the model.
\<close>

section \<open>Constants\<close>

definition RTP_SESSION_RECV_SYNC :: u32 where "RTP_SESSION_RECV_SYNC = 1"
definition RTP_SESSION_FIRST_PACKET_DELIVERED :: u32 where "RTP_SESSION_FIRST_PACKET_DELIVERED = 2"
definition RTP_SESSION_SCHEDULED :: u32 where "RTP_SESSION_SCHEDULED = 4"
definition RTP_SESSION_BLOCKING_MODE :: u32 where "RTP_SESSION_BLOCKING_MODE = 8"
definition RTP_SESSION_RECV_NOT_STARTED :: u32 where "RTP_SESSION_RECV_NOT_STARTED = 16"
definition RTP_SESSION_SEND_NOT_STARTED :: u32 where "RTP_SESSION_SEND_NOT_STARTED = 32"
definition RTP_SESSION_IN_SCHEDULER :: u32 where "RTP_SESSION_IN_SCHEDULER = 64"
definition RTP_SESSION_USING_EXT_SOCKETS :: u32 where "RTP_SESSION_USING_EXT_SOCKETS = 128"
definition RTP_SOCKET_CONNECTED :: u32 where "RTP_SOCKET_CONNECTED = 256"
definition RTCP_SOCKET_CONNECTED :: u32 where "RTCP_SOCKET_CONNECTED = 512"
definition RTP_SESSION_USING_TRANSPORT :: u32 where "RTP_SESSION_USING_TRANSPORT = 1024"
definition RTCP_OVERRIDE_LOST_PACKETS :: u32 where   \<comment> \<open>the code writes \<^verbatim>\<open>1<11\<close>\<close>
  "RTCP_OVERRIDE_LOST_PACKETS = (if (1::int) < 11 then 1 else 0)"
definition RTCP_OVERRIDE_JITTER :: u32 where "RTCP_OVERRIDE_JITTER = 4096"
definition RTCP_OVERRIDE_DELAY :: u32 where "RTCP_OVERRIDE_DELAY = 8192"

lemmas flag_defs = RTP_SESSION_RECV_SYNC_def RTP_SESSION_FIRST_PACKET_DELIVERED_def
  RTP_SESSION_SCHEDULED_def RTP_SESSION_BLOCKING_MODE_def RTP_SESSION_RECV_NOT_STARTED_def
  RTP_SESSION_SEND_NOT_STARTED_def RTP_SESSION_IN_SCHEDULER_def RTP_SESSION_USING_EXT_SOCKETS_def
  RTP_SOCKET_CONNECTED_def RTCP_SOCKET_CONNECTED_def RTP_SESSION_USING_TRANSPORT_def
  RTCP_OVERRIDE_LOST_PACKETS_def RTCP_OVERRIDE_JITTER_def RTCP_OVERRIDE_DELAY_def

definition UDP_MAX_SIZE :: int where "UDP_MAX_SIZE = 1500"
definition RTP_DEFAULT_JITTER_TIME :: int where "RTP_DEFAULT_JITTER_TIME = 80"
definition RTP_DEFAULT_MULTICAST_TTL :: int where "RTP_DEFAULT_MULTICAST_TTL = 5"
definition RTP_DEFAULT_MULTICAST_LOOPBACK :: int where "RTP_DEFAULT_MULTICAST_LOOPBACK = 0"
definition RTP_DEFAULT_DSCP :: int where "RTP_DEFAULT_DSCP = 0"
definition RTCP_DEFAULT_REPORT_INTERVAL :: int where "RTCP_DEFAULT_REPORT_INTERVAL = 5000"

datatype session_mode = RTP_SESSION_RECVONLY | RTP_SESSION_SENDONLY | RTP_SESSION_SENDRECV

datatype signal_id =
    On_ssrc_changed | On_payload_type_changed | On_telephone_event | On_telephone_event_packet
  | On_timestamp_jump | On_network_error | On_rtcp_bye

section \<open>State\<close>

record rtp_stats =
  packet_sent :: u64
  st_sent :: u64
  st_recv :: u64
  hw_recv :: u64
  packet_recv :: u64
  outoftime :: u64
  cum_packet_loss :: u64
  st_bad :: u64
  st_discarded :: u64
  sent_rtcp_packets :: u64

definition rtp_stats_zero :: rtp_stats where
  "rtp_stats_zero = \<lparr>packet_sent = 0, st_sent = 0, st_recv = 0, hw_recv = 0, packet_recv = 0,
     outoftime = 0, cum_packet_loss = 0, st_bad = 0, st_discarded = 0, sent_rtcp_packets = 0\<rparr>"

record jitter_stats =
  js_jitter :: u32
  js_max_jitter :: u32
  js_sum_jitter :: u64
  js_max_jitter_ts :: u64
  js_buffer_size_ms :: rat

record wait_point =
  wp_time :: u32
  wp_wakeup :: bool

text \<open>One direction of the session: \<^verbatim>\<open>snd\<close> or \<^verbatim>\<open>rcv\<close>.\<close>

record sess_dir =
  d_profile :: ptr
  d_pt :: int
  d_ssrc :: u32
  d_wp :: wait_point
  d_tev_pt :: int

record rtp_stream =
  rs_socket :: int
  rs_ipv6 :: bool
  rs_tr :: bool                       \<comment> \<open>an \<^verbatim>\<open>RtpTransport\<close> is set\<close>
  max_rq_size :: int
  time_jump :: int
  ts_jump :: u32
  rq :: "packet list"
  tev_rq :: "packet list"
  rs_rem_addr :: nat
  jittctl :: jitter_control
  snd_time_offset :: u32
  snd_ts_offset :: u32
  snd_rand_offset :: u32
  snd_last_ts :: u32
  rcv_time_offset :: u32
  rcv_ts_offset :: u32
  rcv_query_ts_offset :: u32
  rcv_last_ts :: u32
  rcv_last_app_ts :: u32
  rcv_last_ret_ts :: u32
  hwrcv_extseq :: u32
  hwrcv_seq_at_last_SR :: u32
  hwrcv_since_last_SR :: u32
  last_rcv_SR_ts :: u32
  last_rcv_SR_time :: timeval
  snd_seq :: u16
  last_rtcp_packet_count :: u32
  sent_payload_bytes :: u32
  sent_bytes :: u32
  send_bw_start :: timeval
  recv_bytes :: u32
  recv_bw_start :: timeval
  stats :: rtp_stats
  recv_errno :: int
  send_errno :: int
  snd_socket_size :: int
  rcv_socket_size :: int
  ssrc_changed_thres :: int
  jstats :: jitter_stats

record rtcp_stream =
  cs_socket :: int
  cs_tr :: bool
  cs_rem_addr :: nat
  cs_rem_addrlen :: int
  cs_interval :: int
  last_rtcp_report_snt_r :: u32
  last_rtcp_report_snt_s :: u32
  rtcp_report_snt_interval_r :: u32
  rtcp_report_snt_interval_s :: u32
  cs_enabled :: bool

record rtp_session =
  s_next :: "ptr option"
  mask_pos :: int
  snd_dir :: sess_dir
  rcv_dir :: sess_dir
  inc_ssrc_candidate :: u32
  inc_same_ssrc_count :: int
  hw_recv_pt :: int
  recv_buf_size :: int
  signals :: "signal_id \<Rightarrow> rtp_signal_table"
  signal_tables :: "signal_id list"
  eventqs :: "nat list"
  rtp :: rtp_stream
  rtcp :: rtcp_stream
  s_mode :: session_mode
  s_sched :: bool                     \<comment> \<open>\<^verbatim>\<open>session->sched\<close> is set\<close>
  s_flags :: u32
  dscp :: int
  multicast_ttl :: int
  multicast_loopback :: int
  s_user_data :: nat
  last_recv_time :: timeval
  s_pending :: "u8 list option"
  current_tev :: "packet option"
  s_sd :: "u8 list option"            \<comment> \<open>the source description chunk\<close>
  contributing_sources :: "u8 list list"
  lost_packets_test_vector :: u32
  interarrival_jitter_test_vector :: u32
  delay_test_vector :: u32
  s_rtt :: rat
  net_sim :: "sim_ctx option"
  symmetric_rtp :: bool
  permissive :: bool
  use_connect :: bool
  ssrc_set :: bool
  reuseaddr :: bool

record ort_event =
  ev_type :: nat
  ev_packet :: "u8 list"
  ev_addr :: nat
  ev_info :: int

datatype rx = Datagram "u8 list" nat | Would_block | Rx_error int

text \<open>The environment. \<open>io_send\<close> is the result of the next send calls, in order.\<close>

record ort_env =
  env_pts :: pt_store
  env_profiles :: "ptr \<rightharpoonup> rtp_profile"
  env_sched :: "rtp_scheduler option"
  gstats :: rtp_stats
  now :: timeval
  env_random :: u32
  env_rands :: "int list"              \<comment> \<open>the next results of \<^verbatim>\<open>rand\<close>\<close>
  connect_ok :: bool                   \<comment> \<open>whether \<^verbatim>\<open>connect\<close> succeeds\<close>
  calls :: "signal_call list"          \<comment> \<open>callbacks made, oldest first\<close>
  ev_queues :: "nat \<Rightarrow> ort_event list"
  rtp_in :: "rx list"
  rtcp_in :: "rx list"
  io_send :: "int list"
  rtp_out :: "u8 list list"
  rtcp_out :: "u8 list list"

section \<open>Updates\<close>

definition upd_rtp :: "(rtp_stream \<Rightarrow> rtp_stream) \<Rightarrow> rtp_session \<Rightarrow> rtp_session" where
  "upd_rtp f s = s\<lparr>rtp := f (rtp s)\<rparr>"

definition upd_rtcp :: "(rtcp_stream \<Rightarrow> rtcp_stream) \<Rightarrow> rtp_session \<Rightarrow> rtp_session" where
  "upd_rtcp f s = s\<lparr>rtcp := f (rtcp s)\<rparr>"

definition upd_stats :: "(rtp_stats \<Rightarrow> rtp_stats) \<Rightarrow> rtp_session \<Rightarrow> rtp_session" where
  "upd_stats f = upd_rtp (\<lambda>r. r\<lparr>stats := f (stats r)\<rparr>)"

definition upd_gstats :: "(rtp_stats \<Rightarrow> rtp_stats) \<Rightarrow> ort_env \<Rightarrow> ort_env" where
  "upd_gstats f e = e\<lparr>gstats := f (gstats e)\<rparr>"

definition rtp_session_set_flag :: "u32 \<Rightarrow> rtp_session \<Rightarrow> rtp_session" where
  "rtp_session_set_flag flag s = s\<lparr>s_flags := s_flags s OR flag\<rparr>"

definition rtp_session_unset_flag :: "u32 \<Rightarrow> rtp_session \<Rightarrow> rtp_session" where
  "rtp_session_unset_flag flag s = s\<lparr>s_flags := s_flags s AND NOT flag\<rparr>"

definition has_flag :: "rtp_session \<Rightarrow> u32 \<Rightarrow> bool" where
  "has_flag s flag \<longleftrightarrow> s_flags s AND flag \<noteq> 0"

lemma has_flag_simps [simp]:
  "has_flag (upd_rtp f s) fl = has_flag s fl" "has_flag (upd_rtcp g s) fl = has_flag s fl"
  "has_flag (upd_stats h s) fl = has_flag s fl"
  by (simp_all add: has_flag_def upd_rtp_def upd_rtcp_def upd_stats_def)

text \<open>The payload type a profile has at a number: a dangling pointer is \<open>None\<close>.\<close>

definition profile_payload :: "ort_env \<Rightarrow> ptr \<Rightarrow> int \<Rightarrow> payload_type option option" where
  "profile_payload e prof pt = do {
     p \<leftarrow> env_profiles e prof;
     case rtp_profile_get_payload p pt of
       None \<Rightarrow> Some None
     | Some q \<Rightarrow> do { t \<leftarrow> pts (env_pts e) q; Some (Some t) } }"

text \<open>Emission of a signal of the session.\<close>

definition emit_signal :: "signal_id \<Rightarrow> nat list \<Rightarrow> rtp_session \<Rightarrow> ort_env \<Rightarrow> ort_env option" where
  "emit_signal sid args s e = do {
     cs \<leftarrow> (case args of
         [] \<Rightarrow> rtp_signal_table_emit (signals s sid)
       | [a] \<Rightarrow> rtp_signal_table_emit2 (signals s sid) a
       | a # b # _ \<Rightarrow> rtp_signal_table_emit3 (signals s sid) a b);
     Some (e\<lparr>calls := calls e @ cs\<rparr>) }"

text \<open>\<^verbatim>\<open>rtp_session_dispatch_event\<close>: a copy to every registered queue.\<close>

primrec dispatch_loop :: "nat list \<Rightarrow> ort_event \<Rightarrow> (nat \<Rightarrow> ort_event list) \<Rightarrow> nat \<Rightarrow> ort_event list" where
  "dispatch_loop [] ev qs = qs"
| "dispatch_loop (q # rest) ev qs = dispatch_loop rest ev (qs(q := qs q @ [ev]))"

definition rtp_session_dispatch_event :: "rtp_session \<Rightarrow> ort_event \<Rightarrow> ort_env \<Rightarrow> ort_env" where
  "rtp_session_dispatch_event s ev e = e\<lparr>ev_queues := dispatch_loop (eventqs s) ev (ev_queues e)\<rparr>"

definition rtp_session_register_event_queue :: "rtp_session \<Rightarrow> nat \<Rightarrow> rtp_session" where
  "rtp_session_register_event_queue s q = s\<lparr>eventqs := eventqs s @ [q]\<rparr>"

definition rtp_session_unregister_event_queue :: "rtp_session \<Rightarrow> nat \<Rightarrow> rtp_session" where
  "rtp_session_unregister_event_queue s q = s\<lparr>eventqs := remove1 q (eventqs s)\<rparr>"


section \<open>Time and timestamps\<close>

text \<open>
  A conversion of a negative value to \<^verbatim>\<open>uint32_t\<close> is undefined in C and keeps
  the low bits here; a clock rate of 0 would divide by zero and gives 0.
\<close>

definition rtp_session_time_to_ts :: "ort_env \<Rightarrow> rtp_session \<Rightarrow> int \<Rightarrow> u32 option" where
  "rtp_session_time_to_ts e s millisecs = do {
     p \<leftarrow> profile_payload e (d_profile (snd_dir s)) (d_pt (snd_dir s));
     Some (case p of None \<Rightarrow> 0
       | Some pt \<Rightarrow> of_int (trunc (to_double (of_int (clock_rate pt) *
           to_float (to_float (of_int millisecs) / 1000))))) }"

definition rtp_session_ts_to_time :: "ort_env \<Rightarrow> rtp_session \<Rightarrow> u32 \<Rightarrow> u32 option" where
  "rtp_session_ts_to_time e s timestamp = do {
     p \<leftarrow> profile_payload e (d_profile (snd_dir s)) (d_pt (snd_dir s));
     Some (case p of None \<Rightarrow> 0
       | Some pt \<Rightarrow> of_int (trunc (to_double (1000 *
           to_double (of_int (uint timestamp) / of_int (clock_rate pt)))))) }"

definition rtp_session_get_current_send_ts :: "ort_env \<Rightarrow> rtp_session \<Rightarrow> u32 option" where
  "rtp_session_get_current_send_ts e s = do {
     p \<leftarrow> profile_payload e (d_profile (snd_dir s)) (d_pt (snd_dir s));
     case p of None \<Rightarrow> Some 0
     | Some pt \<Rightarrow>
         if \<not> has_flag s RTP_SESSION_SCHEDULED then Some 0
         else do {
           sched \<leftarrow> env_sched e;
           let session_time = sched_time sched - snd_time_offset (rtp s);
           Some (of_int (trunc (to_double (to_double (of_int (uint session_time) * of_int (clock_rate pt)) / 1000)))
                 + snd_ts_offset (rtp s)) } }"

definition rtp_session_get_current_recv_ts :: "ort_env \<Rightarrow> rtp_session \<Rightarrow> u32 option" where
  "rtp_session_get_current_recv_ts e s = do {
     p \<leftarrow> profile_payload e (d_profile (rcv_dir s)) (d_pt (rcv_dir s));
     case p of None \<Rightarrow> Some 0
     | Some pt \<Rightarrow>
         if \<not> has_flag s RTP_SESSION_SCHEDULED then Some 0
         else do {
           sched \<leftarrow> env_sched e;
           let session_time = sched_time sched - rcv_time_offset (rtp s);
           Some (of_int (trunc (to_double (to_double (of_int (uint session_time) * of_int (clock_rate pt)) / 1000)))
                 + rcv_ts_offset (rtp s)) } }"

definition rtp_session_set_time_jump_limit :: "ort_env \<Rightarrow> int \<Rightarrow> rtp_session \<Rightarrow> rtp_session option" where
  "rtp_session_set_time_jump_limit e milisecs s = do {
     let s1 = upd_rtp (\<lambda>r. r\<lparr>time_jump := milisecs\<rparr>) s;
     ts \<leftarrow> rtp_session_time_to_ts e s1 milisecs;
     Some (upd_rtp (\<lambda>r. r\<lparr>ts_jump := (if ts = 0 then 0x80000000 else ts)\<rparr>) s1) }"

definition rtp_session_make_time_distorsion :: "rtp_session \<Rightarrow> int \<Rightarrow> rtp_session" where
  "rtp_session_make_time_distorsion s milisec =
     upd_rtp (\<lambda>r. r\<lparr>snd_time_offset := snd_time_offset r + of_int milisec\<rparr>) s"

section \<open>Wait points\<close>

definition wait_point_init :: wait_point where
  "wait_point_init = \<lparr>wp_time = 0, wp_wakeup = False\<rparr>"

text \<open>Sleeping until the wakeup is left to the scheduler thread and changes nothing here.\<close>

definition wait_point_wakeup_at :: "u32 \<Rightarrow> wait_point" where
  "wait_point_wakeup_at t = \<lparr>wp_time = t, wp_wakeup = True\<rparr>"

definition wait_point_check :: "wait_point \<Rightarrow> u32 \<Rightarrow> bool \<times> wait_point" where
  "wait_point_check wp t =
     (if wp_wakeup wp \<and> RTP_TIMESTAMP_IS_NEWER_THAN t (wp_time wp)
      then (True, wp\<lparr>wp_wakeup := False\<rparr>) else (False, wp))"

text \<open>\<^verbatim>\<open>rtp_session_process\<close>, the scheduler's visit of a session.\<close>

definition rtp_session_process ::
  "rtp_session \<Rightarrow> u32 \<Rightarrow> rtp_scheduler \<Rightarrow> (rtp_session \<times> rtp_scheduler) option" where
  "rtp_session_process s time sched = do {
     let (ok1, wp1) = wait_point_check (d_wp (snd_dir s)) time;
     let s1 = s\<lparr>snd_dir := (snd_dir s)\<lparr>d_wp := wp1\<rparr>\<rparr>;
     ws \<leftarrow> (if ok1 then fd_set (mask_pos s) (w_sessions sched) else Some (w_sessions sched));
     let (ok2, wp2) = wait_point_check (d_wp (rcv_dir s1)) time;
     let s2 = s1\<lparr>rcv_dir := (rcv_dir s1)\<lparr>d_wp := wp2\<rparr>\<rparr>;
     rs \<leftarrow> (if ok2 then fd_set (mask_pos s) (r_sessions sched) else Some (r_sessions sched));
     Some (s2, sched\<lparr>w_sessions := ws, r_sessions := rs\<rparr>) }"

section \<open>Payload types of the session\<close>

definition rtp_session_set_rtcp_report_interval :: "ort_env \<Rightarrow> int \<Rightarrow> rtp_session \<Rightarrow> rtp_session option" where
  "rtp_session_set_rtcp_report_interval e value_ms s = do {
     let recvpt = d_pt (rcv_dir s);
     let sendpt = d_pt (snd_dir s);
     rp \<leftarrow> (if recvpt \<noteq> -1 then profile_payload e (d_profile (rcv_dir s)) recvpt else Some None);
     let s1 = (case rp of None \<Rightarrow> s
       | Some pt \<Rightarrow> upd_rtcp (\<lambda>c. c\<lparr>rtcp_report_snt_interval_r :=
           of_int (c_div (value_ms * clock_rate pt) 1000)\<rparr>) s);
     sp \<leftarrow> (if sendpt \<noteq> -1 then profile_payload e (d_profile (snd_dir s)) sendpt else Some None);
     let s2 = (case sp of None \<Rightarrow> s1
       | Some pt \<Rightarrow> upd_rtcp (\<lambda>c. c\<lparr>rtcp_report_snt_interval_s :=
           of_int (c_div (value_ms * clock_rate pt) 1000)\<rparr>) s1);
     Some (upd_rtcp (\<lambda>c. c\<lparr>cs_interval := value_ms\<rparr>) s2) }"

definition payload_type_changed :: "ort_env \<Rightarrow> payload_type \<Rightarrow> rtp_session \<Rightarrow> rtp_session option" where
  "payload_type_changed e pt s = do {
     let s1 = upd_rtp (\<lambda>r. r\<lparr>jittctl := jitter_control_set_payload (jittctl r) pt\<rparr>) s;
     s2 \<leftarrow> rtp_session_set_time_jump_limit e (time_jump (rtp s1)) s1;
     s3 \<leftarrow> rtp_session_set_rtcp_report_interval e (cs_interval (rtcp s2)) s2;
     Some (s3\<lparr>permissive := (pt_type pt = PAYLOAD_VIDEO)\<rparr>) }"

definition rtp_session_update_payload_type :: "ort_env \<Rightarrow> int \<Rightarrow> rtp_session \<Rightarrow> rtp_session option" where
  "rtp_session_update_payload_type e paytype s = do {
     p \<leftarrow> profile_payload e (d_profile (rcv_dir s)) paytype;
     case p of
       Some pt \<Rightarrow> payload_type_changed e pt (s\<lparr>hw_recv_pt := paytype\<rparr>)
     | None \<Rightarrow> Some s }"

definition rtp_session_set_send_payload_type :: "int \<Rightarrow> rtp_session \<Rightarrow> int \<times> rtp_session" where
  "rtp_session_set_send_payload_type paytype s = (0, s\<lparr>snd_dir := (snd_dir s)\<lparr>d_pt := paytype\<rparr>\<rparr>)"

definition rtp_session_set_recv_payload_type ::
  "ort_env \<Rightarrow> int \<Rightarrow> rtp_session \<Rightarrow> (int \<times> rtp_session) option" where
  "rtp_session_set_recv_payload_type e paytype s = do {
     let s1 = s\<lparr>rcv_dir := (rcv_dir s)\<lparr>d_pt := paytype\<rparr>, hw_recv_pt := paytype\<rparr>;
     p \<leftarrow> profile_payload e (d_profile (rcv_dir s1)) paytype;
     s2 \<leftarrow> (case p of Some pt \<Rightarrow> payload_type_changed e pt s1 | None \<Rightarrow> Some s1);
     Some (0, s2) }"

definition rtp_session_set_payload_type ::
  "ort_env \<Rightarrow> int \<Rightarrow> rtp_session \<Rightarrow> (int \<times> rtp_session) option" where
  "rtp_session_set_payload_type e pt s =
     (let (r, s1) = rtp_session_set_send_payload_type pt s in
      if r < 0 then Some (-1, s1)
      else do {
        (r2, s2) \<leftarrow> rtp_session_set_recv_payload_type e pt s1;
        if r2 < 0 then Some (-1, s2) else Some (0, s2) })"

definition payload_type_changed_notify ::
  "int \<Rightarrow> rtp_session \<Rightarrow> ort_env \<Rightarrow> (rtp_session \<times> ort_env) option" where
  "payload_type_changed_notify paytype s e = do {
     p \<leftarrow> profile_payload e (d_profile (rcv_dir s)) paytype;
     case p of
       Some _ \<Rightarrow> do {
         let s1 = s\<lparr>rcv_dir := (rcv_dir s)\<lparr>d_pt := paytype\<rparr>\<rparr>;
         e1 \<leftarrow> emit_signal On_payload_type_changed [] s1 e;
         Some (s1, e1) }
     | None \<Rightarrow> Some (s, e) }"

section \<open>Profiles and telephone events\<close>

definition profile_number_from_mime :: "ort_env \<Rightarrow> ptr \<Rightarrow> string \<Rightarrow> int option" where
  "profile_number_from_mime e prof mime = do {
     p \<leftarrow> env_profiles e prof;
     rtp_profile_get_payload_number_from_mime (env_pts e) p mime }"

definition rtp_session_send_telephone_events_supported ::
  "ort_env \<Rightarrow> rtp_session \<Rightarrow> (int \<times> rtp_session) option" where
  "rtp_session_send_telephone_events_supported e s = do {
     n \<leftarrow> profile_number_from_mime e (d_profile (snd_dir s)) ''telephone-event'';
     let s1 = s\<lparr>snd_dir := (snd_dir s)\<lparr>d_tev_pt := n\<rparr>\<rparr>;
     Some (d_tev_pt (snd_dir s1), s1) }"

definition rtp_session_recv_telephone_events_supported ::
  "ort_env \<Rightarrow> rtp_session \<Rightarrow> (int \<times> rtp_session) option" where
  "rtp_session_recv_telephone_events_supported e s = do {
     n \<leftarrow> profile_number_from_mime e (d_profile (rcv_dir s)) ''telephone-event'';
     let s1 = s\<lparr>rcv_dir := (rcv_dir s)\<lparr>d_tev_pt := n\<rparr>\<rparr>;
     Some (d_tev_pt (snd_dir s1), s1) }"

definition rtp_session_telephone_events_supported ::
  "ort_env \<Rightarrow> rtp_session \<Rightarrow> (int \<times> rtp_session) option" where
  "rtp_session_telephone_events_supported e s = do {
     n \<leftarrow> profile_number_from_mime e (d_profile (snd_dir s)) ''telephone-event'';
     m \<leftarrow> profile_number_from_mime e (d_profile (rcv_dir s)) ''telephone-event'';
     let s1 = s\<lparr>snd_dir := (snd_dir s)\<lparr>d_tev_pt := n\<rparr>, rcv_dir := (rcv_dir s)\<lparr>d_tev_pt := m\<rparr>\<rparr>;
     Some (d_tev_pt (snd_dir s1), s1) }"

definition rtp_session_set_profile :: "ort_env \<Rightarrow> ptr \<Rightarrow> rtp_session \<Rightarrow> rtp_session option" where
  "rtp_session_set_profile e prof s =
     map_option snd (rtp_session_telephone_events_supported e
       (s\<lparr>snd_dir := (snd_dir s)\<lparr>d_profile := prof\<rparr>, rcv_dir := (rcv_dir s)\<lparr>d_profile := prof\<rparr>\<rparr>))"

definition rtp_session_set_send_profile :: "ort_env \<Rightarrow> ptr \<Rightarrow> rtp_session \<Rightarrow> rtp_session option" where
  "rtp_session_set_send_profile e prof s =
     map_option snd (rtp_session_send_telephone_events_supported e
       (s\<lparr>snd_dir := (snd_dir s)\<lparr>d_profile := prof\<rparr>\<rparr>))"

definition rtp_session_set_recv_profile :: "ort_env \<Rightarrow> ptr \<Rightarrow> rtp_session \<Rightarrow> rtp_session option" where
  "rtp_session_set_recv_profile e prof s =
     map_option snd (rtp_session_recv_telephone_events_supported e
       (s\<lparr>rcv_dir := (rcv_dir s)\<lparr>d_profile := prof\<rparr>\<rparr>))"

end
