(* ===== verification/Rtcp_Parse.thy ===== *)
theory Rtcp_Parse
  imports Rtp_Packet
begin

text \<open>
  Reading RTCP packets, \<^verbatim>\<open>oRTP/src/rtcpparse.c\<close> and the accessor macros of
  \<^verbatim>\<open>oRTP/include/ortp/rtcp.h\<close>. A message is the bytes of the received datagram and
  the offset of its read pointer; the buffer is aligned to 4 bytes. A read past the datagram is
  \<open>None\<close>, a \<^verbatim>\<open>NULL\<close> result is an inner \<open>None\<close>, and a returned pointer is
  an offset.
\<close>

record rtcp_msg =
  rm_data :: "u8 list"
  rm_pos :: nat

definition RTCP_SR :: int where "RTCP_SR = 200"
definition RTCP_RR :: int where "RTCP_RR = 201"
definition RTCP_SDES :: int where "RTCP_SDES = 202"
definition RTCP_BYE :: int where "RTCP_BYE = 203"
definition RTCP_APP :: int where "RTCP_APP = 204"

definition rd8 :: "u8 list \<Rightarrow> nat \<Rightarrow> u8 option" where
  "rd8 bs i = (if i < length bs then Some (bs ! i) else None)"

definition rd16 :: "u8 list \<Rightarrow> nat \<Rightarrow> u16 option" where
  "rd16 bs i = (if i + 2 \<le> length bs then Some (be16 (sub i 2 bs)) else None)"

definition rd32 :: "u8 list \<Rightarrow> nat \<Rightarrow> u32 option" where
  "rd32 bs i = (if i + 4 \<le> length bs then Some (be32 (sub i 4 bs)) else None)"

text \<open>The common header at offset \<open>i\<close>: version, report count, packet type, length in words - 1.\<close>

definition rtcp_common_header_get_version :: "u8 list \<Rightarrow> nat \<Rightarrow> int option" where
  "rtcp_common_header_get_version bs i = map_option (\<lambda>b. uint (drop_bit 6 b)) (rd8 bs i)"

definition rtcp_common_header_get_rc :: "u8 list \<Rightarrow> nat \<Rightarrow> int option" where
  "rtcp_common_header_get_rc bs i = map_option (\<lambda>b. uint (b AND 0x1F)) (rd8 bs i)"

definition rtcp_common_header_get_packet_type :: "u8 list \<Rightarrow> nat \<Rightarrow> int option" where
  "rtcp_common_header_get_packet_type bs i = map_option uint (rd8 bs (i + 1))"

definition rtcp_common_header_get_length :: "u8 list \<Rightarrow> nat \<Rightarrow> int option" where
  "rtcp_common_header_get_length bs i = map_option uint (rd16 bs (i + 2))"

definition rm_size :: "rtcp_msg \<Rightarrow> int" where
  "rm_size m = int (length (rm_data m)) - int (rm_pos m)"

text \<open>\<^verbatim>\<open>NULL\<close> for a packet shorter than the common header, else its offset.\<close>

definition rtcp_get_common_header :: "rtcp_msg \<Rightarrow> nat option" where
  "rtcp_get_common_header m = (if rm_size m < 4 then None else Some (rm_pos m))"

definition rtcp_get_size :: "rtcp_msg \<Rightarrow> int option" where
  "rtcp_get_size m = (case rtcp_get_common_header m of
      None \<Rightarrow> Some (-1)
    | Some ch \<Rightarrow> do {
        l \<leftarrow> rtcp_common_header_get_length (rm_data m) ch;
        Some ((1 + l) * 4) })"

definition rtcp_next_packet :: "rtcp_msg \<Rightarrow> (bool \<times> rtcp_msg) option" where
  "rtcp_next_packet m = do {
     nextlen \<leftarrow> rtcp_get_size m;
     if nextlen \<ge> 0 \<and> int (rm_pos m) + nextlen < int (length (rm_data m))
     then Some (True, m\<lparr>rm_pos := rm_pos m + nat nextlen\<rparr>)
     else Some (False, m) }"

definition rtcp_rewind :: "rtcp_msg \<Rightarrow> rtcp_msg" where
  "rtcp_rewind m = m\<lparr>rm_pos := 0\<rparr>"

text \<open>The test the \<^verbatim>\<open>rtcp_is_\<close> functions share, with the size they require.\<close>

definition rtcp_is :: "int \<Rightarrow> (rtcp_msg \<Rightarrow> bool option) \<Rightarrow> rtcp_msg \<Rightarrow> bool option" where
  "rtcp_is ty size_ok m = (case rtcp_get_common_header m of
      None \<Rightarrow> Some False
    | Some ch \<Rightarrow> do {
        t \<leftarrow> rtcp_common_header_get_packet_type (rm_data m) ch;
        if t = ty then size_ok m else Some False })"

definition rtcp_is_SR :: "rtcp_msg \<Rightarrow> bool option" where
  "rtcp_is_SR = rtcp_is RTCP_SR (\<lambda>m. Some (rm_size m \<ge> 28))"

definition rtcp_is_RR :: "rtcp_msg \<Rightarrow> bool option" where
  "rtcp_is_RR = rtcp_is RTCP_RR (\<lambda>m. Some (rm_size m \<ge> 32))"

definition rtcp_is_SDES :: "rtcp_msg \<Rightarrow> bool option" where
  "rtcp_is_SDES = rtcp_is RTCP_SDES (\<lambda>m. do { n \<leftarrow> rtcp_get_size m; Some (rm_size m \<ge> n) })"

definition rtcp_is_BYE :: "rtcp_msg \<Rightarrow> bool option" where
  "rtcp_is_BYE = rtcp_is RTCP_BYE (\<lambda>m. do { n \<leftarrow> rtcp_get_size m; Some (rm_size m \<ge> n) })"

definition rtcp_is_APP :: "rtcp_msg \<Rightarrow> bool option" where
  "rtcp_is_APP = rtcp_is RTCP_APP (\<lambda>m. do {
     n \<leftarrow> rtcp_get_size m; Some (rm_size m \<ge> n \<and> \<not> n < 12) })"

section \<open>Reports\<close>

definition rtcp_SR_get_ssrc :: "rtcp_msg \<Rightarrow> u32 option" where
  "rtcp_SR_get_ssrc m = rd32 (rm_data m) (rm_pos m + 4)"

definition rtcp_RR_get_ssrc :: "rtcp_msg \<Rightarrow> u32 option" where
  "rtcp_RR_get_ssrc m = rd32 (rm_data m) (rm_pos m + 4)"

text \<open>The sender information starts at the returned offset.\<close>

definition rtcp_SR_get_sender_info :: "rtcp_msg \<Rightarrow> nat" where
  "rtcp_SR_get_sender_info m = rm_pos m + 8"

text \<open>
  Report block \<open>idx\<close>. The test is against the length the header gives, not against the
  datagram.
\<close>

definition rtcp_SR_get_report_block :: "rtcp_msg \<Rightarrow> nat \<Rightarrow> nat option option" where
  "rtcp_SR_get_report_block m idx = do {
     n \<leftarrow> rtcp_get_size m;
     if int (28 + 24 * idx + 24) \<le> n then Some (Some (rm_pos m + 28 + 24 * idx)) else Some None }"

definition rtcp_RR_get_report_block :: "rtcp_msg \<Rightarrow> nat \<Rightarrow> nat option option" where
  "rtcp_RR_get_report_block m idx = do {
     n \<leftarrow> rtcp_get_size m;
     if int (8 + 24 * idx + 24) \<le> n then Some (Some (rm_pos m + 8 + 24 * idx)) else Some None }"

definition report_block_get_ssrc :: "u8 list \<Rightarrow> nat \<Rightarrow> u32 option" where
  "report_block_get_ssrc bs rb = rd32 bs rb"

definition report_block_get_fraction_lost :: "u8 list \<Rightarrow> nat \<Rightarrow> u32 option" where
  "report_block_get_fraction_lost bs rb = map_option (drop_bit 24) (rd32 bs (rb + 4))"

definition report_block_get_cum_packet_loss :: "u8 list \<Rightarrow> nat \<Rightarrow> u32 option" where
  "report_block_get_cum_packet_loss bs rb = map_option (\<lambda>w. w AND 0xFFFFFF) (rd32 bs (rb + 4))"

definition report_block_get_high_ext_seq :: "u8 list \<Rightarrow> nat \<Rightarrow> u32 option" where
  "report_block_get_high_ext_seq bs rb = rd32 bs (rb + 8)"

definition report_block_get_interarrival_jitter :: "u8 list \<Rightarrow> nat \<Rightarrow> u32 option" where
  "report_block_get_interarrival_jitter bs rb = rd32 bs (rb + 12)"

definition report_block_get_last_SR_time :: "u8 list \<Rightarrow> nat \<Rightarrow> u32 option" where
  "report_block_get_last_SR_time bs rb = rd32 bs (rb + 16)"

definition report_block_get_last_SR_delay :: "u8 list \<Rightarrow> nat \<Rightarrow> u32 option" where
  "report_block_get_last_SR_delay bs rb = rd32 bs (rb + 20)"

section \<open>Source descriptions\<close>

record sdes_found =
  sf_csrc :: u32
  sf_type :: u8
  sf_content :: "u8 list"

text \<open>
  The loop of \<^verbatim>\<open>rtcp_sdes_parse\<close>: the calls of the callback, in order. \<open>e\<close> is
  the end offset, \<open>rc\<close> the chunk count of the header.
\<close>

function sdes_loop :: "u8 list \<Rightarrow> nat \<Rightarrow> int \<Rightarrow> nat \<Rightarrow> u32 \<Rightarrow> int \<Rightarrow> bool \<Rightarrow> sdes_found list" where
  "sdes_loop bs e rc rptr ssrc nchunk chunk_start =
     (if rptr < e then
        if chunk_start then
          if rptr + 4 \<le> e
          then sdes_loop bs e rc (rptr + 4) (be32 (sub rptr 4 bs)) nchunk False
          else []
        else if rptr + 2 \<le> e then
          let ty = bs ! rptr; len = unat (bs ! (rptr + 1))
          in if ty = 0 then
               (if nchunk + 1 < rc
                then sdes_loop bs e rc ((rptr + 4) div 4 * 4) ssrc (nchunk + 1) True
                else [])
             else if rptr + 2 + len \<le> e then
               \<lparr>sf_csrc = ssrc, sf_type = ty, sf_content = sub (rptr + 2) len bs\<rparr> #
               sdes_loop bs e rc (rptr + 2 + len) ssrc nchunk False
             else []
        else []
      else [])"
  by auto
termination
  by (relation "measure (\<lambda>(bs, e, rc, rptr, ssrc, nchunk, cs). e - rptr)") auto

declare sdes_loop.simps [simp del]

definition rtcp_sdes_parse :: "rtcp_msg \<Rightarrow> sdes_found list option" where
  "rtcp_sdes_parse m = do {
     l \<leftarrow> rtcp_common_header_get_length (rm_data m) (rm_pos m);
     rc \<leftarrow> rtcp_common_header_get_rc (rm_data m) (rm_pos m);
     let rptr = rm_pos m + 4;
     Some (sdes_loop (rm_data m) (min (rptr + nat (4 * (l + 1))) (length (rm_data m))) rc rptr 0 0 True) }"

section \<open>BYE and APP\<close>

text \<open>The room is computed with the length in words.\<close>

definition rtcp_BYE_get_ssrc :: "rtcp_msg \<Rightarrow> int \<Rightarrow> (bool \<times> u32) option" where
  "rtcp_BYE_get_ssrc m idx = do {
     rc \<leftarrow> rtcp_common_header_get_rc (rm_data m) (rm_pos m);
     len \<leftarrow> rtcp_common_header_get_length (rm_data m) (rm_pos m);
     if idx < rc \<and> 4 + 4 * idx \<le> 4 + len - 4
     then do { w \<leftarrow> rd32 (rm_data m) (nat (int (rm_pos m) + 4 + 4 * idx)); Some (True, w) }
     else Some (False, 0) }"

definition rtcp_BYE_get_reason :: "rtcp_msg \<Rightarrow> u8 list option option" where
  "rtcp_BYE_get_reason m = do {
     rc \<leftarrow> rtcp_common_header_get_rc (rm_data m) (rm_pos m);
     n \<leftarrow> rtcp_get_size m;
     let off = 4 + rc * 4;
     if off < n then do {
       c \<leftarrow> rd8 (rm_data m) (rm_pos m + nat off);
       if off + 1 + uint c \<le> n
       then Some (Some (sub (rm_pos m + nat off + 1) (unat c) (rm_data m)))
       else Some None }
     else Some None }"

definition rtcp_APP_get_subtype :: "rtcp_msg \<Rightarrow> int option" where
  "rtcp_APP_get_subtype m = rtcp_common_header_get_rc (rm_data m) (rm_pos m)"

definition rtcp_APP_get_ssrc :: "rtcp_msg \<Rightarrow> u32 option" where
  "rtcp_APP_get_ssrc m = rd32 (rm_data m) (rm_pos m + 4)"

definition rtcp_APP_get_name :: "rtcp_msg \<Rightarrow> u8 list option" where
  "rtcp_APP_get_name m = (if rm_pos m + 12 \<le> length (rm_data m)
     then Some (sub (rm_pos m + 8) 4 (rm_data m)) else None)"

text \<open>The offset and the length of the data; \<^verbatim>\<open>NULL\<close> and 0 when there is none.\<close>

definition rtcp_APP_get_data :: "rtcp_msg \<Rightarrow> (nat option \<times> int) option" where
  "rtcp_APP_get_data m = do {
     n \<leftarrow> rtcp_get_size m;
     let datalen = n - 12;
     Some (if datalen > 0 then (Some (rm_pos m + 12), datalen) else (None, 0)) }"

section \<open>Walking a compound packet\<close>

lemma rtcp_get_size_total: "\<exists>n. rtcp_get_size m = Some n \<and> (n = -1 \<or> 4 \<le> n)"
  by (auto simp: rtcp_get_size_def rtcp_get_common_header_def rm_size_def
      rtcp_common_header_get_length_def rd16_def)

lemma rtcp_next_packet_progress:
  "rtcp_next_packet m = Some (True, m') \<Longrightarrow> rm_data m' = rm_data m \<and>
     rm_pos m + 4 \<le> rm_pos m' \<and> rm_pos m' < length (rm_data m)"
  using rtcp_get_size_total [of m] by (auto simp: rtcp_next_packet_def split: if_splits)

text \<open>The packets of a compound datagram, as a \<^verbatim>\<open>do ... while (rtcp_next_packet)\<close> loop visits them.\<close>

function rtcp_walk :: "rtcp_msg \<Rightarrow> nat list" where
  "rtcp_walk m = rm_pos m # (case rtcp_next_packet m of
      Some (True, m') \<Rightarrow> rtcp_walk m'
    | _ \<Rightarrow> [])"
  by auto
termination
proof (relation "measure (\<lambda>m. length (rm_data m) - rm_pos m)")
  fix m p b m'
  assume "rtcp_next_packet m = Some p" and "(b, m') = p" and "b = True"
  then have "rtcp_next_packet m = Some (True, m')" by simp
  then show "(m', m) \<in> measure (\<lambda>m. length (rm_data m) - rm_pos m)"
    using rtcp_next_packet_progress by fastforce
qed simp

declare rtcp_walk.simps [simp del]

end
