(* ===== verification/Rtcp_Build.thy ===== *)
theory Rtcp_Build
  imports Rtp_Session Rtcp_Parse
begin

text \<open>
  Building and sending RTCP packets, \<^verbatim>\<open>oRTP/src/rtcp.c\<close>, and
  \<^verbatim>\<open>rtp_session_rtcp_send\<close> of \<^verbatim>\<open>oRTP/src/rtpsession_inet.c\<close>.
  A message under construction is its chain of blocks, each with its capacity and content,
  because \<^verbatim>\<open>appendb\<close> pads and overflows by block; a finished datagram is the
  concatenation. Block buffers are aligned to 8 bytes.
\<close>

section \<open>Blocks\<close>

type_synonym blocks = "(nat \<times> u8 list) list"

definition bl_new :: "nat \<Rightarrow> blocks" where
  "bl_new cap = [(cap, [])]"

definition bl_bytes :: "blocks \<Rightarrow> u8 list" where
  "bl_bytes m = concat (map snd m)"

text \<open>\<^verbatim>\<open>appendb\<close> on the last block of a chain.\<close>

definition bl_append :: "blocks \<Rightarrow> u8 list \<Rightarrow> bool \<Rightarrow> blocks" where
  "bl_append m data pad =
     (let (cap, bs) = last m;
          padcnt = (if pad then (4 - (length bs + length data) mod 4) mod 4 else 0);
          new = data @ replicate padcnt 0
      in if length bs + length data + padcnt > cap
         then m @ [(max cap (length data), new)]
         else butlast m @ [(cap, bs @ new)])"

definition string_bytes :: "string \<Rightarrow> u8 list" where
  "string_bytes s = map of_char s"

section \<open>Headers\<close>

definition rtcp_common_header :: "int \<Rightarrow> int \<Rightarrow> int \<Rightarrow> u8 list" where
  "rtcp_common_header ty rc bytes_len =
     [0x80 OR (of_int rc AND 0x1F), of_int ty] @ be16_bytes (of_int (c_div bytes_len 4 - 1))"

section \<open>Source descriptions\<close>

definition RTCP_SDES_CNAME :: u8 where "RTCP_SDES_CNAME = 1"
definition RTCP_SDES_NAME :: u8 where "RTCP_SDES_NAME = 2"
definition RTCP_SDES_EMAIL :: u8 where "RTCP_SDES_EMAIL = 3"
definition RTCP_SDES_PHONE :: u8 where "RTCP_SDES_PHONE = 4"
definition RTCP_SDES_LOC :: u8 where "RTCP_SDES_LOC = 5"
definition RTCP_SDES_TOOL :: u8 where "RTCP_SDES_TOOL = 6"
definition RTCP_SDES_NOTE :: u8 where "RTCP_SDES_NOTE = 7"
definition RTCP_SDES_MAX_STRING_SIZE :: nat where "RTCP_SDES_MAX_STRING_SIZE = 255"
definition RTCP_SDES_CHUNK_DEFAULT_SIZE :: nat where "RTCP_SDES_CHUNK_DEFAULT_SIZE = 1024"

definition sdes_chunk_new :: "u32 \<Rightarrow> blocks" where
  "sdes_chunk_new ssrc = [(RTCP_SDES_CHUNK_DEFAULT_SIZE, be32_bytes ssrc)]"

definition sdes_chunk_append_item :: "blocks \<Rightarrow> u8 \<Rightarrow> string option \<Rightarrow> blocks" where
  "sdes_chunk_append_item m sdes_type content = (case content of
      None \<Rightarrow> m
    | Some c \<Rightarrow>
        let len = min (length c) RTCP_SDES_MAX_STRING_SIZE
        in bl_append (bl_append m [sdes_type, of_nat len] False) (string_bytes (take len c)) False)"

definition sdes_chunk_set_ssrc :: "blocks \<Rightarrow> u32 \<Rightarrow> blocks" where
  "sdes_chunk_set_ssrc m ssrc = (case m of [] \<Rightarrow> []
     | (cap, bs) # rest \<Rightarrow> (cap, put_at 0 (be32_bytes ssrc) bs) # rest)"

definition sdes_chunk_get_ssrc :: "u8 list \<Rightarrow> u32" where
  "sdes_chunk_get_ssrc bs = be32 (sub 0 4 bs)"

text \<open>\<^verbatim>\<open>sdes_chunk_pad\<close> appends one zero byte and pads.\<close>

definition sdes_chunk_pad :: "blocks \<Rightarrow> blocks" where
  "sdes_chunk_pad m = bl_append m [0] True"

definition sdes_chunk ::
  "u32 \<Rightarrow> string option \<Rightarrow> string option \<Rightarrow> string option \<Rightarrow> string option \<Rightarrow> string option \<Rightarrow>
     string option \<Rightarrow> string option \<Rightarrow> blocks" where
  "sdes_chunk ssrc cname name email phone loc tool note =
     sdes_chunk_pad
       (sdes_chunk_append_item (sdes_chunk_append_item (sdes_chunk_append_item
         (sdes_chunk_append_item (sdes_chunk_append_item (sdes_chunk_append_item
           (sdes_chunk_append_item (sdes_chunk_new ssrc) RTCP_SDES_CNAME cname)
           RTCP_SDES_NAME name) RTCP_SDES_EMAIL email) RTCP_SDES_PHONE phone)
         RTCP_SDES_LOC loc) RTCP_SDES_TOOL tool) RTCP_SDES_NOTE note)"

definition rtp_session_set_source_description ::
  "rtp_session \<Rightarrow> string option \<Rightarrow> string option \<Rightarrow> string option \<Rightarrow> string option \<Rightarrow>
     string option \<Rightarrow> string option \<Rightarrow> string option \<Rightarrow> rtp_session" where
  "rtp_session_set_source_description s cname name email phone loc tool note =
     s\<lparr>s_sd := Some (bl_bytes (sdes_chunk (d_ssrc (snd_dir s))
         (case cname of None \<Rightarrow> Some ''Unknown'' | Some c \<Rightarrow> Some c) name email phone loc tool note))\<rparr>"

text \<open>The default name is computed and not used.\<close>

definition rtp_session_add_contributing_source ::
  "rtp_session \<Rightarrow> u32 \<Rightarrow> string option \<Rightarrow> string option \<Rightarrow> string option \<Rightarrow> string option \<Rightarrow>
     string option \<Rightarrow> string option \<Rightarrow> string option \<Rightarrow> rtp_session" where
  "rtp_session_add_contributing_source s csrc cname name email phone loc tool note =
     s\<lparr>contributing_sources := contributing_sources s @
         [bl_bytes (sdes_chunk csrc cname name email phone loc tool note)]\<rparr>"

text \<open>
  The packet is the header and the session's chunk, whose source is set first. The loop over the
  contributing sources advances with the link of the packet under construction, which is
  \<^verbatim>\<open>NULL\<close>: with one or more sources it dereferences \<^verbatim>\<open>NULL\<close>.
\<close>

definition rtp_session_create_rtcp_sdes_packet :: "rtp_session \<Rightarrow> (u8 list \<times> rtp_session) option" where
  "rtp_session_create_rtcp_sdes_packet s = do {
     sd \<leftarrow> s_sd s;
     let sd1 = put_at 0 (be32_bytes (d_ssrc (snd_dir s))) sd;
     if contributing_sources s \<noteq> [] then None
     else Some (rtcp_common_header RTCP_SDES 1 (int (4 + length sd1)) @ sd1, s\<lparr>s_sd := Some sd1\<rparr>) }"

section \<open>BYE\<close>

definition rtcp_create_simple_bye_packet :: "u32 \<Rightarrow> string option \<Rightarrow> u8 list" where
  "rtcp_create_simple_bye_packet ssrc reason =
     (let strsize = (case reason of None \<Rightarrow> 0 | Some r \<Rightarrow> min (length r) 255);
          strpadding = (if strsize > 0 then 3 - strsize mod 4 else 0);
          packet_size = 8 + (if strsize > 0 then 1 + strsize + strpadding else 0);
          head = rtcp_common_header RTCP_BYE 1 (int packet_size) @ be32_bytes ssrc
      in case reason of
           None \<Rightarrow> head
         | Some r \<Rightarrow>
             let parts = [of_nat strsize] @ string_bytes (take strsize r) @ replicate strpadding 0
             in head @ parts)"

section \<open>Reports\<close>

definition ortp_timeval_to_ntp :: "timeval \<Rightarrow> u64" where
  "ortp_timeval_to_ntp tv =
     (let msw = of_int (tv_sec tv) + 0x83AA7E80 :: u64;
          lsw = ucast (of_int (trunc (to_double (to_double (of_int (tv_usec tv) * 4294967296)
                  * to_double (1 / 1000000)))) :: u32) :: u64
      in push_bit 32 msw OR lsw)"

definition sender_info_init :: "rtp_session \<Rightarrow> ort_env \<Rightarrow> u8 list \<times> rtp_session" where
  "sender_info_init s e =
     (let ntp = ortp_timeval_to_ntp (now e); r = rtp s
      in (be32_bytes (ucast (drop_bit 32 ntp)) @ be32_bytes (ucast ntp) @ be32_bytes (snd_last_ts r) @
          be32_bytes (ucast (packet_sent (stats r))) @ be32_bytes (sent_payload_bytes r),
          upd_rtp (\<lambda>r. r\<lparr>last_rtcp_packet_count := ucast (packet_sent (stats r))\<rparr>) s))"

text \<open>The loss of the reporting interval: the new cumulative loss and the fraction.\<close>

definition report_losses :: "rtp_session \<Rightarrow> u64 \<times> u32" where
  "report_losses s =
     (let r = rtp s; since = hwrcv_since_last_SR r
      in if since \<noteq> 0 then
           if has_flag s RTCP_OVERRIDE_LOST_PACKETS then
             let packet_loss = max 0 (sint (lost_packets_test_vector s))
             in (of_int packet_loss, of_int (256 * packet_loss) div since)
           else
             let packet_loss = max 0 (sint ((hwrcv_extseq r - hwrcv_seq_at_last_SR r) - since))
             in (cum_packet_loss (stats r) + of_int packet_loss, of_int (256 * packet_loss) div since)
         else (cum_packet_loss (stats r), 0))"

definition report_delay :: "rtp_stream \<Rightarrow> timeval \<Rightarrow> u32" where
  "report_delay r tv =
     (if tv_sec (last_rcv_SR_time r) \<noteq> 0
      then of_int (trunc (to_double (65536 * to_double (of_int (tv_sec tv - tv_sec (last_rcv_SR_time r)) +
             to_double (of_int (tv_usec tv - tv_usec (last_rcv_SR_time r)) * to_double (1 / 1000000))))))
      else 0)"

definition report_lsr :: "rtp_session \<Rightarrow> u32" where
  "report_lsr s =
     (if has_flag s RTCP_OVERRIDE_DELAY then
        let t = last_rcv_SR_time (rtp s);
            t1 = to_double (to_double (of_int (tv_sec t) +
                   to_double (of_int (tv_usec t) * to_double (1 / 1000000))) -
                 to_double (of_int (uint (delay_test_vector s)) / 1000));
            t2 = to_double (t1 + 2208988800);
            t3 = to_double (65536 * t2)
        in ucast (of_int (trunc t3) :: u64)
      else last_rcv_SR_ts (rtp s))"

definition report_block_init :: "rtp_session \<Rightarrow> ort_env \<Rightarrow> u8 list \<times> rtp_session" where
  "report_block_init s e =
     (let (cum, frac) = report_losses s;
          s1 = upd_rtp (\<lambda>r. r\<lparr>stats := (stats r)\<lparr>cum_packet_loss := cum\<rparr>,
                  hwrcv_since_last_SR := 0, hwrcv_seq_at_last_SR := hwrcv_extseq r\<rparr>) s;
          fl_cnpl = push_bit 24 (frac AND 0xFF) OR (ucast cum AND 0xFFFFFF);
          jit = (if has_flag s RTCP_OVERRIDE_JITTER then interarrival_jitter_test_vector s
                 else of_int (trunc (inter_jitter (jittctl (rtp s1)))))
      in (be32_bytes (d_ssrc (rcv_dir s)) @ be32_bytes fl_cnpl @ be32_bytes (hwrcv_extseq (rtp s1)) @
          be32_bytes jit @ be32_bytes (report_lsr s1) @ be32_bytes (report_delay (rtp s1) (now e)),
          s1))"

definition extended_statistics :: "rtp_session \<Rightarrow> ort_env \<Rightarrow> rtp_session" where
  "extended_statistics s e =
     (let jit = of_int (trunc (inter_jitter (jittctl (rtp s)))) :: u32;
          (mean, ctl) = jitter_control_compute_mean_size (jittctl (rtp s))
      in upd_rtp (\<lambda>r.
           let j = jstats r;
               j1 = j\<lparr>js_sum_jitter := js_sum_jitter j + ucast jit, js_jitter := jit\<rparr>;
               j2 = (if jit > js_max_jitter j1
                     then j1\<lparr>js_max_jitter := jit, js_max_jitter_ts :=
                            of_int (tv_sec (now e) * 1000 + c_div (tv_usec (now e)) 1000)\<rparr>
                     else j1)
           in r\<lparr>stats := (stats r)\<lparr>sent_rtcp_packets := sent_rtcp_packets (stats r) + 1\<rparr>,
                jstats := j2\<lparr>js_buffer_size_ms := mean\<rparr>, jittctl := ctl\<rparr>) s)"

definition rtcp_sr_init :: "rtp_session \<Rightarrow> ort_env \<Rightarrow> u8 list \<times> rtp_session" where
  "rtcp_sr_init s e =
     (let rr = packet_recv (stats (rtp s)) > 0;
          (si, s1) = sender_info_init s e
      in if rr then
           let (rb, s2) = report_block_init s1 e
           in (rtcp_common_header RTCP_SR 1 52 @ be32_bytes (d_ssrc (snd_dir s)) @ si @ rb,
               extended_statistics s2 e)
         else (rtcp_common_header RTCP_SR 0 28 @ be32_bytes (d_ssrc (snd_dir s)) @ si, s1))"

definition rtcp_rr_init :: "rtp_session \<Rightarrow> ort_env \<Rightarrow> u8 list \<times> rtp_session" where
  "rtcp_rr_init s e =
     (let (rb, s1) = report_block_init s e
      in (rtcp_common_header RTCP_RR 1 32 @ be32_bytes (d_ssrc (snd_dir s)) @ rb,
          extended_statistics s1 e))"

definition rtcp_app_init :: "rtp_session \<Rightarrow> u8 \<Rightarrow> string \<Rightarrow> int \<Rightarrow> u8 list" where
  "rtcp_app_init s subtype name sz =
     (if sz < 12 then []
      else rtcp_common_header RTCP_APP (uint subtype) sz @ be32_bytes (d_ssrc (snd_dir s)) @
           take 4 (string_bytes (take 4 name) @ replicate 4 0))"

definition make_rr :: "rtp_session \<Rightarrow> ort_env \<Rightarrow> (u8 list \<times> rtp_session) option" where
  "make_rr s e =
     (let (cm, s1) = rtcp_rr_init s e
      in if s_sd s1 \<noteq> None then do {
           (sdes, s2) \<leftarrow> rtp_session_create_rtcp_sdes_packet s1;
           Some (cm @ sdes, s2) }
         else Some (cm, s1))"

definition make_sr :: "rtp_session \<Rightarrow> ort_env \<Rightarrow> (u8 list \<times> rtp_session) option" where
  "make_sr s e =
     (let (cm, s1) = rtcp_sr_init s e
      in if s_sd s1 \<noteq> None then do {
           (sdes, s2) \<leftarrow> rtp_session_create_rtcp_sdes_packet s1;
           Some (cm @ sdes, s2) }
         else Some (cm, s1))"

section \<open>Sending\<close>

text \<open>
  The result of a send: the next value of \<open>io_send\<close> if there is one (minus the error code when
  the call fails), else all bytes are sent.
\<close>

definition io_result :: "u8 list \<Rightarrow> ort_env \<Rightarrow> int \<times> ort_env" where
  "io_result bs e = (case io_send e of
      [] \<Rightarrow> (int (length bs), e)
    | r # rs \<Rightarrow> (r, e\<lparr>io_send := rs\<rparr>))"

definition rtp_session_using_transport_rtcp :: "rtp_session \<Rightarrow> bool" where
  "rtp_session_using_transport_rtcp s \<longleftrightarrow> has_flag s RTP_SESSION_USING_TRANSPORT \<and> cs_tr (rtcp s)"

definition rtp_session_using_transport_rtp :: "rtp_session \<Rightarrow> bool" where
  "rtp_session_using_transport_rtp s \<longleftrightarrow> has_flag s RTP_SESSION_USING_TRANSPORT \<and> rs_tr (rtp s)"

definition rtp_session_rtcp_send :: "rtp_session \<Rightarrow> u8 list \<Rightarrow> ort_env \<Rightarrow> (int \<times> ort_env) option" where
  "rtp_session_rtcp_send s m e =
     (let connected = has_flag s RTCP_SOCKET_CONNECTED; c = rtcp s
      in if cs_enabled c \<and> (cs_socket c \<noteq> -1 \<and> (cs_rem_addrlen c > 0 \<or> connected) \<or>
             rtp_session_using_transport_rtcp s)
         then
           let (r, e1) = io_result m e
           in if r < 0 then do {
                e2 \<leftarrow> (if st_count (signals s On_network_error) > 0
                        then emit_signal On_network_error [0, nat (- r)] s e1 else Some e1);
                Some (-1, e2) }
              else Some (r, e1\<lparr>rtcp_out := rtcp_out e1 @ [m]\<rparr>)
         else Some (0, e))"

definition ORTP_EVENT_STUN_PACKET_RECEIVED :: nat where "ORTP_EVENT_STUN_PACKET_RECEIVED = 1"
definition ORTP_EVENT_TELEPHONE_EVENT :: nat where "ORTP_EVENT_TELEPHONE_EVENT = 3"
definition ORTP_EVENT_RTCP_PACKET_RECEIVED :: nat where "ORTP_EVENT_RTCP_PACKET_RECEIVED = 4"
definition ORTP_EVENT_RTCP_PACKET_EMITTED :: nat where "ORTP_EVENT_RTCP_PACKET_EMITTED = 5"

definition notify_sent_rtcp :: "rtp_session \<Rightarrow> u8 list \<Rightarrow> ort_env \<Rightarrow> ort_env" where
  "notify_sent_rtcp s m e =
     (if eventqs s \<noteq> []
      then rtp_session_dispatch_event s \<lparr>ev_type = ORTP_EVENT_RTCP_PACKET_EMITTED, ev_packet = m,
             ev_addr = 0, ev_info = 0\<rparr> e
      else e)"

text \<open>Whether a report is due, and the marks that it was sent.\<close>

definition rtcp_due :: "rtp_session \<Rightarrow> bool" where
  "rtcp_due s \<longleftrightarrow>
     rcv_last_app_ts (rtp s) - last_rtcp_report_snt_r (rtcp s) > rtcp_report_snt_interval_r (rtcp s) \<or>
     snd_last_ts (rtp s) - last_rtcp_report_snt_s (rtcp s) > rtcp_report_snt_interval_s (rtcp s)"

definition rtcp_mark_sent :: "rtp_session \<Rightarrow> rtp_session" where
  "rtcp_mark_sent s = upd_rtcp (\<lambda>c. c\<lparr>last_rtcp_report_snt_r := rcv_last_app_ts (rtp s),
     last_rtcp_report_snt_s := snd_last_ts (rtp s)\<rparr>) s"

definition rtp_session_rtcp_process_send ::
  "rtp_session \<Rightarrow> ort_env \<Rightarrow> (rtp_session \<times> ort_env) option" where
  "rtp_session_rtcp_process_send s e =
     (if rtcp_due s then do {
        (m, s1) \<leftarrow> make_sr (rtcp_mark_sent s) e;
        (r, e1) \<leftarrow> rtp_session_rtcp_send s1 m (notify_sent_rtcp s1 m e);
        Some (s1, e1) }
      else Some (s, e))"

definition rtp_session_rtcp_process_recv ::
  "rtp_session \<Rightarrow> ort_env \<Rightarrow> (rtp_session \<times> ort_env) option" where
  "rtp_session_rtcp_process_recv s e =
     (if rtcp_due s then do {
        let s0 = rtcp_mark_sent s;
        (m, s1) \<leftarrow>
          (if ucast (last_rtcp_packet_count (rtp s0)) < packet_sent (stats (rtp s0)) then do {
             (m, s1) \<leftarrow> make_sr s0 e;
             Some (Some m, upd_rtp (\<lambda>r. r\<lparr>last_rtcp_packet_count := ucast (packet_sent (stats r))\<rparr>) s1) }
           else if packet_recv (stats (rtp s0)) > 0 then do {
             (m, s1) \<leftarrow> make_rr s0 e;
             Some (Some m, s1) }
           else Some (None, s0));
        (case m of
           None \<Rightarrow> Some (s1, e)
         | Some m \<Rightarrow> do {
             (r, e1) \<leftarrow> rtp_session_rtcp_send s1 m (notify_sent_rtcp s1 m e);
             Some (s1, e1) }) }
      else Some (s, e))"

definition rtp_session_send_rtcp_APP ::
  "rtp_session \<Rightarrow> u8 \<Rightarrow> string \<Rightarrow> u8 list \<Rightarrow> ort_env \<Rightarrow> (int \<times> ort_env) option" where
  "rtp_session_send_rtcp_APP s subtype name data e =
     rtp_session_rtcp_send s (rtcp_app_init s subtype name (int (length data) + 12) @ data) e"

text \<open>The source is taken from the queue, and a BYE for it is sent whether it was there or not.\<close>

fun remove_source :: "u32 \<Rightarrow> u8 list list \<Rightarrow> u8 list list" where
  "remove_source ssrc [] = []"
| "remove_source ssrc (c # cs) =
     (if sdes_chunk_get_ssrc c = ssrc then cs else c # remove_source ssrc cs)"

definition rtp_session_remove_contributing_sources ::
  "rtp_session \<Rightarrow> u32 \<Rightarrow> ort_env \<Rightarrow> (rtp_session \<times> ort_env) option" where
  "rtp_session_remove_contributing_sources s ssrc e = do {
     let s1 = s\<lparr>contributing_sources := remove_source ssrc (contributing_sources s)\<rparr>;
     (r, e1) \<leftarrow> rtp_session_rtcp_send s1 (rtcp_create_simple_bye_packet ssrc None) e;
     Some (s1, e1) }"

definition rtp_session_bye ::
  "rtp_session \<Rightarrow> string option \<Rightarrow> ort_env \<Rightarrow> (int \<times> rtp_session \<times> ort_env) option" where
  "rtp_session_bye s reason e =
     (let bye = rtcp_create_simple_bye_packet (d_ssrc (snd_dir s)) reason
      in do {
        (cm, s1) \<leftarrow>
          (if packet_sent (stats (rtp s)) > 0 then do {
             let (sr, s1) = rtcp_sr_init s e;
             (sdes, s2) \<leftarrow> rtp_session_create_rtcp_sdes_packet s1;
             Some (sr @ sdes @ bye, s2) }
           else if packet_recv (stats (rtp s)) > 0 then
             (let (rr, s1) = rtcp_rr_init s e in Some (rr @ bye, s1))
           else Some (bye, s));
        (r, e1) \<leftarrow> rtp_session_rtcp_send s1 cm e;
        Some (r, s1, e1) })"

end
