(* ===== verification/Rtp_Settings.thy ===== *)
theory Rtp_Settings
  imports Rtcp_Build
begin

text \<open>
  Creation, settings and resets of a session: the rest of \<^verbatim>\<open>oRTP/src/rtpsession.c\<close>
  that neither sends nor receives, and the session functions of
  \<^verbatim>\<open>oRTP/src/jitterctl.c\<close>.
\<close>

section \<open>Jitter buffer\<close>

definition rtp_session_set_jitter_compensation ::
  "ort_env \<Rightarrow> int \<Rightarrow> rtp_session \<Rightarrow> rtp_session option" where
  "rtp_session_set_jitter_compensation e milisec s = do {
     p \<leftarrow> (if d_pt (rcv_dir s) \<noteq> -1 then profile_payload e (d_profile (rcv_dir s)) (d_pt (rcv_dir s))
          else Some None);
     Some (upd_rtp (\<lambda>r. r\<lparr>jittctl := jitter_control_init (jittctl r) milisec p\<rparr>) s) }"

definition rtp_session_enable_adaptive_jitter_compensation :: "bool \<Rightarrow> rtp_session \<Rightarrow> rtp_session" where
  "rtp_session_enable_adaptive_jitter_compensation val =
     upd_rtp (\<lambda>r. r\<lparr>jittctl := jitter_control_enable_adaptive (jittctl r) val\<rparr>)"

definition rtp_session_adaptive_jitter_compensation_enabled :: "rtp_session \<Rightarrow> bool" where
  "rtp_session_adaptive_jitter_compensation_enabled s = adaptive (jittctl (rtp s))"

definition rtp_session_enable_jitter_buffer :: "bool \<Rightarrow> rtp_session \<Rightarrow> rtp_session" where
  "rtp_session_enable_jitter_buffer on s =
     rtp_session_set_flag RTP_SESSION_RECV_SYNC
       (upd_rtp (\<lambda>r. r\<lparr>jittctl := (jittctl r)\<lparr>jc_enabled := on\<rparr>\<rparr>) s)"

definition rtp_session_jitter_buffer_enabled :: "rtp_session \<Rightarrow> bool" where
  "rtp_session_jitter_buffer_enabled s = jc_enabled (jittctl (rtp s))"

definition rtp_session_set_jitter_buffer_params ::
  "ort_env \<Rightarrow> jb_parameters \<Rightarrow> rtp_session \<Rightarrow> rtp_session option" where
  "rtp_session_set_jitter_buffer_params e par s = do {
     s1 \<leftarrow> rtp_session_set_jitter_compensation e (jb_nom_size par) s;
     Some (upd_rtp (\<lambda>r. r\<lparr>jittctl := jitter_control_enable_adaptive (jittctl r) (jb_adaptive par),
                     max_rq_size := jb_max_packets par\<rparr>) s1) }"

definition rtp_session_get_jitter_buffer_params :: "rtp_session \<Rightarrow> jb_parameters" where
  "rtp_session_get_jitter_buffer_params s =
     \<lparr>jb_min_size = jitt_comp (jittctl (rtp s)), jb_nom_size = jitt_comp (jittctl (rtp s)),
      jb_max_size = -1, jb_adaptive = adaptive (jittctl (rtp s)), jb_max_packets = max_rq_size (rtp s)\<rparr>"

section \<open>Signals\<close>

fun find_signal :: "(signal_id \<Rightarrow> rtp_signal_table) \<Rightarrow> string \<Rightarrow> signal_id list \<Rightarrow> signal_id option" where
  "find_signal sigs name [] = None"
| "find_signal sigs name (t # ts) =
     (if name = st_signal_name (sigs t) then Some t else find_signal sigs name ts)"

definition rtp_session_signal_connect ::
  "string \<Rightarrow> nat \<Rightarrow> nat \<Rightarrow> rtp_session \<Rightarrow> int \<times> rtp_session" where
  "rtp_session_signal_connect name cb ud s =
     (case find_signal (signals s) name (signal_tables s) of
        Some t \<Rightarrow> let (r, tab) = rtp_signal_table_add (signals s t) cb ud
                  in (r, s\<lparr>signals := (signals s)(t := tab)\<rparr>)
      | None \<Rightarrow> (-1, s))"

definition rtp_session_signal_disconnect_by_callback ::
  "string \<Rightarrow> nat option \<Rightarrow> rtp_session \<Rightarrow> int \<times> rtp_session" where
  "rtp_session_signal_disconnect_by_callback name cb s =
     (case find_signal (signals s) name (signal_tables s) of
        Some t \<Rightarrow> let (r, tab) = rtp_signal_table_remove_by_callback (signals s t) cb
                  in (r, s\<lparr>signals := (signals s)(t := tab)\<rparr>)
      | None \<Rightarrow> (-1, s))"

section \<open>Plain settings\<close>

definition rtp_session_enable_rtcp :: "bool \<Rightarrow> rtp_session \<Rightarrow> rtp_session" where
  "rtp_session_enable_rtcp yesno = upd_rtcp (\<lambda>c. c\<lparr>cs_enabled := yesno\<rparr>)"

definition rtp_session_get_profile :: "rtp_session \<Rightarrow> ptr" where
  "rtp_session_get_profile s = d_profile (snd_dir s)"

definition rtp_session_get_send_profile :: "rtp_session \<Rightarrow> ptr" where
  "rtp_session_get_send_profile s = d_profile (snd_dir s)"

definition rtp_session_get_recv_profile :: "rtp_session \<Rightarrow> ptr" where
  "rtp_session_get_recv_profile s = d_profile (rcv_dir s)"

definition rtp_session_set_recv_buf_size :: "int \<Rightarrow> rtp_session \<Rightarrow> rtp_session" where
  "rtp_session_set_recv_buf_size bufsize s = s\<lparr>recv_buf_size := bufsize\<rparr>"

definition rtp_session_set_rtp_socket_send_buffer_size :: "int \<Rightarrow> rtp_session \<Rightarrow> rtp_session" where
  "rtp_session_set_rtp_socket_send_buffer_size n = upd_rtp (\<lambda>r. r\<lparr>snd_socket_size := n\<rparr>)"

definition rtp_session_set_rtp_socket_recv_buffer_size :: "int \<Rightarrow> rtp_session \<Rightarrow> rtp_session" where
  "rtp_session_set_rtp_socket_recv_buffer_size n = upd_rtp (\<lambda>r. r\<lparr>rcv_socket_size := n\<rparr>)"

definition rtp_session_set_seq_number :: "u16 \<Rightarrow> rtp_session \<Rightarrow> rtp_session" where
  "rtp_session_set_seq_number seq = upd_rtp (\<lambda>r. r\<lparr>snd_seq := seq\<rparr>)"

definition rtp_session_get_seq_number :: "rtp_session \<Rightarrow> u16" where
  "rtp_session_get_seq_number s = snd_seq (rtp s)"

definition rtp_session_get_rcv_ext_seq_number :: "rtp_session \<Rightarrow> u32" where
  "rtp_session_get_rcv_ext_seq_number s = hwrcv_extseq (rtp s)"

definition rtp_session_set_ssrc :: "u32 \<Rightarrow> rtp_session \<Rightarrow> rtp_session" where
  "rtp_session_set_ssrc ssrc s = s\<lparr>snd_dir := (snd_dir s)\<lparr>d_ssrc := ssrc\<rparr>\<rparr>"

definition rtp_session_get_send_ssrc :: "rtp_session \<Rightarrow> u32" where
  "rtp_session_get_send_ssrc s = d_ssrc (snd_dir s)"

definition rtp_session_get_recv_ssrc :: "rtp_session \<Rightarrow> u32" where
  "rtp_session_get_recv_ssrc s = d_ssrc (rcv_dir s)"

definition rtp_session_get_send_payload_type :: "rtp_session \<Rightarrow> int" where
  "rtp_session_get_send_payload_type s = d_pt (snd_dir s)"

definition rtp_session_get_recv_payload_type :: "rtp_session \<Rightarrow> int" where
  "rtp_session_get_recv_payload_type s = d_pt (rcv_dir s)"

definition rtp_session_set_ssrc_changed_threshold :: "int \<Rightarrow> rtp_session \<Rightarrow> rtp_session" where
  "rtp_session_set_ssrc_changed_threshold n = upd_rtp (\<lambda>r. r\<lparr>ssrc_changed_thres := n\<rparr>)"

definition rtp_session_set_data :: "nat \<Rightarrow> rtp_session \<Rightarrow> rtp_session" where
  "rtp_session_set_data d s = s\<lparr>s_user_data := d\<rparr>"

definition rtp_session_get_data :: "rtp_session \<Rightarrow> nat" where
  "rtp_session_get_data s = s_user_data s"

definition rtp_session_set_symmetric_rtp :: "bool \<Rightarrow> rtp_session \<Rightarrow> rtp_session" where
  "rtp_session_set_symmetric_rtp yesno s = s\<lparr>symmetric_rtp := yesno\<rparr>"

definition rtp_session_set_connected_mode :: "bool \<Rightarrow> rtp_session \<Rightarrow> rtp_session" where
  "rtp_session_set_connected_mode yesno s = s\<lparr>use_connect := yesno\<rparr>"

definition rtp_session_set_reuseaddr :: "bool \<Rightarrow> rtp_session \<Rightarrow> rtp_session" where
  "rtp_session_set_reuseaddr yes s = s\<lparr>reuseaddr := yes\<rparr>"

definition rtp_session_get_stats :: "rtp_session \<Rightarrow> rtp_stats" where
  "rtp_session_get_stats s = stats (rtp s)"

definition rtp_session_get_jitter_stats :: "rtp_session \<Rightarrow> jitter_stats" where
  "rtp_session_get_jitter_stats s = jstats (rtp s)"

definition rtp_session_get_last_recv_time :: "rtp_session \<Rightarrow> timeval" where
  "rtp_session_get_last_recv_time s = last_recv_time s"

definition rtp_session_get_round_trip_propagation :: "rtp_session \<Rightarrow> rat" where
  "rtp_session_get_round_trip_propagation s = s_rtt s"

section \<open>Test vectors of the reports\<close>

definition rtp_session_rtcp_set_lost_packet_value :: "u32 \<Rightarrow> rtp_session \<Rightarrow> rtp_session" where
  "rtp_session_rtcp_set_lost_packet_value v s =
     rtp_session_set_flag RTCP_OVERRIDE_LOST_PACKETS (s\<lparr>lost_packets_test_vector := v\<rparr>)"

definition rtp_session_rtcp_set_jitter_value :: "u32 \<Rightarrow> rtp_session \<Rightarrow> rtp_session" where
  "rtp_session_rtcp_set_jitter_value v s =
     rtp_session_set_flag RTCP_OVERRIDE_JITTER (s\<lparr>interarrival_jitter_test_vector := v\<rparr>)"

definition rtp_session_rtcp_set_delay_value :: "u32 \<Rightarrow> rtp_session \<Rightarrow> rtp_session" where
  "rtp_session_rtcp_set_delay_value v s =
     rtp_session_set_flag RTCP_OVERRIDE_DELAY (s\<lparr>delay_test_vector := v\<rparr>)"

section \<open>Errors, bandwidth, statistics\<close>

definition rtp_session_get_last_send_error_code :: "rtp_session \<Rightarrow> int" where
  "rtp_session_get_last_send_error_code s = send_errno (rtp s)"

definition rtp_session_clear_send_error_code :: "rtp_session \<Rightarrow> rtp_session" where
  "rtp_session_clear_send_error_code = upd_rtp (\<lambda>r. r\<lparr>send_errno := 0\<rparr>)"

definition rtp_session_get_last_recv_error_code :: "rtp_session \<Rightarrow> int" where
  "rtp_session_get_last_recv_error_code s = recv_errno (rtp s)"

text \<open>As the code has it: the send error is cleared.\<close>

definition rtp_session_clear_recv_error_code :: "rtp_session \<Rightarrow> rtp_session" where
  "rtp_session_clear_recv_error_code = upd_rtp (\<lambda>r. r\<lparr>send_errno := 0\<rparr>)"

definition compute_bw :: "ort_env \<Rightarrow> timeval \<Rightarrow> u32 \<Rightarrow> rat" where
  "compute_bw e orig bytes =
     (if bytes = 0 then 0
      else let cur = now e;
               time = to_float (to_double (to_float (of_int (tv_sec cur - tv_sec orig)) +
                        to_double (to_float (of_int (tv_usec cur - tv_usec orig)) * to_double (1 / 1000000))))
           in to_float (to_double (to_float (to_float (of_int (uint bytes)) * 8) /
                to_double (time + to_double (1 / 1000)))))"

definition rtp_session_compute_recv_bandwidth :: "ort_env \<Rightarrow> rtp_session \<Rightarrow> rat \<times> rtp_session" where
  "rtp_session_compute_recv_bandwidth e s =
     (compute_bw e (recv_bw_start (rtp s)) (recv_bytes (rtp s)), upd_rtp (\<lambda>r. r\<lparr>recv_bytes := 0\<rparr>) s)"

definition rtp_session_compute_send_bandwidth :: "ort_env \<Rightarrow> rtp_session \<Rightarrow> rat \<times> rtp_session" where
  "rtp_session_compute_send_bandwidth e s =
     (compute_bw e (send_bw_start (rtp s)) (sent_bytes (rtp s)), upd_rtp (\<lambda>r. r\<lparr>sent_bytes := 0\<rparr>) s)"

definition rtp_session_reset_stats :: "rtp_session \<Rightarrow> rtp_session" where
  "rtp_session_reset_stats = upd_stats (\<lambda>_. rtp_stats_zero)"

section \<open>Reset\<close>

definition rtp_session_resync :: "rtp_session \<Rightarrow> rtp_session" where
  "rtp_session_resync s =
     upd_rtp (\<lambda>r. r\<lparr>jittctl := jitter_control_init (jittctl r) (-1) None\<rparr>)
       (rtp_session_unset_flag RTP_SESSION_FIRST_PACKET_DELIVERED
         (rtp_session_set_flag RTP_SESSION_RECV_SYNC (upd_rtp (\<lambda>r. r\<lparr>rq := []\<rparr>) s)))"

definition rtp_session_reset :: "rtp_session \<Rightarrow> rtp_session" where
  "rtp_session_reset s =
     (let s1 = rtp_session_set_flag RTP_SESSION_SEND_NOT_STARTED
                 (rtp_session_set_flag RTP_SESSION_RECV_NOT_STARTED s);
          s2 = upd_rtp (\<lambda>r. r\<lparr>snd_time_offset := 0, snd_ts_offset := 0, snd_rand_offset := 0,
                 snd_last_ts := 0, rcv_time_offset := 0, rcv_ts_offset := 0,
                 rcv_query_ts_offset := 0, rcv_last_ts := 0, rcv_last_app_ts := 0,
                 hwrcv_extseq := 0, hwrcv_since_last_SR := 0, snd_seq := 0,
                 sent_payload_bytes := 0\<rparr>) s1;
          s3 = rtp_session_clear_recv_error_code (rtp_session_clear_send_error_code s2);
          s4 = rtp_session_resync (upd_stats (\<lambda>_. rtp_stats_zero) s3)
      in s4\<lparr>ssrc_set := False\<rparr>)"

section \<open>Sockets\<close>

definition rtp_session_release_sockets :: "rtp_session \<Rightarrow> rtp_session" where
  "rtp_session_release_sockets s =
     upd_rtcp (\<lambda>c. c\<lparr>cs_socket := -1, cs_tr := False\<rparr>)
       (upd_rtp (\<lambda>r. r\<lparr>rs_socket := -1, rs_tr := False\<rparr>) s)"

text \<open>The socket of a transport is the transport's own; it is a parameter.\<close>

definition rtp_session_get_rtp_socket :: "int \<Rightarrow> rtp_session \<Rightarrow> int" where
  "rtp_session_get_rtp_socket tr_socket s =
     (if rtp_session_using_transport_rtp s then tr_socket else rs_socket (rtp s))"

definition rtp_session_get_rtcp_socket :: "int \<Rightarrow> rtp_session \<Rightarrow> int" where
  "rtp_session_get_rtcp_socket tr_socket s =
     (if rtp_session_using_transport_rtcp s then tr_socket else cs_socket (rtcp s))"

section \<open>Packets of the session\<close>

definition rtp_header_init_from_session :: "rtp_session \<Rightarrow> u8 list" where
  "rtp_header_init_from_session s =
     [0x80, of_int (d_pt (snd_dir s)) AND 0x7F] @ le16_bytes (snd_seq (rtp s)) @
     le32_bytes 0 @ le32_bytes (d_ssrc (snd_dir s))"

text \<open>
  A header size above 12 leaves the bytes behind the fixed header unset (\<open>junk\<close>); one
  below 12 writes the header out of the block.
\<close>

definition rtp_session_create_packet ::
  "rtp_session \<Rightarrow> u8 list \<Rightarrow> u8 list \<Rightarrow> packet" where
  "rtp_session_create_packet s junk data =
     \<lparr>pk_data = rtp_header_init_from_session s @ junk @ data, pk_cont = [], pk_addr = 0\<rparr>"

definition rtp_session_create_packet_with_data :: "rtp_session \<Rightarrow> u8 list \<Rightarrow> packet" where
  "rtp_session_create_packet_with_data s data =
     \<lparr>pk_data = rtp_header_init_from_session s, pk_cont = [data], pk_addr = 0\<rparr>"

text \<open>
  The header is written over the start of the buffer, and the message around the buffer is left
  empty: its write pointer is not advanced.
\<close>

definition rtp_session_create_packet_in_place ::
  "rtp_session \<Rightarrow> u8 list \<Rightarrow> (u8 list \<times> packet) option" where
  "rtp_session_create_packet_in_place s buffer =
     (if length buffer < 12 then None
      else Some (put_at 0 (rtp_header_init_from_session s) buffer,
                 \<lparr>pk_data = [], pk_cont = [], pk_addr = 0\<rparr>))"

section \<open>Creation\<close>

text \<open>The memory of a session after \<^verbatim>\<open>memset\<close>.\<close>

definition signal_table_zero :: rtp_signal_table where
  "signal_table_zero = \<lparr>st_callback = replicate 5 None, st_user_data = replicate 5 0,
     st_signal_name = [], st_count = 0\<rparr>"

definition dir_zero :: sess_dir where
  "dir_zero = \<lparr>d_profile = 0, d_pt = 0, d_ssrc = 0, d_wp = wait_point_init, d_tev_pt = 0\<rparr>"

definition tv_zero :: timeval where "tv_zero = \<lparr>tv_sec = 0, tv_usec = 0\<rparr>"

definition rtp_stream_zero :: rtp_stream where
  "rtp_stream_zero = \<lparr>rs_socket = 0, rs_ipv6 = False, rs_tr = False, max_rq_size = 0, time_jump = 0, ts_jump = 0,
     rq = [], tev_rq = [], rs_rem_addr = 0, jittctl = jitter_control_zero, snd_time_offset = 0,
     snd_ts_offset = 0, snd_rand_offset = 0, snd_last_ts = 0, rcv_time_offset = 0,
     rcv_ts_offset = 0, rcv_query_ts_offset = 0, rcv_last_ts = 0, rcv_last_app_ts = 0,
     rcv_last_ret_ts = 0, hwrcv_extseq = 0, hwrcv_seq_at_last_SR = 0, hwrcv_since_last_SR = 0,
     last_rcv_SR_ts = 0, last_rcv_SR_time = tv_zero, snd_seq = 0, last_rtcp_packet_count = 0,
     sent_payload_bytes = 0, sent_bytes = 0, send_bw_start = tv_zero, recv_bytes = 0,
     recv_bw_start = tv_zero, stats = rtp_stats_zero, recv_errno = 0, send_errno = 0,
     snd_socket_size = 0, rcv_socket_size = 0, ssrc_changed_thres = 0,
     jstats = \<lparr>js_jitter = 0, js_max_jitter = 0, js_sum_jitter = 0, js_max_jitter_ts = 0,
       js_buffer_size_ms = 0\<rparr>\<rparr>"

definition rtcp_stream_zero :: rtcp_stream where
  "rtcp_stream_zero = \<lparr>cs_socket = 0, cs_tr = False, cs_rem_addr = 0, cs_rem_addrlen = 0,
     cs_interval = 0, last_rtcp_report_snt_r = 0, last_rtcp_report_snt_s = 0,
     rtcp_report_snt_interval_r = 0, rtcp_report_snt_interval_s = 0, cs_enabled = False\<rparr>"

definition session_zero :: rtp_session where
  "session_zero = \<lparr>s_next = None, mask_pos = 0, snd_dir = dir_zero, rcv_dir = dir_zero,
     inc_ssrc_candidate = 0, inc_same_ssrc_count = 0, hw_recv_pt = 0, recv_buf_size = 0,
     signals = (\<lambda>_. signal_table_zero), signal_tables = [], eventqs = [],
     rtp = rtp_stream_zero, rtcp = rtcp_stream_zero, s_mode = RTP_SESSION_RECVONLY,
     s_sched = False, s_flags = 0, dscp = 0, multicast_ttl = 0, multicast_loopback = 0,
     s_user_data = 0, last_recv_time = tv_zero, s_pending = None, current_tev = None,
     s_sd = None, contributing_sources = [], lost_packets_test_vector = 0,
     interarrival_jitter_test_vector = 0, delay_test_vector = 0, s_rtt = 0, net_sim = None,
     symmetric_rtp = False, permissive = False, use_connect = False, ssrc_set = False,
     reuseaddr = False\<rparr>"

text \<open>A table is initialised and linked in the session's list of tables.\<close>

definition init_signal :: "signal_id \<Rightarrow> string \<Rightarrow> rtp_session \<Rightarrow> rtp_session" where
  "init_signal t name s = s\<lparr>signals := (signals s)(t := rtp_signal_table_init name),
     signal_tables := signal_tables s @ [t]\<rparr>"

text \<open>The flags, the source and its description, by the mode; \<open>version\<close> is the library's.\<close>

definition init_mode :: "u32 \<Rightarrow> string \<Rightarrow> session_mode \<Rightarrow> rtp_session" where
  "init_mode random version mode =
     (let s0 = session_zero\<lparr>s_mode := mode\<rparr>;
          s1 = (if mode = RTP_SESSION_RECVONLY \<or> mode = RTP_SESSION_SENDRECV
                then rtp_session_set_flag RTP_SESSION_RECV_NOT_STARTED
                       (rtp_session_set_flag RTP_SESSION_RECV_SYNC s0) else s0);
          s2 = (if mode = RTP_SESSION_SENDONLY \<or> mode = RTP_SESSION_SENDRECV
                then let t = rtp_session_set_flag RTP_SESSION_SEND_NOT_STARTED s1
                     in rtp_session_set_source_description
                          (t\<lparr>snd_dir := (snd_dir t)\<lparr>d_ssrc := random\<rparr>\<rparr>)
                          (Some ''unknown@unknown'') None None None None (Some (''oRTP-'' @ version)) None
                else s1)
      in s2\<lparr>snd_dir := (snd_dir s2)\<lparr>d_tev_pt := -1\<rparr>, rcv_dir := (rcv_dir s2)\<lparr>d_tev_pt := -1\<rparr>\<rparr>)"

text \<open>The fields set between the profile and the receive payload type.\<close>

definition init_fields :: "rtp_session \<Rightarrow> rtp_session" where
  "init_fields s3 =
     (let s4 = upd_rtcp (\<lambda>c. c\<lparr>cs_socket := -1\<rparr>)
               (upd_rtp (\<lambda>r. r\<lparr>rs_socket := -1, snd_socket_size := 0, rcv_socket_size := 0,
                  ssrc_changed_thres := 50, rq := [], tev_rq := []\<rparr>) s3);
          s5 = s4\<lparr>dscp := RTP_DEFAULT_DSCP, multicast_ttl := RTP_DEFAULT_MULTICAST_TTL,
                multicast_loopback := RTP_DEFAULT_MULTICAST_LOOPBACK, contributing_sources := [],
                eventqs := []\<rparr>;
          s6 = init_signal On_rtcp_bye ''rtcp_bye'' (init_signal On_network_error ''network_error''
               (init_signal On_timestamp_jump ''timestamp_jump''
               (init_signal On_telephone_event_packet ''telephone-event_packet''
               (init_signal On_telephone_event ''telephone-event''
               (init_signal On_payload_type_changed ''payload_type_changed''
               (init_signal On_ssrc_changed ''ssrc_changed'' s5))))))
      in s6\<lparr>snd_dir := (snd_dir s6)\<lparr>d_wp := wait_point_init\<rparr>,
            rcv_dir := (rcv_dir s6)\<lparr>d_wp := wait_point_init\<rparr>\<rparr>)"

text \<open>The default profile of the library stands at \<open>av\<close>.\<close>

definition rtp_session_init ::
  "ort_env \<Rightarrow> ptr \<Rightarrow> string \<Rightarrow> session_mode \<Rightarrow> rtp_session option" where
  "rtp_session_init e av version mode = do {
     s3 \<leftarrow> rtp_session_set_profile e av (init_mode (env_random e) version mode);
     (_, s8) \<leftarrow> rtp_session_set_recv_payload_type e (-1)
                 (snd (rtp_session_set_send_payload_type 0 (init_fields s3)));
     s10 \<leftarrow> rtp_session_set_jitter_buffer_params e
              \<lparr>jb_min_size = RTP_DEFAULT_JITTER_TIME, jb_nom_size = RTP_DEFAULT_JITTER_TIME,
               jb_max_size = -1, jb_adaptive = True, jb_max_packets = 100\<rparr>
              (rtp_session_enable_jitter_buffer True s8);
     s11 \<leftarrow> rtp_session_set_time_jump_limit e 5000 s10;
     s12 \<leftarrow> rtp_session_set_rtcp_report_interval e RTCP_DEFAULT_REPORT_INTERVAL
              (rtp_session_enable_rtcp True s11);
     Some (s12\<lparr>recv_buf_size := UDP_MAX_SIZE, symmetric_rtp := False, permissive := False,
               reuseaddr := True\<rparr>) }"

section \<open>Operations that look in the profiles do not fault\<close>

text \<open>Every profile pointer in use designates a profile of valid payload types.\<close>

definition prof_good :: "ort_env \<Rightarrow> ptr \<Rightarrow> bool" where
  "prof_good e p \<longleftrightarrow> (\<exists>prof. env_profiles e p = Some prof \<and> profile_valid (env_pts e) prof)"

definition profiles_good :: "ort_env \<Rightarrow> rtp_session \<Rightarrow> bool" where
  "profiles_good e s \<longleftrightarrow> prof_good e (d_profile (snd_dir s)) \<and> prof_good e (d_profile (rcv_dir s))"

lemma profile_payload_total:
  assumes "prof_good e p"
  shows "\<exists>x. profile_payload e p n = Some x"
proof -
  obtain prof where p: "env_profiles e p = Some prof" "profile_valid (env_pts e) prof"
    using assms by (auto simp: prof_good_def)
  show ?thesis
    using p profile_valid_entry [OF p(2), of n]
    by (cases "rtp_profile_get_payload prof n") (auto simp: profile_payload_def)
qed

lemma number_from_mime_total:
  assumes "prof_good e p"
  shows "\<exists>n. profile_number_from_mime e p mime = Some n"
proof -
  obtain prof where p: "env_profiles e p = Some prof" "profile_valid (env_pts e) prof"
    using assms by (auto simp: prof_good_def)
  show ?thesis
    using p find_mime_loop_first [OF p(2), of mime 128 0]
    by (auto simp: profile_number_from_mime_def rtp_profile_get_payload_number_from_mime_def)
qed

lemma profiles_good_upd [simp]:
  "profiles_good e (upd_rtp f s) = profiles_good e s" "profiles_good e (upd_rtcp g s) = profiles_good e s"
  by (simp_all add: profiles_good_def upd_rtp_def upd_rtcp_def)

lemma set_time_jump_limit_total:
  assumes "profiles_good e s"
  shows "\<exists>b. rtp_session_set_time_jump_limit e ms s =
    Some (upd_rtp (\<lambda>r. r\<lparr>time_jump := ms, ts_jump := b\<rparr>) s)"
proof -
  obtain x where "profile_payload e (d_profile (snd_dir s)) (d_pt (snd_dir s)) = Some x"
    using assms profile_payload_total profiles_good_def by blast
  then obtain ts where ts: "rtp_session_time_to_ts e (upd_rtp (\<lambda>r. r\<lparr>time_jump := ms\<rparr>) s) ms = Some ts"
    by (simp add: rtp_session_time_to_ts_def upd_rtp_def)
  then show ?thesis
    by (simp add: rtp_session_set_time_jump_limit_def upd_rtp_def) blast
qed

lemma set_rtcp_report_interval_total:
  assumes "profiles_good e s"
  shows "\<exists>c. rtp_session_set_rtcp_report_interval e ms s = Some (upd_rtcp (\<lambda>_. c) s) \<and>
    cs_enabled c = cs_enabled (rtcp s)"
proof -
  obtain x where x: "profile_payload e (d_profile (rcv_dir s)) (d_pt (rcv_dir s)) = Some x"
    using assms profile_payload_total profiles_good_def by blast
  obtain y where y: "profile_payload e (d_profile (snd_dir s)) (d_pt (snd_dir s)) = Some y"
    using assms profile_payload_total profiles_good_def by blast
  show ?thesis
    by (cases x; cases y; cases "d_pt (rcv_dir s) = -1"; cases "d_pt (snd_dir s) = -1")
       (simp_all add: rtp_session_set_rtcp_report_interval_def x y Let_def upd_rtcp_def, auto)
qed

lemma no_payload: "prof_good e p \<Longrightarrow> profile_payload e p (-1) = Some None"
  by (auto simp: prof_good_def profile_payload_def rtp_profile_get_payload_def)

lemma set_profile_total:
  assumes "prof_good e av"
  shows "\<exists>n. \<forall>s. rtp_session_set_profile e av s =
    Some (s\<lparr>snd_dir := (snd_dir s)\<lparr>d_profile := av, d_tev_pt := n\<rparr>,
            rcv_dir := (rcv_dir s)\<lparr>d_profile := av, d_tev_pt := n\<rparr>\<rparr>)"
proof -
  obtain n where "profile_number_from_mime e av ''telephone-event'' = Some n"
    using number_from_mime_total [OF assms] by blast
  then show ?thesis
    by (auto simp: rtp_session_set_profile_def rtp_session_telephone_events_supported_def)
qed

lemma set_recv_pt_unknown:
  assumes "prof_good e (d_profile (rcv_dir s))"
  shows "rtp_session_set_recv_payload_type e (-1) s =
    Some (0, s\<lparr>rcv_dir := (rcv_dir s)\<lparr>d_pt := -1\<rparr>, hw_recv_pt := -1\<rparr>)"
  using no_payload [OF assms] by (simp add: rtp_session_set_recv_payload_type_def)

lemma set_jitter_params_unknown:
  assumes "d_pt (rcv_dir s) = -1"
  shows "rtp_session_set_jitter_buffer_params e par s = Some (upd_rtp (\<lambda>r. r\<lparr>
    jittctl := jitter_control_enable_adaptive (jitter_control_init (jittctl r) (jb_nom_size par) None)
                 (jb_adaptive par), max_rq_size := jb_max_packets par\<rparr>) s)"
  using assms by (simp add: rtp_session_set_jitter_buffer_params_def
      rtp_session_set_jitter_compensation_def upd_rtp_def)

text \<open>The flags a new session has.\<close>

definition init_flags :: "session_mode \<Rightarrow> u32" where
  "init_flags mode = (case mode of
      RTP_SESSION_RECVONLY \<Rightarrow> 0x11 | RTP_SESSION_SENDONLY \<Rightarrow> 0x21 | RTP_SESSION_SENDRECV \<Rightarrow> 0x31)"

lemma init_table: "st_count (rtp_signal_table_init n) = 0"
  "st_signal_name (rtp_signal_table_init n) = n"
  by (simp_all add: st_ok_def st_entries_def rtp_signal_table_init_def numeral_eq_Suc)

section \<open>A session for the examples\<close>

definition ex_env :: ort_env where
  "ex_env = \<lparr>env_pts = \<lparr>pts = (\<lambda>p. if p = 0 then Some (payload_zero\<lparr>clock_rate := 8000,
                   mime_type := Some ''PCMU''\<rparr>) else None), pt_next = 1\<rparr>,
     env_profiles = (\<lambda>p. if p = 0 then Some \<lparr>prof_name = None, payload = Some 0 # replicate 127 None\<rparr>
                        else None),
     env_sched = None, gstats = rtp_stats_zero, now = \<lparr>tv_sec = 1000, tv_usec = 500000\<rparr>,
     env_random = 0xCAFE, env_rands = [], connect_ok = True, calls = [], ev_queues = (\<lambda>_. []), rtp_in = [], rtcp_in = [],
     io_send = [], rtp_out = [], rtcp_out = []\<rparr>"

text \<open>A session in the middle of a call: 8 kHz audio received from the source 7.\<close>

definition ex_session :: rtp_session where
  "ex_session = session_zero\<lparr>s_mode := RTP_SESSION_SENDRECV, s_flags := 2,
     snd_dir := dir_zero\<lparr>d_ssrc := 0xCAFE, d_tev_pt := 101\<rparr>,
     rcv_dir := dir_zero\<lparr>d_ssrc := 7, d_tev_pt := 101\<rparr>, ssrc_set := True,
     signals := (\<lambda>_. rtp_signal_table_init ''signal''),
     rtp := rtp_stream_zero\<lparr>rs_socket := 3, max_rq_size := 100, ts_jump := 40000, hwrcv_extseq := 1000,
       hwrcv_seq_at_last_SR := 990, hwrcv_since_last_SR := 10, snd_last_ts := 160,
       ssrc_changed_thres := 50, stats := rtp_stats_zero\<lparr>packet_recv := 10, packet_sent := 4\<rparr>\<rparr>,
     rtcp := rtcp_stream_zero\<lparr>cs_socket := 4, cs_rem_addrlen := 16, cs_enabled := True\<rparr>\<rparr>"

lemma ex_prof_good: "prof_good ex_env 0"
  by (auto simp: prof_good_def ex_env_def profile_valid_def profile_ok_def)

lemma ex_profiles_good: "profiles_good ex_env ex_session"
  using ex_prof_good by (simp add: profiles_good_def ex_session_def dir_zero_def)

lemma init_fields_ready:
  assumes "prof_good e av" and "init_mode rnd ver mode = s2"
    and s3: "s3 = s2\<lparr>snd_dir := (snd_dir s2)\<lparr>d_profile := av, d_tev_pt := n\<rparr>,
            rcv_dir := (rcv_dir s2)\<lparr>d_profile := av, d_tev_pt := n\<rparr>\<rparr>"
  shows "\<exists>s8. rtp_session_set_recv_payload_type e (-1) (snd (rtp_session_set_send_payload_type 0 (init_fields s3))) = Some (0, s8) \<and>
    s_mode s8 = mode \<and> s_flags s8 OR 1 = init_flags mode \<and> profiles_good e s8 \<and>
    d_pt (snd_dir s8) = 0 \<and> d_pt (rcv_dir s8) = -1 \<and> hw_recv_pt s8 = -1 \<and>
    (mode \<noteq> RTP_SESSION_RECVONLY \<longrightarrow> d_ssrc (snd_dir s8) = rnd \<and> s_sd s8 \<noteq> None) \<and> \<not> ssrc_set s8 \<and>
    rq (rtp s8) = [] \<and> tev_rq (rtp s8) = [] \<and> stats (rtp s8) = rtp_stats_zero \<and>
    (\<forall>t. st_ok (signals s8 t) \<and> st_count (signals s8 t) = 0 \<and>
       find_signal (signals s8) (st_signal_name (signals s8 t)) (signal_tables s8) = Some t)"
proof -
  let ?s7 = "snd (rtp_session_set_send_payload_type 0 (init_fields s3))"
  have s2: "s_mode s2 = mode" "s_flags s2 OR 1 = init_flags mode"
    "mode \<noteq> RTP_SESSION_RECVONLY \<Longrightarrow> d_ssrc (snd_dir s2) = rnd \<and> s_sd s2 \<noteq> None"
    "rtp s2 = rtp_stream_zero" "\<not> ssrc_set s2" "signal_tables s2 = []"
    unfolding assms(2) [symmetric]
    by (cases mode; simp add: init_mode_def session_zero_def rtp_session_set_flag_def flag_defs
        rtp_session_set_source_description_def init_flags_def Let_def)+
  obtain s8 where s8: "s8 = ?s7\<lparr>rcv_dir := (rcv_dir ?s7)\<lparr>d_pt := -1\<rparr>, hw_recv_pt := -1\<rparr>" by blast
  have "rtp_session_set_recv_payload_type e (-1) ?s7 = Some (0, s8)"
    unfolding s8 using assms(1)
    by (intro set_recv_pt_unknown) (simp add: init_fields_def rtp_session_set_send_payload_type_def
        init_signal_def upd_rtp_def upd_rtcp_def Let_def s3)
  moreover have "s_mode s8 = mode" "s_flags s8 = s_flags s2" "profiles_good e s8"
    "d_pt (snd_dir s8) = 0" "d_pt (rcv_dir s8) = -1" "hw_recv_pt s8 = -1"
    "d_ssrc (snd_dir s8) = d_ssrc (snd_dir s2)" "s_sd s8 = s_sd s2" "\<not> ssrc_set s8"
    "rq (rtp s8) = []" "tev_rq (rtp s8) = []" "stats (rtp s8) = rtp_stats_zero"
    using assms(1) s2
    by (simp_all add: s8 s3 init_fields_def rtp_session_set_send_payload_type_def profiles_good_def
        init_signal_def upd_rtp_def upd_rtcp_def Let_def rtp_stream_zero_def)
  moreover have "st_ok (signals s8 t) \<and> st_count (signals s8 t) = 0 \<and>
      find_signal (signals s8) (st_signal_name (signals s8 t)) (signal_tables s8) = Some t" for t
    using s2(6)
    by (cases t) (simp_all add: s8 s3 init_fields_def rtp_session_set_send_payload_type_def init_table st_ok_init(1)
        init_signal_def upd_rtp_def upd_rtcp_def Let_def)
  ultimately show ?thesis using s2(2,3) by (intro exI [of _ s8]) simp
qed

text \<open>The jitter buffer that a new session gets.\<close>

definition default_jitter :: "rtp_stream \<Rightarrow> rtp_stream" where
  "default_jitter r = r\<lparr>jittctl := jitter_control_enable_adaptive (jitter_control_init (jittctl r) 80 None) True,
     max_rq_size := 100\<rparr>"

lemma init_intervals:
  assumes "profiles_good e s8" and "d_pt (rcv_dir s8) = -1"
  shows "\<exists>s10 b c. rtp_session_set_jitter_buffer_params e \<lparr>jb_min_size = RTP_DEFAULT_JITTER_TIME,
      jb_nom_size = RTP_DEFAULT_JITTER_TIME, jb_max_size = -1, jb_adaptive = True,
      jb_max_packets = 100\<rparr> (rtp_session_enable_jitter_buffer True s8) = Some s10 \<and>
    s10 = upd_rtp default_jitter (rtp_session_enable_jitter_buffer True s8) \<and>
    rtp_session_set_time_jump_limit e 5000 s10 = Some (upd_rtp (\<lambda>r. r\<lparr>time_jump := 5000, ts_jump := b\<rparr>) s10) \<and>
    rtp_session_set_rtcp_report_interval e RTCP_DEFAULT_REPORT_INTERVAL
      (rtp_session_enable_rtcp True (upd_rtp (\<lambda>r. r\<lparr>time_jump := 5000, ts_jump := b\<rparr>) s10)) =
      Some (upd_rtcp (\<lambda>_. c) (rtp_session_enable_rtcp True (upd_rtp (\<lambda>r. r\<lparr>time_jump := 5000, ts_jump := b\<rparr>) s10))) \<and>
    cs_enabled c"
proof -
  let ?s9 = "rtp_session_enable_jitter_buffer True s8"
  let ?s10 = "upd_rtp default_jitter ?s9"
  have r10: "rtp_session_set_jitter_buffer_params e \<lparr>jb_min_size = RTP_DEFAULT_JITTER_TIME,
      jb_nom_size = RTP_DEFAULT_JITTER_TIME, jb_max_size = -1, jb_adaptive = True,
      jb_max_packets = 100\<rparr> ?s9 = Some ?s10"
    using assms by (subst set_jitter_params_unknown)
      (simp_all add: rtp_session_enable_jitter_buffer_def rtp_session_set_flag_def upd_rtp_def
        RTP_DEFAULT_JITTER_TIME_def default_jitter_def)
  have g10: "profiles_good e ?s10"
    using assms(1) by (simp add: rtp_session_enable_jitter_buffer_def rtp_session_set_flag_def
        profiles_good_def upd_rtp_def)
  obtain b where r11: "rtp_session_set_time_jump_limit e 5000 ?s10 =
      Some (upd_rtp (\<lambda>r. r\<lparr>time_jump := 5000, ts_jump := b\<rparr>) ?s10)" (is "_ = Some ?s11")
    using set_time_jump_limit_total [OF g10] by blast
  let ?s11e = "rtp_session_enable_rtcp True ?s11"
  have "profiles_good e ?s11e" using g10 by (simp add: rtp_session_enable_rtcp_def)
  then obtain c where r12: "rtp_session_set_rtcp_report_interval e RTCP_DEFAULT_REPORT_INTERVAL ?s11e =
      Some (upd_rtcp (\<lambda>_. c) ?s11e)" and "cs_enabled c = cs_enabled (rtcp ?s11e)"
    using set_rtcp_report_interval_total by blast
  then have "cs_enabled c" by (simp add: rtp_session_enable_rtcp_def upd_rtcp_def)
  then show ?thesis using r10 r11 r12 by blast
qed



end
