(* ===== verification/Rtcp_Roundtrip.thy ===== *)
theory Rtcp_Roundtrip
  imports Rtp_Settings
begin

text \<open>
  What the RTCP builder of \<^verbatim>\<open>rtcp.c\<close> writes, the parser of
  \<^verbatim>\<open>rtcpparse.c\<close> reads back; and the walk over a compound packet stays in it.
\<close>

section \<open>Reading what was written\<close>

lemma sub_skip: "length xs \<le> i \<Longrightarrow> sub i n (xs @ ys) = sub (i - length xs) n ys"
  by (simp add: sub_def)

lemma rd32_skip [simp]: "length xs \<le> i \<Longrightarrow> rd32 (xs @ ys) i = rd32 ys (i - length xs)"
  by (auto simp: rd32_def sub_skip)

lemma rd32_here [simp]: "rd32 (be32_bytes w @ ys) 0 = Some w"
  by (simp add: rd32_def sub_def)

lemma rd32_last [simp]: "rd32 (be32_bytes w) 0 = Some w"
  using rd32_here [of w "[]"] by simp

lemma length_common_header [simp]: "length (rtcp_common_header ty rc n) = 4"
  by (simp add: rtcp_common_header_def)

text \<open>The common header, read at the place it was written.\<close>

lemma header_reads:
  assumes "m = \<lparr>rm_data = pre @ rtcp_common_header ty rc n @ post, rm_pos = length pre\<rparr>"
    and "0 \<le> ty" "ty < 256" and "0 \<le> rc" "rc < 32"
    and "n mod 4 = 0" "4 \<le> n" "n \<le> 262144"
  shows "rtcp_get_common_header m = Some (length pre)"
    and "rtcp_common_header_get_packet_type (rm_data m) (length pre) = Some ty"
    and "rtcp_common_header_get_rc (rm_data m) (length pre) = Some rc"
    and "rtcp_common_header_get_length (rm_data m) (length pre) = Some (n div 4 - 1)"
    and "rtcp_get_size m = Some n"
proof -
  let ?h = "rtcp_common_header ty rc n"
  have d: "rm_data m = pre @ ?h @ post" and p: "rm_pos m = length pre"
    using assms(1) by simp_all
  show 1: "rtcp_get_common_header m = Some (length pre)"
    by (simp add: rtcp_get_common_header_def rm_size_def d p)
  have t: "uint (of_int ty :: u8) = ty"
    using assms by (simp add: uint_word_of_int)
  show "rtcp_common_header_get_packet_type (rm_data m) (length pre) = Some ty"
    by (simp add: rtcp_common_header_get_packet_type_def d rd8_def rtcp_common_header_def nth_append t)
  have "(0x80 OR (of_int rc AND 0x1F :: u8)) AND 0x1F = of_int rc AND 0x1F"
    by (simp add: bit.conj_disj_distrib2 and.assoc)
  moreover have "uint (of_int rc AND 0x1F :: u8) = rc"
  proof -
    have "rc AND 31 = rc mod 2 ^ 5"
      using take_bit_eq_mask [of 5 rc] by (simp add: mask_eq_exp_minus_1 take_bit_eq_mod)
    then show ?thesis using assms by (simp add: uint_and uint_word_of_int)
  qed
  ultimately show "rtcp_common_header_get_rc (rm_data m) (length pre) = Some rc"
    by (simp add: rtcp_common_header_get_rc_def d rd8_def rtcp_common_header_def nth_append)
  have l: "uint (of_int (c_div n 4 - 1) :: u16) = n div 4 - 1"
  proof -
    have "c_div n 4 - 1 = n div 4 - 1" using assms by (simp add: c_div_def)
    then show ?thesis using assms by (simp only: uint_word_of_int) simp
  qed
  show 2: "rtcp_common_header_get_length (rm_data m) (length pre) = Some (n div 4 - 1)"
    using l by (simp add: rtcp_common_header_get_length_def d rd16_def rtcp_common_header_def sub_def)
  show "rtcp_get_size m = Some n"
  proof -
    have "(1 + (n div 4 - 1)) * 4 = n" using assms(6) by presburger
    then show ?thesis by (simp add: rtcp_get_size_def 1 2)
  qed
qed

section \<open>Sender and receiver reports\<close>

text \<open>What a report block says, as the parser's accessors read it at offset \<open>rb\<close>.\<close>

definition report_block_reads :: "u8 list \<Rightarrow> nat \<Rightarrow> rtp_session \<Rightarrow> ort_env \<Rightarrow> bool" where
  "report_block_reads bs rb s e \<longleftrightarrow>
     (let (cum, fl) = report_losses s; r = rtp s in
      report_block_get_ssrc bs rb = Some (d_ssrc (rcv_dir s)) \<and>
      report_block_get_fraction_lost bs rb = Some (fl AND 0xFF) \<and>
      report_block_get_cum_packet_loss bs rb = Some (ucast cum AND 0xFFFFFF) \<and>
      report_block_get_high_ext_seq bs rb = Some (hwrcv_extseq r) \<and>
      report_block_get_interarrival_jitter bs rb =
        Some (if has_flag s RTCP_OVERRIDE_JITTER then interarrival_jitter_test_vector s
              else of_int (trunc (inter_jitter (jittctl r)))) \<and>
      report_block_get_last_SR_time bs rb = Some (report_lsr s) \<and>
      report_block_get_last_SR_delay bs rb = Some (report_delay r (now e)))"

lemma loss_word:
  fixes f c :: u32
  shows "drop_bit 24 (push_bit 24 (f AND 0xFF) OR (c AND 0xFFFFFF)) = f AND 0xFF"
    and "(push_bit 24 (f AND 0xFF) OR (c AND 0xFFFFFF)) AND 0xFFFFFF = c AND 0xFFFFFF"
proof -
  have m: "(0xFF :: u32) = mask 8" "(0xFFFFFF :: u32) = mask 24"
    by (simp_all add: mask_eq_exp_minus_1)
  show "drop_bit 24 (push_bit 24 (f AND 0xFF) OR (c AND 0xFFFFFF)) = f AND 0xFF"
    unfolding m by (rule bit_word_eqI) (auto simp: bit_simps)
  show "(push_bit 24 (f AND 0xFF) OR (c AND 0xFFFFFF)) AND 0xFFFFFF = c AND 0xFFFFFF"
    unfolding m by (rule bit_word_eqI) (auto simp: bit_simps)
qed

lemma report_block_six:
  fixes a b c d e f :: u32
  assumes "length pre = rb"
    and "bs = pre @ (be32_bytes a @ be32_bytes b @ be32_bytes c @ be32_bytes d @ be32_bytes e @ be32_bytes f) @ post"
  shows "report_block_get_ssrc bs rb = Some a"
    "report_block_get_fraction_lost bs rb = Some (drop_bit 24 b)"
    "report_block_get_cum_packet_loss bs rb = Some (b AND 0xFFFFFF)"
    "report_block_get_high_ext_seq bs rb = Some c"
    "report_block_get_interarrival_jitter bs rb = Some d"
    "report_block_get_last_SR_time bs rb = Some e"
    "report_block_get_last_SR_delay bs rb = Some f"
  using assms
  by (auto simp: report_block_get_ssrc_def report_block_get_fraction_lost_def
      report_block_get_cum_packet_loss_def report_block_get_high_ext_seq_def
      report_block_get_interarrival_jitter_def report_block_get_last_SR_time_def
      report_block_get_last_SR_delay_def)

lemma report_lsr_upd_rtp:
  assumes "last_rcv_SR_time (f (rtp s)) = last_rcv_SR_time (rtp s)"
    and "last_rcv_SR_ts (f (rtp s)) = last_rcv_SR_ts (rtp s)"
  shows "report_lsr (upd_rtp f s) = report_lsr s"
  using assms by (simp add: report_lsr_def upd_rtp_def has_flag_def)

lemma report_delay_cong:
  "last_rcv_SR_time r = last_rcv_SR_time r' \<Longrightarrow> report_delay r tv = report_delay r' tv"
  by (simp add: report_delay_def)

lemma report_block_bytes:
  assumes "report_losses s = (cum, fl)"
  shows "fst (report_block_init s e) =
    be32_bytes (d_ssrc (rcv_dir s)) @
    be32_bytes (push_bit 24 (fl AND 0xFF) OR (ucast cum AND 0xFFFFFF)) @
    be32_bytes (hwrcv_extseq (rtp s)) @
    be32_bytes (if has_flag s RTCP_OVERRIDE_JITTER then interarrival_jitter_test_vector s
                else of_int (trunc (inter_jitter (jittctl (rtp s))))) @
    be32_bytes (report_lsr s) @ be32_bytes (report_delay (rtp s) (now e))"
proof -
  let ?f = "\<lambda>r. r\<lparr>stats := (stats r)\<lparr>cum_packet_loss := cum\<rparr>,
                  hwrcv_since_last_SR := 0, hwrcv_seq_at_last_SR := hwrcv_extseq r\<rparr>"
  have "report_lsr (upd_rtp ?f s) = report_lsr s" by (rule report_lsr_upd_rtp) simp_all
  moreover have "report_delay (rtp (upd_rtp ?f s)) (now e) = report_delay (rtp s) (now e)"
    by (rule report_delay_cong) (simp add: upd_rtp_def)
  moreover have "hwrcv_extseq (rtp (upd_rtp ?f s)) = hwrcv_extseq (rtp s)"
    "jittctl (rtp (upd_rtp ?f s)) = jittctl (rtp s)"
    by (simp_all add: upd_rtp_def)
  ultimately show ?thesis
    by (simp only: report_block_init_def assms Let_def prod.case fst_conv)
qed

lemma report_block_length: "length (fst (report_block_init s e)) = 24"
  by (cases "report_losses s") (simp add: report_block_bytes)

lemma report_block_reads_built:
  assumes "length pre = rb"
  shows "report_block_reads (pre @ fst (report_block_init s e) @ post) rb s e"
proof (cases "report_losses s")
  case (Pair cum fl)
  show ?thesis
    unfolding report_block_reads_def Pair Let_def prod.case
    by (intro conjI; subst report_block_six [OF assms arg_cong [where f = "\<lambda>x. pre @ x @ post", OF report_block_bytes [OF Pair]]])
       (simp_all only: loss_word)
qed

lemma report_lossesI:
  "stats (f (rtp s)) = stats (rtp s) \<Longrightarrow> hwrcv_extseq (f (rtp s)) = hwrcv_extseq (rtp s) \<Longrightarrow>
   hwrcv_seq_at_last_SR (f (rtp s)) = hwrcv_seq_at_last_SR (rtp s) \<Longrightarrow>
   hwrcv_since_last_SR (f (rtp s)) = hwrcv_since_last_SR (rtp s) \<Longrightarrow>
   report_losses (upd_rtp f s) = report_losses s"
  by (simp add: report_losses_def upd_rtp_def has_flag_def Let_def)

lemma report_block_after_sender_info:
  "fst (report_block_init (snd (sender_info_init s e)) e) = fst (report_block_init s e)"
proof (cases "report_losses s")
  case (Pair cum fl)
  let ?f = "\<lambda>r. r\<lparr>last_rtcp_packet_count := ucast (packet_sent (stats r))\<rparr>"
  have s1: "snd (sender_info_init s e) = upd_rtp ?f s"
    by (simp add: sender_info_init_def Let_def)
  have "report_losses (upd_rtp ?f s) = (cum, fl)"
    unfolding Pair [symmetric] by (rule report_lossesI) simp_all
  moreover have "report_lsr (upd_rtp ?f s) = report_lsr s" by (rule report_lsr_upd_rtp) simp_all
  moreover have "report_delay (rtp (upd_rtp ?f s)) (now e) = report_delay (rtp s) (now e)"
    by (rule report_delay_cong) (simp add: upd_rtp_def)
  ultimately show ?thesis
    unfolding s1 by (simp add: report_block_bytes Pair) (simp add: upd_rtp_def)
qed

definition sr_bytes :: "rtp_session \<Rightarrow> ort_env \<Rightarrow> u8 list" where
  "sr_bytes s e =
     (let n = (if packet_recv (stats (rtp s)) > 0 then 52 else 28) :: int
      in rtcp_common_header RTCP_SR (if n = 52 then 1 else 0) n @
         be32_bytes (d_ssrc (snd_dir s)) @ fst (sender_info_init s e) @
         (if n = 52 then fst (report_block_init s e) else []))"

lemma rtcp_sr_init_bytes: "fst (rtcp_sr_init s e) = sr_bytes s e"
  by (simp add: rtcp_sr_init_def sr_bytes_def Let_def split_beta report_block_after_sender_info)



section \<open>Losses\<close>

text \<open>
  The loss fraction of a report is 256 times the packets lost, divided by the packets
  received in the interval, and its low byte is sent; the cumulative loss grows by the packets lost.
\<close>

theorem loss_fraction_of_received:
  assumes "\<not> has_flag s RTCP_OVERRIDE_LOST_PACKETS" and "hwrcv_since_last_SR (rtp s) \<noteq> 0"
    and "hwrcv_extseq (rtp s) - hwrcv_seq_at_last_SR (rtp s) = hwrcv_since_last_SR (rtp s) + of_nat lost"
    and "lost < 2 ^ 23"
  shows "report_block_get_fraction_lost (fst (report_block_init s e)) 0 =
      Some (of_nat (256 * lost) div hwrcv_since_last_SR (rtp s) AND 0xFF) \<and>
    cum_packet_loss (stats (rtp (snd (report_block_init s e)))) =
      cum_packet_loss (stats (rtp s)) + of_nat lost"
proof -
  have "sint (of_nat lost :: u32) = int lost"
    using assms(4)
    by (simp add: sint_uint unsigned_of_nat take_bit_nat_eq_self signed_take_bit_int_eq_self)
  then have r: "report_losses s = (cum_packet_loss (stats (rtp s)) + of_nat lost,
      of_nat (256 * lost) div hwrcv_since_last_SR (rtp s))"
    using assms by (simp add: report_losses_def Let_def)
  moreover have "report_block_reads ([] @ fst (report_block_init s e) @ []) 0 s e"
    by (rule report_block_reads_built) simp
  moreover have "cum_packet_loss (stats (rtp (snd (report_block_init s e)))) = fst (report_losses s)"
    by (cases "report_losses s") (simp add: report_block_init_def upd_rtp_def Let_def)
  ultimately show ?thesis
    by (simp add: report_block_reads_def Let_def)
qed

text \<open>The division is by the received packets: half of the packets lost is reported as none.\<close>

definition ex_half_lost :: rtp_session where
  "ex_half_lost = ex_session\<lparr>rtp := (rtp ex_session)\<lparr>hwrcv_seq_at_last_SR := 980\<rparr>\<rparr>"

lemma loss_fraction_of_received_witness:
  "report_block_get_fraction_lost (fst (report_block_init ex_half_lost ex_env)) 0 = Some 0"
proof -
  have "\<not> has_flag ex_half_lost RTCP_OVERRIDE_LOST_PACKETS"
    "hwrcv_since_last_SR (rtp ex_half_lost) = 10"
    "hwrcv_extseq (rtp ex_half_lost) - hwrcv_seq_at_last_SR (rtp ex_half_lost) = 10 + of_nat 10"
    by (simp_all add: ex_half_lost_def ex_session_def rtp_stream_zero_def has_flag_def
        RTCP_OVERRIDE_LOST_PACKETS_def)
  then show ?thesis
    using loss_fraction_of_received [of ex_half_lost 10 ex_env] by simp
qed

section \<open>Source descriptions\<close>

text \<open>The items of a chunk, and their bytes.\<close>

definition sdes_items :: "(u8 \<times> string option) list \<Rightarrow> (u8 \<times> string) list" where
  "sdes_items = List.map_filter (\<lambda>(t, c). map_option (\<lambda>s. (t, take 255 s)) c)"

definition item_bytes :: "u8 \<times> string \<Rightarrow> u8 list" where
  "item_bytes i = [fst i, of_nat (length (snd i))] @ string_bytes (snd i)"

definition found_item :: "u32 \<Rightarrow> u8 \<times> string \<Rightarrow> sdes_found" where
  "found_item ssrc i = \<lparr>sf_csrc = ssrc, sf_type = fst i, sf_content = string_bytes (snd i)\<rparr>"

lemma length_string_bytes [simp]: "length (string_bytes s) = length s"
  by (simp add: string_bytes_def)

lemma length_item_bytes: "length (item_bytes i) = 2 + length (snd i)"
  by (simp add: item_bytes_def)

lemma bl_append_fits:
  "length bs + length d + (if pad then (4 - (length bs + length d) mod 4) mod 4 else 0) \<le> cap \<Longrightarrow>
   bl_append [(cap, bs)] d pad =
     [(cap, bs @ d @ replicate (if pad then (4 - (length bs + length d) mod 4) mod 4 else 0) 0)]"
  by (simp add: bl_append_def Let_def)

lemma take_min_length: "take (min (length a) n) a = take n a"
  by (cases "length a \<le> n") simp_all

lemma append_item_fits:
  assumes "length bs + length (concat (map item_bytes (sdes_items [(t, c)]))) \<le> cap"
  shows "sdes_chunk_append_item [(cap, bs)] t c =
    [(cap, bs @ concat (map item_bytes (sdes_items [(t, c)])))]"
  using assms
  by (cases c) (auto simp: sdes_chunk_append_item_def sdes_items_def List.map_filter_simps Let_def
      bl_append_fits item_bytes_def RTCP_SDES_MAX_STRING_SIZE_def take_min_length min.commute)

lemma sdes_items_Cons:
  "sdes_items ((t, c) # is) = sdes_items [(t, c)] @ sdes_items is"
  by (cases c) (simp_all add: sdes_items_def List.map_filter_simps)

definition chunk_items :: "string option list \<Rightarrow> (u8 \<times> string) list" where
  "chunk_items cs = sdes_items (zip [RTCP_SDES_CNAME, RTCP_SDES_NAME, RTCP_SDES_EMAIL, RTCP_SDES_PHONE,
     RTCP_SDES_LOC, RTCP_SDES_TOOL, RTCP_SDES_NOTE] cs)"

definition items_size :: "(u8 \<times> string) list \<Rightarrow> nat" where
  "items_size is = length (concat (map item_bytes is))"

lemma append_items_fit:
  "length bs + items_size (sdes_items is) \<le> cap \<Longrightarrow>
   fold (\<lambda>(t, c) m. sdes_chunk_append_item m t c) is [(cap, bs)] =
     [(cap, bs @ concat (map item_bytes (sdes_items is)))]"
proof (induction "is" arbitrary: bs)
  case Nil
  then show ?case by (simp add: sdes_items_def List.map_filter_simps)
next
  case (Cons i "is")
  obtain t c where i: "i = (t, c)" by fastforce
  have s: "sdes_items (i # is) = sdes_items [(t, c)] @ sdes_items is"
    unfolding i by (rule sdes_items_Cons)
  have "length bs + items_size (sdes_items [(t, c)]) \<le> cap"
    "length (bs @ concat (map item_bytes (sdes_items [(t, c)]))) + items_size (sdes_items is) \<le> cap"
    using Cons.prems by (simp_all add: s items_size_def)
  then show ?case
    using Cons.IH by (simp add: i s [unfolded i] append_item_fits items_size_def)
qed

lemma padded_to_words: "(n + 1 + (4 - (n + 1) mod 4) mod 4) mod 4 = (0 :: nat)"
proof (cases "(n + 1) mod 4 = 0")
  case False
  then have "(4 - (n + 1) mod 4) mod 4 = 4 - (n + 1) mod 4" by (intro mod_less) auto
  moreover have "(n + 1 + (4 - (n + 1) mod 4)) mod 4 = ((n + 1) mod 4 + (4 - (n + 1) mod 4)) mod 4"
    by (metis mod_add_left_eq)
  ultimately show ?thesis by simp
qed simp

lemma sdes_chunk_fits:
  assumes "8 + items_size (chunk_items [cname, name, email, phone, loc, tool, note]) \<le> 1024"
  obtains k where "bl_bytes (sdes_chunk ssrc cname name email phone loc tool note) =
      be32_bytes ssrc @ concat (map item_bytes (chunk_items [cname, name, email, phone, loc, tool, note])) @
      0 # replicate k 0"
    and "length (bl_bytes (sdes_chunk ssrc cname name email phone loc tool note)) mod 4 = 0"
    and "length (bl_bytes (sdes_chunk ssrc cname name email phone loc tool note)) \<le> 1024"
proof -
  let ?l = "zip [RTCP_SDES_CNAME, RTCP_SDES_NAME, RTCP_SDES_EMAIL, RTCP_SDES_PHONE,
     RTCP_SDES_LOC, RTCP_SDES_TOOL, RTCP_SDES_NOTE] [cname, name, email, phone, loc, tool, note]"
  let ?i = "chunk_items [cname, name, email, phone, loc, tool, note]"
  let ?b = "be32_bytes ssrc @ concat (map item_bytes ?i)"
  let ?k = "(4 - (length ?b + 1) mod 4) mod 4"
  have "fold (\<lambda>(t, c) m. sdes_chunk_append_item m t c) ?l [(1024, be32_bytes ssrc)] = [(1024, ?b)]"
    unfolding chunk_items_def
    by (rule append_items_fit) (use assms in \<open>simp add: chunk_items_def\<close>)
  then have "sdes_chunk ssrc cname name email phone loc tool note = bl_append [(1024, ?b)] [0] True"
    by (simp add: sdes_chunk_def sdes_chunk_new_def sdes_chunk_pad_def RTCP_SDES_CHUNK_DEFAULT_SIZE_def)
  also have "\<dots> = [(1024, ?b @ [0] @ replicate ?k 0)]"
    by (subst bl_append_fits) (use assms in \<open>auto simp: items_size_def\<close>)
  finally have b: "bl_bytes (sdes_chunk ssrc cname name email phone loc tool note) = ?b @ 0 # replicate ?k 0"
    by (simp add: bl_bytes_def)
  show ?thesis
  proof (rule that [of ?k])
    show "bl_bytes (sdes_chunk ssrc cname name email phone loc tool note) =
      be32_bytes ssrc @ concat (map item_bytes ?i) @ 0 # replicate ?k 0"
      unfolding b by simp
    have l: "length (?b @ 0 # replicate ?k 0) = length ?b + 1 + ?k" by simp
    show "length (bl_bytes (sdes_chunk ssrc cname name email phone loc tool note)) mod 4 = 0"
      by (simp only: b l padded_to_words)
    show "length (bl_bytes (sdes_chunk ssrc cname name email phone loc tool note)) \<le> 1024"
      using assms by (simp only: b l) (simp add: items_size_def)
  qed
qed

lemma sdes_loop_items:
  assumes "bs = pre @ concat (map item_bytes is) @ 0 # post"
    and "\<forall>i \<in> set is. fst i \<noteq> 0 \<and> length (snd i) \<le> 255"
    and "length pre + items_size is \<le> e" "e \<le> length bs"
  shows "sdes_loop bs e 1 (length pre) ssrc 0 False = map (found_item ssrc) is"
  using assms
proof (induction "is" arbitrary: pre)
  case Nil
  then show ?case by (subst sdes_loop.simps) (simp add: Let_def nth_append)
next
  case (Cons i "is")
  have bs: "bs = (pre @ item_bytes i) @ concat (map item_bytes is) @ 0 # post"
    using Cons.prems(1) by simp
  have l: "length (pre @ item_bytes i) = length pre + 2 + length (snd i)"
    by (simp add: length_item_bytes)
  have e: "length pre + 2 + length (snd i) + items_size is \<le> e"
    using Cons.prems(3) by (simp add: items_size_def length_item_bytes)
  have r: "bs ! length pre = fst i" "bs ! Suc (length pre) = of_nat (length (snd i))"
    "sub (length pre + 2) (length (snd i)) bs = string_bytes (snd i)"
    by (simp_all add: bs item_bytes_def nth_append sub_def)
  have u: "unat (of_nat (length (snd i)) :: u8) = length (snd i)"
    using Cons.prems(2) by (simp add: unat_of_nat)
  have "sdes_loop bs e 1 (length pre) ssrc 0 False =
      found_item ssrc i # sdes_loop bs e 1 (length pre + 2 + length (snd i)) ssrc 0 False"
    using e Cons.prems(2) r u
    by (subst sdes_loop.simps) (simp add: Let_def found_item_def)
  also have "sdes_loop bs e 1 (length pre + 2 + length (snd i)) ssrc 0 False = map (found_item ssrc) is"
    unfolding l [symmetric] by (rule Cons.IH) (use Cons.prems e bs l in simp_all)
  finally show ?case by simp
qed

lemma chunk_items_ok: "\<forall>i \<in> set (chunk_items cs). fst i \<noteq> 0 \<and> length (snd i) \<le> 255"
proof -
  have "\<forall>i \<in> set (sdes_items xs). fst i \<in> fst ` set xs \<and> length (snd i) \<le> 255" for xs
    by (induction xs) (auto simp: sdes_items_def List.map_filter_simps split: option.splits)
  then show ?thesis
    unfolding chunk_items_def
    by (fastforce dest!: set_zip_leftD simp: RTCP_SDES_CNAME_def RTCP_SDES_NAME_def RTCP_SDES_EMAIL_def
        RTCP_SDES_PHONE_def RTCP_SDES_LOC_def RTCP_SDES_TOOL_def RTCP_SDES_NOTE_def)
qed

lemma sdes_chunk_read:
  assumes d: "d = pre @ (be32_bytes ssrc @ concat (map item_bytes items) @ 0 # replicate k 0) @ post"
    and "length pre = p" and e: "p + 4 + items_size items \<le> e" "e \<le> length d"
    and ok: "\<forall>i \<in> set items. fst i \<noteq> 0 \<and> length (snd i) \<le> 255"
  shows "sdes_loop d e 1 p 0 0 True = map (found_item ssrc) items"
proof -
  have ssrc: "be32 (sub p 4 d) = ssrc" by (simp add: d assms(2) [symmetric] sub_def)
  have "sdes_loop d e 1 p 0 0 True = sdes_loop d e 1 (p + 4) ssrc 0 False"
    using e ssrc by (subst sdes_loop.simps) (simp add: add.commute)
  also have "\<dots> = map (found_item ssrc) items"
    using sdes_loop_items [of d "pre @ be32_bytes ssrc" items "replicate k 0 @ post" e ssrc] ok e
    by (simp add: d assms(2) [symmetric] add.assoc)
  finally show ?thesis .
qed

text \<open>
  C7. The source description of a session parses back: when the items fit in the 1024 bytes of a
  chunk, the SDES packet is recognised at any place of a compound packet, has the length its header
  gives, and the parser finds exactly the items set, with the session's source, each content cut
  to 255 bytes, and \<^verbatim>\<open>Unknown\<close> for a missing canonical name.
\<close>

theorem source_description_parses_back:
  assumes "opts = [Some (case cname of None \<Rightarrow> ''Unknown'' | Some c \<Rightarrow> c), name, email, phone, loc, tool, note]"
    and "8 + items_size (chunk_items opts) \<le> 1024"
    and "contributing_sources s = []"
    and "rtp_session_create_rtcp_sdes_packet
           (rtp_session_set_source_description s cname name email phone loc tool note) = Some (bs, s')"
    and "m = \<lparr>rm_data = pre @ bs @ post, rm_pos = length pre\<rparr>"
  shows "rtcp_is_SDES m = Some True \<and> rtcp_get_size m = Some (int (length bs)) \<and>
    rtcp_sdes_parse m = Some (map (found_item (d_ssrc (snd_dir s))) (chunk_items opts))"
proof -
  let ?ssrc = "d_ssrc (snd_dir s)"
  let ?cn = "case cname of None \<Rightarrow> Some ''Unknown'' | Some c \<Rightarrow> Some c"
  have o: "opts = [?cn, name, email, phone, loc, tool, note]"
    using assms(1) by (simp split: option.split)
  obtain k where chunk: "bl_bytes (sdes_chunk ?ssrc ?cn name email phone loc tool note) =
      be32_bytes ?ssrc @ concat (map item_bytes (chunk_items opts)) @ 0 # replicate k 0"
    and l4: "length (bl_bytes (sdes_chunk ?ssrc ?cn name email phone loc tool note)) mod 4 = 0"
    and l1024: "length (bl_bytes (sdes_chunk ?ssrc ?cn name email phone loc tool note)) \<le> 1024"
    using sdes_chunk_fits [OF assms(2) [unfolded o]] unfolding o by metis
  let ?sd = "be32_bytes ?ssrc @ concat (map item_bytes (chunk_items opts)) @ 0 # replicate k 0"
  let ?n = "int (4 + length ?sd)"
  have put: "put_at 0 (be32_bytes ?ssrc) ?sd = ?sd" by (simp add: put_at_def)
  have bs: "bs = rtcp_common_header RTCP_SDES 1 ?n @ ?sd"
    using assms(3,4) put
    by (simp add: rtp_session_create_rtcp_sdes_packet_def rtp_session_set_source_description_def chunk
        Let_def del: of_nat_add)
  have n: "?n mod 4 = 0" "4 \<le> ?n" "?n \<le> 1028"
    using l4 l1024 unfolding chunk by presburger+
  have lb: "int (length bs) = ?n" by (simp add: bs)
  have m: "m = \<lparr>rm_data = pre @ rtcp_common_header RTCP_SDES 1 ?n @ (?sd @ post), rm_pos = length pre\<rparr>"
    by (simp add: assms(5) bs)
  obtain N where N: "N = ?n" by blast
  note h = header_reads [OF m [folded N], unfolded RTCP_SDES_def]
  have hr: "rtcp_get_common_header m = Some (length pre)"
    "rtcp_common_header_get_packet_type (rm_data m) (length pre) = Some RTCP_SDES"
    "rtcp_common_header_get_rc (rm_data m) (length pre) = Some 1"
    "rtcp_common_header_get_length (rm_data m) (length pre) = Some (N div 4 - 1)"
    "rtcp_get_size m = Some N"
    unfolding RTCP_SDES_def by (rule h; use n [folded N] in simp)+
  have is_sdes: "rtcp_is_SDES m = Some True" "rm_pos m = length pre"
    using hr lb by (simp_all add: rtcp_is_SDES_def rtcp_is_def rm_size_def assms(5) N)
  let ?d = "rm_data m"
  let ?e = "min (length pre + 4 + nat (4 * (?n div 4))) (length ?d)"
  have d: "?d = (pre @ rtcp_common_header RTCP_SDES 1 ?n) @ ?sd @ post" by (simp add: m)
  have "nat (4 * (int l div 4)) = l" if "int l mod 4 = 0" for l :: nat
    using that by (simp add: mult_div_mod_eq dvd_mult_div_cancel mod_eq_0_iff_dvd)
  from this [OF n(1)] have e: "length pre + 4 + 4 + items_size (chunk_items opts) \<le> ?e" "?e \<le> length ?d"
    by (simp_all add: d items_size_def)
  have "sdes_loop ?d ?e 1 (length pre + 4) 0 0 True = map (found_item ?ssrc) (chunk_items opts)"
    by (rule sdes_chunk_read [OF d _ e chunk_items_ok]) simp
  then have "rtcp_sdes_parse m = Some (map (found_item ?ssrc) (chunk_items opts))"
    using hr(3,4) is_sdes(2) by (simp add: rtcp_sdes_parse_def N)
  then show ?thesis using is_sdes hr(5) lb by (simp add: N)
qed

lemma source_description_parses_back_witness:
  "\<exists>bs s'. rtp_session_create_rtcp_sdes_packet
      (rtp_session_set_source_description ex_session (Some ''me@host'') None None None None (Some ''x'') None) =
      Some (bs, s') \<and>
    rtcp_sdes_parse \<lparr>rm_data = bs, rm_pos = 0\<rparr> = Some (map (found_item 0xCAFE) [(1, ''me@host''), (6, ''x'')])"
proof -
  let ?s = "rtp_session_set_source_description ex_session (Some ''me@host'') None None None None (Some ''x'') None"
  let ?opts = "[Some (case Some ''me@host'' of None \<Rightarrow> ''Unknown'' | Some c \<Rightarrow> c),
     None, None, None, None, Some ''x'', None]"
  have i: "chunk_items ?opts = [(1, ''me@host''), (6, ''x'')]"
    by (simp add: chunk_items_def sdes_items_def List.map_filter_simps RTCP_SDES_CNAME_def RTCP_SDES_TOOL_def)
  have f: "8 + items_size (chunk_items ?opts) \<le> 1024"
    unfolding i by (simp add: items_size_def length_item_bytes)
  have c: "contributing_sources ex_session = []" "d_ssrc (snd_dir ex_session) = 0xCAFE"
    by (simp_all add: ex_session_def session_zero_def dir_zero_def)
  have cs: "contributing_sources ?s = []" "s_sd ?s \<noteq> None"
    using c by (simp_all add: rtp_session_set_source_description_def)
  then obtain bs s' where r: "rtp_session_create_rtcp_sdes_packet ?s = Some (bs, s')"
    by (auto simp: rtp_session_create_rtcp_sdes_packet_def Let_def)
  show ?thesis
    using source_description_parses_back [OF refl f c(1) r, of _ "[]" "[]"] r i c by auto
qed

section \<open>Walking a compound packet\<close>

lemma rtcp_walk_unfold:
  "rtcp_walk m = [rm_pos m] \<or>
   (\<exists>m'. rtcp_next_packet m = Some (True, m') \<and> rtcp_walk m = rm_pos m # rtcp_walk m')"
proof (cases "rtcp_next_packet m")
  case (Some r)
  obtain b m' where "r = (b, m')" by fastforce
  then show ?thesis using Some by (cases b) (simp_all add: rtcp_walk.simps [of m])
qed (simp add: rtcp_walk.simps [of m])

text \<open>
  C32. Walking a compound packet with \<^verbatim>\<open>rtcp_next_packet\<close> ends; it visits the packet at the
  read pointer first, every next packet starts at least a header further, and all of them start
  inside the datagram, whatever lengths the headers claim.
\<close>

theorem rtcp_walk_in_datagram:
  "sorted_wrt (\<lambda>a b. a + 4 \<le> b) (rtcp_walk m) \<and> hd (rtcp_walk m) = rm_pos m \<and>
   (\<forall>p \<in> set (tl (rtcp_walk m)). p < length (rm_data m))"
proof (induction m rule: rtcp_walk.induct)
  case (1 m)
  show ?case
    using rtcp_walk_unfold [of m]
  proof
    assume "\<exists>m'. rtcp_next_packet m = Some (True, m') \<and> rtcp_walk m = rm_pos m # rtcp_walk m'"
    then obtain m' where n: "rtcp_next_packet m = Some (True, m')"
      and w: "rtcp_walk m = rm_pos m # rtcp_walk m'" by blast
    have p: "rm_data m' = rm_data m" "rm_pos m + 4 \<le> rm_pos m'" "rm_pos m' < length (rm_data m)"
      using rtcp_next_packet_progress [OF n] by simp_all
    have IH: "sorted_wrt (\<lambda>a b. a + 4 \<le> b) (rtcp_walk m')" "hd (rtcp_walk m') = rm_pos m'"
      "\<forall>q \<in> set (tl (rtcp_walk m')). q < length (rm_data m')"
      using "1.IH" [OF n] by simp_all
    obtain t where t: "rtcp_walk m' = rm_pos m' # t"
      using rtcp_walk_unfold [of m'] by auto
    have "\<forall>q \<in> set t. rm_pos m' + 4 \<le> q" using IH(1) by (simp add: t)
    then show ?thesis using IH p by (fastforce simp: w t)
  qed simp
qed

text \<open>A BYE packet followed by an empty receiver report.\<close>

definition ex_compound :: rtcp_msg where
  "ex_compound = \<lparr>rm_data = rtcp_create_simple_bye_packet 7 None @ [0x80, 201, 0, 1, 0, 0, 0, 7], rm_pos = 0\<rparr>"

lemma ex_compound_walk: "rtcp_walk ex_compound = [0, 8]"
proof -
  have "rtcp_next_packet ex_compound = Some (True, ex_compound\<lparr>rm_pos := 8\<rparr>)"
    "rtcp_next_packet (ex_compound\<lparr>rm_pos := 8\<rparr>) = Some (False, ex_compound\<lparr>rm_pos := 8\<rparr>)"
    by code_simp+
  then show ?thesis by (simp add: rtcp_walk.simps) (simp add: ex_compound_def)
qed

lemma rtcp_walk_in_datagram_witness: "rtcp_walk ex_compound = [0, 8] \<and> 8 < length (rm_data ex_compound)"
  using rtcp_walk_in_datagram [of ex_compound] by (simp add: ex_compound_walk)

text \<open>
  The fixed part of a packet the parser accepts as a sender report can be read, and so can
  every report block it hands out, as long as the datagram is as long as its header says.
\<close>

theorem accepted_report_is_readable:
  assumes "rtcp_is_SR m = Some True"
  shows "(\<forall>i \<le> 24. rd32 (rm_data m) (rm_pos m + i) \<noteq> None) \<and>
    (\<forall>n idx rb i. rtcp_get_size m = Some n \<and> n \<le> rm_size m \<and>
       rtcp_SR_get_report_block m idx = Some (Some rb) \<and> i \<le> 20 \<longrightarrow>
       rd32 (rm_data m) (rb + i) \<noteq> None)"
proof -
  have s: "rm_size m \<ge> 28"
    using assms by (auto simp: rtcp_is_SR_def rtcp_is_def split: option.splits if_splits)
  then have "rd32 (rm_data m) (rm_pos m + i) \<noteq> None" if "i \<le> 24" for i
    using that by (auto simp: rd32_def rm_size_def)
  moreover have "rd32 (rm_data m) (rb + i) \<noteq> None"
    if "rtcp_get_size m = Some n" "n \<le> rm_size m" "rtcp_SR_get_report_block m idx = Some (Some rb)" "i \<le> 20"
    for n idx rb i
    using that by (auto simp: rtcp_SR_get_report_block_def rd32_def rm_size_def split: if_splits)
  ultimately show ?thesis by blast
qed

definition ex_sr :: rtcp_msg where
  "ex_sr = \<lparr>rm_data = fst (rtcp_sr_init ex_session ex_env), rm_pos = 0\<rparr>"

lemma ex_sr_is_SR: "rtcp_is_SR ex_sr = Some True"
proof -
  let ?h = "rtcp_common_header RTCP_SR 1 52"
  obtain body where b: "fst (rtcp_sr_init ex_session ex_env) = ?h @ body" "length body = 48"
    using report_block_length [of ex_session ex_env]
    by (simp add: rtcp_sr_init_bytes sr_bytes_def ex_session_def rtp_stream_zero_def
        sender_info_init_def Let_def)
  have m: "ex_sr = \<lparr>rm_data = [] @ ?h @ body, rm_pos = length ([] :: u8 list)\<rparr>"
    by (simp add: ex_sr_def b)
  show ?thesis
    using header_reads(1,2) [OF m] b
    by (simp add: rtcp_is_SR_def rtcp_is_def RTCP_SR_def ex_sr_def rm_size_def)
qed

lemma accepted_report_is_readable_witness: "rd32 (rm_data ex_sr) (rm_pos ex_sr + 24) \<noteq> None"
  using accepted_report_is_readable [OF ex_sr_is_SR] by blast

text \<open>
  Only the header's claim is checked: a receiver report of 32 bytes whose header says 56 is
  accepted and its second block is handed out, past the end.
\<close>

definition ex_short_rr :: rtcp_msg where
  "ex_short_rr = \<lparr>rm_data = [0x82, 201, 0, 13] @ replicate 28 0, rm_pos = 0\<rparr>"

lemma report_block_past_the_end:
  "rtcp_is_RR ex_short_rr = Some True \<and> rtcp_RR_get_report_block ex_short_rr 1 = Some (Some 32) \<and>
   report_block_get_ssrc (rm_data ex_short_rr) 32 = None"
  by (intro conjI; code_simp)

text \<open>
  The sources of a BYE are looked for with the length in words taken as bytes: the source of the
  library's own BYE packet is not found.
\<close>

lemma bye_source_not_found:
  "rtcp_BYE_get_ssrc \<lparr>rm_data = rtcp_create_simple_bye_packet 7 None, rm_pos = 0\<rparr> 0 = Some (False, 0)"
  by code_simp

end
