(* ===== verification/Rtp_Parse.thy ===== *)
theory Rtp_Parse
  imports Rtp_Settings
begin

text \<open>
  The treatment of an arriving RTP datagram, \<^verbatim>\<open>oRTP/src/rtpparse.c\<close>: it is counted,
  checked, converted to host order, matched against the locked source, used for the sequence
  number and jitter statistics, and inserted in the queue of the session or in that of the
  telephone events. The message is consumed: what is not queued or dispatched is freed.
\<close>

section \<open>Queueing\<close>

definition pkt_seq :: "packet \<Rightarrow> u16" where "pkt_seq p = rtp_get_seqnumber (pk_data p)"
definition pkt_ts :: "packet \<Rightarrow> u32" where "pkt_ts p = rtp_get_timestamp (pk_data p)"

text \<open>The loop that keeps the queue below its limit; on an empty queue it would free \<^verbatim>\<open>NULL\<close>.\<close>

fun trim_queue :: "int \<Rightarrow> packet list \<Rightarrow> int \<Rightarrow> (int \<times> packet list) option" where
  "trim_queue maxrqsz [] discarded = (if 0 > maxrqsz then None else Some (discarded, []))"
| "trim_queue maxrqsz (p # ps) discarded =
     (if int (length (p # ps)) > maxrqsz then trim_queue maxrqsz ps (discarded + 1)
      else Some (discarded, p # ps))"

text \<open>The result, the count of discarded packets, and the queue.\<close>

definition queue_packet ::
  "packet list \<Rightarrow> int \<Rightarrow> packet \<Rightarrow> (bool \<times> int \<times> packet list) option" where
  "queue_packet q maxrqsz mp =
     (if length (pk_data mp) = 12 + 4 * rtp_get_cc (pk_data mp) then Some (False, 1, q)
      else do {
        (d, q1) \<leftarrow> trim_queue maxrqsz (rtp_putq_list pkt_seq mp q) 0;
        Some (True, d, q1) })"

section \<open>Statistics\<close>

definition count_bad :: "rtp_session \<Rightarrow> ort_env \<Rightarrow> rtp_session \<times> ort_env" where
  "count_bad s e = (upd_stats (\<lambda>t. t\<lparr>st_bad := st_bad t + 1\<rparr>) s,
                    upd_gstats (\<lambda>t. t\<lparr>st_bad := st_bad t + 1\<rparr>) e)"

definition count_discarded :: "int \<Rightarrow> rtp_session \<Rightarrow> ort_env \<Rightarrow> rtp_session \<times> ort_env" where
  "count_discarded i s e = (upd_stats (\<lambda>t. t\<lparr>st_discarded := st_discarded t + of_int i\<rparr>) s,
                            upd_gstats (\<lambda>t. t\<lparr>st_discarded := st_discarded t + of_int i\<rparr>) e)"

text \<open>The extended highest sequence number: the low half follows, the high half counts cycles.\<close>

definition update_extseq :: "u32 \<Rightarrow> u16 \<Rightarrow> u32" where
  "update_extseq ext seq =
     (let lo = ucast ext :: u16; hi = ucast (drop_bit 16 ext) :: u16
      in if seq > lo then push_bit 16 (ucast hi) OR ucast seq
         else if seq < 200 \<and> lo > 65336 then push_bit 16 (ucast (hi + 1)) OR ucast seq
         else ext)"

section \<open>Locking on a source\<close>

definition store_remote_addr :: "nat \<Rightarrow> rtp_session \<Rightarrow> rtp_session" where
  "store_remote_addr addr s =
     (if \<not> use_connect s \<and> rs_socket (rtp s) > 0 \<and> symmetric_rtp s
      then upd_rtp (\<lambda>r. r\<lparr>rs_rem_addr := addr\<rparr>) s else s)"

text \<open>How often in a row the same foreign source has been seen, and the switch to it.\<close>

definition count_candidate :: "u32 \<Rightarrow> rtp_session \<Rightarrow> rtp_session" where
  "count_candidate ssrc s =
     (if inc_ssrc_candidate s = ssrc
      then s\<lparr>inc_same_ssrc_count := inc_same_ssrc_count s + 1\<rparr>
      else s\<lparr>inc_same_ssrc_count := 0, inc_ssrc_candidate := ssrc\<rparr>)"

definition switch_source :: "u8 list \<Rightarrow> nat \<Rightarrow> rtp_session \<Rightarrow> rtp_session" where
  "switch_source hdr addr s =
     (let s1 = upd_rtp (\<lambda>r. r\<lparr>rcv_last_ts := rtp_get_timestamp hdr\<rparr>) (store_remote_addr addr s)
      in s1\<lparr>rcv_dir := (rcv_dir s1)\<lparr>d_ssrc := rtp_get_ssrc hdr\<rparr>\<rparr>)"

text \<open>Whether the packet is accepted. The header is in host order.\<close>

definition check_ssrc ::
  "u8 list \<Rightarrow> nat \<Rightarrow> rtp_session \<Rightarrow> ort_env \<Rightarrow> (bool \<times> rtp_session \<times> ort_env) option" where
  "check_ssrc hdr addr s e =
     (let ssrc = rtp_get_ssrc hdr
      in if ssrc_set s then
           if d_ssrc (rcv_dir s) \<noteq> ssrc then
             let s1 = count_candidate ssrc s
             in if inc_same_ssrc_count s1 \<ge> ssrc_changed_thres (rtp s1) then do {
                  let s2 = switch_source hdr addr s1;
                  e1 \<leftarrow> emit_signal On_ssrc_changed [] s2 e;
                  Some (True, s2, e1) }
                else Some (False, count_bad s1 e)
           else Some (True, s\<lparr>inc_same_ssrc_count := 0\<rparr>, e)
         else
           Some (True, store_remote_addr addr
                   (s\<lparr>ssrc_set := True, rcv_dir := (rcv_dir s)\<lparr>d_ssrc := ssrc\<rparr>\<rparr>), e))"

text \<open>The sequence statistics.\<close>

definition update_seq_stats :: "u16 \<Rightarrow> rtp_session \<Rightarrow> rtp_session" where
  "update_seq_stats seq = upd_rtp (\<lambda>r.
     let r1 = r\<lparr>hwrcv_extseq := update_extseq (hwrcv_extseq r) seq\<rparr>
     in if packet_recv (stats r1) = 1 then r1\<lparr>hwrcv_seq_at_last_SR := ucast seq\<rparr> else r1)"

section \<open>Timestamp jumps\<close>

text \<open>
  Whether the packet is too old to be queued; the jump signal gets the address of the
  timestamp, recorded here as its value.
\<close>

definition check_jump :: "u32 \<Rightarrow> rtp_session \<Rightarrow> ort_env \<Rightarrow> (bool \<times> ort_env) option" where
  "check_jump ts s e =
     (if has_flag s RTP_SESSION_FIRST_PACKET_DELIVERED then
        let last_ts = rcv_last_ts (rtp s)
        in if RTP_TIMESTAMP_IS_NEWER_THAN ts (last_ts + ts_jump (rtp s)) then do {
             e1 \<leftarrow> emit_signal On_timestamp_jump [unat ts] s e;
             Some (False, e1) }
           else if RTP_TIMESTAMP_IS_STRICTLY_NEWER_THAN last_ts ts then do {
             e1 \<leftarrow> (if RTP_TIMESTAMP_IS_STRICTLY_NEWER_THAN last_ts (ts + ts_jump (rtp s))
                    then emit_signal On_timestamp_jump [unat ts] s e else Some e);
             Some (True, e1) }
           else Some (False, e)
      else Some (False, e))"

definition count_outoftime :: "rtp_session \<Rightarrow> ort_env \<Rightarrow> rtp_session \<times> ort_env" where
  "count_outoftime s e = (upd_stats (\<lambda>t. t\<lparr>outoftime := outoftime t + 1\<rparr>) s,
                          upd_gstats (\<lambda>t. t\<lparr>outoftime := outoftime t + 1\<rparr>) e)"

section \<open>The whole treatment\<close>

text \<open>From the statistics on, for an accepted packet whose header is in host order.\<close>

definition parse_media ::
  "packet \<Rightarrow> u32 \<Rightarrow> rtp_session \<Rightarrow> ort_env \<Rightarrow> (rtp_session \<times> ort_env) option" where
  "parse_media mp local_str_ts s e = do {
     let hdr = pk_data mp;
     s1 \<leftarrow> (if hw_recv_pt s \<noteq> rtp_get_payload_type hdr
           then rtp_session_update_payload_type e (rtp_get_payload_type hdr) s else Some s);
     let s2 = upd_rtp (\<lambda>r. r\<lparr>jittctl :=
                jitter_control_new_packet (jittctl r) (rtp_get_timestamp hdr) local_str_ts\<rparr>) s1;
     (old, e1) \<leftarrow> check_jump (rtp_get_timestamp hdr) s2 e;
     if old then Some (count_outoftime s2 e1)
     else do {
       (queued, i, q) \<leftarrow> queue_packet (rq (rtp s2)) (max_rq_size (rtp s2)) mp;
       let s3 = upd_rtp (\<lambda>r. r\<lparr>rq := q\<rparr>) s2;
       let s4 = (if queued
                 then upd_rtp (\<lambda>r. r\<lparr>jittctl := jitter_control_update_size (jittctl r) (map pkt_ts q)\<rparr>) s3
                 else s3);
       Some (count_discarded i s4 e1) } }"

text \<open>An accepted packet is counted and goes to the queue of events or to the media queue.\<close>

definition parse_accepted ::
  "packet \<Rightarrow> u32 \<Rightarrow> rtp_session \<Rightarrow> ort_env \<Rightarrow> (rtp_session \<times> ort_env) option" where
  "parse_accepted mp local_str_ts s3 e3 =
     (let s4 = update_seq_stats (rtp_get_seqnumber (pk_data mp)) s3
      in if rtp_get_payload_type (pk_data mp) = d_tev_pt (rcv_dir s4) then do {
           (_, i, q) \<leftarrow> queue_packet (tev_rq (rtp s4)) (max_rq_size (rtp s4)) mp;
           Some (count_discarded i (upd_rtp (\<lambda>r. r\<lparr>tev_rq := q\<rparr>) s4) e3) }
         else parse_media mp local_str_ts s4 e3)"

definition count_received :: "int \<Rightarrow> rtp_session \<Rightarrow> ort_env \<Rightarrow> rtp_session \<times> ort_env" where
  "count_received msgsize s e =
     (upd_rtp (\<lambda>r. r\<lparr>hwrcv_since_last_SR := hwrcv_since_last_SR r + 1\<rparr>)
        (upd_stats (\<lambda>t. t\<lparr>packet_recv := packet_recv t + 1, hw_recv := hw_recv t + of_int msgsize\<rparr>) s),
      upd_gstats (\<lambda>t. t\<lparr>packet_recv := packet_recv t + 1, hw_recv := hw_recv t + of_int msgsize\<rparr>) e)"

definition rtp_session_rtp_parse ::
  "rtp_session \<Rightarrow> packet \<Rightarrow> u32 \<Rightarrow> nat \<Rightarrow> ort_env \<Rightarrow> (rtp_session \<times> ort_env) option" where
  "rtp_session_rtp_parse s mp local_str_ts addr e =
     (let bs = pk_data mp; msgsize = length bs
      in if msgsize < RTP_FIXED_HEADER_SIZE then Some (count_bad s e)
      else if rtp_get_version bs \<noteq> 2 then
        (if uint (be16 (sub 2 2 bs)) + 20 = int msgsize \<and> eventqs s \<noteq> []
         then Some (s, rtp_session_dispatch_event s
                \<lparr>ev_type = ORTP_EVENT_STUN_PACKET_RECEIVED, ev_packet = bs, ev_addr = addr, ev_info = 0\<rparr> e)
         else Some (count_bad s e))
      else
        let (s1, e1) = count_received (int msgsize) s e
        in if rtp_get_cc bs * 4 > msgsize - RTP_FIXED_HEADER_SIZE then Some (count_bad s1 e1)
        else do {
          let hdr = csrc_swap 0 (rtp_get_cc bs) (fixed_swap bs);
          let mp1 = mp\<lparr>pk_data := hdr\<rparr>;
          let s2 = s1\<lparr>last_recv_time := now e1\<rparr>;
          (accepted, s3, e3) \<leftarrow> check_ssrc hdr addr s2 e1;
          if \<not> accepted then Some (s3, e3)
          else parse_accepted mp1 local_str_ts s3 e3 })"

section \<open>No datagram makes the session fault\<close>

text \<open>
  A session that is well formed: its profiles and signal tables are, its queues are within
  their limit and every queued packet has its header in full, as has the stored event packet; its
  network simulator knows the size of its queue, it has no contributing source, and when it is
  scheduled it has a place in the masks of the scheduler.
\<close>

definition full_header :: "packet \<Rightarrow> bool" where
  "full_header p \<longleftrightarrow> 12 + 4 * rtp_get_cc (pk_data p) \<le> length (pk_data p)"

definition session_ok :: "ort_env \<Rightarrow> rtp_session \<Rightarrow> bool" where
  "session_ok e s \<longleftrightarrow> profiles_good e s \<and> (\<forall>t. st_ok (signals s t)) \<and>
     0 \<le> max_rq_size (rtp s) \<and> int (length (rq (rtp s))) \<le> max_rq_size (rtp s) \<and>
     int (length (tev_rq (rtp s))) \<le> max_rq_size (rtp s) \<and>
     (\<forall>p \<in> set (rq (rtp s)) \<union> set (tev_rq (rtp s)). full_header p) \<and>
     (\<forall>p. current_tev s = Some p \<longrightarrow> full_header p) \<and>
     (\<forall>sim. net_sim s = Some sim \<longrightarrow> sim_ok (rs_ipv6 (rtp s)) sim) \<and> contributing_sources s = [] \<and>
     (has_flag s RTP_SESSION_SCHEDULED \<longrightarrow> 0 \<le> mask_pos s \<and> mask_pos s < 1024 \<and> env_sched e \<noteq> None)"

lemma session_okD:
  assumes "session_ok e s"
  shows "profiles_good e s" "st_ok (signals s t)"
  using assms by (simp_all add: session_ok_def)

text \<open>Two environments with the same payload types and profiles, a scheduler in both or none, and no RTCP to read that was not there.\<close>

definition same_profiles :: "ort_env \<Rightarrow> ort_env \<Rightarrow> bool" where
  "same_profiles e e' \<longleftrightarrow> env_pts e' = env_pts e \<and> env_profiles e' = env_profiles e \<and>
     (env_sched e' = None \<longleftrightarrow> env_sched e = None) \<and> set (rtcp_in e') \<subseteq> set (rtcp_in e)"

lemma same_profiles_refl [simp]: "same_profiles e e"
  by (simp add: same_profiles_def)

lemma same_profiles_trans: "same_profiles e e1 \<Longrightarrow> same_profiles e1 e2 \<Longrightarrow> same_profiles e e2"
  by (auto simp: same_profiles_def)

lemma session_ok_env: "session_ok e s \<Longrightarrow> same_profiles e e' \<Longrightarrow> session_ok e' s"
  by (simp add: session_ok_def profiles_good_def prof_good_def same_profiles_def)

text \<open>Updates that keep a session well formed.\<close>

lemma session_ok_frame:
  assumes "session_ok e s" and "rtp s' = rtp s" "signals s' = signals s"
    and "d_profile (snd_dir s') = d_profile (snd_dir s)" "d_profile (rcv_dir s') = d_profile (rcv_dir s)"
    and "current_tev s' = current_tev s" "net_sim s' = net_sim s" "mask_pos s' = mask_pos s"
    and "contributing_sources s' = contributing_sources s" "s_flags s' = s_flags s"
  shows "session_ok e s'"
  using assms by (simp add: session_ok_def profiles_good_def has_flag_def)

lemma session_ok_upd_rtp:
  assumes "session_ok e s"
    and "rq (f (rtp s)) = rq (rtp s)" "tev_rq (f (rtp s)) = tev_rq (rtp s)"
    and "max_rq_size (f (rtp s)) = max_rq_size (rtp s)" "rs_ipv6 (f (rtp s)) = rs_ipv6 (rtp s)"
  shows "session_ok e (upd_rtp f s)"
  using assms by (simp add: session_ok_def profiles_good_def upd_rtp_def has_flag_def)

lemma rcv_dir_upd [simp]:
  "rcv_dir (upd_rtp f s) = rcv_dir s" "rcv_dir (upd_rtcp g s) = rcv_dir s" "rcv_dir (upd_stats h s) = rcv_dir s"
  by (simp_all add: upd_rtp_def upd_rtcp_def upd_stats_def)

lemma session_ok_upd_stats: "session_ok e s \<Longrightarrow> session_ok e (upd_stats f s)"
  unfolding upd_stats_def by (rule session_ok_upd_rtp) simp_all

lemma session_ok_upd_rtcp: "session_ok e s \<Longrightarrow> session_ok e (upd_rtcp f s)"
  by (simp add: session_ok_def profiles_good_def upd_rtcp_def has_flag_def)

lemma emit_total:
  assumes "st_ok (signals s sid)"
  shows "emit_signal sid args s e =
    Some (e\<lparr>calls := calls e @ map (call_of (signals s sid) (take 2 args)) (st_entries (signals s sid))\<rparr>)"
  by (cases args; cases "tl args")
     (simp_all add: emit_signal_def rtp_signal_table_emit_def rtp_signal_table_emit2_def
       rtp_signal_table_emit3_def emit_entries [OF assms])

lemma emit_same_profiles:
  "st_ok (signals s sid) \<Longrightarrow> \<exists>e'. emit_signal sid args s e = Some e' \<and> same_profiles e e'"
  by (simp add: emit_total same_profiles_def)

lemma trim_queue_total:
  assumes "0 \<le> m"
  shows "\<exists>k. trim_queue m q d = Some (d + int k, drop k q) \<and> int (length (drop k q)) \<le> m"
  using assms
proof (induction m q d rule: trim_queue.induct)
  case (2 m p ps d)
  show ?case
  proof (cases "int (length (p # ps)) > m")
    case True
    then obtain k where "trim_queue m ps (d + 1) = Some (d + 1 + int k, drop k ps)" "int (length (drop k ps)) \<le> m"
      using 2 by blast
    then show ?thesis using True by (intro exI [of _ "Suc k"]) simp
  qed (intro exI [of _ 0], simp)
qed (intro exI [of _ 0], simp)

lemma queue_packet_total:
  assumes "0 \<le> m" and "int (length q) \<le> m" and "\<forall>p \<in> set (mp # q). full_header p"
  shows "\<exists>b i q'. queue_packet q m mp = Some (b, i, q') \<and> int (length q') \<le> m \<and>
    (\<forall>p \<in> set q'. full_header p)"
proof -
  obtain k where k: "trim_queue m (rtp_putq_list pkt_seq mp q) 0 = Some (int k, drop k (rtp_putq_list pkt_seq mp q))"
    "int (length (drop k (rtp_putq_list pkt_seq mp q))) \<le> m"
    using trim_queue_total [OF assms(1), of "rtp_putq_list pkt_seq mp q" 0] by auto
  have "set (drop k (rtp_putq_list pkt_seq mp q)) \<subseteq> insert mp (set q)"
    using set_rtp_putq_list [of pkt_seq mp q] set_drop_subset by fastforce
  then show ?thesis using assms k by (auto simp: queue_packet_def)
qed

lemma csrc_swap_header:
  assumes "12 + 4 * rtp_get_cc bs \<le> length bs"
  shows "length (csrc_swap 0 (rtp_get_cc bs) (fixed_swap bs)) = length bs"
    and "rtp_get_cc (csrc_swap 0 (rtp_get_cc bs) (fixed_swap bs)) = rtp_get_cc bs"
proof -
  have l: "length (fixed_swap bs) = length bs" "fixed_swap bs ! 0 = bs ! 0"
    using assms swap_byte0 [of bs] by simp_all
  then show "length (csrc_swap 0 (rtp_get_cc bs) (fixed_swap bs)) = length bs"
    using assms by (simp add: csrc_swap_length)
  have "csrc_swap 0 (rtp_get_cc bs) (fixed_swap bs) ! 0 = bs ! 0"
    using assms l csrc_swap_low [of 0 "rtp_get_cc bs" "fixed_swap bs" 0] by simp
  then show "rtp_get_cc (csrc_swap 0 (rtp_get_cc bs) (fixed_swap bs)) = rtp_get_cc bs"
    by (simp add: rtp_get_cc_def)
qed

lemma store_remote_addr_ok: "session_ok e s \<Longrightarrow> session_ok e (store_remote_addr a s)"
  by (auto simp: store_remote_addr_def intro: session_ok_upd_rtp)

lemma count_bad_ok:
  "session_ok e s \<Longrightarrow> session_ok e (fst (count_bad s e'))" "same_profiles e (snd (count_bad s e))"
  by (simp_all add: count_bad_def session_ok_upd_stats upd_gstats_def same_profiles_def)

lemma count_candidate_simps [simp]:
  "rtp (count_candidate b s) = rtp s" "rcv_dir (count_candidate b s) = rcv_dir s"
  "ssrc_set (count_candidate b s) = ssrc_set s" "inc_ssrc_candidate (count_candidate b s) = b"
  "signals (count_candidate b s) = signals s" "current_tev (count_candidate b s) = current_tev s"
  "net_sim (count_candidate b s) = net_sim s" "mask_pos (count_candidate b s) = mask_pos s"
  "contributing_sources (count_candidate b s) = contributing_sources s" "s_flags (count_candidate b s) = s_flags s"
  "snd_dir (count_candidate b s) = snd_dir s"
  "inc_same_ssrc_count (count_candidate b s) =
     (if inc_ssrc_candidate s = b then inc_same_ssrc_count s + 1 else 0)"
  by (simp_all add: count_candidate_def)

lemma count_candidate_ok: "session_ok e s \<Longrightarrow> session_ok e (count_candidate ssrc s)"
  by (erule session_ok_frame) simp_all

lemma switch_source_ok: "session_ok e s \<Longrightarrow> session_ok e (switch_source hdr addr s)"
proof -
  assume "session_ok e s"
  then have "session_ok e (upd_rtp (\<lambda>r. r\<lparr>rcv_last_ts := rtp_get_timestamp hdr\<rparr>) (store_remote_addr addr s))"
    by (intro session_ok_upd_rtp [OF store_remote_addr_ok]) simp_all
  then show ?thesis
    unfolding switch_source_def Let_def by (rule session_ok_frame) simp_all
qed

lemma check_ssrc_total:
  assumes "session_ok e s"
  shows "\<exists>b s' e'. check_ssrc hdr addr s e = Some (b, s', e') \<and> session_ok e s' \<and> same_profiles e e'"
proof -
  let ?s1 = "count_candidate (rtp_get_ssrc hdr) s"
  let ?s2 = "switch_source hdr addr ?s1"
  have s2: "session_ok e ?s2" using assms by (intro switch_source_ok count_candidate_ok)
  then obtain e' where e': "emit_signal On_ssrc_changed [] ?s2 e = Some e'" "same_profiles e e'"
    using emit_same_profiles session_okD by blast
  have "session_ok e (store_remote_addr addr
      (s\<lparr>ssrc_set := True, rcv_dir := (rcv_dir s)\<lparr>d_ssrc := rtp_get_ssrc hdr\<rparr>\<rparr>))"
    by (intro store_remote_addr_ok session_ok_frame [OF assms]) simp_all
  moreover have "session_ok e (s\<lparr>inc_same_ssrc_count := 0\<rparr>)"
    by (rule session_ok_frame [OF assms]) simp_all
  moreover have "session_ok e (fst (count_bad ?s1 e))"
    using assms by (intro count_bad_ok(1) count_candidate_ok)
  ultimately show ?thesis
    using s2 e' count_bad_ok(2) [of e ?s1]
    by (cases "count_bad ?s1 e") (auto simp: check_ssrc_def Let_def)
qed

lemma check_jump_total:
  assumes "session_ok e s"
  shows "\<exists>b e'. check_jump ts s e = Some (b, e') \<and> same_profiles e e'"
proof -
  obtain e' where "emit_signal On_timestamp_jump [unat ts] s e = Some e'" "same_profiles e e'"
    using emit_same_profiles assms session_okD by blast
  then show ?thesis by (auto simp: check_jump_def Let_def)
qed

lemma payload_type_changed_total:
  assumes "session_ok e s"
  shows "\<exists>s'. payload_type_changed e pt s = Some s' \<and> session_ok e s' \<and> rcv_dir s' = rcv_dir s"
proof -
  let ?s1 = "upd_rtp (\<lambda>r. r\<lparr>jittctl := jitter_control_set_payload (jittctl r) pt\<rparr>) s"
  have 1: "session_ok e ?s1" by (rule session_ok_upd_rtp [OF assms]) simp_all
  obtain b where 2: "rtp_session_set_time_jump_limit e (time_jump (rtp ?s1)) ?s1 =
      Some (upd_rtp (\<lambda>r. r\<lparr>time_jump := time_jump (rtp ?s1), ts_jump := b\<rparr>) ?s1)" (is "_ = Some ?s2")
    using set_time_jump_limit_total 1 session_okD by blast
  have ok2: "session_ok e ?s2" by (rule session_ok_upd_rtp [OF 1]) simp_all
  obtain c where 3: "rtp_session_set_rtcp_report_interval e (cs_interval (rtcp ?s2)) ?s2 =
      Some (upd_rtcp (\<lambda>_. c) ?s2)"
    using set_rtcp_report_interval_total ok2 session_okD by blast
  have ok3: "session_ok e (upd_rtcp (\<lambda>_. c) ?s2)" by (rule session_ok_upd_rtcp [OF ok2])
  have "payload_type_changed e pt s = Some ((upd_rtcp (\<lambda>_. c) ?s2)\<lparr>permissive := (pt_type pt = PAYLOAD_VIDEO)\<rparr>)"
    using 2 3 by (simp add: payload_type_changed_def Let_def)
  moreover have "session_ok e ((upd_rtcp (\<lambda>_. c) ?s2)\<lparr>permissive := (pt_type pt = PAYLOAD_VIDEO)\<rparr>)"
    by (rule session_ok_frame [OF ok3]) simp_all
  ultimately show ?thesis by (simp add: upd_rtp_def upd_rtcp_def)
qed

lemma update_payload_type_total:
  assumes "session_ok e s"
  shows "\<exists>s'. rtp_session_update_payload_type e n s = Some s' \<and> session_ok e s' \<and> rcv_dir s' = rcv_dir s"
proof -
  obtain x where x: "profile_payload e (d_profile (rcv_dir s)) n = Some x"
    using profile_payload_total assms session_okD profiles_good_def by blast
  have "session_ok e (s\<lparr>hw_recv_pt := n\<rparr>)" by (rule session_ok_frame [OF assms]) simp_all
  then show ?thesis
    using x assms payload_type_changed_total [of e "s\<lparr>hw_recv_pt := n\<rparr>"]
    by (cases x) (simp_all add: rtp_session_update_payload_type_def)
qed

lemma count_discarded_ok:
  "session_ok e s \<Longrightarrow> session_ok e (fst (count_discarded i s e'))" "same_profiles e (snd (count_discarded i s e))"
  by (simp_all add: count_discarded_def session_ok_upd_stats upd_gstats_def same_profiles_def)

lemma count_received_ok:
  "session_ok e s \<Longrightarrow> session_ok e (fst (count_received n s e'))" "same_profiles e (snd (count_received n s e))"
  by (simp_all add: count_received_def upd_gstats_def same_profiles_def)
     (intro session_ok_upd_rtp session_ok_upd_stats; simp)

lemma count_outoftime_ok:
  "session_ok e s \<Longrightarrow> session_ok e (fst (count_outoftime s e'))" "same_profiles e (snd (count_outoftime s e))"
  by (simp_all add: count_outoftime_def session_ok_upd_stats upd_gstats_def same_profiles_def)

lemma session_ok_queues:
  assumes "session_ok e s" and "int (length q) \<le> max_rq_size (rtp s)" "\<forall>p \<in> set q. full_header p"
  shows "session_ok e (upd_rtp (\<lambda>r. r\<lparr>rq := q\<rparr>) s)" "session_ok e (upd_rtp (\<lambda>r. r\<lparr>tev_rq := q\<rparr>) s)"
  using assms by (auto simp: session_ok_def profiles_good_def upd_rtp_def has_flag_def)

lemma result_okI:
  assumes "session_ok e (fst r)" and "same_profiles e0 e" and "same_profiles e (snd r)"
  shows "\<exists>s' e'. Some r = Some (s', e') \<and> session_ok e' s' \<and> same_profiles e0 e' \<and> rcv_dir s' = rcv_dir (fst r)"
  using assms session_ok_env same_profiles_trans by (cases r) auto

lemma parse_media_total:
  assumes ok: "session_ok e s" and mp: "full_header mp"
  shows "\<exists>s' e'. parse_media mp lts s e = Some (s', e') \<and> session_ok e' s' \<and> same_profiles e e' \<and>
    rcv_dir s' = rcv_dir s"
proof -
  let ?hdr = "pk_data mp"
  obtain s1 where s1: "(if hw_recv_pt s \<noteq> rtp_get_payload_type ?hdr
           then rtp_session_update_payload_type e (rtp_get_payload_type ?hdr) s else Some s) = Some s1"
    "session_ok e s1" "rcv_dir s1 = rcv_dir s"
    using update_payload_type_total [OF ok] ok by (cases "hw_recv_pt s \<noteq> rtp_get_payload_type ?hdr") auto
  obtain s2 where s2: "s2 = upd_rtp (\<lambda>r. r\<lparr>jittctl :=
      jitter_control_new_packet (jittctl r) (rtp_get_timestamp ?hdr) lts\<rparr>) s1" by blast
  have ok2: "session_ok e s2" unfolding s2 by (rule session_ok_upd_rtp [OF s1(2)]) simp_all
  obtain b e1 where j: "check_jump (rtp_get_timestamp ?hdr) s2 e = Some (b, e1)" "same_profiles e e1"
    using check_jump_total [OF ok2] by blast
  have pre: "parse_media mp lts s e =
    (if b then Some (count_outoftime s2 e1)
     else do {
       (queued, i, q) \<leftarrow> queue_packet (rq (rtp s2)) (max_rq_size (rtp s2)) mp;
       let s3 = upd_rtp (\<lambda>r. r\<lparr>rq := q\<rparr>) s2;
       let s4 = (if queued
                 then upd_rtp (\<lambda>r. r\<lparr>jittctl := jitter_control_update_size (jittctl r) (map pkt_ts q)\<rparr>) s3
                 else s3);
       Some (count_discarded i s4 e1) })"
    unfolding parse_media_def Let_def s1(1) Option.bind.simps(2) s2 [symmetric] j(1) prod.case by (rule refl)
  show ?thesis
  proof (cases b)
    case True
    then show ?thesis
      using result_okI [OF session_ok_env [OF count_outoftime_ok(1) [OF ok2] j(2)] j(2) count_outoftime_ok(2)]
      by (simp add: pre count_outoftime_def s2 s1(3))
  next
    case False
    obtain queued i q where q: "queue_packet (rq (rtp s2)) (max_rq_size (rtp s2)) mp = Some (queued, i, q)"
      "int (length q) \<le> max_rq_size (rtp s2)" "\<forall>p \<in> set q. full_header p"
      using queue_packet_total [of "max_rq_size (rtp s2)" "rq (rtp s2)" mp] ok2 mp
      by (auto simp: session_ok_def)
    obtain s4 where s4: "s4 = (let s3 = upd_rtp (\<lambda>r. r\<lparr>rq := q\<rparr>) s2 in if queued
         then upd_rtp (\<lambda>r. r\<lparr>jittctl := jitter_control_update_size (jittctl r) (map pkt_ts q)\<rparr>) s3
         else s3)" by blast
    have "rcv_dir s4 = rcv_dir s" by (simp add: s4 Let_def s2 s1(3))
    moreover have "session_ok e s4"
      unfolding s4 Let_def using session_ok_queues(1) [OF ok2 q(2,3)]
      by (auto intro: session_ok_upd_rtp)
    moreover have "parse_media mp lts s e = Some (count_discarded i s4 e1)"
      using False q(1) by (simp add: pre s4 Let_def)
    ultimately show ?thesis
      using result_okI [OF session_ok_env [OF count_discarded_ok(1) j(2)] j(2) count_discarded_ok(2)]
      by (simp add: count_discarded_def)
  qed
qed

lemma parse_accepted_total:
  assumes ok: "session_ok e s" and mp: "full_header mp"
  shows "\<exists>s' e'. parse_accepted mp lts s e = Some (s', e') \<and> session_ok e' s' \<and> same_profiles e e' \<and>
    rcv_dir s' = rcv_dir s"
proof -
  obtain s4 where s4: "s4 = update_seq_stats (rtp_get_seqnumber (pk_data mp)) s" by blast
  have ok4: "session_ok e s4"
    unfolding s4 update_seq_stats_def by (rule session_ok_upd_rtp [OF ok]) (simp_all add: Let_def)
  have rcv: "rcv_dir s4 = rcv_dir s" by (simp add: s4 update_seq_stats_def)
  obtain x i q where q: "queue_packet (tev_rq (rtp s4)) (max_rq_size (rtp s4)) mp = Some (x, i, q)"
    "int (length q) \<le> max_rq_size (rtp s4)" "\<forall>p \<in> set q. full_header p"
    using queue_packet_total [of "max_rq_size (rtp s4)" "tev_rq (rtp s4)" mp] ok4 mp
    by (auto simp: session_ok_def)
  show ?thesis
  proof (cases "rtp_get_payload_type (pk_data mp) = d_tev_pt (rcv_dir s4)")
    case True
    have "\<exists>s' e'. Some (count_discarded i (upd_rtp (\<lambda>r. r\<lparr>tev_rq := q\<rparr>) s4) e) = Some (s', e') \<and>
        session_ok e' s' \<and> same_profiles e e' \<and> rcv_dir s' = rcv_dir s"
      using result_okI [OF count_discarded_ok(1) [OF session_ok_queues(2) [OF ok4 q(2,3)]] same_profiles_refl
          count_discarded_ok(2)] rcv by (simp add: count_discarded_def)
    then show ?thesis using True q(1) by (simp add: parse_accepted_def s4 Let_def)
  next
    case False
    then show ?thesis
      using parse_media_total [OF ok4 mp, of lts] rcv by (simp add: parse_accepted_def s4 Let_def)
  qed
qed

lemma rtp_parse_total:
  assumes ok: "session_ok e s"
  shows "\<exists>s' e'. rtp_session_rtp_parse s mp lts addr e = Some (s', e') \<and> session_ok e' s' \<and> same_profiles e e'"
proof -
  let ?bs = "pk_data mp" and ?n = "length (pk_data mp)"
  have bad: "\<exists>s' e'. Some (count_bad t e) = Some (s', e') \<and> session_ok e' s' \<and> same_profiles e e'"
    if "session_ok e t" for t e
    using result_okI [OF count_bad_ok(1) [OF that] same_profiles_refl count_bad_ok(2)] by blast
  consider (short) "?n < 12" | (version) "\<not> ?n < 12" "rtp_get_version ?bs \<noteq> 2"
    | (csrc) "\<not> ?n < 12" "rtp_get_version ?bs = 2" "rtp_get_cc ?bs * 4 > ?n - 12"
    | (media) "\<not> ?n < 12" "rtp_get_version ?bs = 2" "\<not> rtp_get_cc ?bs * 4 > ?n - 12" by blast
  then show ?thesis
  proof cases
    case short
    then show ?thesis using bad [OF ok] by (simp add: rtp_session_rtp_parse_def RTP_FIXED_HEADER_SIZE_def)
  next
    case version
    let ?ev = "\<lparr>ev_type = ORTP_EVENT_STUN_PACKET_RECEIVED, ev_packet = ?bs, ev_addr = addr, ev_info = 0\<rparr>"
    have "same_profiles e (rtp_session_dispatch_event s ?ev e)"
      by (simp add: rtp_session_dispatch_event_def same_profiles_def)
    then show ?thesis
      using version bad [OF ok] session_ok_env [OF ok]
      by (simp add: rtp_session_rtp_parse_def RTP_FIXED_HEADER_SIZE_def Let_def)
  next
    case csrc
    obtain s1 e1 where r: "count_received (int ?n) s e = (s1, e1)" by fastforce
    have "session_ok e1 s1" "same_profiles e e1"
      using count_received_ok(1) [OF ok, of "int ?n" e] count_received_ok(2) [of e "int ?n" s] r
        session_ok_env by auto
    then show ?thesis
      using csrc bad [of e1 s1] r same_profiles_trans
      by (auto simp: rtp_session_rtp_parse_def RTP_FIXED_HEADER_SIZE_def Let_def)
  next
    case media
    let ?hdr = "csrc_swap 0 (rtp_get_cc ?bs) (fixed_swap ?bs)"
    let ?mp = "mp\<lparr>pk_data := ?hdr\<rparr>"
    have mp: "full_header ?mp"
      using csrc_swap_header [of ?bs] media by (simp add: full_header_def)
    obtain s1 e1 where r: "count_received (int ?n) s e = (s1, e1)" by fastforce
    have 1: "session_ok e1 s1" "same_profiles e e1"
      using count_received_ok(1) [OF ok, of "int ?n" e] count_received_ok(2) [of e "int ?n" s] r
        session_ok_env by auto
    have "session_ok e1 (s1\<lparr>last_recv_time := now e1\<rparr>)" by (rule session_ok_frame [OF 1(1)]) simp_all
    then obtain b s3 e3 where c: "check_ssrc ?hdr addr (s1\<lparr>last_recv_time := now e1\<rparr>) e1 = Some (b, s3, e3)"
      "session_ok e1 s3" "same_profiles e1 e3"
      using check_ssrc_total by blast
    have 3: "session_ok e3 s3" "same_profiles e e3"
      using c 1 session_ok_env same_profiles_trans by blast+
    have "rtp_session_rtp_parse s mp lts addr e =
        (if \<not> b then Some (s3, e3) else parse_accepted ?mp lts s3 e3)"
      using media r c(1) by (simp add: rtp_session_rtp_parse_def RTP_FIXED_HEADER_SIZE_def Let_def)
    moreover have "\<exists>s' e'. parse_accepted ?mp lts s3 e3 = Some (s', e') \<and> session_ok e' s' \<and> same_profiles e e'"
      using parse_accepted_total [OF 3(1) mp, of lts] 3(2) same_profiles_trans by blast
    ultimately show ?thesis using 3 by simp
  qed
qed

section \<open>Runs of datagrams\<close>

text \<open>A datagram with the time stamp of the local stream and the sender's address.\<close>

definition parse_step ::
  "packet \<times> u32 \<times> nat \<Rightarrow> rtp_session \<times> ort_env \<Rightarrow> (rtp_session \<times> ort_env) option" where
  "parse_step d c = (case d of (mp, lts, addr) \<Rightarrow> rtp_session_rtp_parse (fst c) mp lts addr (snd c))"

interpretation rtp_input: total_machine "\<lambda>c. session_ok (snd c) (fst c)" "\<lambda>_. True" parse_step
proof unfold_locales
  fix c :: "rtp_session \<times> ort_env" and d :: "packet \<times> u32 \<times> nat"
  assume "session_ok (snd c) (fst c)"
  then show "\<exists>c'. parse_step d c = Some c' \<and> session_ok (snd c') (fst c')"
    using rtp_parse_total [of "snd c" "fst c"] by (cases d) (fastforce simp: parse_step_def)
qed


lemma ex_session_ok: "session_ok ex_env ex_session"
  using ex_profiles_good st_ok_init(1)
  by (simp add: session_ok_def)
     (simp add: ex_session_def rtp_stream_zero_def session_zero_def has_flag_def RTP_SESSION_SCHEDULED_def)

definition ex_dgram :: "u16 \<Rightarrow> u32 \<Rightarrow> u32 \<Rightarrow> u8 list \<Rightarrow> packet" where
  "ex_dgram seq ts ssrc data =
     \<lparr>pk_data = [0x80, 0] @ be16_bytes seq @ be32_bytes ts @ be32_bytes ssrc @ data, pk_cont = [], pk_addr = 5\<rparr>"


section \<open>The extended sequence number\<close>

lemma join16: "push_bit 16 (ucast (hi :: u16)) OR ucast (lo :: u16) = (ucast hi * 65536 + ucast lo :: u32)"
proof -
  have "push_bit 16 (ucast hi) + ucast lo = (push_bit 16 (ucast hi) OR ucast lo :: u32)"
    by (rule disjunctive_add) (auto simp: bit_simps dest: bit_imp_le_length)
  then show ?thesis by (simp add: push_bit_eq_mult)
qed

lemma split16: "ext = (ucast (ucast (drop_bit 16 ext) :: u16) * 65536 + ucast (ucast ext :: u16) :: u32)"
  unfolding join16 [symmetric] by (rule bit_word_eqI) (auto simp: bit_simps)

lemma ucast_of_nat16: "n < 65536 \<Longrightarrow> (ucast (of_nat n :: u16) :: u32) = of_nat n"
  by (simp add: unsigned_of_nat take_bit_nat_eq_self)

lemma cases16:
  obtains n where "(lo :: u16) = of_nat n" "n < 65536"
  by (rule that [of "unat lo"]) (use unsigned_less [of lo] in simp_all)

lemma ucast_suc:
  assumes "lo \<noteq> - 1"
  shows "ucast (lo + 1 :: u16) = (ucast lo + 1 :: u32)"
proof (cases lo rule: cases16)
  case (1 n)
  have "n \<noteq> 65535" using assms 1 by auto
  then have "ucast (of_nat (n + 1) :: u16) = (of_nat (n + 1) :: u32)"
    using 1 by (intro ucast_of_nat16) simp
  then show ?thesis using 1 by (simp add: ucast_of_nat16 add.commute)
qed

lemma ucast_top: "ucast (- 1 :: u16) = (65535 :: u32)"
proof -
  have "(of_nat 65535 :: u16) = - 1" by simp
  then show ?thesis using ucast_of_nat16 [of 65535] by (simp only:) simp
qed

lemma ucast_suc_top: "ucast (hi + 1 :: u16) * 65536 = (ucast hi * 65536 + 65536 :: u32)"
proof (cases "hi = - 1")
  case True
  then show ?thesis using ucast_top by simp
next
  case False
  then show ?thesis by (simp only: ucast_suc not_False_eq_True) (simp add: algebra_simps)
qed

lemma ucast_down_add: "ucast (x + y :: u32) = (ucast x + ucast y :: u16)"
proof transfer
  fix x y :: int
  have "(x + y) mod 65536 = (x mod 4294967296 + y mod 4294967296) mod 65536"
    by (rule mod_add_cong) (simp_all add: mod_mod_cancel)
  then show "take_bit LENGTH(16) (take_bit LENGTH(32) (x + y)) =
      take_bit LENGTH(16) (take_bit LENGTH(32) x + take_bit LENGTH(32) y)"
    by (simp add: take_bit_eq_mod mod_mod_cancel)
qed

lemma word_less_suc16:
  assumes "lo \<noteq> - 1"
  shows "lo < lo + (1 :: u16)"
proof (cases lo rule: cases16)
  case (1 n)
  have "n \<noteq> 65535" using assms 1 by auto
  then have "(of_nat n :: u16) < of_nat (n + 1)"
    using 1 by (simp only: word_less_nat_alt unsigned_of_nat) (simp add: take_bit_nat_eq_self)
  then show ?thesis using 1 by (simp add: add.commute)
qed

lemma update_extseq_next: "update_extseq ext (ucast (ext + 1)) = ext + 1"
proof -
  obtain lo hi :: u16 where lh: "ucast ext = lo" "ucast (drop_bit 16 ext) = hi" by blast
  have ext: "ext = ucast hi * 65536 + ucast lo" using split16 [of ext] lh by simp
  have nxt: "ucast (ext + 1) = lo + 1" by (simp add: ucast_down_add lh)
  show ?thesis
  proof (cases "lo = - 1")
    case True
    then have "update_extseq ext 0 = ucast (hi + 1) * 65536 + 0"
      using join16 [of "hi + 1" 0] by (simp add: update_extseq_def lh Let_def)
    then show ?thesis using True ext nxt by (simp add: ucast_suc_top ucast_top)
  next
    case False
    have "update_extseq ext (lo + 1) = ucast hi * 65536 + ucast (lo + 1)"
      using word_less_suc16 [OF False] by (simp add: update_extseq_def lh Let_def join16)
    then show ?thesis using ucast_suc [OF False] ext nxt by (simp add: add.assoc)
  qed
qed

text \<open>
  C34. For packets that arrive in order and without loss, however many and through any number of
  wraps of the 16 bit sequence number, the extended highest sequence number counts them modulo
  2 to the 32.
\<close>

theorem extseq_counts_in_order:
  "fold (\<lambda>seq ext. update_extseq ext seq) (map (\<lambda>i. ucast (ext + of_nat (Suc i))) [0..<n]) ext =
     ext + of_nat n"
proof (induction n)
  case (Suc n)
  then show ?case
    using update_extseq_next [of "ext + of_nat n"] by (simp add: ac_simps)
qed simp

text \<open>
  A packet that comes late across the wrap is taken for a new highest one, in the next cycle, and
  the packet after it for another wrap: two cycles are counted for one.
\<close>

lemma extseq_late_packet:
  "fold (\<lambda>seq ext. update_extseq ext seq) [10, 0xFFFB, 11] 0xFFFA = 0x2000B"
  by code_simp

section \<open>Locking on a source\<close>

text \<open>A well formed RTP datagram of a source, as it is on the wire.\<close>

definition from_source :: "u32 \<Rightarrow> packet \<times> u32 \<times> nat \<Rightarrow> bool" where
  "from_source ssrc d \<longleftrightarrow> (let bs = pk_data (fst d) in
     rtp_get_version bs = 2 \<and> 12 + 4 * rtp_get_cc bs \<le> length bs \<and> be32 (sub 8 4 bs) = ssrc)"

lemma ssrc_of_wire:
  assumes "12 + 4 * n \<le> length bs"
  shows "rtp_get_ssrc (csrc_swap 0 n (fixed_swap bs)) = be32 (sub 8 4 bs)"
proof -
  have "12 \<le> length bs" using assms by simp
  then obtain a b c d e f g h i j k l r where bs: "bs = [a, b, c, d, e, f, g, h, i, j, k, l] @ r"
    by (rule ge_12_cases)
  obtain zs where "csrc_swap 0 n ([a, b, d, c, h, g, f, e, l, k, j, i] @ r) = [a, b, d, c, h, g, f, e, l, k, j, i] @ zs"
    using csrc_swap_tail [of 0 n r] by (metis length_Cons list.size(3) numeral_eq_Suc pred_numeral_simps BitM.simps)
  then show ?thesis
    unfolding bs fixed_swap_explicit by (simp add: rtp_get_ssrc_def sub_def be32_def)
qed

text \<open>A datagram of a foreign source that does not reach the threshold.\<close>

lemma parse_foreign:
  assumes d: "from_source B d" and locked: "ssrc_set s" "d_ssrc (rcv_dir s) \<noteq> B"
    and few: "inc_same_ssrc_count (count_candidate B s) < ssrc_changed_thres (rtp s)"
  shows "\<exists>s' e'. parse_step d (s, e) = Some (s', e') \<and> ssrc_set s' \<and> rcv_dir s' = rcv_dir s \<and>
    rq (rtp s') = rq (rtp s) \<and> tev_rq (rtp s') = tev_rq (rtp s) \<and>
    st_bad (stats (rtp s')) = st_bad (stats (rtp s)) + 1 \<and> calls e' = calls e \<and>
    ssrc_changed_thres (rtp s') = ssrc_changed_thres (rtp s) \<and>
    inc_ssrc_candidate s' = B \<and> inc_same_ssrc_count s' = inc_same_ssrc_count (count_candidate B s)"
proof -
  obtain mp lts addr where dd: "d = (mp, lts, addr)" by (cases d)
  let ?bs = "pk_data mp"
  have v: "rtp_get_version ?bs = 2" "12 + 4 * rtp_get_cc ?bs \<le> length ?bs" "be32 (sub 8 4 ?bs) = B"
    using d by (simp_all add: from_source_def dd Let_def)
  have ssrc: "rtp_get_ssrc (csrc_swap 0 (rtp_get_cc ?bs) (fixed_swap ?bs)) = B"
    using ssrc_of_wire [OF v(2)] v(3) by simp
  obtain s1 e1 where r: "count_received (int (length ?bs)) s e = (s1, e1)" by fastforce
  let ?s2 = "s1\<lparr>last_recv_time := now e1\<rparr>"
  let ?s3 = "count_candidate B ?s2"
  have s1: "ssrc_set s1 = ssrc_set s" "rcv_dir s1 = rcv_dir s" "rq (rtp s1) = rq (rtp s)"
    "tev_rq (rtp s1) = tev_rq (rtp s)" "st_bad (stats (rtp s1)) = st_bad (stats (rtp s))" "calls e1 = calls e"
    "ssrc_changed_thres (rtp s1) = ssrc_changed_thres (rtp s)" "inc_ssrc_candidate s1 = inc_ssrc_candidate s"
    "inc_same_ssrc_count s1 = inc_same_ssrc_count s"
    using r by (auto simp: count_received_def upd_rtp_def upd_stats_def upd_gstats_def)
  have f: "ssrc_set ?s3" "rcv_dir ?s3 = rcv_dir s" "rq (rtp ?s3) = rq (rtp s)" "tev_rq (rtp ?s3) = tev_rq (rtp s)"
    "st_bad (stats (rtp ?s3)) = st_bad (stats (rtp s))"
    "ssrc_changed_thres (rtp ?s3) = ssrc_changed_thres (rtp s)" "inc_ssrc_candidate ?s3 = B"
    "inc_same_ssrc_count ?s3 = inc_same_ssrc_count (count_candidate B s)"
    using s1 locked(1) by simp_all
  have l: "ssrc_set ?s2" "d_ssrc (rcv_dir ?s2) \<noteq> B"
    using s1(1,2) locked by simp_all
  let ?hdr = "csrc_swap 0 (rtp_get_cc ?bs) (fixed_swap ?bs)"
  have c: "check_ssrc ?hdr addr ?s2 e1 = Some (False, count_bad ?s3 e1)"
  proof -
    have "\<not> inc_same_ssrc_count ?s3 \<ge> ssrc_changed_thres (rtp ?s3)" using f(6,8) few by simp
    then show ?thesis
      unfolding check_ssrc_def Let_def ssrc using l by (simp only: if_True if_False simp_thms)
  qed
  have n: "\<not> length ?bs < 12" "\<not> length ?bs - 12 < rtp_get_cc ?bs * 4" using v(2) by simp_all
  have "rtp_session_rtp_parse s mp lts addr e =
      check_ssrc ?hdr addr ?s2 e1 \<bind> (\<lambda>(accepted, s3, e3). if \<not> accepted then Some (s3, e3) else
        parse_accepted (mp\<lparr>pk_data := ?hdr\<rparr>) lts s3 e3)"
    using v(1) n r by (simp add: rtp_session_rtp_parse_def RTP_FIXED_HEADER_SIZE_def Let_def)
  also have "\<dots> = Some (count_bad ?s3 e1)"
    unfolding c by (cases "count_bad ?s3 e1") simp
  finally have "parse_step d (s, e) = Some (count_bad ?s3 e1)" by (simp add: parse_step_def dd)
  then show ?thesis
    using f s1(6) by (simp add: count_bad_def upd_stats_def upd_rtp_def upd_gstats_def)
qed

lemma run_foreign:
  assumes "\<forall>d \<in> set ds. from_source B d" and "ssrc_set s" "d_ssrc (rcv_dir s) \<noteq> B"
    and "inc_ssrc_candidate s = B"
    and "inc_same_ssrc_count s + int (length ds) < ssrc_changed_thres (rtp s)"
  shows "\<exists>s' e'. run_steps parse_step ds (s, e) = Some (s', e') \<and> ssrc_set s' \<and> rcv_dir s' = rcv_dir s \<and>
    rq (rtp s') = rq (rtp s) \<and> tev_rq (rtp s') = tev_rq (rtp s) \<and>
    st_bad (stats (rtp s')) = st_bad (stats (rtp s)) + of_nat (length ds) \<and> calls e' = calls e \<and>
    ssrc_changed_thres (rtp s') = ssrc_changed_thres (rtp s) \<and>
    inc_ssrc_candidate s' = B \<and> inc_same_ssrc_count s' = inc_same_ssrc_count s + int (length ds)"
  using assms
proof (induction ds arbitrary: s e)
  case (Cons d ds)
  have d: "from_source B d" using Cons.prems by simp
  have few: "inc_same_ssrc_count (count_candidate B s) < ssrc_changed_thres (rtp s)"
    using Cons.prems by simp
  obtain s1 e1 where 1: "parse_step d (s, e) = Some (s1, e1)" "ssrc_set s1" "rcv_dir s1 = rcv_dir s"
    "rq (rtp s1) = rq (rtp s)" "tev_rq (rtp s1) = tev_rq (rtp s)"
    "st_bad (stats (rtp s1)) = st_bad (stats (rtp s)) + 1" "calls e1 = calls e"
    "ssrc_changed_thres (rtp s1) = ssrc_changed_thres (rtp s)"
    "inc_ssrc_candidate s1 = B" "inc_same_ssrc_count s1 = inc_same_ssrc_count s + 1"
    using parse_foreign [OF d Cons.prems(2,3) few, of e] Cons.prems(4) by auto
  have "\<forall>d \<in> set ds. from_source B d" "d_ssrc (rcv_dir s1) \<noteq> B"
    "inc_same_ssrc_count s1 + int (length ds) < ssrc_changed_thres (rtp s1)"
    using Cons.prems 1 by auto
  from Cons.IH [OF this(1) 1(2) this(2) 1(9) this(3), of e1] show ?case using 1 by (auto simp: algebra_simps)
qed simp

lemma parse_switch:
  assumes ok: "session_ok e s" and d: "from_source B d" and locked: "ssrc_set s" "d_ssrc (rcv_dir s) \<noteq> B"
    and many: "inc_same_ssrc_count (count_candidate B s) \<ge> ssrc_changed_thres (rtp s)"
  shows "\<exists>s' e'. parse_step d (s, e) = Some (s', e') \<and> d_ssrc (rcv_dir s') = B"
proof -
  obtain mp lts addr where dd: "d = (mp, lts, addr)" by (cases d)
  let ?bs = "pk_data mp"
  let ?hdr = "csrc_swap 0 (rtp_get_cc ?bs) (fixed_swap ?bs)"
  have v: "rtp_get_version ?bs = 2" "12 + 4 * rtp_get_cc ?bs \<le> length ?bs" "be32 (sub 8 4 ?bs) = B"
    using d by (simp_all add: from_source_def dd Let_def)
  have ssrc: "rtp_get_ssrc ?hdr = B" using ssrc_of_wire [OF v(2)] v(3) by simp
  obtain s1 e1 where r: "count_received (int (length ?bs)) s e = (s1, e1)" by fastforce
  have ok1: "session_ok e1 s1"
    using count_received_ok(1) [OF ok, of "int (length ?bs)" e] count_received_ok(2) [of e "int (length ?bs)" s] r
      session_ok_env by auto
  let ?s2 = "s1\<lparr>last_recv_time := now e1\<rparr>"
  have ok2: "session_ok e1 ?s2" by (rule session_ok_frame [OF ok1]) simp_all
  let ?s3 = "switch_source ?hdr addr (count_candidate B ?s2)"
  have s1: "ssrc_set ?s2" "d_ssrc (rcv_dir ?s2) \<noteq> B"
    "inc_same_ssrc_count (count_candidate B ?s2) \<ge> ssrc_changed_thres (rtp (count_candidate B ?s2))"
    using r locked many by (auto simp: count_received_def upd_rtp_def upd_stats_def)
  have ok3: "session_ok e1 ?s3" using ok2 by (intro switch_source_ok count_candidate_ok)
  obtain e3 where e3: "emit_signal On_ssrc_changed [] ?s3 e1 = Some e3" "same_profiles e1 e3"
    using emit_same_profiles ok3 session_okD by blast
  have c: "check_ssrc ?hdr addr ?s2 e1 = Some (True, ?s3, e3)"
    unfolding check_ssrc_def Let_def ssrc using s1 e3(1) by (simp only: if_True simp_thms Option.bind.simps)
  have n: "\<not> length ?bs < 12" "\<not> length ?bs - 12 < rtp_get_cc ?bs * 4" using v(2) by simp_all
  have p: "rtp_session_rtp_parse s mp lts addr e = parse_accepted (mp\<lparr>pk_data := ?hdr\<rparr>) lts ?s3 e3"
    using v(1) n r c by (simp add: rtp_session_rtp_parse_def RTP_FIXED_HEADER_SIZE_def Let_def)
  have "full_header (mp\<lparr>pk_data := ?hdr\<rparr>)"
    using csrc_swap_header [OF v(2)] v(2) by (simp add: full_header_def)
  then obtain s' e' where "parse_accepted (mp\<lparr>pk_data := ?hdr\<rparr>) lts ?s3 e3 = Some (s', e')" "rcv_dir s' = rcv_dir ?s3"
    using parse_accepted_total [OF session_ok_env [OF ok3 e3(2)]] by blast
  moreover have "d_ssrc (rcv_dir ?s3) = B" by (simp add: switch_source_def Let_def ssrc)
  ultimately show ?thesis by (simp add: p parse_step_def dd)
qed

text \<open>
  C9. The session is locked on its source: well formed packets of another source, up to as many in
  a row as the threshold, are all counted as bad and change neither the queues nor the source, and
  no callback is made; the packet after them makes the session switch.
\<close>

theorem source_switch_after_threshold:
  assumes "session_ok e s" and "ssrc_set s" and "d_ssrc (rcv_dir s) \<noteq> B" and "inc_ssrc_candidate s \<noteq> B"
    and "\<forall>d \<in> set ds. from_source B d" and "int (length ds) \<le> ssrc_changed_thres (rtp s)" and "ds \<noteq> []"
  shows "\<exists>s' e'. run_steps parse_step ds (s, e) = Some (s', e') \<and> rcv_dir s' = rcv_dir s \<and>
    rq (rtp s') = rq (rtp s) \<and> tev_rq (rtp s') = tev_rq (rtp s) \<and>
    st_bad (stats (rtp s')) = st_bad (stats (rtp s)) + of_nat (length ds) \<and> calls e' = calls e \<and>
    (\<forall>d. from_source B d \<and> int (length ds) = ssrc_changed_thres (rtp s) \<longrightarrow>
       (\<exists>s'' e''. parse_step d (s', e') = Some (s'', e'') \<and> d_ssrc (rcv_dir s'') = B))"
proof -
  obtain d ds' where ds: "ds = d # ds'" using assms(7) by (cases ds) auto
  have few: "inc_same_ssrc_count (count_candidate B s) < ssrc_changed_thres (rtp s)"
    using assms(4,6) by (simp add: ds)
  have fd: "from_source B d" using assms(5) by (simp add: ds)
  obtain s1 e1 where 1: "parse_step d (s, e) = Some (s1, e1)" "ssrc_set s1" "rcv_dir s1 = rcv_dir s"
    "rq (rtp s1) = rq (rtp s)" "tev_rq (rtp s1) = tev_rq (rtp s)"
    "st_bad (stats (rtp s1)) = st_bad (stats (rtp s)) + 1" "calls e1 = calls e"
    "ssrc_changed_thres (rtp s1) = ssrc_changed_thres (rtp s)"
    "inc_ssrc_candidate s1 = B" "inc_same_ssrc_count s1 = 0"
    using parse_foreign [OF fd assms(2,3) few, of e] assms(4) by auto
  have "\<forall>d \<in> set ds'. from_source B d" "d_ssrc (rcv_dir s1) \<noteq> B"
    "inc_same_ssrc_count s1 + int (length ds') < ssrc_changed_thres (rtp s1)"
    using assms 1 by (auto simp: ds)
  from run_foreign [OF this(1) 1(2) this(2) 1(9) this(3), of e1] obtain s' e'
    where 2: "run_steps parse_step ds' (s1, e1) = Some (s', e')" "ssrc_set s'" "rcv_dir s' = rcv_dir s"
      "rq (rtp s') = rq (rtp s)" "tev_rq (rtp s') = tev_rq (rtp s)"
      "st_bad (stats (rtp s')) = st_bad (stats (rtp s1)) + of_nat (length ds')" "calls e' = calls e"
      "ssrc_changed_thres (rtp s') = ssrc_changed_thres (rtp s)" "inc_ssrc_candidate s' = B"
      "inc_same_ssrc_count s' = int (length ds')"
    using 1 by auto
  have run: "run_steps parse_step ds (s, e) = Some (s', e')" using 1(1) 2(1) by (simp add: ds)
  have "session_ok e' s'" using rtp_input.run_good [of "(s, e)" ds "(s', e')"] assms(1) run by simp
  then have "\<exists>s'' e''. parse_step d' (s', e') = Some (s'', e'') \<and> d_ssrc (rcv_dir s'') = B"
    if "from_source B d'" "int (length ds) = ssrc_changed_thres (rtp s)" for d'
    using that 2 assms(3) by (intro parse_switch) (simp_all add: ds)
  then show ?thesis using run 1 2 by (auto simp: ds)
qed

lemma source_switch_after_threshold_witness:
  "\<exists>s' e'. run_steps parse_step (replicate 50 (ex_dgram 1 0 9 [1], 0, 5)) (ex_session, ex_env) = Some (s', e') \<and>
     rcv_dir s' = rcv_dir ex_session \<and>
     (\<exists>s'' e''. parse_step (ex_dgram 2 0 9 [1], 0, 5) (s', e') = Some (s'', e'') \<and> d_ssrc (rcv_dir s'') = 9)"
proof -
  have f: "from_source 9 (ex_dgram n 0 9 [1], 0, 5)" for n
    by (simp add: from_source_def ex_dgram_def rtp_get_version_def rtp_get_cc_def sub_def Let_def)
  have s: "ssrc_set ex_session" "d_ssrc (rcv_dir ex_session) \<noteq> 9" "inc_ssrc_candidate ex_session \<noteq> 9"
    "ssrc_changed_thres (rtp ex_session) = 50"
    by (simp_all add: ex_session_def dir_zero_def session_zero_def rtp_stream_zero_def)
  show ?thesis
    using source_switch_after_threshold [OF ex_session_ok s(1-3), of "replicate 50 (ex_dgram 1 0 9 [1], 0, 5)"] f s(4)
    by (auto simp: ball_Un)
qed

end
