(* ===== verification/Telephone_Events.thy ===== *)
theory Telephone_Events
  imports Rtp_Parse
begin

text \<open>
  Telephone events (RFC 2833), the receiving side of \<^verbatim>\<open>oRTP/src/telephonyevents.c\<close>, and
  the construction of the packets that carry them. A packet holds several events of four bytes: the
  code, the end bit with the volume, and the duration. The session keeps a copy of the first packet
  of the current events and marks in it the events whose end has been reported.
\<close>

definition TELEPHONY_EVENTS_ALLOCATED_SIZE :: nat where "TELEPHONY_EVENTS_ALLOCATED_SIZE = 16"

section \<open>The events of a packet\<close>

text \<open>
  Their number: an invalid payload has size -1, and -1 divided by the unsigned size of an event
  gives -1 after the conversion back.
\<close>

definition tev_num :: "packet \<Rightarrow> int option" where
  "tev_num p = map_option (\<lambda>pos. case pos of
      In_block i n \<Rightarrow> int (n div 4) | In_cont i n \<Rightarrow> int (n div 4) | Invalid \<Rightarrow> -1) (rtp_get_payload p)"

definition tev_byte :: "packet \<Rightarrow> nat \<Rightarrow> nat \<Rightarrow> u8 option" where
  "tev_byte p i k = do {
     pos \<leftarrow> rtp_get_payload p;
     case pos of
       In_block off n \<Rightarrow> rd8 (pk_data p) (off + 4 * i + k)
     | In_cont off n \<Rightarrow> rd8 (hd (pk_cont p)) (off + 4 * i + k)
     | Invalid \<Rightarrow> None }"

definition tev_event :: "packet \<Rightarrow> nat \<Rightarrow> u8 option" where
  "tev_event p i = tev_byte p i 0"

definition tev_end :: "packet \<Rightarrow> nat \<Rightarrow> bool option" where
  "tev_end p i = map_option (\<lambda>b. bit b 7) (tev_byte p i 1)"

definition tev_set_end :: "packet \<Rightarrow> nat \<Rightarrow> packet option" where
  "tev_set_end p i = do {
     b \<leftarrow> tev_byte p i 1;
     pos \<leftarrow> rtp_get_payload p;
     case pos of
       In_block off n \<Rightarrow> Some (p\<lparr>pk_data := (pk_data p)[off + 4 * i + 1 := b OR 0x80]\<rparr>)
     | In_cont off n \<Rightarrow> Some (p\<lparr>pk_cont := (hd (pk_cont p))[off + 4 * i + 1 := b OR 0x80] # tl (pk_cont p)\<rparr>)
     | Invalid \<Rightarrow> None }"

text \<open>The bytes of a message, all blocks.\<close>

definition msg_bytes :: "packet \<Rightarrow> u8 list" where
  "msg_bytes p = pk_data p @ concat (pk_cont p)"

section \<open>Notification\<close>

text \<open>
  The end of an event: the callbacks, then an event with a duplicate of the stored packet, recorded
  with its content at that time.
\<close>

definition notify_tev :: "u8 \<Rightarrow> rtp_session \<Rightarrow> ort_env \<Rightarrow> ort_env option" where
  "notify_tev code s e = do {
     e1 \<leftarrow> emit_signal On_telephone_event [unat code] s e;
     if eventqs s = [] then Some e1
     else do {
       cur \<leftarrow> current_tev s;
       Some (rtp_session_dispatch_event s \<lparr>ev_type = ORTP_EVENT_TELEPHONE_EVENT,
               ev_packet = msg_bytes cur, ev_addr = 0, ev_info = uint code\<rparr> e1) } }"

text \<open>The loops over the events; their indices are given.\<close>

primrec notify_events_ended :: "nat list \<Rightarrow> packet \<Rightarrow> rtp_session \<Rightarrow> ort_env \<Rightarrow> ort_env option" where
  "notify_events_ended [] p s e = Some e"
| "notify_events_ended (i # ix) p s e = do {
     ended \<leftarrow> tev_end p i;
     e1 \<leftarrow> (if ended then tev_event p i \<bind> (\<lambda>code. notify_tev code s e) else Some e);
     notify_events_ended ix p s e1 }"

primrec update_events_ended ::
  "nat list \<Rightarrow> packet \<Rightarrow> rtp_session \<Rightarrow> ort_env \<Rightarrow> (rtp_session \<times> ort_env) option" where
  "update_events_ended [] p s e = Some (s, e)"
| "update_events_ended (i # ix) p s e = do {
     ended \<leftarrow> tev_end p i;
     if ended then do {
       cur \<leftarrow> current_tev s;
       known \<leftarrow> tev_end cur i;
       if \<not> known then do {
         cur1 \<leftarrow> tev_set_end cur i;
         let s1 = s\<lparr>current_tev := Some cur1\<rparr>;
         code \<leftarrow> tev_event p i;
         e1 \<leftarrow> notify_tev code s1 e;
         update_events_ended ix p s1 e1 }
       else update_events_ended ix p s e }
     else update_events_ended ix p s e }"

text \<open>The stored packet becomes a copy of this one, and its ended events are reported.\<close>

definition tev_start :: "packet \<Rightarrow> int \<Rightarrow> rtp_session \<Rightarrow> ort_env \<Rightarrow> (rtp_session \<times> ort_env) option" where
  "tev_start m0 num s e = do {
     let s1 = s\<lparr>current_tev := Some m0\<rparr>;
     e1 \<leftarrow> notify_events_ended [0..<nat num] m0 s1 e;
     Some (s1, e1) }"

definition rtp_session_check_telephone_events ::
  "rtp_session \<Rightarrow> packet \<Rightarrow> ort_env \<Rightarrow> (rtp_session \<times> ort_env) option" where
  "rtp_session_check_telephone_events s m0 e = do {
     num \<leftarrow> tev_num m0;
     (s1, e1) \<leftarrow> (if rtp_get_markbit (pk_data m0) then tev_start m0 num s e else Some (s, e));
     case current_tev s1 of
       Some cur \<Rightarrow>
         if rtp_get_timestamp (pk_data cur) = rtp_get_timestamp (pk_data m0) then do {
           num2 \<leftarrow> tev_num cur;
           update_events_ended [0..<nat (min num num2)] m0 s1 e1 }
         else tev_start m0 num s1 e1
     | None \<Rightarrow> tev_start m0 num s1 e1 }"

section \<open>Reading and writing events\<close>

text \<open>The number of events, and the packet with the durations in host order.\<close>

primrec tev_swap :: "nat \<Rightarrow> nat \<Rightarrow> u8 list \<Rightarrow> u8 list" where
  "tev_swap off 0 bs = bs"
| "tev_swap off (Suc n) bs = tev_swap (off + 4) n (bswap_at (off + 2) 2 bs)"

definition rtp_session_read_telephone_event :: "rtp_session \<Rightarrow> packet \<Rightarrow> (int \<times> packet) option" where
  "rtp_session_read_telephone_event s p =
     (if rtp_get_payload_type (pk_data p) \<noteq> d_tev_pt (rcv_dir s) then Some (0, p)
      else do {
        num \<leftarrow> tev_num p;
        pos \<leftarrow> rtp_get_payload p;
        Some (num, case pos of
            In_block off n \<Rightarrow> p\<lparr>pk_data := tev_swap off (n div 4) (pk_data p)\<rparr>
          | In_cont off n \<Rightarrow> p\<lparr>pk_cont := tev_swap off (n div 4) (hd (pk_cont p)) # tl (pk_cont p)\<rparr>
          | Invalid \<Rightarrow> p) })"

text \<open>A new event packet: the sequence number and timestamp are set when it is sent (\<open>junk\<close>).\<close>

definition rtp_session_create_telephone_event_packet ::
  "rtp_session \<Rightarrow> bool \<Rightarrow> u8 list \<Rightarrow> u8 list option" where
  "rtp_session_create_telephone_event_packet s start junk =
     (if d_tev_pt (snd_dir s) = -1 then None
      else Some ([0x80, (if start then 0x80 else 0) OR (of_int (d_tev_pt (snd_dir s)) AND 0x7F)] @ junk @
                 le32_bytes (d_ssrc (snd_dir s))))"

definition tev_encode :: "u8 \<Rightarrow> bool \<Rightarrow> u8 \<Rightarrow> u16 \<Rightarrow> u8 list" where
  "tev_encode event ended volume duration =
     [event, (if ended then 0x80 else 0) OR (volume AND 0x3F)] @ be16_bytes duration"

text \<open>
  A packet is the blocks of its message. An event is written in the last block while it is not
  full, else in a new one.
\<close>

definition rtp_session_add_telephone_event ::
  "blocks \<Rightarrow> u8 \<Rightarrow> bool \<Rightarrow> u8 \<Rightarrow> u16 \<Rightarrow> blocks option" where
  "rtp_session_add_telephone_event m event ended volume duration =
     (let (cap, bs) = last m; ev = tev_encode event ended volume duration
      in if length bs \<ge> cap then Some (m @ [(TELEPHONY_EVENTS_ALLOCATED_SIZE, ev)])
         else if length bs + 4 > cap then None
         else Some (butlast m @ [(cap, bs @ ev)]))"

section \<open>The view of a packet as a list of events\<close>

definition ended :: "packet \<Rightarrow> nat \<Rightarrow> bool" where
  "ended p i \<longleftrightarrow> tev_end p i = Some True"

definition code_of :: "packet \<Rightarrow> nat \<Rightarrow> u8" where
  "code_of p i = the (tev_event p i)"

lemma payload_block:
  assumes "full_header p"
  shows "\<exists>off. rtp_get_payload p = Some (In_block off (length (pk_data p) - off)) \<and>
    12 + 4 * rtp_get_cc (pk_data p) \<le> off \<and> off \<le> length (pk_data p)"
  using assms by (auto simp: rtp_get_payload_def full_header_def rtp_get_extheader_def Let_def split: option.splits)

lemma tev_view:
  assumes "full_header p"
  shows "\<exists>n. tev_num p = Some (int n)"
    and "tev_num p = Some (int n) \<Longrightarrow> i < n \<Longrightarrow> tev_end p i = Some (ended p i) \<and> tev_event p i = Some (code_of p i)"
proof -
  obtain off where off: "rtp_get_payload p = Some (In_block off (length (pk_data p) - off))"
    "off \<le> length (pk_data p)"
    using payload_block [OF assms] by blast
  show "\<exists>n. tev_num p = Some (int n)" by (auto simp: tev_num_def off)
  assume "tev_num p = Some (int n)" "i < n"
  then have "off + 4 * i + 3 < length (pk_data p)" by (auto simp: tev_num_def off(1))
  then show "tev_end p i = Some (ended p i) \<and> tev_event p i = Some (code_of p i)"
    by (auto simp: ended_def code_of_def tev_end_def tev_event_def tev_byte_def off(1) rd8_def)
qed

lemma be32_low16: "be32 [a, b, c, d] AND 0xFFFF = be32 [x, y, c, d] AND 0xFFFF"
proof -
  have m: "(0xFFFF :: u32) = mask 16" by (simp add: mask_eq_exp_minus_1)
  show ?thesis
    unfolding m by (rule bit_word_eqI) (auto simp: be32_def le32_def bit_simps dest: bit_imp_le_length)
qed

text \<open>
  Writing the end bit leaves the packet's view as it is, up to that bit: also when a broken
  extension header overlaps the first event, for then its length field is not touched.
\<close>

lemma sub_explicit: "i + 4 \<le> length bs \<Longrightarrow> sub i 4 bs = [bs ! i, bs ! (i + 1), bs ! (i + 2), bs ! (i + 3)]"
  by (rule nth_equalityI) (auto simp: sub_def less_Suc_eq numeral_eq_Suc)

lemma extheader_frame:
  assumes "12 + 4 * rtp_get_cc bs \<le> length bs"
    and "k = 12 + 4 * rtp_get_cc bs + 1 \<or> 12 + 4 * rtp_get_cc bs + 4 \<le> k" and "k < length bs"
  shows "map_option fst (rtp_get_extheader (bs[k := b])) = map_option fst (rtp_get_extheader bs)"
proof (cases "12 + 4 * rtp_get_cc bs + 4 \<le> length bs")
  case True
  let ?x = "12 + 4 * rtp_get_cc bs"
  have "bs[k := b] ! 0 = bs ! 0" using assms by auto
  then have h: "rtp_get_cc (bs[k := b]) = rtp_get_cc bs" "rtp_get_extbit (bs[k := b]) = rtp_get_extbit bs"
    by (simp_all add: rtp_get_cc_def rtp_get_extbit_def)
  have "be32 (sub ?x 4 (bs[k := b])) AND 0xFFFF = be32 (sub ?x 4 bs) AND 0xFFFF"
    using True assms(2) by (simp only: sub_explicit length_list_update) (auto intro: be32_low16)
  then show ?thesis using True h by (simp add: rtp_get_extheader_def Let_def mult.commute)
next
  case False
  have "bs[k := b] ! 0 = bs ! 0" using assms by auto
  then have "rtp_get_cc (bs[k := b]) = rtp_get_cc bs" by (simp add: rtp_get_cc_def)
  then show ?thesis using False by (simp add: rtp_get_extheader_def Let_def mult.commute)
qed

lemma tev_set_end_spec:
  assumes p: "full_header p" "tev_num p = Some (int n)" and i: "i < n"
  shows "\<exists>p'. tev_set_end p i = Some p' \<and> full_header p' \<and> tev_num p' = Some (int n) \<and>
    rtp_get_timestamp (pk_data p') = rtp_get_timestamp (pk_data p) \<and>
    (\<forall>j < n. ended p' j \<longleftrightarrow> ended p j \<or> j = i)"
proof -
  let ?bs = "pk_data p"
  let ?x = "12 + 4 * rtp_get_cc ?bs"
  obtain off where off: "rtp_get_payload p = Some (In_block off (length ?bs - off))" "?x \<le> off" "off \<le> length ?bs"
    using payload_block [OF p(1)] by blast
  let ?k = "off + 4 * i + 1"
  let ?p' = "p\<lparr>pk_data := ?bs[?k := (?bs ! ?k) OR 0x80]\<rparr>"
  have n: "n = (length ?bs - off) div 4" using p(2) off by (simp add: tev_num_def)
  have k: "?k < length ?bs" "off + 4 * j + 3 < length ?bs" if "j < n" for j using that i n by linarith+
  have k1: "?k < length ?bs" using k(1) i by blast
  have b0: "pk_data ?p' ! 0 = ?bs ! 0" by simp
  have cc: "rtp_get_cc (pk_data ?p') = rtp_get_cc ?bs" by (simp add: rtp_get_cc_def b0)
  have x: "?x \<le> length ?bs" using off by simp
  have "off = ?x + (case rtp_get_extheader ?bs of None \<Rightarrow> 0 | Some (m, _) \<Rightarrow> 4 + m)"
    using off p(1) by (auto simp: rtp_get_payload_def full_header_def Let_def split: if_splits option.splits)
  then have "?k = ?x + 1 \<or> ?x + 4 \<le> ?k" by (auto split: option.splits)
  from extheader_frame [OF x this k1]
  have "map_option fst (rtp_get_extheader (pk_data ?p')) = map_option fst (rtp_get_extheader ?bs)" by simp
  then have e: "(case rtp_get_extheader (pk_data ?p') of None \<Rightarrow> 0 | Some (m, _) \<Rightarrow> 4 + m) =
      (case rtp_get_extheader ?bs of None \<Rightarrow> 0 | Some (m, _) \<Rightarrow> 4 + m)"
    by (cases "rtp_get_extheader (pk_data ?p')"; cases "rtp_get_extheader ?bs") auto
  have pay: "rtp_get_payload ?p' = Some (In_block off (length ?bs - off))"
  proof -
    have "?bs \<noteq> []" "pk_data ?p' \<noteq> []" using k1 by auto
    then show ?thesis using off x cc e by (simp add: rtp_get_payload_def Let_def)
  qed
  have "tev_set_end p i = Some ?p'"
    using off k1 by (simp add: tev_set_end_def tev_byte_def rd8_def add.assoc)
  moreover have "full_header ?p'" using x cc by (simp add: full_header_def)
  moreover have "tev_num ?p' = Some (int n)" using n pay by (simp add: tev_num_def)
  moreover have "rtp_get_timestamp (pk_data ?p') = rtp_get_timestamp ?bs"
    unfolding rtp_get_timestamp_def using off by (intro arg_cong [of _ _ le32] sub_eqI) auto
  moreover have "ended ?p' j \<longleftrightarrow> ended p j \<or> j = i" if "j < n" for j
  proof (cases "j = i")
    case True
    have "bit (?bs ! ?k OR (0x80 :: u8)) 7" by (simp add: bit_simps)
    then show ?thesis using True pay k1 by (simp add: ended_def tev_end_def tev_byte_def rd8_def)
  next
    case False
    then show ?thesis using pay off k(2) [OF that] by (simp add: ended_def tev_end_def tev_byte_def rd8_def)
  qed
  ultimately show ?thesis by blast
qed

section \<open>What is reported\<close>

text \<open>
  The callbacks made for some event codes, and the relation of two environments between which
  these were reported, to the callbacks and to the registered queues.
\<close>

definition tev_calls :: "rtp_session \<Rightarrow> u8 list \<Rightarrow> signal_call list" where
  "tev_calls s codes = concat (map (\<lambda>c. map (call_of (signals s On_telephone_event) [unat c])
     (st_entries (signals s On_telephone_event))) codes)"

definition reported :: "rtp_session \<Rightarrow> ort_env \<Rightarrow> ort_env \<Rightarrow> u8 list \<Rightarrow> bool" where
  "reported s e e' codes \<longleftrightarrow> same_profiles e e' \<and> calls e' = calls e @ tev_calls s codes \<and>
     (\<forall>q. distinct (eventqs s) \<and> q \<in> set (eventqs s) \<longrightarrow>
        map ev_info (ev_queues e' q) = map ev_info (ev_queues e q) @ map uint codes)"

lemma reported_Nil: "reported s e e []"
  by (simp add: reported_def tev_calls_def)

lemma reported_append: "reported s e e1 xs \<Longrightarrow> reported s e1 e2 ys \<Longrightarrow> reported s e e2 (xs @ ys)"
  by (auto simp: reported_def tev_calls_def intro: same_profiles_trans)

lemma dispatch_loop_distinct:
  "distinct qs \<Longrightarrow> dispatch_loop qs ev m q = (if q \<in> set qs then m q @ [ev] else m q)"
  by (induction qs arbitrary: m) auto

lemma notify_tev_reports:
  assumes "st_ok (signals s On_telephone_event)" and "current_tev s \<noteq> None"
  shows "\<exists>e'. notify_tev code s e = Some e' \<and> reported s e e' [code]"
  using assms
  by (auto simp: notify_tev_def emit_total reported_def tev_calls_def same_profiles_def
      rtp_session_dispatch_event_def dispatch_loop_distinct)

text \<open>The report is the same for a session that differs in the stored packet only.\<close>

lemma reported_frame:
  "signals s' = signals s \<Longrightarrow> eventqs s' = eventqs s \<Longrightarrow> reported s' e e' codes = reported s e e' codes"
  by (simp add: reported_def tev_calls_def)

abbreviation ended_codes :: "packet \<Rightarrow> nat list \<Rightarrow> (nat \<Rightarrow> bool) \<Rightarrow> u8 list" where
  "ended_codes p ix known \<equiv> map (code_of p) (filter (\<lambda>i. ended p i \<and> \<not> known i) ix)"

lemma notify_events_ended_reports:
  assumes "st_ok (signals s On_telephone_event)" and "current_tev s \<noteq> None"
    and "full_header p" "tev_num p = Some (int n)" "\<forall>i \<in> set ix. i < n"
  shows "\<exists>e'. notify_events_ended ix p s e = Some e' \<and> reported s e e' (ended_codes p ix (\<lambda>_. False))"
  using assms(5)
proof (induction ix arbitrary: e)
  case (Cons i ix)
  then have v: "tev_end p i = Some (ended p i)" "tev_event p i = Some (code_of p i)"
    using tev_view(2) [OF assms(3,4)] by simp_all
  obtain e1 where e1: "notify_tev (code_of p i) s e = Some e1" "reported s e e1 [code_of p i]"
    using notify_tev_reports [OF assms(1,2)] by blast
  show ?case
  proof (cases "ended p i")
    case True
    then show ?thesis
      using Cons v e1 reported_append [OF e1(2)] by fastforce
  next
    case False
    then show ?thesis using Cons v by auto
  qed
qed (simp add: reported_Nil)

lemma update_events_ended_reports:
  assumes "st_ok (signals s On_telephone_event)"
    and "full_header p" "tev_num p = Some (int n)" "\<forall>i \<in> set ix. i < n" "distinct ix"
    and "current_tev s = Some cur" "full_header cur" "tev_num cur = Some (int m)" "\<forall>i \<in> set ix. i < m"
  shows "\<exists>cur' e'. update_events_ended ix p s e = Some (s\<lparr>current_tev := Some cur'\<rparr>, e') \<and>
    full_header cur' \<and> tev_num cur' = Some (int m) \<and>
    rtp_get_timestamp (pk_data cur') = rtp_get_timestamp (pk_data cur) \<and>
    (\<forall>i < m. ended cur' i \<longleftrightarrow> ended cur i \<or> i \<in> set ix \<and> ended p i) \<and>
    reported s e e' (ended_codes p ix (ended cur))"
  using assms(1,4-)
proof (induction ix arbitrary: s e cur)
  case Nil
  have "s\<lparr>current_tev := Some cur\<rparr> = s" using Nil.prems(4) by (cases s) simp
  then show ?case using Nil.prems by (intro exI [of _ cur] exI [of _ e]) (simp add: reported_Nil)
next
  case (Cons i ix)
  have v: "tev_end p i = Some (ended p i)" "tev_event p i = Some (code_of p i)"
    "tev_end cur i = Some (ended cur i)"
    using tev_view(2) [OF assms(2,3)] tev_view(2) [OF Cons.prems(5,6)] Cons.prems(2,7) by simp_all
  show ?case
  proof (cases "ended p i \<and> \<not> ended cur i")
    case True
    obtain cur1 where c1: "tev_set_end cur i = Some cur1" "full_header cur1" "tev_num cur1 = Some (int m)"
      "rtp_get_timestamp (pk_data cur1) = rtp_get_timestamp (pk_data cur)"
      "\<forall>j < m. ended cur1 j \<longleftrightarrow> ended cur j \<or> j = i"
      using tev_set_end_spec [OF Cons.prems(5,6), of i] Cons.prems(7) by auto
    let ?s1 = "s\<lparr>current_tev := Some cur1\<rparr>"
    obtain e1 where e1: "notify_tev (code_of p i) ?s1 e = Some e1" "reported s e e1 [code_of p i]"
      using notify_tev_reports [of ?s1 "code_of p i" e] Cons.prems(1) reported_frame [of ?s1 s] by auto
    obtain cur' e' where r: "update_events_ended ix p ?s1 e1 = Some (?s1\<lparr>current_tev := Some cur'\<rparr>, e')"
      "full_header cur'" "tev_num cur' = Some (int m)"
      "rtp_get_timestamp (pk_data cur') = rtp_get_timestamp (pk_data cur1)"
      "\<forall>j < m. ended cur' j \<longleftrightarrow> ended cur1 j \<or> j \<in> set ix \<and> ended p j"
      "reported ?s1 e1 e' (ended_codes p ix (ended cur1))"
      using Cons.IH [of ?s1 cur1 e1] Cons.prems c1(2,3) by auto
    have same: "filter (\<lambda>j. ended p j \<and> \<not> ended cur1 j) ix = filter (\<lambda>j. ended p j \<and> \<not> ended cur j) ix"
      using c1(5) Cons.prems(3,7) by (intro filter_cong) auto
    have "reported s e e' ([code_of p i] @ ended_codes p ix (ended cur))"
      using reported_append [OF e1(2)] r(6) reported_frame [of ?s1 s] unfolding same by simp
    moreover have "\<forall>j < m. ended cur' j \<longleftrightarrow> ended cur j \<or> j \<in> set (i # ix) \<and> ended p j"
      using r(5) c1(5) True by auto
    moreover have "update_events_ended (i # ix) p s e = Some (s\<lparr>current_tev := Some cur'\<rparr>, e')"
      using True v c1(1) e1(1) r(1) Cons.prems(4) by simp
    ultimately show ?thesis using r(2-4) c1(4) True by (intro exI [of _ cur'] exI [of _ e']) simp
  next
    case False
    then have "update_events_ended (i # ix) p s e = update_events_ended ix p s e"
      using v Cons.prems(4) by auto
    moreover obtain cur' e' where r: "update_events_ended ix p s e = Some (s\<lparr>current_tev := Some cur'\<rparr>, e')"
      "full_header cur'" "tev_num cur' = Some (int m)"
      "rtp_get_timestamp (pk_data cur') = rtp_get_timestamp (pk_data cur)"
      "\<forall>j < m. ended cur' j \<longleftrightarrow> ended cur j \<or> j \<in> set ix \<and> ended p j"
      "reported s e e' (ended_codes p ix (ended cur))"
      using Cons.IH [of s cur e] Cons.prems by auto
    moreover have "\<forall>j < m. ended cur' j \<longleftrightarrow> ended cur j \<or> j \<in> set (i # ix) \<and> ended p j"
      using r(5) False by auto
    moreover have "filter (\<lambda>j. ended p j \<and> \<not> ended cur j) (i # ix) = filter (\<lambda>j. ended p j \<and> \<not> ended cur j) ix"
      using False by simp
    ultimately show ?thesis by (intro exI [of _ cur'] exI [of _ e']) simp
  qed
qed

text \<open>The packets of one group of events: the one that starts it and those that follow.\<close>

lemma check_start:
  assumes "st_ok (signals s On_telephone_event)" and p: "full_header p" "tev_num p = Some (int n)"
    and new: "current_tev s = None \<or> rtp_get_markbit (pk_data p) \<or>
       (\<exists>c. current_tev s = Some c \<and> rtp_get_timestamp (pk_data c) \<noteq> rtp_get_timestamp (pk_data p))"
  shows "\<exists>cur e'. rtp_session_check_telephone_events s p e = Some (s\<lparr>current_tev := Some cur\<rparr>, e') \<and>
    full_header cur \<and> tev_num cur = Some (int n) \<and>
    rtp_get_timestamp (pk_data cur) = rtp_get_timestamp (pk_data p) \<and>
    (\<forall>i < n. ended cur i \<longleftrightarrow> ended p i) \<and>
    reported s e e' (ended_codes p [0..<n] (\<lambda>_. False))"
proof -
  let ?s1 = "s\<lparr>current_tev := Some p\<rparr>"
  obtain e1 where "notify_events_ended [0..<n] p ?s1 e = Some e1"
    "reported ?s1 e e1 (ended_codes p [0..<n] (\<lambda>_. False))"
    using notify_events_ended_reports [of ?s1 p n "[0..<n]" e] assms(1) p by auto
  then have e1: "notify_events_ended [0..<n] p ?s1 e = Some e1"
    "reported s e e1 (ended_codes p [0..<n] (\<lambda>_. False))" by (simp_all add: reported_frame [of ?s1 s])
  have st: "tev_start p (int n) s e = Some (?s1, e1)" using e1(1) by (simp add: tev_start_def)
  show ?thesis
  proof (cases "rtp_get_markbit (pk_data p)")
    case True
    obtain cur e2 where u: "update_events_ended [0..<n] p ?s1 e1 = Some (?s1\<lparr>current_tev := Some cur\<rparr>, e2)"
      "full_header cur" "tev_num cur = Some (int n)"
      "rtp_get_timestamp (pk_data cur) = rtp_get_timestamp (pk_data p)"
      "\<forall>i < n. ended cur i \<longleftrightarrow> ended p i \<or> i \<in> set [0..<n] \<and> ended p i"
      "reported ?s1 e1 e2 (ended_codes p [0..<n] (ended p))"
      using update_events_ended_reports [of ?s1 p n "[0..<n]" p n e1] assms(1) p by auto
    have "reported s e e2 (ended_codes p [0..<n] (\<lambda>_. False))"
      using reported_append [OF e1(2), of e2 "[]"] u(6) reported_frame [of ?s1 s] by simp
    then show ?thesis
      using True u st p(2) by (intro exI [of _ cur] exI [of _ e2])
        (simp add: rtp_session_check_telephone_events_def)
  next
    case False
    then show ?thesis
      using new st p e1(2) by (intro exI [of _ p] exI [of _ e1])
        (auto simp: rtp_session_check_telephone_events_def)
  qed
qed

lemma check_follow:
  assumes "st_ok (signals s On_telephone_event)" and p: "full_header p" "tev_num p = Some (int n)"
    and c: "current_tev s = Some c" "full_header c" "tev_num c = Some (int n)"
    and old: "\<not> rtp_get_markbit (pk_data p)" "rtp_get_timestamp (pk_data c) = rtp_get_timestamp (pk_data p)"
  shows "\<exists>cur e'. rtp_session_check_telephone_events s p e = Some (s\<lparr>current_tev := Some cur\<rparr>, e') \<and>
    full_header cur \<and> tev_num cur = Some (int n) \<and>
    rtp_get_timestamp (pk_data cur) = rtp_get_timestamp (pk_data p) \<and>
    (\<forall>i < n. ended cur i \<longleftrightarrow> ended c i \<or> ended p i) \<and>
    reported s e e' (ended_codes p [0..<n] (ended c))"
proof -
  have "rtp_session_check_telephone_events s p e = update_events_ended [0..<n] p s e"
    using p c old by (simp add: rtp_session_check_telephone_events_def)
  then show ?thesis
    using update_events_ended_reports [OF assms(1) p, of "[0..<n]" c n e] c old by auto
qed

lemma check_telephone_events_total:
  assumes ok: "session_ok e s" and p: "full_header p"
  shows "\<exists>cur e'. rtp_session_check_telephone_events s p e = Some (s\<lparr>current_tev := Some cur\<rparr>, e') \<and>
    full_header cur \<and> same_profiles e e'"
proof -
  have st: "st_ok (signals s On_telephone_event)" using session_okD(2) [OF ok] .
  obtain n where n: "tev_num p = Some (int n)" using tev_view(1) [OF p] by blast
  show ?thesis
  proof (cases "current_tev s = None \<or> rtp_get_markbit (pk_data p) \<or>
       (\<exists>c. current_tev s = Some c \<and> rtp_get_timestamp (pk_data c) \<noteq> rtp_get_timestamp (pk_data p))")
    case True
    then show ?thesis using check_start [OF st p n, of e] by (auto simp: reported_def)
  next
    case False
    then obtain c where c: "current_tev s = Some c" "\<not> rtp_get_markbit (pk_data p)"
      "rtp_get_timestamp (pk_data c) = rtp_get_timestamp (pk_data p)" by auto
    have f: "full_header c" using ok c(1) by (simp add: session_ok_def)
    obtain m where m: "tev_num c = Some (int m)" using tev_view(1) [OF f] by blast
    have "rtp_session_check_telephone_events s p e = update_events_ended [0..<min n m] p s e"
      using n m c by (simp add: rtp_session_check_telephone_events_def min_def)
    moreover have ix: "\<forall>i \<in> set [0..<min n m]. i < n" "\<forall>i \<in> set [0..<min n m]. i < m" by simp_all
    from update_events_ended_reports [OF st p n ix(1) distinct_upt c(1) f m ix(2), of e]
    obtain cur e' where "update_events_ended [0..<min n m] p s e = Some (s\<lparr>current_tev := Some cur\<rparr>, e')"
      "full_header cur" "reported s e e' (ended_codes p [0..<min n m] (ended c))" by blast
    ultimately show ?thesis by (intro exI [of _ cur] exI [of _ e']) (simp add: reported_def)
  qed
qed

section \<open>Every end is reported once\<close>

text \<open>The codes to report: those of the events that end in a packet and have not ended before.\<close>

primrec end_reports :: "nat \<Rightarrow> (nat \<Rightarrow> bool) \<Rightarrow> packet list \<Rightarrow> u8 list" where
  "end_reports n known [] = []"
| "end_reports n known (p # ps) =
     ended_codes p [0..<n] known @ end_reports n (\<lambda>i. known i \<or> ended p i) ps"

lemma end_reports_cong:
  "(\<And>i. i < n \<Longrightarrow> k i = k' i) \<Longrightarrow> end_reports n k ps = end_reports n k' ps"
proof (induction ps arbitrary: k k')
  case (Cons p ps)
  have "filter (\<lambda>i. ended p i \<and> \<not> k i) [0..<n] = filter (\<lambda>i. ended p i \<and> \<not> k' i) [0..<n]"
    using Cons.prems by (intro filter_cong) auto
  then show ?case using Cons.IH [of "\<lambda>i. k i \<or> ended p i" "\<lambda>i. k' i \<or> ended p i"] Cons.prems by simp
qed simp

lemma length_end_reports:
  "length (end_reports n known ps) = card {i. i < n \<and> \<not> known i \<and> (\<exists>p \<in> set ps. ended p i)}"
proof (induction ps arbitrary: known)
  case (Cons p ps)
  let ?A = "{i. i < n \<and> \<not> known i \<and> ended p i}"
  let ?B = "{i. i < n \<and> \<not> (known i \<or> ended p i) \<and> (\<exists>p \<in> set ps. ended p i)}"
  have "length (ended_codes p [0..<n] known) = card (set (filter (\<lambda>i. ended p i \<and> \<not> known i) [0..<n]))"
    by (subst distinct_card) simp_all
  also have "set (filter (\<lambda>i. ended p i \<and> \<not> known i) [0..<n]) = ?A" by auto
  finally have "length (ended_codes p [0..<n] known) = card ?A" .
  moreover have "card (?A \<union> ?B) = card ?A + card ?B"
    by (intro card_Un_disjoint) auto
  moreover have "?A \<union> ?B = {i. i < n \<and> \<not> known i \<and> (\<exists>p \<in> set (p # ps). ended p i)}" by auto
  ultimately show ?case using Cons.IH by simp
qed simp

definition tev_step :: "packet \<Rightarrow> rtp_session \<times> ort_env \<Rightarrow> (rtp_session \<times> ort_env) option" where
  "tev_step p c = rtp_session_check_telephone_events (fst c) p (snd c)"

lemma tev_step_pair: "tev_step p (s, e) = rtp_session_check_telephone_events s p e"
  by (simp add: tev_step_def)

lemma follow_run:
  assumes "st_ok (signals s On_telephone_event)"
    and "current_tev s = Some c" "full_header c" "tev_num c = Some (int n)"
    and "\<forall>p \<in> set ps. full_header p \<and> tev_num p = Some (int n) \<and> \<not> rtp_get_markbit (pk_data p) \<and>
       rtp_get_timestamp (pk_data p) = rtp_get_timestamp (pk_data c)"
  shows "\<exists>s' e'. run_steps tev_step ps (s, e) = Some (s', e') \<and> reported s e e' (end_reports n (ended c) ps)"
  using assms
proof (induction ps arbitrary: s c e)
  case (Cons p ps)
  obtain cur e1 where 1: "rtp_session_check_telephone_events s p e = Some (s\<lparr>current_tev := Some cur\<rparr>, e1)"
    "full_header cur" "tev_num cur = Some (int n)" "rtp_get_timestamp (pk_data cur) = rtp_get_timestamp (pk_data p)"
    "\<forall>i < n. ended cur i \<longleftrightarrow> ended c i \<or> ended p i"
    "reported s e e1 (ended_codes p [0..<n] (ended c))"
    using check_follow [OF Cons.prems(1) _ _ Cons.prems(2-4), of p e] Cons.prems(5) by auto
  let ?s1 = "s\<lparr>current_tev := Some cur\<rparr>"
  obtain s' e' where r: "run_steps tev_step ps (?s1, e1) = Some (s', e')"
    "reported ?s1 e1 e' (end_reports n (ended cur) ps)"
    using Cons.IH [of ?s1 cur e1] Cons.prems 1(2-4) by auto
  have "end_reports n (ended cur) ps = end_reports n (\<lambda>i. ended c i \<or> ended p i) ps"
    using 1(5) by (intro end_reports_cong) auto
  then have "reported s e e' (end_reports n (ended c) (p # ps))"
    using reported_append [OF 1(6)] r(2) reported_frame [of ?s1 s] by simp
  then show ?case using r(1) 1(1) by (auto simp: tev_step_pair)
qed (auto simp: reported_Nil)

text \<open>
  C10. The end of a tone is reported exactly once, although its packets are repeated: for the
  packets of one group of events, the first of which starts it (it has the marker bit, or no group
  is stored, or the stored one has another timestamp), the callbacks made and the events queued are
  those of the events that end in some packet, in the order in which their ends first arrive.
\<close>

theorem dtmf_end_reported_once:
  assumes "st_ok (signals s On_telephone_event)"
    and "current_tev s = None \<or> rtp_get_markbit (pk_data p) \<or>
       (\<exists>c. current_tev s = Some c \<and> rtp_get_timestamp (pk_data c) \<noteq> rtp_get_timestamp (pk_data p))"
    and "list_all (\<lambda>m. full_header m \<and> tev_num m = Some (int n)) (p # ps)"
    and "list_all (\<lambda>m. \<not> rtp_get_markbit (pk_data m) \<and>
       rtp_get_timestamp (pk_data m) = rtp_get_timestamp (pk_data p)) ps"
  shows "\<exists>s' e' codes. run_steps tev_step (p # ps) (s, e) = Some (s', e') \<and>
    codes = end_reports n (\<lambda>_. False) (p # ps) \<and>
    length codes = card {i. i < n \<and> list_ex (\<lambda>m. ended m i) (p # ps)} \<and>
    calls e' = calls e @ tev_calls s codes \<and>
    (\<forall>q. distinct (eventqs s) \<and> q \<in> set (eventqs s) \<longrightarrow>
       map ev_info (ev_queues e' q) = map ev_info (ev_queues e q) @ map uint codes)"
proof -
  obtain cur e1 where 1: "rtp_session_check_telephone_events s p e = Some (s\<lparr>current_tev := Some cur\<rparr>, e1)"
    "full_header cur" "tev_num cur = Some (int n)" "rtp_get_timestamp (pk_data cur) = rtp_get_timestamp (pk_data p)"
    "\<forall>i < n. ended cur i \<longleftrightarrow> ended p i" "reported s e e1 (ended_codes p [0..<n] (\<lambda>_. False))"
    using check_start [OF assms(1) _ _ assms(2), of n e] assms(3) by auto
  let ?s1 = "s\<lparr>current_tev := Some cur\<rparr>"
  obtain s' e' where r: "run_steps tev_step ps (?s1, e1) = Some (s', e')"
    "reported ?s1 e1 e' (end_reports n (ended cur) ps)"
    using follow_run [of ?s1 cur n ps e1] assms 1(2-4) by (auto simp: list_all_iff)
  have "end_reports n (ended cur) ps = end_reports n (\<lambda>i. False \<or> ended p i) ps"
    using 1(5) by (intro end_reports_cong) auto
  then have "reported s e e' (end_reports n (\<lambda>_. False) (p # ps))"
    using reported_append [OF 1(6)] r(2) reported_frame [of ?s1 s] by simp
  moreover have "length (end_reports n (\<lambda>_. False) (p # ps)) = card {i. i < n \<and> list_ex (\<lambda>m. ended m i) (p # ps)}"
    by (simp only: length_end_reports list_ex_iff) simp
  moreover have "run_steps tev_step (p # ps) (s, e) = Some (s', e')"
    using r(1) 1(1) by (simp add: tev_step_pair)
  ultimately show ?thesis by (auto simp: reported_def)
qed

text \<open>The packets of the tone 5: its start, its end, and the repeated end.\<close>

definition ex_tev :: "bool \<Rightarrow> bool \<Rightarrow> packet" where
  "ex_tev start fin = \<lparr>pk_data = [0x80, (if start then 0x80 else 0) OR 101] @ le16_bytes 1 @ le32_bytes 160 @
     le32_bytes 7 @ tev_encode 5 fin 10 160, pk_cont = [], pk_addr = 5\<rparr>"

lemma dtmf_end_reported_once_witness:
  "\<exists>s' e'. run_steps tev_step [ex_tev True False, ex_tev False True, ex_tev False True]
     (rtp_session_register_event_queue ex_session 3, ex_env) = Some (s', e') \<and>
   map ev_info (ev_queues e' 3) = [5]"
proof -
  let ?s = "rtp_session_register_event_queue ex_session 3"
  have bs: "pk_data (ex_tev a b) = [0x80, (if a then 0xE5 else 0x65), 1, 0, 160, 0, 0, 0, 7, 0, 0, 0,
      5, (if b then 0x8A else 10), 0, 160]" for a b
    by (simp add: ex_tev_def le16_bytes_def le32_bytes_def tev_encode_def be16_bytes_def)
  have cc: "rtp_get_cc (pk_data (ex_tev a b)) = 0" "\<not> rtp_get_extbit (pk_data (ex_tev a b))" for a b
    by (simp_all add: bs rtp_get_cc_def rtp_get_extbit_def bit_numeral_rec)
  have pay: "rtp_get_payload (ex_tev a b) = Some (In_block 12 4)" for a b
    by (simp only: rtp_get_payload_def Let_def cc rtp_get_extheader_def) (simp add: bs)
  have h: "full_header (ex_tev a b)" "tev_num (ex_tev a b) = Some (int 1)"
    "rtp_get_markbit (pk_data (ex_tev a b)) = a"
    "rtp_get_timestamp (pk_data (ex_tev a b)) = 160" "ended (ex_tev a b) 0 = b" "code_of (ex_tev a b) 0 = 5" for a b
    by (simp_all add: full_header_def cc tev_num_def pay ended_def tev_end_def tev_byte_def code_of_def
        tev_event_def rd8_def, simp_all add: bs rtp_get_markbit_def rtp_get_timestamp_def sub_def le32_def bit_numeral_rec)
  have s: "st_ok (signals ?s On_telephone_event)" "current_tev ?s = None" "eventqs ?s = [3]" "ev_queues ex_env 3 = []"
    using st_ok_init(1) by (simp_all add: rtp_session_register_event_queue_def ex_session_def session_zero_def ex_env_def)
  have "end_reports 1 (\<lambda>_. False) [ex_tev True False, ex_tev False True, ex_tev False True] = [5]"
    by (simp add: h)
  then show ?thesis
    using dtmf_end_reported_once [of ?s "ex_tev True False" 1 "[ex_tev False True, ex_tev False True]" ex_env] h s
    by auto
qed

end
