(* ===== verification/Rtp_Io.thy ===== *)
theory Rtp_Io
  imports Telephone_Events
begin

text \<open>
  The session at work: datagrams are sent and received (\<^verbatim>\<open>oRTP/src/rtpsession_inet.c\<close>),
  incoming reports are processed, and the application's calls to send and to get media run
  (\<^verbatim>\<open>oRTP/src/rtpsession.c\<close>). The results of the system calls are in the environment:
  what the sockets deliver, in order, and what the sends return.
\<close>

section \<open>Bandwidth counters\<close>

definition update_sent_bytes :: "int \<Rightarrow> ort_env \<Rightarrow> rtp_session \<Rightarrow> rtp_session" where
  "update_sent_bytes nbytes e = upd_rtp (\<lambda>r.
     let r1 = (if sent_bytes r = 0 then r\<lparr>send_bw_start := now e\<rparr> else r)
     in r1\<lparr>sent_bytes := sent_bytes r1 + of_int (nbytes + udp_overhead (rs_ipv6 r))\<rparr>)"

definition update_recv_bytes :: "int \<Rightarrow> ort_env \<Rightarrow> rtp_session \<Rightarrow> rtp_session" where
  "update_recv_bytes nbytes e = upd_rtp (\<lambda>r.
     let r1 = (if recv_bytes r = 0 then r\<lparr>recv_bw_start := now e\<rparr> else r)
     in r1\<lparr>recv_bytes := recv_bytes r1 + of_int (nbytes + udp_overhead (rs_ipv6 r))\<rparr>)"

section \<open>Sending a datagram\<close>

text \<open>A message of more than 30 blocks loses the rest; a transport gets all of it.\<close>

definition MAX_IOV :: nat where "MAX_IOV = 30"

definition rtp_sendmsg_bytes :: "packet \<Rightarrow> u8 list" where
  "rtp_sendmsg_bytes m = concat (take MAX_IOV (pk_data m # pk_cont m))"

definition rtp_session_rtp_send ::
  "rtp_session \<Rightarrow> packet \<Rightarrow> ort_env \<Rightarrow> (int \<times> rtp_session \<times> ort_env) option" where
  "rtp_session_rtp_send s m e =
     (if pk_data m = [] then None
      else do {
        m1 \<leftarrow> (if rtp_get_version (pk_data m) = 0 then Some m
               else map_option (\<lambda>bs. m\<lparr>pk_data := bs\<rparr>) (rtp_hton (pk_data m)));
        let d = (if rtp_session_using_transport_rtp s then msg_bytes m1 else rtp_sendmsg_bytes m1);
        let (r, e1) = io_result d e;
        if r < 0 then do {
          e2 \<leftarrow> (if st_count (signals s On_network_error) > 0
                  then emit_signal On_network_error [0, nat (- r)] s e1 else Some e1);
          Some (-1, upd_rtp (\<lambda>t. t\<lparr>send_errno := - r\<rparr>) s, e2) }
        else Some (r, update_sent_bytes r e1 s, e1\<lparr>rtp_out := rtp_out e1 @ [d]\<rparr>) })"

section \<open>Receiving RTP\<close>

text \<open>A packet through the network simulator, when there is one.\<close>

definition net_feed ::
  "packet option \<Rightarrow> rtp_session \<Rightarrow> ort_env \<Rightarrow> (packet option \<times> rtp_session \<times> ort_env) option" where
  "net_feed input s e = (case net_sim s of
      None \<Rightarrow> Some (input, s, e)
    | Some sim \<Rightarrow> do {
        (om, rs, sim1) \<leftarrow> rtp_session_network_simulate (rs_ipv6 (rtp s)) (now e) (env_rands e) input sim;
        Some (om, s\<lparr>net_sim := Some sim1\<rparr>, e\<lparr>env_rands := rs\<rparr>) })"

text \<open>Connecting to the peer whose datagram arrived first.\<close>

definition symmetric_connect :: "nat \<Rightarrow> rtp_session \<Rightarrow> ort_env \<Rightarrow> rtp_session" where
  "symmetric_connect addr s e =
     (if use_connect s \<and> symmetric_rtp s \<and> \<not> has_flag s RTP_SOCKET_CONNECTED then
        let s1 = upd_rtp (\<lambda>r. r\<lparr>rs_rem_addr := addr\<rparr>) s
        in if connect_ok e then rtp_session_set_flag RTP_SOCKET_CONNECTED s1 else s1
      else s)"

definition parse_received ::
  "packet \<Rightarrow> u32 \<Rightarrow> nat \<Rightarrow> int \<Rightarrow> rtp_session \<Rightarrow> ort_env \<Rightarrow> (rtp_session \<times> ort_env) option" where
  "parse_received mp user_ts addr nbytes s e =
     rtp_session_rtp_parse (update_recv_bytes nbytes e s) mp user_ts addr e"

text \<open>
  One datagram: it is cut to the receive buffer. On a connected socket the address of the sender
  is not asked for; what is passed on in its place is unset, 0 here.
\<close>

definition recv_datagram ::
  "u8 list \<Rightarrow> nat \<Rightarrow> u32 \<Rightarrow> rtp_session \<Rightarrow> ort_env \<Rightarrow> (rtp_session \<times> ort_env) option" where
  "recv_datagram bs addr user_ts s e =
     (let from = (if has_flag s RTP_SOCKET_CONNECTED then 0 else addr)
      in do {
        (mp, s1, e1) \<leftarrow> net_feed (Some \<lparr>pk_data = bs, pk_cont = [], pk_addr = addr\<rparr>)
                           (symmetric_connect addr s e) e;
        case mp of
          Some p \<Rightarrow> parse_received p user_ts from (int (length (pk_data p))) s1 e1
        | None \<Rightarrow> Some (s1, e1) })"

text \<open>Nothing to read: the simulator is drained by one packet.\<close>

definition recv_idle :: "u32 \<Rightarrow> rtp_session \<Rightarrow> ort_env \<Rightarrow> (rtp_session \<times> ort_env) option" where
  "recv_idle user_ts s e =
     (if net_sim s = None then Some (s, e)
      else do {
        (mp, s1, e1) \<leftarrow> net_feed None s e;
        case mp of
          Some p \<Rightarrow> parse_received p user_ts (rs_rem_addr (rtp s1)) (msg_size p) s1 e1
        | None \<Rightarrow> Some (s1, e1) })"

fun rtp_recv_loop :: "rx list \<Rightarrow> u32 \<Rightarrow> rtp_session \<Rightarrow> ort_env \<Rightarrow> (rtp_session \<times> ort_env) option" where
  "rtp_recv_loop [] user_ts s e = recv_idle user_ts s (e\<lparr>rtp_in := []\<rparr>)"
| "rtp_recv_loop (Datagram bs addr # rest) user_ts s e =
     (let bs1 = take (nat (recv_buf_size s)) bs
      in if bs1 = [] then recv_idle user_ts s (e\<lparr>rtp_in := rest\<rparr>)
         else do {
           (s1, e1) \<leftarrow> recv_datagram bs1 addr user_ts s e;
           rtp_recv_loop rest user_ts s1 e1 })"
| "rtp_recv_loop (Would_block # rest) user_ts s e = recv_idle user_ts s (e\<lparr>rtp_in := rest\<rparr>)"
| "rtp_recv_loop (Rx_error n # rest) user_ts s e = do {
     e1 \<leftarrow> (if st_count (signals s On_network_error) > 0
             then emit_signal On_network_error [0, nat n] s e else Some e);
     Some (s, e1\<lparr>rtp_in := rest\<rparr>) }"

text \<open>The result is always -1.\<close>

definition rtp_session_rtp_recv ::
  "rtp_session \<Rightarrow> u32 \<Rightarrow> ort_env \<Rightarrow> (int \<times> rtp_session \<times> ort_env) option" where
  "rtp_session_rtp_recv s user_ts e =
     (if rs_socket (rtp s) = -1 \<and> \<not> rtp_session_using_transport_rtp s then Some (-1, s, e)
      else do {
        (s1, e1) \<leftarrow> rtp_recv_loop (rtp_in e) user_ts s e;
        Some (-1, s1, e1) })"

section \<open>Receiving RTCP\<close>

definition RTCP_MAX_RECV_BUFSIZE :: nat where "RTCP_MAX_RECV_BUFSIZE = 1500"

definition rtp_session_notify_inc_rtcp :: "rtp_session \<Rightarrow> u8 list \<Rightarrow> ort_env \<Rightarrow> ort_env" where
  "rtp_session_notify_inc_rtcp s m e =
     (if eventqs s \<noteq> []
      then rtp_session_dispatch_event s \<lparr>ev_type = ORTP_EVENT_RTCP_PACKET_RECEIVED, ev_packet = m,
             ev_addr = 0, ev_info = 0\<rparr> e
      else e)"

text \<open>The difference is taken on 32 bit unsigned values before it becomes a number of seconds.\<close>

definition compute_rtt :: "rtp_session \<Rightarrow> timeval \<Rightarrow> u8 list \<Rightarrow> nat \<Rightarrow> rtp_session option" where
  "compute_rtt s tv bs rb = do {
     let approx_ntp = (ucast (drop_bit 16 (ortp_timeval_to_ntp tv)) :: u32);
     last_sr_time \<leftarrow> report_block_get_last_SR_time bs rb;
     sr_delay \<leftarrow> report_block_get_last_SR_delay bs rb;
     if last_sr_time \<noteq> 0 \<and> sr_delay \<noteq> 0 then
       let rtt = of_int (uint (approx_ntp - last_sr_time - sr_delay)) / 65536;
           rtt1 = (case net_sim s of
               Some sim \<Rightarrow> if max_bandwidth (sim_params sim) > 0
                 then to_double (rtt + to_double (of_int (sim_qsize sim) / max_bandwidth (sim_params sim)))
                 else rtt
             | None \<Rightarrow> rtt)
       in Some (s\<lparr>s_rtt := to_float rtt1\<rparr>)
     else Some s }"

text \<open>
  One packet of a compound, at the position of \<open>m\<close>; the second part of the result says that
  the function returns. What is read of a sender report is read at the start of the datagram,
  whichever packet of the compound it is.
\<close>

definition process_sender_report ::
  "timeval \<Rightarrow> rtcp_msg \<Rightarrow> rtp_session \<Rightarrow> (rtp_session \<times> bool) option" where
  "process_sender_report tv m s = do {
     let s1 = upd_rtp (\<lambda>r. r\<lparr>last_rcv_SR_ts := 0, last_rcv_SR_time := \<lparr>tv_sec = 0, tv_usec = 0\<rparr>\<rparr>) s;
     ssrc \<leftarrow> rd32 (rm_data m) 4;
     if ssrc \<noteq> d_ssrc (rcv_dir s1) then Some (s1, True)
     else do {
       rc \<leftarrow> rtcp_common_header_get_rc (rm_data m) 0;
       if int (length (rm_data m)) < 28 + 24 * rc then Some (s1, True)
       else do {
         msw \<leftarrow> rd32 (rm_data m) 8;
         lsw \<leftarrow> rd32 (rm_data m) 12;
         let s2 = upd_rtp (\<lambda>r. r\<lparr>last_rcv_SR_ts := push_bit 16 msw OR drop_bit 16 lsw,
                    last_rcv_SR_time := tv\<rparr>) s1;
         rb \<leftarrow> rtcp_SR_get_report_block m 0;
         s3 \<leftarrow> (case rb of None \<Rightarrow> Some s2 | Some rb \<Rightarrow> compute_rtt s2 tv (rm_data m) rb);
         Some (s3, False) } } }"

definition process_rtcp_one ::
  "timeval \<Rightarrow> rtcp_msg \<Rightarrow> rtp_session \<Rightarrow> (rtp_session \<times> bool) option" where
  "process_rtcp_one tv m s = do {
     sr \<leftarrow> rtcp_is_SR m;
     if sr then process_sender_report tv m s
     else do {
       rr \<leftarrow> rtcp_is_RR m;
       if rr then do {
         rb \<leftarrow> rtcp_RR_get_report_block m 0;
         s1 \<leftarrow> (case rb of None \<Rightarrow> Some s | Some rb \<Rightarrow> compute_rtt s tv (rm_data m) rb);
         Some (s1, False) }
       else Some (s, False) } }"

function process_rtcp_loop :: "timeval \<Rightarrow> rtcp_msg \<Rightarrow> rtp_session \<Rightarrow> rtp_session option" where
  "process_rtcp_loop tv m s = (case process_rtcp_one tv m s of
      None \<Rightarrow> None
    | Some (s1, True) \<Rightarrow> Some s1
    | Some (s1, False) \<Rightarrow> (case rtcp_next_packet m of
          None \<Rightarrow> None
        | Some (False, _) \<Rightarrow> Some s1
        | Some (True, m1) \<Rightarrow> process_rtcp_loop tv m1 s1))"
  by auto
termination
proof (relation "measure (\<lambda>(_, m, _). length (rm_data m) - rm_pos m)")
  fix tv m s p s1 b q b' m'
  assume "rtcp_next_packet m = Some q" and "(b', m') = q" and "b' = True"
  then have "rtcp_next_packet m = Some (True, m')" by simp
  then show "((tv, m', s1), (tv, m, s)) \<in> measure (\<lambda>(_, m, _). length (rm_data m) - rm_pos m)"
    using rtcp_next_packet_progress by fastforce
qed simp

declare process_rtcp_loop.simps [simp del]

definition process_rtcp_packet ::
  "rtp_session \<Rightarrow> u8 list \<Rightarrow> nat \<Rightarrow> ort_env \<Rightarrow> (int \<times> rtp_session \<times> ort_env) option" where
  "process_rtcp_packet s bs addr e =
     (if length bs < 4 then Some (0, s, e)
      else do {
        v \<leftarrow> rtcp_common_header_get_version bs 0;
        if v \<noteq> 2 then do {
          stunlen \<leftarrow> rd16 bs 2;
          if uint stunlen + 20 = int (length bs) \<and> eventqs s \<noteq> []
          then Some (-1, s, rtp_session_dispatch_event s \<lparr>ev_type = ORTP_EVENT_STUN_PACKET_RECEIVED,
                       ev_packet = bs, ev_addr = addr, ev_info = 1\<rparr> e)
          else Some (0, s, e) }
        else do {
          s1 \<leftarrow> process_rtcp_loop (now e) \<lparr>rm_data = bs, rm_pos = 0\<rparr> s;
          Some (0, s1, e) } })"

definition rtcp_symmetric :: "nat \<Rightarrow> bool \<Rightarrow> rtp_session \<Rightarrow> ort_env \<Rightarrow> rtp_session" where
  "rtcp_symmetric addr conn s e =
     (if symmetric_rtp s \<and> \<not> conn then
        let s1 = upd_rtcp (\<lambda>c. c\<lparr>cs_rem_addr := addr, cs_rem_addrlen := (if rs_ipv6 (rtp s) then 28 else 16)\<rparr>) s
        in if use_connect s1 \<and> connect_ok e then rtp_session_set_flag RTCP_SOCKET_CONNECTED s1 else s1
      else s)"

definition rtcp_recv_datagram ::
  "u8 list \<Rightarrow> nat \<Rightarrow> rtp_session \<Rightarrow> ort_env \<Rightarrow> (rtp_session \<times> ort_env) option" where
  "rtcp_recv_datagram bs addr s e =
     (let conn = has_flag s RTCP_SOCKET_CONNECTED
      in do {
        (r, s1, e1) \<leftarrow> process_rtcp_packet s bs (if conn then 0 else addr) e;
        let e2 = (if r \<ge> 0 then rtp_session_notify_inc_rtcp s1 bs e1 else e1);
        Some (rtcp_symmetric addr conn s1 e2, e2) })"

fun rtcp_recv_loop :: "rx list \<Rightarrow> rtp_session \<Rightarrow> ort_env \<Rightarrow> (rtp_session \<times> ort_env) option" where
  "rtcp_recv_loop [] s e = Some (s, e\<lparr>rtcp_in := []\<rparr>)"
| "rtcp_recv_loop (Datagram bs addr # rest) s e =
     (let bs1 = take RTCP_MAX_RECV_BUFSIZE bs
      in if bs1 = [] then Some (s, e\<lparr>rtcp_in := rest\<rparr>)
         else do {
           (s1, e1) \<leftarrow> rtcp_recv_datagram bs1 addr s e;
           rtcp_recv_loop rest s1 e1 })"
| "rtcp_recv_loop (Would_block # rest) s e = Some (s, e\<lparr>rtcp_in := rest\<rparr>)"
| "rtcp_recv_loop (Rx_error n # rest) s e =
     (if n = 0 then Some (s, e\<lparr>rtcp_in := rest\<rparr>)
      else do {
        e1 \<leftarrow> (if st_count (signals s On_network_error) > 0
                then emit_signal On_network_error [0, nat n] s e else Some e);
        Some (upd_rtp (\<lambda>r. r\<lparr>recv_errno := n\<rparr>) s, e1\<lparr>rtcp_in := rest\<rparr>) })"

definition rtp_session_rtcp_recv ::
  "rtp_session \<Rightarrow> ort_env \<Rightarrow> (int \<times> rtp_session \<times> ort_env) option" where
  "rtp_session_rtcp_recv s e =
     (if cs_socket (rtcp s) = -1 \<and> \<not> rtp_session_using_transport_rtcp s then Some (-1, s, e)
      else do {
        (s1, e1) \<leftarrow> rtcp_recv_loop (rtcp_in e) s e;
        Some (-1, s1, e1) })"

section \<open>Sending media\<close>

text \<open>The first send fixes the offsets; a scheduled session then waits for its time.\<close>

definition send_start :: "u32 \<Rightarrow> rtp_session \<Rightarrow> ort_env \<Rightarrow> rtp_session option" where
  "send_start send_ts s e =
     (if has_flag s RTP_SESSION_SEND_NOT_STARTED then do {
        let s1 = upd_rtp (\<lambda>r. r\<lparr>snd_ts_offset := send_ts\<rparr>) s;
        let s2 = (if has_flag s1 RTP_SESSION_RECV_NOT_STARTED \<or> s_mode s1 = RTP_SESSION_SENDONLY
                  then s1\<lparr>last_recv_time := now e\<rparr> else s1);
        s3 \<leftarrow> (if has_flag s2 RTP_SESSION_SCHEDULED then do {
                  sched \<leftarrow> env_sched e;
                  Some (upd_rtp (\<lambda>r. r\<lparr>snd_time_offset := sched_time sched\<rparr>) s2) }
               else Some s2);
        Some (rtp_session_unset_flag RTP_SESSION_SEND_NOT_STARTED s3) }
      else Some s)"

definition send_schedule :: "u32 \<Rightarrow> rtp_session \<Rightarrow> ort_env \<Rightarrow> (rtp_session \<times> ort_env) option" where
  "send_schedule send_ts s e =
     (if has_flag s RTP_SESSION_SCHEDULED then do {
        sched \<leftarrow> env_sched e;
        t \<leftarrow> rtp_session_ts_to_time e s (send_ts - snd_ts_offset (rtp s));
        let packet_time = t + snd_time_offset (rtp s);
        if RTP_TIMESTAMP_IS_STRICTLY_NEWER_THAN packet_time (sched_time sched) then do {
          ws \<leftarrow> fd_clr (mask_pos s) (w_sessions sched);
          Some (s\<lparr>snd_dir := (snd_dir s)\<lparr>d_wp := wait_point_wakeup_at packet_time\<rparr>\<rparr>,
                e\<lparr>env_sched := Some (sched\<lparr>w_sessions := ws\<rparr>)\<rparr>) }
        else do {
          ws \<leftarrow> fd_set (mask_pos s) (w_sessions sched);
          Some (s, e\<lparr>env_sched := Some (sched\<lparr>w_sessions := ws\<rparr>)\<rparr>) } }
      else Some (s, e))"

text \<open>The header's last fields and the counters, for anything but a STUN packet.\<close>

definition send_stamp :: "packet \<Rightarrow> u32 \<Rightarrow> rtp_session \<Rightarrow> ort_env \<Rightarrow> packet \<times> rtp_session \<times> ort_env" where
  "send_stamp mp packet_ts s e =
     (if rtp_get_version (pk_data mp) = 0 then (mp, s, e)
      else
        let packsize = msg_size mp;
            b1 = rtp_set_timestamp packet_ts (pk_data mp);
            tev = (d_tev_pt (snd_dir s) = rtp_get_payload_type b1);
            b2 = (if tev then rtp_set_seqnumber (snd_seq (rtp s)) b1 else b1);
            s1 = upd_rtp (\<lambda>r. r\<lparr>snd_seq := (if tev then snd_seq r + 1 else rtp_get_seqnumber b1 + 1),
                   snd_last_ts := packet_ts,
                   sent_payload_bytes := sent_payload_bytes r + of_int (packsize - 12)\<rparr>) s;
            f = (\<lambda>t. t\<lparr>st_sent := st_sent t + of_int packsize, packet_sent := packet_sent t + 1\<rparr>)
        in (mp\<lparr>pk_data := b2\<rparr>, upd_stats f s1, upd_gstats f e))"

definition rtp_session_sendm_with_ts_2 ::
  "rtp_session \<Rightarrow> packet option \<Rightarrow> u32 \<Rightarrow> u32 \<Rightarrow> ort_env \<Rightarrow> (int \<times> rtp_session \<times> ort_env) option" where
  "rtp_session_sendm_with_ts_2 s mp packet_ts send_ts e = do {
     s1 \<leftarrow> send_start send_ts s e;
     (s2, e2) \<leftarrow> send_schedule send_ts s1 e;
     case mp of
       None \<Rightarrow> Some (0, upd_rtp (\<lambda>r. r\<lparr>snd_last_ts := packet_ts\<rparr>) s2, e2)
     | Some p \<Rightarrow>
         if pk_data p = [] \<or> rtp_get_version (pk_data p) \<noteq> 0 \<and> length (pk_data p) < 12 then None
         else do {
           let (p1, s3, e3) = send_stamp p packet_ts s2 e2;
           (error, s4, e4) \<leftarrow> rtp_session_rtp_send s3 p1 e3;
           (s5, e5) \<leftarrow> rtp_session_rtcp_process_send s4 e4;
           if s_mode s5 = RTP_SESSION_SENDONLY then do {
             (_, s6, e6) \<leftarrow> rtp_session_rtcp_recv s5 e5;
             Some (error, s6, e6) }
           else Some (error, s5, e5) } }"

definition rtp_session_sendm_with_ts ::
  "rtp_session \<Rightarrow> packet option \<Rightarrow> u32 \<Rightarrow> ort_env \<Rightarrow> (int \<times> rtp_session \<times> ort_env) option" where
  "rtp_session_sendm_with_ts s p timestamp e = rtp_session_sendm_with_ts_2 s p timestamp timestamp e"

definition rtp_session_send_with_ts ::
  "rtp_session \<Rightarrow> u8 list \<Rightarrow> u32 \<Rightarrow> ort_env \<Rightarrow> (int \<times> rtp_session \<times> ort_env) option" where
  "rtp_session_send_with_ts s buffer userts e =
     rtp_session_sendm_with_ts s (Some (rtp_session_create_packet s [] buffer)) userts e"

section \<open>Receiving media\<close>

definition rtp_session_pick_with_cseq :: "rtp_session \<Rightarrow> u16 \<Rightarrow> packet option" where
  "rtp_session_pick_with_cseq s sequence_number =
     find (\<lambda>p. pkt_seq p = sequence_number) (rq (rtp s))"

text \<open>Whether the sockets are read: not twice for the same timestamp.\<close>

definition recv_start :: "u32 \<Rightarrow> rtp_session \<Rightarrow> ort_env \<Rightarrow> (bool \<times> rtp_session) option" where
  "recv_start user_ts s e = do {
     (rd, s1) \<leftarrow>
       (if has_flag s RTP_SESSION_RECV_NOT_STARTED then do {
          let s1 = upd_rtp (\<lambda>r. r\<lparr>rcv_query_ts_offset := user_ts\<rparr>) s;
          let s2 = (if has_flag s1 RTP_SESSION_SEND_NOT_STARTED \<or> s_mode s1 = RTP_SESSION_RECVONLY
                    then s1\<lparr>last_recv_time := now e\<rparr> else s1);
          s3 \<leftarrow> (if has_flag s2 RTP_SESSION_SCHEDULED then do {
                    sched \<leftarrow> env_sched e;
                    Some (upd_rtp (\<lambda>r. r\<lparr>rcv_time_offset := sched_time sched\<rparr>) s2) }
                 else Some s2);
          Some (True, rtp_session_unset_flag RTP_SESSION_RECV_NOT_STARTED s3) }
        else Some (user_ts \<noteq> rcv_last_app_ts (rtp s), s));
     Some (rd, upd_rtp (\<lambda>r. r\<lparr>rcv_last_app_ts := user_ts\<rparr>) s1) }"

definition count_delivered :: "packet \<Rightarrow> rtp_session \<Rightarrow> ort_env \<Rightarrow> rtp_session \<times> ort_env" where
  "count_delivered p s e =
     (let f = (\<lambda>t. t\<lparr>st_recv := st_recv t + of_int (msg_size p)\<rparr>) in (upd_stats f s, upd_gstats f e))"

text \<open>A telephone event packet, if there is one; the signal gets the packet's address, 0 here.\<close>

definition recv_telephone_event :: "rtp_session \<Rightarrow> ort_env \<Rightarrow> (rtp_session \<times> ort_env) option" where
  "recv_telephone_event s e = (case tev_rq (rtp s) of
      [] \<Rightarrow> Some (s, e)
    | p # ps \<Rightarrow> do {
        let (s1, e1) = count_delivered p (upd_rtp (\<lambda>r. r\<lparr>tev_rq := ps\<rparr>) s) e;
        e2 \<leftarrow> emit_signal On_telephone_event_packet [0] s1 e1;
        rtp_session_check_telephone_events s1 p e2 })"

text \<open>The first packet fixes the source and the offset of its timestamps.\<close>

definition recv_sync :: "u32 \<Rightarrow> rtp_session \<Rightarrow> rtp_session" where
  "recv_sync user_ts s =
     (if has_flag s RTP_SESSION_RECV_SYNC then
        let h = pk_data (hd (rq (rtp s)));
            s0 = upd_rtp (\<lambda>r. r\<lparr>rcv_ts_offset := rtp_get_timestamp h, rcv_last_ret_ts := user_ts\<rparr>) s
        in rtp_session_unset_flag RTP_SESSION_RECV_SYNC
             (s0\<lparr>rcv_dir := (rcv_dir s0)\<lparr>d_ssrc := rtp_get_ssrc h\<rparr>\<rparr>)
      else s)"

text \<open>The packet taken from the queue for a stream timestamp, if any, how many were skipped, the rest.\<close>

definition take_media :: "u32 \<Rightarrow> rtp_session \<Rightarrow> packet option \<times> int \<times> packet list" where
  "take_media ts s =
     (if jc_enabled (jittctl (rtp s)) then
        if permissive s then rtp_getq_permissive_list pkt_ts ts (rq (rtp s))
        else rtp_getq_list pkt_ts ts (rq (rtp s))
      else (case rq (rtp s) of [] \<Rightarrow> (None, 0, []) | p # ps \<Rightarrow> (Some p, 0, ps)))"

definition recv_media :: "u32 \<Rightarrow> rtp_session \<Rightarrow> ort_env \<Rightarrow> packet option \<times> rtp_session \<times> ort_env" where
  "recv_media user_ts s e =
     (if has_flag s RTP_SESSION_RECV_SYNC \<and> rq (rtp s) = [] then (None, s, e)
      else
        let s1 = recv_sync user_ts s;
            (mp, rejected, q) =
              take_media (jitter_control_get_compensated_timestamp (jittctl (rtp s1)) user_ts) s1;
            s2 = upd_rtp (\<lambda>r. r\<lparr>rq := q\<rparr>) s1;
            f = (\<lambda>t. t\<lparr>outoftime := outoftime t + of_int rejected\<rparr>)
        in (mp, upd_stats f s2, upd_gstats f e))"

definition deliver_media ::
  "packet \<Rightarrow> rtp_session \<Rightarrow> ort_env \<Rightarrow> (packet \<times> rtp_session \<times> ort_env) option" where
  "deliver_media p s e = do {
     let (s1, e1) = count_delivered p s e;
     let packet_ts = rtp_get_timestamp (pk_data p);
     (s2, e2) \<leftarrow> (if d_pt (rcv_dir s1) \<noteq> rtp_get_payload_type (pk_data p)
                  then payload_type_changed_notify (rtp_get_payload_type (pk_data p)) s1 e1
                  else Some (s1, e1));
     let (p1, s3) =
       (if adaptive (jittctl (rtp s2)) then
          let s3 = (if packet_ts \<noteq> rcv_last_ts (rtp s2)
                    then upd_rtp (\<lambda>r. r\<lparr>jittctl := jitter_control_update_corrective_slide (jittctl r)\<rparr>) s2
                    else s2)
          in (p\<lparr>pk_data := rtp_set_timestamp (packet_ts + of_int (corrective_slide (jittctl (rtp s3)))) (pk_data p)\<rparr>, s3)
        else (p, s2));
     let s4 = upd_rtp (\<lambda>r. r\<lparr>rcv_last_ts := packet_ts\<rparr>) s3;
     Some (p1, rtp_session_set_flag RTP_SESSION_FIRST_PACKET_DELIVERED s4, e2) }"

definition recv_schedule :: "u32 \<Rightarrow> rtp_session \<Rightarrow> ort_env \<Rightarrow> (rtp_session \<times> ort_env) option" where
  "recv_schedule user_ts s e =
     (if has_flag s RTP_SESSION_SCHEDULED then do {
        sched \<leftarrow> env_sched e;
        t \<leftarrow> rtp_session_ts_to_time e s (user_ts - rcv_query_ts_offset (rtp s));
        let packet_time = t + rcv_time_offset (rtp s);
        if RTP_TIMESTAMP_IS_STRICTLY_NEWER_THAN packet_time (sched_time sched) then do {
          rs \<leftarrow> fd_clr (mask_pos s) (r_sessions sched);
          Some (s\<lparr>rcv_dir := (rcv_dir s)\<lparr>d_wp := wait_point_wakeup_at packet_time\<rparr>\<rparr>,
                e\<lparr>env_sched := Some (sched\<lparr>r_sessions := rs\<rparr>)\<rparr>) }
        else do {
          rs \<leftarrow> fd_set (mask_pos s) (r_sessions sched);
          Some (s, e\<lparr>env_sched := Some (sched\<lparr>r_sessions := rs\<rparr>)\<rparr>) } }
      else Some (s, e))"

definition rtp_session_recvm_with_ts ::
  "rtp_session \<Rightarrow> u32 \<Rightarrow> ort_env \<Rightarrow> (packet option \<times> rtp_session \<times> ort_env) option" where
  "rtp_session_recvm_with_ts s user_ts e = do {
     (read_socket, s1) \<leftarrow> recv_start user_ts s e;
     (s2, e2) \<leftarrow> (if read_socket then do {
                     (_, t, f) \<leftarrow> rtp_session_rtp_recv s1 user_ts e;
                     (_, t, f) \<leftarrow> rtp_session_rtcp_recv t f;
                     Some (t, f) }
                  else Some (s1, e));
     (s3, e3) \<leftarrow> recv_telephone_event s2 e2;
     let (mp, s4, e4) = recv_media user_ts s3 e3;
     (mp1, s5, e5) \<leftarrow> (case mp of
         None \<Rightarrow> Some (None, s4, e4)
       | Some p \<Rightarrow> do { (p1, t, f) \<leftarrow> deliver_media p s4 e4; Some (Some p1, t, f) });
     (s6, e6) \<leftarrow> rtp_session_rtcp_process_recv s5 e5;
     (s7, e7) \<leftarrow> recv_schedule user_ts s6 e6;
     Some (mp1, s7, e7) }"

text \<open>The payload of a packet of one block.\<close>

definition payload_bytes :: "packet \<Rightarrow> u8 list option" where
  "payload_bytes p = (case rtp_get_payload p of
      Some (In_block off n) \<Rightarrow> Some (drop off (pk_data p)) | _ \<Rightarrow> None)"

text \<open>
  Filling a buffer of \<open>len\<close> bytes: the bytes written, whether there are more, and the rest
  of the last packet kept for the next call.
\<close>

partial_function (option) recv_with_ts_loop ::
  "int \<Rightarrow> u32 \<Rightarrow> u8 list \<Rightarrow> rtp_session \<Rightarrow> ort_env \<Rightarrow> (u8 list \<times> bool \<times> rtp_session \<times> ort_env) option" where
  "recv_with_ts_loop len ts acc s e = do {
     (data, s1, e1) \<leftarrow> (case s_pending s of
         Some bs \<Rightarrow> Some (Some bs, s\<lparr>s_pending := None\<rparr>, e)
       | None \<Rightarrow> do {
           (mp, s1, e1) \<leftarrow> rtp_session_recvm_with_ts s ts e;
           case mp of
             None \<Rightarrow> Some (None, s1, e1)
           | Some p \<Rightarrow> do { bs \<leftarrow> payload_bytes p; Some (Some bs, s1, e1) } });
     case data of
       None \<Rightarrow> Some (acc, False, s1, e1)
     | Some bs \<Rightarrow>
         if int (length bs) \<le> len
         then recv_with_ts_loop (len - int (length bs)) ts (acc @ bs) s1 e1
         else Some (acc @ take (nat len) bs, True, s1\<lparr>s_pending := Some (drop (nat len) bs)\<rparr>, e1) }"

definition rtp_session_recv_with_ts ::
  "rtp_session \<Rightarrow> int \<Rightarrow> u32 \<Rightarrow> ort_env \<Rightarrow> (u8 list \<times> bool \<times> rtp_session \<times> ort_env) option" where
  "rtp_session_recv_with_ts s len ts e = recv_with_ts_loop len ts [] s e"

section \<open>Totality\<close>

lemma session_ok_flag:
  assumes "session_ok e s" and "f AND RTP_SESSION_SCHEDULED = 0"
  shows "session_ok e (rtp_session_set_flag f s)" "session_ok e (rtp_session_unset_flag f s)"
proof -
  have d: "\<not> (bit f n \<and> bit RTP_SESSION_SCHEDULED n)" for n
    using arg_cong [OF assms(2), of "\<lambda>w. bit w n"] by (simp add: bit_and_iff)
  have "(s_flags s OR f) AND RTP_SESSION_SCHEDULED = s_flags s AND RTP_SESSION_SCHEDULED"
    by (rule bit_word_eqI) (use d in \<open>auto simp: bit_and_iff bit_or_iff\<close>)
  moreover have "(s_flags s AND NOT f) AND RTP_SESSION_SCHEDULED = s_flags s AND RTP_SESSION_SCHEDULED"
    by (rule bit_word_eqI) (use d in \<open>auto simp: bit_and_iff bit_not_iff\<close>)
  ultimately show "session_ok e (rtp_session_set_flag f s)" "session_ok e (rtp_session_unset_flag f s)"
    using assms(1)
    by (simp_all add: session_ok_def profiles_good_def has_flag_def rtp_session_set_flag_def rtp_session_unset_flag_def)
qed

lemma flags_disjoint:
  "RTP_SESSION_RECV_SYNC AND RTP_SESSION_SCHEDULED = 0" "RTP_SESSION_FIRST_PACKET_DELIVERED AND RTP_SESSION_SCHEDULED = 0"
  "RTP_SESSION_RECV_NOT_STARTED AND RTP_SESSION_SCHEDULED = 0" "RTP_SESSION_SEND_NOT_STARTED AND RTP_SESSION_SCHEDULED = 0"
  "RTP_SOCKET_CONNECTED AND RTP_SESSION_SCHEDULED = 0" "RTCP_SOCKET_CONNECTED AND RTP_SESSION_SCHEDULED = 0"
  by (simp_all add: flag_defs)

text \<open>
  What a step must give: a well formed session in a compatible environment, whose unread RTCP is
  as it was.
\<close>

definition step_ok :: "ort_env \<Rightarrow> (rtp_session \<times> ort_env) option \<Rightarrow> bool" where
  "step_ok e r \<longleftrightarrow> (\<exists>s' e'. r = Some (s', e') \<and> session_ok e' s' \<and> same_profiles e e')"

lemma step_okI: "session_ok e' s' \<Longrightarrow> same_profiles e e' \<Longrightarrow> step_ok e (Some (s', e'))"
  by (simp add: step_ok_def)

lemma step_okE:
  assumes "step_ok e r"
  obtains s' e' where "r = Some (s', e')" "session_ok e' s'" "same_profiles e e'"
  using assms by (auto simp: step_ok_def)

lemma net_feed_total:
  assumes "session_ok e s"
  shows "\<exists>om s' e'. net_feed input s e = Some (om, s', e') \<and> session_ok e' s' \<and> same_profiles e e'"
proof (cases "net_sim s")
  case (Some sim)
  then have "sim_ok (rs_ipv6 (rtp s)) sim" using assms by (simp add: session_ok_def)
  then obtain om rs sim' where r: "rtp_session_network_simulate (rs_ipv6 (rtp s)) (now e) (env_rands e) input sim =
      Some (om, rs, sim')" "sim_ok (rs_ipv6 (rtp s)) sim'"
    using network_simulate_total by blast
  have "session_ok (e\<lparr>env_rands := rs\<rparr>) (s\<lparr>net_sim := Some sim'\<rparr>)"
    using assms r(2) by (simp add: session_ok_def profiles_good_def prof_good_def has_flag_def)
  then show ?thesis using Some r by (simp add: net_feed_def same_profiles_def)
qed (use assms in \<open>simp add: net_feed_def\<close>)

lemma parse_received_ok:
  assumes "session_ok e s"
  shows "step_ok e (parse_received mp ts addr n s e)"
proof -
  have "session_ok e (update_recv_bytes n e s)"
    unfolding update_recv_bytes_def by (rule session_ok_upd_rtp [OF assms]) (simp_all add: Let_def)
  then show ?thesis
    using rtp_parse_total by (simp add: parse_received_def step_ok_def)
qed

lemma symmetric_connect_ok: "session_ok e s \<Longrightarrow> session_ok e (symmetric_connect addr s e)"
  by (auto simp: symmetric_connect_def Let_def intro!: session_ok_flag session_ok_upd_rtp flags_disjoint)

lemma fed_ok:
  assumes "session_ok e s"
  shows "step_ok e (do { (mp, s1, e1) \<leftarrow> net_feed input s e;
     case mp of Some p \<Rightarrow> parse_received p ts (a s1) (n p) s1 e1 | None \<Rightarrow> Some (s1, e1) })"
proof -
  obtain om s1 e1 where r: "net_feed input s e = Some (om, s1, e1)" "session_ok e1 s1" "same_profiles e e1"
    using net_feed_total [OF assms] by blast
  show ?thesis
  proof (cases om)
    case None
    then show ?thesis using r by (simp add: step_ok_def)
  next
    case (Some p)
    then show ?thesis
      using r parse_received_ok [OF r(2), of p ts "a s1" "n p"] by (auto simp: step_ok_def intro: same_profiles_trans)
  qed
qed

lemma recv_datagram_ok: "session_ok e s \<Longrightarrow> step_ok e (recv_datagram bs addr ts s e)"
  unfolding recv_datagram_def Let_def by (rule fed_ok) (rule symmetric_connect_ok)

lemma recv_idle_ok: "session_ok e s \<Longrightarrow> step_ok e (recv_idle ts s e)"
  using fed_ok [of e s None ts "\<lambda>s1. rs_rem_addr (rtp s1)" msg_size]
  by (auto simp: recv_idle_def intro: step_okI)

lemma env_in_ok:
  assumes "session_ok e s" and "\<And>e'. session_ok e' s \<Longrightarrow> step_ok e' (f e')"
  shows "step_ok e (f (e\<lparr>rtp_in := x\<rparr>))"
proof -
  have p: "same_profiles e (e\<lparr>rtp_in := x\<rparr>)" by (simp add: same_profiles_def)
  show ?thesis
    using assms(2) [OF session_ok_env [OF assms(1) p]] p by (auto simp: step_ok_def intro: same_profiles_trans)
qed

lemma network_error_ok:
  assumes "session_ok e s"
  shows "\<exists>e'. (if st_count (signals s On_network_error) > 0
      then emit_signal On_network_error args s e else Some e) = Some e' \<and> same_profiles e e'"
  using emit_same_profiles [OF session_okD(2) [OF assms]] by auto

lemma rtp_recv_loop_ok: "session_ok e s \<Longrightarrow> step_ok e (rtp_recv_loop ins ts s e)"
proof (induction ins ts s e rule: rtp_recv_loop.induct)
  case (2 bs addr rest ts s e)
  let ?bs = "take (nat (recv_buf_size s)) bs"
  show ?case
  proof (cases "?bs = []")
    case True
    then show ?thesis
      using env_in_ok [OF 2(2), of "recv_idle ts s" rest] recv_idle_ok by simp
  next
    case False
    obtain s1 e1 where r: "recv_datagram ?bs addr ts s e = Some (s1, e1)" "session_ok e1 s1" "same_profiles e e1"
      using recv_datagram_ok [OF 2(2), of ?bs addr ts] by (rule step_okE)
    have "step_ok e1 (rtp_recv_loop rest ts s1 e1)"
      using 2(1) [OF refl False r(1) refl r(2)] .
    then show ?thesis
      using False r by (auto simp: step_ok_def intro: same_profiles_trans)
  qed
next
  case (4 n rest ts s e)
  obtain e1 where "(if st_count (signals s On_network_error) > 0
      then emit_signal On_network_error [0, nat n] s e else Some e) = Some e1" "same_profiles e e1"
    using network_error_ok [OF 4, of "[0, nat n]"] by blast
  moreover have "same_profiles e1 (e1\<lparr>rtp_in := rest\<rparr>)" by (simp add: same_profiles_def)
  ultimately show ?case
    using session_ok_env [OF 4] same_profiles_trans by (simp only: rtp_recv_loop.simps) (auto simp: step_ok_def)
qed (auto intro: env_in_ok recv_idle_ok)

lemma rtp_recv_ok:
  assumes "session_ok e s"
  shows "\<exists>s' e'. rtp_session_rtp_recv s ts e = Some (-1, s', e') \<and> session_ok e' s' \<and> same_profiles e e'"
  using rtp_recv_loop_ok [OF assms, of "rtp_in e" ts] assms
  by (auto simp: rtp_session_rtp_recv_def step_ok_def)

section \<open>Incoming reports\<close>

text \<open>
  A datagram none of whose packets claims to be longer than what is left of it. For others the
  first report block of a sender report is looked for by the claimed length and may be read behind
  the datagram.
\<close>

definition fits :: "rtcp_msg \<Rightarrow> bool" where
  "fits m \<longleftrightarrow> (case rtcp_get_size m of Some n \<Rightarrow> n \<le> rm_size m | None \<Rightarrow> False)"

definition rtcp_sound :: "u8 list \<Rightarrow> bool" where
  "rtcp_sound bs \<longleftrightarrow> list_all (\<lambda>pos. fits \<lparr>rm_data = bs, rm_pos = pos\<rparr>) (rtcp_walk \<lparr>rm_data = bs, rm_pos = 0\<rparr>)"

lemma rd_in_range:
  "i < length bs \<Longrightarrow> rd8 bs i = Some (bs ! i)" "i + 2 \<le> length bs \<Longrightarrow> rd16 bs i = Some (be16 (sub i 2 bs))"
  "i + 4 \<le> length bs \<Longrightarrow> rd32 bs i = Some (be32 (sub i 4 bs))"
  by (simp_all add: rd8_def rd16_def rd32_def)

lemma compute_rtt_total:
  assumes "rb + 24 \<le> length bs"
  shows "\<exists>r. compute_rtt s tv bs rb = Some (s\<lparr>s_rtt := r\<rparr>)"
proof -
  have "\<exists>r. Some s = Some (s\<lparr>s_rtt := r\<rparr>)" by (rule exI [of _ "s_rtt s"]) simp
  then show ?thesis
    using assms by (simp add: compute_rtt_def report_block_get_last_SR_time_def report_block_get_last_SR_delay_def
        rd_in_range Let_def) blast
qed

lemma session_ok_rtt: "session_ok e s \<Longrightarrow> session_ok e (s\<lparr>s_rtt := r\<rparr>)"
  by (erule session_ok_frame) simp_all

lemma process_rtcp_one_ok:
  assumes ok: "session_ok e s" and m: "fits m"
  shows "\<exists>s' b. process_rtcp_one tv m s = Some (s', b) \<and> session_ok e s'"
proof -
  obtain n where n: "rtcp_get_size m = Some n" "n \<le> rm_size m"
    using m by (auto simp: fits_def split: option.splits)
  have block: "\<exists>s'. (case rb of None \<Rightarrow> Some t | Some rb \<Rightarrow> compute_rtt t tv (rm_data m) rb) = Some s' \<and> session_ok e s'"
    if "\<And>i. rb = Some i \<Longrightarrow> i + 24 \<le> length (rm_data m)" "session_ok e t" for rb t
    using that compute_rtt_total [of _ "rm_data m" t tv] session_ok_rtt by (cases rb) fastforce+
  have types: "\<exists>b. rtcp_is_SR m = Some b" "\<exists>b. rtcp_is_RR m = Some b"
    by (auto simp: rtcp_is_SR_def rtcp_is_RR_def rtcp_is_def rtcp_get_common_header_def rm_size_def
        rtcp_common_header_get_packet_type_def rd8_def)
  show ?thesis
  proof (cases "rtcp_is_SR m = Some True")
    case True
    then have l: "28 \<le> rm_size m"
      by (auto simp: rtcp_is_SR_def rtcp_is_def split: option.splits if_splits)
    let ?s1 = "upd_rtp (\<lambda>r. r\<lparr>last_rcv_SR_ts := 0, last_rcv_SR_time := \<lparr>tv_sec = 0, tv_usec = 0\<rparr>\<rparr>) s"
    obtain ssrc msw lsw rc where rd: "rd32 (rm_data m) 4 = Some ssrc" "rd32 (rm_data m) 8 = Some msw"
      "rd32 (rm_data m) 12 = Some lsw" "rtcp_common_header_get_rc (rm_data m) 0 = Some rc"
    proof -
      have "28 \<le> length (rm_data m)" using l by (simp add: rm_size_def)
      moreover from this have "rd8 (rm_data m) 0 = Some (rm_data m ! 0)" by (intro rd_in_range(1)) linarith
      ultimately show ?thesis using that by (simp add: rd_in_range rtcp_common_header_get_rc_def)
    qed
    let ?s2 = "upd_rtp (\<lambda>r. r\<lparr>last_rcv_SR_ts := push_bit 16 msw OR drop_bit 16 lsw, last_rcv_SR_time := tv\<rparr>) ?s1"
    have ok1: "session_ok e ?s1" by (rule session_ok_upd_rtp [OF ok]) simp_all
    have ok2: "session_ok e ?s2" by (rule session_ok_upd_rtp [OF ok1]) simp_all
    obtain rb where rb: "rtcp_SR_get_report_block m 0 = Some rb" "\<And>i. rb = Some i \<Longrightarrow> i + 24 \<le> length (rm_data m)"
      by (rule that [of "if 52 \<le> n then Some (rm_pos m + 28) else None"])
         (use n in \<open>auto simp: rtcp_SR_get_report_block_def rm_size_def split: if_splits\<close>)
    obtain s3 where "(case rb of None \<Rightarrow> Some ?s2 | Some rb \<Rightarrow> compute_rtt ?s2 tv (rm_data m) rb) = Some s3"
      "session_ok e s3"
      using block [OF rb(2) ok2] by blast
    then show ?thesis
      using True rd rb(1) ok1 by (auto simp: process_rtcp_one_def process_sender_report_def Let_def)
  next
    case False
    then have sr: "rtcp_is_SR m = Some False" using types by auto
    show ?thesis
    proof (cases "rtcp_is_RR m = Some True")
      case True
      obtain rb where rb: "rtcp_RR_get_report_block m 0 = Some rb" "\<And>i. rb = Some i \<Longrightarrow> i + 24 \<le> length (rm_data m)"
        by (rule that [of "if 32 \<le> n then Some (rm_pos m + 8) else None"])
           (use n in \<open>auto simp: rtcp_RR_get_report_block_def rm_size_def split: if_splits\<close>)
      obtain s3 where "(case rb of None \<Rightarrow> Some s | Some rb \<Rightarrow> compute_rtt s tv (rm_data m) rb) = Some s3"
        "session_ok e s3"
        using block [OF rb(2) ok] by blast
      then show ?thesis using True sr rb(1) by (auto simp: process_rtcp_one_def)
    next
      case False
      then have "rtcp_is_RR m = Some False" using types by auto
      then have "process_rtcp_one tv m s = Some (s, False)" using sr by (simp add: process_rtcp_one_def)
      then show ?thesis using ok by blast
    qed
  qed
qed

lemma process_rtcp_loop_ok:
  assumes "session_ok e s" and "list_all (\<lambda>pos. fits (m\<lparr>rm_pos := pos\<rparr>)) (rtcp_walk m)"
  shows "\<exists>s'. process_rtcp_loop tv m s = Some s' \<and> session_ok e s'"
  using assms
proof (induction m arbitrary: s rule: measure_induct_rule [of "\<lambda>m. length (rm_data m) - rm_pos m"])
  case (less m)
  have w: "rtcp_walk m = rm_pos m # (case rtcp_next_packet m of Some (True, m') \<Rightarrow> rtcp_walk m' | _ \<Rightarrow> [])"
    by (rule rtcp_walk.simps)
  have "fits m" using less.prems(2) by (subst (asm) w) simp
  then obtain s1 b where 1: "process_rtcp_one tv m s = Some (s1, b)" "session_ok e s1"
    using process_rtcp_one_ok less.prems(1) by blast
  obtain c m1 where nx: "rtcp_next_packet m = Some (c, m1)"
  proof -
    obtain n where "rtcp_get_size m = Some n" using rtcp_get_size_total [of m] by blast
    then show ?thesis
      by (intro that [of "0 \<le> n \<and> int (rm_pos m) + n < int (length (rm_data m))"
          "if 0 \<le> n \<and> int (rm_pos m) + n < int (length (rm_data m)) then m\<lparr>rm_pos := rm_pos m + nat n\<rparr> else m"])
         (simp add: rtcp_next_packet_def)
  qed
  show ?case
  proof (cases "b \<or> \<not> c")
    case True
    then show ?thesis using 1 nx by (subst process_rtcp_loop.simps) (auto split: bool.splits)
  next
    case False
    then have p: "rtcp_next_packet m = Some (True, m1)" using nx by simp
    have d: "rm_data m1 = rm_data m" "rm_pos m < rm_pos m1" "rm_pos m1 < length (rm_data m)"
      using rtcp_next_packet_progress [OF p] by simp_all
    have same: "m1\<lparr>rm_pos := x\<rparr> = m\<lparr>rm_pos := x\<rparr>" for x using d(1) by (cases m; cases m1) simp
    have "list_all (\<lambda>pos. fits (m\<lparr>rm_pos := pos\<rparr>)) (rtcp_walk m1)"
      using less.prems(2) by (subst (asm) w) (simp add: p)
    then have "list_all (\<lambda>pos. fits (m1\<lparr>rm_pos := pos\<rparr>)) (rtcp_walk m1)" by (simp only: same)
    moreover have "length (rm_data m1) - rm_pos m1 < length (rm_data m) - rm_pos m" using d by simp
    ultimately have "\<exists>s'. process_rtcp_loop tv m1 s1 = Some s' \<and> session_ok e s'"
      using less.IH [of m1 s1] 1(2) by blast
    then show ?thesis using False 1 p by (subst process_rtcp_loop.simps) simp
  qed
qed

lemma dispatch_frame: "same_profiles e (rtp_session_dispatch_event s ev e)"
  by (simp add: rtp_session_dispatch_event_def same_profiles_def)

lemma process_rtcp_packet_ok:
  assumes "session_ok e s" and "rtcp_sound bs"
  shows "\<exists>r s' e'. process_rtcp_packet s bs addr e = Some (r, s', e') \<and> session_ok e s' \<and> same_profiles e e'"
proof (cases "length bs < 4")
  case False
  then have "rd8 bs 0 = Some (bs ! 0)" by (intro rd_in_range(1)) linarith
  with False obtain v stunlen where v: "rtcp_common_header_get_version bs 0 = Some v" "rd16 bs 2 = Some stunlen"
    by (simp add: rtcp_common_header_get_version_def rd_in_range)
  obtain s1 where "process_rtcp_loop (now e) \<lparr>rm_data = bs, rm_pos = 0\<rparr> s = Some s1" "session_ok e s1"
    using process_rtcp_loop_ok [OF assms(1), of "\<lparr>rm_data = bs, rm_pos = 0\<rparr>"] assms(2) by (auto simp: rtcp_sound_def)
  then show ?thesis using False v assms(1) dispatch_frame by (simp add: process_rtcp_packet_def)
qed (use assms in \<open>simp add: process_rtcp_packet_def\<close>)

lemma rtcp_symmetric_ok: "session_ok e s \<Longrightarrow> session_ok e (rtcp_symmetric addr c s e')"
  by (auto simp: rtcp_symmetric_def Let_def intro!: session_ok_flag session_ok_upd_rtcp flags_disjoint)

lemma rtcp_recv_datagram_ok:
  assumes "session_ok e s" and "rtcp_sound bs"
  shows "step_ok e (rtcp_recv_datagram bs addr s e)"
proof -
  let ?c = "has_flag s RTCP_SOCKET_CONNECTED"
  obtain r s1 e1 where p: "process_rtcp_packet s bs (if ?c then 0 else addr) e = Some (r, s1, e1)"
    "session_ok e s1" "same_profiles e e1"
    using process_rtcp_packet_ok [OF assms] by blast
  let ?e2 = "if r \<ge> 0 then rtp_session_notify_inc_rtcp s1 bs e1 else e1"
  have f: "same_profiles e ?e2"
    using p(3) dispatch_frame same_profiles_trans by (auto simp: rtp_session_notify_inc_rtcp_def)
  have "session_ok ?e2 (rtcp_symmetric addr ?c s1 ?e2)"
    by (rule rtcp_symmetric_ok [OF session_ok_env [OF p(2) f]])
  then show ?thesis using p(1) f by (auto simp: rtcp_recv_datagram_def Let_def intro: step_okI)
qed

definition rx_sound :: "rx \<Rightarrow> bool" where
  "rx_sound x \<longleftrightarrow> (case x of Datagram bs addr \<Rightarrow> rtcp_sound (take RTCP_MAX_RECV_BUFSIZE bs) | _ \<Rightarrow> True)"

lemma rtcp_in_frame:
  assumes "session_ok e s" and "same_profiles e0 e" and "set rest \<subseteq> set (rtcp_in e0)"
  shows "step_ok e0 (Some (s, e\<lparr>rtcp_in := rest\<rparr>))"
proof (rule step_okI)
  show "same_profiles e0 (e\<lparr>rtcp_in := rest\<rparr>)" using assms(2,3) by (simp add: same_profiles_def)
  show "session_ok (e\<lparr>rtcp_in := rest\<rparr>) s"
    using assms(1) by (simp add: session_ok_def profiles_good_def prof_good_def)
qed

text \<open>The loop, started with the suffix \<open>ins\<close> of what there is to read.\<close>

lemma rtcp_recv_loop_ok:
  assumes "session_ok e s" and "same_profiles e0 e" and "list_all rx_sound ins" and "set ins \<subseteq> set (rtcp_in e0)"
  shows "step_ok e0 (rtcp_recv_loop ins s e)"
  using assms
proof (induction ins s e rule: rtcp_recv_loop.induct)
  case (1 s e)
  then show ?case using rtcp_in_frame [of e s e0 "[]"] by simp
next
  case (2 bs addr rest s e)
  let ?bs = "take RTCP_MAX_RECV_BUFSIZE bs"
  show ?case
  proof (cases "?bs = []")
    case True
    then show ?thesis using 2(2-) rtcp_in_frame [of e s e0 rest] by simp
  next
    case False
    have "rtcp_sound ?bs" using 2(4) by (simp add: rx_sound_def)
    then obtain s1 e1 where r: "rtcp_recv_datagram ?bs addr s e = Some (s1, e1)" "session_ok e1 s1" "same_profiles e e1"
      using rtcp_recv_datagram_ok [OF 2(2)] step_okE by blast
    have "step_ok e0 (rtcp_recv_loop rest s1 e1)"
      using 2(1) [OF refl False r(1) refl r(2) same_profiles_trans [OF 2(3) r(3)]] 2(4,5) by simp
    then show ?thesis using False r(1) by simp
  qed
next
  case (3 rest s e)
  then show ?case using rtcp_in_frame [of e s e0 rest] by simp
next
  case (4 n rest s e)
  obtain e1 where e1: "(if st_count (signals s On_network_error) > 0
      then emit_signal On_network_error [0, nat n] s e else Some e) = Some e1" "same_profiles e e1"
    using network_error_ok [OF 4(1), of "[0, nat n]"] by blast
  have ok1: "session_ok e1 (upd_rtp (\<lambda>r. r\<lparr>recv_errno := n\<rparr>) s)"
    using session_ok_env [OF 4(1) e1(2)] by (rule session_ok_upd_rtp) simp_all
  have r: "set rest \<subseteq> set (rtcp_in e0)" using 4(4) by simp
  show ?case
    using rtcp_in_frame [OF ok1 same_profiles_trans [OF 4(2) e1(2)] r] rtcp_in_frame [OF 4(1,2) r] e1(1)
    by (simp only: rtcp_recv_loop.simps) auto
qed

lemma rtcp_recv_ok:
  assumes "session_ok e s" and "list_all rx_sound (rtcp_in e)"
  shows "\<exists>s' e'. rtp_session_rtcp_recv s e = Some (-1, s', e') \<and> session_ok e' s' \<and> same_profiles e e'"
  using rtcp_recv_loop_ok [OF assms(1) same_profiles_refl assms(2)] assms(1)
  by (auto simp: rtp_session_rtcp_recv_def step_ok_def)

section \<open>Outgoing reports and media\<close>

lemma sender_info_ok: "session_ok e s \<Longrightarrow> session_ok e (snd (sender_info_init s e'))"
  by (simp add: sender_info_init_def Let_def) (rule session_ok_upd_rtp; simp)

lemma report_block_ok: "session_ok e s \<Longrightarrow> session_ok e (snd (report_block_init s e'))"
  by (simp add: report_block_init_def Let_def split_beta) (rule session_ok_upd_rtp; simp)

lemma extended_statistics_ok: "session_ok e s \<Longrightarrow> session_ok e (extended_statistics s e')"
  by (simp add: extended_statistics_def Let_def split_beta) (rule session_ok_upd_rtp; simp)

lemma rtcp_init_ok:
  assumes "session_ok e s"
  shows "session_ok e (snd (rtcp_sr_init s e'))" "session_ok e (snd (rtcp_rr_init s e'))"
  using assms by (simp_all add: rtcp_sr_init_def rtcp_rr_init_def Let_def split_beta
      sender_info_ok report_block_ok extended_statistics_ok)

lemma sdes_total:
  assumes "session_ok e s" and "s_sd s \<noteq> None"
  shows "\<exists>m s'. rtp_session_create_rtcp_sdes_packet s = Some (m, s') \<and> session_ok e s'"
proof -
  have "session_ok e (s\<lparr>s_sd := x\<rparr>)" for x by (rule session_ok_frame [OF assms(1)]) simp_all
  moreover have "contributing_sources s = []" using assms(1) by (simp add: session_ok_def)
  ultimately show ?thesis using assms(2) by (auto simp: rtp_session_create_rtcp_sdes_packet_def Let_def)
qed

lemma make_report_total:
  assumes "session_ok e s"
  shows "\<exists>m s'. make_sr s e' = Some (m, s') \<and> session_ok e s'"
    and "\<exists>m s'. make_rr s e' = Some (m, s') \<and> session_ok e s'"
proof -
  have *: "\<exists>m t. (if s_sd s1 \<noteq> None then do {
           (sdes, s2) \<leftarrow> rtp_session_create_rtcp_sdes_packet s1;
           Some (cm @ sdes, s2) } else Some (cm, s1)) = Some (m, t) \<and> session_ok e t"
    if "session_ok e s1" for s1 and cm :: "u8 list"
    using sdes_total [OF that] that by (cases "s_sd s1 \<noteq> None") fastforce+
  show "\<exists>m s'. make_sr s e' = Some (m, s') \<and> session_ok e s'"
    using * [OF rtcp_init_ok(1) [OF assms, of e'], of "fst (rtcp_sr_init s e')"]
    unfolding make_sr_def Let_def split_beta .
  show "\<exists>m s'. make_rr s e' = Some (m, s') \<and> session_ok e s'"
    using * [OF rtcp_init_ok(2) [OF assms, of e'], of "fst (rtcp_rr_init s e')"]
    unfolding make_rr_def Let_def split_beta .
qed

lemma io_result_frame: "same_profiles e (snd (io_result m e))"
  by (simp add: io_result_def same_profiles_def split: list.splits)

lemma rtcp_send_total:
  assumes "session_ok e s"
  shows "\<exists>r e'. rtp_session_rtcp_send s m e = Some (r, e') \<and> same_profiles e e'"
proof -
  obtain r e1 where io: "io_result m e = (r, e1)" "same_profiles e e1"
    using io_result_frame [of e m] by (cases "io_result m e") auto
  have "\<exists>e'. (if st_count (signals s On_network_error) > 0
      then emit_signal On_network_error [0, nat (- r)] s e1 else Some e1) = Some e' \<and> same_profiles e1 e'"
    by (rule network_error_ok [OF session_ok_env [OF assms io(2)]])
  then obtain e2 where e2: "(if st_count (signals s On_network_error) > 0
      then emit_signal On_network_error [0, nat (- r)] s e1 else Some e1) = Some e2" "same_profiles e e2"
    using io(2) same_profiles_trans by blast
  have "same_profiles e (e1\<lparr>rtcp_out := rtcp_out e1 @ [m]\<rparr>)" using io(2) by (simp add: same_profiles_def)
  then show ?thesis
    unfolding rtp_session_rtcp_send_def Let_def io(1) prod.case e2(1) using e2(2) by auto
qed

lemma sent_ok:
  assumes "session_ok e s" and "same_profiles e0 e"
  shows "step_ok e0 (do { (r, e1) \<leftarrow> rtp_session_rtcp_send s m (notify_sent_rtcp s m e); Some (s, e1) })"
proof -
  have n: "same_profiles e (notify_sent_rtcp s m e)"
    using dispatch_frame by (simp add: notify_sent_rtcp_def)
  obtain r e1 where r: "rtp_session_rtcp_send s m (notify_sent_rtcp s m e) = Some (r, e1)"
    "same_profiles (notify_sent_rtcp s m e) e1"
    using rtcp_send_total [OF session_ok_env [OF assms(1) n]] by blast
  have f: "same_profiles e e1" using n r(2) by (rule same_profiles_trans)
  show ?thesis
    using r(1) session_ok_env [OF assms(1) f] same_profiles_trans [OF assms(2) f] by (auto intro: step_okI)
qed

lemma mark_sent_ok: "session_ok e s \<Longrightarrow> session_ok e (rtcp_mark_sent s)"
  unfolding rtcp_mark_sent_def by (rule session_ok_upd_rtcp)

lemma process_send_ok:
  assumes "session_ok e s"
  shows "step_ok e (rtp_session_rtcp_process_send s e)"
proof -
  obtain m s1 where "make_sr (rtcp_mark_sent s) e = Some (m, s1)" "session_ok e s1"
    using make_report_total(1) [OF mark_sent_ok [OF assms]] by blast
  then show ?thesis
    using sent_ok [of e s1 e m] assms
    by (cases "rtcp_due s") (simp_all add: rtp_session_rtcp_process_send_def step_okI)
qed

lemma process_recv_ok:
  assumes "session_ok e s"
  shows "step_ok e (rtp_session_rtcp_process_recv s e)"
proof -
  let ?s0 = "rtcp_mark_sent s"
  have ok0: "session_ok e ?s0" using assms by (rule mark_sent_ok)
  obtain m1 s1 where 1: "make_sr ?s0 e = Some (m1, s1)" "session_ok e s1"
    using make_report_total(1) [OF ok0] by blast
  obtain m2 s2 where 2: "make_rr ?s0 e = Some (m2, s2)" "session_ok e s2"
    using make_report_total(2) [OF ok0] by blast
  have 3: "session_ok e (upd_rtp (\<lambda>r. r\<lparr>last_rtcp_packet_count := ucast (packet_sent (stats r))\<rparr>) s1)"
    by (rule session_ok_upd_rtp [OF 1(2)]) simp_all
  consider "\<not> rtcp_due s" | "rtcp_due s" "ucast (last_rtcp_packet_count (rtp ?s0)) < packet_sent (stats (rtp ?s0))"
    | "rtcp_due s" "\<not> ucast (last_rtcp_packet_count (rtp ?s0)) < packet_sent (stats (rtp ?s0))"
      "packet_recv (stats (rtp ?s0)) > 0"
    | "rtcp_due s" "\<not> ucast (last_rtcp_packet_count (rtp ?s0)) < packet_sent (stats (rtp ?s0))"
      "\<not> packet_recv (stats (rtp ?s0)) > 0" by blast
  then show ?thesis
  proof cases
    case 1
    then show ?thesis using assms by (simp add: rtp_session_rtcp_process_recv_def step_okI)
  next
    case 2
    then show ?thesis using 1 sent_ok [OF 3 same_profiles_refl, of m1]
      by (simp add: rtp_session_rtcp_process_recv_def Let_def)
  next
    case 3
    then show ?thesis using \<open>make_rr ?s0 e = Some (m2, s2)\<close> sent_ok [OF \<open>session_ok e s2\<close> same_profiles_refl, of m2]
      by (simp add: rtp_session_rtcp_process_recv_def Let_def)
  next
    case 4
    then show ?thesis using ok0 by (simp add: rtp_session_rtcp_process_recv_def Let_def step_okI)
  qed
qed

lemma send_start_ok:
  assumes "session_ok e s"
  shows "\<exists>s'. send_start ts s e = Some s' \<and> session_ok e s'"
proof (cases "has_flag s RTP_SESSION_SEND_NOT_STARTED")
  case True
  let ?s1 = "upd_rtp (\<lambda>r. r\<lparr>snd_ts_offset := ts\<rparr>) s"
  let ?s2 = "if has_flag ?s1 RTP_SESSION_RECV_NOT_STARTED \<or> s_mode ?s1 = RTP_SESSION_SENDONLY
             then ?s1\<lparr>last_recv_time := now e\<rparr> else ?s1"
  have 1: "session_ok e ?s1" by (rule session_ok_upd_rtp [OF assms]) simp_all
  have "session_ok e (?s1\<lparr>last_recv_time := now e\<rparr>)" by (rule session_ok_frame [OF 1]) simp_all
  then have 2: "session_ok e ?s2" using 1 by simp
  have 3: "session_ok e (upd_rtp (\<lambda>r. r\<lparr>snd_time_offset := x\<rparr>) ?s2)" for x
    by (rule session_ok_upd_rtp [OF 2]) simp_all
  have "\<exists>s3. (if has_flag ?s2 RTP_SESSION_SCHEDULED then do {
             sched \<leftarrow> env_sched e;
             Some (upd_rtp (\<lambda>r. r\<lparr>snd_time_offset := sched_time sched\<rparr>) ?s2) }
           else Some ?s2) = Some s3 \<and> session_ok e s3"
    using 2 3 by (cases "has_flag ?s2 RTP_SESSION_SCHEDULED") (auto simp: session_ok_def simp del: has_flag_simps)
  then obtain s3 where s3: "(if has_flag ?s2 RTP_SESSION_SCHEDULED then do {
             sched \<leftarrow> env_sched e;
             Some (upd_rtp (\<lambda>r. r\<lparr>snd_time_offset := sched_time sched\<rparr>) ?s2) }
           else Some ?s2) = Some s3" "session_ok e s3" by blast
  have "send_start ts s e = Some (rtp_session_unset_flag RTP_SESSION_SEND_NOT_STARTED s3)"
    unfolding send_start_def Let_def s3(1) using True by simp
  then show ?thesis using session_ok_flag(2) [OF s3(2) flags_disjoint(4)] by simp
qed (use assms in \<open>simp add: send_start_def\<close>)

lemma ts_to_time_total: "session_ok e s \<Longrightarrow> \<exists>t. rtp_session_ts_to_time e s ts = Some t"
  using profile_payload_total [of e "d_profile (snd_dir s)" "d_pt (snd_dir s)"] session_okD(1) [of e s]
  by (auto simp: rtp_session_ts_to_time_def profiles_good_def)

lemma sched_frame:
  "env_sched e \<noteq> None \<Longrightarrow> same_profiles e (e\<lparr>env_sched := Some x\<rparr>)"
  by (simp add: same_profiles_def)

lemma send_schedule_ok:
  assumes ok: "session_ok e s"
  shows "step_ok e (send_schedule ts s e)"
proof (cases "has_flag s RTP_SESSION_SCHEDULED")
  case True
  then obtain sched where sc: "env_sched e = Some sched" "0 \<le> mask_pos s" "mask_pos s < 1024"
    using ok by (auto simp: session_ok_def)
  obtain t where t: "rtp_session_ts_to_time e s (ts - snd_ts_offset (rtp s)) = Some t"
    using ts_to_time_total [OF ok] by blast
  have f: "same_profiles e (e\<lparr>env_sched := Some x\<rparr>)" for x using sched_frame sc(1) by simp
  have "session_ok e (s\<lparr>snd_dir := (snd_dir s)\<lparr>d_wp := w\<rparr>\<rparr>)" for w
    by (rule session_ok_frame [OF ok]) simp_all
  then show ?thesis
    using True sc t f session_ok_env [OF _ f] ok
    by (auto simp: send_schedule_def fd_clr_def fd_set_def Let_def intro!: step_okI)
qed (use ok in \<open>simp add: send_schedule_def step_okI\<close>)

text \<open>What can be sent: a STUN message, or an RTP packet whose header is complete.\<close>

definition sendable :: "packet \<Rightarrow> bool" where
  "sendable p \<longleftrightarrow> pk_data p \<noteq> [] \<and> (rtp_get_version (pk_data p) = 0 \<or> full_header p)"

lemma header_frame:
  assumes "bs' ! 0 = bs ! 0" and "length bs' = length bs"
  shows "rtp_get_version bs' = rtp_get_version bs" "rtp_get_cc bs' = rtp_get_cc bs"
  using assms by (simp_all add: rtp_get_version_def rtp_get_cc_def)

lemma put_at_byte0: "0 < i \<Longrightarrow> i + length vs \<le> length bs \<Longrightarrow> put_at i vs bs ! 0 = bs ! 0"
  by (cases bs) (auto simp: put_at_def nth_append)

lemma send_stamp_ok:
  assumes ok: "session_ok e s" and p: "sendable p" and r: "send_stamp p ts s e = (p', s', e')"
  shows "session_ok e' s'" "same_profiles e e'" "sendable p'"
proof -
  have "session_ok e' s' \<and> same_profiles e e' \<and> sendable p'"
  proof (cases "rtp_get_version (pk_data p) = 0")
    case True
    then show ?thesis using r ok p by (simp add: send_stamp_def)
  next
    case False
    then have l: "12 \<le> length (pk_data p)" and f: "full_header p"
      using p by (auto simp: sendable_def full_header_def)
    let ?b1 = "rtp_set_timestamp ts (pk_data p)"
    have b1: "?b1 ! 0 = pk_data p ! 0" "length ?b1 = length (pk_data p)"
      using l by (simp_all add: rtp_set_timestamp_def put_at_byte0)
    have b2: "rtp_set_seqnumber n ?b1 ! 0 = pk_data p ! 0" "length (rtp_set_seqnumber n ?b1) = length (pk_data p)" for n
      using l b1 by (simp_all add: rtp_set_seqnumber_def put_at_byte0)
    obtain b where b: "pk_data p' = b" "b ! 0 = pk_data p ! 0" "length b = length (pk_data p)"
      using r False b1 b2 by (auto simp: send_stamp_def Let_def split: if_splits)
    have "sendable p'"
      using b f header_frame [OF b(2,3)] l by (auto simp: sendable_def full_header_def)
    moreover obtain g h where g: "s' = upd_stats h (upd_rtp g s)"
      "\<And>r. rq (g r) = rq r \<and> tev_rq (g r) = tev_rq r \<and> max_rq_size (g r) = max_rq_size r \<and> rs_ipv6 (g r) = rs_ipv6 r"
      using r False by (auto simp: send_stamp_def Let_def)
    have "session_ok e (upd_rtp g s)" using g(2) by (intro session_ok_upd_rtp [OF ok]) simp_all
    then have "session_ok e s'" unfolding g(1) by (rule session_ok_upd_stats)
    moreover have "same_profiles e e'"
      using r False by (auto simp: send_stamp_def Let_def same_profiles_def upd_gstats_def)
    ultimately show ?thesis using session_ok_env by blast
  qed
  then show "session_ok e' s'" "same_profiles e e'" "sendable p'" by simp_all
qed

lemma update_sent_bytes_ok: "session_ok e s \<Longrightarrow> session_ok e (update_sent_bytes n e' s)"
  unfolding update_sent_bytes_def by (rule session_ok_upd_rtp) (simp_all add: Let_def)

lemma rtp_send_ok:
  assumes ok: "session_ok e s" and p: "sendable p"
  shows "\<exists>r s' e'. rtp_session_rtp_send s p e = Some (r, s', e') \<and> session_ok e' s' \<and> same_profiles e e'"
proof -
  obtain m1 where m1: "(if rtp_get_version (pk_data p) = 0 then Some p
       else map_option (\<lambda>bs. p\<lparr>pk_data := bs\<rparr>) (rtp_hton (pk_data p))) = Some m1"
    by (cases "rtp_get_version (pk_data p) = 0") (use p in \<open>auto simp: sendable_def full_header_def rtp_hton_def\<close>)
  define d where "d = (if rtp_session_using_transport_rtp s then msg_bytes m1 else rtp_sendmsg_bytes m1)"
  obtain r e1 where io: "io_result d e = (r, e1)" "same_profiles e e1"
    using io_result_frame [of e d] by (cases "io_result d e") auto
  obtain e2 where e2: "(if st_count (signals s On_network_error) > 0
      then emit_signal On_network_error [0, nat (- r)] s e1 else Some e1) = Some e2" "same_profiles e1 e2"
    using network_error_ok [OF session_ok_env [OF ok io(2)]] by blast
  have f: "same_profiles e e2" "same_profiles e (e1\<lparr>rtp_out := rtp_out e1 @ [d]\<rparr>)"
    using io(2) e2(2) by (auto simp: same_profiles_def)
  have "session_ok e (upd_rtp (\<lambda>t. t\<lparr>send_errno := - r\<rparr>) s)"
    by (rule session_ok_upd_rtp [OF ok]) simp_all
  from session_ok_env [OF this f(1)] session_ok_env [OF update_sent_bytes_ok [OF ok] f(2)] f m1 io(1) e2(1) p
  show ?thesis
    unfolding rtp_session_rtp_send_def Let_def
    by (auto simp: sendable_def d_def [symmetric])
qed

lemma sendm_ok:
  assumes ok: "session_ok e s" and p: "\<And>p. mp = Some p \<Longrightarrow> sendable p" and rx: "list_all rx_sound (rtcp_in e)"
  shows "\<exists>r s' e'. rtp_session_sendm_with_ts_2 s mp tp sts e = Some (r, s', e') \<and> session_ok e' s' \<and> same_profiles e e'"
proof -
  obtain s1 where 1: "send_start sts s e = Some s1" "session_ok e s1" using send_start_ok [OF ok] by blast
  obtain s2 e2 where 2: "send_schedule sts s1 e = Some (s2, e2)" "session_ok e2 s2" "same_profiles e e2"
    using send_schedule_ok [OF 1(2)] by (rule step_okE)
  show ?thesis
  proof (cases mp)
    case None
    have "session_ok e2 (upd_rtp (\<lambda>r. r\<lparr>snd_last_ts := tp\<rparr>) s2)" by (rule session_ok_upd_rtp [OF 2(2)]) simp_all
    then show ?thesis using None 1(1) 2 by (simp add: rtp_session_sendm_with_ts_2_def)
  next
    case (Some p)
    have sp: "sendable p" using p Some by simp
    have c: "\<not> (pk_data p = [] \<or> rtp_get_version (pk_data p) \<noteq> 0 \<and> length (pk_data p) < 12)"
      using sp by (auto simp: sendable_def full_header_def)
    obtain p1 s3 e3 where st: "send_stamp p tp s2 e2 = (p1, s3, e3)" by (metis prod_cases3)
    note 3 = send_stamp_ok [OF 2(2) sp st]
    obtain r s4 e4 where 4: "rtp_session_rtp_send s3 p1 e3 = Some (r, s4, e4)" "session_ok e4 s4" "same_profiles e3 e4"
      using rtp_send_ok [OF 3(1,3)] by blast
    obtain s5 e5 where 5: "rtp_session_rtcp_process_send s4 e4 = Some (s5, e5)" "session_ok e5 s5" "same_profiles e4 e5"
      using process_send_ok [OF 4(2)] by (rule step_okE)
    have f: "same_profiles e e5"
      by (rule same_profiles_trans [OF same_profiles_trans [OF same_profiles_trans [OF 2(3) 3(2)] 4(3)] 5(3)])
    then have "list_all rx_sound (rtcp_in e5)" using rx by (auto simp: same_profiles_def list_all_iff)
    then obtain s6 e6 where 6: "rtp_session_rtcp_recv s5 e5 = Some (-1, s6, e6)" "session_ok e6 s6" "same_profiles e5 e6"
      using rtcp_recv_ok [OF 5(2)] by blast
    have "rtp_session_sendm_with_ts_2 s mp tp sts e =
        (if s_mode s5 = RTP_SESSION_SENDONLY then Some (r, s6, e6) else Some (r, s5, e5))"
      using Some c 1(1) 2(1) st 4(1) 5(1) 6(1) by (simp add: rtp_session_sendm_with_ts_2_def)
    then show ?thesis using 5(2) f 6(2) same_profiles_trans [OF f 6(3)] by auto
  qed
qed

lemma created_sendable: "sendable (rtp_session_create_packet s [] buffer)"
proof -
  have "drop_bit 6 (128 :: u8) = 2" "unat ((128 :: u8) AND 15) = 0" by simp_all
  then show ?thesis
    by (simp add: sendable_def full_header_def rtp_session_create_packet_def rtp_header_init_from_session_def
        rtp_get_cc_def)
qed

section \<open>Getting media\<close>

lemma recv_start_ok:
  assumes "session_ok e s"
  shows "\<exists>b s'. recv_start ts s e = Some (b, s') \<and> session_ok e s'"
proof -
  have last: "session_ok e (upd_rtp (\<lambda>r. r\<lparr>rcv_last_app_ts := ts\<rparr>) t)" if "session_ok e t" for t
    by (rule session_ok_upd_rtp [OF that]) simp_all
  show ?thesis
  proof (cases "has_flag s RTP_SESSION_RECV_NOT_STARTED")
    case True
    let ?s1 = "upd_rtp (\<lambda>r. r\<lparr>rcv_query_ts_offset := ts\<rparr>) s"
    let ?s2 = "if has_flag ?s1 RTP_SESSION_SEND_NOT_STARTED \<or> s_mode ?s1 = RTP_SESSION_RECVONLY
               then ?s1\<lparr>last_recv_time := now e\<rparr> else ?s1"
    have 1: "session_ok e ?s1" by (rule session_ok_upd_rtp [OF assms]) simp_all
    have "session_ok e (?s1\<lparr>last_recv_time := now e\<rparr>)" by (rule session_ok_frame [OF 1]) simp_all
    then have 2: "session_ok e ?s2" using 1 by simp
    have 3: "session_ok e (upd_rtp (\<lambda>r. r\<lparr>rcv_time_offset := x\<rparr>) ?s2)" for x
      by (rule session_ok_upd_rtp [OF 2]) simp_all
    have "\<exists>s3. (if has_flag ?s2 RTP_SESSION_SCHEDULED then do {
               sched \<leftarrow> env_sched e;
               Some (upd_rtp (\<lambda>r. r\<lparr>rcv_time_offset := sched_time sched\<rparr>) ?s2) }
             else Some ?s2) = Some s3 \<and> session_ok e s3"
      using 2 3 by (cases "has_flag ?s2 RTP_SESSION_SCHEDULED") (auto simp: session_ok_def simp del: has_flag_simps)
    then obtain s3 where s3: "(if has_flag ?s2 RTP_SESSION_SCHEDULED then do {
               sched \<leftarrow> env_sched e;
               Some (upd_rtp (\<lambda>r. r\<lparr>rcv_time_offset := sched_time sched\<rparr>) ?s2) }
             else Some ?s2) = Some s3" "session_ok e s3" by blast
    have "recv_start ts s e = Some (True, upd_rtp (\<lambda>r. r\<lparr>rcv_last_app_ts := ts\<rparr>)
        (rtp_session_unset_flag RTP_SESSION_RECV_NOT_STARTED s3))"
      unfolding recv_start_def Let_def s3(1) using True by simp
    then show ?thesis using last [OF session_ok_flag(2) [OF s3(2) flags_disjoint(3)]] by auto
  qed (use assms last in \<open>simp add: recv_start_def\<close>)
qed

lemma count_delivered_ok:
  assumes "session_ok e s" and "count_delivered p s e = (s', e')"
  shows "session_ok e' s'" "same_profiles e e'"
proof -
  have "same_profiles e e'" using assms(2) by (auto simp: count_delivered_def same_profiles_def upd_gstats_def)
  moreover have "session_ok e s'" using assms by (auto simp: count_delivered_def Let_def intro: session_ok_upd_stats)
  ultimately show "session_ok e' s'" "same_profiles e e'" using session_ok_env by blast+
qed

lemma session_ok_subqueues:
  assumes "session_ok e s" and "set q \<subseteq> set (rq (rtp s))" "length q \<le> length (rq (rtp s))"
  shows "session_ok e (upd_rtp (\<lambda>r. r\<lparr>rq := q\<rparr>) s)"
  using assms by (intro session_ok_queues(1)) (auto simp: session_ok_def)

lemma recv_telephone_event_ok:
  assumes ok: "session_ok e s"
  shows "step_ok e (recv_telephone_event s e)"
proof (cases "tev_rq (rtp s)")
  case (Cons p ps)
  let ?s0 = "upd_rtp (\<lambda>r. r\<lparr>tev_rq := ps\<rparr>) s"
  have p: "full_header p" and 0: "session_ok e ?s0"
    using ok Cons by (simp_all add: session_ok_def profiles_good_def upd_rtp_def has_flag_def)
  obtain s1 e1 where c: "count_delivered p ?s0 e = (s1, e1)" by fastforce
  note 1 = count_delivered_ok [OF 0 c]
  obtain e2 where 2: "emit_signal On_telephone_event_packet [0] s1 e1 = Some e2" "same_profiles e1 e2"
    using emit_same_profiles session_okD(2) [OF 1(1)] by blast
  have ok2: "session_ok e2 s1" by (rule session_ok_env [OF 1(1) 2(2)])
  obtain cur e3 where 3: "rtp_session_check_telephone_events s1 p e2 = Some (s1\<lparr>current_tev := Some cur\<rparr>, e3)"
    "full_header cur" "same_profiles e2 e3"
    using check_telephone_events_total [OF ok2 p] by blast
  have "session_ok e2 (s1\<lparr>current_tev := Some cur\<rparr>)"
    using ok2 3(2) by (simp add: session_ok_def profiles_good_def has_flag_def)
  from session_ok_env [OF this 3(3)] show ?thesis
    using Cons c 2(1) 3(1) same_profiles_trans [OF same_profiles_trans [OF 1(2) 2(2)] 3(3)]
    by (simp add: recv_telephone_event_def step_okI)
qed (use ok in \<open>simp add: recv_telephone_event_def step_okI\<close>)

lemma getq_scan_sub:
  "rtp_getq_scan tsf ts ret fnd rej xs = (mp, r, ys) \<Longrightarrow>
     set ys \<subseteq> set xs \<and> length ys \<le> length xs \<and> (mp = ret \<or> mp \<in> Some ` set xs)"
proof (induction tsf ts ret fnd rej xs rule: rtp_getq_scan.induct)
  case (2 tsf ts ret fnd rej t xs)
  then show ?case by (fastforce split: if_splits)
qed simp

lemma take_media_sub:
  assumes "take_media ts s = (m, rej, q)"
  shows "set q \<subseteq> set (rq (rtp s)) \<and> length q \<le> length (rq (rtp s)) \<and> (m = None \<or> m \<in> Some ` set (rq (rtp s)))"
proof (cases "jc_enabled (jittctl (rtp s)) \<and> \<not> permissive s")
  case True
  then show ?thesis using assms getq_scan_sub by (fastforce simp: take_media_def rtp_getq_list_def)
next
  case False
  show ?thesis
  proof (cases "rq (rtp s)")
    case Nil
    then show ?thesis using assms False by (auto simp: take_media_def split: if_splits)
  next
    case (Cons p ps)
    then have "take_media ts s = (Some p, 0, ps) \<or> take_media ts s = (None, 0, p # ps)"
      using False by (simp add: take_media_def)
    then show ?thesis using assms Cons by auto
  qed
qed

lemma recv_sync_ok:
  assumes "session_ok e s"
  shows "session_ok e (recv_sync ts s)"
proof -
  let ?h = "pk_data (hd (rq (rtp s)))"
  let ?s0 = "upd_rtp (\<lambda>r. r\<lparr>rcv_ts_offset := rtp_get_timestamp ?h, rcv_last_ret_ts := ts\<rparr>) s"
  have "session_ok e ?s0" by (rule session_ok_upd_rtp [OF assms]) simp_all
  then have "session_ok e (?s0\<lparr>rcv_dir := (rcv_dir ?s0)\<lparr>d_ssrc := rtp_get_ssrc ?h\<rparr>\<rparr>)"
    by (rule session_ok_frame) simp_all
  then show ?thesis
    using assms session_ok_flag(2) [OF _ flags_disjoint(1)] by (simp add: recv_sync_def Let_def)
qed

lemma recv_media_ok:
  assumes ok: "session_ok e s" and r: "recv_media ts s e = (mp, s', e')"
  shows "session_ok e' s' \<and> same_profiles e e' \<and> (\<forall>p. mp = Some p \<longrightarrow> full_header p)"
proof (cases "has_flag s RTP_SESSION_RECV_SYNC \<and> rq (rtp s) = []")
  case True
  then show ?thesis using r ok by (simp add: recv_media_def)
next
  case False
  obtain s1 where s1: "recv_sync ts s = s1" "session_ok e s1" using recv_sync_ok [OF ok] by blast
  obtain m rej q where g: "take_media (jitter_control_get_compensated_timestamp (jittctl (rtp s1)) ts) s1 = (m, rej, q)"
    by (metis prod_cases3)
  note q = take_media_sub [OF g]
  have "mp = m" "s' = upd_stats (\<lambda>t. t\<lparr>outoftime := outoftime t + of_int rej\<rparr>) (upd_rtp (\<lambda>r. r\<lparr>rq := q\<rparr>) s1)"
    "e' = upd_gstats (\<lambda>t. t\<lparr>outoftime := outoftime t + of_int rej\<rparr>) e"
    using r False g s1(1) by (auto simp: recv_media_def Let_def)
  moreover have "session_ok e (upd_rtp (\<lambda>r. r\<lparr>rq := q\<rparr>) s1)" using session_ok_subqueues [OF s1(2)] q by blast
  moreover have "same_profiles e (upd_gstats f e)" for f by (simp add: same_profiles_def upd_gstats_def)
  moreover have "\<forall>p \<in> set (rq (rtp s1)). full_header p" using s1(2) by (simp add: session_ok_def)
  ultimately show ?thesis using q session_ok_env session_ok_upd_stats by blast
qed

lemma changed_notify_ok:
  assumes ok: "session_ok e s"
  shows "step_ok e (payload_type_changed_notify pt s e)"
proof -
  obtain x where x: "profile_payload e (d_profile (rcv_dir s)) pt = Some x"
    using profile_payload_total session_okD(1) [OF ok] profiles_good_def by blast
  let ?s1 = "s\<lparr>rcv_dir := (rcv_dir s)\<lparr>d_pt := pt\<rparr>\<rparr>"
  have ok1: "session_ok e ?s1" by (rule session_ok_frame [OF ok]) simp_all
  obtain e1 where "emit_signal On_payload_type_changed [] ?s1 e = Some e1" "same_profiles e e1"
    using emit_same_profiles session_okD(2) [OF ok1] by blast
  then show ?thesis
    using x ok session_ok_env [OF ok1] by (cases x) (auto simp: payload_type_changed_notify_def intro: step_okI)
qed

lemma deliver_media_ok:
  assumes ok: "session_ok e s"
  shows "\<exists>p' s' e'. deliver_media p s e = Some (p', s', e') \<and> session_ok e' s' \<and> same_profiles e e'"
proof -
  obtain s1 e1 where c: "count_delivered p s e = (s1, e1)" by fastforce
  note 1 = count_delivered_ok [OF ok c]
  let ?pt = "rtp_get_payload_type (pk_data p)" and ?ts = "rtp_get_timestamp (pk_data p)"
  have "step_ok e1 (if d_pt (rcv_dir s1) \<noteq> ?pt then payload_type_changed_notify ?pt s1 e1 else Some (s1, e1))"
    using changed_notify_ok [OF 1(1)] step_okI [OF 1(1) same_profiles_refl] by simp
  then obtain s2 e2 where 2: "(if d_pt (rcv_dir s1) \<noteq> ?pt then payload_type_changed_notify ?pt s1 e1
      else Some (s1, e1)) = Some (s2, e2)" "session_ok e2 s2" "same_profiles e1 e2" by (rule step_okE)
  let ?s3 = "if ?ts \<noteq> rcv_last_ts (rtp s2)
             then upd_rtp (\<lambda>r. r\<lparr>jittctl := jitter_control_update_corrective_slide (jittctl r)\<rparr>) s2 else s2"
  have "session_ok e2 (upd_rtp (\<lambda>r. r\<lparr>jittctl := jitter_control_update_corrective_slide (jittctl r)\<rparr>) s2)"
    by (rule session_ok_upd_rtp [OF 2(2)]) simp_all
  then have 3: "session_ok e2 ?s3" using 2(2) by simp
  obtain p1 s3 where m: "(if adaptive (jittctl (rtp s2)) then
      (p\<lparr>pk_data := rtp_set_timestamp (?ts + of_int (corrective_slide (jittctl (rtp ?s3)))) (pk_data p)\<rparr>, ?s3)
      else (p, s2)) = (p1, s3)" by fastforce
  have 4: "session_ok e2 s3" using m 3 2(2) by (auto split: if_splits)
  have "session_ok e2 (upd_rtp (\<lambda>r. r\<lparr>rcv_last_ts := ?ts\<rparr>) s3)"
    by (rule session_ok_upd_rtp [OF 4]) simp_all
  from session_ok_flag(1) [OF this flags_disjoint(2)] show ?thesis
    unfolding deliver_media_def Let_def c prod.case 2(1) Option.bind.simps(2) m
    using same_profiles_trans [OF 1(2) 2(3)] by blast
qed

lemma recv_schedule_ok:
  assumes ok: "session_ok e s"
  shows "step_ok e (recv_schedule ts s e)"
proof (cases "has_flag s RTP_SESSION_SCHEDULED")
  case True
  then obtain sched where sc: "env_sched e = Some sched" "0 \<le> mask_pos s" "mask_pos s < 1024"
    using ok by (auto simp: session_ok_def)
  obtain t where t: "rtp_session_ts_to_time e s (ts - rcv_query_ts_offset (rtp s)) = Some t"
    using ts_to_time_total [OF ok] by blast
  have f: "same_profiles e (e\<lparr>env_sched := Some x\<rparr>)" for x using sched_frame sc(1) by simp
  have "session_ok e (s\<lparr>rcv_dir := (rcv_dir s)\<lparr>d_wp := w\<rparr>\<rparr>)" for w
    by (rule session_ok_frame [OF ok]) simp_all
  then show ?thesis
    using True sc t f session_ok_env [OF _ f] ok
    by (auto simp: recv_schedule_def fd_clr_def fd_set_def Let_def intro!: step_okI)
qed (use ok in \<open>simp add: recv_schedule_def step_okI\<close>)

lemma recvm_ok:
  assumes ok: "session_ok e s" and rx: "list_all rx_sound (rtcp_in e)"
  shows "\<exists>mp s' e'. rtp_session_recvm_with_ts s ts e = Some (mp, s', e') \<and> session_ok e' s' \<and> same_profiles e e'"
proof -
  obtain b s1 where 1: "recv_start ts s e = Some (b, s1)" "session_ok e s1" using recv_start_ok [OF ok] by blast
  obtain s2 e2 where 2: "(if b then do { (_, t, f) \<leftarrow> rtp_session_rtp_recv s1 ts e;
        (_, t, f) \<leftarrow> rtp_session_rtcp_recv t f; Some (t, f) } else Some (s1, e)) = Some (s2, e2)"
    "session_ok e2 s2" "same_profiles e e2"
  proof -
    obtain t f where r: "rtp_session_rtp_recv s1 ts e = Some (-1, t, f)" "session_ok f t" "same_profiles e f"
      using rtp_recv_ok [OF 1(2)] by blast
    have "list_all rx_sound (rtcp_in f)" using rx r(3) by (auto simp: same_profiles_def list_all_iff)
    then obtain t' f' where r': "rtp_session_rtcp_recv t f = Some (-1, t', f')" "session_ok f' t'" "same_profiles f f'"
      using rtcp_recv_ok [OF r(2)] by blast
    show thesis
      using that [of t' f'] that [of s1 e] r r' 1(2) same_profiles_trans [OF r(3) r'(3)] by (cases b) simp_all
  qed
  obtain s3 e3 where 3: "recv_telephone_event s2 e2 = Some (s3, e3)" "session_ok e3 s3" "same_profiles e2 e3"
    using recv_telephone_event_ok [OF 2(2)] by (rule step_okE)
  obtain mp s4 e4 where m: "recv_media ts s3 e3 = (mp, s4, e4)" by (metis prod_cases3)
  have 4: "session_ok e4 s4" "same_profiles e3 e4" using recv_media_ok [OF 3(2) m] by simp_all
  have "\<exists>mp1 s5 e5. (case mp of None \<Rightarrow> Some (None, s4, e4)
       | Some p \<Rightarrow> do { (p1, t, f) \<leftarrow> deliver_media p s4 e4; Some (Some p1, t, f) }) = Some (mp1, s5, e5) \<and>
      session_ok e5 s5 \<and> same_profiles e4 e5"
  proof (cases mp)
    case (Some p)
    then show ?thesis using deliver_media_ok [OF 4(1), of p] by fastforce
  qed (use 4 in simp)
  then obtain mp1 s5 e5 where 5: "(case mp of None \<Rightarrow> Some (None, s4, e4)
       | Some p \<Rightarrow> do { (p1, t, f) \<leftarrow> deliver_media p s4 e4; Some (Some p1, t, f) }) = Some (mp1, s5, e5)"
    "session_ok e5 s5" "same_profiles e4 e5" by blast
  obtain s6 e6 where 6: "rtp_session_rtcp_process_recv s5 e5 = Some (s6, e6)" "session_ok e6 s6" "same_profiles e5 e6"
    using process_recv_ok [OF 5(2)] by (rule step_okE)
  obtain s7 e7 where 7: "recv_schedule ts s6 e6 = Some (s7, e7)" "session_ok e7 s7" "same_profiles e6 e7"
    using recv_schedule_ok [OF 6(2)] by (rule step_okE)
  have "rtp_session_recvm_with_ts s ts e = Some (mp1, s7, e7)"
    unfolding rtp_session_recvm_with_ts_def Let_def 1(1) Option.bind.simps(2) prod.case 2(1) 3(1) m 5(1) 6(1) 7(1) ..
  moreover have "same_profiles e e7"
    by (rule same_profiles_trans [OF same_profiles_trans [OF same_profiles_trans [OF same_profiles_trans
          [OF same_profiles_trans [OF 2(3) 3(3)] 4(2)] 5(3)] 6(3)] 7(3)])
  ultimately show ?thesis using 7(2) by blast
qed

section \<open>A session at work\<close>

text \<open>
  What an application does with a session: it sends data or asks for media, and between its calls
  datagrams arrive.
\<close>

datatype io_op = Op_send "u8 list" u32 | Op_recv u32 "rx list" "rx list"

definition io_step :: "io_op \<Rightarrow> rtp_session \<times> ort_env \<Rightarrow> (rtp_session \<times> ort_env) option" where
  "io_step x c = (case x of
      Op_send data ts \<Rightarrow> map_option snd (rtp_session_send_with_ts (fst c) data ts (snd c))
    | Op_recv ts rtps rtcps \<Rightarrow> map_option snd (rtp_session_recvm_with_ts (fst c) ts
        ((snd c)\<lparr>rtp_in := rtp_in (snd c) @ rtps, rtcp_in := rtcp_in (snd c) @ rtcps\<rparr>)))"

definition op_sound :: "io_op \<Rightarrow> bool" where
  "op_sound x \<longleftrightarrow> (case x of Op_send _ _ \<Rightarrow> True | Op_recv _ _ rtcps \<Rightarrow> list_all rx_sound rtcps)"

definition io_good :: "rtp_session \<times> ort_env \<Rightarrow> bool" where
  "io_good c \<longleftrightarrow> session_ok (snd c) (fst c) \<and> list_all rx_sound (rtcp_in (snd c))"

lemma sound_frame: "list_all rx_sound (rtcp_in e) \<Longrightarrow> same_profiles e e' \<Longrightarrow> list_all rx_sound (rtcp_in e')"
  by (auto simp: same_profiles_def list_all_iff)

interpretation session_io: total_machine io_good op_sound io_step
proof unfold_locales
  fix c x
  assume g: "io_good c" and x: "op_sound x"
  obtain s e where c: "c = (s, e)" by fastforce
  show "\<exists>c'. io_step x c = Some c' \<and> io_good c'"
  proof (cases x)
    case (Op_send data ts)
    obtain r s' e' where "rtp_session_send_with_ts s data ts e = Some (r, s', e')" "session_ok e' s'" "same_profiles e e'"
      using sendm_ok [of e s "Some (rtp_session_create_packet s [] data)" ts ts] created_sendable g c
      by (auto simp: io_good_def rtp_session_send_with_ts_def rtp_session_sendm_with_ts_def)
    then show ?thesis using Op_send c g sound_frame by (auto simp: io_step_def io_good_def)
  next
    case (Op_recv ts rtps rtcps)
    let ?e = "e\<lparr>rtp_in := rtp_in e @ rtps, rtcp_in := rtcp_in e @ rtcps\<rparr>"
    have "session_ok ?e s" "list_all rx_sound (rtcp_in ?e)"
      using g x c Op_recv by (simp_all add: io_good_def op_sound_def session_ok_def profiles_good_def prof_good_def)
    then obtain mp s' e' where "rtp_session_recvm_with_ts s ts ?e = Some (mp, s', e')" "session_ok e' s'" "same_profiles ?e e'"
      using recvm_ok by blast
    moreover from this have "list_all rx_sound (rtcp_in e')"
      using sound_frame \<open>list_all rx_sound (rtcp_in ?e)\<close> by blast
    ultimately show ?thesis using Op_recv c by (auto simp: io_step_def io_good_def)
  qed
qed



end
