(* ===== verification/Rtp_Transfer.thy ===== *)
theory Rtp_Transfer
  imports Rtp_Io
begin

text \<open>
  From one session to another: what a sequence of sends puts on the wire, and what the parser of
  the receiving session makes of it.
\<close>

section \<open>What sending depends on and changes\<close>

definition snd_view :: "rtp_session \<Rightarrow> int \<times> u32 \<times> int \<times> session_mode \<times> bool \<times> u16 \<times> u64" where
  "snd_view s = (d_pt (snd_dir s), d_ssrc (snd_dir s), d_tev_pt (snd_dir s), s_mode s,
     rtp_session_using_transport_rtp s, snd_seq (rtp s), packet_sent (stats (rtp s)))"

definition wire_same :: "ort_env \<Rightarrow> ort_env \<Rightarrow> bool" where
  "wire_same e e' \<longleftrightarrow> rtp_out e' = rtp_out e \<and> (io_send e = [] \<longrightarrow> io_send e' = [])"

lemma wire_same_refl [simp]: "wire_same e e"
  by (simp add: wire_same_def)

lemma wire_same_trans: "wire_same e e1 \<Longrightarrow> wire_same e1 e2 \<Longrightarrow> wire_same e e2"
  by (simp add: wire_same_def)

lemma snd_view_upd_rtp:
  assumes "rs_tr (f (rtp s)) = rs_tr (rtp s)" "snd_seq (f (rtp s)) = snd_seq (rtp s)"
    "packet_sent (stats (f (rtp s))) = packet_sent (stats (rtp s))"
  shows "snd_view (upd_rtp f s) = snd_view s"
  using assms by (simp add: snd_view_def rtp_session_using_transport_rtp_def has_flag_def upd_rtp_def)

lemma snd_view_upd_rtcp: "snd_view (upd_rtcp f s) = snd_view s"
  by (simp add: snd_view_def rtp_session_using_transport_rtp_def has_flag_def upd_rtcp_def)

lemma snd_view_unset:
  assumes "f AND RTP_SESSION_USING_TRANSPORT = 0"
  shows "snd_view (rtp_session_unset_flag f s) = snd_view s"
proof -
  have d: "\<not> (bit f n \<and> bit RTP_SESSION_USING_TRANSPORT n)" for n
    using arg_cong [OF assms, of "\<lambda>w. bit w n"] by (simp add: bit_and_iff)
  have "(s_flags s AND NOT f) AND RTP_SESSION_USING_TRANSPORT = s_flags s AND RTP_SESSION_USING_TRANSPORT"
    by (rule bit_word_eqI) (use d in \<open>auto simp: bit_and_iff bit_not_iff\<close>)
  then show ?thesis
    by (simp add: snd_view_def rtp_session_using_transport_rtp_def has_flag_def rtp_session_unset_flag_def)
qed

lemma send_start_view:
  assumes "send_start ts s e = Some s'"
  shows "snd_view s' = snd_view s"
proof -
  have f: "RTP_SESSION_SEND_NOT_STARTED AND RTP_SESSION_USING_TRANSPORT = 0" by (simp add: flag_defs)
  have l: "snd_view (t\<lparr>last_recv_time := x\<rparr>) = snd_view t" for t x
    by (simp add: snd_view_def rtp_session_using_transport_rtp_def has_flag_def)
  show ?thesis
    using assms by (auto simp: send_start_def Let_def snd_view_unset [OF f] snd_view_upd_rtp l split: if_splits)
qed

lemma send_schedule_view:
  assumes "send_schedule ts s e = Some (s', e')"
  shows "snd_view s' = snd_view s \<and> wire_same e e'"
proof -
  have "snd_view (s\<lparr>snd_dir := (snd_dir s)\<lparr>d_wp := w\<rparr>\<rparr>) = snd_view s" for w
    by (simp add: snd_view_def rtp_session_using_transport_rtp_def has_flag_def)
  then show ?thesis
    using assms by (auto simp: send_schedule_def Let_def wire_same_def split: if_splits)
qed

lemma make_sr_view:
  assumes "make_sr s e = Some (m, s')"
  shows "snd_view s' = snd_view s"
proof -
  have i: "snd_view (snd (sender_info_init t e)) = snd_view t" for t
    by (simp add: sender_info_init_def Let_def snd_view_upd_rtp)
  have b: "snd_view (snd (report_block_init t e)) = snd_view t" for t
    by (simp add: report_block_init_def Let_def split_beta snd_view_upd_rtp)
  have x: "snd_view (extended_statistics t e) = snd_view t" for t
    by (simp add: extended_statistics_def Let_def split_beta snd_view_upd_rtp)
  have "snd_view (snd (rtcp_sr_init s e)) = snd_view s"
    by (simp add: rtcp_sr_init_def Let_def split_beta i b x)
  moreover have "snd_view t' = snd_view t" if "rtp_session_create_rtcp_sdes_packet t = Some (n, t')" for t t' n
    using that by (auto simp: rtp_session_create_rtcp_sdes_packet_def snd_view_def Let_def
        rtp_session_using_transport_rtp_def has_flag_def split: if_splits)
  ultimately show ?thesis using assms by (auto simp: make_sr_def split_beta split: if_splits)
qed

lemma emit_wire: "emit_signal sid args s e = Some e' \<Longrightarrow> wire_same e e'"
  by (auto simp: emit_signal_def wire_same_def)

lemma io_result_wire: "io_result m e = (r, e') \<Longrightarrow> wire_same e e' \<and> (io_send e = [] \<longrightarrow> r = int (length m) \<and> e' = e)"
  by (auto simp: io_result_def wire_same_def split: list.splits)

lemma rtcp_send_wire:
  assumes "rtp_session_rtcp_send s m e = Some (r, e')"
  shows "wire_same e e'"
proof -
  obtain n e1 where io: "io_result m e = (n, e1)" "wire_same e e1" using io_result_wire by (metis surj_pair)
  have "wire_same e1 (e1\<lparr>rtcp_out := rtcp_out e1 @ [m]\<rparr>)" by (simp add: wire_same_def)
  then show ?thesis
    using assms io by (auto simp: rtp_session_rtcp_send_def Let_def intro: wire_same_trans dest: emit_wire split: if_splits)
qed

lemma process_send_view:
  assumes "rtp_session_rtcp_process_send s e = Some (s', e')"
  shows "snd_view s' = snd_view s \<and> wire_same e e'"
proof -
  have n: "wire_same e (notify_sent_rtcp t m e)" for t m
    by (simp add: notify_sent_rtcp_def rtp_session_dispatch_event_def wire_same_def)
  have "snd_view (rtcp_mark_sent s) = snd_view s" by (simp add: rtcp_mark_sent_def snd_view_upd_rtcp)
  then show ?thesis
    using assms
    by (auto simp: rtp_session_rtcp_process_send_def dest!: make_sr_view rtcp_send_wire
        intro: wire_same_trans [OF n] split: if_splits)
qed

section \<open>The datagrams of a stream\<close>

text \<open>An RTP datagram without contributing sources, in network order.\<close>

definition rtp_wire :: "int \<Rightarrow> u32 \<Rightarrow> u16 \<Rightarrow> u32 \<Rightarrow> u8 list \<Rightarrow> u8 list" where
  "rtp_wire pt ssrc seq ts data =
     [0x80, of_int pt AND 0x7F] @ be16_bytes seq @ be32_bytes ts @ be32_bytes ssrc @ data"

lemma le_bytes_explicit:
  "le16_bytes w = [ucast w, ucast (drop_bit 8 w)]"
  "le32_bytes x = [ucast x, ucast (drop_bit 8 x), ucast (drop_bit 16 x), ucast (drop_bit 24 x)]"
  "be16_bytes w = [ucast (drop_bit 8 w), ucast w]"
  "be32_bytes x = [ucast (drop_bit 24 x), ucast (drop_bit 16 x), ucast (drop_bit 8 x), ucast x]"
  by (simp_all add: le16_bytes_def le32_bytes_def be16_bytes_def be32_bytes_def)

lemma no_csrc: "rtp_get_cc (0x80 # bs) = 0" "rtp_get_version (0x80 # bs) = 2"
  by (simp_all add: rtp_get_cc_def rtp_get_version_def)

lemma swap_host:
  "fixed_swap ([a, b] @ le16_bytes seq @ le32_bytes ts @ le32_bytes ssrc @ data) =
     [a, b] @ be16_bytes seq @ be32_bytes ts @ be32_bytes ssrc @ data"
  using fixed_swap_explicit by (simp add: le_bytes_explicit)

lemma hton_host:
  "rtp_hton ([0x80, b] @ le16_bytes seq @ le32_bytes ts @ le32_bytes ssrc @ data) =
     Some ([0x80, b] @ be16_bytes seq @ be32_bytes ts @ be32_bytes ssrc @ data)"
proof -
  have cc: "rtp_get_cc ([0x80, b] @ le16_bytes seq @ le32_bytes ts @ le32_bytes ssrc @ data) = 0"
    by (simp add: no_csrc)
  show ?thesis unfolding rtp_hton_def cc swap_host by simp
qed

lemma stamp_host:
  "rtp_set_timestamp ts ([a, b] @ le16_bytes seq @ le32_bytes t @ rest) = [a, b] @ le16_bytes seq @ le32_bytes ts @ rest"
  by (simp add: rtp_set_timestamp_def put_at_def le_bytes_explicit)

text \<open>The payload type is cut to seven bits.\<close>

definition wire_pt :: "int \<Rightarrow> int" where
  "wire_pt pt = uint ((of_int pt AND 0x7F) AND 0x7F :: u8)"

lemma send_data:
  assumes ok: "session_ok e s" and io: "io_send e = []" and mode: "s_mode s \<noteq> RTP_SESSION_SENDONLY"
    and tr: "\<not> rtp_session_using_transport_rtp s" and tev: "wire_pt (d_pt (snd_dir s)) \<noteq> d_tev_pt (snd_dir s)"
    and rx: "list_all rx_sound (rtcp_in e)"
  shows "\<exists>s' e'. rtp_session_send_with_ts s data ts e = Some (int (12 + length data), s', e') \<and>
    session_ok e' s' \<and> list_all rx_sound (rtcp_in e') \<and> io_send e' = [] \<and>
    rtp_out e' = rtp_out e @ [rtp_wire (d_pt (snd_dir s)) (d_ssrc (snd_dir s)) (snd_seq (rtp s)) ts data] \<and>
    snd_view s' = (d_pt (snd_dir s), d_ssrc (snd_dir s), d_tev_pt (snd_dir s), s_mode s, False,
      snd_seq (rtp s) + 1, packet_sent (stats (rtp s)) + 1)"
proof -
  let ?p = "rtp_session_create_packet s [] data"
  let ?pt = "of_int (d_pt (snd_dir s)) AND 0x7F :: u8"
  let ?rest = "le32_bytes (d_ssrc (snd_dir s)) @ data"
  have data: "pk_data ?p = [0x80, ?pt] @ le16_bytes (snd_seq (rtp s)) @ le32_bytes 0 @ ?rest" "pk_cont ?p = []"
    by (simp_all add: rtp_session_create_packet_def rtp_header_init_from_session_def)
  obtain r s' e' where run: "rtp_session_send_with_ts s data ts e = Some (r, s', e')" "session_ok e' s'" "same_profiles e e'"
    using sendm_ok [OF ok _ rx, of "Some ?p" ts ts] created_sendable
    by (auto simp: rtp_session_send_with_ts_def rtp_session_sendm_with_ts_def)
  obtain s1 where 1: "send_start ts s e = Some s1" "session_ok e s1" using send_start_ok [OF ok] by blast
  obtain s2 e2 where 2: "send_schedule ts s1 e = Some (s2, e2)" using send_schedule_ok [OF 1(2)] by (rule step_okE)
  obtain p1 s3 e3 where 3: "send_stamp ?p ts s2 e2 = (p1, s3, e3)" by (metis prod_cases3)
  have c: "(pk_data ?p = [] \<or> rtp_get_version (pk_data ?p) \<noteq> 0 \<and> length (pk_data ?p) < 12) = False"
    by (simp add: data)
  have run': "do { (error, s4, e4) \<leftarrow> rtp_session_rtp_send s3 p1 e3;
      (s5, e5) \<leftarrow> rtp_session_rtcp_process_send s4 e4;
      if s_mode s5 = RTP_SESSION_SENDONLY then do { (_, s6, e6) \<leftarrow> rtp_session_rtcp_recv s5 e5; Some (error, s6, e6) }
      else Some (error, s5, e5) } = Some (r, s', e')"
    using run(1)
    unfolding rtp_session_send_with_ts_def rtp_session_sendm_with_ts_def rtp_session_sendm_with_ts_2_def
      1(1) 2 3 Option.bind.simps(2) prod.case option.case c if_False Let_def .
  obtain n s4 e4 where 4: "rtp_session_rtp_send s3 p1 e3 = Some (n, s4, e4)"
    using run' by (cases "rtp_session_rtp_send s3 p1 e3") auto
  obtain s5 e5 where 5: "rtp_session_rtcp_process_send s4 e4 = Some (s5, e5)"
    using run' 4 by (cases "rtp_session_rtcp_process_send s4 e4") auto
  have fin: "(n, s5, e5) = (r, s', e')" if "s_mode s5 \<noteq> RTP_SESSION_SENDONLY"
    using run' 4 5 that by simp
  have v2: "snd_view s2 = snd_view s" "wire_same e e2"
    using send_start_view [OF 1(1)] send_schedule_view [OF 2] by simp_all
  then have v2': "d_tev_pt (snd_dir s2) = d_tev_pt (snd_dir s)" "snd_seq (rtp s2) = snd_seq (rtp s)"
    by (simp_all add: snd_view_def)
  let ?b1 = "[0x80, ?pt] @ le16_bytes (snd_seq (rtp s)) @ le32_bytes ts @ ?rest"
  have b1: "rtp_set_timestamp ts (pk_data ?p) = ?b1" unfolding data by (rule stamp_host)
  have h: "rtp_get_version (pk_data ?p) = 2" "rtp_get_version ?b1 = 2" by (simp_all add: data no_csrc)
  have pt: "rtp_get_payload_type ?b1 = wire_pt (d_pt (snd_dir s))"
    by (simp add: rtp_get_payload_type_def wire_pt_def)
  have sq: "rtp_get_seqnumber ?b1 = snd_seq (rtp s)"
    by (simp add: rtp_get_seqnumber_def sub_def)
  have nt: "(d_tev_pt (snd_dir s2) = rtp_get_payload_type ?b1) = False"
    using tev unfolding v2'(1) pt by simp
  have st: "pk_data p1 = ?b1" "pk_cont p1 = []" "wire_same e2 e3"
    "snd_view s3 = (d_pt (snd_dir s2), d_ssrc (snd_dir s2), d_tev_pt (snd_dir s2), s_mode s2,
       rtp_session_using_transport_rtp s2, snd_seq (rtp s) + 1, packet_sent (stats (rtp s2)) + 1)"
    using 3 h(1) unfolding send_stamp_def Let_def b1 nt sq
    by (auto simp: data(2) snd_view_def rtp_session_using_transport_rtp_def has_flag_def upd_rtp_def upd_stats_def
        upd_gstats_def wire_same_def)
  let ?d = "rtp_wire (d_pt (snd_dir s)) (d_ssrc (snd_dir s)) (snd_seq (rtp s)) ts data"
  have hton: "rtp_hton ?b1 = Some ?d"
    using hton_host by (simp add: rtp_wire_def)
  have tr3: "\<not> rtp_session_using_transport_rtp s3" using st(4) v2(1) tr by (simp add: snd_view_def)
  have w3: "wire_same e e3" using v2(2) st(3) by (rule wire_same_trans)
  then have io3: "io_send e3 = []" using io by (simp add: wire_same_def)
  have "rtp_sendmsg_bytes (p1\<lparr>pk_data := ?d\<rparr>) = ?d"
    by (simp add: rtp_sendmsg_bytes_def st(2) MAX_IOV_def)
  moreover have "io_result ?d e3 = (int (length ?d), e3)" using io3 by (simp add: io_result_def)
  ultimately have snt: "rtp_session_rtp_send s3 p1 e3 =
      Some (int (length ?d), update_sent_bytes (int (length ?d)) e3 s3, e3\<lparr>rtp_out := rtp_out e3 @ [?d]\<rparr>)"
    using tr3 h(2) hton by (simp add: rtp_session_rtp_send_def st(1) Let_def)
  have "(n, s4, e4) = (int (length ?d), update_sent_bytes (int (length ?d)) e3 s3, e3\<lparr>rtp_out := rtp_out e3 @ [?d]\<rparr>)"
    by (rule option.inject [THEN iffD1]) (rule trans [OF 4 [symmetric] snt])
  then have sent: "n = int (length ?d)" "s4 = update_sent_bytes (int (length ?d)) e3 s3"
    "e4 = e3\<lparr>rtp_out := rtp_out e3 @ [?d]\<rparr>" by simp_all
  have v4: "snd_view s4 = snd_view s3"
    unfolding sent(2) update_sent_bytes_def by (rule snd_view_upd_rtp) (simp_all add: Let_def)
  have 5: "snd_view s5 = snd_view s4" "wire_same e4 e5" using process_send_view [OF 5] by simp_all
  have v5: "snd_view s5 = (d_pt (snd_dir s), d_ssrc (snd_dir s), d_tev_pt (snd_dir s), s_mode s, False,
      snd_seq (rtp s) + 1, packet_sent (stats (rtp s)) + 1)"
    using 5(1) v4 st(4) v2(1) tr by (simp add: snd_view_def)
  then have eq: "n = r" "s5 = s'" "e5 = e'" using fin mode by (auto simp: snd_view_def)
  have "rtp_out e' = rtp_out e @ [?d]" "io_send e' = []"
    using 5(2) w3 io3 eq(3) by (simp_all add: wire_same_def sent(3))
  moreover have "length ?d = 12 + length data" by (simp add: rtp_wire_def)
  ultimately show ?thesis
    using run v5 eq sent(1) sound_frame [OF rx run(3)] by auto
qed

text \<open>The datagrams for some data with their timestamps, numbered from \<open>seq\<close>.\<close>

primrec stream_wire :: "int \<Rightarrow> u32 \<Rightarrow> u16 \<Rightarrow> (u8 list \<times> u32) list \<Rightarrow> u8 list list" where
  "stream_wire pt ssrc seq [] = []"
| "stream_wire pt ssrc seq (x # xs) =
     rtp_wire pt ssrc seq (snd x) (fst x) # stream_wire pt ssrc (seq + 1) xs"

lemma sent_stream:
  assumes "session_ok e s" and "io_send e = []" and "s_mode s \<noteq> RTP_SESSION_SENDONLY"
    and "\<not> rtp_session_using_transport_rtp s" and "wire_pt (d_pt (snd_dir s)) \<noteq> d_tev_pt (snd_dir s)"
    and "list_all rx_sound (rtcp_in e)"
  shows "\<exists>s' e'. run_steps io_step (map (\<lambda>x. Op_send (fst x) (snd x)) xs) (s, e) = Some (s', e') \<and>
    rtp_out e' = rtp_out e @ stream_wire (d_pt (snd_dir s)) (d_ssrc (snd_dir s)) (snd_seq (rtp s)) xs \<and>
    snd_seq (rtp s') = snd_seq (rtp s) + of_nat (length xs) \<and>
    packet_sent (stats (rtp s')) = packet_sent (stats (rtp s)) + of_nat (length xs)"
  using assms
proof (induction xs arbitrary: s e)
  case (Cons x xs)
  obtain s1 e1 where 1: "rtp_session_send_with_ts s (fst x) (snd x) e = Some (int (12 + length (fst x)), s1, e1)"
    "session_ok e1 s1" "list_all rx_sound (rtcp_in e1)" "io_send e1 = []"
    "rtp_out e1 = rtp_out e @ [rtp_wire (d_pt (snd_dir s)) (d_ssrc (snd_dir s)) (snd_seq (rtp s)) (snd x) (fst x)]"
    "snd_view s1 = (d_pt (snd_dir s), d_ssrc (snd_dir s), d_tev_pt (snd_dir s), s_mode s, False,
      snd_seq (rtp s) + 1, packet_sent (stats (rtp s)) + 1)"
    using send_data [OF Cons.prems, of "fst x" "snd x"] by blast
  have v: "d_pt (snd_dir s1) = d_pt (snd_dir s)" "d_ssrc (snd_dir s1) = d_ssrc (snd_dir s)"
    "d_tev_pt (snd_dir s1) = d_tev_pt (snd_dir s)" "s_mode s1 = s_mode s" "\<not> rtp_session_using_transport_rtp s1"
    "snd_seq (rtp s1) = snd_seq (rtp s) + 1" "packet_sent (stats (rtp s1)) = packet_sent (stats (rtp s)) + 1"
    using 1(6) by (simp_all add: snd_view_def)
  have st: "io_step (Op_send (fst x) (snd x)) (s, e) = Some (s1, e1)"
    using 1(1) by (simp add: io_step_def)
  have "s_mode s1 \<noteq> RTP_SESSION_SENDONLY" "wire_pt (d_pt (snd_dir s1)) \<noteq> d_tev_pt (snd_dir s1)"
    using Cons.prems v by simp_all
  from Cons.IH [OF 1(2,4) this(1) v(5) this(2) 1(3)] obtain s' e'
    where "run_steps io_step (map (\<lambda>x. Op_send (fst x) (snd x)) xs) (s1, e1) = Some (s', e')"
      "rtp_out e' = rtp_out e1 @ stream_wire (d_pt (snd_dir s)) (d_ssrc (snd_dir s)) (snd_seq (rtp s) + 1) xs"
      "snd_seq (rtp s') = snd_seq (rtp s) + 1 + of_nat (length xs)"
      "packet_sent (stats (rtp s')) = packet_sent (stats (rtp s)) + 1 + of_nat (length xs)"
    unfolding v by blast
  then show ?case using st 1(5) by (simp add: add.assoc)
qed simp

text \<open>
  A stream is sent as it should be: while no send call fails, each piece of data is one datagram
  in network order, with version 2, the payload type and source of the session, the timestamp asked
  for and the next sequence number, wrapping at 65536; RTCP traffic in between changes none of it,
  and the packets sent are counted.
\<close>

theorem sent_stream_on_the_wire:
  assumes "session_ok e s" and "io_send e = []" and "s_mode s \<noteq> RTP_SESSION_SENDONLY"
    and "\<not> rtp_session_using_transport_rtp s" and "wire_pt (d_pt (snd_dir s)) \<noteq> d_tev_pt (snd_dir s)"
    and "list_all rx_sound (rtcp_in e)"
  shows "\<exists>s' e'. run_steps io_step (map (\<lambda>x. Op_send (fst x) (snd x)) xs) (s, e) = Some (s', e') \<and>
    rtp_out e' = rtp_out e @ stream_wire (d_pt (snd_dir s)) (d_ssrc (snd_dir s)) (snd_seq (rtp s)) xs \<and>
    snd_seq (rtp s') = snd_seq (rtp s) + of_nat (length xs) \<and>
    packet_sent (stats (rtp s')) = packet_sent (stats (rtp s)) + of_nat (length xs)"
  by (rule sent_stream [OF assms])

lemma sent_stream_on_the_wire_witness:
  "\<exists>s' e'. run_steps io_step [Op_send [1, 2] 160, Op_send [3, 4] 320] (ex_session, ex_env) = Some (s', e') \<and>
     rtp_out e' = [[0x80, 0, 0, 0, 0, 0, 0, 160, 0, 0, 0xCA, 0xFE, 1, 2],
                   [0x80, 0, 0, 1, 0, 0, 1, 0x40, 0, 0, 0xCA, 0xFE, 3, 4]]"
proof -
  have h: "io_send ex_env = []" "s_mode ex_session \<noteq> RTP_SESSION_SENDONLY"
    "\<not> rtp_session_using_transport_rtp ex_session" "list_all rx_sound (rtcp_in ex_env)" "rtp_out ex_env = []"
    "d_pt (snd_dir ex_session) = 0" "d_ssrc (snd_dir ex_session) = 0xCAFE" "d_tev_pt (snd_dir ex_session) = 101"
    "snd_seq (rtp ex_session) = 0"
    by (simp_all add: ex_env_def ex_session_def rtp_session_using_transport_rtp_def has_flag_def
        RTP_SESSION_USING_TRANSPORT_def dir_zero_def rtp_stream_zero_def session_zero_def)
  have "wire_pt 0 \<noteq> 101" by (simp add: wire_pt_def)
  moreover have "stream_wire 0 0xCAFE 0 [([1, 2], 160), ([3, 4], 320)] =
      [[0x80, 0, 0, 0, 0, 0, 0, 160, 0, 0, 0xCA, 0xFE, 1, 2], [0x80, 0, 0, 1, 0, 0, 1, 0x40, 0, 0, 0xCA, 0xFE, 3, 4]]"
    by (simp add: rtp_wire_def le_bytes_explicit)
  ultimately show ?thesis
    using sent_stream_on_the_wire [OF ex_session_ok h(1-3), of "[([1, 2], 160), ([3, 4], 320)]"] h(4-) by auto
qed

section \<open>At the other end\<close>

lemma wire_fields:
  "rtp_get_version (rtp_wire pt ssrc seq ts data) = 2" "rtp_get_cc (rtp_wire pt ssrc seq ts data) = 0"
  "length (rtp_wire pt ssrc seq ts data) = 12 + length data"
  by (simp_all add: rtp_wire_def no_csrc)

text \<open>The packet in host order.\<close>

definition rtp_host :: "int \<Rightarrow> u32 \<Rightarrow> u16 \<Rightarrow> u32 \<Rightarrow> u8 list \<Rightarrow> u8 list" where
  "rtp_host pt ssrc seq ts data =
     [0x80, of_int pt AND 0x7F] @ le16_bytes seq @ le32_bytes ts @ le32_bytes ssrc @ data"

lemma host_fields:
  "rtp_get_seqnumber (rtp_host pt ssrc seq ts data) = seq"
  "rtp_get_timestamp (rtp_host pt ssrc seq ts data) = ts"
  "rtp_get_ssrc (rtp_host pt ssrc seq ts data) = ssrc"
  "rtp_get_payload_type (rtp_host pt ssrc seq ts data) = wire_pt pt"
  "rtp_get_cc (rtp_host pt ssrc seq ts data) = 0"
  by (simp_all add: rtp_host_def rtp_get_seqnumber_def rtp_get_timestamp_def rtp_get_ssrc_def sub_def
      rtp_get_payload_type_def wire_pt_def no_csrc)

lemma host_payload:
  "payload_bytes \<lparr>pk_data = rtp_host pt ssrc seq ts data, pk_cont = c, pk_addr = a\<rparr> = Some data"
proof -
  have "\<not> rtp_get_extbit (0x80 # xs)" for xs by (simp add: rtp_get_extbit_def bit_numeral_rec)
  then show ?thesis
    using host_fields(5) [of pt ssrc seq ts data]
    by (simp add: payload_bytes_def rtp_get_payload_def rtp_get_extheader_def Let_def)
       (simp add: rtp_host_def rtp_get_extheader_def le_bytes_explicit)
qed

lemma wire_to_host: "fixed_swap (rtp_wire pt ssrc seq ts data) = rtp_host pt ssrc seq ts data"
  using fixed_swap_explicit by (simp add: rtp_wire_def rtp_host_def le_bytes_explicit)

text \<open>What the parser's decisions depend on.\<close>

definition rcv_view :: "rtp_session \<Rightarrow> bool \<times> u32 \<times> int \<times> bool \<times> u32 \<times> int \<times> packet list" where
  "rcv_view s = (ssrc_set s, d_ssrc (rcv_dir s), d_tev_pt (rcv_dir s), has_flag s RTP_SESSION_FIRST_PACKET_DELIVERED,
     rcv_last_ts (rtp s), max_rq_size (rtp s), rq (rtp s))"

lemma rcv_view_upd_rtp:
  assumes "rcv_last_ts (f (rtp s)) = rcv_last_ts (rtp s)" "max_rq_size (f (rtp s)) = max_rq_size (rtp s)"
    "rq (f (rtp s)) = rq (rtp s)"
  shows "rcv_view (upd_rtp f s) = rcv_view s"
  using assms by (simp add: rcv_view_def has_flag_def upd_rtp_def)

lemma rcv_view_upd [simp]: "rcv_view (upd_rtcp g s) = rcv_view s" "rcv_view (upd_stats h s) = rcv_view s"
  by (simp_all add: rcv_view_def has_flag_def upd_rtcp_def upd_stats_def upd_rtp_def)

lemma rcv_view_frame [simp]:
  "rcv_view (s\<lparr>last_recv_time := t\<rparr>) = rcv_view s" "rcv_view (s\<lparr>inc_same_ssrc_count := n\<rparr>) = rcv_view s"
  "rcv_view (s\<lparr>hw_recv_pt := k\<rparr>) = rcv_view s" "rcv_view (s\<lparr>permissive := b\<rparr>) = rcv_view s"
  by (simp_all add: rcv_view_def has_flag_def)

lemma update_payload_type_view:
  assumes "rtp_session_update_payload_type e n s = Some s'"
  shows "rcv_view s' = rcv_view s"
proof -
  have j: "rcv_view t' = rcv_view t" if "rtp_session_set_time_jump_limit e ms t = Some t'" for ms t t'
    using that by (auto simp: rtp_session_set_time_jump_limit_def rcv_view_upd_rtp Let_def)
  have r: "rcv_view t' = rcv_view t" if "rtp_session_set_rtcp_report_interval e ms t = Some t'" for ms t t'
    using that by (auto simp: rtp_session_set_rtcp_report_interval_def Let_def split: option.splits if_splits)
  show ?thesis
    using assms
    by (auto simp: rtp_session_update_payload_type_def payload_type_changed_def rcv_view_upd_rtp Let_def
        dest!: j r split: option.splits)
qed

text \<open>In order, a packet goes to the end of the queue.\<close>

definition next_seq :: "packet list \<Rightarrow> u16 \<Rightarrow> bool" where
  "next_seq q seq \<longleftrightarrow> q = [] \<or> pkt_seq (last q) = seq - 1"

lemma putq_next: "next_seq q (pkt_seq p) \<Longrightarrow> rtp_putq_list pkt_seq p q = q @ [p]"
  by (cases q rule: rev_cases) (auto simp: next_seq_def rtp_putq_list_def RTP_SEQ_IS_GREATER_def)

lemma arrival:
  assumes ok: "session_ok e s" and src: "ssrc_set s \<longrightarrow> d_ssrc (rcv_dir s) = ssrc"
    and pt: "wire_pt pt \<noteq> d_tev_pt (rcv_dir s)" and data: "data \<noteq> []"
    and new: "has_flag s RTP_SESSION_FIRST_PACKET_DELIVERED \<longrightarrow> RTP_TIMESTAMP_IS_NEWER_THAN ts (rcv_last_ts (rtp s))"
    and room: "int (length (rq (rtp s))) < max_rq_size (rtp s)" and sq: "next_seq (rq (rtp s)) seq"
  shows "\<exists>s' e'. parse_step (\<lparr>pk_data = rtp_wire pt ssrc seq ts data, pk_cont = [], pk_addr = a\<rparr>, lts, addr) (s, e) =
      Some (s', e') \<and> session_ok e' s' \<and>
    rcv_view s' = (True, ssrc, d_tev_pt (rcv_dir s), has_flag s RTP_SESSION_FIRST_PACKET_DELIVERED,
      rcv_last_ts (rtp s), max_rq_size (rtp s),
      rq (rtp s) @ [\<lparr>pk_data = rtp_host pt ssrc seq ts data, pk_cont = [], pk_addr = a\<rparr>])"
proof -
  let ?w = "rtp_wire pt ssrc seq ts data" and ?h = "rtp_host pt ssrc seq ts data"
  let ?mp = "\<lparr>pk_data = ?w, pk_cont = [], pk_addr = a\<rparr>" and ?p = "\<lparr>pk_data = ?h, pk_cont = [], pk_addr = a\<rparr>"
  obtain s' e' where run: "rtp_session_rtp_parse s ?mp lts addr e = Some (s', e')" "session_ok e' s'"
    using rtp_parse_total [OF ok] by blast
  obtain s1 e1 where r: "count_received (int (length ?w)) s e = (s1, e1)" by fastforce
  let ?s2 = "s1\<lparr>last_recv_time := now e1\<rparr>"
  have v2: "rcv_view ?s2 = rcv_view s"
    using r by (auto simp: count_received_def rcv_view_upd_rtp)
  obtain s3 where s3: "check_ssrc ?h addr ?s2 e1 = Some (True, s3, e1)"
    "rcv_view s3 = (True, ssrc, d_tev_pt (rcv_dir s), has_flag s RTP_SESSION_FIRST_PACKET_DELIVERED,
      rcv_last_ts (rtp s), max_rq_size (rtp s), rq (rtp s))"
  proof (cases "ssrc_set ?s2")
    case True
    then have "d_ssrc (rcv_dir ?s2) = ssrc" using v2 src by (simp add: rcv_view_def)
    then show ?thesis
      using True v2 by (intro that [of "?s2\<lparr>inc_same_ssrc_count := 0\<rparr>"])
        (simp add: check_ssrc_def host_fields, simp only: rcv_view_frame, simp add: rcv_view_def)
  next
    case False
    have a: "rcv_view (store_remote_addr x t) = rcv_view t" for x t
      by (simp add: store_remote_addr_def rcv_view_upd_rtp)
    show ?thesis
      using False v2 by (intro that [of "store_remote_addr addr
          (?s2\<lparr>ssrc_set := True, rcv_dir := (rcv_dir ?s2)\<lparr>d_ssrc := ssrc\<rparr>\<rparr>)"])
        (simp add: check_ssrc_def host_fields, simp add: a, simp add: rcv_view_def has_flag_def)
  qed
  let ?s4 = "update_seq_stats seq s3"
  have v4: "rcv_view ?s4 = rcv_view s3"
    unfolding update_seq_stats_def by (rule rcv_view_upd_rtp) (simp_all add: Let_def)
  have media: "rtp_session_rtp_parse s ?mp lts addr e = parse_media ?p lts ?s4 e1"
    using r s3(1) v4 s3(2) pt
    by (simp add: rtp_session_rtp_parse_def RTP_FIXED_HEADER_SIZE_def wire_fields wire_to_host parse_accepted_def
        host_fields Let_def) (simp add: rcv_view_def)
  obtain s5 where s5: "(if hw_recv_pt ?s4 \<noteq> wire_pt pt then rtp_session_update_payload_type e1 (wire_pt pt) ?s4
      else Some ?s4) = Some s5"
    using run(1) media by (cases "hw_recv_pt ?s4 \<noteq> wire_pt pt") (auto simp: parse_media_def host_fields)
  have v5: "rcv_view s5 = rcv_view s3" using s5 v4 update_payload_type_view by (auto split: if_splits)
  define s6 where "s6 = upd_rtp (\<lambda>r. r\<lparr>jittctl := jitter_control_new_packet (jittctl r) ts lts\<rparr>) s5"
  have v6: "rcv_view s6 = rcv_view s3" unfolding s6_def by (simp add: rcv_view_upd_rtp v5)
  have f6: "has_flag s6 RTP_SESSION_FIRST_PACKET_DELIVERED = has_flag s RTP_SESSION_FIRST_PACKET_DELIVERED"
    "rcv_last_ts (rtp s6) = rcv_last_ts (rtp s)" "rq (rtp s6) = rq (rtp s)" "max_rq_size (rtp s6) = max_rq_size (rtp s)"
    using v6 s3(2) by (simp_all add: rcv_view_def)
  have media2: "parse_media ?p lts ?s4 e1 = do {
     (old, e2) \<leftarrow> check_jump ts s6 e1;
     if old then Some (count_outoftime s6 e2)
     else do {
       (queued, i, q) \<leftarrow> queue_packet (rq (rtp s6)) (max_rq_size (rtp s6)) ?p;
       let t = upd_rtp (\<lambda>r. r\<lparr>rq := q\<rparr>) s6;
       let t1 = (if queued
                 then upd_rtp (\<lambda>r. r\<lparr>jittctl := jitter_control_update_size (jittctl r) (map pkt_ts q)\<rparr>) t
                 else t);
       Some (count_discarded i t1 e2) } }"
    unfolding parse_media_def Let_def by (simp only: host_fields packet.select_convs s5 Option.bind.simps(2) s6_def)
  then obtain old e2 where j: "check_jump ts s6 e1 = Some (old, e2)"
    using run(1) media by (cases "check_jump ts s6 e1") auto
  have "\<not> old"
    using j new ts_antisym [of ts "rcv_last_ts (rtp s)"] f6(1,2)
    by (auto simp: check_jump_def Let_def ts_strictly_newer_iff split: if_splits)
  let ?q = "rq (rtp s) @ [?p]"
  have put: "rtp_putq_list pkt_seq ?p (rq (rtp s)) = ?q"
    using sq by (intro putq_next) (simp add: pkt_seq_def host_fields)
  have trim: "trim_queue m xs 0 = Some (0, xs)" if "int (length xs) \<le> m" for m and xs :: "packet list"
    using that by (cases xs) simp_all
  have qp: "queue_packet (rq (rtp s6)) (max_rq_size (rtp s6)) ?p = Some (True, 0, ?q)"
    using data room put f6(3,4) trim [of ?q "max_rq_size (rtp s)"]
    by (simp add: queue_packet_def host_fields) (simp add: rtp_host_def)
  let ?t1 = "upd_rtp (\<lambda>r. r\<lparr>jittctl := jitter_control_update_size (jittctl r) (map pkt_ts ?q)\<rparr>)
      (upd_rtp (\<lambda>r. r\<lparr>rq := ?q\<rparr>) s6)"
  have "parse_media ?p lts ?s4 e1 = Some (count_discarded 0 ?t1 e2)"
    unfolding media2 j Option.bind.simps(2) prod.case qp Let_def using \<open>\<not> old\<close> by simp
  then have "Some (s', e') = Some (count_discarded 0 ?t1 e2)" using run(1) media by simp
  then have "rcv_view s' = rcv_view ?t1" by (simp add: count_discarded_def)
  also have "\<dots> = rcv_view (upd_rtp (\<lambda>r. r\<lparr>rq := ?q\<rparr>) s6)" by (simp add: rcv_view_upd_rtp)
  also have "\<dots> = (True, ssrc, d_tev_pt (rcv_dir s), has_flag s RTP_SESSION_FIRST_PACKET_DELIVERED,
      rcv_last_ts (rtp s), max_rq_size (rtp s), ?q)"
    using v6 s3(2) by (simp add: rcv_view_def upd_rtp_def has_flag_def)
  finally show ?thesis using run by (simp add: parse_step_def)
qed

lemma stream_arrives:
  assumes "session_ok e s" and "ssrc_set s \<longrightarrow> d_ssrc (rcv_dir s) = ssrc" and "wire_pt pt \<noteq> d_tev_pt (rcv_dir s)"
    and "\<not> has_flag s RTP_SESSION_FIRST_PACKET_DELIVERED" and "next_seq (rq (rtp s)) seq"
    and "int (length (rq (rtp s)) + length xs) \<le> max_rq_size (rtp s)" and "list_all (\<lambda>x. fst x \<noteq> []) xs"
  shows "\<exists>s' e'. run_steps parse_step
      (map (\<lambda>d. (\<lparr>pk_data = d, pk_cont = [], pk_addr = a\<rparr>, lts, addr)) (stream_wire pt ssrc seq xs)) (s, e) = Some (s', e') \<and>
    map payload_bytes (rq (rtp s')) = map payload_bytes (rq (rtp s)) @ map (\<lambda>x. Some (fst x)) xs \<and>
    map pkt_ts (rq (rtp s')) = map pkt_ts (rq (rtp s)) @ map snd xs"
  using assms
proof (induction xs arbitrary: s e seq)
  case (Cons x xs)
  let ?p = "\<lparr>pk_data = rtp_host pt ssrc seq (snd x) (fst x), pk_cont = [], pk_addr = a\<rparr>"
  have room: "int (length (rq (rtp s))) < max_rq_size (rtp s)" using Cons.prems(6) by simp
  obtain s1 e1 where 1: "parse_step (\<lparr>pk_data = rtp_wire pt ssrc seq (snd x) (fst x), pk_cont = [], pk_addr = a\<rparr>, lts, addr) (s, e) =
      Some (s1, e1)" "session_ok e1 s1"
    "rcv_view s1 = (True, ssrc, d_tev_pt (rcv_dir s), has_flag s RTP_SESSION_FIRST_PACKET_DELIVERED,
      rcv_last_ts (rtp s), max_rq_size (rtp s), rq (rtp s) @ [?p])"
    using arrival [OF Cons.prems(1-3) _ _ room Cons.prems(5), of "fst x" "snd x" a lts addr] Cons.prems(4,7) by auto
  have v: "d_ssrc (rcv_dir s1) = ssrc" "d_tev_pt (rcv_dir s1) = d_tev_pt (rcv_dir s)"
    "\<not> has_flag s1 RTP_SESSION_FIRST_PACKET_DELIVERED" "rq (rtp s1) = rq (rtp s) @ [?p]"
    "max_rq_size (rtp s1) = max_rq_size (rtp s)"
    using 1(3) Cons.prems(4) by (simp_all add: rcv_view_def)
  have "next_seq (rq (rtp s1)) (seq + 1)" by (simp add: next_seq_def v(4) pkt_seq_def host_fields)
  moreover have "int (length (rq (rtp s1)) + length xs) \<le> max_rq_size (rtp s1)" using Cons.prems(6) v(4,5) by simp
  ultimately obtain s' e' where r: "run_steps parse_step
      (map (\<lambda>d. (\<lparr>pk_data = d, pk_cont = [], pk_addr = a\<rparr>, lts, addr)) (stream_wire pt ssrc (seq + 1) xs)) (s1, e1) = Some (s', e')"
    "map payload_bytes (rq (rtp s')) = map payload_bytes (rq (rtp s1)) @ map (\<lambda>x. Some (fst x)) xs"
    "map pkt_ts (rq (rtp s')) = map pkt_ts (rq (rtp s1)) @ map snd xs"
    using Cons.IH [OF 1(2), of "seq + 1"] v Cons.prems(3,7) by auto
  moreover have "pkt_ts ?p = snd x" by (simp add: pkt_ts_def host_fields)
  ultimately show ?case using 1(1) v(4) by (simp add: host_payload)
qed simp

text \<open>
  C1. From the sender's data to the receiver's queue: what one session sends and another parses is
  queued there complete and in the order of sending, with its timestamps, whatever the sequence
  numbers (they may wrap), the payload type and the source.
\<close>

theorem stream_transfer:
  assumes "session_ok e1 s1" and "io_send e1 = []" and "rtp_out e1 = []" and "s_mode s1 \<noteq> RTP_SESSION_SENDONLY"
    and "\<not> rtp_session_using_transport_rtp s1" and "wire_pt (d_pt (snd_dir s1)) \<noteq> d_tev_pt (snd_dir s1)"
    and "list_all rx_sound (rtcp_in e1)"
    and "session_ok e2 s2" and "\<not> ssrc_set s2" and "wire_pt (d_pt (snd_dir s1)) \<noteq> d_tev_pt (rcv_dir s2)"
    and "\<not> has_flag s2 RTP_SESSION_FIRST_PACKET_DELIVERED" and "rq (rtp s2) = []"
    and "int (length xs) \<le> max_rq_size (rtp s2)" and "list_all (\<lambda>x. fst x \<noteq> []) xs"
  shows "\<exists>s1' e1' s2' e2'. run_steps io_step (map (\<lambda>x. Op_send (fst x) (snd x)) xs) (s1, e1) = Some (s1', e1') \<and>
    run_steps parse_step (map (\<lambda>d. (\<lparr>pk_data = d, pk_cont = [], pk_addr = addr\<rparr>, lts, addr)) (rtp_out e1')) (s2, e2) =
      Some (s2', e2') \<and>
    map payload_bytes (rq (rtp s2')) = map (\<lambda>x. Some (fst x)) xs \<and> map pkt_ts (rq (rtp s2')) = map snd xs"
proof -
  obtain s1' e1' where "run_steps io_step (map (\<lambda>x. Op_send (fst x) (snd x)) xs) (s1, e1) = Some (s1', e1')"
    "rtp_out e1' = stream_wire (d_pt (snd_dir s1)) (d_ssrc (snd_dir s1)) (snd_seq (rtp s1)) xs"
    using sent_stream [OF assms(1,2,4-7), of xs] assms(3) by auto
  then show ?thesis
    using stream_arrives [OF assms(8) _ assms(10,11), of "d_ssrc (snd_dir s1)" "snd_seq (rtp s1)" xs addr lts addr]
      assms(9,12-14) by (auto simp: next_seq_def)
qed

text \<open>A session that waits for its first packet.\<close>

definition ex_listener :: rtp_session where
  "ex_listener = rtp_session_unset_flag RTP_SESSION_FIRST_PACKET_DELIVERED (ex_session\<lparr>ssrc_set := False\<rparr>)"

lemma stream_transfer_witness:
  "\<exists>s1' e1' s2' e2'. run_steps io_step [Op_send [1, 2] 160, Op_send [3] 320] (ex_session, ex_env) = Some (s1', e1') \<and>
    run_steps parse_step (map (\<lambda>d. (\<lparr>pk_data = d, pk_cont = [], pk_addr = 5\<rparr>, 0, 5)) (rtp_out e1')) (ex_listener, ex_env) =
      Some (s2', e2') \<and>
    map payload_bytes (rq (rtp s2')) = [Some [1, 2], Some [3]] \<and> map pkt_ts (rq (rtp s2')) = [160, 320]"
proof -
  have "session_ok ex_env (ex_session\<lparr>ssrc_set := False\<rparr>)" by (rule session_ok_frame [OF ex_session_ok]) simp_all
  then have ok2: "session_ok ex_env ex_listener"
    unfolding ex_listener_def by (rule session_ok_flag(2)) (rule flags_disjoint)
  have h: "io_send ex_env = []" "rtp_out ex_env = []" "s_mode ex_session \<noteq> RTP_SESSION_SENDONLY"
    "\<not> rtp_session_using_transport_rtp ex_session" "list_all rx_sound (rtcp_in ex_env)"
    "d_pt (snd_dir ex_session) = 0" "d_tev_pt (snd_dir ex_session) = 101"
    by (simp_all add: ex_env_def ex_session_def rtp_session_using_transport_rtp_def has_flag_def
        RTP_SESSION_USING_TRANSPORT_def dir_zero_def rtp_stream_zero_def session_zero_def)
  have l: "\<not> ssrc_set ex_listener" "d_tev_pt (rcv_dir ex_listener) = 101"
    "\<not> has_flag ex_listener RTP_SESSION_FIRST_PACKET_DELIVERED" "rq (rtp ex_listener) = []" "max_rq_size (rtp ex_listener) = 100"
    by (simp_all add: ex_listener_def ex_session_def rtp_session_unset_flag_def has_flag_def
        RTP_SESSION_FIRST_PACKET_DELIVERED_def dir_zero_def rtp_stream_zero_def session_zero_def)
  have w: "wire_pt 0 \<noteq> 101" by (simp add: wire_pt_def)
  show ?thesis
    using stream_transfer [OF ex_session_ok h(1-4) _ h(5) ok2 l(1) _ l(3,4), of "[([1, 2], 160), ([3], 320)]" 5 0] h(6,7) l(2,5) w
    by simp
qed

end
