(* ===== verification/Rfc3984.thy ===== *)
theory Rfc3984
  imports Rtp_Packet C_Float
begin

text \<open>
  H.264 over RTP, \<^verbatim>\<open>mediastreamer2/src/voip/rfc3984.c\<close>: a frame's NAL units
  are packed into RTP payloads (one per packet, several in an aggregation packet, or one cut in
  fragments), and the payloads are unpacked again. A NAL unit from the encoder is one block; a
  message is the list of its blocks with its timestamp and marker. Reading behind a message gives
  \<open>None\<close>, as does the fragmentation loop when it does not end.
\<close>

definition TYPE_FU_A :: u8 where "TYPE_FU_A = 28"
definition TYPE_STAP_A :: u8 where "TYPE_STAP_A = 24"

record ms_msg =
  mm_blocks :: "u8 list list"
  mm_ts :: u32
  mm_marker :: bool

record rfc3984_ctx =
  nal_q :: "u8 list list"
  nal_m :: "u8 list option"
  maxsz :: int
  last_ts :: u32
  pack_mode :: nat
  stap_a_allowed :: bool

definition rfc3984_init :: "int \<Rightarrow> rfc3984_ctx" where
  "rfc3984_init payload_max_size = \<lparr>nal_q = [], nal_m = None, maxsz = payload_max_size,
     last_ts = 0x943FEA43, pack_mode = 0, stap_a_allowed = True\<rparr>"

definition rfc3984_set_max_payload_size :: "int \<Rightarrow> rfc3984_ctx \<Rightarrow> rfc3984_ctx" where
  "rfc3984_set_max_payload_size sz ctx = ctx\<lparr>maxsz := sz\<rparr>"

definition rfc3984_set_mode :: "nat \<Rightarrow> rfc3984_ctx \<Rightarrow> rfc3984_ctx" where
  "rfc3984_set_mode mode ctx = ctx\<lparr>pack_mode := mode mod 256\<rparr>"

definition rfc3984_enable_stap_a :: "bool \<Rightarrow> rfc3984_ctx \<Rightarrow> rfc3984_ctx" where
  "rfc3984_enable_stap_a yesno ctx = ctx\<lparr>stap_a_allowed := yesno\<rparr>"

definition rfc3984_uninit :: "rfc3984_ctx \<Rightarrow> rfc3984_ctx" where
  "rfc3984_uninit ctx = ctx\<lparr>nal_q := [], nal_m := None\<rparr>"

section \<open>NAL headers\<close>

definition nal_header_init :: "u8 \<Rightarrow> u8 \<Rightarrow> u8" where
  "nal_header_init nri type = push_bit 5 (nri AND 3) OR (type AND 31)"

definition nal_header_get_type :: "u8 \<Rightarrow> u8" where
  "nal_header_get_type h = h AND 31"

definition nal_header_get_nri :: "u8 \<Rightarrow> u8" where
  "nal_header_get_nri h = drop_bit 5 h AND 3"

section \<open>Packing\<close>

definition put_nal_size :: "int \<Rightarrow> u8 list" where
  "put_nal_size sz = be16_bytes (of_int sz)"

definition blocks_size :: "u8 list list \<Rightarrow> int" where
  "blocks_size m = int (sum_list (map length m))"

definition prepend_stapa :: "u8 list list \<Rightarrow> u8 list list" where
  "prepend_stapa m =
     (nal_header_init (nal_header_get_nri (hd (hd m))) TYPE_STAP_A # put_nal_size (blocks_size m)) # m"

text \<open>\<open>None\<close> when the first block has no header to read.\<close>

definition concat_nalus :: "u8 list list \<Rightarrow> u8 list \<Rightarrow> u8 list list option" where
  "concat_nalus m1 m2 =
     (if m1 = [] \<or> hd m1 = [] then None
      else let m = (if nal_header_get_type (hd (hd m1)) \<noteq> TYPE_STAP_A then prepend_stapa m1 else m1)
      in Some (m @ [put_nal_size (int (length m2)), m2]))"

definition prepend_fu_indicator_and_header ::
  "u8 list \<Rightarrow> u8 \<Rightarrow> bool \<Rightarrow> bool \<Rightarrow> u8 \<Rightarrow> u8 list list" where
  "prepend_fu_indicator_and_header m indicator start end type =
     [[indicator, (if start then 0x80 else 0) OR (if end then 0x40 else 0) OR type],
      (if start then tl m else m)]"

definition send_packet :: "u32 \<Rightarrow> u8 list list \<Rightarrow> bool \<Rightarrow> ms_msg" where
  "send_packet ts m marker = \<lparr>mm_blocks = m, mm_ts = ts, mm_marker = marker\<rparr>"

text \<open>The loop, with what is left of the unit; it does not end when a payload has no room.\<close>

function frag_loop :: "int \<Rightarrow> u8 \<Rightarrow> u8 \<Rightarrow> u32 \<Rightarrow> bool \<Rightarrow> bool \<Rightarrow> u8 list \<Rightarrow> ms_msg list option" where
  "frag_loop pmax ind type ts marker start nalu =
     (if int (length nalu) > pmax then
        if pmax \<le> 0 then None
        else do {
          rest \<leftarrow> frag_loop pmax ind type ts marker False (drop (nat pmax) nalu);
          Some (send_packet ts (prepend_fu_indicator_and_header (take (nat pmax) nalu) ind start False type) False # rest) }
      else Some [send_packet ts (prepend_fu_indicator_and_header nalu ind False True type) marker])"
  by auto
termination by (relation "measure (\<lambda>(_, _, _, _, _, _, nalu). length nalu)") auto

declare frag_loop.simps [simp del]

definition frag_nalu_and_send :: "u32 \<Rightarrow> u8 list \<Rightarrow> bool \<Rightarrow> int \<Rightarrow> ms_msg list option" where
  "frag_nalu_and_send ts nalu marker maxsize =
     (if nalu = [] then None
      else frag_loop (maxsize - 2) (nal_header_init (nal_header_get_nri (hd nalu)) TYPE_FU_A)
             (nal_header_get_type (hd nalu)) ts marker True nalu)"

primrec rfc3984_pack_mode_0 :: "u8 list list \<Rightarrow> u32 \<Rightarrow> ms_msg list" where
  "rfc3984_pack_mode_0 [] ts = []"
| "rfc3984_pack_mode_0 (m # naluq) ts = send_packet ts [m] (naluq = []) # rfc3984_pack_mode_0 naluq ts"

text \<open>A unit that is not aggregated.\<close>

definition send_alone :: "rfc3984_ctx \<Rightarrow> u32 \<Rightarrow> u8 list \<Rightarrow> bool \<Rightarrow> ms_msg list option" where
  "send_alone ctx ts m end =
     (if int (length m) > maxsz ctx then frag_nalu_and_send ts m end (maxsz ctx)
      else Some [send_packet ts [m] end])"

text \<open>\<open>prevm\<close> is the message that waits for the next unit, \<open>prevsz\<close> its size as an aggregate.\<close>

fun rfc3984_pack_mode_1 ::
  "rfc3984_ctx \<Rightarrow> u32 \<Rightarrow> u8 list list option \<Rightarrow> int \<Rightarrow> u8 list list \<Rightarrow> ms_msg list option" where
  "rfc3984_pack_mode_1 ctx ts None prevsz [] = Some []"
| "rfc3984_pack_mode_1 ctx ts (Some prevm) prevsz [] = Some [send_packet ts prevm True]"
| "rfc3984_pack_mode_1 ctx ts prevm prevsz (m # naluq) =
     (let sz = int (length m)
      in if stap_a_allowed ctx then
           if prevm \<noteq> None \<and> prevsz + sz < maxsz ctx - 2
           then do {
             q \<leftarrow> concat_nalus (the prevm) m;
             rfc3984_pack_mode_1 ctx ts (Some q) (prevsz + (sz + 2)) naluq }
           else do {
             let sent = (case prevm of None \<Rightarrow> ([] :: ms_msg list) | Some p \<Rightarrow> [send_packet ts p False]);
             rest \<leftarrow>
               (if sz < c_div (maxsz ctx) 2
                then rfc3984_pack_mode_1 ctx ts (Some [m]) (sz + 3) naluq
                else do {
                  one \<leftarrow> send_alone ctx ts m (naluq = []);
                  more \<leftarrow> rfc3984_pack_mode_1 ctx ts None 0 naluq;
                  Some (one @ more) });
             Some (sent @ rest) }
         else do {
           one \<leftarrow> send_alone ctx ts m (naluq = []);
           more \<leftarrow> rfc3984_pack_mode_1 ctx ts prevm prevsz naluq;
           Some (one @ more) })"

text \<open>The packets for a frame's units; an unknown mode only logs.\<close>

definition rfc3984_pack :: "rfc3984_ctx \<Rightarrow> u8 list list \<Rightarrow> u32 \<Rightarrow> ms_msg list option" where
  "rfc3984_pack ctx naluq ts =
     (if pack_mode ctx = 0 then Some (rfc3984_pack_mode_0 naluq ts)
      else if pack_mode ctx = 1 then rfc3984_pack_mode_1 ctx ts None 0 naluq
      else Some [])"

section \<open>Unpacking\<close>

text \<open>The units of an aggregation packet; a size that goes past the end stops the loop.\<close>

function split_stap :: "u8 list \<Rightarrow> u8 list list option" where
  "split_stap [] = Some []"
| "split_stap [x] = None"
| "split_stap (x # y # p) =
     (let sz = unat (be16 [x, y])
      in if sz > length p then Some []
         else do { rest \<leftarrow> split_stap (drop sz p); Some (take sz p # rest) })"
  by pat_completeness auto
termination by (relation "measure length") auto

definition aggregate_fua :: "rfc3984_ctx \<Rightarrow> u8 list \<Rightarrow> (u8 list option \<times> rfc3984_ctx) option" where
  "aggregate_fua ctx im =
     (if length im < 2 then None
      else
        let fu_header = im ! 1;
            type = nal_header_get_type fu_header;
            start = bit fu_header 7;
            end = bit fu_header 6;
            m = (if start then Some (nal_header_init (nal_header_get_nri (im ! 0)) type # drop 2 im)
                 else map_option (\<lambda>m. m @ drop 2 im) (nal_m ctx))
        in if end \<and> m \<noteq> None then Some (m, ctx\<lparr>nal_m := None\<rparr>)
           else Some (None, ctx\<lparr>nal_m := m\<rparr>))"

text \<open>The units that come out, and the context.\<close>

definition rfc3984_unpack :: "rfc3984_ctx \<Rightarrow> ms_msg \<Rightarrow> (u8 list list \<times> rfc3984_ctx) option" where
  "rfc3984_unpack ctx im =
     (let bs = concat (mm_blocks im); ts = mm_ts im
      in if mm_blocks im = [] \<or> hd (mm_blocks im) = [] then None
         else do {
           let type = nal_header_get_type (hd (hd (mm_blocks im)));
           let (out1, c1) =
             (if last_ts ctx \<noteq> ts then
                if nal_m ctx = None then (nal_q ctx, ctx\<lparr>last_ts := ts, nal_q := []\<rparr>)
                else ([], ctx\<lparr>last_ts := ts\<rparr>)
              else ([], ctx));
           c2 \<leftarrow>
             (if type = TYPE_STAP_A then do {
                nals \<leftarrow> split_stap (tl bs);
                Some (c1\<lparr>nal_q := nal_q c1 @ nals\<rparr>) }
              else if type = TYPE_FU_A then do {
                (nal, c) \<leftarrow> aggregate_fua c1 bs;
                Some (case nal of None \<Rightarrow> c | Some n \<Rightarrow> c\<lparr>nal_q := nal_q c @ [n]\<rparr>) }
              else Some (c1\<lparr>nal_m := None, nal_q := nal_q c1 @ [bs]\<rparr>));
           if mm_marker im then Some (out1 @ nal_q c2, c2\<lparr>last_ts := ts, nal_q := []\<rparr>)
           else Some (out1, c2) })"

primrec unpack_run :: "ms_msg list \<Rightarrow> rfc3984_ctx \<Rightarrow> (u8 list list \<times> rfc3984_ctx) option" where
  "unpack_run [] ctx = Some ([], ctx)"
| "unpack_run (p # ps) ctx = do {
     (out1, c1) \<leftarrow> rfc3984_unpack ctx p;
     (out2, c2) \<leftarrow> unpack_run ps c1;
     Some (out1 @ out2, c2) }"

section \<open>Headers\<close>

text \<open>A unit that can be carried: not empty, forbidden bit clear, not of a packet type.\<close>

definition nal_ok :: "u8 list \<Rightarrow> bool" where
  "nal_ok n \<longleftrightarrow> n \<noteq> [] \<and> \<not> bit (hd n) 7 \<and>
     nal_header_get_type (hd n) \<noteq> TYPE_STAP_A \<and> nal_header_get_type (hd n) \<noteq> TYPE_FU_A"

text \<open>Facts on all bits of a byte reduce to eight numerals.\<close>

lemma nat_less_8: "n < (8 :: nat) \<longleftrightarrow> n = 0 \<or> n = 1 \<or> n = 2 \<or> n = 3 \<or> n = 4 \<or> n = 5 \<or> n = 6 \<or> n = 7"
  by auto

lemmas nal_header_defs = nal_header_init_def nal_header_get_type_def nal_header_get_nri_def

lemma byte_eqI: "(\<And>n. n < 8 \<Longrightarrow> bit (a :: u8) n = bit b n) \<Longrightarrow> a = b"
  by (rule bit_word_eqI) simp

lemma nal_header_rebuild:
  assumes "\<not> bit h 7"
  shows "nal_header_init (nal_header_get_nri (nal_header_init (nal_header_get_nri h) t)) (nal_header_get_type h) = h"
  using assms by (intro byte_eqI) (auto simp: nal_header_defs bit_simps nat_less_8)

lemma init_type: "nal_header_get_type (nal_header_init nri t) = t AND 31"
  by (rule byte_eqI) (auto simp: nal_header_defs bit_simps nat_less_8)

lemma stap_type: "nal_header_get_type (nal_header_init nri TYPE_STAP_A) = TYPE_STAP_A"
  by (simp add: init_type TYPE_STAP_A_def)

lemma fu_type: "nal_header_get_type (nal_header_init nri TYPE_FU_A) = TYPE_FU_A"
  by (simp add: init_type TYPE_FU_A_def)

lemma fu_header_fields:
  fixes t :: u8
  defines "h s e \<equiv> (if s then 0x80 else 0) OR (if e then 0x40 else 0) OR (t AND 31)"
  shows "nal_header_get_type (h s e) = t AND 31" "bit (h s e) 7 = s" "bit (h s e) 6 = e"
proof -
  show "nal_header_get_type (h s e) = t AND 31"
    unfolding h_def nal_header_get_type_def
    by (rule byte_eqI) (auto simp: bit_simps nat_less_8)
  show "bit (h s e) 7 = s" "bit (h s e) 6 = e"
    unfolding h_def by (auto simp: bit_simps)
qed

section \<open>What packets carry\<close>

text \<open>
  The packets \<open>ps\<close> bring the units \<open>ns\<close> to an unpacker that holds no fragment: they
  join what waits in its queue, and all comes out when the last packet has the marker.
\<close>

definition brings :: "u32 \<Rightarrow> bool \<Rightarrow> ms_msg list \<Rightarrow> u8 list list \<Rightarrow> bool" where
  "brings ts mk ps ns \<longleftrightarrow> (\<forall>ctx. nal_m ctx = None \<and> (nal_q ctx = [] \<or> last_ts ctx = ts) \<longrightarrow>
     unpack_run ps ctx =
       Some (if mk then nal_q ctx @ ns else [],
             ctx\<lparr>last_ts := ts, nal_q := if mk then [] else nal_q ctx @ ns\<rparr>))"

definition last_marked :: "bool \<Rightarrow> ms_msg list \<Rightarrow> bool" where
  "last_marked mk ps \<longleftrightarrow> ps \<noteq> [] \<and> map mm_marker ps = replicate (length ps - 1) False @ [mk]"

definition fits :: "int \<Rightarrow> ms_msg list \<Rightarrow> bool" where
  "fits n ps \<longleftrightarrow> (\<forall>p \<in> set ps. blocks_size (mm_blocks p) \<le> n)"

definition carries :: "rfc3984_ctx \<Rightarrow> u32 \<Rightarrow> bool \<Rightarrow> ms_msg list \<Rightarrow> u8 list list \<Rightarrow> bool" where
  "carries ctx ts mk ps ns \<longleftrightarrow> brings ts mk ps ns \<and> last_marked mk ps \<and> fits (maxsz ctx) ps"

lemma unpack_run_append:
  "unpack_run (ps @ qs) ctx = do {
     (out1, c1) \<leftarrow> unpack_run ps ctx;
     (out2, c2) \<leftarrow> unpack_run qs c1;
     Some (out1 @ out2, c2) }"
  by (induction ps arbitrary: ctx) (auto split: bind_splits prod.splits)

lemma brings_append:
  assumes "brings ts False ps ns" and "brings ts mk qs ms"
  shows "brings ts mk (ps @ qs) (ns @ ms)"
  using assms unfolding brings_def unpack_run_append by simp

lemma last_marked_append:
  assumes "last_marked False ps" and "last_marked mk qs"
  shows "last_marked mk (ps @ qs)"
proof -
  have "replicate (length ps - 1) False @ [False] = replicate (length ps) False"
    using assms(1) unfolding last_marked_def
    by (metis One_nat_def Suc_pred length_greater_0_conv replicate_Suc replicate_append_same)
  then show ?thesis
    using assms unfolding last_marked_def
    by (simp add: replicate_add [symmetric] flip: append_assoc)
       (cases qs, simp_all)
qed

lemma fits_append [simp]: "fits n (ps @ qs) \<longleftrightarrow> fits n ps \<and> fits n qs"
  by (auto simp: fits_def)

lemma carries_append:
  "carries ctx ts False ps ns \<Longrightarrow> carries ctx ts mk qs ms \<Longrightarrow> carries ctx ts mk (ps @ qs) (ns @ ms)"
  unfolding carries_def using brings_append last_marked_append by simp

lemma blocks_size_eq [simp]: "blocks_size m = int (length (concat m))"
  by (simp add: blocks_size_def length_concat)

lemma send_packet_fields [simp]:
  "mm_blocks (send_packet ts m mk) = m" "mm_marker (send_packet ts m mk) = mk"
  "mm_ts (send_packet ts m mk) = ts"
  by (simp_all add: send_packet_def)

lemma last_marked_one: "last_marked mk [send_packet ts m mk]"
  by (simp add: last_marked_def)

subsection \<open>One packet\<close>

text \<open>A packet that adds complete units to the queue.\<close>

lemma brings_one:
  assumes "m \<noteq> []" "hd m \<noteq> []"
    and "\<And>c. nal_m c = None \<Longrightarrow>
      (if nal_header_get_type (hd (hd m)) = TYPE_STAP_A then do {
         nals \<leftarrow> split_stap (tl (concat m)); Some (c\<lparr>nal_q := nal_q c @ nals\<rparr>) }
       else if nal_header_get_type (hd (hd m)) = TYPE_FU_A then do {
         (nal, c') \<leftarrow> aggregate_fua c (concat m);
         Some (case nal of None \<Rightarrow> c' | Some n \<Rightarrow> c'\<lparr>nal_q := nal_q c' @ [n]\<rparr>) }
       else Some (c\<lparr>nal_m := None, nal_q := nal_q c @ [concat m]\<rparr>)) = Some (c\<lparr>nal_q := nal_q c @ ns\<rparr>)"
  shows "brings ts mk [send_packet ts m mk] ns"
  using assms(1,2) unfolding brings_def
  by (auto simp: rfc3984_unpack_def send_packet_def Let_def assms(3))

lemma brings_single:
  assumes "nal_ok n"
  shows "brings ts mk [send_packet ts [n] mk] [n]"
proof (rule brings_one)
  fix c :: rfc3984_ctx
  assume "nal_m c = None"
  then have "c\<lparr>nal_m := None\<rparr> = c" by (cases c) simp
  then show "(if nal_header_get_type (hd (hd [n])) = TYPE_STAP_A then do {
         nals \<leftarrow> split_stap (tl (concat [n])); Some (c\<lparr>nal_q := nal_q c @ nals\<rparr>) }
       else if nal_header_get_type (hd (hd [n])) = TYPE_FU_A then do {
         (nal, c') \<leftarrow> aggregate_fua c (concat [n]);
         Some (case nal of None \<Rightarrow> c' | Some n \<Rightarrow> c'\<lparr>nal_q := nal_q c' @ [n]\<rparr>) }
       else Some (c\<lparr>nal_m := None, nal_q := nal_q c @ [concat [n]]\<rparr>)) = Some (c\<lparr>nal_q := nal_q c @ [n]\<rparr>)"
    using assms by (simp add: nal_ok_def)
qed (use assms in \<open>simp_all add: nal_ok_def\<close>)

subsection \<open>Aggregation packets\<close>

definition stap_entries :: "u8 list list \<Rightarrow> u8 list" where
  "stap_entries ns = concat (map (\<lambda>n. put_nal_size (int (length n)) @ n) ns)"

lemma stap_entries_simps [simp]:
  "stap_entries [] = []"
  "stap_entries (n # ns) = put_nal_size (int (length n)) @ n @ stap_entries ns"
  "stap_entries (ns @ ms) = stap_entries ns @ stap_entries ms"
  by (simp_all add: stap_entries_def)

lemma split_stap_entry:
  assumes "length n < 65536"
  shows "split_stap (put_nal_size (int (length n)) @ n @ r) = map_option ((#) n) (split_stap r)"
proof -
  define w where "w = (of_int (int (length n)) :: u16)"
  have "unat w = length n"
    unfolding w_def using assms by (simp add: unat_of_nat)
  moreover obtain x y where xy: "be16_bytes w = [x, y]"
    by (auto simp: be16_bytes_def le16_bytes_def)
  moreover have "be16 [x, y] = w"
    unfolding xy [symmetric] by (simp add: be16_def be16_bytes_def)
  ultimately show ?thesis
    unfolding put_nal_size_def w_def [symmetric] by (cases "split_stap r") (simp_all add: Let_def)
qed

lemma split_stap_entries:
  "\<forall>n \<in> set ns. length n < 65536 \<Longrightarrow> split_stap (stap_entries ns) = Some ns"
  by (induction ns) (simp_all add: split_stap_entry)

lemma brings_stap:
  assumes "m \<noteq> []" "hd m \<noteq> []" "nal_header_get_type (hd (hd m)) = TYPE_STAP_A"
    and "tl (concat m) = stap_entries ns" and "\<forall>n \<in> set ns. length n < 65536"
  shows "brings ts mk [send_packet ts m mk] ns"
  by (rule brings_one) (simp_all add: assms split_stap_entries)

text \<open>The message that waits while units are aggregated, and the units in it.\<close>

definition waiting ::
  "rfc3984_ctx \<Rightarrow> u8 list list option \<Rightarrow> int \<Rightarrow> u8 list list \<Rightarrow> bool" where
  "waiting ctx prevm prevsz pn \<longleftrightarrow>
     (case prevm of None \<Rightarrow> pn = []
      | Some p \<Rightarrow> stap_a_allowed ctx \<and>
          ((\<exists>n. pn = [n] \<and> p = [n] \<and> nal_ok n \<and> prevsz = int (length n) + 3 \<and> int (length n) \<le> maxsz ctx) \<or>
           (pn \<noteq> [] \<and> p \<noteq> [] \<and> hd p \<noteq> [] \<and> nal_header_get_type (hd (hd p)) = TYPE_STAP_A \<and>
            tl (concat p) = stap_entries pn \<and> prevsz = int (length (concat p)) \<and> prevsz \<le> maxsz ctx \<and>
            (\<forall>n \<in> set pn. length n < 65536))))"

lemma waiting_carries:
  assumes "waiting ctx (Some p) prevsz pn"
  shows "carries ctx ts mk [send_packet ts p mk] pn"
  using assms unfolding carries_def waiting_def
  by (auto simp: last_marked_one fits_def brings_single brings_stap)

lemma length_put_nal_size [simp]: "length (put_nal_size sz) = 2"
  by (simp add: put_nal_size_def be16_bytes_def)

lemma tl_concat: "m \<noteq> [] \<Longrightarrow> hd m \<noteq> [] \<Longrightarrow> tl (concat (m @ k)) = tl (concat m) @ concat k"
  by (cases m) auto

lemma waiting_concat:
  assumes "waiting ctx (Some p) prevsz pn"
    and "prevsz + int (length m) < maxsz ctx - 2" and "maxsz ctx \<le> 65535"
  shows "\<exists>q. concat_nalus p m = Some q \<and> waiting ctx (Some q) (prevsz + (int (length m) + 2)) (pn @ [m])"
proof -
  consider n where "pn = [n]" "p = [n]" "nal_ok n" "prevsz = int (length n) + 3"
    | "pn \<noteq> []" "p \<noteq> []" "hd p \<noteq> []" "nal_header_get_type (hd (hd p)) = TYPE_STAP_A"
      "tl (concat p) = stap_entries pn" "prevsz = int (length (concat p))" "\<forall>n \<in> set pn. length n < 65536"
    using assms(1) unfolding waiting_def by auto
  then show ?thesis
  proof cases
    case 1
    then show ?thesis
      using assms
      by (auto simp: concat_nalus_def nal_ok_def prepend_stapa_def waiting_def Let_def stap_type)
  next
    case 2
    then show ?thesis
      using assms tl_concat [of p "[put_nal_size (int (length m)), m]"]
      by (auto simp: concat_nalus_def waiting_def Let_def hd_append)
  qed
qed

subsection \<open>Fragments\<close>

lemma fu_payload:
  "concat (prepend_fu_indicator_and_header m ind s e t) =
     ind # ((if s then 0x80 else 0) OR (if e then 0x40 else 0) OR t) # (if s then tl m else m)"
  by (simp add: prepend_fu_indicator_and_header_def)

lemma unpack_fragment:
  assumes "nal_header_get_type ind = TYPE_FU_A" and "t AND 31 = t"
  shows "rfc3984_unpack ctx (send_packet ts (prepend_fu_indicator_and_header m ind s e t) mk) =
    (let (out1, c1) = (if last_ts ctx \<noteq> ts then
                if nal_m ctx = None then (nal_q ctx, ctx\<lparr>last_ts := ts, nal_q := []\<rparr>)
                else ([], ctx\<lparr>last_ts := ts\<rparr>)
              else ([], ctx));
         f = (if s then Some (nal_header_init (nal_header_get_nri ind) t # tl m)
              else map_option (\<lambda>a. a @ m) (nal_m ctx));
         c2 = (if e \<and> f \<noteq> None then c1\<lparr>nal_m := None, nal_q := nal_q c1 @ [the f]\<rparr>
               else c1\<lparr>nal_m := f\<rparr>)
     in if mk then Some (out1 @ nal_q c2, c2\<lparr>last_ts := ts, nal_q := []\<rparr>) else Some (out1, c2))"
proof -
  obtain h where h: "concat (prepend_fu_indicator_and_header m ind s e t) =
      ind # h # (if s then tl m else m)"
    and fields: "nal_header_get_type h = t" "bit h 7 = s" "bit h 6 = e"
    using fu_header_fields [where t = t and s = s and e = e] assms(2)
    unfolding fu_payload by metis
  have "TYPE_FU_A \<noteq> TYPE_STAP_A" by (simp add: TYPE_FU_A_def TYPE_STAP_A_def)
  moreover have "hd (prepend_fu_indicator_and_header m ind s e t) \<noteq> []"
    "prepend_fu_indicator_and_header m ind s e t \<noteq> []"
    "hd (hd (prepend_fu_indicator_and_header m ind s e t)) = ind"
    by (simp_all add: prepend_fu_indicator_and_header_def)
  ultimately show ?thesis
    unfolding rfc3984_unpack_def send_packet_fields h
    by (simp add: assms(1) aggregate_fua_def fields Let_def split: option.splits)
qed

text \<open>Fragments that follow a held beginning complete it.\<close>

definition completes :: "u32 \<Rightarrow> bool \<Rightarrow> ms_msg list \<Rightarrow> u8 list \<Rightarrow> bool" where
  "completes ts mk ps n \<longleftrightarrow> (\<forall>ctx a. nal_m ctx = Some a \<and> last_ts ctx = ts \<longrightarrow>
     unpack_run ps ctx =
       Some (if mk then nal_q ctx @ [a @ n] else [],
             ctx\<lparr>nal_m := None, nal_q := if mk then [] else nal_q ctx @ [a @ n]\<rparr>))"

lemma last_marked_Cons: "last_marked mk ps \<Longrightarrow> last_marked mk (send_packet ts m False # ps)"
  by (cases ps) (auto simp: last_marked_def)

lemma frag_rest:
  assumes "0 < pmax" and "nal_header_get_type ind = TYPE_FU_A" and "t AND 31 = t"
  shows "\<exists>ps. frag_loop pmax ind t ts mk False n = Some ps \<and> last_marked mk ps \<and>
    fits (pmax + 2) ps \<and> completes ts mk ps n"
proof (induction n rule: length_induct)
  case (1 n)
  show ?case
  proof (cases "int (length n) > pmax")
    case True
    then have "length (drop (nat pmax) n) < length n" using assms(1) by simp
    with 1 obtain ps where ps: "frag_loop pmax ind t ts mk False (drop (nat pmax) n) = Some ps"
      "last_marked mk ps" "fits (pmax + 2) ps" "completes ts mk ps (drop (nat pmax) n)" by blast
    let ?p = "send_packet ts (prepend_fu_indicator_and_header (take (nat pmax) n) ind False False t) False"
    have "completes ts mk (?p # ps) n"
      using ps(4) unfolding completes_def
      by (simp add: unpack_fragment [OF assms(2,3)])
    moreover have "frag_loop pmax ind t ts mk False n = Some (?p # ps)"
      using True assms(1) ps(1) by (subst frag_loop.simps) simp
    moreover have "fits (pmax + 2) (?p # ps)"
      using ps(3) True assms(1) by (simp add: fits_def fu_payload)
    ultimately show ?thesis using last_marked_Cons [OF ps(2)] by blast
  next
    case False
    let ?p = "send_packet ts (prepend_fu_indicator_and_header n ind False True t) mk"
    have "frag_loop pmax ind t ts mk False n = Some [?p]"
      using False by (subst frag_loop.simps) simp
    moreover have "completes ts mk [?p] n"
      unfolding completes_def by (simp add: unpack_fragment [OF assms(2,3)])
    ultimately show ?thesis
      using False by (simp add: last_marked_one fits_def fu_payload)
  qed
qed

lemma frag_carries:
  assumes n: "nal_ok n" and m: "3 \<le> maxsz ctx" and big: "int (length n) > maxsz ctx"
  shows "\<exists>ps. frag_nalu_and_send ts n mk (maxsz ctx) = Some ps \<and> carries ctx ts mk ps [n]"
proof -
  define ind where "ind = nal_header_init (nal_header_get_nri (hd n)) TYPE_FU_A"
  define t where "t = nal_header_get_type (hd n)"
  define k where "k = nat (maxsz ctx - 2)"
  have it: "nal_header_get_type ind = TYPE_FU_A" "t AND 31 = t"
    unfolding ind_def t_def by (rule fu_type, simp add: nal_header_get_type_def and.assoc)
  have hdr: "nal_header_init (nal_header_get_nri ind) t = hd n"
    unfolding ind_def t_def using n by (simp add: nal_header_rebuild nal_ok_def)
  obtain ps where ps: "frag_loop (maxsz ctx - 2) ind t ts mk False (drop k n) = Some ps"
    "last_marked mk ps" "fits (maxsz ctx) ps" "completes ts mk ps (drop k n)"
    using frag_rest [OF _ it, of "maxsz ctx - 2" ts mk "drop k n"] m by auto
  let ?p = "send_packet ts (prepend_fu_indicator_and_header (take k n) ind True False t) False"
  have "hd n # tl (take k n) @ drop k n = n"
    using m n by (cases n; cases k) (auto simp: k_def nal_ok_def)
  then have "brings ts mk (?p # ps) [n]"
    using ps(4) unfolding brings_def completes_def
    by (auto simp: unpack_fragment [OF it] hdr)
  moreover have "frag_nalu_and_send ts n mk (maxsz ctx) = Some (?p # ps)"
    unfolding frag_nalu_and_send_def ind_def [symmetric] t_def [symmetric]
    using ps(1) m big n by (subst frag_loop.simps) (simp add: nal_ok_def k_def)
  moreover have "fits (maxsz ctx) (?p # ps)"
    using ps(3) m big by (simp add: fits_def fu_payload k_def)
  ultimately show ?thesis using last_marked_Cons [OF ps(2)] by (auto simp: carries_def)
qed

lemma send_alone_carries:
  assumes "nal_ok n" and "3 \<le> maxsz ctx"
  shows "\<exists>ps. send_alone ctx ts n mk = Some ps \<and> carries ctx ts mk ps [n]"
proof (cases "int (length n) > maxsz ctx")
  case True
  then show ?thesis using frag_carries [OF assms] by (simp add: send_alone_def)
next
  case False
  then show ?thesis
    using assms by (simp add: send_alone_def carries_def brings_single last_marked_one fits_def)
qed

section \<open>Packing and unpacking a frame\<close>

lemma c_div_2_le: "0 \<le> n \<Longrightarrow> c_div n 2 \<le> n"
  by (simp add: c_div_def)

lemma pack_mode_1_carries:
  assumes "waiting ctx prevm prevsz pn" and "\<forall>n \<in> set ns. nal_ok n"
    and "pn \<noteq> [] \<or> ns \<noteq> []" and m: "3 \<le> maxsz ctx" "maxsz ctx \<le> 65535"
  shows "\<exists>ps. rfc3984_pack_mode_1 ctx ts prevm prevsz ns = Some ps \<and> carries ctx ts True ps (pn @ ns)"
  using assms(1-3)
proof (induction ns arbitrary: prevm prevsz pn)
  case Nil
  then obtain p where "prevm = Some p" by (cases prevm) (auto simp: waiting_def)
  then show ?case using Nil.prems waiting_carries [of ctx p prevsz pn ts True] by simp
next
  case (Cons n ns)
  have n: "nal_ok n" "\<forall>n \<in> set ns. nal_ok n" using Cons.prems by auto
  have none: "waiting ctx None z []" for z by (simp add: waiting_def)
  have alone: "\<exists>ps. (do { one \<leftarrow> send_alone ctx ts n (ns = []);
                more \<leftarrow> rfc3984_pack_mode_1 ctx ts None z ns;
                Some (one @ more) }) = Some ps \<and> carries ctx ts True ps (n # ns)" for z
  proof -
    obtain one where one: "send_alone ctx ts n (ns = []) = Some one" "carries ctx ts (ns = []) one [n]"
      using send_alone_carries [OF n(1) m(1)] by blast
    show ?thesis
    proof (cases "ns = []")
      case True
      then show ?thesis using one by simp
    next
      case False
      then obtain more where "rfc3984_pack_mode_1 ctx ts None z ns = Some more" "carries ctx ts True more ns"
        using Cons.IH [OF none n(2)] by auto
      then show ?thesis
        using one False carries_append [of ctx ts one "[n]" True more ns] by simp
    qed
  qed
  show ?case
  proof (cases "stap_a_allowed ctx")
    case False
    then have "prevm = None" "pn = []"
      using Cons.prems(1) by (auto simp: waiting_def split: option.splits)
    then show ?thesis using alone False by simp
  next
    case allowed: True
    have restart: "\<exists>ps. (if int (length n) < c_div (maxsz ctx) 2
                then rfc3984_pack_mode_1 ctx ts (Some [n]) (int (length n) + 3) ns
                else do {
                  one \<leftarrow> send_alone ctx ts n (ns = []);
                  more \<leftarrow> rfc3984_pack_mode_1 ctx ts None 0 ns;
                  Some (one @ more) }) = Some ps \<and> carries ctx ts True ps (n # ns)"
    proof (cases "int (length n) < c_div (maxsz ctx) 2")
      case True
      then have "waiting ctx (Some [n]) (int (length n) + 3) [n]"
        using n m allowed c_div_2_le [of "maxsz ctx"] by (simp add: waiting_def)
      then show ?thesis using Cons.IH [of "Some [n]" _ "[n]", OF _ n(2)] True by auto
    qed (use alone in simp)
    show ?thesis
    proof (cases "prevm \<noteq> None \<and> prevsz + int (length n) < maxsz ctx - 2")
      case True
      then obtain p where p: "prevm = Some p" by auto
      obtain q where "concat_nalus p n = Some q"
        "waiting ctx (Some q) (prevsz + (int (length n) + 2)) (pn @ [n])"
        using waiting_concat [OF _ _ m(2)] Cons.prems(1) True p by blast
      then show ?thesis using Cons.IH [of "Some q" _ "pn @ [n]", OF _ n(2)] True p allowed by auto
    next
      case False
      from restart obtain ps where ps: "(if int (length n) < c_div (maxsz ctx) 2
                then rfc3984_pack_mode_1 ctx ts (Some [n]) (int (length n) + 3) ns
                else do {
                  one \<leftarrow> send_alone ctx ts n (ns = []);
                  more \<leftarrow> rfc3984_pack_mode_1 ctx ts None 0 ns;
                  Some (one @ more) }) = Some ps" "carries ctx ts True ps (n # ns)" by blast
      have "rfc3984_pack_mode_1 ctx ts prevm prevsz (n # ns) =
          Some ((case prevm of None \<Rightarrow> [] | Some p \<Rightarrow> [send_packet ts p False]) @ ps)"
        unfolding rfc3984_pack_mode_1.simps Let_def if_not_P [OF False]
        using allowed ps(1) by (simp del: option_bind_Some_iff)
      moreover have "carries ctx ts True
          ((case prevm of None \<Rightarrow> [] | Some p \<Rightarrow> [send_packet ts p False]) @ ps) (pn @ n # ns)"
      proof (cases prevm)
        case None
        then show ?thesis using Cons.prems(1) ps(2) by (simp add: waiting_def)
      next
        case (Some p)
        then show ?thesis
          using carries_append [OF waiting_carries ps(2), of p prevsz pn] Cons.prems(1) by simp
      qed
      ultimately show ?thesis by blast
    qed
  qed
qed

lemma pack_mode_0_brings:
  "\<forall>n \<in> set ns. nal_ok n \<Longrightarrow> ns \<noteq> [] \<Longrightarrow>
   brings ts True (rfc3984_pack_mode_0 ns ts) ns \<and> last_marked True (rfc3984_pack_mode_0 ns ts)"
proof (induction ns)
  case (Cons n ns)
  then have "brings ts (ns = []) [send_packet ts [n] (ns = [])] [n]" by (simp add: brings_single)
  then show ?case
    using Cons brings_append [of ts "[send_packet ts [n] False]" "[n]" True _ ns]
      last_marked_Cons [of True _ ts "[n]"]
    by (cases "ns = []") (auto simp: last_marked_one)
qed simp

text \<open>
  C11. A frame's NAL units that are packed for the network (mode 0, or mode 1 with aggregation and
  fragmentation) and unpacked by a receiver in its idle state come out as they went in, all of them
  with the packet that has the marker; nothing is left in the receiver.
\<close>

theorem h264_frame_round_trip:
  assumes "pack_mode ctx = 0 \<or> pack_mode ctx = 1 \<and> 3 \<le> maxsz ctx \<and> maxsz ctx \<le> 65535"
    and "ns \<noteq> []" and "\<forall>n \<in> set ns. nal_ok n"
    and "nal_q rx = []" and "nal_m rx = None"
  shows "\<exists>ps. rfc3984_pack ctx ns ts = Some ps \<and>
    unpack_run ps rx = Some (ns, rx\<lparr>last_ts := ts\<rparr>)"
proof -
  have "\<exists>ps. rfc3984_pack ctx ns ts = Some ps \<and> brings ts True ps ns"
    using assms(1-3) pack_mode_0_brings [of ns ts] pack_mode_1_carries [of ctx None 0 "[]" ns ts]
    by (auto simp: rfc3984_pack_def waiting_def carries_def)
  moreover have "rx\<lparr>last_ts := ts, nal_q := []\<rparr> = rx\<lparr>last_ts := ts\<rparr>"
    using assms(4) by (cases rx) simp
  ultimately show ?thesis using assms(4,5) by (auto simp: brings_def)
qed

lemma h264_frame_round_trip_witness:
  "\<exists>ps. rfc3984_pack (rfc3984_set_mode 1 (rfc3984_init 5)) [[103, 66], [101, 1, 2, 3, 4, 5, 6, 7]] 90000 = Some ps \<and>
    unpack_run ps (rfc3984_init 1440) =
      Some ([[103, 66], [101, 1, 2, 3, 4, 5, 6, 7]], (rfc3984_init 1440)\<lparr>last_ts := 90000\<rparr>)"
  by (rule h264_frame_round_trip)
    (simp_all add: rfc3984_set_mode_def rfc3984_init_def nal_ok_def nal_header_get_type_def
      TYPE_STAP_A_def TYPE_FU_A_def)

text \<open>
  C12. In mode 1 packing ends and no packet is larger than the maximal payload, whatever the sizes of
  the units; the marker is on the frame's last packet and on no other.
\<close>

theorem h264_packets_fit:
  assumes "pack_mode ctx = 1" and "3 \<le> maxsz ctx" and "maxsz ctx \<le> 65535"
    and "ns \<noteq> []" and "\<forall>n \<in> set ns. nal_ok n"
  shows "\<exists>ps. rfc3984_pack ctx ns ts = Some ps \<and> ps \<noteq> [] \<and>
    (\<forall>p \<in> set ps. int (length (concat (mm_blocks p))) \<le> maxsz ctx) \<and>
    map mm_marker ps = replicate (length ps - 1) False @ [True]"
  using assms pack_mode_1_carries [of ctx None 0 "[]" ns ts]
  by (auto simp: rfc3984_pack_def waiting_def carries_def fits_def last_marked_def)

lemma h264_packets_fit_witness:
  "\<exists>ps. rfc3984_pack (rfc3984_set_mode 1 (rfc3984_init 5)) [[101, 1, 2, 3, 4, 5, 6, 7]] 0 = Some ps \<and>
    ps \<noteq> [] \<and> (\<forall>p \<in> set ps. int (length (concat (mm_blocks p))) \<le> maxsz (rfc3984_set_mode 1 (rfc3984_init 5))) \<and>
    map mm_marker ps = replicate (length ps - 1) False @ [True]"
  by (rule h264_packets_fit)
    (simp_all add: rfc3984_set_mode_def rfc3984_init_def nal_ok_def nal_header_get_type_def
      TYPE_STAP_A_def TYPE_FU_A_def)

end
