(* ===== verification/Ms_List.thy ===== *)
theory Ms_List
  imports Prelude
begin

text \<open>
  The lists of mediastreamer2, \<^verbatim>\<open>MSList\<close> of
  \<^verbatim>\<open>mediastreamer2/src/base/mscommon.c\<close>: doubly linked cells on a heap. A list is the
  pointer to its first cell, \<open>None\<close> when empty; following a pointer that is not allocated is
  \<open>None\<close>, so \<open>Some\<close> means that the operation ran without a fault. The section on
  refinement shows that every operation does on the sequence of data what its name says.
\<close>

section \<open>Cells\<close>

record ms_cell =
  l_next :: "ptr option"
  l_prev :: "ptr option"
  l_data :: ptr

record ms_heap =
  l_cells :: "ptr \<rightharpoonup> ms_cell"
  l_fresh :: ptr

definition l_upd :: "ptr \<Rightarrow> (ms_cell \<Rightarrow> ms_cell) \<Rightarrow> ms_heap \<Rightarrow> ms_heap option" where
  "l_upd p f h = (case l_cells h p of None \<Rightarrow> None
     | Some c \<Rightarrow> Some (h\<lparr>l_cells := (l_cells h)(p \<mapsto> f c)\<rparr>))"

definition l_free :: "ptr \<Rightarrow> ms_heap \<Rightarrow> ms_heap option" where
  "l_free p h = (if l_cells h p = None then None else Some (h\<lparr>l_cells := (l_cells h)(p := None)\<rparr>))"

definition ms_list_new :: "ptr \<Rightarrow> ms_heap \<Rightarrow> ptr \<times> ms_heap" where
  "ms_list_new data h = (l_fresh h,
     h\<lparr>l_cells := (l_cells h)(l_fresh h \<mapsto> \<lparr>l_next = None, l_prev = None, l_data = data\<rparr>),
       l_fresh := Suc (l_fresh h)\<rparr>)"

section \<open>Operations\<close>

partial_function (option) list_last :: "ptr \<Rightarrow> ms_heap \<Rightarrow> ptr option" where
  "list_last it h = do {
     c \<leftarrow> l_cells h it;
     case l_next c of None \<Rightarrow> Some it | Some x \<Rightarrow> list_last x h }"

text \<open>\<^verbatim>\<open>it->next=x; x->prev=it\<close>.\<close>

definition link_cells :: "ptr \<Rightarrow> ptr option \<Rightarrow> ms_heap \<Rightarrow> ms_heap option" where
  "link_cells it x h = do {
     h \<leftarrow> l_upd it (\<lambda>c. c\<lparr>l_next := x\<rparr>) h;
     x \<leftarrow> x;
     l_upd x (\<lambda>c. c\<lparr>l_prev := Some it\<rparr>) h }"

definition ms_list_append_link :: "ptr option \<Rightarrow> ptr option \<Rightarrow> ms_heap \<Rightarrow> (ptr option \<times> ms_heap) option" where
  "ms_list_append_link elem new_elem h =
     (case elem of None \<Rightarrow> Some (new_elem, h)
      | Some e \<Rightarrow> do {
          it \<leftarrow> list_last e h;
          h \<leftarrow> link_cells it new_elem h;
          Some (elem, h) })"

definition ms_list_append :: "ptr option \<Rightarrow> ptr \<Rightarrow> ms_heap \<Rightarrow> (ptr option \<times> ms_heap) option" where
  "ms_list_append elem data h =
     (let (new_elem, h) = ms_list_new data h in ms_list_append_link elem (Some new_elem) h)"

definition ms_list_prepend :: "ptr option \<Rightarrow> ptr \<Rightarrow> ms_heap \<Rightarrow> (ptr option \<times> ms_heap) option" where
  "ms_list_prepend elem data h =
     (let (new_elem, h) = ms_list_new data h
      in case elem of None \<Rightarrow> Some (Some new_elem, h)
         | Some e \<Rightarrow> do {
             h \<leftarrow> l_upd new_elem (\<lambda>c. c\<lparr>l_next := Some e\<rparr>) h;
             h \<leftarrow> l_upd e (\<lambda>c. c\<lparr>l_prev := Some new_elem\<rparr>) h;
             Some (Some new_elem, h) })"

definition ms_list_concat :: "ptr option \<Rightarrow> ptr option \<Rightarrow> ms_heap \<Rightarrow> (ptr option \<times> ms_heap) option" where
  "ms_list_concat first second h =
     (case first of None \<Rightarrow> Some (second, h)
      | Some f \<Rightarrow> do {
          it \<leftarrow> list_last f h;
          h \<leftarrow> link_cells it second h;
          Some (first, h) })"

partial_function (option) free_loop :: "ptr \<Rightarrow> ms_heap \<Rightarrow> ms_heap option" where
  "free_loop elem h = do {
     c \<leftarrow> l_cells h elem;
     case l_next c of None \<Rightarrow> l_free elem h
     | Some x \<Rightarrow> do { h \<leftarrow> l_free elem h; free_loop x h } }"

definition ms_list_free :: "ptr option \<Rightarrow> ms_heap \<Rightarrow> (ptr option \<times> ms_heap) option" where
  "ms_list_free list h =
     (case list of None \<Rightarrow> Some (None, h) | Some e \<Rightarrow> map_option (Pair None) (free_loop e h))"

partial_function (option) ms_list_find_custom ::
  "ptr option \<Rightarrow> (ptr \<Rightarrow> bool) \<Rightarrow> ms_heap \<Rightarrow> ptr option option" where
  "ms_list_find_custom list equal h =
     (case list of None \<Rightarrow> Some None
      | Some p \<Rightarrow> do {
          c \<leftarrow> l_cells h p;
          if equal (l_data c) then Some (Some p) else ms_list_find_custom (l_next c) equal h })"

definition ms_list_find :: "ptr option \<Rightarrow> ptr \<Rightarrow> ms_heap \<Rightarrow> ptr option option" where
  "ms_list_find list data = ms_list_find_custom list (\<lambda>d. d = data)"

definition ms_list_remove_link :: "ptr option \<Rightarrow> ptr \<Rightarrow> ms_heap \<Rightarrow> (ptr option \<times> ms_heap) option" where
  "ms_list_remove_link list elem h = do {
     c \<leftarrow> l_cells h elem;
     if Some elem = list then do {
       h \<leftarrow> (case l_next c of None \<Rightarrow> Some h | Some n \<Rightarrow> l_upd n (\<lambda>c. c\<lparr>l_prev := None\<rparr>) h);
       h \<leftarrow> l_free elem h;
       Some (l_next c, h) }
     else do {
       p \<leftarrow> l_prev c;
       h \<leftarrow> l_upd p (\<lambda>d. d\<lparr>l_next := l_next c\<rparr>) h;
       h \<leftarrow> (case l_next c of None \<Rightarrow> Some h | Some n \<Rightarrow> l_upd n (\<lambda>d. d\<lparr>l_prev := l_prev c\<rparr>) h);
       h \<leftarrow> l_free elem h;
       Some (list, h) } }"

definition ms_list_remove :: "ptr option \<Rightarrow> ptr \<Rightarrow> ms_heap \<Rightarrow> (ptr option \<times> ms_heap) option" where
  "ms_list_remove first data h = do {
     it \<leftarrow> ms_list_find first data h;
     case it of None \<Rightarrow> Some (first, h) | Some e \<Rightarrow> ms_list_remove_link first e h }"

text \<open>The data in order; \<^verbatim>\<open>ms_list_for_each\<close> calls its function on them.\<close>

partial_function (option) ms_list_for_each :: "ptr option \<Rightarrow> ms_heap \<Rightarrow> ptr list option" where
  "ms_list_for_each list h =
     (case list of None \<Rightarrow> Some []
      | Some p \<Rightarrow> do {
          c \<leftarrow> l_cells h p;
          ds \<leftarrow> ms_list_for_each (l_next c) h;
          Some (l_data c # ds) })"

partial_function (option) size_loop :: "ptr option \<Rightarrow> int \<Rightarrow> ms_heap \<Rightarrow> int option" where
  "size_loop list n h =
     (case list of None \<Rightarrow> Some n
      | Some p \<Rightarrow> do { c \<leftarrow> l_cells h p; size_loop (l_next c) (n + 1) h })"

definition ms_list_size :: "ptr option \<Rightarrow> ms_heap \<Rightarrow> int option" where
  "ms_list_size list = size_loop list 0"

partial_function (option) nth_loop :: "ptr option \<Rightarrow> int \<Rightarrow> int \<Rightarrow> ms_heap \<Rightarrow> ptr option option" where
  "nth_loop list i index h =
     (case list of None \<Rightarrow> Some None
      | Some p \<Rightarrow> do {
          c \<leftarrow> l_cells h p;
          if i = index then Some (Some (l_data c)) else nth_loop (l_next c) (i + 1) index h })"

definition ms_list_nth_data :: "ptr option \<Rightarrow> int \<Rightarrow> ms_heap \<Rightarrow> ptr option option" where
  "ms_list_nth_data list index = nth_loop list 0 index"

text \<open>The index of the first cell that passes, -1 for none.\<close>

partial_function (option) position_loop ::
  "ptr option \<Rightarrow> int \<Rightarrow> (ptr \<Rightarrow> ms_cell \<Rightarrow> bool) \<Rightarrow> ms_heap \<Rightarrow> int option" where
  "position_loop list i test h =
     (case list of None \<Rightarrow> Some (-1)
      | Some p \<Rightarrow> do {
          c \<leftarrow> l_cells h p;
          if test p c then Some i else position_loop (l_next c) (i + 1) test h })"

definition ms_list_position :: "ptr option \<Rightarrow> ptr \<Rightarrow> ms_heap \<Rightarrow> int option" where
  "ms_list_position list elem = position_loop list 0 (\<lambda>p _. p = elem)"

definition ms_list_index :: "ptr option \<Rightarrow> ptr \<Rightarrow> ms_heap \<Rightarrow> int option" where
  "ms_list_index list data = position_loop list 0 (\<lambda>_ c. l_data c = data)"

text \<open>The links that put a new cell in front of \<open>it\<close>, whose predecessor is \<open>pv\<close>.\<close>

definition insert_before :: "ptr \<Rightarrow> ptr \<Rightarrow> ptr option \<Rightarrow> ms_heap \<Rightarrow> ms_heap option" where
  "insert_before nelem it pv h = do {
     h \<leftarrow> l_upd nelem (\<lambda>d. d\<lparr>l_prev := pv, l_next := Some it\<rparr>) h;
     h \<leftarrow> (case pv of None \<Rightarrow> Some h | Some p \<Rightarrow> l_upd p (\<lambda>d. d\<lparr>l_next := Some nelem\<rparr>) h);
     l_upd it (\<lambda>d. d\<lparr>l_prev := Some nelem\<rparr>) h }"

text \<open>The loop of \<^verbatim>\<open>ms_list_insert_sorted\<close>, after the new cell is made.\<close>

partial_function (option) insert_sorted_loop ::
  "ptr \<Rightarrow> ptr \<Rightarrow> (ptr \<Rightarrow> ptr \<Rightarrow> int) \<Rightarrow> ptr option \<Rightarrow> ptr \<Rightarrow> ms_heap \<Rightarrow> (ptr option \<times> ms_heap) option" where
  "insert_sorted_loop nelem data cmp ret it h = do {
     c \<leftarrow> l_cells h it;
     if cmp data (l_data c) \<le> 0 then do {
       h \<leftarrow> insert_before nelem it (l_prev c) h;
       Some (if l_prev c = None then Some nelem else ret, h) }
     else case l_next c of
       Some n \<Rightarrow> insert_sorted_loop nelem data cmp ret n h
     | None \<Rightarrow> do { h \<leftarrow> link_cells it (Some nelem) h; Some (ret, h) } }"

definition ms_list_insert_sorted ::
  "ptr option \<Rightarrow> ptr \<Rightarrow> (ptr \<Rightarrow> ptr \<Rightarrow> int) \<Rightarrow> ms_heap \<Rightarrow> (ptr option \<times> ms_heap) option" where
  "ms_list_insert_sorted list data cmp h =
     (case list of None \<Rightarrow> ms_list_append list data h
      | Some e \<Rightarrow> let (nelem, h) = ms_list_new data h in insert_sorted_loop nelem data cmp list e h)"

text \<open>After an insertion in the middle the loop goes on to the end of the list.\<close>

partial_function (option) insert_loop ::
  "ptr option \<Rightarrow> ptr \<Rightarrow> ptr \<Rightarrow> ptr option \<Rightarrow> ms_heap \<Rightarrow> (ptr option \<times> ms_heap) option" where
  "insert_loop list before data elem h =
     (case elem of None \<Rightarrow> Some (list, h)
      | Some e \<Rightarrow> do {
          c \<leftarrow> l_cells h e;
          if e = before then
            (case l_prev c of
               None \<Rightarrow> ms_list_prepend list data h
             | Some p \<Rightarrow> (let (nelem, h) = ms_list_new data h
                 in do {
                   h \<leftarrow> insert_before nelem e (Some p) h;
                   insert_loop list before data (l_next c) h }))
          else insert_loop list before data (l_next c) h })"

definition ms_list_insert ::
  "ptr option \<Rightarrow> ptr option \<Rightarrow> ptr \<Rightarrow> ms_heap \<Rightarrow> (ptr option \<times> ms_heap) option" where
  "ms_list_insert list before data h =
     (case (list, before) of
        (Some _, Some b) \<Rightarrow> insert_loop list b data list h
      | _ \<Rightarrow> ms_list_append list data h)"

partial_function (option) copy_loop ::
  "ptr option \<Rightarrow> ptr option \<Rightarrow> ms_heap \<Rightarrow> (ptr option \<times> ms_heap) option" where
  "copy_loop iter copy h =
     (case iter of None \<Rightarrow> Some (copy, h)
      | Some p \<Rightarrow> do {
          c \<leftarrow> l_cells h p;
          (copy, h) \<leftarrow> ms_list_append copy (l_data c) h;
          copy_loop (l_next c) copy h })"

definition ms_list_copy :: "ptr option \<Rightarrow> ms_heap \<Rightarrow> (ptr option \<times> ms_heap) option" where
  "ms_list_copy list h = copy_loop list None h"

section \<open>Chains of cells\<close>

text \<open>
  The cells \<open>ps\<close> hold the data \<open>xs\<close>, linked in both directions; \<open>pv\<close> and
  \<open>nx\<close> are the links out of the chain.
\<close>

definition first_of :: "ptr list \<Rightarrow> ptr option \<Rightarrow> ptr option" where
  "first_of ps nx = (case ps of [] \<Rightarrow> nx | p # _ \<Rightarrow> Some p)"

definition last_of :: "ptr option \<Rightarrow> ptr list \<Rightarrow> ptr option" where
  "last_of pv ps = (if ps = [] then pv else Some (last ps))"

fun dll :: "(ptr \<rightharpoonup> ms_cell) \<Rightarrow> ptr option \<Rightarrow> ptr list \<Rightarrow> ptr list \<Rightarrow> ptr option \<Rightarrow> bool" where
  "dll cs pv [] [] nx = True"
| "dll cs pv (p # ps) (x # xs) nx =
     (cs p = Some \<lparr>l_next = first_of ps nx, l_prev = pv, l_data = x\<rparr> \<and> dll cs (Some p) ps xs nx)"
| "dll cs pv _ _ nx = False"

definition list_rep :: "ms_heap \<Rightarrow> ptr option \<Rightarrow> ptr list \<Rightarrow> ptr list \<Rightarrow> bool" where
  "list_rep h l ps xs \<longleftrightarrow> distinct ps \<and> (\<forall>p \<in> set ps. p < l_fresh h) \<and> l = first_of ps None \<and> dll (l_cells h) None ps xs None"

lemma first_of_simps [simp]:
  "first_of [] nx = nx" "first_of (p # ps) nx = Some p"
  "first_of (ps @ qs) nx = first_of ps (first_of qs nx)"
  by (simp_all add: first_of_def split: list.splits)

lemma first_of_snoc: "first_of ps (Some p) = Some (hd (ps @ [p]))"
  by (cases ps) simp_all

lemma last_of_simps [simp]:
  "last_of pv [] = pv" "last_of pv (ps @ [p]) = Some p" "last_of pv (p # ps) = last_of (Some p) ps"
  by (simp_all add: last_of_def)

lemma dll_length: "dll (l_cells h) pv ps xs nx \<Longrightarrow> length ps = length xs"
  by (induction "l_cells h" pv ps xs nx rule: dll.induct) auto

lemma dll_append:
  "length ps = length xs \<Longrightarrow>
   dll (l_cells h) pv (ps @ qs) (xs @ ys) nx \<longleftrightarrow> dll (l_cells h) pv ps xs (first_of qs nx) \<and> dll (l_cells h) (last_of pv ps) qs ys nx"
  by (induction ps xs arbitrary: pv rule: list_induct2) auto

lemma dll_snoc:
  assumes "dll (l_cells h) pv (ps @ [p]) ys nx"
  obtains xs x where "ys = xs @ [x]" "length ps = length xs" "dll (l_cells h) pv ps xs (Some p)"
    "l_cells h p = Some \<lparr>l_next = nx, l_prev = last_of pv ps, l_data = x\<rparr>"
proof -
  have "length ys = Suc (length ps)" using dll_length [OF assms] by simp
  then obtain xs x where ys: "ys = xs @ [x]" "length ps = length xs"
    by (metis length_Suc_conv_rev)
  then show ?thesis using assms that by (simp add: dll_append)
qed

text \<open>Splitting at a position.\<close>

lemma dll_split:
  assumes "dll (l_cells h) pv (as @ p # bs) ys nx"
  obtains xs x zs where "ys = xs @ x # zs" "length as = length xs" "dll (l_cells h) pv as xs (Some p)"
    "l_cells h p = Some \<lparr>l_next = first_of bs nx, l_prev = last_of pv as, l_data = x\<rparr>"
    "dll (l_cells h) (Some p) bs zs nx"
proof -
  define xs zs' where "xs = take (length as) ys" and "zs' = drop (length as) ys"
  have l: "length as = length xs" "length zs' = Suc (length bs)"
    using dll_length [OF assms] by (simp_all add: xs_def zs'_def)
  then obtain x zs where z: "zs' = x # zs" by (cases zs') auto
  have "ys = xs @ x # zs" by (simp add: xs_def zs'_def z [symmetric])
  then show ?thesis using assms l that by (simp add: dll_append)
qed

lemma dll_cong:
  "(\<And>p. p \<in> set ps \<Longrightarrow> cs p = ds p) \<Longrightarrow> dll cs pv ps xs nx = dll ds pv ps xs nx"
  by (induction cs pv ps xs nx rule: dll.induct) auto

lemma dll_other [simp]: "p \<notin> set ps \<Longrightarrow> dll (cs(p := v)) pv ps xs nx = dll cs pv ps xs nx"
  by (rule dll_cong) auto

text \<open>Writing the links at the two ends.\<close>

lemma dll_set_next:
  assumes "dll (l_cells h) pv (ps @ [p]) xs nx" and "p \<notin> set ps"
  shows "\<exists>h'. l_upd p (\<lambda>c. c\<lparr>l_next := v\<rparr>) h = Some h' \<and> dll (l_cells h') pv (ps @ [p]) xs v \<and>
    (\<forall>q. q \<noteq> p \<longrightarrow> l_cells h' q = l_cells h q) \<and> l_fresh h' = l_fresh h"
  using assms(1)
proof (rule dll_snoc)
  fix ys x
  assume "xs = ys @ [x]" "length ps = length ys" "dll (l_cells h) pv ps ys (Some p)"
    "l_cells h p = Some \<lparr>l_next = nx, l_prev = last_of pv ps, l_data = x\<rparr>"
  then show ?thesis using assms(2) by (simp add: l_upd_def dll_append)
qed

lemma dll_set_prev:
  assumes "dll (l_cells h) pv (p # ps) xs nx" and "p \<notin> set ps"
  shows "\<exists>h'. l_upd p (\<lambda>c. c\<lparr>l_prev := v\<rparr>) h = Some h' \<and> dll (l_cells h') v (p # ps) xs nx \<and>
    (\<forall>q. q \<noteq> p \<longrightarrow> l_cells h' q = l_cells h q) \<and> l_fresh h' = l_fresh h"
  using assms by (cases xs) (auto simp: l_upd_def)

text \<open>Two chains are joined by the links at their ends.\<close>

lemma link_chains:
  assumes a: "dll (l_cells h) pv (ps @ [p]) xs nx" "p \<notin> set ps"
    and b: "dll (l_cells h) pv' (q # qs) ys nx'" "q \<notin> set qs"
    and disj: "set (ps @ [p]) \<inter> set (q # qs) = {}"
  shows "\<exists>h'. link_cells p (Some q) h = Some h' \<and> dll (l_cells h') pv (ps @ p # q # qs) (xs @ ys) nx' \<and>
    (\<forall>r. r \<notin> {p, q} \<longrightarrow> l_cells h' r = l_cells h r) \<and> l_fresh h' = l_fresh h"
proof -
  obtain h1 where h1: "l_upd p (\<lambda>c. c\<lparr>l_next := Some q\<rparr>) h = Some h1" "dll (l_cells h1) pv (ps @ [p]) xs (Some q)"
    "\<forall>r. r \<noteq> p \<longrightarrow> l_cells h1 r = l_cells h r" "l_fresh h1 = l_fresh h"
    using dll_set_next [OF a] by blast
  have "dll (l_cells h1) pv' (q # qs) ys nx'"
    using b(1) by (subst dll_cong [where ds = "l_cells h"]) (use h1(3) disj in auto)
  then obtain h2 where h2: "l_upd q (\<lambda>c. c\<lparr>l_prev := Some p\<rparr>) h1 = Some h2" "dll (l_cells h2) (Some p) (q # qs) ys nx'"
    "\<forall>r. r \<noteq> q \<longrightarrow> l_cells h2 r = l_cells h1 r" "l_fresh h2 = l_fresh h1"
    using dll_set_prev [OF _ b(2)] by blast
  have "dll (l_cells h2) pv (ps @ [p]) xs (Some q)"
    using h1(2) by (subst dll_cong [where ds = "l_cells h1"]) (use h2(3) disj in auto)
  then have "dll (l_cells h2) pv ((ps @ [p]) @ q # qs) (xs @ ys) nx'"
    using h2(2) dll_length [OF h1(2)] by (subst dll_append) simp_all
  moreover have "link_cells p (Some q) h = Some h2"
    unfolding link_cells_def using h1(1) h2(1) by simp
  ultimately show ?thesis using h1(3,4) h2(3,4) by auto
qed

section \<open>Loops along a chain\<close>

lemma list_last_dll:
  "dll (l_cells h) pv (ps @ [p]) xs None \<Longrightarrow> list_last (hd (ps @ [p])) h = Some p"
proof (induction ps arbitrary: pv xs)
  case Nil
  then show ?case by (cases xs) (simp_all add: list_last.simps [of p])
next
  case (Cons q ps)
  then obtain x ys where "xs = x # ys" by (cases xs) auto
  then show ?case
    using Cons by (cases ps) (auto simp: list_last.simps [of q])
qed

lemma find_custom_dll:
  "dll (l_cells h) pv ps xs None \<Longrightarrow> ms_list_find_custom (first_of ps None) f h =
     Some (map_option fst (List.find (f \<circ> snd) (zip ps xs)))"
  by (induction "l_cells h" pv ps xs "None :: ptr option" rule: dll.induct)
    (simp_all add: ms_list_find_custom.simps)

lemma for_each_dll: "dll (l_cells h) pv ps xs None \<Longrightarrow> ms_list_for_each (first_of ps None) h = Some xs"
  by (induction "l_cells h" pv ps xs "None :: ptr option" rule: dll.induct) (simp_all add: ms_list_for_each.simps)

lemma size_loop_dll:
  "dll (l_cells h) pv ps xs None \<Longrightarrow> size_loop (first_of ps None) n h = Some (n + int (length xs))"
  by (induction "l_cells h" pv ps xs "None :: ptr option" arbitrary: n rule: dll.induct) (simp_all add: size_loop.simps)

lemma nth_loop_dll:
  "dll (l_cells h) pv ps xs None \<Longrightarrow> nth_loop (first_of ps None) i index h =
     Some (if i \<le> index \<and> index < i + int (length xs) then Some (xs ! nat (index - i)) else None)"
proof (induction "l_cells h" pv ps xs "None :: ptr option" arbitrary: i rule: dll.induct)
  case (2 pv p ps x xs)
  have "nat (index - i) = Suc (nat (index - (i + 1)))" if "i < index" using that by simp
  then show ?case using 2 by (subst nth_loop.simps) auto
qed (simp_all add: nth_loop.simps)

lemma position_loop_dll:
  "dll (l_cells h) pv ps xs None \<Longrightarrow> position_loop (first_of ps None) i (\<lambda>_ c. l_data c = d) h =
     Some (if d \<in> set xs then i + int (length (takeWhile (\<lambda>x. x \<noteq> d) xs)) else -1)"
  "dll (l_cells h) pv ps xs None \<Longrightarrow> position_loop (first_of ps None) i (\<lambda>p _. p = e) h =
     Some (if e \<in> set ps then i + int (length (takeWhile (\<lambda>x. x \<noteq> e) ps)) else -1)"
  by (induction "l_cells h" pv ps xs "None :: ptr option" arbitrary: i rule: dll.induct)
    (simp_all add: position_loop.simps)

section \<open>Each operation on the sequence of data\<close>

lemma list_repD:
  assumes "list_rep h l ps xs"
  shows "distinct ps" "\<And>p. p \<in> set ps \<Longrightarrow> p < l_fresh h" "l = first_of ps None" "dll (l_cells h) None ps xs None"
  using assms by (auto simp: list_rep_def)

lemma ms_list_readers:
  assumes "list_rep h l ps xs"
  shows "ms_list_for_each l h = Some xs"
    and "ms_list_size l h = Some (int (length xs))"
    and "ms_list_nth_data l i h = Some (if 0 \<le> i \<and> i < int (length xs) then Some (xs ! nat i) else None)"
    and "ms_list_index l d h = Some (if d \<in> set xs then int (length (takeWhile (\<lambda>x. x \<noteq> d) xs)) else -1)"
    and "ms_list_position l e h = Some (if e \<in> set ps then int (length (takeWhile (\<lambda>p. p \<noteq> e) ps)) else -1)"
    and "ms_list_find l d h = Some (map_option fst (List.find (\<lambda>px. snd px = d) (zip ps xs)))"
  using list_repD [OF assms]
  by (simp_all add: for_each_dll ms_list_size_def size_loop_dll ms_list_nth_data_def nth_loop_dll
      ms_list_index_def ms_list_position_def position_loop_dll ms_list_find_def find_custom_dll comp_def)


text \<open>A fresh cell.\<close>

lemma new_cell:
  assumes "list_rep h l ps xs"
  shows "dll (l_cells (snd (ms_list_new d h))) None ps xs None" and "l_fresh h \<notin> set ps"
    and "dll (l_cells (snd (ms_list_new d h))) None [l_fresh h] [d] None"
proof -
  show f: "l_fresh h \<notin> set ps" using list_repD(2) [OF assms] by blast
  show "dll (l_cells (snd (ms_list_new d h))) None ps xs None"
    using list_repD(4) [OF assms] f by (simp add: ms_list_new_def)
qed (simp add: ms_list_new_def)

lemma ms_list_append_rep:
  assumes r: "list_rep h l ps xs"
  shows "\<exists>l' h'. ms_list_append l d h = Some (l', h') \<and> list_rep h' l' (ps @ [l_fresh h]) (xs @ [d]) \<and>
    (\<forall>p. p \<notin> set (ps @ [l_fresh h]) \<longrightarrow> l_cells h' p = l_cells h p) \<and> l_fresh h' = Suc (l_fresh h)"
proof -
  let ?h = "snd (ms_list_new d h)"
  have new: "ms_list_new d h = (l_fresh h, ?h)" "l_fresh ?h = Suc (l_fresh h)"
    "\<And>p. p \<noteq> l_fresh h \<Longrightarrow> l_cells ?h p = l_cells h p"
    by (simp_all add: ms_list_new_def)
  have app: "ms_list_append l d h = ms_list_append_link l (Some (l_fresh h)) ?h"
    by (simp add: ms_list_append_def ms_list_new_def)
  note c = new_cell(1) [OF r, of d] new_cell(2) [OF r] new_cell(3) [OF r, of d]
  show ?thesis
  proof (cases ps rule: rev_cases)
    case Nil
    then show ?thesis
      using list_repD [OF r] dll_length [of h None "[]" xs None]
      by (auto simp: ms_list_append_def ms_list_append_link_def list_rep_def ms_list_new_def)
  next
    case (snoc qs q)
    then obtain e where e: "l = Some e" "e = hd (qs @ [q])"
      using list_repD(3) [OF r] by (cases qs) auto
    have "list_last e ?h = Some q" using list_last_dll c(1) snoc e by auto
    moreover obtain h' where h': "link_cells q (Some (l_fresh h)) ?h = Some h'"
      "dll (l_cells h') None (qs @ q # [l_fresh h]) (xs @ [d]) None"
      "\<forall>r. r \<notin> {q, l_fresh h} \<longrightarrow> l_cells h' r = l_cells ?h r" "l_fresh h' = l_fresh ?h"
      using link_chains [OF c(1) [unfolded snoc] _ c(3)] c(2) list_repD(1) [OF r] snoc by auto
    ultimately show ?thesis
      using list_repD [OF r] new snoc e c(2) unfolding app
      by (auto simp: ms_list_append_link_def list_rep_def less_Suc_eq first_of_snoc)
  qed
qed

lemma ms_list_prepend_rep:
  assumes r: "list_rep h l ps xs"
  shows "\<exists>l' h'. ms_list_prepend l d h = Some (l', h') \<and> list_rep h' l' (l_fresh h # ps) (d # xs) \<and>
    (\<forall>p. p \<notin> set (l_fresh h # ps) \<longrightarrow> l_cells h' p = l_cells h p) \<and> l_fresh h' = Suc (l_fresh h)"
proof (cases ps)
  case Nil
  then show ?thesis
    using list_repD [OF r] dll_length [of h None "[]" xs None]
    by (auto simp: ms_list_prepend_def ms_list_new_def list_rep_def)
next
  case (Cons q qs)
  then obtain x ys where "xs = x # ys" using list_repD(4) [OF r] by (cases xs) auto
  then show ?thesis
    using list_repD [OF r] new_cell(2) [OF r] Cons
    by (auto simp: ms_list_prepend_def ms_list_new_def list_rep_def l_upd_def Let_def less_SucI)
qed

lemma ms_list_concat_rep:
  assumes r: "list_rep h l ps xs" and r': "list_rep h l' qs ys"
    and disj: "set ps \<inter> set qs = {}" and ne: "ps \<noteq> [] \<Longrightarrow> qs \<noteq> []"
  shows "\<exists>k h'. ms_list_concat l l' h = Some (k, h') \<and> list_rep h' k (ps @ qs) (xs @ ys) \<and>
    (\<forall>p. p \<notin> set (ps @ qs) \<longrightarrow> l_cells h' p = l_cells h p) \<and> l_fresh h' = l_fresh h"
proof (cases ps rule: rev_cases)
  case Nil
  then show ?thesis
    using list_repD [OF r] r' dll_length [of h None "[]" xs None] by (auto simp: ms_list_concat_def)
next
  case (snoc as a)
  then obtain b bs where b: "qs = b # bs" using ne by (cases qs) auto
  obtain e where e: "l = Some e" "e = hd (as @ [a])"
    using list_repD(3) [OF r] snoc by (cases as) auto
  have "list_last e h = Some a" using list_last_dll list_repD(4) [OF r] snoc e by auto
  moreover obtain h' where h': "link_cells a (Some b) h = Some h'"
    "dll (l_cells h') None (as @ a # b # bs) (xs @ ys) None"
    "\<forall>r. r \<notin> {a, b} \<longrightarrow> l_cells h' r = l_cells h r" "l_fresh h' = l_fresh h"
    using link_chains [OF list_repD(4) [OF r, unfolded snoc] _ list_repD(4) [OF r', unfolded b]]
      list_repD(1) [OF r] list_repD(1) [OF r'] disj snoc b by auto
  ultimately show ?thesis
    using list_repD [OF r] list_repD [OF r'] disj snoc b e
    by (auto simp: ms_list_concat_def list_rep_def first_of_snoc)
qed

lemma free_loop_dll:
  "dll (l_cells h) pv (p # ps) xs None \<Longrightarrow> distinct (p # ps) \<Longrightarrow>
   \<exists>h'. free_loop p h = Some h' \<and> l_fresh h' = l_fresh h \<and>
     (\<forall>q. l_cells h' q = (if q \<in> set (p # ps) then None else l_cells h q))"
proof (induction ps arbitrary: h pv p xs)
  case Nil
  then show ?case by (cases xs) (auto simp: free_loop.simps [of p] l_free_def)
next
  case (Cons q ps)
  then obtain x ys where x: "xs = x # ys" "l_cells h p = Some \<lparr>l_next = Some q, l_prev = pv, l_data = x\<rparr>"
    "dll (l_cells h) (Some p) (q # ps) ys None"
    by (cases xs) auto
  define h1 where "h1 = h\<lparr>l_cells := (l_cells h)(p := None)\<rparr>"
  have "dll (l_cells h1) (Some p) (q # ps) ys None"
    using x(3) Cons.prems(2) unfolding h1_def by (subst dll_cong [where ds = "l_cells h"]) auto
  then obtain h2 where "free_loop q h1 = Some h2" "l_fresh h2 = l_fresh h1"
    "\<forall>r. l_cells h2 r = (if r \<in> set (q # ps) then None else l_cells h1 r)"
    using Cons.IH [of h1 "Some p" q ys] Cons.prems(2) by auto
  then show ?case
    using x(2) by (auto simp: free_loop.simps [of p] l_free_def h1_def)
qed

text \<open>All cells of a freed list are gone, every other cell is as before.\<close>

lemma ms_list_free_rep:
  assumes r: "list_rep h l ps xs"
  shows "\<exists>h'. ms_list_free l h = Some (None, h') \<and>
    (\<forall>q. l_cells h' q = (if q \<in> set ps then None else l_cells h q)) \<and> l_fresh h' = l_fresh h"
proof (cases ps)
  case Nil
  then show ?thesis using list_repD(3) [OF r] by (simp add: ms_list_free_def)
next
  case (Cons p qs)
  then show ?thesis
    using free_loop_dll [of h None p qs xs] list_repD [OF r] by (auto simp: ms_list_free_def)
qed

lemma ms_list_remove_link_rep:
  assumes r: "list_rep h l (as @ e # bs) ys"
  shows "\<exists>xs x zs l' h'. ys = xs @ x # zs \<and> length xs = length as \<and>
    ms_list_remove_link l e h = Some (l', h') \<and> list_rep h' l' (as @ bs) (xs @ zs) \<and>
    (\<forall>p. p \<notin> set (as @ bs) \<longrightarrow> l_cells h' p = (if p = e then None else l_cells h p)) \<and> l_fresh h' = l_fresh h"
proof -
  have d: "distinct (as @ e # bs)" "\<And>p. p \<in> set (as @ e # bs) \<Longrightarrow> p < l_fresh h"
    "l = first_of (as @ e # bs) None" "dll (l_cells h) None (as @ e # bs) ys None"
    using list_repD [OF r] by blast+
  obtain xs x zs where s: "ys = xs @ x # zs" "length as = length xs" "dll (l_cells h) None as xs (Some e)"
    "l_cells h e = Some \<lparr>l_next = first_of bs None, l_prev = last_of None as, l_data = x\<rparr>"
    "dll (l_cells h) (Some e) bs zs None"
    using dll_split [OF d(4)] by metis
  have "\<exists>l' h'. ms_list_remove_link l e h = Some (l', h') \<and> list_rep h' l' (as @ bs) (xs @ zs) \<and>
    (\<forall>p. p \<notin> set (as @ bs) \<longrightarrow> l_cells h' p = (if p = e then None else l_cells h p)) \<and> l_fresh h' = l_fresh h"
  proof (cases as rule: rev_cases)
    case Nil
    then have "xs = []" using s(2) by simp
    then show ?thesis
      using d s Nil by (cases bs; cases zs) (auto simp: ms_list_remove_link_def l_upd_def l_free_def list_rep_def)
  next
    case (snoc cs c)
    then obtain us u where u: "xs = us @ [u]" "length cs = length us" "dll (l_cells h) None cs us (Some c)"
      "l_cells h c = Some \<lparr>l_next = Some e, l_prev = last_of None cs, l_data = u\<rparr>"
      using dll_snoc s(3) by metis
    have "hd (cs @ [c]) \<noteq> e" using d(1) snoc by (cases cs) auto
    then show ?thesis
      using d s snoc u
      by (cases bs; cases zs)
        (auto simp: ms_list_remove_link_def l_upd_def l_free_def list_rep_def dll_append first_of_snoc)
  qed
  then show ?thesis using s(1,2) by metis
qed

text \<open>Removal by data takes the first cell that holds it.\<close>

lemma find_zip:
  assumes "length ps = length xs"
  shows "List.find (\<lambda>px. snd px = d) (zip ps xs) =
    (if d \<in> set xs then Some (ps ! length (takeWhile (\<lambda>x. x \<noteq> d) xs), d) else None)"
  using assms by (induction ps xs rule: list_induct2) auto

lemma ms_list_remove_rep:
  assumes r: "list_rep h l ps xs"
  shows "\<exists>l' h' qs. ms_list_remove l d h = Some (l', h') \<and> list_rep h' l' qs (remove1 d xs) \<and>
    set qs \<subseteq> set ps \<and>
    (\<forall>p. p \<notin> set qs \<longrightarrow> l_cells h' p = (if p \<in> set ps then None else l_cells h p)) \<and> l_fresh h' = l_fresh h"
proof (cases "d \<in> set xs")
  case False
  have "length ps = length xs" using dll_length list_repD(4) [OF r] by blast
  with False r show ?thesis
    using ms_list_readers(6) [OF r, of d]
    by (auto simp: ms_list_remove_def find_zip remove1_idem)
next
  case True
  then obtain us zs where xs: "xs = us @ d # zs" "d \<notin> set us" using split_list_first by metis
  have len: "length ps = length xs" using dll_length list_repD(4) [OF r] by blast
  define as e bs where "as = take (length us) ps" and "e = ps ! length us" and "bs = drop (Suc (length us)) ps"
  have ps: "ps = as @ e # bs" using len xs by (simp add: as_def e_def bs_def id_take_nth_drop)
  obtain vs x ws l' h' where s: "xs = vs @ x # ws" "length vs = length as"
    "ms_list_remove_link l e h = Some (l', h')" "list_rep h' l' (as @ bs) (vs @ ws)"
    "\<forall>p. p \<notin> set (as @ bs) \<longrightarrow> l_cells h' p = (if p = e then None else l_cells h p)" "l_fresh h' = l_fresh h"
    using ms_list_remove_link_rep r unfolding ps by metis
  have "length vs = length us" using s(2) len xs by (simp add: as_def)
  then have "vs = us" "ws = zs" using s(1) xs(1) by auto
  then have "vs @ ws = remove1 d xs" using xs by (simp add: remove1_append)
  moreover have "takeWhile (\<lambda>x. x \<noteq> d) xs = us"
    using xs by (subst xs(1), subst takeWhile_append2) auto
  then have "ms_list_find l d h = Some (Some e)"
    using ms_list_readers(6) [OF r, of d] True len by (simp add: find_zip e_def)
  ultimately show ?thesis
    using s(3-6) by (auto simp: ms_list_remove_def ps)
qed

text \<open>Insertion in front of a cell of the list.\<close>

lemma insert_before_dll:
  assumes d: "dll (l_cells h) None (as @ e # bs) (us @ x # zs) None" "distinct (as @ e # bs)"
    and l: "length us = length as"
    and n: "l_cells h n = Some c" "l_data c = y" "n \<notin> set (as @ e # bs)"
  shows "\<exists>h'. insert_before n e (last_of None as) h = Some h' \<and>
    dll (l_cells h') None (as @ n # e # bs) (us @ y # x # zs) None \<and>
    (\<forall>p. p \<notin> set (as @ n # e # bs) \<longrightarrow> l_cells h' p = l_cells h p) \<and> l_fresh h' = l_fresh h"
proof -
  have s: "dll (l_cells h) None as us (Some e)"
    "l_cells h e = Some \<lparr>l_next = first_of bs None, l_prev = last_of None as, l_data = x\<rparr>"
    "dll (l_cells h) (Some e) bs zs None"
    using d(1) l by (simp_all add: dll_append)
  obtain nx pv where c: "l_cells h n = Some \<lparr>l_next = nx, l_prev = pv, l_data = y\<rparr>"
    using n(1,2) by (cases c) auto
  show ?thesis
  proof (cases as rule: rev_cases)
    case Nil
    then show ?thesis
      using s c n(3) d(2) l by (auto simp: insert_before_def l_upd_def)
  next
    case (snoc cs a)
    then obtain vs v where v: "us = vs @ [v]" "length cs = length vs" "dll (l_cells h) None cs vs (Some a)"
      "l_cells h a = Some \<lparr>l_next = Some e, l_prev = last_of None cs, l_data = v\<rparr>"
      using dll_snoc s(1) by metis
    then show ?thesis
      using s c n(3) d(2) snoc by (auto simp: insert_before_def l_upd_def dll_append)
  qed
qed

text \<open>Sorted insertion is insertion in front of the first element that is not smaller.\<close>

primrec insert_sorted :: "(ptr \<Rightarrow> ptr \<Rightarrow> int) \<Rightarrow> ptr \<Rightarrow> ptr list \<Rightarrow> ptr list" where
  "insert_sorted cmp d [] = [d]"
| "insert_sorted cmp d (x # xs) = (if cmp d x \<le> 0 then d # x # xs else x # insert_sorted cmp d xs)"

lemma insert_sorted_loop_dll:
  assumes "dll (l_cells h) None (as @ e # bs) (us @ x # zs) None" "distinct (as @ e # bs)"
    and "length us = length as" and n: "l_cells h n = Some \<lparr>l_next = None, l_prev = None, l_data = d\<rparr>"
    and "n \<notin> set (as @ e # bs)" and "l = first_of as (Some e)"
  shows "\<exists>h' l' qs. insert_sorted_loop n d cmp l e h = Some (l', h') \<and> l' = first_of qs None \<and>
    dll (l_cells h') None qs (us @ insert_sorted cmp d (x # zs)) None \<and> distinct qs \<and>
    set qs = insert n (set (as @ e # bs)) \<and>
    (\<forall>p. p \<notin> set qs \<longrightarrow> l_cells h' p = l_cells h p) \<and> l_fresh h' = l_fresh h"
  using assms
proof (induction bs arbitrary: as e us x zs)
  case (Cons b bs)
  note prems = Cons.prems
  have c: "l_cells h e = Some \<lparr>l_next = Some b, l_prev = last_of None as, l_data = x\<rparr>"
    using prems(1,3) by (simp add: dll_append)
  show ?case
  proof (cases "cmp d x \<le> 0")
    case True
    obtain h' where h': "insert_before n e (last_of None as) h = Some h'"
      "dll (l_cells h') None (as @ n # e # b # bs) (us @ d # x # zs) None"
      "\<forall>p. p \<notin> set (as @ n # e # b # bs) \<longrightarrow> l_cells h' p = l_cells h p" "l_fresh h' = l_fresh h"
      using insert_before_dll [OF prems(1-3) n _ prems(5)] by auto
    have "insert_sorted_loop n d cmp l e h = Some (first_of (as @ n # e # b # bs) None, h')"
      using True c h'(1) prems(6)
      by (subst insert_sorted_loop.simps) (auto simp: last_of_def first_of_snoc)
    then show ?thesis
      using h'(2-4) True prems(2,5) by - (rule exI [of _ h'], rule exI [of _ "first_of (as @ n # e # b # bs) None"],
        rule exI [of _ "as @ n # e # b # bs"], auto)
  next
    case False
    obtain z zs' where z: "zs = z # zs'" using prems(1,3) by (cases zs) (auto simp: dll_append)
    have "\<exists>h' l' qs. insert_sorted_loop n d cmp l b h = Some (l', h') \<and> l' = first_of qs None \<and>
      dll (l_cells h') None qs ((us @ [x]) @ insert_sorted cmp d (z # zs')) None \<and> distinct qs \<and>
      set qs = insert n (set ((as @ [e]) @ b # bs)) \<and>
      (\<forall>p. p \<notin> set qs \<longrightarrow> l_cells h' p = l_cells h p) \<and> l_fresh h' = l_fresh h"
      using prems z by (intro Cons.IH) (auto simp: first_of_snoc hd_append)
    then show ?thesis using False c z by (simp add: insert_sorted_loop.simps [of _ _ _ _ e])
  qed
next
  case Nil
  note prems = Nil.prems
  have c: "l_cells h e = Some \<lparr>l_next = None, l_prev = last_of None as, l_data = x\<rparr>" "zs = []"
    using prems(1,3) by (cases zs; simp add: dll_append)+
  show ?case
  proof (cases "cmp d x \<le> 0")
    case True
    obtain h' where h': "insert_before n e (last_of None as) h = Some h'"
      "dll (l_cells h') None (as @ n # e # []) (us @ d # x # zs) None"
      "\<forall>p. p \<notin> set (as @ n # e # []) \<longrightarrow> l_cells h' p = l_cells h p" "l_fresh h' = l_fresh h"
      using insert_before_dll [OF prems(1-3) n _ prems(5)] by auto
    have "insert_sorted_loop n d cmp l e h = Some (first_of (as @ n # e # []) None, h')"
      using True c h'(1) prems(6)
      by (subst insert_sorted_loop.simps) (auto simp: last_of_def first_of_snoc)
    then show ?thesis
      using h'(2-4) True prems(2,5) by - (rule exI [of _ h'], rule exI [of _ "first_of (as @ n # e # []) None"],
        rule exI [of _ "as @ n # e # []"], auto)
  next
    case False
    obtain h' where "link_cells e (Some n) h = Some h'"
      "dll (l_cells h') None (as @ e # n # []) ((us @ [x]) @ [d]) None"
      "\<forall>r. r \<notin> {e, n} \<longrightarrow> l_cells h' r = l_cells h r" "l_fresh h' = l_fresh h"
      using link_chains [of h None as e "us @ [x]" None None n "[]" "[d]" None] prems c n by auto
    then show ?thesis
      using False c prems
      by (auto simp: insert_sorted_loop.simps [of _ _ _ _ e] first_of_snoc intro!: exI [of _ "as @ [e, n]"])
  qed
qed

lemma ms_list_insert_sorted_rep:
  assumes r: "list_rep h l ps xs"
  shows "\<exists>l' h' qs. ms_list_insert_sorted l d cmp h = Some (l', h') \<and>
    list_rep h' l' qs (insert_sorted cmp d xs) \<and> set qs = insert (l_fresh h) (set ps) \<and>
    (\<forall>p. p \<notin> set qs \<longrightarrow> l_cells h' p = l_cells h p) \<and> l_fresh h' = Suc (l_fresh h)"
proof (cases ps)
  case Nil
  then have "xs = []" "l = None" using list_repD [OF r] dll_length [of h None "[]" xs None] by auto
  then show ?thesis
    using ms_list_append_rep [OF r, of d] Nil
    by (auto simp: ms_list_insert_sorted_def intro!: exI [of _ "[l_fresh h]"])
next
  case (Cons e bs)
  let ?h = "snd (ms_list_new d h)"
  obtain x zs where x: "xs = x # zs" using list_repD(4) [OF r] Cons by (cases xs) auto
  have new: "ms_list_new d h = (l_fresh h, ?h)" "l_fresh ?h = Suc (l_fresh h)"
    "l_cells ?h (l_fresh h) = Some \<lparr>l_next = None, l_prev = None, l_data = d\<rparr>"
    "\<And>p. p \<noteq> l_fresh h \<Longrightarrow> l_cells ?h p = l_cells h p"
    by (simp_all add: ms_list_new_def)
  obtain h' l' qs where q: "insert_sorted_loop (l_fresh h) d cmp l e ?h = Some (l', h')" "l' = first_of qs None"
    "dll (l_cells h') None qs (insert_sorted cmp d xs) None" "distinct qs" "set qs = insert (l_fresh h) (set ps)"
    "\<forall>p. p \<notin> set qs \<longrightarrow> l_cells h' p = l_cells ?h p" "l_fresh h' = l_fresh ?h"
    using insert_sorted_loop_dll [of ?h "[]" e bs "[]" x zs "l_fresh h" d l cmp]
      new_cell(1,2) [OF r] list_repD(1,3) [OF r] Cons x new(3) by auto
  have "ms_list_insert_sorted l d cmp h = Some (l', h')"
    using q(1) list_repD(3) [OF r] Cons by (simp add: ms_list_insert_sorted_def ms_list_new_def)
  moreover have "list_rep h' l' qs (insert_sorted cmp d xs)"
    using q list_repD(2) [OF r] new(2) by (auto simp: list_rep_def less_SucI)
  moreover have "\<forall>p. p \<notin> set qs \<longrightarrow> l_cells h' p = l_cells h p"
    using q(5,6) new(4) by auto
  ultimately show ?thesis using q(5,7) new(2) by auto
qed

text \<open>Insertion in front of a given cell.\<close>

lemma insert_loop_skip:
  "dll (l_cells h) pv ps xs None \<Longrightarrow> b \<notin> set ps \<Longrightarrow> insert_loop l b d (first_of ps None) h = Some (l, h)"
proof (induction "l_cells h" pv ps xs "None :: ptr option" rule: dll.induct)
  case (2 pv p ps x xs)
  then show ?case by (simp add: insert_loop.simps [of _ _ _ "Some p"])
qed (simp_all add: insert_loop.simps)

lemma insert_loop_find:
  "dll (l_cells h) pv (as @ e # bs) ys None \<Longrightarrow> e \<notin> set as \<Longrightarrow>
   insert_loop l e d (first_of as (Some e)) h = insert_loop l e d (Some e) h"
proof (induction as arbitrary: pv ys)
  case (Cons a as)
  then obtain y zs where "ys = y # zs" by (cases ys) auto
  then show ?case
    using Cons by (auto simp: insert_loop.simps [of _ _ _ "Some a"])
qed simp

lemma ms_list_insert_rep:
  assumes r: "list_rep h l (as @ e # bs) (us @ x # zs)" and l: "length us = length as"
  shows "\<exists>l' h'. ms_list_insert l (Some e) d h = Some (l', h') \<and>
    list_rep h' l' (as @ l_fresh h # e # bs) (us @ d # x # zs) \<and>
    (\<forall>p. p \<notin> set (as @ l_fresh h # e # bs) \<longrightarrow> l_cells h' p = l_cells h p)"
proof -
  have d: "distinct (as @ e # bs)" "\<And>p. p \<in> set (as @ e # bs) \<Longrightarrow> p < l_fresh h"
    "l = first_of as (Some e)" "dll (l_cells h) None (as @ e # bs) (us @ x # zs) None"
    using list_repD [OF r] by simp_all
  obtain k where k: "l = Some k" using d(3) by (cases as) auto
  have "ms_list_insert l (Some e) d h = insert_loop l e d (Some e) h"
  proof -
    have "ms_list_insert l (Some e) d h = insert_loop l e d l h" using k by (simp add: ms_list_insert_def)
    then show ?thesis using insert_loop_find [OF d(4), of l] d(1,3) by simp
  qed
  moreover have e: "l_cells h e = Some \<lparr>l_next = first_of bs None, l_prev = last_of None as, l_data = x\<rparr>"
    using d(4) l by (simp add: dll_append)
  ultimately show ?thesis
  proof (cases as rule: rev_cases)
    case Nil
    then show ?thesis
      using ms_list_prepend_rep [OF r, of d] e l \<open>ms_list_insert l (Some e) d h = _\<close>
      by (auto simp: insert_loop.simps [of _ _ _ "Some e"])
  next
    case (snoc cs c)
    let ?h = "snd (ms_list_new d h)"
    have f: "l_fresh h \<notin> set (as @ e # bs)" using new_cell(2) [OF r] .
    have new: "ms_list_new d h = (l_fresh h, ?h)" "l_fresh ?h = Suc (l_fresh h)"
      "l_cells ?h (l_fresh h) = Some \<lparr>l_next = None, l_prev = None, l_data = d\<rparr>"
      "\<And>p. p \<noteq> l_fresh h \<Longrightarrow> l_cells ?h p = l_cells h p"
      by (simp_all add: ms_list_new_def)
    obtain h' where h': "insert_before (l_fresh h) e (last_of None as) ?h = Some h'"
      "dll (l_cells h') None (as @ l_fresh h # e # bs) (us @ d # x # zs) None"
      "\<forall>p. p \<notin> set (as @ l_fresh h # e # bs) \<longrightarrow> l_cells h' p = l_cells ?h p" "l_fresh h' = l_fresh ?h"
      using insert_before_dll [OF new_cell(1) [OF r] d(1) l new(3) _ f] by auto
    have "dll (l_cells h') (Some e) bs zs None"
      using h'(2) l by (simp add: dll_append)
    then have "insert_loop l e d (first_of bs None) h' = Some (l, h')"
      using d(1) by (intro insert_loop_skip) auto
    then have "insert_loop l e d (Some e) h = Some (l, h')"
      using e snoc h'(1) by (simp add: insert_loop.simps [of _ _ _ "Some e"] ms_list_new_def)
    moreover have "list_rep h' l (as @ l_fresh h # e # bs) (us @ d # x # zs)"
      using h'(2,4) new(2) d f snoc by (auto simp: list_rep_def less_SucI first_of_snoc hd_append)
    ultimately show ?thesis
      using h'(3) new(4) \<open>ms_list_insert l (Some e) d h = _\<close> by auto
  qed
qed

text \<open>A copy has the same data in cells of its own, and the original stays.\<close>

lemma copy_loop_rep:
  assumes "dll (l_cells h) pv ps xs None" and "list_rep h c qs ys" and "set ps \<inter> set qs = {}"
    and "\<forall>p \<in> set ps. p < l_fresh h"
  shows "\<exists>c' h' rs. copy_loop (first_of ps None) c h = Some (c', h') \<and> list_rep h' c' (qs @ rs) (ys @ xs) \<and>
    (\<forall>p. p \<notin> set (qs @ rs) \<longrightarrow> l_cells h' p = l_cells h p) \<and> (\<forall>p \<in> set rs. l_fresh h \<le> p)"
  using assms
proof (induction ps arbitrary: h pv xs c qs ys)
  case Nil
  then show ?case by (cases xs) (auto simp: copy_loop.simps intro!: exI [of _ "[]"])
next
  case (Cons p ps)
  then obtain x zs where x: "xs = x # zs" "l_cells h p = Some \<lparr>l_next = first_of ps None, l_prev = pv, l_data = x\<rparr>"
    "dll (l_cells h) (Some p) ps zs None" by (cases xs) auto
  obtain c1 h1 where h1: "ms_list_append c x h = Some (c1, h1)" "list_rep h1 c1 (qs @ [l_fresh h]) (ys @ [x])"
    "\<forall>q. q \<notin> set (qs @ [l_fresh h]) \<longrightarrow> l_cells h1 q = l_cells h q" "l_fresh h1 = Suc (l_fresh h)"
    using ms_list_append_rep [OF Cons.prems(2), of x] by blast
  have disj: "set ps \<inter> set (qs @ [l_fresh h]) = {}" using Cons.prems(3,4) by auto
  have d1: "dll (l_cells h1) (Some p) ps zs None"
    by (subst dll_cong [where ds = "l_cells h"]; use h1(3) disj x(3) in blast)
  have lt: "\<forall>q \<in> set ps. q < l_fresh h1" using Cons.prems(4) h1(4) by (simp add: less_SucI)
  obtain c' h' rs where r: "copy_loop (first_of ps None) c1 h1 = Some (c', h')"
    "list_rep h' c' ((qs @ [l_fresh h]) @ rs) ((ys @ [x]) @ zs)"
    "\<forall>p. p \<notin> set ((qs @ [l_fresh h]) @ rs) \<longrightarrow> l_cells h' p = l_cells h1 p" "\<forall>p \<in> set rs. l_fresh h1 \<le> p"
    using Cons.IH [OF d1 h1(2) disj lt] by blast
  have "copy_loop (first_of (p # ps) None) c h = Some (c', h')"
    using x(2) h1(1) r(1) by (simp add: copy_loop.simps [of "Some p"])
  then show ?case
    using r(2-4) h1(3,4) x(1)
    by - (rule exI [of _ c'], rule exI [of _ h'], rule exI [of _ "l_fresh h # rs"], simp add: Suc_leD)
qed

lemma ms_list_copy_rep:
  assumes r: "list_rep h l ps xs"
  shows "\<exists>c' h' rs. ms_list_copy l h = Some (c', h') \<and> list_rep h' c' rs xs \<and>
    set ps \<inter> set rs = {} \<and> (\<forall>p. p \<notin> set rs \<longrightarrow> l_cells h' p = l_cells h p)"
proof -
  have "list_rep h None [] []" by (simp add: list_rep_def)
  then obtain c' h' rs where "copy_loop (first_of ps None) None h = Some (c', h')" "list_rep h' c' rs xs"
    "\<forall>p. p \<notin> set rs \<longrightarrow> l_cells h' p = l_cells h p" "\<forall>p \<in> set rs. l_fresh h \<le> p"
    using copy_loop_rep [of h None ps xs None "[]" "[]"] list_repD(2,4) [OF r] by auto
  moreover have "set ps \<inter> set rs = {}" using calculation(4) list_repD(2) [OF r] leD by blast
  ultimately show ?thesis using list_repD(3) [OF r] by (auto simp: ms_list_copy_def)
qed

section \<open>Sequences of operations\<close>

datatype list_op = L_append ptr | L_prepend ptr | L_remove ptr | L_insert_sorted ptr | L_free

fun list_op_step :: "(ptr \<Rightarrow> ptr \<Rightarrow> int) \<Rightarrow> list_op \<Rightarrow> ptr option \<times> ms_heap \<Rightarrow> (ptr option \<times> ms_heap) option" where
  "list_op_step cmp (L_append d) (l, h) = ms_list_append l d h"
| "list_op_step cmp (L_prepend d) (l, h) = ms_list_prepend l d h"
| "list_op_step cmp (L_remove d) (l, h) = ms_list_remove l d h"
| "list_op_step cmp (L_insert_sorted d) (l, h) = ms_list_insert_sorted l d cmp h"
| "list_op_step cmp L_free (l, h) = ms_list_free l h"

fun list_op_spec :: "(ptr \<Rightarrow> ptr \<Rightarrow> int) \<Rightarrow> list_op \<Rightarrow> ptr list \<Rightarrow> ptr list" where
  "list_op_spec cmp (L_append d) xs = xs @ [d]"
| "list_op_spec cmp (L_prepend d) xs = d # xs"
| "list_op_spec cmp (L_remove d) xs = remove1 d xs"
| "list_op_spec cmp (L_insert_sorted d) xs = insert_sorted cmp d xs"
| "list_op_spec cmp L_free xs = []"

text \<open>The cells of the list are the only ones on the heap: nothing has leaked.\<close>

definition owns_heap :: "ptr option \<times> ms_heap \<Rightarrow> ptr list \<Rightarrow> bool" where
  "owns_heap s xs \<longleftrightarrow> (\<exists>ps. list_rep (snd s) (fst s) ps xs \<and> dom (l_cells (snd s)) = set ps)"

lemma dll_allocated: "dll cs pv ps xs nx \<Longrightarrow> set ps \<subseteq> dom cs"
  by (induction cs pv ps xs nx rule: dll.induct) auto

lemma owns_heapI:
  assumes "list_rep h l ps xs" and "\<And>p. p \<notin> set ps \<Longrightarrow> l_cells h p = None"
  shows "owns_heap (l, h) xs"
proof -
  have "dom (l_cells h) = set ps"
    using assms(2) dll_allocated [OF list_repD(4) [OF assms(1)]] by (auto simp: dom_def) (metis option.distinct(1))
  then show ?thesis using assms(1) by (auto simp: owns_heap_def)
qed

lemma list_op_step_owns:
  assumes "owns_heap s xs"
  shows "\<exists>s'. list_op_step cmp i s = Some s' \<and> owns_heap s' (list_op_spec cmp i xs)"
proof -
  obtain l h where s: "s = (l, h)" by (cases s)
  obtain ps where r: "list_rep h l ps xs" and d: "\<And>p. p \<notin> set ps \<Longrightarrow> l_cells h p = None"
    using assms s by (auto simp: owns_heap_def domIff)
  show ?thesis
  proof (cases i)
    case (L_append x)
    then show ?thesis using ms_list_append_rep [OF r, of x] d s by (fastforce intro: owns_heapI)
  next
    case (L_prepend x)
    then show ?thesis using ms_list_prepend_rep [OF r, of x] d s by (fastforce intro: owns_heapI)
  next
    case (L_remove x)
    then show ?thesis using ms_list_remove_rep [OF r, of x] d s by (fastforce intro: owns_heapI split: if_splits)
  next
    case (L_insert_sorted x)
    then show ?thesis using ms_list_insert_sorted_rep [OF r, of x cmp] d s by (fastforce intro: owns_heapI)
  next
    case L_free
    have e: "list_rep h' None [] []" for h' by (simp add: list_rep_def)
    show ?thesis using ms_list_free_rep [OF r] d s L_free owns_heapI [OF e] by auto
  qed
qed

text \<open>
  C13. Any sequence of appends, prepends, removals, sorted insertions and frees that starts with no
  list runs without a fault and has on the data the effect of the same operations on a sequence;
  walking the list and counting it give that sequence and its length, and the list's cells are all
  that is left on the heap.
\<close>

theorem ms_list_refines_sequence:
  "\<exists>l h. run_steps (list_op_step cmp) ops (None, \<lparr>l_cells = Map.empty, l_fresh = 0\<rparr>) = Some (l, h) \<and>
    ms_list_for_each l h = Some (fold (list_op_spec cmp) ops []) \<and>
    ms_list_size l h = Some (int (length (fold (list_op_spec cmp) ops []))) \<and>
    card (dom (l_cells h)) = length (fold (list_op_spec cmp) ops [])"
proof -
  have run: "\<exists>s'. run_steps (list_op_step cmp) ops s = Some s' \<and> owns_heap s' (fold (list_op_spec cmp) ops xs)"
    if "owns_heap s xs" for s xs
    using that
  proof (induction ops arbitrary: s xs)
    case (Cons i ops)
    then show ?case using list_op_step_owns [OF Cons.prems, of cmp i] by auto
  qed simp
  let ?s = "(None, \<lparr>l_cells = Map.empty, l_fresh = 0\<rparr>) :: ptr option \<times> ms_heap"
  have "owns_heap ?s []" by (simp add: owns_heap_def list_rep_def)
  from run [OF this] obtain s' where "run_steps (list_op_step cmp) ops ?s = Some s'"
    "owns_heap s' (fold (list_op_spec cmp) ops [])" by blast
  then obtain l h ps where s: "run_steps (list_op_step cmp) ops ?s = Some (l, h)"
    "list_rep h l ps (fold (list_op_spec cmp) ops [])" "dom (l_cells h) = set ps"
    by (cases s') (auto simp: owns_heap_def)
  have "card (set ps) = length (fold (list_op_spec cmp) ops [])"
    using list_repD(1,4) [OF s(2)] dll_length distinct_card by metis
  then show ?thesis using s ms_list_readers(1,2) [OF s(2)] by auto
qed

end
