(* ===== verification/Ms_Filter.thy ===== *)
theory Ms_Filter
  imports Str_Utils C_Strings
begin

text \<open>
  Filters and their connections, \<^verbatim>\<open>mediastreamer2/src/base/msfilter.c\<close> and
  \<^verbatim>\<open>msqueue.c\<close>. A filter has a table of input and of output queues; a queue knows
  the filter and the pin at either end. Filters, queues and tickers live in a world and are named by
  their addresses. The code of the single filters (their \<^verbatim>\<open>process\<close>,
  \<^verbatim>\<open>preprocess\<close> and \<^verbatim>\<open>postprocess\<close> functions) is a parameter; a message
  is the list of its blocks. Access through a pointer that names nothing, a pin outside a table and
  \<^verbatim>\<open>ms_fatal\<close>, which aborts the process, are \<open>None\<close>.
\<close>

section \<open>The world\<close>

datatype ms_category = MS_FILTER_OTHER | MS_FILTER_ENCODER | MS_FILTER_DECODER
  | MS_FILTER_ENCODING_CAPTURER | MS_FILTER_DECODING_RENDERER

type_synonym msg = "u8 list list"

text \<open>Methods are numbered; a method's function is given by the filter's code.\<close>

record filter_desc =
  fd_id :: u32
  fd_name :: string
  fd_category :: ms_category
  fd_enc_fmt :: "string option"
  fd_ninputs :: nat
  fd_noutputs :: nat
  fd_methods :: "(u32 \<times> nat) list"
  fd_flags :: u32

record 'd ms_filter =
  f_desc :: filter_desc
  f_inputs :: "ptr option list"
  f_outputs :: "ptr option list"
  f_data :: 'd
  f_ticker :: "ptr option"
  f_last_tick :: u32
  f_postponed_task :: int
  f_seen :: bool

record ms_queue =
  mq_msgs :: "msg list"
  mq_prev :: "ptr \<times> nat"
  mq_next :: "ptr \<times> nat"

record ms_ticker =
  t_execution_list :: "ptr list"
  t_task_list :: "(ptr \<times> nat) list"
  t_interval :: int
  t_ticks :: u32
  t_time :: u64
  t_orig :: u64
  t_run :: bool

text \<open>\<open>w_ran\<close> records the filters whose \<^verbatim>\<open>process\<close> phase ran, in order.\<close>

record 'd ms_world =
  w_filters :: "ptr \<rightharpoonup> 'd ms_filter"
  w_queues :: "ptr \<rightharpoonup> ms_queue"
  w_tickers :: "ptr \<rightharpoonup> ms_ticker"
  w_fresh :: ptr
  w_ran :: "ptr list"

definition MS_FILTER_NOT_SET_ID :: u32 where "MS_FILTER_NOT_SET_ID = 0"
definition MS_FILTER_PLUGIN_ID :: u32 where "MS_FILTER_PLUGIN_ID = 1"
definition MS_FILTER_BASE_ID :: u32 where "MS_FILTER_BASE_ID = 2"
definition MS_FILTER_IS_PUMP :: u32 where "MS_FILTER_IS_PUMP = 1"

definition upd_filter :: "ptr \<Rightarrow> ('d ms_filter \<Rightarrow> 'd ms_filter) \<Rightarrow> 'd ms_world \<Rightarrow> 'd ms_world option" where
  "upd_filter f g w = (case w_filters w f of None \<Rightarrow> None
     | Some x \<Rightarrow> Some (w\<lparr>w_filters := (w_filters w)(f \<mapsto> g x)\<rparr>))"

definition upd_queue :: "ptr \<Rightarrow> (ms_queue \<Rightarrow> ms_queue) \<Rightarrow> 'd ms_world \<Rightarrow> 'd ms_world option" where
  "upd_queue q g w = (case w_queues w q of None \<Rightarrow> None
     | Some x \<Rightarrow> Some (w\<lparr>w_queues := (w_queues w)(q \<mapsto> g x)\<rparr>))"

definition upd_ticker :: "ptr \<Rightarrow> (ms_ticker \<Rightarrow> ms_ticker) \<Rightarrow> 'd ms_world \<Rightarrow> 'd ms_world option" where
  "upd_ticker t g w = (case w_tickers w t of None \<Rightarrow> None
     | Some x \<Rightarrow> Some (w\<lparr>w_tickers := (w_tickers w)(t \<mapsto> g x)\<rparr>))"

section \<open>Descriptions\<close>

text \<open>The registered descriptions, the last one first.\<close>

definition ms_filter_register :: "filter_desc \<Rightarrow> filter_desc list \<Rightarrow> filter_desc list option" where
  "ms_filter_register desc desc_list =
     (if fd_id desc = MS_FILTER_NOT_SET_ID then None else Some (desc # desc_list))"

text \<open>The tokens of \<^verbatim>\<open>strtok_r\<close> with a space as the delimiter.\<close>

fun tokens_from :: "string \<Rightarrow> string \<Rightarrow> string list" where
  "tokens_from acc [] = (if acc = [] then [] else [rev acc])"
| "tokens_from acc (c # cs) =
     (if c = CHR '' '' then (if acc = [] then tokens_from [] cs else rev acc # tokens_from [] cs)
      else tokens_from (c # acc) cs)"

definition has_token :: "string \<Rightarrow> string option \<Rightarrow> bool" where
  "has_token mime fmt = (case fmt of None \<Rightarrow> False | Some s \<Rightarrow> \<exists>t \<in> set (tokens_from [] s). strcase_eq t mime)"

definition ms_filter_get_encoding_capturer :: "string \<Rightarrow> filter_desc list \<Rightarrow> filter_desc option" where
  "ms_filter_get_encoding_capturer mime =
     List.find (\<lambda>d. fd_category d = MS_FILTER_ENCODING_CAPTURER \<and> has_token mime (fd_enc_fmt d))"

definition ms_filter_get_decoding_renderer :: "string \<Rightarrow> filter_desc list \<Rightarrow> filter_desc option" where
  "ms_filter_get_decoding_renderer mime =
     List.find (\<lambda>d. fd_category d = MS_FILTER_DECODING_RENDERER \<and> has_token mime (fd_enc_fmt d))"

definition fmt_is :: "string \<Rightarrow> string option \<Rightarrow> bool" where
  "fmt_is mime fmt = (case fmt of None \<Rightarrow> False | Some s \<Rightarrow> strcase_eq s mime)"

definition ms_filter_get_encoder :: "string \<Rightarrow> filter_desc list \<Rightarrow> filter_desc option" where
  "ms_filter_get_encoder mime = List.find (\<lambda>d. fd_category d = MS_FILTER_ENCODER \<and> fmt_is mime (fd_enc_fmt d))"

definition ms_filter_get_decoder :: "string \<Rightarrow> filter_desc list \<Rightarrow> filter_desc option" where
  "ms_filter_get_decoder mime = List.find (\<lambda>d. fd_category d = MS_FILTER_DECODER \<and> fmt_is mime (fd_enc_fmt d))"

definition ms_filter_codec_supported :: "string \<Rightarrow> filter_desc list \<Rightarrow> bool" where
  "ms_filter_codec_supported mime ds =
     (let enc = ms_filter_get_encoding_capturer mime ds;
          dec = ms_filter_get_decoding_renderer mime ds;
          enc = (if enc = None then ms_filter_get_encoder mime ds else enc);
          dec = (if dec = None then ms_filter_get_decoder mime ds else dec)
      in enc \<noteq> None \<and> dec \<noteq> None)"

definition ms_filter_lookup_by_name :: "string \<Rightarrow> filter_desc list \<Rightarrow> filter_desc option" where
  "ms_filter_lookup_by_name name = List.find (\<lambda>d. fd_name d = name)"

section \<open>Creating filters\<close>

text \<open>The filter's \<^verbatim>\<open>init\<close> gives the private data.\<close>

definition ms_filter_new_from_desc ::
  "(filter_desc \<Rightarrow> 'd) \<Rightarrow> filter_desc \<Rightarrow> 'd ms_world \<Rightarrow> ptr \<times> 'd ms_world" where
  "ms_filter_new_from_desc init desc w = (w_fresh w,
     w\<lparr>w_filters := (w_filters w)(w_fresh w \<mapsto>
          \<lparr>f_desc = desc, f_inputs = replicate (fd_ninputs desc) None,
           f_outputs = replicate (fd_noutputs desc) None, f_data = init desc, f_ticker = None,
           f_last_tick = 0, f_postponed_task = 0, f_seen = False\<rparr>),
       w_fresh := Suc (w_fresh w)\<rparr>)"

definition create_found ::
  "(filter_desc \<Rightarrow> 'd) \<Rightarrow> filter_desc option \<Rightarrow> 'd ms_world \<Rightarrow> ptr option \<times> 'd ms_world" where
  "create_found init d w =
     (case d of None \<Rightarrow> (None, w) | Some d \<Rightarrow> let (f, w) = ms_filter_new_from_desc init d w in (Some f, w))"

definition ms_filter_create_encoder ::
  "(filter_desc \<Rightarrow> 'd) \<Rightarrow> string \<Rightarrow> filter_desc list \<Rightarrow> 'd ms_world \<Rightarrow> ptr option \<times> 'd ms_world" where
  "ms_filter_create_encoder init mime ds = create_found init (ms_filter_get_encoder mime ds)"

definition ms_filter_create_decoder ::
  "(filter_desc \<Rightarrow> 'd) \<Rightarrow> string \<Rightarrow> filter_desc list \<Rightarrow> 'd ms_world \<Rightarrow> ptr option \<times> 'd ms_world" where
  "ms_filter_create_decoder init mime ds = create_found init (ms_filter_get_decoder mime ds)"

definition ms_filter_new ::
  "(filter_desc \<Rightarrow> 'd) \<Rightarrow> u32 \<Rightarrow> filter_desc list \<Rightarrow> 'd ms_world \<Rightarrow> ptr option \<times> 'd ms_world" where
  "ms_filter_new init i ds w =
     (if i = MS_FILTER_PLUGIN_ID then (None, w) else create_found init (List.find (\<lambda>d. fd_id d = i) ds) w)"

definition ms_filter_new_from_name ::
  "(filter_desc \<Rightarrow> 'd) \<Rightarrow> string \<Rightarrow> filter_desc list \<Rightarrow> 'd ms_world \<Rightarrow> ptr option \<times> 'd ms_world" where
  "ms_filter_new_from_name init name ds = create_found init (ms_filter_lookup_by_name name ds)"

text \<open>The queues at the filter's pins stay.\<close>

definition ms_filter_destroy :: "ptr \<Rightarrow> 'd ms_world \<Rightarrow> 'd ms_world option" where
  "ms_filter_destroy f w =
     (if w_filters w f = None then None else Some (w\<lparr>w_filters := (w_filters w)(f := None)\<rparr>))"

section \<open>Methods\<close>

definition MS_FILTER_METHOD_ID :: "u32 \<Rightarrow> u32 \<Rightarrow> u32 \<Rightarrow> u32" where
  "MS_FILTER_METHOD_ID i cnt argsize = push_bit 16 (i AND 0xFFFF) OR push_bit 8 cnt OR (argsize AND 0xFF)"

definition MS_FILTER_BASE_METHOD :: "u32 \<Rightarrow> u32 \<Rightarrow> u32" where
  "MS_FILTER_BASE_METHOD cnt argsize = MS_FILTER_METHOD_ID MS_FILTER_BASE_ID cnt argsize"

definition MS_FILTER_METHOD_GET_FID :: "u32 \<Rightarrow> u32" where
  "MS_FILTER_METHOD_GET_FID i = drop_bit 16 i AND 0xFFFF"

definition MS_FILTER_INTERFACE_BEGIN :: u32 where "MS_FILTER_INTERFACE_BEGIN = 16384"

definition is_interface_method :: "u32 \<Rightarrow> bool" where
  "is_interface_method magic \<longleftrightarrow> magic = MS_FILTER_BASE_ID \<or> magic > MS_FILTER_INTERFACE_BEGIN"

fun find_method :: "filter_desc \<Rightarrow> u32 \<Rightarrow> (u32 \<times> nat) list \<Rightarrow> nat option option" where
  "find_method d i [] = Some None"
| "find_method d i ((mid, fn) # ms) =
     (let mm = MS_FILTER_METHOD_GET_FID mid
      in if mm \<noteq> fd_id d \<and> \<not> is_interface_method mm then None
         else if mid = i then Some (Some fn) else find_method d i ms)"

text \<open>The function to call, \<open>Some None\<close> for the result -1.\<close>

definition ms_filter_call_method :: "ptr \<Rightarrow> u32 \<Rightarrow> 'd ms_world \<Rightarrow> nat option option" where
  "ms_filter_call_method f i w = do {
     x \<leftarrow> w_filters w f;
     let magic = MS_FILTER_METHOD_GET_FID i;
     if \<not> is_interface_method magic \<and> magic \<noteq> fd_id (f_desc x) then None
     else find_method (f_desc x) i (fd_methods (f_desc x)) }"

definition ms_filter_has_method :: "ptr \<Rightarrow> u32 \<Rightarrow> 'd ms_world \<Rightarrow> bool option" where
  "ms_filter_has_method f i w = map_option (\<lambda>x. i \<in> fst ` set (fd_methods (f_desc x))) (w_filters w f)"

section \<open>Connections\<close>

definition ms_queue_new :: "ptr \<Rightarrow> nat \<Rightarrow> ptr \<Rightarrow> nat \<Rightarrow> 'd ms_world \<Rightarrow> ptr \<times> 'd ms_world" where
  "ms_queue_new f1 pin1 f2 pin2 w = (w_fresh w,
     w\<lparr>w_queues := (w_queues w)(w_fresh w \<mapsto> \<lparr>mq_msgs = [], mq_prev = (f1, pin1), mq_next = (f2, pin2)\<rparr>),
       w_fresh := Suc (w_fresh w)\<rparr>)"

definition ms_queue_destroy :: "ptr \<Rightarrow> 'd ms_world \<Rightarrow> 'd ms_world option" where
  "ms_queue_destroy q w =
     (if w_queues w q = None then None else Some (w\<lparr>w_queues := (w_queues w)(q := None)\<rparr>))"

definition ms_queue_put :: "ptr option \<Rightarrow> msg \<Rightarrow> 'd ms_world \<Rightarrow> 'd ms_world option" where
  "ms_queue_put q m w = do { q \<leftarrow> q; upd_queue q (\<lambda>x. x\<lparr>mq_msgs := mq_msgs x @ [m]\<rparr>) w }"

definition ms_queue_get :: "ptr option \<Rightarrow> 'd ms_world \<Rightarrow> (msg option \<times> 'd ms_world) option" where
  "ms_queue_get q w = do {
     q \<leftarrow> q;
     x \<leftarrow> w_queues w q;
     case mq_msgs x of [] \<Rightarrow> Some (None, w)
     | m # ms \<Rightarrow> do { w \<leftarrow> upd_queue q (\<lambda>x. x\<lparr>mq_msgs := ms\<rparr>) w; Some (Some m, w) } }"

text \<open>A table entry; \<open>None\<close> when the index is not in the table.\<close>

definition pin_at :: "ptr option list \<Rightarrow> int \<Rightarrow> ptr option option" where
  "pin_at tab i = (if 0 \<le> i \<and> i < int (length tab) then Some (tab ! nat i) else None)"

definition set_output :: "ptr \<Rightarrow> nat \<Rightarrow> ptr option \<Rightarrow> 'd ms_world \<Rightarrow> 'd ms_world option" where
  "set_output f i v = upd_filter f (\<lambda>x. x\<lparr>f_outputs := (f_outputs x)[i := v]\<rparr>)"

definition set_input :: "ptr \<Rightarrow> nat \<Rightarrow> ptr option \<Rightarrow> 'd ms_world \<Rightarrow> 'd ms_world option" where
  "set_input f i v = upd_filter f (\<lambda>x. x\<lparr>f_inputs := (f_inputs x)[i := v]\<rparr>)"

definition ms_filter_link ::
  "ptr \<Rightarrow> int \<Rightarrow> ptr \<Rightarrow> int \<Rightarrow> 'd ms_world \<Rightarrow> (int \<times> 'd ms_world) option" where
  "ms_filter_link f1 pin1 f2 pin2 w = do {
     x1 \<leftarrow> w_filters w f1;
     x2 \<leftarrow> w_filters w f2;
     if \<not> pin1 < int (fd_noutputs (f_desc x1)) then Some (-1, w)
     else if \<not> pin2 < int (fd_ninputs (f_desc x2)) then Some (-1, w)
     else do {
       o1 \<leftarrow> pin_at (f_outputs x1) pin1;
       if o1 \<noteq> None then Some (-1, w)
       else do {
         i2 \<leftarrow> pin_at (f_inputs x2) pin2;
         if i2 \<noteq> None then Some (-1, w)
         else do {
           let (q, w) = ms_queue_new f1 (nat pin1) f2 (nat pin2) w;
           w \<leftarrow> set_output f1 (nat pin1) (Some q) w;
           w \<leftarrow> set_input f2 (nat pin2) (Some q) w;
           Some (0, w) } } } }"

definition ms_filter_unlink ::
  "ptr \<Rightarrow> int \<Rightarrow> ptr \<Rightarrow> int \<Rightarrow> 'd ms_world \<Rightarrow> (int \<times> 'd ms_world) option" where
  "ms_filter_unlink f1 pin1 f2 pin2 w = do {
     x1 \<leftarrow> w_filters w f1;
     x2 \<leftarrow> w_filters w f2;
     if \<not> pin1 < int (fd_noutputs (f_desc x1)) then Some (-1, w)
     else if \<not> pin2 < int (fd_ninputs (f_desc x2)) then Some (-1, w)
     else do {
       o1 \<leftarrow> pin_at (f_outputs x1) pin1;
       case o1 of None \<Rightarrow> Some (-1, w)
       | Some q \<Rightarrow> do {
           i2 \<leftarrow> pin_at (f_inputs x2) pin2;
           if i2 = None \<or> o1 \<noteq> i2 then Some (-1, w)
           else do {
             w \<leftarrow> set_output f1 (nat pin1) None w;
             w \<leftarrow> set_input f2 (nat pin2) None w;
             w \<leftarrow> ms_queue_destroy q w;
             Some (0, w) } } } }"

text \<open>The connection helper: the filter and the output pin it stands at.\<close>

type_synonym conn_helper = "ptr option \<times> int"

definition ms_connection_helper_start :: conn_helper where
  "ms_connection_helper_start = (None, -1)"

definition ms_connection_helper_link ::
  "conn_helper \<Rightarrow> ptr \<Rightarrow> int \<Rightarrow> int \<Rightarrow> 'd ms_world \<Rightarrow> (int \<times> conn_helper \<times> 'd ms_world) option" where
  "ms_connection_helper_link h f inpin outpin w =
     (case fst h of None \<Rightarrow> Some (0, (Some f, outpin), w)
      | Some l \<Rightarrow> do {
          (err, w) \<leftarrow> ms_filter_link l (snd h) f inpin w;
          Some (err, if err = 0 then (Some f, outpin) else h, w) })"

definition ms_connection_helper_unlink ::
  "conn_helper \<Rightarrow> ptr \<Rightarrow> int \<Rightarrow> int \<Rightarrow> 'd ms_world \<Rightarrow> (int \<times> conn_helper \<times> 'd ms_world) option" where
  "ms_connection_helper_unlink h f inpin outpin w =
     (case fst h of None \<Rightarrow> Some (0, (Some f, outpin), w)
      | Some l \<Rightarrow> do {
          (err, w) \<leftarrow> ms_filter_unlink l (snd h) f inpin w;
          Some (err, if err = 0 then (Some f, outpin) else h, w) })"

section \<open>Scheduling data of a filter\<close>

definition ms_filter_inputs_have_data :: "ptr \<Rightarrow> 'd ms_world \<Rightarrow> bool option" where
  "ms_filter_inputs_have_data f w = do {
     x \<leftarrow> w_filters w f;
     if \<exists>q \<in> set (f_inputs x). q \<noteq> None \<and> w_queues w (the q) = None then None
     else Some (\<exists>q \<in> set (f_inputs x). q \<noteq> None \<and> mq_msgs (the (w_queues w (the q))) \<noteq> []) }"

text \<open>The callbacks are the filter's own code.\<close>

definition ms_filter_preprocess ::
  "(ptr \<Rightarrow> 'd ms_world \<Rightarrow> 'd ms_world option) \<Rightarrow> ptr \<Rightarrow> ptr \<Rightarrow> 'd ms_world \<Rightarrow> 'd ms_world option" where
  "ms_filter_preprocess preprocess t f w = do {
     w \<leftarrow> upd_filter f (\<lambda>x. x\<lparr>f_last_tick := 0, f_ticker := Some t\<rparr>) w;
     preprocess f w }"

definition ms_filter_postprocess ::
  "(ptr \<Rightarrow> 'd ms_world \<Rightarrow> 'd ms_world option) \<Rightarrow> ptr \<Rightarrow> 'd ms_world \<Rightarrow> 'd ms_world option" where
  "ms_filter_postprocess postprocess f w = do {
     w \<leftarrow> postprocess f w;
     upd_filter f (\<lambda>x. x\<lparr>f_ticker := None\<rparr>) w }"

definition ms_filter_postpone_task :: "ptr \<Rightarrow> nat \<Rightarrow> 'd ms_world \<Rightarrow> 'd ms_world option" where
  "ms_filter_postpone_task f taskfunc w = do {
     x \<leftarrow> w_filters w f;
     case f_ticker x of None \<Rightarrow> Some w
     | Some t \<Rightarrow> do {
         w \<leftarrow> upd_ticker t (\<lambda>y. y\<lparr>t_task_list := (f, taskfunc) # t_task_list y\<rparr>) w;
         upd_filter f (\<lambda>x. x\<lparr>f_postponed_task := f_postponed_task x + 1\<rparr>) w } }"

definition ms_filter_task_process ::
  "(nat \<Rightarrow> ptr \<Rightarrow> 'd ms_world \<Rightarrow> 'd ms_world option) \<Rightarrow> ptr \<times> nat \<Rightarrow> 'd ms_world \<Rightarrow> 'd ms_world option" where
  "ms_filter_task_process taskfunc task w = do {
     w \<leftarrow> taskfunc (snd task) (fst task) w;
     upd_filter (fst task) (\<lambda>x. x\<lparr>f_postponed_task := f_postponed_task x - 1\<rparr>) w }"

section \<open>Neighbours\<close>

text \<open>The filter at the other end of a queue.\<close>

definition prev_filter :: "'d ms_world \<Rightarrow> ptr \<Rightarrow> ptr option" where
  "prev_filter w q = map_option (fst \<circ> mq_prev) (w_queues w q)"

definition next_filter :: "'d ms_world \<Rightarrow> ptr \<Rightarrow> ptr option" where
  "next_filter w q = map_option (fst \<circ> mq_next) (w_queues w q)"

text \<open>Recursion inside a loop over pins.\<close>

lemma run_steps_mono [partial_function_mono]:
  fixes F :: "('a \<Rightarrow> 'b option) \<Rightarrow> 'i \<Rightarrow> 's \<Rightarrow> 's option"
  assumes "\<And>i s. mono_option (\<lambda>f. F f i s)"
  shows "mono_option (\<lambda>f. run_steps (F f) xs s)"
  using assms
proof (induction xs arbitrary: s)
  case Nil
  show ?case by (simp add: option.const_mono)
next
  case (Cons x xs)
  have "mono_option (\<lambda>f. F f x s \<bind> (\<lambda>s. run_steps (F f) xs s))"
    using Cons by (intro bind_mono) auto
  then show ?case by simp
qed

text \<open>\<^verbatim>\<open>find_filters\<close>, with the filters found so far.\<close>

partial_function (option) find_filters ::
  "ptr \<Rightarrow> ptr list \<times> 'd ms_world \<Rightarrow> (ptr list \<times> 'd ms_world) option" where
  "find_filters f st = do {
     x \<leftarrow> w_filters (snd st) f;
     if f_seen x then Some st
     else do {
       w \<leftarrow> upd_filter f (\<lambda>x. x\<lparr>f_seen := True\<rparr>) (snd st);
       st \<leftarrow> run_steps (\<lambda>l st. case l of None \<Rightarrow> Some st
            | Some q \<Rightarrow> do { g \<leftarrow> prev_filter (snd st) q; find_filters g st }) (f_inputs x) (fst st @ [f], w);
       st \<leftarrow> run_steps (\<lambda>l st. case l of None \<Rightarrow> Some st
            | Some q \<Rightarrow> do { g \<leftarrow> next_filter (snd st) q; find_filters g st }) (f_outputs x) st;
       if fd_noutputs (f_desc x) \<ge> 1 \<and> (\<forall>l \<in> set (f_outputs x). l = None) then None else Some st } }"

definition ms_filter_find_neighbours :: "ptr \<Rightarrow> 'd ms_world \<Rightarrow> (ptr list \<times> 'd ms_world) option" where
  "ms_filter_find_neighbours me w = do {
     (l, w) \<leftarrow> find_filters me ([], w);
     w \<leftarrow> run_steps (\<lambda>f. upd_filter f (\<lambda>x. x\<lparr>f_seen := False\<rparr>)) l w;
     Some (l, w) }"

end
