(* ===== verification/Ms_Graph.thy ===== *)
theory Ms_Graph
  imports Ms_Filter
begin

text \<open>
  The graph that filters and queues form: well-formedness, its preservation by the connection
  operations of \<^verbatim>\<open>msfilter.c\<close>, and the correctness of
  \<^verbatim>\<open>ms_filter_find_neighbours\<close>.
\<close>

section \<open>Well-formed graphs\<close>

definition plugged :: "('d ms_filter \<Rightarrow> ptr option list) \<Rightarrow> 'd ms_world \<Rightarrow> ptr \<times> nat \<Rightarrow> ptr \<Rightarrow> bool" where
  "plugged tab w e q \<longleftrightarrow>
     (\<exists>x. w_filters w (fst e) = Some x \<and> snd e < length (tab x) \<and> tab x ! snd e = Some q)"

definition graph_ok :: "'d ms_world \<Rightarrow> bool" where
  "graph_ok w \<longleftrightarrow>
     (\<forall>f x. w_filters w f = Some x \<longrightarrow> f < w_fresh w \<and>
        length (f_inputs x) = fd_ninputs (f_desc x) \<and> length (f_outputs x) = fd_noutputs (f_desc x)) \<and>
     (\<forall>e q. plugged f_outputs w e q \<longrightarrow> (\<exists>r. w_queues w q = Some r \<and> mq_prev r = e)) \<and>
     (\<forall>e q. plugged f_inputs w e q \<longrightarrow> (\<exists>r. w_queues w q = Some r \<and> mq_next r = e)) \<and>
     (\<forall>q r. w_queues w q = Some r \<longrightarrow> q < w_fresh w \<and>
        plugged f_outputs w (mq_prev r) q \<and> plugged f_inputs w (mq_next r) q)"

text \<open>The connections between filters.\<close>

definition edges :: "'d ms_world \<Rightarrow> (ptr \<times> ptr) set" where
  "edges w = {(f, g). \<exists>q r. w_queues w q = Some r \<and> fst (mq_prev r) = f \<and> fst (mq_next r) = g}"

text \<open>What the graph consists of; messages, private data and the scheduling state are left out.\<close>

definition gview where
  "gview w = (\<lambda>f. map_option (\<lambda>x. (f_desc x, f_inputs x, f_outputs x, f_ticker x)) (w_filters w f),
     \<lambda>q. map_option (\<lambda>r. (mq_prev r, mq_next r)) (w_queues w q), w_fresh w)"

lemma gview_filter:
  assumes "gview w = gview w'" and "w_filters w f = Some x"
  obtains y where "w_filters w' f = Some y" "f_desc y = f_desc x" "f_inputs y = f_inputs x"
    "f_outputs y = f_outputs x" "f_ticker y = f_ticker x"
proof -
  have "map_option (\<lambda>x. (f_desc x, f_inputs x, f_outputs x, f_ticker x)) (w_filters w' f) =
      map_option (\<lambda>x. (f_desc x, f_inputs x, f_outputs x, f_ticker x)) (w_filters w f)"
    using arg_cong [OF assms(1), of "\<lambda>v. fst v f"] by (simp add: gview_def)
  then show ?thesis using assms(2) that by auto
qed

lemma gview_queue:
  assumes "gview w = gview w'" and "w_queues w q = Some r"
  obtains s where "w_queues w' q = Some s" "mq_prev s = mq_prev r" "mq_next s = mq_next r"
proof -
  have "map_option (\<lambda>r. (mq_prev r, mq_next r)) (w_queues w' q) = map_option (\<lambda>r. (mq_prev r, mq_next r)) (w_queues w q)"
    using arg_cong [OF assms(1), of "\<lambda>v. fst (snd v) q"] by (simp add: gview_def)
  then show ?thesis using assms(2) that by auto
qed

lemma gview_ends:
  assumes "gview w = gview w'"
  shows "next_filter w q = next_filter w' q" and "prev_filter w q = prev_filter w' q"
proof -
  have "map_option (\<lambda>r. (mq_prev r, mq_next r)) (w_queues w q) = map_option (\<lambda>r. (mq_prev r, mq_next r)) (w_queues w' q)"
    using arg_cong [OF assms(1), of "\<lambda>v. fst (snd v) q"] by (simp add: gview_def)
  then show "next_filter w q = next_filter w' q" "prev_filter w q = prev_filter w' q"
    unfolding next_filter_def prev_filter_def by (cases "w_queues w q"; cases "w_queues w' q"; simp)+
qed

lemma gview_plugged_imp:
  assumes g: "gview w = gview w'"
  shows "plugged f_outputs w e q \<Longrightarrow> plugged f_outputs w' e q"
    and "plugged f_inputs w e q \<Longrightarrow> plugged f_inputs w' e q"
proof -
  show "plugged f_outputs w e q \<Longrightarrow> plugged f_outputs w' e q"
    unfolding plugged_def by (elim exE conjE) (rule gview_filter [OF g], assumption, auto)
  show "plugged f_inputs w e q \<Longrightarrow> plugged f_inputs w' e q"
    unfolding plugged_def by (elim exE conjE) (rule gview_filter [OF g], assumption, auto)
qed

lemma gview_plugged:
  assumes g: "gview w = gview w'"
  shows "plugged f_outputs w e q \<longleftrightarrow> plugged f_outputs w' e q"
    and "plugged f_inputs w e q \<longleftrightarrow> plugged f_inputs w' e q"
  using gview_plugged_imp [OF g] gview_plugged_imp [OF g [symmetric]] by blast+

lemma edgesI: "w_queues w q = Some r \<Longrightarrow> (fst (mq_prev r), fst (mq_next r)) \<in> edges w"
  by (auto simp: edges_def)

lemma gview_edges_sub:
  assumes g: "gview w = gview w'"
  shows "edges w \<subseteq> edges w'"
proof
  fix e
  assume "e \<in> edges w"
  then obtain q r where e: "e = (fst (mq_prev r), fst (mq_next r))" "w_queues w q = Some r"
    by (auto simp: edges_def)
  obtain s where "w_queues w' q = Some s" "mq_prev s = mq_prev r" "mq_next s = mq_next r"
    using gview_queue [OF g e(2)] .
  then show "e \<in> edges w'" using e(1) edgesI by metis
qed

lemma gview_edges: "gview w = gview w' \<Longrightarrow> edges w = edges w'"
  by (intro subset_antisym gview_edges_sub) simp_all

lemma gview_ok:
  assumes g: "gview w = gview w'" and ok: "graph_ok w"
  shows "graph_ok w'"
proof -
  have fresh: "w_fresh w' = w_fresh w" using g by (simp add: gview_def)
  note p = gview_plugged [OF g]
  show ?thesis
    unfolding graph_ok_def
  proof (intro conjI allI impI)
    fix f x
    assume "w_filters w' f = Some x"
    then obtain y where "w_filters w f = Some y" "f_desc y = f_desc x" "f_inputs y = f_inputs x" "f_outputs y = f_outputs x"
      using gview_filter [OF g [symmetric]] by metis
    then show "f < w_fresh w'" "length (f_inputs x) = fd_ninputs (f_desc x)"
      "length (f_outputs x) = fd_noutputs (f_desc x)"
      using ok fresh unfolding graph_ok_def by metis+
  next
    fix e q
    assume "plugged f_outputs w' e q"
    then obtain r where "w_queues w q = Some r" "mq_prev r = e" using ok p unfolding graph_ok_def by blast
    then show "\<exists>r. w_queues w' q = Some r \<and> mq_prev r = e" using gview_queue [OF g] by metis
  next
    fix e q
    assume "plugged f_inputs w' e q"
    then obtain r where "w_queues w q = Some r" "mq_next r = e" using ok p unfolding graph_ok_def by blast
    then show "\<exists>r. w_queues w' q = Some r \<and> mq_next r = e" using gview_queue [OF g] by metis
  next
    fix q r
    assume "w_queues w' q = Some r"
    then obtain s where s: "w_queues w q = Some s" "mq_prev s = mq_prev r" "mq_next s = mq_next r"
      using gview_queue [OF g [symmetric]] by metis
    then have "q < w_fresh w \<and> plugged f_outputs w (mq_prev s) q \<and> plugged f_inputs w (mq_next s) q"
      using ok unfolding graph_ok_def by blast
    then show "q < w_fresh w'" "plugged f_outputs w' (mq_prev r) q" "plugged f_inputs w' (mq_next r) q"
      using s p fresh by auto
  qed
qed

lemma graph_okD:
  assumes "graph_ok w" and "w_filters w f = Some x"
  shows "f < w_fresh w" "length (f_inputs x) = fd_ninputs (f_desc x)" "length (f_outputs x) = fd_noutputs (f_desc x)"
    and "i < length (f_outputs x) \<Longrightarrow> f_outputs x ! i = Some q \<Longrightarrow> \<exists>r. w_queues w q = Some r \<and> mq_prev r = (f, i)"
    and "i < length (f_inputs x) \<Longrightarrow> f_inputs x ! i = Some q \<Longrightarrow> \<exists>r. w_queues w q = Some r \<and> mq_next r = (f, i)"
  using assms unfolding graph_ok_def plugged_def by (auto 5 0)

lemma graph_ok_queue:
  assumes "graph_ok w" and "w_queues w q = Some r"
  shows "q < w_fresh w" "plugged f_outputs w (mq_prev r) q" "plugged f_inputs w (mq_next r) q"
  using assms unfolding graph_ok_def by blast+

text \<open>The connections of a filter are those at its pins.\<close>

lemma edges_outputs:
  assumes "graph_ok w" and "w_filters w f = Some x"
  shows "(f, g) \<in> edges w \<longleftrightarrow> (\<exists>q. Some q \<in> set (f_outputs x) \<and> next_filter w q = Some g)"
proof
  assume "(f, g) \<in> edges w"
  then obtain q r where q: "w_queues w q = Some r" "fst (mq_prev r) = f" "fst (mq_next r) = g"
    by (auto simp: edges_def)
  then have "Some q \<in> set (f_outputs x)"
    using graph_ok_queue(2) [OF assms(1) q(1)] assms(2) by (auto simp: plugged_def in_set_conv_nth)
  then show "\<exists>q. Some q \<in> set (f_outputs x) \<and> next_filter w q = Some g"
    using q by (auto simp: next_filter_def)
next
  assume "\<exists>q. Some q \<in> set (f_outputs x) \<and> next_filter w q = Some g"
  then obtain q i where q: "i < length (f_outputs x)" "f_outputs x ! i = Some q" "next_filter w q = Some g"
    by (auto simp: in_set_conv_nth)
  then obtain r where "w_queues w q = Some r" "mq_prev r = (f, i)" using graph_okD(4) [OF assms] by blast
  then show "(f, g) \<in> edges w" using q(3) edgesI [of w q r] by (auto simp: next_filter_def)
qed

lemma edges_inputs:
  assumes "graph_ok w" and "w_filters w f = Some x"
  shows "(g, f) \<in> edges w \<longleftrightarrow> (\<exists>q. Some q \<in> set (f_inputs x) \<and> prev_filter w q = Some g)"
proof
  assume "(g, f) \<in> edges w"
  then obtain q r where q: "w_queues w q = Some r" "fst (mq_prev r) = g" "fst (mq_next r) = f"
    by (auto simp: edges_def)
  then have "Some q \<in> set (f_inputs x)"
    using graph_ok_queue(3) [OF assms(1) q(1)] assms(2) by (auto simp: plugged_def in_set_conv_nth)
  then show "\<exists>q. Some q \<in> set (f_inputs x) \<and> prev_filter w q = Some g"
    using q by (auto simp: prev_filter_def)
next
  assume "\<exists>q. Some q \<in> set (f_inputs x) \<and> prev_filter w q = Some g"
  then obtain q i where q: "i < length (f_inputs x)" "f_inputs x ! i = Some q" "prev_filter w q = Some g"
    by (auto simp: in_set_conv_nth)
  then obtain r where "w_queues w q = Some r" "mq_next r = (f, i)" using graph_okD(5) [OF assms] by blast
  then show "(g, f) \<in> edges w" using q(3) edgesI [of w q r] by (auto simp: prev_filter_def)
qed

lemma edges_filters:
  assumes "graph_ok w" and "(f, g) \<in> edges w"
  shows "f \<in> dom (w_filters w)" "g \<in> dom (w_filters w)"
  using assms graph_ok_queue(2,3) by (fastforce simp: edges_def plugged_def)+

lemma pin_next:
  assumes "graph_ok w" and "w_filters w f = Some x" and "Some q \<in> set (f_outputs x)"
  shows "\<exists>g. next_filter w q = Some g \<and> (f, g) \<in> edges w"
proof -
  obtain i where i: "i < length (f_outputs x)" "f_outputs x ! i = Some q"
    using assms(3) by (auto simp: in_set_conv_nth)
  then obtain r where "w_queues w q = Some r" "mq_prev r = (f, i)" using graph_okD(4) [OF assms(1,2)] by blast
  then show ?thesis using edgesI [of w q r] by (auto simp: next_filter_def)
qed

lemma pin_prev:
  assumes "graph_ok w" and "w_filters w f = Some x" and "Some q \<in> set (f_inputs x)"
  shows "\<exists>g. prev_filter w q = Some g \<and> (g, f) \<in> edges w"
proof -
  obtain i where i: "i < length (f_inputs x)" "f_inputs x ! i = Some q"
    using assms(3) by (auto simp: in_set_conv_nth)
  then obtain r where "w_queues w q = Some r" "mq_next r = (f, i)" using graph_okD(5) [OF assms(1,2)] by blast
  then show ?thesis using edgesI [of w q r] by (auto simp: prev_filter_def)
qed

lemma finite_filters: "graph_ok w \<Longrightarrow> finite (dom (w_filters w))"
  by (rule finite_subset [of _ "{..<w_fresh w}"]) (auto simp: graph_ok_def)

section \<open>Neighbours\<close>

definition links :: "'d ms_world \<Rightarrow> (ptr \<times> ptr) set" where
  "links w = edges w \<union> (edges w)\<inverse>"

text \<open>The filters that are connected to \<open>f\<close>, directly or through others.\<close>

definition component :: "'d ms_world \<Rightarrow> ptr \<Rightarrow> ptr set" where
  "component w f = (links w)\<^sup>* `` {f}"

text \<open>A filter with outputs has one that is connected; \<^verbatim>\<open>find_filters\<close> aborts otherwise.\<close>

definition has_output :: "'d ms_world \<Rightarrow> ptr \<Rightarrow> bool" where
  "has_output w f \<longleftrightarrow> (\<exists>x. w_filters w f = Some x \<and> (fd_noutputs (f_desc x) = 0 \<or> (\<exists>l \<in> set (f_outputs x). l \<noteq> None)))"

definition mark_seen :: "ptr set \<Rightarrow> 'd ms_world \<Rightarrow> 'd ms_world" where
  "mark_seen S w = w\<lparr>w_filters := \<lambda>f. map_option (\<lambda>x. x\<lparr>f_seen := f \<in> S\<rparr>) (w_filters w f)\<rparr>"

lemma mark_seen_simps [simp]:
  "w_filters (mark_seen S w) f = map_option (\<lambda>x. x\<lparr>f_seen := f \<in> S\<rparr>) (w_filters w f)"
  "w_queues (mark_seen S w) = w_queues w"
  "prev_filter (mark_seen S w) q = prev_filter w q" "next_filter (mark_seen S w) q = next_filter w q"
  by (simp_all add: mark_seen_def prev_filter_def next_filter_def)

lemma mark_seen_upd:
  "w_filters w f \<noteq> None \<Longrightarrow>
   upd_filter f (\<lambda>x. x\<lparr>f_seen := b\<rparr>) (mark_seen S w) = Some (mark_seen (if b then insert f S else S - {f}) w)"
  by (auto simp: upd_filter_def mark_seen_def fun_eq_iff split: option.splits)

lemma mark_seen_none:
  assumes "\<forall>f x. w_filters w f = Some x \<longrightarrow> \<not> f_seen x"
  shows "mark_seen {} w = w"
proof -
  have "(\<lambda>f. map_option (\<lambda>x. x\<lparr>f_seen := False\<rparr>) (w_filters w f)) = w_filters w"
  proof
    fix f
    show "map_option (\<lambda>x. x\<lparr>f_seen := False\<rparr>) (w_filters w f) = w_filters w f"
      using assms by (cases "w_filters w f") auto
  qed
  then show ?thesis by (simp add: mark_seen_def)
qed

text \<open>What one call finds, after \<open>l\<close>.\<close>

definition finds :: "'d ms_world \<Rightarrow> ptr set \<Rightarrow> ptr \<Rightarrow> ptr list \<Rightarrow> ptr list \<Rightarrow> bool" where
  "finds w C f l new \<longleftrightarrow> distinct new \<and> set new \<inter> set l = {} \<and> set new \<subseteq> C \<and> set new \<subseteq> component w f \<and>
     (\<forall>g \<in> set new. \<forall>h. (g, h) \<in> links w \<longrightarrow> h \<in> set (l @ new))"

lemma component_step: "(f, g) \<in> links w \<Longrightarrow> component w g \<subseteq> component w f"
  by (auto simp: component_def intro: converse_rtrancl_into_rtrancl)

lemma finds_trans:
  assumes "finds w C f l a" and "finds w C f (l @ a) b"
  shows "finds w C f l (a @ b)"
  using assms unfolding finds_def by auto

lemma find_pins:
  fixes w :: "'d ms_world"
  assumes IH: "\<forall>g l. g \<in> C \<longrightarrow> S \<subseteq> set l \<longrightarrow>
      (\<exists>new. find_filters g (l, mark_seen (set l) w) = Some (l @ new, mark_seen (set (l @ new)) w) \<and>
         finds w C g l new \<and> g \<in> set (l @ new))"
    and closed: "\<forall>g h. (g, h) \<in> links w \<longrightarrow> g \<in> C \<longrightarrow> h \<in> C" and f: "f \<in> C"
    and pins: "\<forall>q. Some q \<in> set ps \<longrightarrow> (\<exists>g. peer w q = Some g \<and> (f, g) \<in> links w)"
    and peer: "\<And>S. peer (mark_seen S w) = peer w" and sub: "S \<subseteq> set l"
  shows "\<exists>new. run_steps (\<lambda>l st. case l of None \<Rightarrow> Some st
        | Some q \<Rightarrow> do { g \<leftarrow> peer (snd st) q; find_filters g st }) ps (l, mark_seen (set l) w) =
      Some (l @ new, mark_seen (set (l @ new)) w) \<and>
    finds w C f l new \<and> (\<forall>q g. Some q \<in> set ps \<longrightarrow> peer w q = Some g \<longrightarrow> g \<in> set (l @ new))"
  using pins sub
proof (induction ps arbitrary: l)
  case Nil
  then show ?case by (intro exI [of _ "[]"]) (simp add: finds_def)
next
  case (Cons p ps)
  show ?case
  proof (cases p)
    case None
    then show ?thesis using Cons.IH [OF _ Cons.prems(2)] Cons.prems(1) by auto
  next
    case (Some q)
    then obtain g where g: "peer w q = Some g" "(f, g) \<in> links w" using Cons.prems(1) by auto
    then have "g \<in> C" using closed f by blast
    then obtain a where a: "find_filters g (l, mark_seen (set l) w) = Some (l @ a, mark_seen (set (l @ a)) w)"
      "finds w C g l a" "g \<in> set (l @ a)" using IH Cons.prems(2) by blast
    have fa: "finds w C f l a" using a(2) component_step [OF g(2)] unfolding finds_def by blast
    have "S \<subseteq> set (l @ a)" using Cons.prems(2) by auto
    then obtain b where b: "run_steps (\<lambda>l st. case l of None \<Rightarrow> Some st
        | Some q \<Rightarrow> do { g \<leftarrow> peer (snd st) q; find_filters g st }) ps (l @ a, mark_seen (set (l @ a)) w) =
      Some ((l @ a) @ b, mark_seen (set ((l @ a) @ b)) w)" "finds w C f (l @ a) b"
      "\<forall>q g. Some q \<in> set ps \<longrightarrow> peer w q = Some g \<longrightarrow> g \<in> set ((l @ a) @ b)"
      using Cons.IH [of "l @ a"] Cons.prems(1) by auto
    have "finds w C f l (a @ b)" by (rule finds_trans [OF fa b(2)])
    then show ?thesis
      using a(1,3) b(1,3) Some g(1) peer by (intro exI [of _ "a @ b"]) auto
  qed
qed

lemma find_filters_finds:
  fixes w :: "'d ms_world"
  assumes ok: "graph_ok w" and fin: "finite C" and C: "C \<subseteq> dom (w_filters w)"
    and closed: "\<forall>g h. (g, h) \<in> links w \<longrightarrow> g \<in> C \<longrightarrow> h \<in> C" and out: "\<forall>g \<in> C. has_output w g" and f: "f \<in> C"
  shows "\<exists>new. find_filters f (l, mark_seen (set l) w) = Some (l @ new, mark_seen (set (l @ new)) w) \<and>
    finds w C f l new \<and> f \<in> set (l @ new)"
  using f
proof (induction "card (C - set l)" arbitrary: l f rule: less_induct)
  case less
  obtain x where x: "w_filters w f = Some x" using C less.prems by auto
  show ?case
  proof (cases "f \<in> set l")
    case True
    then show ?thesis
      using x by (intro exI [of _ "[]"]) (simp add: find_filters.simps [of f] finds_def)
  next
    case False
    have IH: "\<forall>g k. g \<in> C \<longrightarrow> insert f (set l) \<subseteq> set k \<longrightarrow>
      (\<exists>new. find_filters g (k, mark_seen (set k) w) = Some (k @ new, mark_seen (set (k @ new)) w) \<and>
         finds w C g k new \<and> g \<in> set (k @ new))"
    proof (intro allI impI)
      fix g k
      assume g: "g \<in> C" and k: "insert f (set l) \<subseteq> set k"
      have "card (C - set k) < card (C - set l)"
        using k False less.prems fin by (intro psubset_card_mono) auto
      then show "\<exists>new. find_filters g (k, mark_seen (set k) w) = Some (k @ new, mark_seen (set (k @ new)) w) \<and>
         finds w C g k new \<and> g \<in> set (k @ new)" using less.hyps g by blast
    qed
    have pv: "\<And>S. prev_filter (mark_seen S w) = prev_filter w" and nv: "\<And>S. next_filter (mark_seen S w) = next_filter w"
      by (simp_all add: fun_eq_iff)
    have pi: "\<forall>q. Some q \<in> set (f_inputs x) \<longrightarrow> (\<exists>g. prev_filter w q = Some g \<and> (f, g) \<in> links w)"
      using pin_prev [OF ok x] unfolding links_def by blast
    have po: "\<forall>q. Some q \<in> set (f_outputs x) \<longrightarrow> (\<exists>g. next_filter w q = Some g \<and> (f, g) \<in> links w)"
      using pin_next [OF ok x] unfolding links_def by blast
    obtain a where a: "run_steps (\<lambda>l st. case l of None \<Rightarrow> Some st
        | Some q \<Rightarrow> do { g \<leftarrow> prev_filter (snd st) q; find_filters g st }) (f_inputs x)
        (l @ [f], mark_seen (set (l @ [f])) w) = Some ((l @ [f]) @ a, mark_seen (set ((l @ [f]) @ a)) w)"
      "finds w C f (l @ [f]) a"
      "\<forall>q g. Some q \<in> set (f_inputs x) \<longrightarrow> prev_filter w q = Some g \<longrightarrow> g \<in> set ((l @ [f]) @ a)"
      using find_pins [where peer = prev_filter, OF IH closed less.prems pi pv, of "l @ [f]"] by auto
    obtain b where b: "run_steps (\<lambda>l st. case l of None \<Rightarrow> Some st
        | Some q \<Rightarrow> do { g \<leftarrow> next_filter (snd st) q; find_filters g st }) (f_outputs x)
        ((l @ [f]) @ a, mark_seen (set ((l @ [f]) @ a)) w) =
        Some (((l @ [f]) @ a) @ b, mark_seen (set (((l @ [f]) @ a) @ b)) w)"
      "finds w C f ((l @ [f]) @ a) b"
      "\<forall>q g. Some q \<in> set (f_outputs x) \<longrightarrow> next_filter w q = Some g \<longrightarrow> g \<in> set (((l @ [f]) @ a) @ b)"
      using find_pins [where peer = next_filter, OF IH closed less.prems po nv, of "(l @ [f]) @ a"] by auto
    have ab: "finds w C f (l @ [f]) (a @ b)" by (rule finds_trans [OF a(2) b(2)])
    have nbrs: "h \<in> set (((l @ [f]) @ a) @ b)" if "(f, h) \<in> links w" for h
      using that edges_inputs [OF ok x, of h] edges_outputs [OF ok x, of h] a(3) b(3) unfolding links_def by auto
    have "finds w C f l (f # a @ b)"
      using ab nbrs False less.prems unfolding finds_def component_def by auto
    moreover have "\<not> (fd_noutputs (f_desc x) \<ge> 1 \<and> (\<forall>l \<in> set (f_outputs x). l = None))"
      using out less.prems x unfolding has_output_def by fastforce
    moreover have "upd_filter f (\<lambda>x. x\<lparr>f_seen := True\<rparr>) (mark_seen (set l) w) = Some (mark_seen (set (l @ [f])) w)"
      using mark_seen_upd [of w f True "set l"] x by simp
    ultimately show ?thesis
      using x False a(1) b(1) by (intro exI [of _ "f # a @ b"]) (simp add: find_filters.simps [of f])
  qed
qed

lemma component_props:
  assumes ok: "graph_ok w" and f: "f \<in> dom (w_filters w)"
  shows "f \<in> component w f" "component w f \<subseteq> dom (w_filters w)" "finite (component w f)"
    and "\<forall>g h. (g, h) \<in> links w \<longrightarrow> g \<in> component w f \<longrightarrow> h \<in> component w f"
proof -
  show "f \<in> component w f" by (simp add: component_def)
  have l: "g \<in> dom (w_filters w) \<and> h \<in> dom (w_filters w)" if "(g, h) \<in> links w" for g h
    using that edges_filters [OF ok] unfolding links_def by blast
  have "h \<in> dom (w_filters w)" if "(f, h) \<in> (links w)\<^sup>*" for h
    using that f by (induction rule: rtrancl_induct) (use l in blast)+
  then show sub: "component w f \<subseteq> dom (w_filters w)" by (auto simp only: component_def Image_iff)
  then show "finite (component w f)" using finite_filters [OF ok] finite_subset by blast
  show "\<forall>g h. (g, h) \<in> links w \<longrightarrow> g \<in> component w f \<longrightarrow> h \<in> component w f"
    by (auto simp: component_def intro: rtrancl_into_rtrancl)
qed

lemma reset_seen:
  assumes "set l \<subseteq> dom (w_filters w)"
  shows "run_steps (\<lambda>f. upd_filter f (\<lambda>x. x\<lparr>f_seen := False\<rparr>)) l (mark_seen S w) = Some (mark_seen (S - set l) w)"
  using assms
proof (induction l arbitrary: S)
  case (Cons f l)
  have "upd_filter f (\<lambda>x. x\<lparr>f_seen := False\<rparr>) (mark_seen S w) = Some (mark_seen (S - {f}) w)"
    using mark_seen_upd [of w f False S] Cons.prems by auto
  moreover have "S - {f} - set l = S - set (f # l)" by auto
  ultimately show ?case using Cons by simp
qed simp

lemma find_neighbours_component:
  assumes ok: "graph_ok w" and f: "f \<in> dom (w_filters w)" and out: "\<forall>g \<in> component w f. has_output w g"
    and unseen: "\<forall>g x. w_filters w g = Some x \<longrightarrow> \<not> f_seen x"
  shows "\<exists>l. ms_filter_find_neighbours f w = Some (l, w) \<and> distinct l \<and> set l = component w f"
proof -
  note c = component_props [OF ok f]
  obtain l where l: "find_filters f ([], w) = Some (l, mark_seen (set l) w)" "finds w (component w f) f [] l" "f \<in> set l"
    using find_filters_finds [OF ok c(3,2,4) out c(1), of "[]"] mark_seen_none [OF unseen] by auto
  have "set l = component w f"
  proof
    show "set l \<subseteq> component w f" using l(2) by (simp add: finds_def)
    have "(links w)\<^sup>* `` set l = set l"
      using l(2) by (intro Image_closed_trancl) (auto simp: finds_def)
    then show "component w f \<subseteq> set l" using l(3) unfolding component_def by blast
  qed
  moreover have "run_steps (\<lambda>f. upd_filter f (\<lambda>x. x\<lparr>f_seen := False\<rparr>)) l (mark_seen (set l) w) = Some w"
    using reset_seen [of l w "set l"] calculation c(2) mark_seen_none [OF unseen] by simp
  ultimately show ?thesis using l(1,2) by (auto simp: ms_filter_find_neighbours_def finds_def)
qed

section \<open>Linking and unlinking\<close>

definition pins_free :: "'d ms_world \<Rightarrow> ptr \<Rightarrow> nat \<Rightarrow> ptr \<Rightarrow> nat \<Rightarrow> bool" where
  "pins_free w f1 i f2 j \<longleftrightarrow> (\<exists>x y. w_filters w f1 = Some x \<and> w_filters w f2 = Some y \<and>
     i < fd_noutputs (f_desc x) \<and> f_outputs x ! i = None \<and> j < fd_ninputs (f_desc y) \<and> f_inputs y ! j = None)"

text \<open>Writing one entry of a table.\<close>

definition plug_out :: "ptr \<Rightarrow> nat \<Rightarrow> ptr option \<Rightarrow> 'd ms_world \<Rightarrow> 'd ms_world" where
  "plug_out f i v w = w\<lparr>w_filters := (w_filters w)(f :=
     map_option (\<lambda>x. x\<lparr>f_outputs := (f_outputs x)[i := v]\<rparr>) (w_filters w f))\<rparr>"

definition plug_in :: "ptr \<Rightarrow> nat \<Rightarrow> ptr option \<Rightarrow> 'd ms_world \<Rightarrow> 'd ms_world" where
  "plug_in f i v w = w\<lparr>w_filters := (w_filters w)(f :=
     map_option (\<lambda>x. x\<lparr>f_inputs := (f_inputs x)[i := v]\<rparr>) (w_filters w f))\<rparr>"

lemma set_plug:
  assumes "f \<in> dom (w_filters w)"
  shows "set_output f i v w = Some (plug_out f i v w)" "set_input f i v w = Some (plug_in f i v w)"
  using assms by (auto simp: set_output_def set_input_def upd_filter_def plug_out_def plug_in_def)

lemma plug_frame [simp]:
  "w_queues (plug_out f i v w) = w_queues w" "w_queues (plug_in f i v w) = w_queues w"
  "w_fresh (plug_out f i v w) = w_fresh w" "w_fresh (plug_in f i v w) = w_fresh w"
  "dom (w_filters (plug_out f i v w)) = dom (w_filters w)" "dom (w_filters (plug_in f i v w)) = dom (w_filters w)"
  by (auto simp: plug_out_def plug_in_def)

text \<open>The tables of every filter have the size of its description, and addresses are in use.\<close>

definition tables_ok :: "'d ms_world \<Rightarrow> bool" where
  "tables_ok w \<longleftrightarrow> (\<forall>f x. w_filters w f = Some x \<longrightarrow> f < w_fresh w \<and>
     length (f_inputs x) = fd_ninputs (f_desc x) \<and> length (f_outputs x) = fd_noutputs (f_desc x))"

lemma tables_ok_plug [simp]:
  "tables_ok w \<Longrightarrow> tables_ok (plug_out f i v w)" "tables_ok w \<Longrightarrow> tables_ok (plug_in f i v w)"
  by (auto simp: tables_ok_def plug_out_def plug_in_def split: if_splits)

lemma plugged_plug:
  assumes "w_filters w f = Some x"
  shows "i < length (f_outputs x) \<Longrightarrow>
      plugged f_outputs (plug_out f i v w) e q \<longleftrightarrow> (if e = (f, i) then v = Some q else plugged f_outputs w e q)"
    and "plugged f_inputs (plug_out f i v w) e q \<longleftrightarrow> plugged f_inputs w e q"
    and "i < length (f_inputs x) \<Longrightarrow>
      plugged f_inputs (plug_in f i v w) e q \<longleftrightarrow> (if e = (f, i) then v = Some q else plugged f_inputs w e q)"
    and "plugged f_outputs (plug_in f i v w) e q \<longleftrightarrow> plugged f_outputs w e q"
  using assms by (cases e; auto simp: plugged_def plug_out_def plug_in_def nth_list_update)+

text \<open>The world with a new connection, and one without.\<close>

definition linked :: "ptr \<Rightarrow> nat \<Rightarrow> ptr \<Rightarrow> nat \<Rightarrow> 'd ms_world \<Rightarrow> 'd ms_world" where
  "linked f1 i f2 j w = plug_in f2 j (Some (w_fresh w)) (plug_out f1 i (Some (w_fresh w))
     (w\<lparr>w_queues := (w_queues w)(w_fresh w \<mapsto> \<lparr>mq_msgs = [], mq_prev = (f1, i), mq_next = (f2, j)\<rparr>),
        w_fresh := Suc (w_fresh w)\<rparr>))"

lemma link_spec:
  assumes ok: "graph_ok w" and d: "w_filters w f1 = Some x" "w_filters w f2 = Some y"
  shows "ms_filter_link f1 (int i) f2 (int j) w = Some (if pins_free w f1 i f2 j then (0, linked f1 i f2 j w) else (-1, w))"
proof -
  have len: "length (f_outputs x) = fd_noutputs (f_desc x)" "length (f_inputs y) = fd_ninputs (f_desc y)"
    using graph_okD(2,3) [OF ok] d by blast+
  let ?w = "w\<lparr>w_queues := (w_queues w)(w_fresh w \<mapsto> \<lparr>mq_msgs = [], mq_prev = (f1, i), mq_next = (f2, j)\<rparr>),
        w_fresh := Suc (w_fresh w)\<rparr>"
  have "f1 \<in> dom (w_filters ?w)" "f2 \<in> dom (w_filters (plug_out f1 i (Some (w_fresh w)) ?w))"
    using d by auto
  note s = set_plug(1) [OF this(1), of i "Some (w_fresh w)"] set_plug(2) [OF this(2), of j "Some (w_fresh w)"]
  show ?thesis
  proof (cases "pins_free w f1 i f2 j")
    case True
    then have "i < fd_noutputs (f_desc x)" "j < fd_ninputs (f_desc y)" "f_outputs x ! i = None" "f_inputs y ! j = None"
      using d by (auto simp: pins_free_def)
    then show ?thesis
      using d len True s by (simp add: ms_filter_link_def pin_at_def ms_queue_new_def linked_def)
  next
    case False
    then show ?thesis
      using d len by (auto simp: ms_filter_link_def pins_free_def pin_at_def)
  qed
qed

lemma linked_ok:
  assumes ok: "graph_ok w" and free: "pins_free w f1 i f2 j"
  shows "graph_ok (linked f1 i f2 j w)" "edges (linked f1 i f2 j w) = insert (f1, f2) (edges w)"
proof -
  obtain x y where x: "w_filters w f1 = Some x" "i < length (f_outputs x)" "f_outputs x ! i = None"
    and y: "w_filters w f2 = Some y" "j < length (f_inputs y)" "f_inputs y ! j = None"
    using free graph_okD(2,3) [OF ok] unfolding pins_free_def by metis
  let ?q = "w_fresh w"
  let ?w = "w\<lparr>w_queues := (w_queues w)(?q \<mapsto> \<lparr>mq_msgs = [], mq_prev = (f1, i), mq_next = (f2, j)\<rparr>), w_fresh := Suc ?q\<rparr>"
  have new: "w_queues w ?q = None"
    using graph_ok_queue(1) [OF ok] by (metis less_irrefl not_None_eq)
  obtain z where z: "w_filters (plug_out f1 i (Some ?q) ?w) f2 = Some z" "length (f_inputs z) = length (f_inputs y)"
    using x y by (cases "f1 = f2") (auto simp: plug_out_def)
  have po: "plugged f_outputs (linked f1 i f2 j w) e q \<longleftrightarrow> (if e = (f1, i) then q = ?q else plugged f_outputs w e q)"
    and pi: "plugged f_inputs (linked f1 i f2 j w) e q \<longleftrightarrow> (if e = (f2, j) then q = ?q else plugged f_inputs w e q)" for e q
    using plugged_plug(1,2) [of ?w f1 x i] plugged_plug(3,4) [OF z(1), of j] x y z(2)
    by (auto simp: linked_def plugged_def)
  have out: "\<not> plugged f_outputs w (f1, i) q" "\<not> plugged f_inputs w (f2, j) q" for q
    using x y by (auto simp: plugged_def)
  have qs: "w_queues (linked f1 i f2 j w) = (w_queues w)(?q \<mapsto> \<lparr>mq_msgs = [], mq_prev = (f1, i), mq_next = (f2, j)\<rparr>)"
    by (simp add: linked_def)
  have pre: "\<forall>e q. plugged f_outputs w e q \<longrightarrow> (\<exists>r. w_queues w q = Some r \<and> mq_prev r = e)"
      "\<forall>e q. plugged f_inputs w e q \<longrightarrow> (\<exists>r. w_queues w q = Some r \<and> mq_next r = e)"
    using ok unfolding graph_ok_def by blast+
  then have fresh: "\<not> plugged f_outputs w e ?q" "\<not> plugged f_inputs w e ?q" for e
    using new by fastforce+
  have "tables_ok ?w" using graph_okD(1-3) [OF ok] by (fastforce simp: tables_ok_def)
  then have t: "tables_ok (linked f1 i f2 j w)" by (simp add: linked_def)
  show "graph_ok (linked f1 i f2 j w)"
    unfolding graph_ok_def
  proof (intro conjI)
    show "\<forall>f x. w_filters (linked f1 i f2 j w) f = Some x \<longrightarrow> f < w_fresh (linked f1 i f2 j w) \<and>
        length (f_inputs x) = fd_ninputs (f_desc x) \<and> length (f_outputs x) = fd_noutputs (f_desc x)"
      using t by (simp add: tables_ok_def)
    show "\<forall>e q. plugged f_outputs (linked f1 i f2 j w) e q \<longrightarrow> (\<exists>r. w_queues (linked f1 i f2 j w) q = Some r \<and> mq_prev r = e)"
      using pre(1) fresh(1) by (auto simp: po qs)
    show "\<forall>e q. plugged f_inputs (linked f1 i f2 j w) e q \<longrightarrow> (\<exists>r. w_queues (linked f1 i f2 j w) q = Some r \<and> mq_next r = e)"
      using pre(2) fresh(2) by (auto simp: pi qs)
    show "\<forall>q r. w_queues (linked f1 i f2 j w) q = Some r \<longrightarrow> q < w_fresh (linked f1 i f2 j w) \<and>
        plugged f_outputs (linked f1 i f2 j w) (mq_prev r) q \<and> plugged f_inputs (linked f1 i f2 j w) (mq_next r) q"
    proof (intro allI impI)
      fix q r assume r: "w_queues (linked f1 i f2 j w) q = Some r"
      show "q < w_fresh (linked f1 i f2 j w) \<and>
        plugged f_outputs (linked f1 i f2 j w) (mq_prev r) q \<and> plugged f_inputs (linked f1 i f2 j w) (mq_next r) q"
      proof (cases "q = ?q")
        case True
        with r qs have "r = \<lparr>mq_msgs = [], mq_prev = (f1, i), mq_next = (f2, j)\<rparr>" by simp
        then show ?thesis unfolding po pi by (simp add: True linked_def)
      next
        case False
        with r qs have "w_queues w q = Some r" by simp
        note q = graph_ok_queue [OF ok this]
        then have "mq_prev r \<noteq> (f1, i)" "mq_next r \<noteq> (f2, j)" using out by metis+
        then show ?thesis using q unfolding po pi by (simp add: linked_def)
      qed
    qed
  qed
  show "edges (linked f1 i f2 j w) = insert (f1, f2) (edges w)"
  proof (intro set_eqI, clarify)
    fix a b
    have "(\<exists>q. q \<noteq> ?q \<and> (\<exists>r. w_queues w q = Some r \<and> fst (mq_prev r) = a \<and> fst (mq_next r) = b)) \<longleftrightarrow> (a, b) \<in> edges w"
      using new unfolding edges_def mem_Collect_eq prod.case by (metis option.distinct(1))
    then show "(a, b) \<in> edges (linked f1 i f2 j w) \<longleftrightarrow> (a, b) \<in> insert (f1, f2) (edges w)"
      unfolding edges_def qs by (auto split: if_splits)
  qed
qed

text \<open>Unlinking takes the connection away again; only the address of the queue stays used.\<close>

lemma unlink_spec:
  assumes ok: "graph_ok w" and d: "w_filters w f1 = Some x" "w_filters w f2 = Some y"
  shows "ms_filter_unlink f1 (int i) f2 (int j) w =
    (if \<exists>q. plugged f_outputs w (f1, i) q \<and> plugged f_inputs w (f2, j) q
     then Some (0, let w' = plug_in f2 j None (plug_out f1 i None w)
                   in w'\<lparr>w_queues := (w_queues w')(the (f_outputs x ! i) := None)\<rparr>)
     else Some (-1, w))"
proof -
  have len: "length (f_outputs x) = fd_noutputs (f_desc x)" "length (f_inputs y) = fd_ninputs (f_desc y)"
    using graph_okD(2,3) [OF ok] d by blast+
  have "f1 \<in> dom (w_filters w)" "f2 \<in> dom (w_filters (plug_out f1 i None w))"
    using d by auto
  note s = set_plug(1) [OF this(1), of i None] set_plug(2) [OF this(2), of j None]
  show ?thesis
  proof (cases "\<exists>q. plugged f_outputs w (f1, i) q \<and> plugged f_inputs w (f2, j) q")
    case True
    then obtain q where q: "i < length (f_outputs x)" "f_outputs x ! i = Some q" "j < length (f_inputs y)" "f_inputs y ! j = Some q"
      using d by (auto simp: plugged_def)
    then have "w_queues w q \<noteq> None" using graph_okD(4) [OF ok d(1)] by blast
    then show ?thesis
      using d len True s q by (simp add: ms_filter_unlink_def pin_at_def ms_queue_destroy_def Let_def)
  next
    case False
    then show ?thesis
      using d len by (cases "f_outputs x ! i") (auto simp: ms_filter_unlink_def plugged_def pin_at_def)
  qed
qed

lemma link_unlink:
  assumes ok: "graph_ok w" and free: "pins_free w f1 i f2 j"
  shows "ms_filter_unlink f1 (int i) f2 (int j) (linked f1 i f2 j w) = Some (0, w\<lparr>w_fresh := Suc (w_fresh w)\<rparr>)"
proof -
  obtain x y where x: "w_filters w f1 = Some x" "i < length (f_outputs x)" "f_outputs x ! i = None"
    and y: "w_filters w f2 = Some y" "j < length (f_inputs y)" "f_inputs y ! j = None"
    using free graph_okD(2,3) [OF ok] unfolding pins_free_def by metis
  have new: "w_queues w (w_fresh w) = None"
    using graph_ok_queue(1) [OF ok] by (metis less_irrefl not_None_eq)
  obtain x' y' where x': "w_filters (linked f1 i f2 j w) f1 = Some x'" "f_outputs x' = (f_outputs x)[i := Some (w_fresh w)]"
    and y': "w_filters (linked f1 i f2 j w) f2 = Some y'" "f_inputs y' = (f_inputs y)[j := Some (w_fresh w)]"
    using x y by (cases "f1 = f2") (auto simp: linked_def plug_out_def plug_in_def)
  have "plugged f_outputs (linked f1 i f2 j w) (f1, i) (w_fresh w)" "plugged f_inputs (linked f1 i f2 j w) (f2, j) (w_fresh w)"
    using x x' y y' by (auto simp: plugged_def)
  then have "ms_filter_unlink f1 (int i) f2 (int j) (linked f1 i f2 j w) =
      Some (0, let w' = plug_in f2 j None (plug_out f1 i None (linked f1 i f2 j w))
               in w'\<lparr>w_queues := (w_queues w')(w_fresh w := None)\<rparr>)"
    using unlink_spec [OF linked_ok(1) [OF ok free] x'(1) y'(1), of i j] x x'(2) by auto
  also have "(let w' = plug_in f2 j None (plug_out f1 i None (linked f1 i f2 j w))
               in w'\<lparr>w_queues := (w_queues w')(w_fresh w := None)\<rparr>) = w\<lparr>w_fresh := Suc (w_fresh w)\<rparr>"
    using x y new list_update_id [of "f_outputs x" i] list_update_id [of "f_inputs y" j]
    by (cases "f1 = f2") (auto simp: Let_def linked_def plug_out_def plug_in_def fun_eq_iff intro!: ms_world.equality)
  finally show ?thesis .
qed

end
