(* ===== verification/Ms_Ticker.thy ===== *)
theory Ms_Ticker
  imports Ms_Graph C_Float
begin

text \<open>
  The ticker, \<^verbatim>\<open>mediastreamer2/src/base/msticker.c\<close>: it holds the source filters
  of the graphs attached to it and, once per tick, runs every filter after the filters it reads from.
  The filters' own functions are parameters; their contract is the locale \<open>filter_code\<close> and
  its interpretation the filters of \<^verbatim>\<open>tee.c\<close>, \<^verbatim>\<open>join.c\<close> and
  \<^verbatim>\<open>void.c\<close>. The thread and its lock are not modelled: a tick is one step.
\<close>

section \<open>Attaching graphs\<close>

definition TICKER_INTERVAL :: int where "TICKER_INTERVAL = 10"

definition ms_ticker_init :: ms_ticker where
  "ms_ticker_init = \<lparr>t_execution_list = [], t_task_list = [], t_interval = TICKER_INTERVAL,
     t_ticks = 1, t_time = 0, t_orig = 0, t_run = True\<rparr>"

definition ms_ticker_new :: "'d ms_world \<Rightarrow> ptr \<times> 'd ms_world" where
  "ms_ticker_new w = (w_fresh w,
     w\<lparr>w_tickers := (w_tickers w)(w_fresh w \<mapsto> ms_ticker_init), w_fresh := Suc (w_fresh w)\<rparr>)"

definition get_sources :: "ptr list \<Rightarrow> 'd ms_world \<Rightarrow> ptr list" where
  "get_sources fs w = filter (\<lambda>f. fd_ninputs (f_desc (the (w_filters w f))) = 0) fs"

text \<open>The loop of \<^verbatim>\<open>ms_ticker_attach_multiple\<close>; a graph without a source aborts.\<close>

primrec attach_loop ::
  "(ptr \<Rightarrow> 'd ms_world \<Rightarrow> 'd ms_world option) \<Rightarrow> ptr \<Rightarrow> ptr list \<Rightarrow> ptr list \<Rightarrow> 'd ms_world \<Rightarrow>
   (ptr list \<times> 'd ms_world) option" where
  "attach_loop preprocess t [] tot w = Some (tot, w)"
| "attach_loop preprocess t (f # fs) tot w = do {
     x \<leftarrow> w_filters w f;
     if f_ticker x = None then do {
       (filters, w) \<leftarrow> ms_filter_find_neighbours f w;
       let sources = get_sources filters w;
       if sources = [] then None
       else do {
         w \<leftarrow> run_steps (ms_filter_preprocess preprocess t) filters w;
         attach_loop preprocess t fs (tot @ sources) w } }
     else attach_loop preprocess t fs tot w }"

definition ms_ticker_attach_multiple ::
  "(ptr \<Rightarrow> 'd ms_world \<Rightarrow> 'd ms_world option) \<Rightarrow> ptr \<Rightarrow> ptr list \<Rightarrow> 'd ms_world \<Rightarrow> 'd ms_world option" where
  "ms_ticker_attach_multiple preprocess t fs w = do {
     (total_sources, w) \<leftarrow> attach_loop preprocess t fs [] w;
     if total_sources = [] then Some w
     else upd_ticker t (\<lambda>y. y\<lparr>t_execution_list := t_execution_list y @ total_sources\<rparr>) w }"

definition ms_ticker_attach ::
  "(ptr \<Rightarrow> 'd ms_world \<Rightarrow> 'd ms_world option) \<Rightarrow> ptr \<Rightarrow> ptr \<Rightarrow> 'd ms_world \<Rightarrow> 'd ms_world option" where
  "ms_ticker_attach preprocess t f = ms_ticker_attach_multiple preprocess t [f]"

definition remove_tasks_for_filter :: "ptr \<Rightarrow> ptr \<Rightarrow> 'd ms_world \<Rightarrow> 'd ms_world option" where
  "remove_tasks_for_filter t f = upd_ticker t (\<lambda>y. y\<lparr>t_task_list := filter (\<lambda>task. fst task \<noteq> f) (t_task_list y)\<rparr>)"

definition call_postprocess ::
  "(ptr \<Rightarrow> 'd ms_world \<Rightarrow> 'd ms_world option) \<Rightarrow> ptr \<Rightarrow> 'd ms_world \<Rightarrow> 'd ms_world option" where
  "call_postprocess postprocess f w = do {
     x \<leftarrow> w_filters w f;
     w \<leftarrow> (if f_postponed_task x \<noteq> 0 then do { t \<leftarrow> f_ticker x; remove_tasks_for_filter t f w } else Some w);
     ms_filter_postprocess postprocess f w }"

definition ms_ticker_detach ::
  "(ptr \<Rightarrow> 'd ms_world \<Rightarrow> 'd ms_world option) \<Rightarrow> ptr \<Rightarrow> ptr \<Rightarrow> 'd ms_world \<Rightarrow> (int \<times> 'd ms_world) option" where
  "ms_ticker_detach postprocess t f w = do {
     x \<leftarrow> w_filters w f;
     if f_ticker x = None then Some (0, w)
     else do {
       (filters, w) \<leftarrow> ms_filter_find_neighbours f w;
       let sources = get_sources filters w;
       if sources = [] then None
       else do {
         w \<leftarrow> upd_ticker t (\<lambda>y. y\<lparr>t_execution_list := fold remove1 sources (t_execution_list y)\<rparr>) w;
         w \<leftarrow> run_steps (call_postprocess postprocess) filters w;
         Some (0, w) } } }"

section \<open>Running graphs\<close>

primrec can_process_loop :: "u32 \<Rightarrow> 'd ms_world \<Rightarrow> ptr option list \<Rightarrow> bool option" where
  "can_process_loop tick w [] = Some True"
| "can_process_loop tick w (l # ls) =
     (case l of None \<Rightarrow> can_process_loop tick w ls
      | Some q \<Rightarrow> do {
          g \<leftarrow> prev_filter w q;
          y \<leftarrow> w_filters w g;
          if f_last_tick y \<noteq> tick then Some False else can_process_loop tick w ls })"

definition filter_can_process :: "ptr \<Rightarrow> u32 \<Rightarrow> 'd ms_world \<Rightarrow> bool option" where
  "filter_can_process f tick w = do { x \<leftarrow> w_filters w f; can_process_loop tick w (f_inputs x) }"

text \<open>The filter's \<^verbatim>\<open>process\<close>, again while its inputs have data.\<close>

partial_function (option) process_while ::
  "(ptr \<Rightarrow> 'd ms_world \<Rightarrow> 'd ms_world option) \<Rightarrow> ptr \<Rightarrow> 'd ms_world \<Rightarrow> 'd ms_world option" where
  "process_while process f w = do {
     more \<leftarrow> ms_filter_inputs_have_data f w;
     if \<not> more then Some w
     else do {
       w \<leftarrow> process f w;
       x \<leftarrow> w_filters w f;
       if f_postponed_task x \<noteq> 0 then Some w else process_while process f w } }"

definition call_process ::
  "(ptr \<Rightarrow> 'd ms_world \<Rightarrow> 'd ms_world option) \<Rightarrow> ptr \<Rightarrow> 'd ms_world \<Rightarrow> 'd ms_world option" where
  "call_process process f w = do {
     x \<leftarrow> w_filters w f;
     if fd_ninputs (f_desc x) = 0 \<or> fd_flags (f_desc x) AND MS_FILTER_IS_PUMP \<noteq> 0 then process f w
     else process_while process f w }"

text \<open>
  \<^verbatim>\<open>run_graph\<close>: the state is the list of filters that could not be scheduled and the
  world. The outputs are read again at each step of the loop.
\<close>

partial_function (option) run_graph ::
  "(ptr \<Rightarrow> 'd ms_world \<Rightarrow> 'd ms_world option) \<Rightarrow> u32 \<Rightarrow> bool \<Rightarrow> ptr \<Rightarrow> ptr list \<times> 'd ms_world \<Rightarrow>
   (ptr list \<times> 'd ms_world) option" where
  "run_graph process ticks force_schedule f st = do {
     x \<leftarrow> w_filters (snd st) f;
     if f_last_tick x = ticks then Some st
     else do {
       can \<leftarrow> filter_can_process f ticks (snd st);
       if can \<or> force_schedule then do {
         w \<leftarrow> upd_filter f (\<lambda>x. x\<lparr>f_last_tick := ticks\<rparr>) (snd st);
         w \<leftarrow> call_process process f (w\<lparr>w_ran := w_ran w @ [f]\<rparr>);
         run_steps (\<lambda>i st. do {
           x \<leftarrow> w_filters (snd st) f;
           l \<leftarrow> pin_at (f_outputs x) i;
           case l of None \<Rightarrow> Some st
           | Some q \<Rightarrow> do { g \<leftarrow> next_filter (snd st) q; run_graph process ticks force_schedule g st } })
           (map int [0..<fd_noutputs (f_desc x)]) (fst st, w) }
       else Some (f # fst st, snd st) } }"

text \<open>The filters that could not be scheduled are run in any case, as if they were sources.\<close>

definition run_graphs ::
  "(ptr \<Rightarrow> 'd ms_world \<Rightarrow> 'd ms_world option) \<Rightarrow> u32 \<Rightarrow> ptr list \<Rightarrow> 'd ms_world \<Rightarrow> 'd ms_world option" where
  "run_graphs process ticks execution_list w = do {
     (unschedulable, w) \<leftarrow> run_steps (run_graph process ticks False) execution_list ([], w);
     if unschedulable = [] then Some w
     else map_option snd (run_steps (run_graph process ticks True) unschedulable ([], w)) }"

text \<open>The task list is emptied at the end, whatever the tasks have added to it.\<close>

definition run_tasks ::
  "(nat \<Rightarrow> ptr \<Rightarrow> 'd ms_world \<Rightarrow> 'd ms_world option) \<Rightarrow> ptr \<Rightarrow> 'd ms_world \<Rightarrow> 'd ms_world option" where
  "run_tasks taskfunc t w = do {
     y \<leftarrow> w_tickers w t;
     w \<leftarrow> run_steps (ms_filter_task_process taskfunc) (t_task_list y) w;
     upd_ticker t (\<lambda>y. y\<lparr>t_task_list := []\<rparr>) w }"

text \<open>One turn of the thread's loop, up to the wait for the next tick.\<close>

definition ms_ticker_tick ::
  "(ptr \<Rightarrow> 'd ms_world \<Rightarrow> 'd ms_world option) \<Rightarrow> (nat \<Rightarrow> ptr \<Rightarrow> 'd ms_world \<Rightarrow> 'd ms_world option) \<Rightarrow>
   ptr \<Rightarrow> 'd ms_world \<Rightarrow> 'd ms_world option" where
  "ms_ticker_tick process taskfunc t w = do {
     w \<leftarrow> upd_ticker t (\<lambda>y. y\<lparr>t_ticks := t_ticks y + 1\<rparr>) w;
     w \<leftarrow> run_tasks taskfunc t w;
     y \<leftarrow> w_tickers w t;
     w \<leftarrow> run_graphs process (t_ticks y) (t_execution_list y) w;
     upd_ticker t (\<lambda>y. y\<lparr>t_time := t_time y + of_int (t_interval y)\<rparr>) w }"

text \<open>The loop of the thread, \<^verbatim>\<open>ms_ticker_run\<close>, for \<open>n\<close> turns.\<close>

primrec ms_ticker_run ::
  "(ptr \<Rightarrow> 'd ms_world \<Rightarrow> 'd ms_world option) \<Rightarrow> (nat \<Rightarrow> ptr \<Rightarrow> 'd ms_world \<Rightarrow> 'd ms_world option) \<Rightarrow>
   ptr \<Rightarrow> nat \<Rightarrow> 'd ms_world \<Rightarrow> 'd ms_world option" where
  "ms_ticker_run process taskfunc t 0 w = Some w"
| "ms_ticker_run process taskfunc t (Suc n) w = do {
     w \<leftarrow> ms_ticker_tick process taskfunc t w;
     ms_ticker_run process taskfunc t n w }"

section \<open>The clock of the ticker\<close>

text \<open>
  \<^verbatim>\<open>wait_next_tick\<close>, on the successive readings of the time function: the
  milliseconds slept and how late the tick is; \<open>None\<close> when the readings end first.
\<close>

fun wait_next_tick :: "u64 list \<Rightarrow> ms_ticker \<Rightarrow> (int list \<times> int) option" where
  "wait_next_tick [] s = None"
| "wait_next_tick (now # nows) s =
     (let realtime = now - t_orig s;
          diff = sint (t_time s - realtime)
      in if diff > 0 then do {
           (slept, late) \<leftarrow> wait_next_tick nows s;
           Some (c_int diff # slept, late) }
         else Some ([], c_int (- diff)))"

definition ms_ticker_set_time_func :: "u64 \<Rightarrow> ms_ticker \<Rightarrow> ms_ticker" where
  "ms_ticker_set_time_func now s = s\<lparr>t_orig := now - t_time s\<rparr>"

definition get_ms :: "int \<Rightarrow> int \<Rightarrow> u64" where
  "get_ms sec nsec = of_int (sec * 1000 + c_div (nsec + 500000) 1000000)"

record ms_synchronizer =
  sy_offset :: u64
  sy_av_skew :: rat

definition ms_ticker_synchronizer_new :: ms_synchronizer where
  "ms_ticker_synchronizer_new = \<lparr>sy_offset = 0, sy_av_skew = 0\<rparr>"

definition clock_coef :: rat where "clock_coef = to_double (1 / 100)"

definition ms_ticker_synchronizer_set_external_time :: "u64 \<Rightarrow> u64 \<Rightarrow> ms_synchronizer \<Rightarrow> ms_synchronizer" where
  "ms_ticker_synchronizer_set_external_time wc ms ts =
     (let ts = (if sy_offset ts = 0 then ts\<lparr>sy_offset := wc - ms\<rparr> else ts);
          diff = sint (wc - (sy_offset ts + ms))
      in ts\<lparr>sy_av_skew := to_double (to_double (sy_av_skew ts * to_double (1 - clock_coef)) +
            to_double (to_double (of_int diff) * clock_coef))\<rparr>)"

definition ms_ticker_synchronizer_get_corrected_time :: "u64 \<Rightarrow> ms_synchronizer \<Rightarrow> u64" where
  "ms_ticker_synchronizer_get_corrected_time wc ts =
     wc - of_int (c_div (trunc (sy_av_skew ts)) TICKER_INTERVAL * TICKER_INTERVAL)"

section \<open>Orders of execution\<close>

text \<open>
  The filters \<open>fs\<close> run one after the other when those in \<open>V\<close> have run: none again, and
  each after all of \<open>P\<close> it.
\<close>

primrec in_order :: "(ptr \<Rightarrow> ptr set) \<Rightarrow> ptr set \<Rightarrow> ptr list \<Rightarrow> bool" where
  "in_order P V [] = True"
| "in_order P V (f # fs) = (f \<notin> V \<and> P f \<subseteq> V \<and> in_order P (insert f V) fs)"

lemma in_order_append: "in_order P V (fs @ gs) \<longleftrightarrow> in_order P V fs \<and> in_order P (V \<union> set fs) gs"
  by (induction fs arbitrary: V) (auto simp: Un_insert_left)

lemma in_order_distinct: "in_order P V fs \<Longrightarrow> distinct fs \<and> set fs \<inter> V = {}"
  by (induction fs arbitrary: V) auto

lemma in_order_less:
  "in_order P V fs \<Longrightarrow> \<forall>f \<in> set fs. P f \<inter> V \<subseteq> W \<Longrightarrow> W \<subseteq> V \<Longrightarrow> in_order P W fs"
proof (induction fs arbitrary: V W)
  case (Cons f fs)
  have f: "f \<notin> V" "P f \<subseteq> V" "in_order P (insert f V) fs" using Cons.prems(1) by simp_all
  have "\<forall>g \<in> set fs. P g \<inter> insert f V \<subseteq> insert f W" using Cons.prems(2) by fastforce
  then have "in_order P (insert f W) fs" using Cons.IH [OF f(3)] Cons.prems(3) by blast
  moreover have "f \<notin> W" "P f \<subseteq> W" using f(1,2) Cons.prems(2,3) by auto
  ultimately show ?case by simp
qed simp

text \<open>No filter that can run follows one that has just run.\<close>

definition saturated :: "(ptr \<Rightarrow> ptr set) \<Rightarrow> ptr set \<Rightarrow> ptr list \<Rightarrow> bool" where
  "saturated P V fs \<longleftrightarrow> (\<forall>s. s \<notin> V \<union> set fs \<longrightarrow> P s \<subseteq> V \<union> set fs \<longrightarrow> P s \<inter> set fs = {})"

lemma saturated_append:
  assumes "saturated P V fs" and "saturated P (V \<union> set fs) gs"
  shows "saturated P V (fs @ gs)"
  unfolding saturated_def
proof (intro allI impI)
  fix s
  assume a: "s \<notin> V \<union> set (fs @ gs)" "P s \<subseteq> V \<union> set (fs @ gs)"
  then have g: "P s \<inter> set gs = {}" using assms(2) unfolding saturated_def by (simp add: Un_assoc)
  then have "P s \<subseteq> V \<union> set fs" using a(2) by auto
  then have "P s \<inter> set fs = {}" using assms(1) a(1) unfolding saturated_def by simp
  then show "P s \<inter> set (fs @ gs) = {}" using g by auto
qed

section \<open>The contract of a filter\<close>

definition last_of_filter :: "'d ms_world \<Rightarrow> ptr \<Rightarrow> u32 option" where
  "last_of_filter w f = map_option f_last_tick (w_filters w f)"

definition visited :: "u32 \<Rightarrow> 'd ms_world \<Rightarrow> ptr set" where
  "visited T w = {f. last_of_filter w f = Some T}"

text \<open>The tickers without their tasks.\<close>

definition tview where
  "tview w = (\<lambda>t. map_option (\<lambda>y. (t_execution_list y, t_ticks y, t_interval y, t_time y)) (w_tickers w t))"

definition tasks_of :: "'d ms_world \<Rightarrow> ptr set" where
  "tasks_of w = {f. \<exists>t y k. w_tickers w t = Some y \<and> (f, k) \<in> set (t_task_list y)}"

text \<open>
  What a filter leaves alone: the graph, the scheduling state, the tickers except for tasks of its
  own.
\<close>

definition untouched :: "ptr \<Rightarrow> 'd ms_world \<Rightarrow> 'd ms_world \<Rightarrow> bool" where
  "untouched f w w' \<longleftrightarrow> gview w' = gview w \<and> last_of_filter w' = last_of_filter w \<and> tview w' = tview w \<and>
     w_ran w' = w_ran w \<and> tasks_of w' \<subseteq> insert f (tasks_of w)"

text \<open>What the scheduler changes: neither the graph nor private data.\<close>

definition scheduling_only :: "'d ms_world \<Rightarrow> 'd ms_world \<Rightarrow> bool" where
  "scheduling_only w w' \<longleftrightarrow> gview w' = gview w \<and>
     (\<forall>t. map_option t_interval (w_tickers w' t) = map_option t_interval (w_tickers w t)) \<and>
     (\<forall>g. map_option f_data (w_filters w' g) = map_option f_data (w_filters w g))"

definition inputs_empty :: "'d ms_world \<Rightarrow> ptr \<Rightarrow> bool" where
  "inputs_empty w f \<longleftrightarrow> ms_filter_inputs_have_data f w = Some False"

text \<open>When \<^verbatim>\<open>process\<close> is called: a source or a pump, or there is something to read.\<close>

definition process_due :: "'d ms_world \<Rightarrow> ptr \<Rightarrow> bool" where
  "process_due w f \<longleftrightarrow> (\<exists>x. w_filters w f = Some x \<and>
     (fd_ninputs (f_desc x) = 0 \<or> fd_flags (f_desc x) AND MS_FILTER_IS_PUMP \<noteq> 0 \<or>
      ms_filter_inputs_have_data f w = Some True))"

text \<open>
  A part \<open>C\<close> of the graph that is closed under connections and whose filters are ready.
\<close>

definition runnable :: "('d ms_world \<Rightarrow> ptr \<Rightarrow> bool) \<Rightarrow> ptr set \<Rightarrow> 'd ms_world \<Rightarrow> bool" where
  "runnable ready C w \<longleftrightarrow> graph_ok w \<and> C \<subseteq> dom (w_filters w) \<and> (\<forall>f \<in> C. ready w f) \<and>
     (\<forall>f g. (f, g) \<in> edges w \<longrightarrow> (f \<in> C \<longleftrightarrow> g \<in> C) \<and> (f \<in> C \<longrightarrow> f \<noteq> g))"

lemma runnableD:
  assumes "runnable ready C w"
  shows "graph_ok w" "C \<subseteq> dom (w_filters w)" "\<forall>f \<in> C. ready w f"
    and "(f, g) \<in> edges w \<Longrightarrow> f \<in> C \<longleftrightarrow> g \<in> C" "(f, g) \<in> edges w \<Longrightarrow> f \<in> C \<Longrightarrow> f \<noteq> g"
  using assms by (simp_all add: runnable_def)

abbreviation (input) preds :: "'d ms_world \<Rightarrow> ptr \<Rightarrow> ptr set" where
  "preds w f \<equiv> {g. (g, f) \<in> edges w}"

text \<open>
  A filter that is ready (attached, and connected and set up as its code needs) and not connected to
  itself runs without fault, consumes all its input, as \<^verbatim>\<open>call_process\<close> asks, and
  leaves the rest of the graph and the other filters ready; so does a task it has postponed.
\<close>

locale filter_code =
  fixes process :: "ptr \<Rightarrow> 'd ms_world \<Rightarrow> 'd ms_world option"
    and taskfunc :: "nat \<Rightarrow> ptr \<Rightarrow> 'd ms_world \<Rightarrow> 'd ms_world option"
    and ready :: "'d ms_world \<Rightarrow> ptr \<Rightarrow> bool"
  assumes ready_frame: "ready w f \<Longrightarrow> scheduling_only w w' \<Longrightarrow> ready w' f"
    and process_ok:
      "graph_ok w \<Longrightarrow> f \<in> dom (w_filters w) \<Longrightarrow> ready w f \<Longrightarrow> (f, f) \<notin> edges w \<Longrightarrow> process_due w f \<Longrightarrow>
       \<exists>w'. process f w = Some w' \<and> untouched f w w' \<and> inputs_empty w' f \<and> (\<forall>g. ready w g \<longrightarrow> ready w' g)"
    and task_ok:
      "graph_ok w \<Longrightarrow> f \<in> dom (w_filters w) \<Longrightarrow> ready w f \<Longrightarrow>
       \<exists>w'. taskfunc k f w = Some w' \<and> untouched f w w' \<and> (\<forall>g. ready w g \<longrightarrow> ready w' g)"
begin

lemma inputs_have_data_total:
  assumes "graph_ok w" and "f \<in> dom (w_filters w)"
  shows "\<exists>b. ms_filter_inputs_have_data f w = Some b"
proof -
  obtain x where x: "w_filters w f = Some x" using assms(2) by auto
  have "w_queues w (the l) \<noteq> None" if "l \<in> set (f_inputs x)" "l \<noteq> None" for l
    using pin_prev [OF assms(1) x, of "the l"] that by (auto simp: prev_filter_def)
  then have "\<not> (\<exists>q \<in> set (f_inputs x). q \<noteq> None \<and> w_queues w (the q) = None)" by blast
  then show ?thesis using x by (simp only: ms_filter_inputs_have_data_def Option.bind.simps if_False) simp
qed

lemma call_process_ok:
  assumes ok: "graph_ok w" "f \<in> dom (w_filters w)" "ready w f" "(f, f) \<notin> edges w"
  shows "\<exists>w'. call_process process f w = Some w' \<and> untouched f w w' \<and> (\<forall>g. ready w g \<longrightarrow> ready w' g)"
proof -
  obtain x where x: "w_filters w f = Some x" using ok(2) by auto
  show ?thesis
  proof (cases "fd_ninputs (f_desc x) = 0 \<or> fd_flags (f_desc x) AND MS_FILTER_IS_PUMP \<noteq> 0")
    case True
    then have "process_due w f" using x by (auto simp: process_due_def)
    then show ?thesis using process_ok [OF ok] True x by (auto simp: call_process_def)
  next
    case False
    obtain b where b: "ms_filter_inputs_have_data f w = Some b"
      using inputs_have_data_total ok by blast
    show ?thesis
    proof (cases b)
      case False': False
      then show ?thesis using False x b by (auto simp: call_process_def process_while.simps [of _ f w] untouched_def)
    next
      case True
      then have "process_due w f" using x b by (auto simp: process_due_def)
      then obtain w' where w': "process f w = Some w'" "untouched f w w'" "inputs_empty w' f" "\<forall>g. ready w g \<longrightarrow> ready w' g"
        using process_ok [OF ok] by blast
      have "gview w = gview w'" using w'(2) by (simp add: untouched_def)
      then obtain y where y: "w_filters w' f = Some y" using gview_filter x by metis
      have "process_while process f w' = Some w'"
        using w'(3) unfolding inputs_empty_def by (simp add: process_while.simps [of _ f w'])
      then show ?thesis
        using False x b True w' y by (auto simp: call_process_def process_while.simps [of _ f w])
    qed
  qed
qed

text \<open>What running leads to, from \<open>w\<close> to \<open>w'\<close>: \<open>fs\<close> ran and \<open>us\<close> could not.\<close>

definition ran_from :: "u32 \<Rightarrow> bool \<Rightarrow> ptr set \<Rightarrow> 'd ms_world \<Rightarrow> 'd ms_world \<Rightarrow> ptr list \<Rightarrow> ptr list \<Rightarrow> bool" where
  "ran_from T force C w w' us fs \<longleftrightarrow> runnable ready C w' \<and> gview w' = gview w \<and> tview w' = tview w \<and>
     w_ran w' = w_ran w @ fs \<and> tasks_of w' \<subseteq> tasks_of w \<union> C \<and> last_of_filter w' = (\<lambda>f. if f \<in> set fs then Some T else last_of_filter w f) \<and>
     set us \<subseteq> C \<and> set fs \<subseteq> C \<and> in_order (if force then (\<lambda>_. {}) else preds w) (visited T w) fs \<and>
     (force \<longrightarrow> us = []) \<and> (force \<or> saturated (preds w) (visited T w) fs) \<and>
     (\<forall>g \<in> set fs. \<forall>s. (g, s) \<in> edges w \<longrightarrow> s \<in> visited T w' \<union> set us)"

lemma ran_from_visited: "ran_from T force C w w' us fs \<Longrightarrow> visited T w' = visited T w \<union> set fs"
  by (auto simp: ran_from_def visited_def)

lemma ran_from_refl: "runnable ready C w \<Longrightarrow> ran_from T force C w w [] []"
  by (auto simp: ran_from_def saturated_def)

lemma ran_from_trans:
  assumes a: "ran_from T force C w w1 us fs" and b: "ran_from T force C w1 w2 vs gs"
  shows "ran_from T force C w w2 (vs @ us) (fs @ gs)"
proof -
  have e: "edges w1 = edges w" using a by (intro gview_edges) (simp add: ran_from_def)
  have v: "visited T w1 = visited T w \<union> set fs" "visited T w2 = visited T w1 \<union> set gs"
    using a b ran_from_visited by blast+
  show ?thesis
    unfolding ran_from_def
  proof (intro conjI)
    show "in_order (if force then (\<lambda>_. {}) else preds w) (visited T w) (fs @ gs)"
      using a b unfolding ran_from_def e v(1) in_order_append by blast
    show "force \<or> saturated (preds w) (visited T w) (fs @ gs)"
      using a b e v(1) saturated_append [of "preds w" "visited T w" fs gs] by (auto simp: ran_from_def)
    show "\<forall>g \<in> set (fs @ gs). \<forall>s. (g, s) \<in> edges w \<longrightarrow> s \<in> visited T w2 \<union> set (vs @ us)"
      using a b e v(2) unfolding ran_from_def by fastforce
    show "last_of_filter w2 = (\<lambda>f. if f \<in> set (fs @ gs) then Some T else last_of_filter w f)"
      using a b by (auto simp: ran_from_def)
  qed (use a b in \<open>auto simp: ran_from_def\<close>)
qed

text \<open>Marking a filter and calling its code.\<close>

lemma runnable_step:
  assumes r: "runnable ready C w" and g: "gview w' = gview w" and rd: "\<forall>g \<in> C. ready w' g"
  shows "runnable ready C w'"
proof -
  have "dom (w_filters w) \<subseteq> dom (w_filters w')"
    using gview_filter [OF g [symmetric]] by (metis domI domD subsetI)
  then have "C \<subseteq> dom (w_filters w')" using runnableD(2) [OF r] by blast
  then show ?thesis
    using r rd gview_ok [OF g [symmetric]] gview_edges [OF g] unfolding runnable_def by auto
qed

lemma mark_and_process:
  assumes r: "runnable ready C w" and f: "f \<in> C" and x: "w_filters w f = Some x"
  shows "\<exists>w1 w'. upd_filter f (\<lambda>x. x\<lparr>f_last_tick := T\<rparr>) w = Some w1 \<and>
    call_process process f (w1\<lparr>w_ran := w_ran w1 @ [f]\<rparr>) = Some w' \<and> runnable ready C w' \<and> gview w' = gview w \<and>
    tview w' = tview w \<and> w_ran w' = w_ran w @ [f] \<and> tasks_of w' \<subseteq> tasks_of w \<union> C \<and>
    last_of_filter w' = (\<lambda>g. if g = f then Some T else last_of_filter w g)"
proof -
  define w1 where "w1 = w\<lparr>w_filters := (w_filters w)(f \<mapsto> x\<lparr>f_last_tick := T\<rparr>)\<rparr>"
  define w2 where "w2 = w1\<lparr>w_ran := w_ran w1 @ [f]\<rparr>"
  have g: "gview w2 = gview w"
    using x by (auto simp: gview_def w1_def w2_def)
  have "scheduling_only w w2"
    using g x by (auto simp: scheduling_only_def w1_def w2_def)
  then have "ready w2 h" if "ready w h" for h using ready_frame that by blast
  then have "\<forall>g \<in> C. ready w2 g" using runnableD(3) [OF r] by blast
  then have r2: "runnable ready C w2" by (rule runnable_step [OF r g])
  have c: "graph_ok w2" "f \<in> dom (w_filters w2)" "ready w2 f" "(f, f) \<notin> edges w2"
    using runnableD(1-3,5) [OF r2] f by blast+
  then obtain w' where w': "call_process process f w2 = Some w'" "untouched f w2 w'" "\<forall>g. ready w2 g \<longrightarrow> ready w' g"
    using call_process_ok [OF c] by blast
  have "\<forall>g \<in> C. ready w' g" using runnableD(3) [OF r2] w'(3) by blast
  then have "runnable ready C w'" using w'(2) by (intro runnable_step [OF r2]) (simp_all add: untouched_def)
  moreover have "tasks_of w2 = tasks_of w" "tview w2 = tview w"
    by (simp_all add: tasks_of_def tview_def w1_def w2_def)
  moreover have "last_of_filter w2 = (\<lambda>g. if g = f then Some T else last_of_filter w g)"
    by (auto simp: last_of_filter_def w1_def w2_def)
  ultimately show ?thesis
    using w' g x f unfolding untouched_def
    by (intro exI [of _ w1] exI [of _ w']) (auto simp: upd_filter_def w1_def w2_def)
qed

lemma can_process_iff:
  assumes ok: "graph_ok w" and x: "w_filters w f = Some x"
  shows "filter_can_process f T w = Some (preds w f \<subseteq> visited T w)"
proof -
  have "can_process_loop T w ls = Some (\<forall>q g. Some q \<in> set ls \<longrightarrow> prev_filter w q = Some g \<longrightarrow> g \<in> visited T w)"
    if "set ls \<subseteq> set (f_inputs x)" for ls
    using that
  proof (induction ls)
    case (Cons l ls)
    show ?case
    proof (cases l)
      case (Some q)
      then obtain g where g: "prev_filter w q = Some g" "(g, f) \<in> edges w"
        using pin_prev [OF ok x] Cons.prems by auto
      obtain y where y: "w_filters w g = Some y" using edges_filters [OF ok g(2)] by auto
      have "f_last_tick y = T \<longleftrightarrow> g \<in> visited T w" using y by (simp add: visited_def last_of_filter_def)
      then show ?thesis using Cons Some g(1) y by (cases "g \<in> visited T w") auto
    qed (use Cons in auto)
  qed simp
  then show ?thesis
    using x edges_inputs [OF ok x] by (auto simp: filter_can_process_def)
qed

text \<open>A call of \<open>run_graph\<close> on \<open>f\<close>.\<close>

definition visits :: "u32 \<Rightarrow> bool \<Rightarrow> ptr set \<Rightarrow> ptr \<Rightarrow> 'd ms_world \<Rightarrow> 'd ms_world \<Rightarrow> ptr list \<Rightarrow> ptr list \<Rightarrow> bool" where
  "visits T force C f w w' us fs \<longleftrightarrow> ran_from T force C w w' us fs \<and> f \<in> visited T w' \<union> set us \<and>
     (force \<or> f \<in> visited T w' \<or> \<not> preds w f \<subseteq> visited T w) \<and>
     set fs \<union> set us \<subseteq> (edges w)\<^sup>* `` {f}"

definition run_pin where
  "run_pin T force f i st = do {
     x \<leftarrow> w_filters (snd st) f;
     l \<leftarrow> pin_at (f_outputs x) i;
     case l of None \<Rightarrow> Some st
     | Some q \<Rightarrow> do { g \<leftarrow> next_filter (snd st) q; run_graph process T force g st } }"

lemma run_pins:
  assumes IH: "\<forall>w' U g. runnable ready C w' \<longrightarrow> V \<subseteq> visited T w' \<longrightarrow> g \<in> C \<longrightarrow>
      (\<exists>us w'' fs. run_graph process T force g (U, w') = Some (us @ U, w'') \<and> visits T force C g w' w'' us fs)"
    and "runnable ready C w" and "V \<subseteq> visited T w" and f: "f \<in> C" and "gview w = gview w0" and x: "w_filters w0 f = Some x"
    and "\<forall>i \<in> set ns. i < length (f_outputs x)"
  shows "\<exists>us w' fs. run_steps (run_pin T force f) (map int ns) (U, w) = Some (us @ U, w') \<and>
    ran_from T force C w w' us fs \<and> set fs \<union> set us \<subseteq> (edges w)\<^sup>* `` {f} \<and>
    (\<forall>i \<in> set ns. \<forall>q g. f_outputs x ! i = Some q \<longrightarrow> next_filter w0 q = Some g \<longrightarrow>
       g \<in> visited T w' \<union> set us \<and> (force \<or> g \<in> visited T w' \<or> \<not> preds w g \<subseteq> visited T w'))"
  using assms(2,3,5,7)
proof (induction ns arbitrary: w U)
  case Nil
  then show ?case using ran_from_refl [of C w] by (auto intro!: exI [of _ w] exI [of _ "[]"])
next
  case (Cons i ns)
  obtain y where y: "w_filters w f = Some y" "f_outputs y = f_outputs x"
    using gview_filter [OF Cons.prems(3) [symmetric] x] by metis
  have i: "i < length (f_outputs x)" using Cons.prems(4) by simp
  have ok: "graph_ok w" using Cons.prems(1) by (simp add: runnable_def)
  show ?case
  proof (cases "f_outputs x ! i")
    case None
    then have step: "run_pin T force f (int i) (U, w) = Some (U, w)"
      using y i by (simp add: run_pin_def pin_at_def)
    show ?thesis
      using Cons.IH [OF Cons.prems(1-3), of U] Cons.prems(4) None step by auto
  next
    case (Some q)
    then have q: "Some q \<in> set (f_outputs y)" using y i nth_mem by metis
    obtain g where g: "next_filter w q = Some g" "(f, g) \<in> edges w" using pin_next [OF ok y(1) q] by blast
    have gC: "g \<in> C" using runnableD(4) [OF Cons.prems(1) g(2)] f by blast
    obtain us w1 fs where one: "run_graph process T force g (U, w) = Some (us @ U, w1)" "visits T force C g w w1 us fs"
      using IH Cons.prems(1,2) gC by blast
    have r1: "ran_from T force C w w1 us fs" using one(2) by (simp add: visits_def)
    have step: "run_pin T force f (int i) (U, w) = Some (us @ U, w1)"
      using y i Some g(1) one(1) by (simp add: run_pin_def pin_at_def)
    have v1: "visited T w1 = visited T w \<union> set fs" using ran_from_visited [OF r1] .
    have g1: "gview w1 = gview w" using r1 by (simp add: ran_from_def)
    have e1: "edges w1 = edges w" using gview_edges [OF g1] .
    have pre: "runnable ready C w1" "V \<subseteq> visited T w1" "gview w1 = gview w0" "\<forall>i \<in> set ns. i < length (f_outputs x)"
      using r1 v1 g1 Cons.prems by (auto simp: ran_from_def)
    obtain vs w2 gs where two: "run_steps (run_pin T force f) (map int ns) (us @ U, w1) = Some (vs @ us @ U, w2)"
      "ran_from T force C w1 w2 vs gs" "set gs \<union> set vs \<subseteq> (edges w1)\<^sup>* `` {f}"
      "\<forall>i \<in> set ns. \<forall>q g. f_outputs x ! i = Some q \<longrightarrow> next_filter w0 q = Some g \<longrightarrow>
         g \<in> visited T w2 \<union> set vs \<and> (force \<or> g \<in> visited T w2 \<or> \<not> preds w1 g \<subseteq> visited T w2)"
      using Cons.IH [OF pre, of "us @ U"] by blast
    have v2: "visited T w2 = visited T w1 \<union> set gs" using ran_from_visited [OF two(2)] .
    have reach: "set fs \<union> set us \<subseteq> (edges w)\<^sup>* `` {f}"
      using one(2) g(2) unfolding visits_def by (auto intro: converse_rtrancl_into_rtrancl)
    have nf: "next_filter w0 q = Some g"
      using g(1) gview_ends(1) [OF Cons.prems(3)] by simp
    have here: "g \<in> visited T w2 \<union> set (vs @ us) \<and> (force \<or> g \<in> visited T w2 \<or> \<not> preds w g \<subseteq> visited T w2)"
    proof -
      have "force \<or> g \<in> visited T w2 \<or> \<not> preds w g \<subseteq> visited T w2"
      proof (rule ccontr)
        assume n: "\<not> (force \<or> g \<in> visited T w2 \<or> \<not> preds w g \<subseteq> visited T w2)"
        have "saturated (preds w) (visited T w) (fs @ gs)"
          using ran_from_trans [OF r1 two(2)] n by (simp add: ran_from_def)
        then have "preds w g \<inter> set (fs @ gs) = {}"
          using n v1 v2 unfolding saturated_def by auto
        then have "preds w g \<subseteq> visited T w" using n v1 v2 by auto
        then show False using one(2) n v1 v2 by (auto simp: visits_def)
      qed
      then show ?thesis using one(2) v2 by (auto simp: visits_def)
    qed
    show ?thesis
    proof (intro exI conjI)
      show "run_steps (run_pin T force f) (map int (i # ns)) (U, w) = Some ((vs @ us) @ U, w2)"
        using step two(1) by simp
      show "ran_from T force C w w2 (vs @ us) (fs @ gs)" by (rule ran_from_trans [OF r1 two(2)])
      show "set (fs @ gs) \<union> set (vs @ us) \<subseteq> (edges w)\<^sup>* `` {f}" using reach two(3) e1 by auto
      show "\<forall>j \<in> set (i # ns). \<forall>q g. f_outputs x ! j = Some q \<longrightarrow> next_filter w0 q = Some g \<longrightarrow>
         g \<in> visited T w2 \<union> set (vs @ us) \<and> (force \<or> g \<in> visited T w2 \<or> \<not> preds w g \<subseteq> visited T w2)"
        using here two(4) e1 Some nf by auto
    qed
  qed
qed

lemma run_graph_pins:
  "run_graph process T force f st = do {
     x \<leftarrow> w_filters (snd st) f;
     if f_last_tick x = T then Some st
     else do {
       can \<leftarrow> filter_can_process f T (snd st);
       if can \<or> force then do {
         w \<leftarrow> upd_filter f (\<lambda>x. x\<lparr>f_last_tick := T\<rparr>) (snd st);
         w \<leftarrow> call_process process f (w\<lparr>w_ran := w_ran w @ [f]\<rparr>);
         run_steps (run_pin T force f) (map int [0..<fd_noutputs (f_desc x)]) (fst st, w) }
       else Some (f # fst st, snd st) } }"
  unfolding run_pin_def by (subst run_graph.simps) (rule refl)

text \<open>The step of a filter that runs: its own call, then its outputs.\<close>

lemma run_graph_node:
  assumes IH: "\<And>w' U g. runnable ready C w' \<Longrightarrow> insert f (visited T w) \<subseteq> visited T w' \<Longrightarrow> g \<in> C \<Longrightarrow>
      \<exists>us w'' fs. run_graph process T force g (U, w') = Some (us @ U, w'') \<and> visits T force C g w' w'' us fs"
    and r: "runnable ready C w" and f: "f \<in> C" and x: "w_filters w f = Some x" and new: "f_last_tick x \<noteq> T"
    and can: "force \<or> preds w f \<subseteq> visited T w"
  shows "\<exists>us w' fs. run_graph process T force f (U, w) = Some (us @ U, w') \<and> visits T force C f w w' us fs"
proof -
  have ok: "graph_ok w" using r by (simp add: runnable_def)
  obtain w1 w2 where m: "upd_filter f (\<lambda>x. x\<lparr>f_last_tick := T\<rparr>) w = Some w1"
    "call_process process f (w1\<lparr>w_ran := w_ran w1 @ [f]\<rparr>) = Some w2" "runnable ready C w2" "gview w2 = gview w"
    "tview w2 = tview w" "w_ran w2 = w_ran w @ [f]" "tasks_of w2 \<subseteq> tasks_of w \<union> C"
    "last_of_filter w2 = (\<lambda>g. if g = f then Some T else last_of_filter w g)"
    using mark_and_process [OF r f x] by blast
  have v2: "visited T w2 = insert f (visited T w)" using m(8) by (auto simp: visited_def)
  have e2: "edges w2 = edges w" using gview_edges [OF m(4)] .
  have sub: "insert f (visited T w) \<subseteq> visited T w2" using v2 by simp
  have len: "length (f_outputs x) = fd_noutputs (f_desc x)" using graph_okD(3) [OF ok x] .
  have IH': "\<forall>w' U g. runnable ready C w' \<longrightarrow> insert f (visited T w) \<subseteq> visited T w' \<longrightarrow> g \<in> C \<longrightarrow>
      (\<exists>us w'' fs. run_graph process T force g (U, w') = Some (us @ U, w'') \<and> visits T force C g w' w'' us fs)"
    using IH by blast
  have pins: "\<forall>i \<in> set [0..<fd_noutputs (f_desc x)]. i < length (f_outputs x)" using len by simp
  obtain us w3 fs where p: "run_steps (run_pin T force f) (map int [0..<fd_noutputs (f_desc x)]) (U, w2) = Some (us @ U, w3)"
    "ran_from T force C w2 w3 us fs" "set fs \<union> set us \<subseteq> (edges w2)\<^sup>* `` {f}"
    "\<forall>i \<in> set [0..<fd_noutputs (f_desc x)]. \<forall>q g. f_outputs x ! i = Some q \<longrightarrow> next_filter w q = Some g \<longrightarrow>
       g \<in> visited T w3 \<union> set us \<and> (force \<or> g \<in> visited T w3 \<or> \<not> preds w2 g \<subseteq> visited T w3)"
    using run_pins [OF IH' m(3) sub f m(4) x pins, where U = U] by (elim exE conjE) (rule that)
  have v3: "visited T w3 = insert f (visited T w) \<union> set fs" using ran_from_visited [OF p(2)] v2 by simp
  have f_new: "f \<notin> visited T w" using x new by (simp add: visited_def last_of_filter_def)
  have outs: "g \<in> visited T w3 \<union> set us \<and> (force \<or> g \<in> visited T w3 \<or> \<not> preds w g \<subseteq> visited T w3)"
    if g: "(f, g) \<in> edges w" for g
  proof -
    obtain q where q: "Some q \<in> set (f_outputs x)" "next_filter w q = Some g"
      using edges_outputs [OF ok x] g by blast
    then obtain i where "i < length (f_outputs x)" "f_outputs x ! i = Some q" by (auto simp: in_set_conv_nth)
    then show ?thesis using p(4) q(2) len e2 by auto
  qed
  have sat: "force \<or> saturated (preds w) (visited T w) (f # fs)"
  proof (cases force)
    case False
    have "saturated (preds w) (insert f (visited T w)) fs" using p(2) False v2 e2 by (simp add: ran_from_def)
    then have "preds w s \<inter> set (f # fs) = {}"
      if "s \<notin> visited T w \<union> set (f # fs)" "preds w s \<subseteq> visited T w \<union> set (f # fs)" for s
      using that outs [of s] False v3 unfolding saturated_def by auto
    then show ?thesis unfolding saturated_def by blast
  qed simp
  have "ran_from T force C w w3 us (f # fs)"
    unfolding ran_from_def
  proof (intro conjI)
    show "in_order (if force then (\<lambda>_. {}) else preds w) (visited T w) (f # fs)"
      using p(2) v2 e2 f_new can by (cases force) (simp_all add: ran_from_def)
    show "force \<or> saturated (preds w) (visited T w) (f # fs)" by (rule sat)
    show "\<forall>g \<in> set (f # fs). \<forall>s. (g, s) \<in> edges w \<longrightarrow> s \<in> visited T w3 \<union> set us"
      using p(2) outs e2 by (auto simp: ran_from_def)
    show "last_of_filter w3 = (\<lambda>g. if g \<in> set (f # fs) then Some T else last_of_filter w g)"
      using p(2) m(8) by (auto simp: ran_from_def)
  qed (use p(2) m f in \<open>auto simp: ran_from_def\<close>)
  moreover have "f \<in> visited T w3" using v3 by simp
  moreover have "set (f # fs) \<union> set us \<subseteq> (edges w)\<^sup>* `` {f}" using p(3) e2 by auto
  ultimately have "visits T force C f w w3 us (f # fs)" by (simp add: visits_def)
  moreover have "run_graph process T force f (U, w) = Some (us @ U, w3)"
    using x new can m(1,2) p(1) can_process_iff [OF ok x, of T] by (subst run_graph_pins) auto
  ultimately show ?thesis by blast
qed

lemma run_graph_visits:
  assumes "finite C" and "runnable ready C w" and "f \<in> C"
  shows "\<exists>us w' fs. run_graph process T force f (U, w) = Some (us @ U, w') \<and> visits T force C f w w' us fs"
  using assms(2,3)
proof (induction "card (C - visited T w)" arbitrary: w f U rule: less_induct)
  case less
  have ok: "graph_ok w" using less.prems by (simp add: runnable_def)
  obtain x where x: "w_filters w f = Some x" using runnableD(2) less.prems by blast
  show ?case
  proof (cases "f_last_tick x = T")
    case True
    then have "f \<in> visited T w" using x by (simp add: visited_def last_of_filter_def)
    then have "visits T force C f w w [] []" using ran_from_refl [OF less.prems(1)] by (simp add: visits_def)
    moreover have "run_graph process T force f (U, w) = Some ([] @ U, w)"
      using x True by (subst run_graph_pins) simp
    ultimately show ?thesis by blast
  next
    case new: False
    then have f_new: "f \<in> C - visited T w" using x less.prems(2) by (simp add: visited_def last_of_filter_def)
    show ?thesis
    proof (cases "force \<or> preds w f \<subseteq> visited T w")
      case True
      show ?thesis
      proof (rule run_graph_node [OF _ less.prems x new True])
        fix w' U g
        assume "runnable ready C w'" "insert f (visited T w) \<subseteq> visited T w'" "g \<in> C"
        moreover have "card (C - visited T w') < card (C - visited T w)"
          using calculation(2) f_new assms(1) by (intro psubset_card_mono) auto
        ultimately show "\<exists>us w'' fs. run_graph process T force g (U, w') = Some (us @ U, w'') \<and>
            visits T force C g w' w'' us fs"
          using less.hyps by blast
      qed
    next
      case False
      then have "visits T force C f w w [f] []"
        using ran_from_refl [OF less.prems(1), of T force] less.prems(2) unfolding visits_def ran_from_def by auto
      moreover have "run_graph process T force f (U, w) = Some ([f] @ U, w)"
        using x new False can_process_iff [OF ok x, of T] by (subst run_graph_pins) simp
      ultimately show ?thesis by blast
    qed
  qed
qed

text \<open>A pass over the execution list.\<close>

lemma run_list:
  assumes "finite C" and "runnable ready C w" and "set es \<subseteq> C"
  shows "\<exists>us w' fs. run_steps (run_graph process T force) es (U, w) = Some (us @ U, w') \<and>
    ran_from T force C w w' us fs \<and> set es \<subseteq> visited T w' \<union> set us \<and>
    (\<forall>e \<in> set es. preds w e = {} \<longrightarrow> e \<in> visited T w') \<and> set fs \<union> set us \<subseteq> (edges w)\<^sup>* `` set es"
  using assms(2,3)
proof (induction es arbitrary: w U)
  case Nil
  then show ?case using ran_from_refl [of C w T force] by (intro exI [of _ "[]"] exI [of _ w]) simp
next
  case (Cons e es)
  obtain us w1 fs where one: "run_graph process T force e (U, w) = Some (us @ U, w1)" "visits T force C e w w1 us fs"
    using run_graph_visits [OF assms(1) Cons.prems(1), of e T force U] Cons.prems(2) by auto
  have r1: "ran_from T force C w w1 us fs" using one(2) by (simp add: visits_def)
  have "runnable ready C w1" "set es \<subseteq> C" "gview w1 = gview w" using r1 Cons.prems(2) by (simp_all add: ran_from_def)
  then obtain vs w2 gs where two: "run_steps (run_graph process T force) es (us @ U, w1) = Some (vs @ us @ U, w2)"
    "ran_from T force C w1 w2 vs gs" "set es \<subseteq> visited T w2 \<union> set vs"
    "\<forall>e \<in> set es. preds w1 e = {} \<longrightarrow> e \<in> visited T w2" "set gs \<union> set vs \<subseteq> (edges w1)\<^sup>* `` set es"
    using Cons.IH [of w1 "us @ U"] by blast
  have e1: "edges w1 = edges w" using \<open>gview w1 = gview w\<close> by (rule gview_edges)
  have v: "visited T w2 = visited T w1 \<union> set gs" "visited T w1 = visited T w \<union> set fs"
    using ran_from_visited two(2) r1 by blast+
  have r: "ran_from T force C w w2 (vs @ us) (fs @ gs)" by (rule ran_from_trans [OF r1 two(2)])
  have "e \<in> visited T w2" if "preds w e = {}"
    using that one(2) v r1 unfolding visits_def ran_from_def by auto
  moreover have "set es \<subseteq> visited T w2 \<union> set (vs @ us)" "e \<in> visited T w2 \<union> set (vs @ us)"
    using two(3) one(2) v(1) unfolding visits_def by auto
  moreover have "set (fs @ gs) \<union> set (vs @ us) \<subseteq> (edges w)\<^sup>* `` set (e # es)"
    using two(5) one(2) e1 unfolding visits_def by auto
  ultimately show ?case
    using r one(1) two(1,4) e1 by (intro exI [of _ "vs @ us"] exI [of _ w2] exI [of _ "fs @ gs"]) auto
qed

lemma run_graphs_runs:
  assumes "finite C" and r: "runnable ready C w" and es: "set es \<subseteq> C" and new: "visited T w \<inter> C = {}"
  shows "\<exists>w' fs. run_graphs process T es w = Some w' \<and> runnable ready C w' \<and> gview w' = gview w \<and>
    tview w' = tview w \<and> tasks_of w' \<subseteq> tasks_of w \<union> C \<and> w_ran w' = w_ran w @ fs \<and>
    last_of_filter w' = (\<lambda>f. if f \<in> set fs then Some T else last_of_filter w f) \<and> distinct fs \<and>
    set fs = (edges w)\<^sup>* `` set es \<and>
    (acyclic (Restr (edges w) C) \<and> (\<forall>e \<in> set es. preds w e = {}) \<and> (\<forall>f \<in> C. f \<in> set es \<or> preds w f \<noteq> {}) \<longrightarrow>
       in_order (preds w) {} fs \<and> set fs = C)"
proof -
  obtain us w1 fs where one: "run_steps (run_graph process T False) es ([], w) = Some (us @ [], w1)"
    "ran_from T False C w w1 us fs" "set es \<subseteq> visited T w1 \<union> set us"
    "\<forall>e \<in> set es. preds w e = {} \<longrightarrow> e \<in> visited T w1" "set fs \<union> set us \<subseteq> (edges w)\<^sup>* `` set es"
    using run_list [OF assms(1) r es, of T False "[]"] by blast
  have r1: "runnable ready C w1" "set us \<subseteq> C" "gview w1 = gview w" using one(2) by (simp_all add: ran_from_def)
  have e1: "edges w1 = edges w" by (rule gview_edges [OF r1(3)])
  obtain w2 gs where two: "run_steps (run_graph process T True) us ([], w1) = Some ([], w2)"
    "ran_from T True C w1 w2 [] gs" "set us \<subseteq> visited T w2" "set gs \<subseteq> (edges w1)\<^sup>* `` set us"
  proof -
    obtain vs w2 gs where "run_steps (run_graph process T True) us ([], w1) = Some (vs @ [], w2)"
      "ran_from T True C w1 w2 vs gs" "set us \<subseteq> visited T w2 \<union> set vs" "set gs \<union> set vs \<subseteq> (edges w1)\<^sup>* `` set us"
      using run_list [OF assms(1) r1(1,2), of T True "[]"] by blast
    moreover have "vs = []" using calculation(2) by (simp add: ran_from_def)
    ultimately show thesis using that by simp
  qed
  have v: "visited T w1 = visited T w \<union> set fs" "visited T w2 = visited T w1 \<union> set gs"
    using ran_from_visited one(2) two(2) by blast+
  have run: "run_graphs process T es w = Some w2"
    using one(1) two(1) by (cases "us = []") (auto simp: run_graphs_def)
  have io: "in_order (preds w) (visited T w) fs" "in_order (\<lambda>_. {}) (visited T w1) gs"
    using one(2) two(2) by (simp_all add: ran_from_def)
  have dist: "distinct (fs @ gs)"
    using in_order_distinct [OF io(1)] in_order_distinct [OF io(2)] v(1) by auto
  have C: "set (fs @ gs) \<subseteq> C" using one(2) two(2) by (simp add: ran_from_def)
  have us2: "set us \<subseteq> set (fs @ gs)" using two(3) v r1(2) new by auto
  have closed: "s \<in> set (fs @ gs)" if "g \<in> set (fs @ gs)" "(g, s) \<in> edges w" for g s
  proof -
    have "s \<in> C" using that C runnableD(4) [OF r] by blast
    moreover have "s \<in> visited T w2 \<union> set us"
      using that one(2) two(2) e1 v unfolding ran_from_def by auto
    ultimately show ?thesis using v new us2 by auto
  qed
  have start: "set es \<subseteq> set (fs @ gs)" using one(3) us2 new es unfolding v(1) set_append by blast
  have all: "set (fs @ gs) = (edges w)\<^sup>* `` set es"
  proof
    show "set (fs @ gs) \<subseteq> (edges w)\<^sup>* `` set es"
    proof -
      have "(edges w)\<^sup>* `` set us \<subseteq> (edges w)\<^sup>* `` set es" using one(5) by (blast intro: rtrancl_trans)
      then show ?thesis using one(5) two(4) unfolding e1 by auto
    qed
    have "(edges w)\<^sup>* `` set (fs @ gs) = set (fs @ gs)"
      using closed by (intro Image_closed_trancl) blast
    then show "(edges w)\<^sup>* `` set es \<subseteq> set (fs @ gs)" using start by blast
  qed
  have "in_order (preds w) {} (fs @ gs) \<and> set (fs @ gs) = C"
    if a: "acyclic (Restr (edges w) C)" "\<forall>e \<in> set es. preds w e = {}" "\<forall>f \<in> C. f \<in> set es \<or> preds w f \<noteq> {}"
  proof -
    have wf: "wf (Restr (edges w) C)" using a(1) assms(1) by (intro finite_acyclic_wf) auto
    have sat: "saturated (preds w) (visited T w) fs" using one(2) by (simp add: ran_from_def)
    have "f \<in> C \<longrightarrow> f \<in> set fs" for f
    proof (induction f rule: wf_induct_rule [OF wf])
      case (1 f)
      show ?case
      proof
        assume f: "f \<in> C"
        show "f \<in> set fs"
        proof (cases "preds w f = {}")
          case True
          then have "f \<in> set es" using a(3) f by auto
          then show ?thesis using one(4) True v(1) new f by auto
        next
          case False
          have "preds w f \<subseteq> set fs" using 1 f runnableD(4) [OF r] by blast
          then show ?thesis using sat False new f unfolding saturated_def by blast
        qed
      qed
    qed
    then have fs: "set fs = C" using C by auto
    then have "gs = []" using dist C by (cases gs) auto
    moreover have "in_order (preds w) {} fs"
    proof -
      have "\<forall>f \<in> set fs. preds w f \<inter> visited T w \<subseteq> {}"
        using new fs runnableD(4) [OF r] by blast
      then show ?thesis using in_order_less [OF io(1)] by blast
    qed
    ultimately show ?thesis using fs by simp
  qed
  then have ord: "acyclic (Restr (edges w) C) \<and> (\<forall>e \<in> set es. preds w e = {}) \<and> (\<forall>f \<in> C. f \<in> set es \<or> preds w f \<noteq> {}) \<longrightarrow>
      in_order (preds w) {} (fs @ gs) \<and> set (fs @ gs) = C" by blast
  have r2: "runnable ready C w2" "gview w2 = gview w" "tview w2 = tview w" "w_ran w2 = w_ran w @ fs @ gs"
    using one(2) two(2) by (simp_all add: ran_from_def)
  have ts: "tasks_of w2 \<subseteq> tasks_of w \<union> C" using one(2) two(2) by (auto simp: ran_from_def)
  have "last_of_filter w2 = (\<lambda>f. if f \<in> set (fs @ gs) then Some T else last_of_filter w f)"
    using one(2) two(2) by (auto simp: ran_from_def)
  then show ?thesis using run r2 ts dist all ord by blast
qed

lemma task_process_ok:
  assumes r: "runnable ready C w" and f: "f \<in> C"
  shows "\<exists>w'. ms_filter_task_process taskfunc (f, k) w = Some w' \<and> runnable ready C w' \<and> gview w' = gview w \<and>
    tview w' = tview w \<and> w_ran w' = w_ran w \<and> last_of_filter w' = last_of_filter w \<and>
    tasks_of w' \<subseteq> insert f (tasks_of w)"
proof -
  have c: "graph_ok w" "f \<in> dom (w_filters w)" "ready w f" using runnableD(1-3) [OF r] f by blast+
  obtain w1 where w1: "taskfunc k f w = Some w1" "untouched f w w1" "\<forall>g. ready w g \<longrightarrow> ready w1 g"
    using task_ok [OF c] by blast
  obtain x where x: "w_filters w1 f = Some x"
    using c(2) w1(2) gview_filter [of w w1] unfolding untouched_def by (metis domD)
  define w2 where "w2 = w1\<lparr>w_filters := (w_filters w1)(f \<mapsto> x\<lparr>f_postponed_task := f_postponed_task x - 1\<rparr>)\<rparr>"
  have g: "gview w2 = gview w1" using x by (auto simp: gview_def w2_def)
  have so: "scheduling_only w1 w2" using g x by (auto simp: scheduling_only_def w2_def)
  have "\<forall>g \<in> C. ready w2 g" using runnableD(3) [OF r] w1(3) ready_frame [OF _ so] by blast
  moreover have "gview w2 = gview w" using g w1(2) by (simp add: untouched_def)
  ultimately have "runnable ready C w2" by (intro runnable_step [OF r])
  moreover have "last_of_filter w2 = last_of_filter w1" "tview w2 = tview w1" "tasks_of w2 = tasks_of w1" "w_ran w2 = w_ran w1"
    using x by (auto simp: last_of_filter_def tview_def tasks_of_def w2_def)
  moreover have "ms_filter_task_process taskfunc (f, k) w = Some w2"
    using w1(1) x by (simp add: ms_filter_task_process_def upd_filter_def w2_def)
  ultimately show ?thesis using g w1(2) by (auto simp: untouched_def)
qed

lemma run_tasks_ok:
  assumes r: "runnable ready C w" and t: "t \<in> dom (w_tickers w)" and ts: "tasks_of w \<subseteq> C"
  shows "\<exists>w'. run_tasks taskfunc t w = Some w' \<and> runnable ready C w' \<and> gview w' = gview w \<and>
    tview w' = tview w \<and> w_ran w' = w_ran w \<and> last_of_filter w' = last_of_filter w \<and> tasks_of w' \<subseteq> C"
proof -
  have tasks: "\<exists>w'. run_steps (ms_filter_task_process taskfunc) tl w = Some w' \<and> runnable ready C w' \<and> gview w' = gview w \<and>
    tview w' = tview w \<and> w_ran w' = w_ran w \<and> last_of_filter w' = last_of_filter w \<and> tasks_of w' \<subseteq> C"
    if "fst ` set tl \<subseteq> C" "runnable ready C w" "tasks_of w \<subseteq> C" for tl w
    using that
  proof (induction tl arbitrary: w)
    case (Cons a tl)
    obtain f k where a: "a = (f, k)" by (cases a)
    obtain w1 where w1: "ms_filter_task_process taskfunc (f, k) w = Some w1" "runnable ready C w1" "gview w1 = gview w"
      "tview w1 = tview w" "w_ran w1 = w_ran w" "last_of_filter w1 = last_of_filter w" "tasks_of w1 \<subseteq> insert f (tasks_of w)"
      using task_process_ok [of C w f k] Cons.prems a by auto
    have "tasks_of w1 \<subseteq> C" using w1(7) Cons.prems a by auto
    then show ?case using Cons.IH [OF _ w1(2)] Cons.prems(1) w1 a by auto
  qed simp
  obtain y where y: "w_tickers w t = Some y" using t by auto
  have "fst ` set (t_task_list y) \<subseteq> tasks_of w" using y unfolding tasks_of_def by fastforce
  then have "fst ` set (t_task_list y) \<subseteq> C" using ts by blast
  then obtain w1 where w1: "run_steps (ms_filter_task_process taskfunc) (t_task_list y) w = Some w1" "runnable ready C w1"
    "gview w1 = gview w" "tview w1 = tview w" "w_ran w1 = w_ran w" "last_of_filter w1 = last_of_filter w" "tasks_of w1 \<subseteq> C"
    using tasks r ts by blast
  have "w_tickers w1 t \<noteq> None"
    using fun_cong [OF w1(4), of t] y by (auto simp: tview_def)
  then obtain z where z: "w_tickers w1 t = Some z" by auto
  define w2 where "w2 = w1\<lparr>w_tickers := (w_tickers w1)(t \<mapsto> z\<lparr>t_task_list := []\<rparr>)\<rparr>"
  have g: "gview w2 = gview w1" by (simp add: gview_def w2_def)
  have so: "scheduling_only w1 w2" using g z by (auto simp: scheduling_only_def w2_def)
  have "\<forall>g \<in> C. ready w2 g" using runnableD(3) [OF w1(2)] ready_frame [OF _ so] by blast
  then have "runnable ready C w2" by (rule runnable_step [OF w1(2) g])
  moreover have "last_of_filter w2 = last_of_filter w1" "tview w2 = tview w1" "tasks_of w2 \<subseteq> tasks_of w1" "w_ran w2 = w_ran w1"
    using z by (auto simp: last_of_filter_def tview_def tasks_of_def w2_def split: if_splits)
  moreover have "run_tasks taskfunc t w = Some w2"
    using y w1(1) z by (simp add: run_tasks_def upd_ticker_def w2_def)
  ultimately show ?thesis using g w1 by auto
qed

text \<open>One tick, and a run of ticks.\<close>

lemma tick_runs:
  assumes "finite C" and r: "runnable ready C w" and y: "w_tickers w t = Some y"
    and es: "set (t_execution_list y) \<subseteq> C" and ts: "tasks_of w \<subseteq> C"
    and new: "\<forall>f \<in> C. last_of_filter w f \<noteq> Some (t_ticks y + 1)"
  shows "\<exists>w' y' fs. ms_ticker_tick process taskfunc t w = Some w' \<and> runnable ready C w' \<and> edges w' = edges w \<and>
    w_tickers w' t = Some y' \<and> t_execution_list y' = t_execution_list y \<and> t_ticks y' = t_ticks y + 1 \<and>
    tasks_of w' \<subseteq> C \<and> w_ran w' = w_ran w @ fs \<and>
    last_of_filter w' = (\<lambda>f. if f \<in> set fs then Some (t_ticks y + 1) else last_of_filter w f) \<and>
    distinct fs \<and> set fs = (edges w)\<^sup>* `` set (t_execution_list y) \<and>
    (acyclic (Restr (edges w) C) \<and> (\<forall>e \<in> set (t_execution_list y). preds w e = {}) \<and>
      (\<forall>f \<in> C. f \<in> set (t_execution_list y) \<or> preds w f \<noteq> {}) \<longrightarrow> in_order (preds w) {} fs \<and> set fs = C)"
proof -
  define w1 where "w1 = w\<lparr>w_tickers := (w_tickers w)(t \<mapsto> y\<lparr>t_ticks := t_ticks y + 1\<rparr>)\<rparr>"
  have g1: "gview w1 = gview w" by (simp add: gview_def w1_def)
  have so: "scheduling_only w w1" using g1 y by (auto simp: scheduling_only_def w1_def)
  have "\<forall>g \<in> C. ready w1 g" using runnableD(3) [OF r] ready_frame [OF _ so] by blast
  then have r1: "runnable ready C w1" by (rule runnable_step [OF r g1])
  have ts1: "tasks_of w1 \<subseteq> C" using ts y by (fastforce simp: tasks_of_def w1_def split: if_splits)
  have "t \<in> dom (w_tickers w1)" by (simp add: w1_def)
  then obtain w2 where w2: "run_tasks taskfunc t w1 = Some w2" "runnable ready C w2" "gview w2 = gview w1"
    "tview w2 = tview w1" "w_ran w2 = w_ran w1" "last_of_filter w2 = last_of_filter w1" "tasks_of w2 \<subseteq> C"
    using run_tasks_ok [OF r1 _ ts1] by blast
  obtain y2 where y2: "w_tickers w2 t = Some y2" "t_execution_list y2 = t_execution_list y" "t_ticks y2 = t_ticks y + 1"
    using fun_cong [OF w2(4), of t] y by (cases "w_tickers w2 t") (auto simp: tview_def w1_def)
  have last: "last_of_filter w2 = last_of_filter w" using w2(6) by (simp add: fun_eq_iff last_of_filter_def w1_def)
  have vn: "visited (t_ticks y + 1) w2 \<inter> C = {}" using new last by (auto simp: visited_def)
  obtain w3 fs where w3: "run_graphs process (t_ticks y + 1) (t_execution_list y) w2 = Some w3"
    "runnable ready C w3" "gview w3 = gview w2" "tview w3 = tview w2" "tasks_of w3 \<subseteq> tasks_of w2 \<union> C"
    "w_ran w3 = w_ran w2 @ fs"
    "last_of_filter w3 = (\<lambda>f. if f \<in> set fs then Some (t_ticks y + 1) else last_of_filter w2 f)" "distinct fs"
    "set fs = (edges w2)\<^sup>* `` set (t_execution_list y)"
    "acyclic (Restr (edges w2) C) \<and> (\<forall>e \<in> set (t_execution_list y). preds w2 e = {}) \<and>
      (\<forall>f \<in> C. f \<in> set (t_execution_list y) \<or> preds w2 f \<noteq> {}) \<longrightarrow> in_order (preds w2) {} fs \<and> set fs = C"
    using run_graphs_runs [OF assms(1) w2(2) es vn] by (elim exE conjE) (rule that)
  obtain y3 where y3: "w_tickers w3 t = Some y3" "t_execution_list y3 = t_execution_list y" "t_ticks y3 = t_ticks y + 1"
    using fun_cong [OF w3(4), of t] y2 by (cases "w_tickers w3 t") (auto simp: tview_def)
  define y4 where "y4 = y3\<lparr>t_time := t_time y3 + of_int (t_interval y3)\<rparr>"
  define w4 where "w4 = w3\<lparr>w_tickers := (w_tickers w3)(t \<mapsto> y4)\<rparr>"
  have g4: "gview w4 = gview w3" by (simp add: gview_def w4_def)
  have so4: "scheduling_only w3 w4" using g4 y3 by (auto simp: scheduling_only_def w4_def y4_def)
  have "\<forall>g \<in> C. ready w4 g" using runnableD(3) [OF w3(2)] ready_frame [OF _ so4] by blast
  then have r4: "runnable ready C w4" by (rule runnable_step [OF w3(2) g4])
  have "tasks_of w4 \<subseteq> tasks_of w3" using y3 by (fastforce simp: tasks_of_def w4_def y4_def split: if_splits)
  then have ts4: "tasks_of w4 \<subseteq> C" using w3(5) w2(7) by blast
  have "gview w2 = gview w" "gview w4 = gview w" using g1 w2(3) w3(3) g4 by simp_all
  then have e: "edges w2 = edges w" "edges w4 = edges w" using gview_edges by blast+
  have run: "ms_ticker_tick process taskfunc t w = Some w4"
    using y w2(1) y2 w3(1) y3 by (simp add: ms_ticker_tick_def upd_ticker_def w1_def w4_def y4_def)
  have "w_ran w4 = w_ran w @ fs" using w3(6) w2(5) by (simp add: w4_def w1_def)
  moreover have "last_of_filter w4 = (\<lambda>f. if f \<in> set fs then Some (t_ticks y + 1) else last_of_filter w f)"
    using w3(7) last by (simp add: fun_eq_iff w4_def last_of_filter_def)
  moreover have "w_tickers w4 t = Some y4" "t_execution_list y4 = t_execution_list y" "t_ticks y4 = t_ticks y + 1"
    using y3 by (simp_all add: w4_def y4_def)
  ultimately show ?thesis using run r4 ts4 e w3(8-10) by (intro exI [of _ w4] exI [of _ y4] exI [of _ fs]) simp
qed

lemma ticker_run_once_each:
  assumes fin: "finite C" and "runnable ready C w" and "w_tickers w t = Some y"
    and "set (t_execution_list y) \<subseteq> C" and "tasks_of w \<subseteq> C"
    and "\<forall>f \<in> C. last_of_filter w f \<noteq> Some (t_ticks y + 1)"
    and "(edges w)\<^sup>* `` set (t_execution_list y) = C"
  shows "\<exists>w' rs. ms_ticker_run process taskfunc t n w = Some w' \<and> w_ran w' = w_ran w @ concat rs \<and> length rs = n \<and>
    (\<forall>r \<in> set rs. distinct r \<and> set r = C)"
  using assms(2-)
proof (induction n arbitrary: w y)
  case 0
  then show ?case by (intro exI [of _ w] exI [of _ "[]"]) simp
next
  case (Suc n)
  obtain w1 y1 fs where one: "ms_ticker_tick process taskfunc t w = Some w1" "runnable ready C w1" "edges w1 = edges w"
    "w_tickers w1 t = Some y1" "t_execution_list y1 = t_execution_list y" "t_ticks y1 = t_ticks y + 1"
    "tasks_of w1 \<subseteq> C" "w_ran w1 = w_ran w @ fs"
    "last_of_filter w1 = (\<lambda>f. if f \<in> set fs then Some (t_ticks y + 1) else last_of_filter w f)"
    "distinct fs" "set fs = C"
    using tick_runs [OF fin Suc.prems(1-5)] Suc.prems(6) by blast
  have "\<forall>f \<in> C. last_of_filter w1 f \<noteq> Some (t_ticks y1 + 1)"
    using one(6,9,11) by simp
  then obtain w2 rs where two: "ms_ticker_run process taskfunc t n w1 = Some w2" "w_ran w2 = w_ran w1 @ concat rs"
    "length rs = n" "\<forall>r \<in> set rs. distinct r \<and> set r = C"
    using Suc.IH [OF one(2,4)] one(3,5,7) Suc.prems(3,6) by auto
  then show ?case
    using one by (intro exI [of _ w2] exI [of _ "fs # rs"]) simp
qed

lemma ticker_run_in_order:
  assumes fin: "finite C" and "runnable ready C w" and "w_tickers w t = Some y"
    and "set (t_execution_list y) \<subseteq> C" and "tasks_of w \<subseteq> C"
    and "\<forall>f \<in> C. last_of_filter w f \<noteq> Some (t_ticks y + 1)"
    and "acyclic (Restr (edges w) C)" and "\<forall>e \<in> set (t_execution_list y). preds w e = {}"
    and "\<forall>f \<in> C. f \<in> set (t_execution_list y) \<or> preds w f \<noteq> {}"
  shows "\<exists>w' rs. ms_ticker_run process taskfunc t n w = Some w' \<and> w_ran w' = w_ran w @ concat rs \<and> length rs = n \<and>
    (\<forall>r \<in> set rs. in_order (preds w) {} r \<and> set r = C)"
  using assms(2-)
proof (induction n arbitrary: w y)
  case 0
  then show ?case by (intro exI [of _ w] exI [of _ "[]"]) simp
next
  case (Suc n)
  obtain w1 y1 fs where one: "ms_ticker_tick process taskfunc t w = Some w1" "runnable ready C w1" "edges w1 = edges w"
    "w_tickers w1 t = Some y1" "t_execution_list y1 = t_execution_list y" "t_ticks y1 = t_ticks y + 1"
    "tasks_of w1 \<subseteq> C" "w_ran w1 = w_ran w @ fs"
    "last_of_filter w1 = (\<lambda>f. if f \<in> set fs then Some (t_ticks y + 1) else last_of_filter w f)"
    "in_order (preds w) {} fs" "set fs = C"
    using tick_runs [OF fin Suc.prems(1-5)] Suc.prems(6-8) by blast
  have "\<forall>f \<in> C. last_of_filter w1 f \<noteq> Some (t_ticks y1 + 1)"
    using one(6,9,11) by simp
  then obtain w2 rs where two: "ms_ticker_run process taskfunc t n w1 = Some w2" "w_ran w2 = w_ran w1 @ concat rs"
    "length rs = n" "\<forall>r \<in> set rs. in_order (preds w1) {} r \<and> set r = C"
    using Suc.IH [OF one(2,4)] one(3,5,7) Suc.prems(3,6-8) by auto
  then show ?case
    using one by (intro exI [of _ w2] exI [of _ "fs # rs"]) simp
qed

end

end
