(* ===== verification/Ms_Basic_Filters.thy ===== *)
theory Ms_Basic_Filters
  imports Ms_Ticker
begin

text \<open>
  The filters of \<^verbatim>\<open>mediastreamer2/src/otherfilters/tee.c\<close>,
  \<^verbatim>\<open>join.c\<close> and \<^verbatim>\<open>void.c\<close>, the proof that they keep the
  contract of the ticker, and what the ticker guarantees of the graphs it runs.
\<close>

section \<open>The filters\<close>

definition MS_TEE_ID :: u32 where "MS_TEE_ID = 30"
definition MS_JOIN_ID :: u32 where "MS_JOIN_ID = 40"
definition MS_VOID_SOURCE_ID :: u32 where "MS_VOID_SOURCE_ID = 56"
definition MS_VOID_SINK_ID :: u32 where "MS_VOID_SINK_ID = 57"
definition MS_TEE_NOUTPUTS :: nat where "MS_TEE_NOUTPUTS = 10"

text \<open>The private data: the muted outputs, the rate and the number of channels.\<close>

datatype basic_data = Tee_Data "nat \<Rightarrow> bool" | Void_Source_State int int | No_Data

type_synonym basic_world = "basic_data ms_world"

text \<open>The methods, on an argument of type \<^verbatim>\<open>int\<close>, and the numbers of their functions.\<close>

definition tee_methods :: "(u32 \<times> nat) list" where
  "tee_methods = [(MS_FILTER_METHOD_ID MS_TEE_ID 1 4, 0), (MS_FILTER_METHOD_ID MS_TEE_ID 0 4, 1)]"

definition void_source_methods :: "(u32 \<times> nat) list" where
  "void_source_methods = [(MS_FILTER_BASE_METHOD 0 4, 2), (MS_FILTER_BASE_METHOD 1 4, 3),
     (MS_FILTER_BASE_METHOD 6 4, 4), (MS_FILTER_BASE_METHOD 5 4, 5)]"

definition ms_tee_desc :: filter_desc where
  "ms_tee_desc = \<lparr>fd_id = MS_TEE_ID, fd_name = ''MSTee'', fd_category = MS_FILTER_OTHER, fd_enc_fmt = None,
     fd_ninputs = 1, fd_noutputs = MS_TEE_NOUTPUTS, fd_methods = tee_methods, fd_flags = 0\<rparr>"

definition ms_join_desc :: filter_desc where
  "ms_join_desc = \<lparr>fd_id = MS_JOIN_ID, fd_name = ''MSJoin'', fd_category = MS_FILTER_OTHER, fd_enc_fmt = None,
     fd_ninputs = 2, fd_noutputs = 1, fd_methods = [], fd_flags = 0\<rparr>"

definition ms_void_source_desc :: filter_desc where
  "ms_void_source_desc = \<lparr>fd_id = MS_VOID_SOURCE_ID, fd_name = ''MSVoidSource'', fd_category = MS_FILTER_OTHER,
     fd_enc_fmt = None, fd_ninputs = 0, fd_noutputs = 1, fd_methods = void_source_methods,
     fd_flags = MS_FILTER_IS_PUMP\<rparr>"

definition ms_void_sink_desc :: filter_desc where
  "ms_void_sink_desc = \<lparr>fd_id = MS_VOID_SINK_ID, fd_name = ''MSVoidSink'', fd_category = MS_FILTER_OTHER,
     fd_enc_fmt = None, fd_ninputs = 1, fd_noutputs = 0, fd_methods = [], fd_flags = 0\<rparr>"

definition tee_init :: basic_data where "tee_init = Tee_Data (\<lambda>_. False)"
definition void_source_init :: basic_data where "void_source_init = Void_Source_State 8000 1"

definition tee_mute :: "int \<Rightarrow> (nat \<Rightarrow> bool) \<Rightarrow> int \<times> (nat \<Rightarrow> bool)" where
  "tee_mute pin d = (if 0 \<le> pin \<and> pin < int MS_TEE_NOUTPUTS then (0, d(nat pin := True)) else (-1, d))"

definition tee_unmute :: "int \<Rightarrow> (nat \<Rightarrow> bool) \<Rightarrow> int \<times> (nat \<Rightarrow> bool)" where
  "tee_unmute pin d = (if 0 \<le> pin \<and> pin < int MS_TEE_NOUTPUTS then (0, d(nat pin := False)) else (-1, d))"

definition void_source_set_rate :: "int \<Rightarrow> basic_data \<Rightarrow> (int \<times> int \<times> basic_data) option" where
  "void_source_set_rate arg d =
     (case d of Void_Source_State rate n \<Rightarrow> Some (0, arg, Void_Source_State arg n) | _ \<Rightarrow> None)"

definition void_source_get_rate :: "int \<Rightarrow> basic_data \<Rightarrow> (int \<times> int \<times> basic_data) option" where
  "void_source_get_rate arg d = (case d of Void_Source_State rate n \<Rightarrow> Some (0, rate, d) | _ \<Rightarrow> None)"

definition void_source_set_nchannels :: "int \<Rightarrow> basic_data \<Rightarrow> (int \<times> int \<times> basic_data) option" where
  "void_source_set_nchannels arg d =
     (case d of Void_Source_State rate n \<Rightarrow> Some (0, arg, Void_Source_State rate arg) | _ \<Rightarrow> None)"

definition void_source_get_nchannels :: "int \<Rightarrow> basic_data \<Rightarrow> (int \<times> int \<times> basic_data) option" where
  "void_source_get_nchannels arg d = (case d of Void_Source_State rate n \<Rightarrow> Some (0, n, d) | _ \<Rightarrow> None)"

text \<open>The function with a number: its result, the argument it leaves and the private data.\<close>

definition basic_method :: "nat \<Rightarrow> int \<Rightarrow> basic_data \<Rightarrow> (int \<times> int \<times> basic_data) option" where
  "basic_method k arg d =
     (if k = 0 \<or> k = 1 then
        (case d of Tee_Data m \<Rightarrow>
             let (r, m') = (if k = 0 then tee_mute arg m else tee_unmute arg m) in Some (r, arg, Tee_Data m')
         | _ \<Rightarrow> None)
      else if k = 2 then void_source_set_rate arg d
      else if k = 3 then void_source_get_rate arg d
      else if k = 4 then void_source_set_nchannels arg d
      else if k = 5 then void_source_get_nchannels arg d
      else None)"

text \<open>\<^verbatim>\<open>ms_filter_call_method\<close> on one of these filters.\<close>

definition basic_call_method :: "ptr \<Rightarrow> u32 \<Rightarrow> int \<Rightarrow> basic_world \<Rightarrow> (int \<times> int \<times> basic_world) option" where
  "basic_call_method f i arg w = do {
     k \<leftarrow> ms_filter_call_method f i w;
     case k of None \<Rightarrow> Some (-1, arg, w)
     | Some k \<Rightarrow> do {
         x \<leftarrow> w_filters w f;
         (r, arg, d) \<leftarrow> basic_method k arg (f_data x);
         w \<leftarrow> upd_filter f (\<lambda>x. x\<lparr>f_data := d\<rparr>) w;
         Some (r, arg, w) } }"

text \<open>The loop that takes the messages from an input one by one.\<close>

partial_function (option) for_each_message ::
  "(msg \<Rightarrow> 'd ms_world \<Rightarrow> 'd ms_world option) \<Rightarrow> ptr \<Rightarrow> int \<Rightarrow> 'd ms_world \<Rightarrow> 'd ms_world option" where
  "for_each_message body f j w = do {
     x \<leftarrow> w_filters w f;
     l \<leftarrow> pin_at (f_inputs x) j;
     (im, w) \<leftarrow> ms_queue_get l w;
     case im of None \<Rightarrow> Some w
     | Some m \<Rightarrow> do { w \<leftarrow> body m w; for_each_message body f j w } }"

definition tee_put :: "ptr \<Rightarrow> msg \<Rightarrow> int \<Rightarrow> basic_world \<Rightarrow> basic_world option" where
  "tee_put f im i w = do {
     x \<leftarrow> w_filters w f;
     l \<leftarrow> pin_at (f_outputs x) i;
     case f_data x of
       Tee_Data muted \<Rightarrow> if l \<noteq> None \<and> \<not> muted (nat i) then ms_queue_put l im w else Some w
     | _ \<Rightarrow> None }"

definition tee_process :: "ptr \<Rightarrow> basic_world \<Rightarrow> basic_world option" where
  "tee_process f = for_each_message (\<lambda>im w. do {
     x \<leftarrow> w_filters w f;
     run_steps (tee_put f im) (map int [0..<fd_noutputs (f_desc x)]) w }) f 0"

definition join_input :: "ptr \<Rightarrow> int \<Rightarrow> basic_world \<Rightarrow> basic_world option" where
  "join_input f j w = do {
     x \<leftarrow> w_filters w f;
     l \<leftarrow> pin_at (f_inputs x) j;
     if l = None then Some w
     else for_each_message (\<lambda>im w. do {
       x \<leftarrow> w_filters w f;
       o0 \<leftarrow> pin_at (f_outputs x) 0;
       ms_queue_put o0 im w }) f j w }"

definition join_process :: "ptr \<Rightarrow> basic_world \<Rightarrow> basic_world option" where
  "join_process f w = do { w \<leftarrow> join_input f 0 w; join_input f 1 w }"

text \<open>A negative length is a fault of the allocation.\<close>

definition void_source_process :: "ptr \<Rightarrow> basic_world \<Rightarrow> basic_world option" where
  "void_source_process f w = do {
     x \<leftarrow> w_filters w f;
     t \<leftarrow> f_ticker x;
     y \<leftarrow> w_tickers w t;
     case f_data x of
       Void_Source_State rate nchannels \<Rightarrow>
         (let nsamples = c_div (t_interval y * rate) 1000; len = nsamples * nchannels * 2
          in if len < 0 then None
             else do { o0 \<leftarrow> pin_at (f_outputs x) 0; ms_queue_put o0 [replicate (nat len) 0] w })
     | _ \<Rightarrow> None }"

definition void_sink_process :: "ptr \<Rightarrow> basic_world \<Rightarrow> basic_world option" where
  "void_sink_process f = for_each_message (\<lambda>_. Some) f 0"

text \<open>The call through \<^verbatim>\<open>f->desc->process\<close>.\<close>

definition basic_process :: "ptr \<Rightarrow> basic_world \<Rightarrow> basic_world option" where
  "basic_process f w = do {
     x \<leftarrow> w_filters w f;
     if fd_id (f_desc x) = MS_TEE_ID then tee_process f w
     else if fd_id (f_desc x) = MS_JOIN_ID then join_process f w
     else if fd_id (f_desc x) = MS_VOID_SOURCE_ID then void_source_process f w
     else if fd_id (f_desc x) = MS_VOID_SINK_ID then void_sink_process f w
     else None }"

lemmas basic_ids = MS_TEE_ID_def MS_JOIN_ID_def MS_VOID_SOURCE_ID_def MS_VOID_SINK_ID_def
lemmas basic_descs = ms_tee_desc_def ms_join_desc_def ms_void_source_desc_def ms_void_sink_desc_def

text \<open>These filters postpone no tasks.\<close>

definition no_task :: "nat \<Rightarrow> ptr \<Rightarrow> basic_world \<Rightarrow> basic_world option" where
  "no_task k f w = Some w"

text \<open>A filter attached to a ticker, set up as its code needs.\<close>

definition basic_ready :: "basic_world \<Rightarrow> ptr \<Rightarrow> bool" where
  "basic_ready w f \<longleftrightarrow> (\<exists>x t i. w_filters w f = Some x \<and> f_ticker x = Some t \<and>
     map_option t_interval (w_tickers w t) = Some i \<and> 0 \<le> i \<and>
     (f_desc x = ms_tee_desc \<and> (\<exists>m. f_data x = Tee_Data m) \<or>
      f_desc x = ms_join_desc \<and> (\<exists>q. f_outputs x = [Some q]) \<or>
      f_desc x = ms_void_source_desc \<and> (\<exists>q. f_outputs x = [Some q]) \<and>
        (\<exists>rate n. f_data x = Void_Source_State rate n \<and> 0 \<le> rate \<and> 0 \<le> n) \<or>
      f_desc x = ms_void_sink_desc))"

section \<open>Only messages move\<close>

definition moved :: "ptr set \<Rightarrow> 'd ms_world \<Rightarrow> 'd ms_world \<Rightarrow> bool" where
  "moved Q w w' \<longleftrightarrow> w' = w\<lparr>w_queues := w_queues w'\<rparr> \<and>
     (\<forall>q. map_option (\<lambda>r. (mq_prev r, mq_next r)) (w_queues w' q) = map_option (\<lambda>r. (mq_prev r, mq_next r)) (w_queues w q)) \<and>
     (\<forall>q. q \<notin> Q \<longrightarrow> w_queues w' q = w_queues w q)"

lemma moved_refl [simp]: "moved Q w w"
  by (simp add: moved_def)

lemma moved_trans: "moved Q w w1 \<Longrightarrow> moved R w1 w2 \<Longrightarrow> moved (Q \<union> R) w w2"
  unfolding moved_def by (metis (no_types, lifting) UnI1 UnI2 ms_world.surjective ms_world.update_convs(2))

lemma moved_mono: "moved Q w w' \<Longrightarrow> Q \<subseteq> R \<Longrightarrow> moved R w w'"
  unfolding moved_def by blast

lemma moved_fields:
  assumes "moved Q w w'"
  shows "w_filters w' = w_filters w" "w_tickers w' = w_tickers w" "w_fresh w' = w_fresh w" "w_ran w' = w_ran w"
    and "gview w' = gview w"
proof -
  have e: "w' = w\<lparr>w_queues := w_queues w'\<rparr>" using assms by (simp add: moved_def)
  show f: "w_filters w' = w_filters w" "w_tickers w' = w_tickers w" "w_fresh w' = w_fresh w" "w_ran w' = w_ran w"
    by (subst e; simp)+
  show "gview w' = gview w" using assms f by (simp add: gview_def moved_def)
qed

lemma moved_untouched:
  assumes "moved Q w w'"
  shows "untouched f w w'"
  using moved_fields [OF assms] by (auto simp: untouched_def last_of_filter_def tview_def tasks_of_def)

lemma moved_ready:
  assumes "moved Q w w'"
  shows "basic_ready w' f = basic_ready w f"
  using moved_fields [OF assms] by (simp add: basic_ready_def)

lemma queue_put_moved:
  assumes "w_queues w q \<noteq> None"
  shows "\<exists>w'. ms_queue_put (Some q) m w = Some w' \<and> moved {q} w w'"
  using assms by (auto simp: ms_queue_put_def upd_queue_def moved_def)

text \<open>A loop over the messages of an input ends with that input empty.\<close>

definition msgs_at :: "'d ms_world \<Rightarrow> ptr \<Rightarrow> msg list" where
  "msgs_at w q = (case w_queues w q of None \<Rightarrow> [] | Some r \<Rightarrow> mq_msgs r)"

lemma moved_queue:
  assumes "moved Q w w'"
  shows "(w_queues w' q = None) = (w_queues w q = None)"
proof -
  have "map_option (\<lambda>r. (mq_prev r, mq_next r)) (w_queues w' q) = map_option (\<lambda>r. (mq_prev r, mq_next r)) (w_queues w q)"
    using assms by (simp add: moved_def)
  then show ?thesis by (cases "w_queues w' q"; cases "w_queues w q"; simp)
qed

lemma for_each_message_drains:
  assumes x: "w_filters w f = Some x" and l: "pin_at (f_inputs x) j = Some (Some q)" and q: "w_queues w q \<noteq> None"
    and body: "\<And>m w1. moved (insert q Q) w w1 \<Longrightarrow> \<exists>w2. body m w1 = Some w2 \<and> moved Q w1 w2" and nq: "q \<notin> Q"
  shows "\<exists>w'. for_each_message body f j w = Some w' \<and> moved (insert q Q) w w' \<and> msgs_at w' q = []"
proof -
  have "\<exists>w'. for_each_message body f j w1 = Some w' \<and> moved (insert q Q) w w' \<and> msgs_at w' q = []"
    if "moved (insert q Q) w w1" for w1
    using that
  proof (induction "length (msgs_at w1 q)" arbitrary: w1 rule: less_induct)
    case less
    have x1: "w_filters w1 f = Some x" using moved_fields [OF less.prems] x by simp
    obtain r where r: "w_queues w1 q = Some r" using moved_queue [OF less.prems, of q] q by auto
    show ?case
    proof (cases "mq_msgs r")
      case Nil
      then show ?thesis
        using x1 l r less.prems by (simp add: for_each_message.simps [of _ f j w1] ms_queue_get_def msgs_at_def)
    next
      case (Cons m ms)
      define w2 where "w2 = w1\<lparr>w_queues := (w_queues w1)(q \<mapsto> r\<lparr>mq_msgs := ms\<rparr>)\<rparr>"
      have "moved (insert q Q) w1 w2" using r by (auto simp: moved_def w2_def)
      then have m2: "moved (insert q Q) w w2" using moved_trans [OF less.prems, of "insert q Q" w2] by simp
      then obtain w3 where w3: "body m w2 = Some w3" "moved Q w2 w3" using body by blast
      have "w_queues w3 q = w_queues w2 q" using w3(2) nq by (simp add: moved_def)
      then have "length (msgs_at w3 q) < length (msgs_at w1 q)"
        using r Cons by (simp add: msgs_at_def w2_def)
      moreover have m3: "moved (insert q Q) w w3"
        using moved_trans [OF m2 w3(2)] by (rule moved_mono) auto
      ultimately obtain w' where "for_each_message body f j w3 = Some w'" "moved (insert q Q) w w'" "msgs_at w' q = []"
        using less.hyps by blast
      then show ?thesis
        using x1 l r Cons w3(1)
        by (simp add: for_each_message.simps [of _ f j w1] ms_queue_get_def upd_queue_def w2_def)
    qed
  qed
  then show ?thesis by simp
qed

text \<open>The queues at the outputs of a filter that is not connected to itself are not at its inputs.\<close>

definition out_queues :: "'d ms_filter \<Rightarrow> ptr set" where
  "out_queues x = {q. Some q \<in> set (f_outputs x)}"

lemma outputs_not_inputs:
  assumes ok: "graph_ok w" and x: "w_filters w f = Some x" and self: "(f, f) \<notin> edges w"
    and q: "Some q \<in> set (f_inputs x)"
  shows "q \<notin> out_queues x"
proof
  assume "q \<in> out_queues x"
  then obtain g where g: "next_filter w q = Some g" "(f, g) \<in> edges w"
    using pin_next [OF ok x] by (auto simp: out_queues_def)
  obtain j where "j < length (f_inputs x)" "f_inputs x ! j = Some q" using q by (auto simp: in_set_conv_nth)
  then obtain r where "w_queues w q = Some r" "mq_next r = (f, j)" using graph_okD(5) [OF ok x] by blast
  then have "g = f" using g(1) by (simp add: next_filter_def)
  then show False using g(2) self by simp
qed

lemma inputs_emptyI:
  assumes "graph_ok w" and "w_filters w f = Some x" and "\<forall>q. Some q \<in> set (f_inputs x) \<longrightarrow> msgs_at w q = []"
  shows "inputs_empty w f"
proof -
  have "\<exists>r. w_queues w q = Some r \<and> mq_msgs r = []" if "Some q \<in> set (f_inputs x)" for q
    using pin_prev [OF assms(1,2) that] assms(3) that by (auto simp: prev_filter_def msgs_at_def)
  then have "\<not> (\<exists>q \<in> set (f_inputs x). q \<noteq> None \<and> w_queues w (the q) = None)"
    "\<not> (\<exists>q \<in> set (f_inputs x). q \<noteq> None \<and> mq_msgs (the (w_queues w (the q))) \<noteq> [])"
    by (metis option.collapse option.distinct(1) option.sel)+
  then show ?thesis
    using assms(2) unfolding inputs_empty_def ms_filter_inputs_have_data_def by simp
qed

lemma out_queue_exists:
  assumes "graph_ok w" and "w_filters w f = Some x" and "q \<in> out_queues x"
  shows "w_queues w q \<noteq> None"
  using pin_next [OF assms(1,2), of q] assms(3) by (auto simp: out_queues_def next_filter_def)

lemma tee_puts:
  assumes ok: "graph_ok w" and x: "w_filters w f = Some x" "f_data x = Tee_Data mt"
    and ns: "\<forall>i \<in> set ns. i < length (f_outputs x)"
  shows "\<exists>w'. run_steps (tee_put f m) (map int ns) w = Some w' \<and> moved (out_queues x) w w'"
  using ok x(1) ns
proof (induction ns arbitrary: w)
  case (Cons i ns)
  have i: "pin_at (f_outputs x) (int i) = Some (f_outputs x ! i)" using Cons.prems(3) by (simp add: pin_at_def)
  have "\<exists>w1. tee_put f m (int i) w = Some w1 \<and> moved (out_queues x) w w1"
  proof (cases "f_outputs x ! i \<noteq> None \<and> \<not> mt i")
    case True
    then obtain q where q: "f_outputs x ! i = Some q" by auto
    then have qo: "q \<in> out_queues x" using Cons.prems(3) nth_mem by (fastforce simp: out_queues_def)
    then have "w_queues w q \<noteq> None" using out_queue_exists Cons.prems by blast
    then obtain w1 where "ms_queue_put (Some q) m w = Some w1" "moved {q} w w1" using queue_put_moved by blast
    then show ?thesis
      using Cons.prems(2) x(2) i q True qo moved_mono [of "{q}" w w1 "out_queues x"] by (simp add: tee_put_def)
  next
    case False
    then show ?thesis using Cons.prems(2) x(2) i by (auto simp: tee_put_def)
  qed
  then obtain w1 where w1: "tee_put f m (int i) w = Some w1" "moved (out_queues x) w w1" by blast
  have "graph_ok w1" "w_filters w1 f = Some x"
    using gview_ok [OF moved_fields(5) [OF w1(2), symmetric] Cons.prems(1)] moved_fields(1) [OF w1(2)] Cons.prems(2) by simp_all
  then obtain w2 where "run_steps (tee_put f m) (map int ns) w1 = Some w2" "moved (out_queues x) w1 w2"
    using Cons.IH [of w1] Cons.prems(3) by auto
  then show ?case using w1 moved_trans [OF w1(2), of "out_queues x" w2] by auto
qed simp

section \<open>The filters keep the contract\<close>

text \<open>Emptying one input of a filter whose body only puts messages on its outputs.\<close>

lemma drain_input:
  assumes ok: "graph_ok w" and x: "w_filters w f = Some x" and self: "(f, f) \<notin> edges w"
    and j: "j < length (f_inputs x)" "f_inputs x ! j = Some q"
    and body: "\<And>m w1. graph_ok w1 \<Longrightarrow> w_filters w1 f = Some x \<Longrightarrow> w_tickers w1 = w_tickers w \<Longrightarrow>
        \<exists>w2. body m w1 = Some w2 \<and> moved (out_queues x) w1 w2"
  shows "\<exists>w'. for_each_message body f (int j) w = Some w' \<and> moved (insert q (out_queues x)) w w' \<and> msgs_at w' q = []"
proof (rule for_each_message_drains [OF x])
  have qi: "Some q \<in> set (f_inputs x)" using j nth_mem by metis
  show "pin_at (f_inputs x) (int j) = Some (Some q)" using j by (simp add: pin_at_def)
  show "w_queues w q \<noteq> None" using pin_prev [OF ok x qi] by (auto simp: prev_filter_def)
  show "q \<notin> out_queues x" by (rule outputs_not_inputs [OF ok x self qi])
  fix m w1
  assume m: "moved (insert q (out_queues x)) w w1"
  show "\<exists>w2. body m w1 = Some w2 \<and> moved (out_queues x) w1 w2"
    using body [of w1 m] gview_ok [OF moved_fields(5) [OF m, symmetric] ok] moved_fields(1,2) [OF m] x by simp
qed

lemma tee_process_ok:
  assumes ok: "graph_ok w" and x: "w_filters w f = Some x" and self: "(f, f) \<notin> edges w"
    and d: "f_desc x = ms_tee_desc" "f_data x = Tee_Data mt" and q: "f_inputs x = [Some q]"
  shows "\<exists>w' Q. tee_process f w = Some w' \<and> moved Q w w' \<and> inputs_empty w' f"
proof -
  have len: "length (f_outputs x) = fd_noutputs (f_desc x)" using graph_okD(3) [OF ok x] .
  have "\<exists>w'. tee_process f w = Some w' \<and> moved (insert q (out_queues x)) w w' \<and> msgs_at w' q = []"
    unfolding tee_process_def
  proof (rule drain_input [OF ok x self, of 0, simplified])
    fix m w1
    assume "graph_ok w1" "w_filters w1 f = Some x"
    then show "\<exists>w2. (do { x \<leftarrow> w_filters w1 f; run_steps (tee_put f m) (map int [0..<fd_noutputs (f_desc x)]) w1 }) = Some w2 \<and>
        moved (out_queues x) w1 w2"
      using tee_puts [of w1 f x mt "[0..<fd_noutputs (f_desc x)]" m] d(2) len by simp
  qed (use q in simp_all)
  then obtain w' where w': "tee_process f w = Some w'" "moved (insert q (out_queues x)) w w'" "msgs_at w' q = []" by blast
  have "inputs_empty w' f"
    using gview_ok [OF moved_fields(5) [OF w'(2), symmetric] ok] moved_fields(1) [OF w'(2)] x q w'(3)
    by (intro inputs_emptyI) auto
  then show ?thesis using w'(1,2) by blast
qed

lemma sink_process_ok:
  assumes ok: "graph_ok w" and x: "w_filters w f = Some x" and self: "(f, f) \<notin> edges w" and q: "f_inputs x = [Some q]"
  shows "\<exists>w' Q. void_sink_process f w = Some w' \<and> moved Q w w' \<and> inputs_empty w' f"
proof -
  have "\<exists>w'. void_sink_process f w = Some w' \<and> moved (insert q (out_queues x)) w w' \<and> msgs_at w' q = []"
    unfolding void_sink_process_def by (rule drain_input [OF ok x self, of 0, simplified]) (use q in simp_all)
  then obtain w' where w': "void_sink_process f w = Some w'" "moved (insert q (out_queues x)) w w'" "msgs_at w' q = []" by blast
  have "inputs_empty w' f"
    using gview_ok [OF moved_fields(5) [OF w'(2), symmetric] ok] moved_fields(1) [OF w'(2)] x q w'(3)
    by (intro inputs_emptyI) auto
  then show ?thesis using w'(1,2) by blast
qed

lemma source_process_ok:
  assumes ok: "graph_ok w" and x: "w_filters w f = Some x"
    and d: "f_desc x = ms_void_source_desc" "f_outputs x = [Some q]" "f_data x = Void_Source_State rate n" "0 \<le> rate" "0 \<le> n"
    and t: "f_ticker x = Some t" "w_tickers w t = Some y" "0 \<le> t_interval y"
  shows "\<exists>w' Q. void_source_process f w = Some w' \<and> moved Q w w' \<and> inputs_empty w' f"
proof -
  have "w_queues w q \<noteq> None" using out_queue_exists [OF ok x, of q] d(2) by (simp add: out_queues_def)
  then obtain w' where w': "ms_queue_put (Some q) [replicate (nat (c_div (t_interval y * rate) 1000 * n * 2)) 0] w = Some w'"
    "moved {q} w w'"
    using queue_put_moved by blast
  have "0 \<le> c_div (t_interval y * rate) 1000 * n * 2" using d(4,5) t(3)
    by (auto simp: c_div_def intro!: mult_nonneg_nonneg pos_imp_zdiv_nonneg_iff [THEN iffD2])
  then have "void_source_process f w = Some w'"
    using x t d w'(1) by (simp add: void_source_process_def pin_at_def Let_def)
  moreover have "f_inputs x = []" using graph_okD(2) [OF ok x] d(1) by (simp add: ms_void_source_desc_def)
  then have "inputs_empty w' f"
    using gview_ok [OF moved_fields(5) [OF w'(2), symmetric] ok] moved_fields(1) [OF w'(2)] x
    by (intro inputs_emptyI) auto
  ultimately show ?thesis using w'(2) by blast
qed

lemma join_input_ok:
  assumes ok: "graph_ok w" and x: "w_filters w f = Some x" and self: "(f, f) \<notin> edges w"
    and o: "f_outputs x = [Some out]" and j: "j < length (f_inputs x)"
  shows "\<exists>w'. join_input f (int j) w = Some w' \<and>
    moved (insert out (case f_inputs x ! j of None \<Rightarrow> {} | Some q \<Rightarrow> {q})) w w' \<and>
    (\<forall>q. f_inputs x ! j = Some q \<longrightarrow> msgs_at w' q = [])"
proof (cases "f_inputs x ! j")
  case None
  then show ?thesis using x j by (auto simp: join_input_def pin_at_def)
next
  case (Some q)
  have oq: "out_queues x = {out}" using o by (auto simp: out_queues_def)
  have "\<exists>w'. for_each_message (\<lambda>im w. do { x \<leftarrow> w_filters w f; o0 \<leftarrow> pin_at (f_outputs x) 0; ms_queue_put o0 im w })
      f (int j) w = Some w' \<and> moved (insert q (out_queues x)) w w' \<and> msgs_at w' q = []"
  proof (rule drain_input [OF ok x self j Some])
    fix m w1
    assume a: "graph_ok w1" "w_filters w1 f = Some x"
    have "w_queues w1 out \<noteq> None" using out_queue_exists [OF a] oq by simp
    then show "\<exists>w2. (do { x \<leftarrow> w_filters w1 f; o0 \<leftarrow> pin_at (f_outputs x) 0; ms_queue_put o0 m w1 }) = Some w2 \<and>
        moved (out_queues x) w1 w2"
      using queue_put_moved [of w1 out m] a(2) o oq by (simp add: pin_at_def)
  qed
  then show ?thesis using x j Some oq by (auto simp: join_input_def pin_at_def insert_commute)
qed

lemma join_process_ok:
  assumes ok: "graph_ok w" and x: "w_filters w f = Some x" and self: "(f, f) \<notin> edges w"
    and d: "f_desc x = ms_join_desc" "f_outputs x = [Some out]"
  shows "\<exists>w' Q. join_process f w = Some w' \<and> moved Q w w' \<and> inputs_empty w' f"
proof -
  have "length (f_inputs x) = 2" using graph_okD(2) [OF ok x] d(1) by (simp add: ms_join_desc_def)
  then obtain a b where ab: "f_inputs x = [a, b]"
    by (metis One_nat_def Suc_1 length_0_conv length_Suc_conv)
  obtain w1 where w1: "join_input f 0 w = Some w1"
    "moved (insert out (case a of None \<Rightarrow> {} | Some q \<Rightarrow> {q})) w w1" "\<forall>q. a = Some q \<longrightarrow> msgs_at w1 q = []"
    using join_input_ok [OF ok x self d(2), of 0] ab by auto
  have 1: "graph_ok w1" "w_filters w1 f = Some x" "(f, f) \<notin> edges w1"
    using gview_ok [OF moved_fields(5) [OF w1(2), symmetric] ok] moved_fields(1) [OF w1(2)] x self
      gview_edges [OF moved_fields(5) [OF w1(2)]] by simp_all
  obtain w2 where w2: "join_input f 1 w1 = Some w2"
    "moved (insert out (case b of None \<Rightarrow> {} | Some q \<Rightarrow> {q})) w1 w2" "\<forall>q. b = Some q \<longrightarrow> msgs_at w2 q = []"
    using join_input_ok [OF 1 d(2), of 1] ab by auto
  have "msgs_at w2 q = []" if q: "Some q \<in> set (f_inputs x)" for q
  proof (cases "b = Some q")
    case False
    then have "a = Some q" using q ab by auto
    moreover have "q \<noteq> out" using outputs_not_inputs [OF ok x self q] d(2) by (auto simp: out_queues_def)
    ultimately have "w_queues w2 q = w_queues w1 q"
      using w2(2) False by (auto simp: moved_def split: option.splits)
    then show ?thesis using w1(3) \<open>a = Some q\<close> by (simp add: msgs_at_def)
  qed (use w2 in simp)
  then have "inputs_empty w2 f"
    using gview_ok [OF moved_fields(5) [OF w2(2), symmetric] 1(1)] moved_fields(1) [OF w2(2)] 1(2)
    by (intro inputs_emptyI) auto
  then show ?thesis using w1(1) w2(1) moved_trans [OF w1(2) w2(2)] by (auto simp: join_process_def)
qed

text \<open>A filter with data at its only input is connected there.\<close>

lemma due_connected:
  assumes "process_due w f" and x: "w_filters w f = Some x" and "fd_ninputs (f_desc x) = 1"
    and "fd_flags (f_desc x) = 0" and len: "length (f_inputs x) = 1"
  shows "\<exists>q. f_inputs x = [Some q]"
proof -
  obtain l where l: "f_inputs x = [l]" using len by (metis One_nat_def length_0_conv length_Suc_conv)
  then show ?thesis
    using assms by (cases l) (auto simp: process_due_def ms_filter_inputs_have_data_def)
qed

lemma basic_process_ok:
  assumes ok: "graph_ok w" and rd: "basic_ready w f" and self: "(f, f) \<notin> edges w" and due: "process_due w f"
  shows "\<exists>w' Q. basic_process f w = Some w' \<and> moved Q w w' \<and> inputs_empty w' f"
proof -
  obtain x t y where x: "w_filters w f = Some x" "f_ticker x = Some t" "w_tickers w t = Some y" "0 \<le> t_interval y"
    and d: "f_desc x = ms_tee_desc \<and> (\<exists>m. f_data x = Tee_Data m) \<or>
      f_desc x = ms_join_desc \<and> (\<exists>q. f_outputs x = [Some q]) \<or>
      f_desc x = ms_void_source_desc \<and> (\<exists>q. f_outputs x = [Some q]) \<and>
        (\<exists>rate n. f_data x = Void_Source_State rate n \<and> 0 \<le> rate \<and> 0 \<le> n) \<or>
      f_desc x = ms_void_sink_desc"
    using rd unfolding basic_ready_def by auto
  note len = graph_okD(2) [OF ok x(1)]
  from d consider m where "f_desc x = ms_tee_desc" "f_data x = Tee_Data m"
    | q where "f_desc x = ms_join_desc" "f_outputs x = [Some q]"
    | q rate n where "f_desc x = ms_void_source_desc" "f_outputs x = [Some q]"
      "f_data x = Void_Source_State rate n" "0 \<le> rate" "0 \<le> n"
    | "f_desc x = ms_void_sink_desc"
    by blast
  then show ?thesis
  proof cases
    case 1
    then obtain q where "f_inputs x = [Some q]"
      using due_connected [OF due x(1)] len by (auto simp: ms_tee_desc_def)
    then show ?thesis
      using tee_process_ok [OF ok x(1) self 1] x(1) 1(1) by (simp add: basic_process_def basic_descs basic_ids)
  next
    case 2
    then show ?thesis
      using join_process_ok [OF ok x(1) self 2] x(1) by (simp add: basic_process_def basic_descs basic_ids)
  next
    case 3
    then show ?thesis
      using source_process_ok [OF ok x(1) 3 x(2,3,4)] x(1) by (simp add: basic_process_def basic_descs basic_ids)
  next
    case 4
    then obtain q where "f_inputs x = [Some q]"
      using due_connected [OF due x(1)] len by (auto simp: ms_void_sink_desc_def)
    then show ?thesis
      using sink_process_ok [OF ok x(1) self] x(1) 4 by (simp add: basic_process_def basic_descs basic_ids)
  qed
qed

lemma basic_ready_frame:
  assumes rd: "basic_ready w f" and so: "scheduling_only w w'"
  shows "basic_ready w' f"
proof -
  obtain x t i where x: "w_filters w f = Some x" "f_ticker x = Some t" "map_option t_interval (w_tickers w t) = Some i"
    using rd unfolding basic_ready_def by blast
  have g: "gview w = gview w'" using so by (simp add: scheduling_only_def)
  obtain y where y: "w_filters w' f = Some y" "f_desc y = f_desc x" "f_inputs y = f_inputs x"
    "f_outputs y = f_outputs x" "f_ticker y = f_ticker x"
    using gview_filter [OF g x(1)] .
  have "map_option f_data (w_filters w' f) = map_option f_data (w_filters w f)" using so by (simp add: scheduling_only_def)
  then have "f_data y = f_data x" using x(1) y(1) by simp
  moreover have "map_option t_interval (w_tickers w' t) = map_option t_interval (w_tickers w t)"
    using so by (simp add: scheduling_only_def)
  ultimately show ?thesis using rd x y unfolding basic_ready_def by auto
qed

interpretation basic: filter_code basic_process no_task basic_ready
proof
  fix w :: basic_world and w' f
  show "basic_ready w f \<Longrightarrow> scheduling_only w w' \<Longrightarrow> basic_ready w' f" by (rule basic_ready_frame)
next
  fix w :: basic_world and f
  assume "graph_ok w" "f \<in> dom (w_filters w)" "basic_ready w f" "(f, f) \<notin> edges w" "process_due w f"
  then obtain w' Q where "basic_process f w = Some w'" "moved Q w w'" "inputs_empty w' f"
    using basic_process_ok by blast
  then show "\<exists>w'. basic_process f w = Some w' \<and> untouched f w w' \<and> inputs_empty w' f \<and>
      (\<forall>g. basic_ready w g \<longrightarrow> basic_ready w' g)"
    using moved_untouched moved_ready by blast
next
  fix w :: basic_world and f k
  show "\<exists>w'. no_task k f w = Some w' \<and> untouched f w w' \<and> (\<forall>g. basic_ready w g \<longrightarrow> basic_ready w' g)"
    using moved_untouched [OF moved_refl] by (auto simp: no_task_def)
qed

text \<open>Every method in a table is found and reaches its own function.\<close>

lemma basic_methods_found:
  assumes "w_filters w f = Some x" and "f_desc x = ms_tee_desc \<or> f_desc x = ms_void_source_desc"
    and "(i, k) \<in> set (fd_methods (f_desc x))"
  shows "ms_filter_call_method f i w = Some (Some k)"
  using assms
  by (auto simp: ms_filter_call_method_def basic_descs tee_methods_def void_source_methods_def MS_FILTER_BASE_METHOD_def
      MS_FILTER_METHOD_ID_def MS_FILTER_METHOD_GET_FID_def is_interface_method_def MS_FILTER_BASE_ID_def
      MS_FILTER_INTERFACE_BEGIN_def basic_ids Let_def)

end
