(* ===== verification/Ms_Schedule.thy ===== *)
theory Ms_Schedule
  imports Ms_Basic_Filters
begin

text \<open>
  From attaching a graph to running it: \<^verbatim>\<open>ms_ticker_attach\<close> finds the filters that
  are connected to the given one, gives them to the ticker, and the ticker then runs each of them
  exactly once per tick, after those it reads from. The statements hold for all filters that keep the
  contract \<open>filter_code\<close>.
\<close>

section \<open>Attaching\<close>

definition attached :: "ptr \<Rightarrow> ptr set \<Rightarrow> 'd ms_world \<Rightarrow> 'd ms_world" where
  "attached t C w = w\<lparr>w_filters := \<lambda>f. if f \<in> C
     then map_option (\<lambda>x. x\<lparr>f_last_tick := 0, f_ticker := Some t\<rparr>) (w_filters w f) else w_filters w f\<rparr>"

lemma attached_fields [simp]:
  "w_queues (attached t C w) = w_queues w" "w_tickers (attached t C w) = w_tickers w"
  "w_fresh (attached t C w) = w_fresh w" "w_ran (attached t C w) = w_ran w"
  "dom (w_filters (attached t C w)) = dom (w_filters w)"
  by (auto simp: attached_def dom_def)

lemma attached_plugged [simp]:
  "plugged f_outputs (attached t C w) = plugged f_outputs w" "plugged f_inputs (attached t C w) = plugged f_inputs w"
  by (auto simp: fun_eq_iff plugged_def attached_def)

lemma attached_graph:
  assumes "graph_ok w"
  shows "graph_ok (attached t C w)" "edges (attached t C w) = edges w"
proof -
  have "\<forall>f x. w_filters (attached t C w) f = Some x \<longrightarrow> f < w_fresh w \<and>
      length (f_inputs x) = fd_ninputs (f_desc x) \<and> length (f_outputs x) = fd_noutputs (f_desc x)"
    using graph_okD(1-3) [OF assms] by (auto simp: attached_def split: if_splits)
  then show "graph_ok (attached t C w)" using assms by (simp add: graph_ok_def)
  show "edges (attached t C w) = edges w" by (simp add: edges_def)
qed

lemma preprocess_all:
  assumes "set fs \<subseteq> dom (w_filters w)"
  shows "run_steps (ms_filter_preprocess (\<lambda>_. Some) t) fs (attached t C w) = Some (attached t (C \<union> set fs) w)"
  using assms
proof (induction fs arbitrary: C)
  case (Cons f fs)
  have "upd_filter f (\<lambda>x. x\<lparr>f_last_tick := 0, f_ticker := Some t\<rparr>) (attached t C w) = Some (attached t (insert f C) w)"
    using Cons.prems by (auto simp: upd_filter_def attached_def fun_eq_iff)
  then have "ms_filter_preprocess (\<lambda>_. Some) t f (attached t C w) = Some (attached t (insert f C) w)"
    by (simp add: ms_filter_preprocess_def)
  then show ?case using Cons by simp
qed simp

lemma attached_none: "attached t {} w = w"
  by (simp add: attached_def)

text \<open>A graph that can be attached: its filters are set up and none is marked by an earlier search.\<close>

definition attachable :: "('d ms_world \<Rightarrow> ptr \<Rightarrow> bool) \<Rightarrow> ptr \<Rightarrow> ptr \<Rightarrow> 'd ms_world \<Rightarrow> bool" where
  "attachable ready t f w \<longleftrightarrow> graph_ok w \<and> f \<in> dom (w_filters w) \<and> map_option f_ticker (w_filters w f) = Some None \<and>
     (\<forall>g \<in> component w f. has_output w g \<and> ready (attached t (component w f) w) g \<and> (g, g) \<notin> edges w) \<and>
     (\<forall>g x. w_filters w g = Some x \<longrightarrow> \<not> f_seen x) \<and> tasks_of w = {} \<and>
     (\<exists>y. w_tickers w t = Some y \<and> t_execution_list y = [] \<and> t_ticks y \<noteq> -1)"

text \<open>The sources of a graph are the filters without inputs.\<close>

definition sources :: "'d ms_world \<Rightarrow> ptr \<Rightarrow> ptr set" where
  "sources w f = {g \<in> component w f. \<exists>x. w_filters w g = Some x \<and> fd_ninputs (f_desc x) = 0}"

lemma attach_spec:
  assumes a: "attachable ready t f w" and some: "sources w f \<noteq> {}"
  obtains w1 y ss where "ms_ticker_attach (\<lambda>_. Some) t f w = Some w1" "set ss = sources w f"
    "w_tickers w t = Some y" "t_ticks y \<noteq> -1" "scheduling_only (attached t (component w f) w) w1"
    "w_filters w1 = w_filters (attached t (component w f) w)" "w_queues w1 = w_queues w"
    "w_tickers w1 = (w_tickers w)(t \<mapsto> y\<lparr>t_execution_list := ss\<rparr>)" "w_ran w1 = w_ran w"
proof -
  let ?C = "component w f"
  have ok: "graph_ok w" and f: "f \<in> dom (w_filters w)" using a by (auto simp: attachable_def)
  obtain x where x: "w_filters w f = Some x" "f_ticker x = None" using a by (auto simp: attachable_def)
  obtain y where y: "w_tickers w t = Some y" "t_execution_list y = []" "t_ticks y \<noteq> -1"
    using a by (auto simp: attachable_def)
  have "\<forall>g \<in> ?C. has_output w g" "\<forall>g x. w_filters w g = Some x \<longrightarrow> \<not> f_seen x"
    using a by (auto simp: attachable_def)
  then obtain l where l: "ms_filter_find_neighbours f w = Some (l, w)" "distinct l" "set l = ?C"
    using find_neighbours_component [OF ok f] by blast
  have s: "set (get_sources l w) = sources w f"
    using component_props(2) [OF ok f] l(3) unfolding get_sources_def sources_def by fastforce
  then have ne: "get_sources l w \<noteq> []" using some by auto
  have p: "run_steps (ms_filter_preprocess (\<lambda>_. Some) t) l w = Some (attached t ?C w)"
    using preprocess_all [of l w t "{}"] l(3) component_props(2) [OF ok f] by (simp add: attached_none)
  define w1 where "w1 = (attached t ?C w)\<lparr>w_tickers := (w_tickers w)(t \<mapsto> y\<lparr>t_execution_list := get_sources l w\<rparr>)\<rparr>"
  have "ms_ticker_attach (\<lambda>_. Some) t f w = Some w1"
    using x y l(1) ne p by (simp add: ms_ticker_attach_def ms_ticker_attach_multiple_def upd_ticker_def w1_def)
  moreover have "scheduling_only (attached t ?C w) w1"
    using y by (auto simp: scheduling_only_def w1_def gview_def)
  ultimately show ?thesis using that s y by (simp add: w1_def)
qed

lemma component_edges:
  assumes "graph_ok w" and "f \<in> dom (w_filters w)" and "(g, h) \<in> edges w"
  shows "g \<in> component w f \<longleftrightarrow> h \<in> component w f"
  using component_props(4) [OF assms(1,2)] assms(3) unfolding links_def by blast

text \<open>What the ticker needs to run, after the attachment.\<close>

lemma attach_runnable:
  assumes fc: "filter_code process taskfunc ready" and a: "attachable ready t f w" and some: "sources w f \<noteq> {}"
  obtains w1 z where "ms_ticker_attach (\<lambda>_. Some) t f w = Some w1" "runnable ready (component w f) w1"
    "w_tickers w1 t = Some z" "set (t_execution_list z) = sources w f" "tasks_of w1 = {}"
    "\<forall>g \<in> component w f. last_of_filter w1 g \<noteq> Some (t_ticks z + 1)" "edges w1 = edges w" "w_ran w1 = w_ran w"
proof -
  let ?C = "component w f"
  have ok: "graph_ok w" and f: "f \<in> dom (w_filters w)" using a by (auto simp: attachable_def)
  obtain w1 y ss where w1: "ms_ticker_attach (\<lambda>_. Some) t f w = Some w1" "set ss = sources w f"
    "w_tickers w t = Some y" "t_ticks y \<noteq> -1" "scheduling_only (attached t ?C w) w1"
    "w_filters w1 = w_filters (attached t ?C w)" "w_queues w1 = w_queues w"
    "w_tickers w1 = (w_tickers w)(t \<mapsto> y\<lparr>t_execution_list := ss\<rparr>)" "w_ran w1 = w_ran w"
    using attach_spec [OF a some] .
  have g: "gview (attached t ?C w) = gview w1" using w1(5) by (simp add: scheduling_only_def)
  have e: "edges w1 = edges w" using gview_edges [OF g] attached_graph(2) [OF ok] by metis
  have "runnable ready ?C w1"
    unfolding runnable_def
  proof (intro conjI allI impI)
    show "graph_ok w1" by (rule gview_ok [OF g attached_graph(1) [OF ok]])
    show "?C \<subseteq> dom (w_filters w1)" using component_props(2) [OF ok f] w1(6) by simp
    have "\<forall>g \<in> ?C. ready (attached t ?C w) g" using a by (simp add: attachable_def)
    then show "\<forall>g \<in> ?C. ready w1 g" using filter_code.ready_frame [OF fc _ w1(5)] by blast
    fix g h assume gh: "(g, h) \<in> edges w1"
    show "g \<in> ?C \<longleftrightarrow> h \<in> ?C" using component_edges [OF ok f] gh e by blast
    show "g \<noteq> h" if "g \<in> ?C"
      using a that gh e unfolding attachable_def by blast
  qed
  moreover have "tasks_of w1 = {}"
    using a w1(3,8) by (auto simp: attachable_def tasks_of_def split: if_splits)
  moreover have "\<forall>g \<in> ?C. last_of_filter w1 g \<noteq> Some (t_ticks y + 1)"
  proof -
    have "t_ticks y + 1 \<noteq> 0" using w1(4) by (metis add_eq_0_iff2 diff_0 diff_eq_eq)
    then show ?thesis using w1(6) by (auto simp: last_of_filter_def attached_def)
  qed
  ultimately show ?thesis using that w1 e by simp
qed

text \<open>An acyclic graph in which every filter with inputs has a predecessor has a source.\<close>

lemma acyclic_source:
  assumes ok: "graph_ok w" and f: "f \<in> dom (w_filters w)" and ac: "acyclic (Restr (edges w) (component w f))"
    and fed: "\<forall>g \<in> component w f. g \<in> sources w f \<or> preds w g \<noteq> {}"
  shows "sources w f \<noteq> {}"
proof -
  let ?C = "component w f" and ?R = "Restr (edges w) (component w f)"
  have "finite ?R" using component_props(3) [OF ok f] by (meson finite_SigmaI finite_subset inf_le2)
  then have "wf ?R" using ac by (rule finite_acyclic_wf)
  then obtain z where z: "z \<in> ?C" "\<forall>y. (y, z) \<in> ?R \<longrightarrow> y \<notin> ?C"
    using component_props(1) [OF ok f] by (metis wf_eq_minimal)
  have "preds w z = {}" using z component_edges [OF ok f] by blast
  then show ?thesis using fed z(1) by blast
qed

lemma no_preds:
  assumes ok: "graph_ok w" and g: "g \<in> sources w f"
  shows "preds w g = {}"
proof -
  obtain x where x: "w_filters w g = Some x" "fd_ninputs (f_desc x) = 0" using g by (auto simp: sources_def)
  then have "f_inputs x = []" using graph_okD(2) [OF ok x(1)] by simp
  then show ?thesis using edges_inputs [OF ok x(1)] by simp
qed

text \<open>In an order of execution each filter stands after those it reads from.\<close>

lemma in_order_index:
  "in_order P V fs \<Longrightarrow> j < length fs \<Longrightarrow> p \<in> P (fs ! j) \<Longrightarrow> p \<in> V \<or> (\<exists>i < j. fs ! i = p)"
proof (induction fs arbitrary: V j)
  case (Cons f fs)
  show ?case
  proof (cases j)
    case 0
    then show ?thesis using Cons.prems by auto
  next
    case (Suc k)
    then have "p \<in> insert f V \<or> (\<exists>i < k. fs ! i = p)" using Cons.IH [of "insert f V" k] Cons.prems by simp
    then show ?thesis using Suc by (metis Suc_less_eq insertE nth_Cons_0 nth_Cons_Suc zero_less_Suc)
  qed
qed simp

lemma in_order_edges:
  assumes "in_order (preds w) {} r" and "i < length r" "j < length r" "(r ! i, r ! j) \<in> edges w"
  shows "i < j"
proof -
  obtain k where "k < j" "r ! k = r ! i" using in_order_index [OF assms(1,3), of "r ! i"] assms(4) by auto
  then show ?thesis using in_order_distinct [OF assms(1)] assms(2,3) by (metis nth_eq_iff_index_eq order.strict_trans)
qed

section \<open>Concrete graphs\<close>

text \<open>
  A source, a tee, a join and a sink with a ticker, unconnected; then the graph in which two outputs
  of the tee feed the join, and one with a second tee after the join that leads back into it.
\<close>

definition new_filter :: "filter_desc \<Rightarrow> basic_data \<Rightarrow> basic_data ms_filter" where
  "new_filter d v = \<lparr>f_desc = d, f_inputs = replicate (fd_ninputs d) None, f_outputs = replicate (fd_noutputs d) None,
     f_data = v, f_ticker = None, f_last_tick = 0, f_postponed_task = 0, f_seen = False\<rparr>"

definition demo_parts :: basic_world where
  "demo_parts = \<lparr>w_filters = [0 \<mapsto> new_filter ms_void_source_desc void_source_init, 1 \<mapsto> new_filter ms_tee_desc tee_init,
      2 \<mapsto> new_filter ms_join_desc No_Data, 3 \<mapsto> new_filter ms_void_sink_desc No_Data],
     w_queues = Map.empty, w_tickers = [5 \<mapsto> ms_ticker_init], w_fresh = 10, w_ran = []\<rparr>"

definition demo_graph :: basic_world where
  "demo_graph = linked 2 0 3 0 (linked 1 1 2 1 (linked 1 0 2 0 (linked 0 0 1 0 demo_parts)))"

lemma demo_parts_ok: "graph_ok demo_parts"
  by (auto simp: graph_ok_def demo_parts_def plugged_def new_filter_def split: if_splits)

lemma demo_parts_edges: "edges demo_parts = {}"
  by (simp add: edges_def demo_parts_def)

lemmas demo_simps = linked_def plug_out_def plug_in_def demo_parts_def new_filter_def basic_descs MS_TEE_NOUTPUTS_def

lemma demo_ok:
  "graph_ok demo_graph" "edges demo_graph = {(0, 1), (1, 2), (2, 3)}"
proof -
  have a: "pins_free demo_parts 0 0 1 0" by (simp add: pins_free_def demo_simps)
  note a = linked_ok [OF demo_parts_ok a]
  have b: "pins_free (linked 0 0 1 0 demo_parts) 1 0 2 0" by (simp add: pins_free_def demo_simps)
  note b = linked_ok [OF a(1) b]
  have c: "pins_free (linked 1 0 2 0 (linked 0 0 1 0 demo_parts)) 1 1 2 1" by (simp add: pins_free_def demo_simps)
  note c = linked_ok [OF b(1) c]
  have d: "pins_free (linked 1 1 2 1 (linked 1 0 2 0 (linked 0 0 1 0 demo_parts))) 2 0 3 0"
    by (simp add: pins_free_def demo_simps)
  note d = linked_ok [OF c(1) d]
  show "graph_ok demo_graph" using d(1) by (simp add: demo_graph_def)
  show "edges demo_graph = {(0, 1), (1, 2), (2, 3)}"
    using a(2) b(2) c(2) d(2) demo_parts_edges by (auto simp: demo_graph_def)
qed

definition demo_loop :: basic_world where
  "demo_loop = linked 1 1 3 0 (linked 1 0 2 1 (linked 2 0 1 0 (linked 0 0 2 0 demo_parts)))"

lemma demo_loop_ok:
  "graph_ok demo_loop" "edges demo_loop = {(0, 2), (2, 1), (1, 2), (1, 3)}"
proof -
  have a: "pins_free demo_parts 0 0 2 0" by (simp add: pins_free_def demo_simps)
  note a = linked_ok [OF demo_parts_ok a]
  have b: "pins_free (linked 0 0 2 0 demo_parts) 2 0 1 0" by (simp add: pins_free_def demo_simps)
  note b = linked_ok [OF a(1) b]
  have c: "pins_free (linked 2 0 1 0 (linked 0 0 2 0 demo_parts)) 1 0 2 1" by (simp add: pins_free_def demo_simps)
  note c = linked_ok [OF b(1) c]
  have d: "pins_free (linked 1 0 2 1 (linked 2 0 1 0 (linked 0 0 2 0 demo_parts))) 1 1 3 0"
    by (simp add: pins_free_def demo_simps)
  note d = linked_ok [OF c(1) d]
  show "graph_ok demo_loop" using d(1) by (simp add: demo_loop_def)
  show "edges demo_loop = {(0, 2), (2, 1), (1, 2), (1, 3)}"
    using a(2) b(2) c(2) d(2) demo_parts_edges by (auto simp: demo_loop_def)
qed

lemma component_eqI:
  assumes "\<forall>g h. (g, h) \<in> links w \<longrightarrow> g \<in> C \<longrightarrow> h \<in> C" and "f \<in> C" and "\<forall>g \<in> C. (f, g) \<in> (links w)\<^sup>*"
  shows "component w f = C"
proof
  have "(links w)\<^sup>* `` C = C" using assms(1) by (intro Image_closed_trancl) blast
  then show "component w f \<subseteq> C" using assms(2) unfolding component_def by blast
  show "C \<subseteq> component w f" using assms(3) by (auto simp: component_def)
qed

lemma demo_components: "component demo_graph 1 = {0, 1, 2, 3}" "component demo_loop 1 = {0, 1, 2, 3}"
proof -
  have l: "(1, 0) \<in> (links demo_graph)" "(1, 2) \<in> links demo_graph" "(2, 3) \<in> links demo_graph"
    "(1, 2) \<in> links demo_loop" "(2, 0) \<in> links demo_loop" "(1, 3) \<in> links demo_loop"
    by (simp_all add: links_def demo_ok demo_loop_ok)
  have "(1, 3) \<in> (links demo_graph)\<^sup>*" "(1, 0) \<in> (links demo_loop)\<^sup>*"
    using l by (meson r_into_rtrancl rtrancl_into_rtrancl)+
  then show "component demo_graph 1 = {0, 1, 2, 3}" "component demo_loop 1 = {0, 1, 2, 3}"
    using l by (intro component_eqI; auto simp: links_def demo_ok demo_loop_ok)+
qed

lemma demo_filters:
  "w_filters demo_graph 0 = Some ((new_filter ms_void_source_desc void_source_init)\<lparr>f_outputs := [Some 10]\<rparr>)"
  "w_filters demo_graph 1 = Some ((new_filter ms_tee_desc tee_init)\<lparr>f_inputs := [Some 10],
     f_outputs := [Some 11, Some 12, None, None, None, None, None, None, None, None]\<rparr>)"
  "w_filters demo_graph 2 = Some ((new_filter ms_join_desc No_Data)\<lparr>f_inputs := [Some 11, Some 12], f_outputs := [Some 13]\<rparr>)"
  "w_filters demo_graph 3 = Some ((new_filter ms_void_sink_desc No_Data)\<lparr>f_inputs := [Some 13]\<rparr>)"
  "w_filters demo_loop 0 = Some ((new_filter ms_void_source_desc void_source_init)\<lparr>f_outputs := [Some 10]\<rparr>)"
  "w_filters demo_loop 1 = Some ((new_filter ms_tee_desc tee_init)\<lparr>f_inputs := [Some 11],
     f_outputs := [Some 12, Some 13, None, None, None, None, None, None, None, None]\<rparr>)"
  "w_filters demo_loop 2 = Some ((new_filter ms_join_desc No_Data)\<lparr>f_inputs := [Some 10, Some 12], f_outputs := [Some 11]\<rparr>)"
  "w_filters demo_loop 3 = Some ((new_filter ms_void_sink_desc No_Data)\<lparr>f_inputs := [Some 13]\<rparr>)"
  by (simp_all add: demo_graph_def demo_loop_def demo_simps eval_nat_numeral)

lemma demo_dom: "dom (w_filters demo_graph) = {0, 1, 2, 3}" "dom (w_filters demo_loop) = {0, 1, 2, 3}"
  by (auto simp: demo_graph_def demo_loop_def linked_def, auto simp: demo_parts_def split: if_splits)

lemma demo_tickers: "w_tickers demo_graph = [5 \<mapsto> ms_ticker_init]" "w_tickers demo_loop = [5 \<mapsto> ms_ticker_init]"
  by (simp_all add: demo_graph_def demo_loop_def demo_simps)

lemma demo_unseen:
  "\<forall>g x. w_filters demo_graph g = Some x \<longrightarrow> \<not> f_seen x" "\<forall>g x. w_filters demo_loop g = Some x \<longrightarrow> \<not> f_seen x"
proof -
  have "\<forall>g \<in> dom (w_filters demo_graph). \<not> f_seen (the (w_filters demo_graph g))"
    "\<forall>g \<in> dom (w_filters demo_loop). \<not> f_seen (the (w_filters demo_loop g))"
    unfolding demo_dom by (simp_all add: demo_filters demo_filters(2,6) [unfolded One_nat_def] new_filter_def)
  then show "\<forall>g x. w_filters demo_graph g = Some x \<longrightarrow> \<not> f_seen x" "\<forall>g x. w_filters demo_loop g = Some x \<longrightarrow> \<not> f_seen x"
    by (metis domI option.sel)+
qed

lemma demo_attachable: "attachable basic_ready 5 1 demo_graph" "attachable basic_ready 5 1 demo_loop"
proof -
  have t: "tasks_of demo_graph = {}" "tasks_of demo_loop = {}"
    by (auto simp: tasks_of_def demo_tickers ms_ticker_init_def)
  have "\<forall>g \<in> {0, 1, 2, 3}. has_output demo_graph g \<and> basic_ready (attached 5 {0, 1, 2, 3} demo_graph) g \<and> (g, g) \<notin> edges demo_graph"
    "\<forall>g \<in> {0, 1, 2, 3}. has_output demo_loop g \<and> basic_ready (attached 5 {0, 1, 2, 3} demo_loop) g \<and> (g, g) \<notin> edges demo_loop"
    by (simp_all add: has_output_def basic_ready_def attached_def demo_filters demo_filters(2,6) [unfolded One_nat_def] demo_tickers demo_ok demo_loop_ok
        new_filter_def ms_ticker_init_def TICKER_INTERVAL_def tee_init_def void_source_init_def basic_descs)
  then show "attachable basic_ready 5 1 demo_graph" "attachable basic_ready 5 1 demo_loop"
    unfolding attachable_def demo_components
    using t demo_unseen demo_ok(1) demo_loop_ok(1) demo_dom
    by (simp_all add: demo_filters demo_filters(2,6) [unfolded One_nat_def] demo_tickers ms_ticker_init_def new_filter_def)
qed

section \<open>Running what was attached\<close>





text \<open>
  C15. Linking two pins succeeds exactly when both are in range and free, and adds just that connection;
  otherwise the result is -1 and the world is unchanged. Unlinking the new connection gives the old
  world back, up to the address the queue has used. The graph stays well-formed.
\<close>

theorem link_and_unlink:
  assumes ok: "graph_ok w" and d: "f1 \<in> dom (w_filters w)" "f2 \<in> dom (w_filters w)"
  shows "if pins_free w f1 i f2 j
    then \<exists>w'. ms_filter_link f1 (int i) f2 (int j) w = Some (0, w') \<and> graph_ok w' \<and>
      edges w' = insert (f1, f2) (edges w) \<and>
      ms_filter_unlink f1 (int i) f2 (int j) w' = Some (0, w\<lparr>w_fresh := Suc (w_fresh w)\<rparr>)
    else ms_filter_link f1 (int i) f2 (int j) w = Some (-1, w)"
proof -
  obtain x y where "w_filters w f1 = Some x" "w_filters w f2 = Some y" using d by auto
  then show ?thesis using link_spec [OF ok] linked_ok [OF ok] link_unlink [OF ok] by auto
qed

lemma link_and_unlink_witness:
  "(\<exists>w'. ms_filter_link 1 (int 2) 3 (int 0) demo_parts = Some (0, w') \<and> graph_ok w' \<and>
      edges w' = insert (1, 3) (edges demo_parts) \<and>
      ms_filter_unlink 1 (int 2) 3 (int 0) w' = Some (0, demo_parts\<lparr>w_fresh := Suc (w_fresh demo_parts)\<rparr>)) \<and>
   ms_filter_link 1 (int 10) 3 (int 0) demo_parts = Some (-1, demo_parts)"
proof -
  have d: "1 \<in> dom (w_filters demo_parts)" "3 \<in> dom (w_filters demo_parts)" by (auto simp: demo_parts_def)
  have "pins_free demo_parts 1 2 3 0" "\<not> pins_free demo_parts 1 10 3 0"
    by (simp_all add: pins_free_def demo_simps)
  then show ?thesis
    using link_and_unlink [OF demo_parts_ok d, of 2 0] link_and_unlink [OF demo_parts_ok d, of 10 0] by simp_all
qed

text \<open>
  The search for neighbours ends, finds each filter of the component of \<open>f\<close> once and
  leaves no mark, if every filter with outputs has a connected one.
\<close>

theorem neighbours_are_component:
  assumes "graph_ok w" and "f \<in> dom (w_filters w)" and "\<forall>g \<in> component w f. has_output w g"
    and "\<forall>g x. w_filters w g = Some x \<longrightarrow> \<not> f_seen x"
  shows "\<exists>l. ms_filter_find_neighbours f w = Some (l, w) \<and> distinct l \<and> set l = component w f"
  using find_neighbours_component [OF assms] .


lemma neighbours_are_component_witness:
  "\<exists>l. ms_filter_find_neighbours 1 demo_loop = Some (l, demo_loop) \<and> distinct l \<and> set l = component demo_loop 1"
  using neighbours_are_component [of demo_loop 1] demo_loop_ok(1) demo_dom demo_attachable(2) by (simp add: attachable_def)

end
