(* ===== verification/Ms_Event_Queue.thy ===== *)
theory Ms_Event_Queue
  imports Rtp_Packet
begin

text \<open>
  The event queue through which filters notify the application,
  \<^verbatim>\<open>mediastreamer2/src/base/eventqueue.c\<close>: a ring of bytes in which each event
  takes 16 bytes for the filter and the event number and up to 255 bytes for its argument, whose size is
  the low byte of the number. Positions are offsets in the buffer. The application's callback is
  recorded as the event it is given; \<open>notify\<close> says of a filter whether it has a callback, and is
  \<open>None\<close> where there is no filter. Access outside the buffer is \<open>None\<close>. The mutex is
  not modelled: an operation is one step.
\<close>

section \<open>The queue\<close>

definition MS_EVENT_BUF_SIZE :: nat where "MS_EVENT_BUF_SIZE = 8192"

record event_queue =
  eq_rptr :: nat
  eq_wptr :: nat
  eq_endptr :: nat
  eq_lim :: nat
  eq_freeroom :: int
  eq_size :: int
  eq_buffer :: "u8 list"

text \<open>The filter, the number and, unless it is empty, the argument.\<close>

type_synonym event = "u64 \<times> u32 \<times> u8 list"

definition le64_bytes :: "u64 \<Rightarrow> u8 list" where
  "le64_bytes x = le32_bytes (ucast x) @ le32_bytes (ucast (drop_bit 32 x))"

definition le64 :: "u8 list \<Rightarrow> u64" where
  "le64 bs = ucast (le32 (take 4 bs)) OR push_bit 32 (ucast (le32 (drop 4 bs)))"

definition ms_event_queue_new :: event_queue where
  "ms_event_queue_new = \<lparr>eq_rptr = 0, eq_wptr = 0, eq_endptr = MS_EVENT_BUF_SIZE, eq_lim = MS_EVENT_BUF_SIZE,
     eq_freeroom = int MS_EVENT_BUF_SIZE, eq_size = int MS_EVENT_BUF_SIZE,
     eq_buffer = replicate MS_EVENT_BUF_SIZE 0\<rparr>"

definition argsize :: "u32 \<Rightarrow> nat" where "argsize ev_id = unat (ev_id AND 0xff)"

definition eq_write :: "nat \<Rightarrow> u8 list \<Rightarrow> u8 list \<Rightarrow> u8 list option" where
  "eq_write i bs b = (if i + length bs \<le> length b then Some (put_at i bs b) else None)"

definition eq_read :: "nat \<Rightarrow> nat \<Rightarrow> u8 list \<Rightarrow> u8 list option" where
  "eq_read i n b = (if i + n \<le> length b then Some (sub i n b) else None)"

text \<open>\<open>arg\<close> is the memory the argument points to.\<close>

definition store_event :: "nat \<Rightarrow> u64 \<Rightarrow> u32 \<Rightarrow> u8 list \<Rightarrow> u8 list \<Rightarrow> u8 list option" where
  "store_event p f ev_id arg b = do {
     b \<leftarrow> eq_write p (le64_bytes f) b;
     b \<leftarrow> eq_write (p + 8) (le64_bytes (ucast ev_id)) b;
     if argsize ev_id > 0 then
       if length arg < argsize ev_id then None else eq_write (p + 16) (take (argsize ev_id) arg) b
     else Some b }"

definition write_event :: "u64 \<Rightarrow> u32 \<Rightarrow> u8 list \<Rightarrow> event_queue \<Rightarrow> event_queue option" where
  "write_event f ev_id arg q =
     (let n = argsize ev_id + 16; nextpos = eq_wptr q + n
      in if eq_freeroom q < int n then Some q
         else do {
           let (q, nextpos) = (if nextpos > eq_lim q then (q\<lparr>eq_endptr := eq_wptr q, eq_wptr := 0\<rparr>, n) else (q, nextpos));
           b \<leftarrow> store_event (eq_wptr q) f ev_id arg (eq_buffer q);
           Some (q\<lparr>eq_buffer := b, eq_wptr := nextpos, eq_freeroom := eq_freeroom q - int n\<rparr>) })"

text \<open>Whether there was an event, the callbacks made, and the queue.\<close>

definition read_event :: "(u64 \<Rightarrow> bool option) \<Rightarrow> event_queue \<Rightarrow> (bool \<times> event list \<times> event_queue) option" where
  "read_event notify q =
     (let available = eq_size q - eq_freeroom q
      in if available > 0 then do {
           fb \<leftarrow> eq_read (eq_rptr q) 8 (eq_buffer q);
           ib \<leftarrow> eq_read (eq_rptr q + 8) 8 (eq_buffer q);
           let f = le64 fb;
           let i = (ucast (le64 ib) :: u32);
           let evsize = argsize i + 16;
           has \<leftarrow> notify f;
           evs \<leftarrow> (if has then do {
                     d \<leftarrow> (if argsize i > 0 then eq_read (eq_rptr q + 16) (argsize i) (eq_buffer q) else Some []);
                     Some [(f, i, d)] }
                   else Some []);
           let r = eq_rptr q + evsize;
           let r = (if r \<ge> eq_endptr q then 0 else r);
           Some (True, evs, q\<lparr>eq_rptr := r, eq_freeroom := eq_freeroom q + int evsize\<rparr>) }
         else Some (False, [], q))"

definition ms_event_queue_skip :: "event_queue \<Rightarrow> event_queue" where
  "ms_event_queue_skip q = q\<lparr>eq_lim := nat (eq_size q), eq_freeroom := eq_size q, eq_wptr := 0, eq_rptr := 0,
     eq_endptr := nat (eq_size q)\<rparr>"

partial_function (option) ms_event_queue_pump ::
  "(u64 \<Rightarrow> bool option) \<Rightarrow> event_queue \<Rightarrow> (event list \<times> event_queue) option" where
  "ms_event_queue_pump notify q = do {
     (more, evs, q) \<leftarrow> read_event notify q;
     if more then do {
       (evs', q) \<leftarrow> ms_event_queue_pump notify q;
       Some (evs @ evs', q) }
     else Some ([], q) }"

text \<open>Without a global queue the callback is called at once, on the argument as it is.\<close>

definition ms_filter_notify ::
  "(u64 \<Rightarrow> bool option) \<Rightarrow> u64 \<Rightarrow> u32 \<Rightarrow> u8 list \<Rightarrow> event_queue option \<Rightarrow> (event list \<times> event_queue option) option" where
  "ms_filter_notify notify f i arg gq = do {
     has \<leftarrow> notify f;
     if has then
       (case gq of None \<Rightarrow> Some ([(f, i, arg)], gq)
        | Some q \<Rightarrow> do { q \<leftarrow> write_event f i arg q; Some ([], Some q) })
     else Some ([], gq) }"

definition ms_filter_notify_synchronous :: "(u64 \<Rightarrow> bool option) \<Rightarrow> u64 \<Rightarrow> u32 \<Rightarrow> u8 list \<Rightarrow> event list option" where
  "ms_filter_notify_synchronous notify f i arg = do {
     has \<leftarrow> notify f;
     Some (if has then [(f, i, arg)] else []) }"

definition ms_filter_notify_no_arg ::
  "(u64 \<Rightarrow> bool option) \<Rightarrow> u64 \<Rightarrow> u32 \<Rightarrow> event_queue option \<Rightarrow> (event list \<times> event_queue option) option" where
  "ms_filter_notify_no_arg notify f i gq = ms_filter_notify notify f i [] gq"

section \<open>Encoding of an event\<close>

lemma length_le64_bytes [simp]: "length (le64_bytes x) = 8"
  by (simp add: le64_bytes_def)

lemma le64_le64_bytes [simp]: "le64 (le64_bytes x) = x"
proof -
  have "le64 (le64_bytes x) = ucast (ucast x :: u32) OR push_bit 32 (ucast (ucast (drop_bit 32 x) :: u32))"
    by (simp add: le64_def le64_bytes_def)
  also have "\<dots> = x"
    by (rule bit_word_eqI) (auto simp: bit_simps)
  finally show ?thesis .
qed

lemma ucast_id [simp]: "(ucast (ucast i :: u64) :: u32) = i"
  by (rule bit_word_eqI) (simp add: bit_simps)

lemma argsize_less: "argsize i < 256"
proof -
  have "i AND 0xff \<le> 0xff" by (rule word_and_le1)
  then show ?thesis by (simp add: argsize_def word_le_nat_alt)
qed

definition event_bytes :: "event \<Rightarrow> u8 list" where
  "event_bytes e = (case e of (f, i, d) \<Rightarrow> le64_bytes f @ le64_bytes (ucast i) @ d)"

definition event_ok :: "event \<Rightarrow> bool" where
  "event_ok e \<longleftrightarrow> (case e of (f, i, d) \<Rightarrow> length d = argsize i)"

lemma length_event_bytes: "event_ok (f, i, d) \<Longrightarrow> length (event_bytes (f, i, d)) = argsize i + 16"
  by (simp add: event_bytes_def event_ok_def)

lemma put_at_append:
  assumes "i + length a + length b \<le> length bs"
  shows "put_at (i + length a) b (put_at i a bs) = put_at i (a @ b) bs"
proof -
  have "length a = 0" if "length bs \<le> i" using that assms by linarith
  then show ?thesis using assms by (auto simp: put_at_def min_def add.commute add.left_commute)
qed


lemma store_event_bytes:
  assumes "event_ok (f, i, d)" and "p + argsize i + 16 \<le> length b" and "argsize i \<le> length arg" "d = take (argsize i) arg"
  shows "store_event p f i arg b = Some (put_at p (event_bytes (f, i, d)) b)"
proof -
  have 1: "put_at (p + 8) (le64_bytes (ucast i)) (put_at p (le64_bytes f) b) = put_at p (le64_bytes f @ le64_bytes (ucast i)) b"
    using put_at_append [of p "le64_bytes f" "le64_bytes (ucast i)" b] assms(2) by simp
  have 2: "put_at (p + 16) d (put_at p (le64_bytes f @ le64_bytes (ucast i)) b) = put_at p (event_bytes (f, i, d)) b"
    using put_at_append [of p "le64_bytes f @ le64_bytes (ucast i)" d b] assms(1,2) by (simp add: event_bytes_def event_ok_def)
  have "d = []" if "argsize i = 0" using assms(1) that by (simp add: event_ok_def)
  then have "put_at (p + 8) (le64_bytes (ucast i)) (put_at p (le64_bytes f) b) = put_at p (event_bytes (f, i, d)) b"
    if "argsize i = 0" using that 1 by (simp add: event_bytes_def)
  then show ?thesis
    using 1 2 assms by (cases "argsize i = 0") (simp_all add: eq_write_def store_event_def)
qed

lemma sub_event_bytes:
  assumes "event_ok (f, i, d)" and "sub p (argsize i + 16) b = event_bytes (f, i, d)" and "p + argsize i + 16 \<le> length b"
  shows "eq_read p 8 b = Some (le64_bytes f)" "eq_read (p + 8) 8 b = Some (le64_bytes (ucast i))"
    and "eq_read (p + 16) (argsize i) b = Some d"
proof -
  have s: "sub (p + k) n b = take n (drop k (event_bytes (f, i, d)))" if "k + n \<le> argsize i + 16" for k n
    using assms(2) [symmetric] that by (simp add: sub_def take_drop add.commute min_def)
  show "eq_read p 8 b = Some (le64_bytes f)"
    using s [of 0 8] assms(3) by (simp add: eq_read_def event_bytes_def)
  show "eq_read (p + 8) 8 b = Some (le64_bytes (ucast i))"
    using s [of 8 8] assms(3) by (simp add: eq_read_def event_bytes_def)
  show "eq_read (p + 16) (argsize i) b = Some d"
    using s [of 16 "argsize i"] assms(1,3) by (simp add: eq_read_def event_bytes_def event_ok_def)
qed

section \<open>Bounded queues\<close>

text \<open>
  What a queue of bounded capacity promises: entries are delivered in the order in which they were
  put, and an entry is dropped exactly when the queue is full.
\<close>

datatype 'e fifo_op = Put 'e | Get

fun fifo_run :: "('e \<Rightarrow> 'q \<Rightarrow> 'q option) \<Rightarrow> ('q \<Rightarrow> ('e list \<times> 'q) option) \<Rightarrow> 'e fifo_op list \<Rightarrow> 'q \<Rightarrow>
    ('e list \<times> 'q) option" where
  "fifo_run put get [] q = Some ([], q)"
| "fifo_run put get (Put e # ops) q = do { q \<leftarrow> put e q; fifo_run put get ops q }"
| "fifo_run put get (Get # ops) q = do {
     (out, q) \<leftarrow> get q;
     (out', q) \<leftarrow> fifo_run put get ops q;
     Some (out @ out', q) }"

fun fifo_spec :: "nat \<Rightarrow> 'e fifo_op list \<Rightarrow> 'e list \<Rightarrow> 'e list \<times> 'e list" where
  "fifo_spec cap [] es = ([], es)"
| "fifo_spec cap (Put e # ops) es = fifo_spec cap ops (if length es < cap then es @ [e] else es)"
| "fifo_spec cap (Get # ops) es = (let (out, es') = fifo_spec cap ops (drop 1 es) in (take 1 es @ out, es'))"

locale bounded_fifo =
  fixes rep :: "'q \<Rightarrow> 'e list \<Rightarrow> bool"
    and cap :: nat
    and ok :: "'e \<Rightarrow> bool"
    and put :: "'e \<Rightarrow> 'q \<Rightarrow> 'q option"
    and get :: "'q \<Rightarrow> ('e list \<times> 'q) option"
  assumes put_ok: "rep q es \<Longrightarrow> ok e \<Longrightarrow> \<exists>q'. put e q = Some q' \<and> rep q' (if length es < cap then es @ [e] else es)"
    and get_ok: "rep q es \<Longrightarrow> \<exists>q'. get q = Some (take 1 es, q') \<and> rep q' (drop 1 es)"
begin

lemma run_spec:
  "rep q es \<Longrightarrow> \<forall>e. Put e \<in> set ops \<longrightarrow> ok e \<Longrightarrow>
   \<exists>q'. fifo_run put get ops q = Some (fst (fifo_spec cap ops es), q') \<and> rep q' (snd (fifo_spec cap ops es))"
proof (induction ops arbitrary: q es)
  case (Cons x ops)
  show ?case
  proof (cases x)
    case (Put e)
    then obtain q1 where "put e q = Some q1" "rep q1 (if length es < cap then es @ [e] else es)"
      using put_ok [OF Cons.prems(1), of e] Cons.prems(2) by auto
    then show ?thesis using Cons.IH Cons.prems(2) Put by fastforce
  next
    case Get
    obtain q1 where "get q = Some (take 1 es, q1)" "rep q1 (drop 1 es)" using get_ok [OF Cons.prems(1)] by blast
    then show ?thesis using Cons.IH [of q1 "drop 1 es"] Cons.prems(2) Get by (auto split: prod.splits)
  qed
qed simp

end

section \<open>Events of one size\<close>

text \<open>
  With events of one size that divides the buffer, the queue is a ring of slots: the representation
  of a list of events with arguments of \<open>a\<close> bytes.
\<close>

definition slots :: "nat \<Rightarrow> nat" where "slots a = MS_EVENT_BUF_SIZE div (a + 16)"

definition slot :: "nat \<Rightarrow> nat \<Rightarrow> u8 list \<Rightarrow> u8 list" where "slot a j b = sub ((a + 16) * j) (a + 16) b"

definition event_of :: "(u64 \<Rightarrow> bool option) \<Rightarrow> nat \<Rightarrow> event \<Rightarrow> bool" where
  "event_of notify a e \<longleftrightarrow> event_ok e \<and> argsize (fst (snd e)) = a \<and> notify (fst e) = Some True"

definition eq_rep :: "(u64 \<Rightarrow> bool option) \<Rightarrow> nat \<Rightarrow> event_queue \<Rightarrow> event list \<Rightarrow> bool" where
  "eq_rep notify a q es \<longleftrightarrow> (a + 16) dvd MS_EVENT_BUF_SIZE \<and> (\<forall>e \<in> set es. event_of notify a e) \<and>
     length (eq_buffer q) = MS_EVENT_BUF_SIZE \<and> eq_lim q = MS_EVENT_BUF_SIZE \<and> eq_endptr q = MS_EVENT_BUF_SIZE \<and>
     eq_size q = int MS_EVENT_BUF_SIZE \<and> eq_freeroom q = int MS_EVENT_BUF_SIZE - int ((a + 16) * length es) \<and>
     length es \<le> slots a \<and>
     (\<exists>r w. eq_rptr q = (a + 16) * r \<and> eq_wptr q = (a + 16) * w \<and> r < slots a \<and> w \<le> slots a \<and>
        w mod slots a = (r + length es) mod slots a \<and>
        (\<forall>k < length es. slot a ((r + k) mod slots a) (eq_buffer q) = event_bytes (es ! k)))"

lemma slots_size:
  assumes "(a + 16) dvd MS_EVENT_BUF_SIZE"
  shows "(a + 16) * slots a = MS_EVENT_BUF_SIZE" "0 < slots a"
proof -
  show "(a + 16) * slots a = MS_EVENT_BUF_SIZE" using assms by (simp add: slots_def)
  then show "0 < slots a" by (intro gr0I) (simp add: MS_EVENT_BUF_SIZE_def)
qed

lemma slot_put:
  assumes "length v = a + 16" and "(a + 16) * Suc j \<le> length b" and "(a + 16) * Suc i \<le> length b"
  shows "slot a i (put_at ((a + 16) * j) v b) = (if i = j then v else slot a i b)"
proof (rule nth_equalityI)
  have lv: "length (put_at ((a + 16) * j) v b) = length b" using assms by simp
  then show len: "length (slot a i (put_at ((a + 16) * j) v b)) = length (if i = j then v else slot a i b)"
    using assms unfolding slot_def by simp
  fix k assume "k < length (slot a i (put_at ((a + 16) * j) v b))"
  then have k: "k < a + 16" using assms lv unfolding slot_def by (simp add: sub_def)
  have p: "put_at ((a + 16) * j) v b ! m = (if (a + 16) * j \<le> m \<and> m < (a + 16) * Suc j then v ! (m - (a + 16) * j) else b ! m)"
    if "m < length b" for m
    using that assms by (auto simp: put_at_def nth_append min_def)
  have m: "(a + 16) * i + k < length b" using k assms(3) by simp
  have "(a + 16) * j \<le> (a + 16) * i + k \<and> (a + 16) * i + k < (a + 16) * Suc j \<longleftrightarrow> i = j"
  proof
    assume h: "(a + 16) * j \<le> (a + 16) * i + k \<and> (a + 16) * i + k < (a + 16) * Suc j"
    have "((a + 16) * i + k) div (a + 16) = i" using k by simp
    moreover have "((a + 16) * i + k) div (a + 16) = j"
      using h by (intro div_nat_eqI) (simp_all add: mult.commute)
    ultimately show "i = j" by simp
  qed (use k in simp)
  then show "slot a i (put_at ((a + 16) * j) v b) ! k = (if i = j then v else slot a i b) ! k"
    using p [OF m] k m lv by (auto simp: slot_def sub_def)
qed

lemma slot_in_buffer:
  assumes "(a + 16) dvd MS_EVENT_BUF_SIZE" and "j < slots a"
  shows "(a + 16) * Suc j \<le> MS_EVENT_BUF_SIZE"
  using slots_size(1) [OF assms(1)] assms(2) by (metis Suc_leI mult_le_mono2)

lemma write_event_body:
  assumes "int (argsize i + 16) \<le> eq_freeroom q" and "w = (if eq_wptr q + (argsize i + 16) > eq_lim q then 0 else eq_wptr q)"
    and "event_ok (f, i, d)" and "w + argsize i + 16 \<le> length (eq_buffer q)"
  shows "write_event f i d q = Some (q\<lparr>eq_endptr := (if eq_wptr q + (argsize i + 16) > eq_lim q then eq_wptr q else eq_endptr q),
    eq_buffer := put_at w (event_bytes (f, i, d)) (eq_buffer q), eq_wptr := w + argsize i + 16,
    eq_freeroom := eq_freeroom q - int (argsize i + 16)\<rparr>)"
proof -
  have d: "argsize i \<le> length d" "d = take (argsize i) d" using assms(3) by (simp_all add: event_ok_def)
  note e = store_event_bytes [OF assms(3,4) d]
  show ?thesis
    using assms(1,2) e by (cases "eq_wptr q + (argsize i + 16) > eq_lim q") (simp_all add: write_event_def Let_def algebra_simps)
qed

lemma write_event_refines:
  assumes rep: "eq_rep notify a q es" and e: "event_of notify a (f, i, d)"
  shows "\<exists>q'. write_event f i d q = Some q' \<and> eq_rep notify a q' (if length es < slots a then es @ [(f, i, d)] else es)"
proof (cases "length es < slots a")
  case False
  have dv: "(a + 16) dvd MS_EVENT_BUF_SIZE" and "length es = slots a" using rep False by (auto simp: eq_rep_def)
  then have "eq_freeroom q = 0" using rep slots_size(1) [OF dv] by (simp add: eq_rep_def)
  then show ?thesis using rep False by (simp add: write_event_def Let_def)
next
  case True
  let ?s = "a + 16" and ?n = "slots a"
  have dv: "?s dvd MS_EVENT_BUF_SIZE" using rep by (simp add: eq_rep_def)
  note n = slots_size [OF dv]
  have i: "argsize i = a" "event_ok (f, i, d)" using e by (auto simp: event_of_def)
  obtain r w where q: "eq_rptr q = ?s * r" "eq_wptr q = ?s * w" "r < ?n" "w \<le> ?n" "w mod ?n = (r + length es) mod ?n"
    "\<forall>k < length es. slot a ((r + k) mod ?n) (eq_buffer q) = event_bytes (es ! k)"
    using rep unfolding eq_rep_def by blast
  have f: "length (eq_buffer q) = MS_EVENT_BUF_SIZE" "eq_lim q = MS_EVENT_BUF_SIZE" "eq_endptr q = MS_EVENT_BUF_SIZE"
    "eq_size q = int MS_EVENT_BUF_SIZE" "eq_freeroom q = int MS_EVENT_BUF_SIZE - int (?s * length es)"
    using rep by (simp_all add: eq_rep_def)
  define j where "j = (if w = ?n then 0 else w)"
  have j: "j < ?n" "j = (r + length es) mod ?n" using q(4,5) n(2) by (auto simp: j_def)
  have wrap: "eq_wptr q + (argsize i + 16) > eq_lim q \<longleftrightarrow> w = ?n"
  proof
    assume "eq_wptr q + (argsize i + 16) > eq_lim q"
    then have "?s * Suc w > ?s * ?n" using q(2) f(2) i(1) n(1) by simp
    then show "w = ?n" using q(4) by (simp only: mult_less_cancel1) linarith
  qed (use q(2) f(2) i(1) n(1) in simp)
  have room: "int (argsize i + 16) \<le> eq_freeroom q"
  proof -
    have "?s * Suc (length es) \<le> ?s * ?n" using True by (simp only: mult_le_mono2 Suc_leI)
    then have "?s * length es + ?s \<le> MS_EVENT_BUF_SIZE" unfolding n(1) by simp
    then show ?thesis unfolding f(5) i(1) by linarith
  qed
  have fits: "?s * Suc j \<le> MS_EVENT_BUF_SIZE" by (rule slot_in_buffer [OF dv j(1)])
  have sj: "(if eq_wptr q + (argsize i + 16) > eq_lim q then 0 else eq_wptr q) = ?s * j"
    unfolding wrap j_def using q(2) by simp
  define q' where "q' = q\<lparr>eq_endptr := (if w = ?n then eq_wptr q else eq_endptr q),
    eq_buffer := put_at (?s * j) (event_bytes (f, i, d)) (eq_buffer q), eq_wptr := ?s * j + argsize i + 16,
    eq_freeroom := eq_freeroom q - int (argsize i + 16)\<rparr>"
  have w': "write_event f i d q = Some q'"
    using write_event_body [OF _ sj [symmetric] i(2)] room fits f(1) i(1) unfolding wrap q'_def by simp
  have len: "length (event_bytes (f, i, d)) = ?s" using length_event_bytes [OF i(2)] i(1) by simp
  have old: "slot a ((r + k) mod ?n) (eq_buffer q') = event_bytes ((es @ [(f, i, d)]) ! k)" if "k < Suc (length es)" for k
  proof -
    have m: "(r + k) mod ?n < ?n" using n(2) by simp
    have "(r + k) mod ?n = j \<longleftrightarrow> k = length es"
    proof
      assume "(r + k) mod ?n = j"
      then have "?n dvd (r + length es) - (r + k)"
        using mod_eq_dvd_iff_nat [of "r + k" "r + length es" ?n] j(2) that by simp
      then have "length es - k = 0" using True dvd_imp_le [of ?n "length es - k"] by fastforce
      then show "k = length es" using that by simp
    qed (use j(2) in simp)
    then show ?thesis
      using slot_put [OF len, of j "eq_buffer q" "(r + k) mod ?n"] slot_in_buffer [OF dv m] fits f(1) q(6) that
      by (auto simp: q'_def nth_append)
  qed
  have "eq_rep notify a q' (es @ [(f, i, d)])"
    unfolding eq_rep_def
  proof (intro conjI)
    show "\<exists>r w. eq_rptr q' = ?s * r \<and> eq_wptr q' = ?s * w \<and> r < ?n \<and> w \<le> ?n \<and>
        w mod ?n = (r + length (es @ [(f, i, d)])) mod ?n \<and>
        (\<forall>k < length (es @ [(f, i, d)]). slot a ((r + k) mod ?n) (eq_buffer q') = event_bytes ((es @ [(f, i, d)]) ! k))"
    proof (intro exI conjI)
      show "eq_rptr q' = ?s * r" "eq_wptr q' = ?s * Suc j" using q(1) i(1) by (simp_all add: q'_def)
      show "r < ?n" "Suc j \<le> ?n" using q(3) j(1) by simp_all
      show "Suc j mod ?n = (r + length (es @ [(f, i, d)])) mod ?n" using j(2) by (simp add: mod_Suc_eq)
      show "\<forall>k < length (es @ [(f, i, d)]). slot a ((r + k) mod ?n) (eq_buffer q') = event_bytes ((es @ [(f, i, d)]) ! k)"
        using old by simp
    qed
    show "eq_endptr q' = MS_EVENT_BUF_SIZE" using f(3) q(2) n(1) by (simp add: q'_def)
    show "length (eq_buffer q') = MS_EVENT_BUF_SIZE" using f(1) fits len by (simp add: q'_def)
    show "\<forall>x \<in> set (es @ [(f, i, d)]). event_of notify a x" using rep e by (simp add: eq_rep_def)
    show "eq_freeroom q' = int MS_EVENT_BUF_SIZE - int (?s * length (es @ [(f, i, d)]))"
      using f(5) i(1) by (simp add: q'_def algebra_simps)
    show "length (es @ [(f, i, d)]) \<le> ?n" using True by simp
  qed (use dv f in \<open>simp_all add: q'_def\<close>)
  then show ?thesis using w' True by simp
qed

lemma read_event_refines:
  assumes rep: "eq_rep notify a q es"
  shows "\<exists>q'. read_event notify q = Some (es \<noteq> [], take 1 es, q') \<and> eq_rep notify a q' (drop 1 es)"
proof (cases es)
  case Nil
  then show ?thesis using rep by (simp add: read_event_def eq_rep_def)
next
  case (Cons e fs)
  let ?s = "a + 16" and ?n = "slots a"
  have dv: "?s dvd MS_EVENT_BUF_SIZE" using rep by (simp add: eq_rep_def)
  note n = slots_size [OF dv]
  obtain r w where q: "eq_rptr q = ?s * r" "eq_wptr q = ?s * w" "r < ?n" "w \<le> ?n" "w mod ?n = (r + length es) mod ?n"
    "\<forall>k < length es. slot a ((r + k) mod ?n) (eq_buffer q) = event_bytes (es ! k)"
    using rep unfolding eq_rep_def by blast
  have f: "length (eq_buffer q) = MS_EVENT_BUF_SIZE" "eq_lim q = MS_EVENT_BUF_SIZE" "eq_endptr q = MS_EVENT_BUF_SIZE"
    "eq_size q = int MS_EVENT_BUF_SIZE" "eq_freeroom q = int MS_EVENT_BUF_SIZE - int (?s * length es)"
    "length es \<le> ?n" "\<forall>e \<in> set es. event_of notify a e"
    using rep by (simp_all add: eq_rep_def)
  obtain g i d where e: "e = (g, i, d)" by (cases e)
  have ok: "event_ok (g, i, d)" "argsize i = a" "notify g = Some True" using f(7) Cons e by (auto simp: event_of_def)
  have fits: "?s * Suc r \<le> MS_EVENT_BUF_SIZE" by (rule slot_in_buffer [OF dv q(3)])
  have "slot a r (eq_buffer q) = event_bytes (g, i, d)" using q(3) q(6) [rule_format, of 0] Cons e by simp
  then have sb: "sub (?s * r) (argsize i + 16) (eq_buffer q) = event_bytes (g, i, d)" using ok(2) by (simp add: slot_def)
  have "?s * r + argsize i + 16 \<le> length (eq_buffer q)" using fits f(1) ok(2) by simp
  note rd = sub_event_bytes [OF ok(1) sb this]
  have d: "d = []" if "a = 0" using ok that by (simp add: event_ok_def)
  define r' where "r' = (r + 1) mod ?n"
  have wrap: "(if ?s * r + (argsize i + 16) \<ge> eq_endptr q then 0 else ?s * r + (argsize i + 16)) = ?s * r'"
  proof (cases "Suc r = ?n")
    case True
    then show ?thesis using n(1) f(3) ok(2) by (metis Suc_eq_plus1 add.commute le_refl mod_self mult_Suc_right mult_zero_right r'_def)
  next
    case False
    then have "Suc (Suc r) \<le> ?n" using q(3) by simp
    then have "?s * Suc (Suc r) \<le> MS_EVENT_BUF_SIZE" using n(1) by (metis mult_le_mono2)
    then show ?thesis using False q(3) f(3) ok(2) by (simp add: r'_def)
  qed
  define q0 where "q0 = q\<lparr>eq_rptr := (if ?s * r + (argsize i + 16) \<ge> eq_endptr q then 0 else ?s * r + (argsize i + 16)),
    eq_freeroom := eq_freeroom q + int (argsize i + 16)\<rparr>"
  define q' where "q' = q\<lparr>eq_rptr := ?s * r', eq_freeroom := eq_freeroom q + int (argsize i + 16)\<rparr>"
  have q0: "q0 = q'" unfolding q0_def q'_def wrap ..
  have "0 < ?s * length es" using Cons by simp
  then have "0 < eq_size q - eq_freeroom q" using f(4,5) by linarith
  then have "read_event notify q = Some (True, [(g, i, d)], q0)"
    using rd ok d unfolding read_event_def q0_def Let_def q(1) by (cases "a = 0") (simp_all split del: if_split cong del: if_weak_cong)
  then have "read_event notify q = Some (True, [(g, i, d)], q')" unfolding q0 .
  moreover have "eq_rep notify a q' fs"
    unfolding eq_rep_def
  proof (intro conjI)
    show "\<exists>r w. eq_rptr q' = ?s * r \<and> eq_wptr q' = ?s * w \<and> r < ?n \<and> w \<le> ?n \<and> w mod ?n = (r + length fs) mod ?n \<and>
        (\<forall>k < length fs. slot a ((r + k) mod ?n) (eq_buffer q') = event_bytes (fs ! k))"
    proof (intro exI conjI allI impI)
      show "eq_rptr q' = ?s * r'" "eq_wptr q' = ?s * w" "w \<le> ?n" "r' < ?n"
        using q(2,4) n(2) by (simp_all add: q'_def r'_def)
      show "w mod ?n = (r' + length fs) mod ?n" using q(5) Cons by (simp add: r'_def mod_simps)
      fix k assume "k < length fs"
      then have "slot a ((r + Suc k) mod ?n) (eq_buffer q) = event_bytes (es ! Suc k)"
        using q(6) [rule_format, of "Suc k"] Cons by simp
      then show "slot a ((r' + k) mod ?n) (eq_buffer q') = event_bytes (fs ! k)"
        using Cons by (simp add: q'_def r'_def mod_simps)
    qed
    show "eq_freeroom q' = int MS_EVENT_BUF_SIZE - int (?s * length fs)"
      using f(5) ok(2) Cons by (simp add: q'_def algebra_simps)
  qed (use dv f Cons in \<open>simp_all add: q'_def\<close>)
  ultimately show ?thesis using Cons e by simp
qed

definition eq_put :: "event \<Rightarrow> event_queue \<Rightarrow> event_queue option" where
  "eq_put e q = (case e of (f, i, d) \<Rightarrow> write_event f i d q)"

definition eq_get :: "(u64 \<Rightarrow> bool option) \<Rightarrow> event_queue \<Rightarrow> (event list \<times> event_queue) option" where
  "eq_get notify q = map_option snd (read_event notify q)"

interpretation ring: bounded_fifo "eq_rep notify a" "slots a" "event_of notify a" eq_put "eq_get notify" for notify a
proof
  fix q es and e :: event
  assume "eq_rep notify a q es" "event_of notify a e"
  then show "\<exists>q'. eq_put e q = Some q' \<and> eq_rep notify a q' (if length es < slots a then es @ [e] else es)"
    using write_event_refines [of notify a q es] by (cases e) (simp only: eq_put_def prod.case)
next
  fix q es
  assume "eq_rep notify a q es"
  then show "\<exists>q'. eq_get notify q = Some (take 1 es, q') \<and> eq_rep notify a q' (drop 1 es)"
    using read_event_refines unfolding eq_get_def by fastforce
qed

lemma event_queue_new_rep:
  assumes "(a + 16) dvd MS_EVENT_BUF_SIZE"
  shows "eq_rep notify a ms_event_queue_new []"
  unfolding eq_rep_def ms_event_queue_new_def
  using assms slots_size(2) [OF assms] by (auto intro!: exI [of _ "0 :: nat"])

lemma event_queue_skip_rep: "eq_rep notify a q es \<Longrightarrow> eq_rep notify a (ms_event_queue_skip q) []"
  using slots_size(2) [of a] by (auto simp: eq_rep_def ms_event_queue_skip_def intro!: exI [of _ "0 :: nat"])

lemma pump_rep:
  "eq_rep notify a q es \<Longrightarrow> \<exists>q'. ms_event_queue_pump notify q = Some (es, q') \<and> eq_rep notify a q' []"
proof (induction es arbitrary: q)
  case Nil
  then show ?case using read_event_refines [OF Nil] by (auto simp: ms_event_queue_pump.simps [of notify q])
next
  case (Cons e es)
  obtain q1 where q1: "read_event notify q = Some (True, [e], q1)" "eq_rep notify a q1 es"
    using read_event_refines [OF Cons.prems] by auto
  then show ?case using Cons.IH [OF q1(2)] by (auto simp: ms_event_queue_pump.simps [of notify q])
qed

text \<open>
  C27. For events whose arguments have one size \<open>a\<close> such that \<open>a + 16\<close> divides the
  buffer (arguments of 0, 16, 48, 112 or 240 bytes), the event queue is a first-in first-out queue:
  over any sequence of writes and reads it never faults, delivers the events in order with filter,
  number and argument as they were written, and drops one exactly when \<open>8192 div (a + 16)\<close>
  events are waiting; a pump then delivers all that wait.
\<close>

theorem event_queue_is_fifo:
  assumes "(a + 16) dvd MS_EVENT_BUF_SIZE" and "\<forall>e. Put e \<in> set ops \<longrightarrow> event_of notify a e"
  shows "\<exists>q. fifo_run eq_put (eq_get notify) ops ms_event_queue_new = Some (fst (fifo_spec (slots a) ops []), q) \<and>
    (\<exists>q'. ms_event_queue_pump notify q = Some (snd (fifo_spec (slots a) ops []), q'))"
  using ring.run_spec [OF event_queue_new_rep [OF assms(1)] assms(2)] pump_rep by blast

lemma event_queue_is_fifo_witness:
  "\<exists>q. fifo_run eq_put (eq_get (\<lambda>_. Some True)) [Put (1, 0x300100, []), Put (2, 0x300200, []), Get, Put (1, 0x300300, [])]
      ms_event_queue_new = Some ([(1, 0x300100, [])], q) \<and>
    (\<exists>q'. ms_event_queue_pump (\<lambda>_. Some True) q = Some ([(2, 0x300200, []), (1, 0x300300, [])], q'))"
  using event_queue_is_fifo [of 0 "[Put (1, 0x300100, []), Put (2, 0x300200, []), Get, Put (1, 0x300300, [])]" "\<lambda>_. Some True"]
  by (simp add: MS_EVENT_BUF_SIZE_def slots_def event_of_def event_ok_def argsize_def)

section \<open>The wrap with other sizes\<close>

text \<open>The same event written and pumped, \<open>n\<close> times.\<close>

primrec feed :: "(u64 \<Rightarrow> bool option) \<Rightarrow> event \<Rightarrow> nat \<Rightarrow> event_queue \<Rightarrow> (event list \<times> event_queue) option" where
  "feed notify e 0 q = Some ([], q)"
| "feed notify e (Suc n) q = do {
     (out, q) \<leftarrow> feed notify e n q;
     q \<leftarrow> eq_put e q;
     (out', q) \<leftarrow> ms_event_queue_pump notify q;
     Some (out @ out', q) }"

text \<open>All read up to offset \<open>p\<close>, and nothing written from there on.\<close>

definition drained :: "nat \<Rightarrow> event_queue \<Rightarrow> bool" where
  "drained p q \<longleftrightarrow> eq_rptr q = p \<and> eq_wptr q = p \<and> eq_endptr q = MS_EVENT_BUF_SIZE \<and> eq_lim q = MS_EVENT_BUF_SIZE \<and>
     eq_freeroom q = int MS_EVENT_BUF_SIZE \<and> eq_size q = int MS_EVENT_BUF_SIZE \<and>
     length (eq_buffer q) = MS_EVENT_BUF_SIZE \<and> drop p (eq_buffer q) = replicate (MS_EVENT_BUF_SIZE - p) 0"

lemma feed_one:
  assumes q: "drained p q" and e: "event_of notify a (f, i, d)" and p: "p + a + 16 < MS_EVENT_BUF_SIZE"
  shows "\<exists>q1 q2. eq_put (f, i, d) q = Some q1 \<and> ms_event_queue_pump notify q1 = Some ([(f, i, d)], q2) \<and>
    drained (p + a + 16) q2"
proof -
  have ok: "event_ok (f, i, d)" "argsize i = a" "notify f = Some True" using e by (auto simp: event_of_def)
  define q1 where "q1 = q\<lparr>eq_buffer := put_at p (event_bytes (f, i, d)) (eq_buffer q), eq_wptr := p + a + 16,
    eq_freeroom := int MS_EVENT_BUF_SIZE - int (a + 16)\<rparr>"
  have b: "length (event_bytes (f, i, d)) = a + 16" using length_event_bytes [OF ok(1)] ok(2) by simp
  have put: "write_event f i d q = Some q1"
    using write_event_body [of i q p f d] ok q p argsize_less [of i]
    by (simp add: drained_def q1_def MS_EVENT_BUF_SIZE_def)
  have sb: "sub p (argsize i + 16) (eq_buffer q1) = event_bytes (f, i, d)"
    using q p b ok(2) by (simp add: q1_def put_at_def sub_def drained_def)
  have "p + argsize i + 16 \<le> length (eq_buffer q1)" using q p ok(2) b by (simp add: q1_def drained_def)
  note rd = sub_event_bytes [OF ok(1) sb this]
  have d: "d = []" if "a = 0" using ok that by (simp add: event_ok_def)
  define q2 where "q2 = q1\<lparr>eq_rptr := p + a + 16, eq_freeroom := int MS_EVENT_BUF_SIZE\<rparr>"
  have "read_event notify q1 = Some (True, [(f, i, d)], q2)"
    using rd ok d q p unfolding read_event_def Let_def
    by (cases "a = 0") (simp_all add: q1_def q2_def drained_def add.assoc)
  moreover have "read_event notify q2 = Some (False, [], q2)"
    using q by (simp add: read_event_def q2_def q1_def drained_def)
  ultimately have "ms_event_queue_pump notify q1 = Some ([(f, i, d)], q2)"
    by (simp add: ms_event_queue_pump.simps [of notify q1] ms_event_queue_pump.simps [of notify q2])
  moreover have "drop (p + a + 16) (eq_buffer q2) = replicate (MS_EVENT_BUF_SIZE - (p + a + 16)) 0"
  proof -
    have "drop (a + 16) (drop p (eq_buffer q)) = replicate (MS_EVENT_BUF_SIZE - (p + a + 16)) 0"
      using q by (simp add: drained_def)
    then show ?thesis using q p b by (simp add: q2_def q1_def put_at_def drained_def algebra_simps)
  qed
  then have "drained (p + a + 16) q2"
    using q p b by (simp add: drained_def q1_def q2_def)
  ultimately show ?thesis using put by (auto simp: eq_put_def)
qed

lemma feed_many:
  assumes e: "event_of notify a (f, i, d)" and n: "(a + 16) * n < MS_EVENT_BUF_SIZE"
  shows "\<exists>q. feed notify (f, i, d) n ms_event_queue_new = Some (replicate n (f, i, d), q) \<and> drained ((a + 16) * n) q"
  using n
proof (induction n)
  case 0
  then show ?case by (simp add: drained_def ms_event_queue_new_def)
next
  case (Suc n)
  then obtain q where q: "feed notify (f, i, d) n ms_event_queue_new = Some (replicate n (f, i, d), q)" "drained ((a + 16) * n) q"
    by auto
  moreover have "(a + 16) * n + a + 16 = (a + 16) * Suc n" by simp
  ultimately obtain q1 q2 where "eq_put (f, i, d) q = Some q1" "ms_event_queue_pump notify q1 = Some ([(f, i, d)], q2)"
    "drained ((a + 16) * Suc n) q2"
    using feed_one [OF q(2) e] Suc.prems by metis
  then show ?case using q(1) by (simp add: replicate_append_same)
qed

text \<open>
  C28. For every other size of the argument the queue fails at its first wrap, however much room there
  is: an application that pumps after each event gets the first \<open>8192 div (a + 16)\<close> of them, and
  the next one is written at the start of the buffer while the reader stays behind the last event,
  where it takes unwritten bytes for a filter: the pump dereferences a null filter or reads past the
  buffer.
\<close>

theorem event_queue_faults_at_wrap:
  assumes e: "event_of notify a (f, i, d)" and nd: "\<not> (a + 16) dvd MS_EVENT_BUF_SIZE" and null: "notify 0 = None"
  shows "\<exists>q q'. feed notify (f, i, d) (slots a) ms_event_queue_new = Some (replicate (slots a) (f, i, d), q) \<and>
    eq_freeroom q = int MS_EVENT_BUF_SIZE \<and> eq_put (f, i, d) q = Some q' \<and> ms_event_queue_pump notify q' = None"
proof -
  have ok: "event_ok (f, i, d)" "argsize i = a" using e by (auto simp: event_of_def)
  have a: "a < 256" using ok(2) argsize_less by metis
  define p where "p = (a + 16) * slots a"
  have p: "p < MS_EVENT_BUF_SIZE" "MS_EVENT_BUF_SIZE < p + (a + 16)"
  proof -
    have "MS_EVENT_BUF_SIZE = p + MS_EVENT_BUF_SIZE mod (a + 16)" by (simp add: p_def slots_def)
    moreover have "0 < MS_EVENT_BUF_SIZE mod (a + 16)" using nd by (simp add: dvd_eq_mod_eq_0)
    moreover have "MS_EVENT_BUF_SIZE mod (a + 16) < a + 16" by simp
    ultimately show "p < MS_EVENT_BUF_SIZE" "MS_EVENT_BUF_SIZE < p + (a + 16)" by linarith+
  qed
  have s: "a + 16 \<le> p" using p(2) a by (simp add: MS_EVENT_BUF_SIZE_def)
  obtain q where q: "feed notify (f, i, d) (slots a) ms_event_queue_new = Some (replicate (slots a) (f, i, d), q)" "drained p q"
    using feed_many [OF e, of "slots a"] p(1) by (auto simp: p_def)
  define q' where "q' = q\<lparr>eq_endptr := p, eq_buffer := put_at 0 (event_bytes (f, i, d)) (eq_buffer q), eq_wptr := a + 16,
    eq_freeroom := int MS_EVENT_BUF_SIZE - int (a + 16)\<rparr>"
  have put: "write_event f i d q = Some q'"
    using write_event_body [of i q 0 f d] ok q(2) p a by (simp add: drained_def q'_def MS_EVENT_BUF_SIZE_def)
  have b: "length (event_bytes (f, i, d)) = a + 16" using length_event_bytes [OF ok(1)] ok(2) by simp
  have r: "eq_read p 8 (eq_buffer q') = None \<or> eq_read p 8 (eq_buffer q') = Some (replicate 8 0)"
  proof (cases "p + 8 \<le> MS_EVENT_BUF_SIZE")
    case True
    have "drop p (eq_buffer q') = drop p (eq_buffer q)"
      using q(2) b s p(1) by (simp add: q'_def put_at_def drained_def)
    moreover have "8 \<le> MS_EVENT_BUF_SIZE - p" using True by simp
    ultimately show ?thesis using q(2) b by (simp add: eq_read_def sub_def drained_def min_def)
  next
    case False
    then show ?thesis using q(2) b p(1) s by (simp add: eq_read_def q'_def drained_def)
  qed
  have "le64 (replicate 8 0) = 0" by (simp add: le64_def le32_def numeral_eq_Suc)
  then have "read_event notify q' = None"
    using r null q(2) by (auto simp: read_event_def Let_def q'_def drained_def)
  then have "ms_event_queue_pump notify q' = None"
    by (simp add: ms_event_queue_pump.simps [of notify q'])
  then show ?thesis using q put by (auto simp: eq_put_def drained_def)
qed

lemma event_queue_faults_at_wrap_witness:
  "\<exists>q q'. feed (\<lambda>f. if f = 0 then None else Some True) (1, 0x300104, [1, 2, 3, 4]) 409 ms_event_queue_new =
      Some (replicate 409 (1, 0x300104, [1, 2, 3, 4]), q) \<and> eq_freeroom q = 8192 \<and>
    eq_put (1, 0x300104, [1, 2, 3, 4]) q = Some q' \<and> ms_event_queue_pump (\<lambda>f. if f = 0 then None else Some True) q' = None"
  using event_queue_faults_at_wrap [of "\<lambda>f. if f = 0 then None else Some True" 4 1 "0x300104" "[1, 2, 3, 4]"]
  by (simp add: MS_EVENT_BUF_SIZE_def slots_def event_of_def event_ok_def argsize_def)

end
