(* ===== verification/Ms_Bufferizer.thy ===== *)
theory Ms_Bufferizer
  imports Ms_Filter Prelude
begin

text \<open>
  The bufferizer of \<^verbatim>\<open>mediastreamer2/src/base/msqueue.c\<close>: messages of any length
  go in and are read out as bytes, in portions of the reader's choice. A message is the list of its
  blocks, a block the bytes between its read and its write pointer: a block read to its end is
  empty and stays in its message until the whole message has been read.
\<close>

section \<open>Operations\<close>

record bufferizer =
  bz_q :: "msg list"
  bz_size :: int

definition msg_bytes :: "msg \<Rightarrow> u8 list" where "msg_bytes m = concat m"

definition ms_bufferizer_init :: bufferizer where
  "ms_bufferizer_init = \<lparr>bz_q = [], bz_size = 0\<rparr>"

definition ms_bufferizer_put :: "msg \<Rightarrow> bufferizer \<Rightarrow> bufferizer" where
  "ms_bufferizer_put m obj = obj\<lparr>bz_size := bz_size obj + int (length (msg_bytes m)), bz_q := bz_q obj @ [m]\<rparr>"

partial_function (option) ms_bufferizer_put_from_queue ::
  "ptr option \<Rightarrow> bufferizer \<times> 'd ms_world \<Rightarrow> (bufferizer \<times> 'd ms_world) option" where
  "ms_bufferizer_put_from_queue q st = do {
     (m, w) \<leftarrow> ms_queue_get q (snd st);
     case m of None \<Rightarrow> Some (fst st, w)
     | Some m \<Rightarrow> ms_bufferizer_put_from_queue q (ms_bufferizer_put m (fst st), w) }"

text \<open>
  The loop of the read: the messages, the block of the first message that is read, the bytes that are
  still wanted and those read. Without a message the code reads through a null pointer.
\<close>

partial_function (option) bz_read_loop :: "nat \<Rightarrow> nat \<Rightarrow> msg list \<Rightarrow> u8 list \<Rightarrow> (u8 list \<times> msg list) option" where
  "bz_read_loop k want q data =
     (if want = 0 then Some (data, q)
      else case q of [] \<Rightarrow> None
      | m # rest \<Rightarrow>
          if length m \<le> k then None
          else let b = m ! k; cplen = min (length b) want; m' = m[k := drop cplen b];
                   data = data @ take cplen b; want = want - cplen
               in if drop cplen b = [] then
                    (if Suc k < length m then bz_read_loop (Suc k) want (m' # rest) data
                     else bz_read_loop 0 want rest data)
                  else bz_read_loop k want (m' # rest) data)"

text \<open>The result, the bytes copied, and the bufferizer.\<close>

definition ms_bufferizer_read :: "int \<Rightarrow> bufferizer \<Rightarrow> (int \<times> u8 list \<times> bufferizer) option" where
  "ms_bufferizer_read datalen obj =
     (if bz_size obj \<ge> datalen then do {
        (data, q) \<leftarrow> bz_read_loop 0 (nat datalen) (bz_q obj) [];
        Some (datalen, data, obj\<lparr>bz_q := q, bz_size := bz_size obj - datalen\<rparr>) }
      else Some (0, [], obj))"

definition ms_bufferizer_skip_bytes :: "int \<Rightarrow> bufferizer \<Rightarrow> bufferizer option" where
  "ms_bufferizer_skip_bytes bytes obj = map_option (snd \<circ> snd) (ms_bufferizer_read bytes obj)"

definition ms_bufferizer_flush :: "bufferizer \<Rightarrow> bufferizer" where
  "ms_bufferizer_flush obj = obj\<lparr>bz_size := 0, bz_q := []\<rparr>"

definition ms_bufferizer_get_avail :: "bufferizer \<Rightarrow> int" where
  "ms_bufferizer_get_avail obj = bz_size obj"

section \<open>A queue of bytes\<close>

definition bz_bytes :: "msg list \<Rightarrow> u8 list" where "bz_bytes q = concat (map msg_bytes q)"

text \<open>The bufferizer holds the bytes \<open>bs\<close>; no message is without a block.\<close>

definition bz_rep :: "bufferizer \<Rightarrow> u8 list \<Rightarrow> bool" where
  "bz_rep obj bs \<longleftrightarrow> bz_bytes (bz_q obj) = bs \<and> bz_size obj = int (length bs) \<and> (\<forall>m \<in> set (bz_q obj). m \<noteq> [])"

lemma bz_bytes_simps [simp]:
  "bz_bytes [] = []" "bz_bytes (m # q) = msg_bytes m @ bz_bytes q" "bz_bytes (p @ q) = bz_bytes p @ bz_bytes q"
  by (simp_all add: bz_bytes_def)

text \<open>
  In the loop the blocks before the current one have been read.
\<close>

definition read_upto :: "nat \<Rightarrow> msg list \<Rightarrow> bool" where
  "read_upto k q \<longleftrightarrow> (case q of [] \<Rightarrow> k = 0 | m # _ \<Rightarrow> k < length m \<and> (\<forall>b \<in> set (take k m). b = []))"

lemma bytes_from:
  assumes "k < length m" and "\<forall>b \<in> set (take k m). b = []"
  shows "msg_bytes m = m ! k @ concat (drop (Suc k) m)"
proof -
  have "concat (take k m) = []" using assms(2) by simp
  moreover have "m = take k m @ m ! k # drop (Suc k) m" using assms(1) by (simp add: id_take_nth_drop [symmetric])
  ultimately show ?thesis unfolding msg_bytes_def by (metis append_Nil concat.simps(2) concat_append)
qed

lemma bz_read_loop_reads:
  assumes "read_upto k q" and "want \<le> length (bz_bytes q)" and "\<forall>m \<in> set q. m \<noteq> []"
  shows "\<exists>q'. bz_read_loop k want q data = Some (data @ take want (bz_bytes q), q') \<and>
    bz_bytes q' = drop want (bz_bytes q) \<and> (\<forall>m \<in> set q'. m \<noteq> [])"
  using assms
proof (induction "want + length (concat q) - k" arbitrary: k want q data rule: less_induct)
  case less
  show ?case
  proof (cases "want = 0 \<or> q = []")
    case True
    then show ?thesis using less.prems by (auto simp: bz_read_loop.simps [of k want q data])
  next
    case False
    then obtain m rest where q: "q = m # rest" by (cases q) auto
    have k: "k < length m" "\<forall>b \<in> set (take k m). b = []" using less.prems(1) q by (auto simp: read_upto_def)
    define b where "b = m ! k"
    define c where "c = min (length b) want"
    define m' where "m' = m[k := drop c b]"
    have by1: "bz_bytes q = b @ concat (drop (Suc k) m) @ bz_bytes rest"
      using bytes_from [OF k] q by (simp add: b_def)
    have tk: "\<forall>b \<in> set (take k m'). b = []" "k < length m'" using k by (simp_all add: m'_def)
    have by2: "bz_bytes (m' # rest) = drop c b @ concat (drop (Suc k) m) @ bz_bytes rest"
      using bytes_from [OF tk(2,1)] k(1) by (simp add: m'_def)
    have dr: "bz_bytes (m' # rest) = drop c (bz_bytes q)" "take c (bz_bytes q) = take c b"
      using by1 by2 by (simp_all add: c_def)
    have step: "bz_read_loop k want q data =
       (if drop c b = [] then
          (if Suc k < length m then bz_read_loop (Suc k) (want - c) (m' # rest) (data @ take c b)
           else bz_read_loop 0 (want - c) rest (data @ take c b))
        else bz_read_loop k (want - c) (m' # rest) (data @ take c b))"
      using False k by (simp add: bz_read_loop.simps [of k want "m # rest" data] q Let_def b_def c_def m'_def)
    have "\<exists>q'. bz_read_loop k want q data = Some ((data @ take c b) @ take (want - c) (drop c (bz_bytes q)), q') \<and>
      bz_bytes q' = drop (want - c) (drop c (bz_bytes q)) \<and> (\<forall>m \<in> set q'. m \<noteq> [])"
    proof -
      have w: "want - c \<le> length (drop c (bz_bytes q))" using less.prems(2) by simp
      have ne: "\<forall>m \<in> set (m' # rest). m \<noteq> []" "\<forall>m \<in> set rest. m \<noteq> []" using less.prems(3) q k(1) by (auto simp: m'_def)
      consider "drop c b = []" "Suc k < length m" | "drop c b = []" "\<not> Suc k < length m" | "drop c b \<noteq> []" by blast
      then show ?thesis
      proof cases
        case 1
        have rd: "read_upto (Suc k) (m' # rest)"
          using 1 tk k(1) by (auto simp: read_upto_def m'_def take_Suc_conv_app_nth)
        have me: "want - c + length (concat (m' # rest)) - Suc k < want + length (concat q) - k"
          using 1(2) q by (simp add: m'_def)
        show ?thesis
          using less.hyps [of "want - c" "m' # rest" "Suc k" "data @ take c b", OF me rd w [folded dr(1)] ne(1)] 1
          unfolding step dr(1) by simp
      next
        case 2
        then have d: "bz_bytes rest = drop c (bz_bytes q)" using by2 dr(1) k(1) by simp
        have rd: "read_upto 0 rest" using ne(2) by (cases rest) (auto simp: read_upto_def)
        have me: "want - c + length (concat rest) - 0 < want + length (concat q) - k"
          using k(1) q by simp
        show ?thesis
          using less.hyps [of "want - c" rest 0 "data @ take c b", OF me rd w [folded d] ne(2)] 2
          unfolding step d by simp
      next
        case 3
        then have c: "c = want" "0 < c" using False by (auto simp: c_def)
        have rd: "read_upto k (m' # rest)" using tk by (simp add: read_upto_def)
        have me: "want - c + length (concat (m' # rest)) - k < want + length (concat q) - k"
          using c k(1) q by (simp add: m'_def)
        show ?thesis
          using less.hyps [of "want - c" "m' # rest" k "data @ take c b", OF me rd w [folded dr(1)] ne(1)] 3
          unfolding step dr(1) by simp
      qed
    qed
    moreover have "take c b @ take (want - c) (drop c (bz_bytes q)) = take want (bz_bytes q)"
      using dr(2) take_add [of c "want - c" "bz_bytes q"] by (simp add: c_def)
    ultimately show ?thesis by (simp add: c_def)
  qed
qed

section \<open>The bufferizer is a queue of bytes\<close>

lemma bz_put_rep: "bz_rep obj bs \<Longrightarrow> m \<noteq> [] \<Longrightarrow> bz_rep (ms_bufferizer_put m obj) (bs @ msg_bytes m)"
  by (auto simp: bz_rep_def ms_bufferizer_put_def)

lemma bz_flush_rep: "bz_rep (ms_bufferizer_flush obj) []"
  by (simp add: bz_rep_def ms_bufferizer_flush_def)

lemma bz_read_rep:
  assumes rep: "bz_rep obj bs"
  shows "\<exists>obj'. ms_bufferizer_read (int n) obj =
      Some (if n \<le> length bs then (int n, take n bs, obj') else (0, [], obj')) \<and>
    bz_rep obj' (if n \<le> length bs then drop n bs else bs)"
proof (cases "n \<le> length bs")
  case True
  have r: "bz_bytes (bz_q obj) = bs" "bz_size obj = int (length bs)" "\<forall>m \<in> set (bz_q obj). m \<noteq> []"
    using rep by (simp_all add: bz_rep_def)
  have "read_upto 0 (bz_q obj)" using r(3) by (cases "bz_q obj") (auto simp: read_upto_def)
  then obtain q' where "bz_read_loop 0 n (bz_q obj) [] = Some (take n bs, q')" "bz_bytes q' = drop n bs" "\<forall>m \<in> set q'. m \<noteq> []"
    using bz_read_loop_reads [of 0 "bz_q obj" n "[]"] r True by auto
  then show ?thesis using True r(2) by (simp add: ms_bufferizer_read_def bz_rep_def of_nat_diff)
next
  case False
  then show ?thesis using rep by (simp add: ms_bufferizer_read_def bz_rep_def)
qed

lemma bz_skip_rep:
  assumes "bz_rep obj bs"
  shows "\<exists>obj'. ms_bufferizer_skip_bytes (int n) obj = Some obj' \<and> bz_rep obj' (if n \<le> length bs then drop n bs else bs)"
  using bz_read_rep [OF assms, of n] by (auto simp: ms_bufferizer_skip_bytes_def)

text \<open>The operations of a user, what they read, and the same on a sequence of bytes.\<close>

datatype bz_op = Bz_Put msg | Bz_Read nat | Bz_Skip nat | Bz_Flush

fun bz_run :: "bz_op list \<Rightarrow> bufferizer \<Rightarrow> (u8 list list \<times> bufferizer) option" where
  "bz_run [] obj = Some ([], obj)"
| "bz_run (Bz_Put m # ops) obj = bz_run ops (ms_bufferizer_put m obj)"
| "bz_run (Bz_Read n # ops) obj = do {
     (r, data, obj) \<leftarrow> ms_bufferizer_read (int n) obj;
     (out, obj) \<leftarrow> bz_run ops obj;
     Some (data # out, obj) }"
| "bz_run (Bz_Skip n # ops) obj = do { obj \<leftarrow> ms_bufferizer_skip_bytes (int n) obj; bz_run ops obj }"
| "bz_run (Bz_Flush # ops) obj = bz_run ops (ms_bufferizer_flush obj)"

fun bytes_run :: "bz_op list \<Rightarrow> u8 list \<Rightarrow> u8 list list \<times> u8 list" where
  "bytes_run [] bs = ([], bs)"
| "bytes_run (Bz_Put m # ops) bs = bytes_run ops (bs @ msg_bytes m)"
| "bytes_run (Bz_Read n # ops) bs =
     (if n \<le> length bs then let (out, bs') = bytes_run ops (drop n bs) in (take n bs # out, bs')
      else let (out, bs') = bytes_run ops bs in ([] # out, bs'))"
| "bytes_run (Bz_Skip n # ops) bs = bytes_run ops (if n \<le> length bs then drop n bs else bs)"
| "bytes_run (Bz_Flush # ops) bs = bytes_run ops []"

lemma bz_run_rep:
  "bz_rep obj bs \<Longrightarrow> \<forall>m. Bz_Put m \<in> set ops \<longrightarrow> m \<noteq> [] \<Longrightarrow>
   \<exists>obj'. bz_run ops obj = Some (fst (bytes_run ops bs), obj') \<and> bz_rep obj' (snd (bytes_run ops bs))"
proof (induction ops arbitrary: obj bs)
  case (Cons x ops)
  note IH = Cons.IH and rep = Cons.prems(1)
  have ne: "\<forall>m. Bz_Put m \<in> set ops \<longrightarrow> m \<noteq> []" using Cons.prems(2) by auto
  show ?case
  proof (cases x)
    case (Bz_Put m)
    then show ?thesis using IH [OF bz_put_rep [OF rep] ne] Cons.prems(2) by auto
  next
    case (Bz_Read n)
    obtain obj1 where o1: "ms_bufferizer_read (int n) obj = Some (if n \<le> length bs then (int n, take n bs, obj1) else (0, [], obj1))"
      "bz_rep obj1 (if n \<le> length bs then drop n bs else bs)" using bz_read_rep [OF rep] by blast
    then show ?thesis using IH [OF o1(2) ne] Bz_Read by (auto split: prod.splits)
  next
    case (Bz_Skip n)
    obtain obj1 where o1: "ms_bufferizer_skip_bytes (int n) obj = Some obj1"
      "bz_rep obj1 (if n \<le> length bs then drop n bs else bs)" using bz_skip_rep [OF rep] by blast
    then show ?thesis using IH [OF o1(2) ne] Bz_Skip by auto
  next
    case Bz_Flush
    then show ?thesis using IH [OF bz_flush_rep ne] by auto
  qed
qed simp

text \<open>
  C29. A bufferizer acts as a queue of bytes: over any sequence of puts, reads, skips and flushes, with
  messages of any division into blocks (empty ones included), no operation faults, each read returns
  exactly the next bytes if so many are there and nothing otherwise, and the number of available bytes
  is the number of bytes put and not yet taken.
\<close>

theorem bufferizer_is_byte_queue:
  assumes "\<forall>m. Bz_Put m \<in> set ops \<longrightarrow> m \<noteq> []"
  shows "\<exists>obj. bz_run ops ms_bufferizer_init = Some (fst (bytes_run ops []), obj) \<and>
    bz_bytes (bz_q obj) = snd (bytes_run ops []) \<and>
    ms_bufferizer_get_avail obj = int (length (snd (bytes_run ops [])))"
proof -
  have "bz_rep ms_bufferizer_init []" by (simp add: bz_rep_def ms_bufferizer_init_def)
  from bz_run_rep [OF this assms] show ?thesis by (auto simp: bz_rep_def ms_bufferizer_get_avail_def)
qed

lemma bufferizer_is_byte_queue_witness:
  "\<exists>obj. bz_run [Bz_Put [[1, 2], [], [3]], Bz_Read 4, Bz_Put [[4, 5]], Bz_Read 4, Bz_Read 1] ms_bufferizer_init =
      Some ([[], [1, 2, 3, 4], [5]], obj) \<and>
    bz_bytes (bz_q obj) = [] \<and> ms_bufferizer_get_avail obj = 0"
  using bufferizer_is_byte_queue [of "[Bz_Put [[1, 2], [], [3]], Bz_Read 4, Bz_Put [[4, 5]], Bz_Read 4, Bz_Read 1]"]
  by (simp add: msg_bytes_def)

end
