(* ===== verification/Ms_G711.thy ===== *)
theory Ms_G711
  imports Ms_Bufferizer Payload Rtp_Packet
begin

text \<open>
  G.711: the sample conversions of \<^verbatim>\<open>mediastreamer2/src/utils/g711common.h\<close> and
  the encoder and decoder filters of \<^verbatim>\<open>audiofilters/alaw.c\<close> and
  \<^verbatim>\<open>ulaw.c\<close>, which differ in the conversion only.
\<close>

section \<open>Samples and codes\<close>

definition val_seg :: "int \<Rightarrow> nat" where
  "val_seg v =
     (let r = 0; v = drop_bit 7 v;
          (v, r) = (if v AND 0xf0 \<noteq> 0 then (drop_bit 4 v, r + 4) else (v, r));
          (v, r) = (if v AND 0x0c \<noteq> 0 then (drop_bit 2 v, r + 2) else (v, r))
      in if v AND 0x02 \<noteq> 0 then r + 1 else r)"

definition s16_to_alaw :: "int \<Rightarrow> u8" where
  "s16_to_alaw pcm_val =
     (let (mask, pcm_val) = (if pcm_val \<ge> 0 then (0xD5, pcm_val)
                             else (0x55, if - pcm_val > 0x7fff then 0x7fff else - pcm_val));
          aval = (if pcm_val < 256 then drop_bit 4 pcm_val
                  else let seg = val_seg pcm_val in push_bit 4 (int seg) OR (drop_bit (seg + 3) pcm_val AND 0x0f))
      in word_of_int aval XOR mask)"

definition alaw_to_s16 :: "u8 \<Rightarrow> int" where
  "alaw_to_s16 a_val =
     (let a_val = a_val XOR 0x55;
          t = uint (a_val AND 0x7f);
          t = (if t < 16 then push_bit 4 t + 8
               else let seg = nat (drop_bit 4 t AND 0x07) in push_bit (seg - 1) (push_bit 4 (t AND 0x0f) + 0x108))
      in if a_val AND 0x80 \<noteq> 0 then t else - t)"

definition s16_to_ulaw :: "int \<Rightarrow> u8" where
  "s16_to_ulaw pcm_val =
     (let (pcm_val, mask) = (if pcm_val < 0 then (0x84 - pcm_val, 0x7f) else (pcm_val + 0x84, 0xff));
          pcm_val = (if pcm_val > 0x7fff then 0x7fff else pcm_val);
          seg = val_seg pcm_val;
          uval = push_bit 4 (int seg) OR (drop_bit (seg + 3) pcm_val AND 0x0f)
      in word_of_int uval XOR mask)"

definition ulaw_to_s16 :: "u8 \<Rightarrow> int" where
  "ulaw_to_s16 u_val =
     (let u_val = NOT u_val;
          t = push_bit 3 (uint (u_val AND 0x0f)) + 0x84;
          t = push_bit (nat (drop_bit 4 (uint (u_val AND 0x70)))) t
      in if u_val AND 0x80 \<noteq> 0 then 0x84 - t else t - 0x84)"

lemma code_cases: "P (a :: u8)" if "list_all P (map (\<lambda>k. word_of_nat k) [0..<256])"
proof -
  have "a = word_of_nat (unat a)" "unat a < 256" using unsigned_less [of a] by (simp_all add: unsigned_less [where w = a, simplified])
  then have "a \<in> set (map (\<lambda>k. word_of_nat k) [0..<256])" by (metis (no_types, lifting) atLeastLessThan_iff imageI le0 list.set_map set_upt)
  then show ?thesis using that by (simp only: list_all_iff)
qed

lemma alaw_code_round_trip: "s16_to_alaw (alaw_to_s16 a) = a"
  by (rule code_cases) code_simp

lemma ulaw_code_round_trip: "s16_to_ulaw (ulaw_to_s16 a) = (if a = 0x7f then 0xff else a)"
  by (rule code_cases) code_simp

lemma val_seg_table:
  "list_all (\<lambda>k. val_seg (128 * k) \<le> 7 \<and> 2 ^ val_seg (128 * k) \<le> k \<and> k < 2 ^ (val_seg (128 * k) + 1)) [1..255]"
  by code_simp

lemma val_seg_props:
  assumes "128 \<le> x" "x < 32768"
  shows "2 ^ (val_seg x + 7) \<le> x" "x < 2 ^ (val_seg x + 8)" "val_seg x \<le> 7"
proof -
  define v where "v = x div 128"
  have "val_seg (128 * k) \<le> 7 \<and> 2 ^ val_seg (128 * k) \<le> k \<and> k < 2 ^ (val_seg (128 * k) + 1)" if "k \<in> set [1..255]" for k
    using val_seg_table that by (simp only: list_all_iff)
  moreover have "v \<in> set [1..255]" using assms by (auto simp: v_def)
  moreover have "val_seg x = val_seg (128 * v)" by (simp add: val_seg_def v_def drop_bit_eq_div)
  ultimately have s: "val_seg x \<le> 7" "2 ^ val_seg x \<le> v" "v < 2 ^ (val_seg x + 1)" by metis+
  then show "val_seg x \<le> 7" by simp
  have "v * 128 \<le> x" "x < (v + 1) * 128" by (simp_all add: v_def)
  then show "2 ^ (val_seg x + 7) \<le> x" "x < 2 ^ (val_seg x + 8)"
    using s(2,3) by (simp_all add: power_add)
qed

lemma seg_split:
  fixes y s :: int
  assumes "16 \<le> y" "y < 32"
  shows "y mod 16 = y - 16" "(16 * s + (y - 16)) div 16 = s" "(16 * s + (y - 16)) mod 16 = y - 16"
proof -
  obtain z where z: "y = z + 16" "0 \<le> z" "z < 16" using assms that [of "y - 16"] by simp
  then show "y mod 16 = y - 16" "(16 * s + (y - 16)) div 16 = s" "(16 * s + (y - 16)) mod 16 = y - 16"
    by simp_all
qed

text \<open>A code without sign and inversion: the segment and the interval; and its value.\<close>

definition code_mag :: "int \<Rightarrow> int" where
  "code_mag x = push_bit 4 (int (val_seg x)) OR (drop_bit (val_seg x + 3) x AND 0x0f)"

lemma or_table: "list_all (\<lambda>s. list_all (\<lambda>m. push_bit 4 s OR m = 16 * s + m) [0..15]) [0..(7 :: int)]"
  by code_simp

lemma code_mag_eq:
  assumes "128 \<le> x" "x < 32768"
  shows "code_mag x = 16 * int (val_seg x) + (x div 2 ^ (val_seg x + 3) - 16)"
    and "16 \<le> x div 2 ^ (val_seg x + 3)" "x div 2 ^ (val_seg x + 3) < 32"
proof -
  note p = val_seg_props [OF assms]
  let ?k = "val_seg x + 3" and ?y = "x div 2 ^ (val_seg x + 3)"
  define d :: int where "d = 2 ^ ?k"
  have d: "0 < d" "16 * d \<le> x" "x < 32 * d" using p(1,2) by (simp_all add: d_def power_add)
  show y: "16 \<le> ?y" "?y < 32"
    unfolding d_def [symmetric]
  proof -
    show "16 \<le> x div d" using zdiv_mono1 [OF d(2,1)] d(1) by simp
    have "d * (x div d) < d * 32" using d mult_div_mod_eq [of d x] pos_mod_sign [OF d(1), of x] by linarith
    then show "x div d < 32" using d(1) by simp
  qed
  have "drop_bit ?k x AND 0x0f = take_bit 4 ?y"
    by (simp add: drop_bit_eq_div take_bit_eq_mask mask_eq_exp_minus_1)
  also have "\<dots> = ?y - 16" using seg_split(1) [OF y] by (simp add: take_bit_eq_mod)
  finally have m: "drop_bit ?k x AND 0x0f = ?y - 16" .
  have "int (val_seg x) \<in> set [0..7]" "?y - 16 \<in> set [0..15]" using p(3) y by auto
  then have "push_bit 4 (int (val_seg x)) OR (?y - 16) = 16 * int (val_seg x) + (?y - 16)"
    using or_table by (simp only: list_all_iff)
  then show "code_mag x = 16 * int (val_seg x) + (?y - 16)" by (simp add: code_mag_def m)
qed

text \<open>The middle of the interval is near.\<close>

lemma interval_error:
  assumes "128 \<le> x" "x < 32768"
  shows "32 * \<bar>2 ^ (val_seg x + 3) * (x div 2 ^ (val_seg x + 3)) + 2 ^ (val_seg x + 2) - x\<bar> \<le> x"
proof -
  note p = val_seg_props [OF assms]
  let ?d = "2 ^ (val_seg x + 3) :: int"
  have "x = ?d * (x div ?d) + x mod ?d" by simp
  moreover have "0 \<le> x mod ?d" "x mod ?d < ?d" by simp_all
  moreover have "?d = 2 * 2 ^ (val_seg x + 2)" "32 * 2 ^ (val_seg x + 2) = (2 :: int) ^ (val_seg x + 7)"
    by (simp_all add: power_add)
  ultimately have "\<bar>?d * (x div ?d) + 2 ^ (val_seg x + 2) - x\<bar> \<le> 2 ^ (val_seg x + 2)" by linarith
  moreover have "32 * 2 ^ (val_seg x + 2) \<le> x" using p(1) by (simp add: power_add)
  ultimately show ?thesis by (meson mult_left_mono order_trans zero_le_numeral)
qed

definition alaw_val :: "int \<Rightarrow> int" where
  "alaw_val c = (if c < 16 then 16 * c + 8 else (16 * (c mod 16) + 264) * 2 ^ (nat (c div 16) - 1))"

definition ulaw_val :: "int \<Rightarrow> int" where
  "ulaw_val c = (8 * (c mod 16) + 132) * 2 ^ nat (c div 16)"

lemma decode_table:
  "list_all (\<lambda>c. alaw_to_s16 (word_of_int c XOR 0xD5) = alaw_val c \<and> alaw_to_s16 (word_of_int c XOR 0x55) = - alaw_val c \<and>
     ulaw_to_s16 (word_of_int c XOR 0xFF) = ulaw_val c - 132 \<and> ulaw_to_s16 (word_of_int c XOR 0x7F) = 132 - ulaw_val c) [0..127]"
  by code_simp

lemma decode_mag:
  assumes "0 \<le> c" "c < 128"
  shows "alaw_to_s16 (word_of_int c XOR 0xD5) = alaw_val c" "alaw_to_s16 (word_of_int c XOR 0x55) = - alaw_val c"
    "ulaw_to_s16 (word_of_int c XOR 0xFF) = ulaw_val c - 132" "ulaw_to_s16 (word_of_int c XOR 0x7F) = 132 - ulaw_val c"
proof -
  have "c \<in> set [0..127]" using assms by auto
  then show "alaw_to_s16 (word_of_int c XOR 0xD5) = alaw_val c" "alaw_to_s16 (word_of_int c XOR 0x55) = - alaw_val c"
    "ulaw_to_s16 (word_of_int c XOR 0xFF) = ulaw_val c - 132" "ulaw_to_s16 (word_of_int c XOR 0x7F) = 132 - ulaw_val c"
    using decode_table by (simp_all only: list_all_iff)
qed

lemma mag_val:
  assumes "128 \<le> x" "x < 32768"
  shows "ulaw_val (code_mag x) = 2 ^ (val_seg x + 3) * (x div 2 ^ (val_seg x + 3)) + 2 ^ (val_seg x + 2)"
    and "256 \<le> x \<Longrightarrow> alaw_val (code_mag x) = 2 ^ (val_seg x + 3) * (x div 2 ^ (val_seg x + 3)) + 2 ^ (val_seg x + 2)"
    and "0 \<le> code_mag x" "code_mag x < 128"
proof -
  note c = code_mag_eq [OF assms] and p = val_seg_props [OF assms]
  let ?y = "x div 2 ^ (val_seg x + 3)"
  have d: "code_mag x div 16 = int (val_seg x)" "code_mag x mod 16 = ?y - 16"
    unfolding c(1) by (rule seg_split [OF c(2,3)])+
  show "0 \<le> code_mag x" "code_mag x < 128" using c p(3) by linarith+
  show "ulaw_val (code_mag x) = 2 ^ (val_seg x + 3) * ?y + 2 ^ (val_seg x + 2)"
    by (simp add: ulaw_val_def d power_add algebra_simps)
  assume "256 \<le> x"
  then have "0 < val_seg x" using p(2) by (cases "val_seg x") auto
  then obtain s where s: "val_seg x = Suc s" by (cases "val_seg x") auto
  then have "\<not> code_mag x < 16" using c(1,2) by simp
  then show "alaw_val (code_mag x) = 2 ^ (val_seg x + 3) * ?y + 2 ^ (val_seg x + 2)"
    unfolding alaw_val_def d by (simp add: s power_add algebra_simps nat_add_distrib)
qed

text \<open>What encoding and decoding makes of a sample.\<close>

lemma alaw_small:
  assumes "0 \<le> x" "x < 256"
  shows "0 \<le> drop_bit 4 x" "drop_bit 4 x < 128" "32 * \<bar>alaw_val (drop_bit 4 x) - x\<bar> \<le> 256"
proof -
  have d: "drop_bit 4 x = x div 16" by (simp add: drop_bit_eq_div)
  show "0 \<le> drop_bit 4 x" "drop_bit 4 x < 128" using assms by (simp_all add: d)
  have "x div 16 < 16" using assms by linarith
  then show "32 * \<bar>alaw_val (drop_bit 4 x) - x\<bar> \<le> 256"
    unfolding d alaw_val_def by (simp add: minus_mod_eq_mult_div [symmetric])
qed

lemma alaw_mag_error:
  assumes "0 \<le> x" "x < 32768"
  shows "\<exists>c. 0 \<le> c \<and> c < 128 \<and> (if x < 256 then drop_bit 4 x else code_mag x) = c \<and> 32 * \<bar>alaw_val c - x\<bar> \<le> max 256 x"
proof (cases "x < 256")
  case True
  then show ?thesis using alaw_small [OF assms(1) True] by simp
next
  case False
  then have x: "128 \<le> x" "256 \<le> x" by simp_all
  show ?thesis
    using mag_val(2) [OF x(1) assms(2) x(2)] mag_val(3,4) [OF x(1) assms(2)] interval_error [OF x(1) assms(2)] False by simp
qed

lemma alaw_error:
  assumes "-32768 \<le> x" "x \<le> 32767"
  shows "32 * \<bar>alaw_to_s16 (s16_to_alaw x) - x\<bar> \<le> max 256 \<bar>x\<bar>"
proof -
  define y where "y = (if x \<ge> 0 then x else if - x > 0x7fff then 0x7fff else - x)"
  have y: "0 \<le> y" "y < 32768" using assms by (auto simp: y_def)
  obtain c where c: "0 \<le> c" "c < 128" "(if y < 256 then drop_bit 4 y else code_mag y) = c" "32 * \<bar>alaw_val c - y\<bar> \<le> max 256 y"
    using alaw_mag_error [OF y] by blast
  have e: "s16_to_alaw x = word_of_int c XOR (if x \<ge> 0 then 0xD5 else 0x55)"
    using c(3) by (auto simp: s16_to_alaw_def Let_def y_def code_mag_def split: if_splits)
  then have v: "alaw_to_s16 (s16_to_alaw x) = (if x \<ge> 0 then alaw_val c else - alaw_val c)"
    using decode_mag(1,2) [OF c(1,2)] by simp
  consider "x \<ge> 0" "y = x" | "x < 0" "y = - x" | "x = -32768" "y = 32767"
    using assms by (cases "x \<ge> 0"; cases "x = -32768") (simp_all add: y_def)
  then show ?thesis
  proof cases
    case 3
    have "32 * \<bar>alaw_val c - 32767\<bar> \<le> 32767" using c(4) 3 by simp
    then have "32 * \<bar>alaw_val c - 32767\<bar> < 32 * 1024" by simp
    then have "\<bar>alaw_val c - 32767\<bar> < 1024" by (simp only: mult_less_cancel_left_pos zero_less_numeral)
    then show ?thesis unfolding v using 3 by simp
  qed (use c(4) in \<open>auto simp: v abs_minus_commute add.commute\<close>)
qed

lemma ulaw_error:
  assumes "-32768 \<le> x" "x \<le> 32767"
  shows "32 * \<bar>ulaw_to_s16 (s16_to_ulaw x) - x\<bar> \<le> \<bar>x\<bar> + 132"
proof -
  define y where "y = (if \<bar>x\<bar> + 132 > 0x7fff then 0x7fff else \<bar>x\<bar> + 132)"
  have y: "128 \<le> y" "y < 32768" by (auto simp: y_def)
  define c where "c = code_mag y"
  note m = mag_val [OF y, folded c_def] and er = interval_error [OF y]
  have e: "s16_to_ulaw x = word_of_int c XOR (if x < 0 then 0x7f else 0xff)"
    by (auto simp: s16_to_ulaw_def Let_def y_def c_def code_mag_def add.commute)
  then have v: "ulaw_to_s16 (s16_to_ulaw x) = (if x < 0 then 132 - ulaw_val c else ulaw_val c - 132)"
    using decode_mag(3,4) [OF m(3,4)] by simp
  have u: "32 * \<bar>ulaw_val c - y\<bar> \<le> y" using er m(1) by simp
  show ?thesis
  proof (cases "\<bar>x\<bar> + 132 > 0x7fff")
    case False
    then have "\<bar>ulaw_to_s16 (s16_to_ulaw x) - x\<bar> = \<bar>ulaw_val c - y\<bar>" by (simp add: v y_def) linarith
    then show ?thesis using u False by (simp add: y_def)
  next
    case True
    then have "y = 32767" by (simp add: y_def)
    then have "ulaw_val c = 32256" using m(1) by (simp add: c_def) code_simp
    then show ?thesis using True assms by (auto simp: v)
  qed
qed

text \<open>
  C30. Decoding and encoding again gives every A-law code and every u-law code back, except that the u-law
  code 0x7f of minus zero becomes that of zero. Encoding a 16 bit sample and decoding it changes it by
  at most a 32nd of its magnitude, or of 256 where it is less (A-law), and of its magnitude plus 132
  (u-law).
\<close>

theorem g711_round_trip:
  "s16_to_alaw (alaw_to_s16 a) = a \<and> s16_to_ulaw (ulaw_to_s16 a) = (if a = 0x7f then 0xff else a) \<and>
   (-32768 \<le> x \<and> x \<le> 32767 \<longrightarrow>
     32 * \<bar>alaw_to_s16 (s16_to_alaw x) - x\<bar> \<le> max 256 \<bar>x\<bar> \<and> 32 * \<bar>ulaw_to_s16 (s16_to_ulaw x) - x\<bar> \<le> \<bar>x\<bar> + 132)"
  using alaw_code_round_trip ulaw_code_round_trip alaw_error [of x] ulaw_error [of x] by simp

lemma g711_round_trip_witness:
  "32 * \<bar>alaw_to_s16 (s16_to_alaw 1000) - 1000\<bar> \<le> 1000 \<and> 32 * \<bar>ulaw_to_s16 (s16_to_ulaw (-1)) - (-1)\<bar> \<le> 133"
  using g711_round_trip [of 0 1000] g711_round_trip [of 0 "-1"] by simp

section \<open>The filters\<close>

text \<open>The private data of an encoder.\<close>

record g711_enc_data =
  ed_bz :: bufferizer
  ed_ptime :: int
  ed_ts :: u32

definition g711_enc_data_new :: g711_enc_data where
  "g711_enc_data_new = \<lparr>ed_bz = ms_bufferizer_init, ed_ptime = 0, ed_ts = 0\<rparr>"

fun pcm_samples :: "u8 list \<Rightarrow> int list" where
  "pcm_samples (a # b # bs) = sint (le16 [a, b]) # pcm_samples bs"
| "pcm_samples bs = []"

definition size_of_pcm :: "int \<Rightarrow> nat" where
  "size_of_pcm ptime =
     (let frame_per_packet = (if ptime \<ge> 10 then ptime div 10 else 2);
          frame_per_packet = (if frame_per_packet \<le> 0 then 1 else frame_per_packet);
          frame_per_packet = (if frame_per_packet > 14 then 14 else frame_per_packet)
      in nat (160 * frame_per_packet))"

text \<open>The packets made, each with its timestamp.\<close>

partial_function (option) g711_enc_loop ::
  "(int \<Rightarrow> u8) \<Rightarrow> nat \<Rightarrow> g711_enc_data \<Rightarrow> (u32 \<times> u8 list) list \<Rightarrow> ((u32 \<times> u8 list) list \<times> g711_enc_data) option" where
  "g711_enc_loop enc n dt out = do {
     (r, buffer, bz) \<leftarrow> ms_bufferizer_read (int n) (ed_bz dt);
     if r = int n then
       g711_enc_loop enc n (dt\<lparr>ed_bz := bz, ed_ts := ed_ts dt + of_nat (n div 2)\<rparr>)
         (out @ [(ed_ts dt, map enc (take (n div 2) (pcm_samples buffer)))])
     else Some (out, dt\<lparr>ed_bz := bz\<rparr>) }"

definition g711_enc_process ::
  "(int \<Rightarrow> u8) \<Rightarrow> msg list \<Rightarrow> g711_enc_data \<Rightarrow> ((u32 \<times> u8 list) list \<times> g711_enc_data) option" where
  "g711_enc_process enc inputs dt =
     (let n = size_of_pcm (ed_ptime dt); dt = dt\<lparr>ed_bz := fold ms_bufferizer_put inputs (ed_bz dt)\<rparr>
      in g711_enc_loop enc n dt [])"

definition alaw_enc_process :: "msg list \<Rightarrow> g711_enc_data \<Rightarrow> ((u32 \<times> u8 list) list \<times> g711_enc_data) option" where
  "alaw_enc_process = g711_enc_process s16_to_alaw"

definition ulaw_enc_process :: "msg list \<Rightarrow> g711_enc_data \<Rightarrow> ((u32 \<times> u8 list) list \<times> g711_enc_data) option" where
  "ulaw_enc_process = g711_enc_process s16_to_ulaw"

text \<open>The value of the parameter is cut to the 30 bytes of the code's buffer.\<close>

definition enc_add_fmtp :: "string \<Rightarrow> g711_enc_data \<Rightarrow> (int \<times> g711_enc_data) option" where
  "enc_add_fmtp fmtp s = do {
     (found, tmp) \<leftarrow> fmtp_get_value fmtp ''ptime'' 30;
     Some (0, if found then s\<lparr>ed_ptime := atoi tmp\<rparr> else s) }"

definition enc_add_attr :: "string \<Rightarrow> g711_enc_data \<Rightarrow> int \<times> g711_enc_data" where
  "enc_add_attr fmtp s =
     (0, case List.find (\<lambda>(p, v). strstr fmtp p \<noteq> None)
           [(''ptime:10'', 10), (''ptime:20'', 20), (''ptime:30'', 30), (''ptime:40'', 40), (''ptime:50'', 50),
            (''ptime:60'', 60), (''ptime:70'', 70), (''ptime:80'', 80), (''ptime:90'', 90), (''ptime:100'', 100),
            (''ptime:110'', 110), (''ptime:120'', 120), (''ptime:130'', 130), (''ptime:140'', 140)]
         of None \<Rightarrow> s | Some (p, v) \<Rightarrow> s\<lparr>ed_ptime := v\<rparr>)"

text \<open>The decoders keep the timestamp and the flags of a message.\<close>

definition g711_dec_process :: "(u8 \<Rightarrow> int) \<Rightarrow> ('meta \<times> msg) list \<Rightarrow> ('meta \<times> u8 list) list" where
  "g711_dec_process dec inputs =
     map (\<lambda>(meta, m). (meta, concat (map (\<lambda>b. le16_bytes (word_of_int (dec b))) (msg_bytes m)))) inputs"

definition alaw_dec_process :: "('meta \<times> msg) list \<Rightarrow> ('meta \<times> u8 list) list" where
  "alaw_dec_process = g711_dec_process alaw_to_s16"

definition ulaw_dec_process :: "('meta \<times> msg) list \<Rightarrow> ('meta \<times> u8 list) list" where
  "ulaw_dec_process = g711_dec_process ulaw_to_s16"

section \<open>The encoders on a stream\<close>

text \<open>
  How a stream of bytes is cut into frames of \<open>n\<close> bytes: the frames with their timestamps, the
  next timestamp and the bytes left over.
\<close>

function frames :: "nat \<Rightarrow> u32 \<Rightarrow> u8 list \<Rightarrow> (u32 \<times> u8 list) list \<times> u32 \<times> u8 list" where
  "frames n ts bs = (if n = 0 \<or> length bs < n then ([], ts, bs)
     else let (fs, ts', rest) = frames n (ts + of_nat (n div 2)) (drop n bs) in ((ts, take n bs) # fs, ts', rest))"
  by pat_completeness auto
termination by (relation "measure (\<lambda>(n, ts, bs). length bs)") auto

declare frames.simps [simp del]

lemma frames_append:
  "frames n ts (bs @ cs) = (let (fs, ts1, rest) = frames n ts bs; (gs, ts2, rest') = frames n ts1 (rest @ cs)
     in (fs @ gs, ts2, rest'))"
proof (induction n ts bs rule: frames.induct)
  case (1 n ts bs)
  show ?case
  proof (cases "n = 0 \<or> length bs < n")
    case True
    then show ?thesis by (simp add: frames.simps [of n ts bs])
  next
    case False
    then show ?thesis
      using 1 by (simp add: frames.simps [of n ts bs] frames.simps [of n ts "bs @ cs"] split: prod.splits)
  qed
qed

lemma frames_explicit:
  assumes "0 < n"
  shows "frames n ts bs = (map (\<lambda>k. (ts + of_nat (k * (n div 2)), sub (k * n) n bs)) [0..<length bs div n],
     ts + of_nat (length bs div n * (n div 2)), drop (length bs div n * n) bs)"
  using assms
proof (induction n ts bs rule: frames.induct)
  case (1 n ts bs)
  show ?case
  proof (cases "length bs < n")
    case True
    then show ?thesis by (simp add: frames.simps [of n ts bs])
  next
    case False
    define q where "q = length (drop n bs) div n"
    have q: "length bs div n = Suc q" using False 1(2) by (simp add: q_def le_div_geq)
    have "frames n (ts + of_nat (n div 2)) (drop n bs) =
      (map (\<lambda>k. (ts + of_nat (n div 2) + of_nat (k * (n div 2)), sub (k * n) n (drop n bs))) [0..<q],
       ts + of_nat (n div 2) + of_nat (q * (n div 2)), drop (q * n) (drop n bs))"
      using 1 False by (simp add: q_def)
    moreover have "[0..<Suc q] = 0 # map Suc [0..<q]" by (simp add: map_Suc_upt upt_conv_Cons)
    ultimately show ?thesis
      unfolding q using False 1(2)
      by (simp add: frames.simps [of n ts bs] sub_def algebra_simps del: upt_Suc)
  qed
qed

lemma frames_rest:
  assumes "0 < n" and "frames n ts bs = (fs, ts', rest)"
  shows "length rest < n"
  using frames_explicit [OF assms(1), of ts bs] assms by (simp add: minus_div_mult_eq_mod)

definition encode_frame :: "(int \<Rightarrow> u8) \<Rightarrow> u32 \<times> u8 list \<Rightarrow> u32 \<times> u8 list" where
  "encode_frame enc f = (fst f, map enc (pcm_samples (snd f)))"

lemma length_pcm_samples: "length (pcm_samples bs) = length bs div 2"
  by (induction bs rule: pcm_samples.induct) auto

lemma enc_loop_frames:
  assumes "0 < n" and "bz_rep (ed_bz dt) bs" and "frames n (ed_ts dt) bs = (fs, ts', rest)"
  shows "\<exists>bz. g711_enc_loop enc n dt out = Some (out @ map (encode_frame enc) fs, dt\<lparr>ed_bz := bz, ed_ts := ts'\<rparr>) \<and> bz_rep bz rest"
  using assms
proof (induction "length bs" arbitrary: dt bs fs out rule: less_induct)
  case less
  obtain bz where bz: "ms_bufferizer_read (int n) (ed_bz dt) = Some (if n \<le> length bs then (int n, take n bs, bz) else (0, [], bz))"
    "bz_rep bz (if n \<le> length bs then drop n bs else bs)"
    using bz_read_rep [OF less.prems(2)] by blast
  show ?case
  proof (cases "n \<le> length bs")
    case False
    then show ?thesis
      using bz less.prems(1,3) by (auto simp: g711_enc_loop.simps [of enc n dt out] frames.simps [of n "ed_ts dt" bs])
  next
    case True
    define dt1 where "dt1 = dt\<lparr>ed_bz := bz, ed_ts := ed_ts dt + of_nat (n div 2)\<rparr>"
    obtain gs where gs: "frames n (ed_ts dt1) (drop n bs) = (gs, ts', rest)" "fs = (ed_ts dt, take n bs) # gs"
      using less.prems True by (auto simp: frames.simps [of n "ed_ts dt" bs] dt1_def split: prod.splits)
    have t: "take (n div 2) (pcm_samples (take n bs)) = pcm_samples (take n bs)"
      using True by (simp add: length_pcm_samples)
    have "\<exists>bz. g711_enc_loop enc n dt1 (out @ [encode_frame enc (ed_ts dt, take n bs)]) =
        Some ((out @ [encode_frame enc (ed_ts dt, take n bs)]) @ map (encode_frame enc) gs, dt1\<lparr>ed_bz := bz, ed_ts := ts'\<rparr>) \<and>
      bz_rep bz rest"
      using less.hyps [of "drop n bs" dt1 gs "out @ [encode_frame enc (ed_ts dt, take n bs)]"] less.prems(1) True bz(2) gs(1)
      by (simp add: dt1_def)
    then show ?thesis
      using bz(1) True gs(2) t by (auto simp: g711_enc_loop.simps [of enc n dt out] dt1_def encode_frame_def)
  qed
qed

lemma size_of_pcm_bounds: "160 \<le> size_of_pcm p" "size_of_pcm p \<le> 2240" "even (size_of_pcm p)"
proof -
  define k where "k = max 1 (min 14 (if p \<ge> 10 then p div 10 else 2))"
  have "size_of_pcm p = nat (160 * k)" by (auto simp: size_of_pcm_def Let_def k_def)
  moreover have "1 \<le> k" "k \<le> 14" by (simp_all add: k_def)
  ultimately show "160 \<le> size_of_pcm p" "size_of_pcm p \<le> 2240" "even (size_of_pcm p)"
    by (auto simp: nat_mult_distrib even_nat_iff)
qed

text \<open>The calls of an encoder, with the messages that wait at its input at each.\<close>

fun enc_calls :: "(int \<Rightarrow> u8) \<Rightarrow> msg list list \<Rightarrow> g711_enc_data \<Rightarrow> ((u32 \<times> u8 list) list \<times> g711_enc_data) option" where
  "enc_calls enc [] dt = Some ([], dt)"
| "enc_calls enc (inputs # calls) dt = do {
     (out, dt) \<leftarrow> g711_enc_process enc inputs dt;
     (out', dt) \<leftarrow> enc_calls enc calls dt;
     Some (out @ out', dt) }"

lemma puts_rep:
  "bz_rep bz bs \<Longrightarrow> \<forall>m \<in> set inputs. m \<noteq> [] \<Longrightarrow> bz_rep (fold ms_bufferizer_put inputs bz) (bs @ bz_bytes inputs)"
proof (induction inputs arbitrary: bz bs)
  case (Cons m inputs)
  then show ?case using Cons.IH [OF bz_put_rep [OF Cons.prems(1)], of m] by simp
qed simp

lemma enc_calls_frames:
  assumes "bz_rep (ed_bz dt) bs" and "\<forall>inputs \<in> set calls. \<forall>m \<in> set inputs. m \<noteq> []"
    and "frames (size_of_pcm (ed_ptime dt)) (ed_ts dt) (bs @ bz_bytes (concat calls)) = (fs, ts', rest)"
    and "frames (size_of_pcm (ed_ptime dt)) (ed_ts dt) bs = ([], ed_ts dt, bs)"
  shows "\<exists>bz. enc_calls enc calls dt = Some (map (encode_frame enc) fs, dt\<lparr>ed_bz := bz, ed_ts := ts'\<rparr>) \<and> bz_rep bz rest"
  using assms
proof (induction calls arbitrary: dt bs fs)
  case Nil
  then show ?case by (intro exI [of _ "ed_bz dt"]) simp
next
  case (Cons inputs calls)
  let ?n = "size_of_pcm (ed_ptime dt)"
  have n: "0 < ?n" using size_of_pcm_bounds(1) [of "ed_ptime dt"] by simp
  obtain fs1 ts1 r1 where f1: "frames ?n (ed_ts dt) (bs @ bz_bytes inputs) = (fs1, ts1, r1)" by (cases "frames ?n (ed_ts dt) (bs @ bz_bytes inputs)")
  obtain fs2 ts2 r2 where f2: "frames ?n ts1 (r1 @ bz_bytes (concat calls)) = (fs2, ts2, r2)"
    by (cases "frames ?n ts1 (r1 @ bz_bytes (concat calls))")
  have all: "fs = fs1 @ fs2" "ts' = ts2" "rest = r2"
    using Cons.prems(3) frames_append [of ?n "ed_ts dt" "bs @ bz_bytes inputs" "bz_bytes (concat calls)"] f1 f2 by simp_all
  define dt0 where "dt0 = dt\<lparr>ed_bz := fold ms_bufferizer_put inputs (ed_bz dt)\<rparr>"
  have "bz_rep (ed_bz dt0) (bs @ bz_bytes inputs)" using puts_rep [OF Cons.prems(1)] Cons.prems(2) by (simp add: dt0_def)
  then obtain bz1 where p: "g711_enc_loop enc ?n dt0 [] = Some (map (encode_frame enc) fs1, dt0\<lparr>ed_bz := bz1, ed_ts := ts1\<rparr>)"
    "bz_rep bz1 r1"
    using enc_loop_frames [OF n, of dt0 "bs @ bz_bytes inputs" fs1 ts1 r1 enc "[]"] f1 by (auto simp: dt0_def)
  define dt1 where "dt1 = dt0\<lparr>ed_bz := bz1, ed_ts := ts1\<rparr>"
  have "frames ?n ts1 r1 = ([], ts1, r1)"
    using frames_rest [OF n f1] by (simp add: frames.simps [of ?n ts1 r1])
  then obtain bz where "enc_calls enc calls dt1 = Some (map (encode_frame enc) fs2, dt1\<lparr>ed_bz := bz, ed_ts := ts2\<rparr>)" "bz_rep bz r2"
    using Cons.IH [of dt1 r1 fs2] p(2) Cons.prems(2) f2 all(2,3) by (auto simp: dt1_def dt0_def)
  then show ?case
    using p(1) all by (auto simp: g711_enc_process_def Let_def dt0_def dt1_def)
qed



text \<open>An attribute of 100 milliseconds or more is taken for one of 10.\<close>

lemma ptime_100_taken_for_10: "enc_add_attr ''ptime:100'' s = (0, s\<lparr>ed_ptime := 10\<rparr>)"
  by (simp add: enc_add_attr_def)

end
