(* ===== verification/Stun_Message.thy ===== *)
theory Stun_Message
  imports Stun_Crc Rtp_Packet
begin

text \<open>
  STUN messages, \<^verbatim>\<open>oRTP/src/stun.c\<close>: the parser and the encoder with their
  attributes. An attribute that is absent (\<^verbatim>\<open>has...\<close> is FALSE, the structure zero) is
  \<open>None\<close>; a string is the list of its \<^verbatim>\<open>sizeValue\<close> bytes. The message is the
  list of its bytes, a read or write outside the buffer is \<open>None\<close>, a parse that fails the
  value \<open>False\<close>. The keyed hash of OpenSSL is a parameter.
\<close>

section \<open>Attributes and messages\<close>

definition STUN_MAX_STRING :: nat where "STUN_MAX_STRING = 514"

record stun_address4 =
  sa_port :: u16
  sa_addr :: u32

record stun_atr_address4 =
  aa_pad :: u8
  aa_family :: u8
  aa_ipv4 :: stun_address4

record stun_atr_error =
  ae_pad :: u16
  ae_class :: u8
  ae_number :: u8
  ae_reason :: "u8 list"

record turn_atr_channel =
  ac_number :: u16
  ac_rffu :: u16

record turn_atr_transport =
  at_proto :: u8
  at_pad1 :: u8
  at_pad2 :: u8
  at_pad3 :: u8

record stun_msg_hdr =
  sh_type :: u16
  sh_length :: u16
  sh_cookie :: u32
  sh_tr_id :: "u8 list"

record stun_message =
  msg_hdr :: stun_msg_hdr
  mapped_address :: "stun_atr_address4 option"
  response_address :: "stun_atr_address4 option"
  change_request :: "u32 option"
  source_address :: "stun_atr_address4 option"
  changed_address :: "stun_atr_address4 option"
  username :: "u8 list option"
  password :: "u8 list option"
  message_integrity :: "u8 list option"
  error_code :: "stun_atr_error option"
  unknown_attributes :: "u16 list option"
  reflected_from :: "stun_atr_address4 option"
  realm_name :: "u8 list option"
  nonce_name :: "u8 list option"
  xor_mapped_address :: "stun_atr_address4 option"
  software_name :: "u8 list option"
  xor_peer_address :: "stun_atr_address4 option"
  xor_relayed_address :: "stun_atr_address4 option"
  fingerprint :: "u32 option"
  channel_number :: "turn_atr_channel option"
  turn_lifetime :: "u32 option"
  turn_data :: "u8 list option"
  requested_transport :: "turn_atr_transport option"
  dont_fragment :: bool
  reservation_token :: "u64 option"
  ice_priority :: "u32 option"
  use_candidate :: bool
  ice_controlled :: "u64 option"
  ice_controlling :: "u64 option"

definition IPv4Family :: u8 where "IPv4Family = 1"

definition SA_MAPPEDADDRESS :: u16 where "SA_MAPPEDADDRESS = 0x0001"
definition SA_RESPONSEADDRESS :: u16 where "SA_RESPONSEADDRESS = 0x0002"
definition SA_CHANGEREQUEST :: u16 where "SA_CHANGEREQUEST = 0x0003"
definition SA_SOURCEADDRESS :: u16 where "SA_SOURCEADDRESS = 0x0004"
definition SA_CHANGEDADDRESS :: u16 where "SA_CHANGEDADDRESS = 0x0005"
definition SA_USERNAME :: u16 where "SA_USERNAME = 0x0006"
definition SA_PASSWORD :: u16 where "SA_PASSWORD = 0x0007"
definition SA_MESSAGEINTEGRITY :: u16 where "SA_MESSAGEINTEGRITY = 0x0008"
definition SA_ERRORCODE :: u16 where "SA_ERRORCODE = 0x0009"
definition SA_UNKNOWNATTRIBUTE :: u16 where "SA_UNKNOWNATTRIBUTE = 0x000A"
definition SA_REFLECTEDFROM :: u16 where "SA_REFLECTEDFROM = 0x000B"
definition SA_REALM :: u16 where "SA_REALM = 0x0014"
definition SA_NONCE :: u16 where "SA_NONCE = 0x0015"
definition SA_XORMAPPEDADDRESS :: u16 where "SA_XORMAPPEDADDRESS = 0x0020"
definition SA_XORMAPPEDADDRESS2 :: u16 where "SA_XORMAPPEDADDRESS2 = 0x8020"
definition SA_XORONLY :: u16 where "SA_XORONLY = 0x0021"
definition SA_SECONDARYADDRESS :: u16 where "SA_SECONDARYADDRESS = 0x0050"
definition SA_SOFTWARE :: u16 where "SA_SOFTWARE = 0x8022"
definition SA_FINGERPRINT :: u16 where "SA_FINGERPRINT = 0x8028"
definition TA_CHANNELNUMBER :: u16 where "TA_CHANNELNUMBER = 0x000C"
definition TA_LIFETIME :: u16 where "TA_LIFETIME = 0x000D"
definition TA_DEPRECATEDBANDWIDTH :: u16 where "TA_DEPRECATEDBANDWIDTH = 0x0010"
definition TA_XORPEERADDRESS :: u16 where "TA_XORPEERADDRESS = 0x0012"
definition TA_DATA :: u16 where "TA_DATA = 0x0013"
definition TA_XORRELAYEDADDRESS :: u16 where "TA_XORRELAYEDADDRESS = 0x0016"
definition TA_EVENPORT :: u16 where "TA_EVENPORT = 0x0018"
definition TA_REQUESTEDTRANSPORT :: u16 where "TA_REQUESTEDTRANSPORT = 0x0019"
definition TA_DONTFRAGMENT :: u16 where "TA_DONTFRAGMENT = 0x001A"
definition TA_DEPRECATEDTIMERVAL :: u16 where "TA_DEPRECATEDTIMERVAL = 0x0021"
definition TA_RESERVATIONTOKEN :: u16 where "TA_RESERVATIONTOKEN = 0x0022"
definition ICEA_PRIORITY :: u16 where "ICEA_PRIORITY = 0x0024"
definition ICEA_USECANDIDATE :: u16 where "ICEA_USECANDIDATE = 0x0025"
definition ICEA_ICECONTROLLED :: u16 where "ICEA_ICECONTROLLED = 0x8029"
definition ICEA_ICECONTROLLING :: u16 where "ICEA_ICECONTROLLING = 0x802a"

lemmas stun_types = SA_MAPPEDADDRESS_def SA_RESPONSEADDRESS_def SA_CHANGEREQUEST_def SA_SOURCEADDRESS_def
  SA_CHANGEDADDRESS_def SA_USERNAME_def SA_PASSWORD_def SA_MESSAGEINTEGRITY_def SA_ERRORCODE_def
  SA_UNKNOWNATTRIBUTE_def SA_REFLECTEDFROM_def SA_REALM_def SA_NONCE_def SA_XORMAPPEDADDRESS_def
  SA_XORMAPPEDADDRESS2_def SA_XORONLY_def SA_SECONDARYADDRESS_def SA_SOFTWARE_def SA_FINGERPRINT_def
  TA_CHANNELNUMBER_def TA_LIFETIME_def TA_DEPRECATEDBANDWIDTH_def TA_XORPEERADDRESS_def TA_DATA_def
  TA_XORRELAYEDADDRESS_def TA_EVENPORT_def TA_REQUESTEDTRANSPORT_def TA_DONTFRAGMENT_def
  TA_DEPRECATEDTIMERVAL_def TA_RESERVATIONTOKEN_def ICEA_PRIORITY_def ICEA_USECANDIDATE_def
  ICEA_ICECONTROLLED_def ICEA_ICECONTROLLING_def

text \<open>A message after \<^verbatim>\<open>memset\<close>.\<close>

definition hdr_zero :: stun_msg_hdr where
  "hdr_zero = \<lparr>sh_type = 0, sh_length = 0, sh_cookie = 0, sh_tr_id = replicate 12 0\<rparr>"

definition stun_zero :: stun_message where
  "stun_zero = \<lparr>msg_hdr = hdr_zero, mapped_address = None, response_address = None, change_request = None,
     source_address = None, changed_address = None, username = None, password = None, message_integrity = None,
     error_code = None, unknown_attributes = None, reflected_from = None, realm_name = None, nonce_name = None,
     xor_mapped_address = None, software_name = None, xor_peer_address = None, xor_relayed_address = None,
     fingerprint = None, channel_number = None, turn_lifetime = None, turn_data = None, requested_transport = None,
     dont_fragment = False, reservation_token = None, ice_priority = None, use_candidate = False,
     ice_controlled = None, ice_controlling = None\<rparr>"

section \<open>Parsing\<close>

definition buf_rd :: "nat \<Rightarrow> nat \<Rightarrow> u8 list \<Rightarrow> u8 list option" where
  "buf_rd p n buf = (if p + n \<le> length buf then Some (sub p n buf) else None)"

text \<open>The parsers of an attribute whose value of \<open>len\<close> bytes starts at \<open>p\<close>.\<close>

definition stunParseAtrAddress :: "nat \<Rightarrow> nat \<Rightarrow> u8 list \<Rightarrow> stun_atr_address4 option option" where
  "stunParseAtrAddress p len buf =
     (if len \<noteq> 8 then Some None
      else do {
        h \<leftarrow> buf_rd p 2 buf;
        if h ! 1 = IPv4Family then do {
          port \<leftarrow> buf_rd (p + 2) 2 buf;
          addr \<leftarrow> buf_rd (p + 4) 4 buf;
          Some (Some \<lparr>aa_pad = h ! 0, aa_family = h ! 1, aa_ipv4 = \<lparr>sa_port = be16 port, sa_addr = be32 addr\<rparr>\<rparr>) }
        else Some None })"

definition stun_parse32 :: "nat \<Rightarrow> nat \<Rightarrow> u8 list \<Rightarrow> u32 option option" where
  "stun_parse32 p len buf = (if len \<noteq> 4 then Some None else do { v \<leftarrow> buf_rd p 4 buf; Some (Some (be32 v)) })"

definition stunParseAtrChangeRequest :: "nat \<Rightarrow> nat \<Rightarrow> u8 list \<Rightarrow> u32 option option" where
  "stunParseAtrChangeRequest = stun_parse32"

definition stunParseAtrError :: "nat \<Rightarrow> nat \<Rightarrow> u8 list \<Rightarrow> stun_atr_error option option" where
  "stunParseAtrError p len buf =
     (if len < 4 \<or> len \<ge> 128 + 4 then Some None
      else do {
        h \<leftarrow> buf_rd p 4 buf;
        reason \<leftarrow> buf_rd (p + 4) (len - 4) buf;
        Some (Some \<lparr>ae_pad = be16 (take 2 h), ae_class = h ! 2, ae_number = h ! 3, ae_reason = reason\<rparr>) })"

text \<open>
  Half as many types as the length tells are read. The size of the structure is 18.
\<close>

definition stunParseAtrUnknown :: "nat \<Rightarrow> nat \<Rightarrow> u8 list \<Rightarrow> u16 list option option" where
  "stunParseAtrUnknown p len buf =
     (if len \<ge> 18 then Some None
      else if len mod 4 \<noteq> 0 then Some None
      else do {
        v \<leftarrow> buf_rd p (2 * (len div 4)) buf;
        Some (Some (map (\<lambda>i. be16 (sub (2 * i) 2 v)) [0..<len div 4])) })"

definition stunParseAtrString :: "nat \<Rightarrow> nat \<Rightarrow> u8 list \<Rightarrow> u8 list option option" where
  "stunParseAtrString p len buf =
     (if len \<ge> STUN_MAX_STRING then Some None else do { v \<leftarrow> buf_rd p len buf; Some (Some v) })"

definition stunParseAtrIntegrity :: "nat \<Rightarrow> nat \<Rightarrow> u8 list \<Rightarrow> u8 list option option" where
  "stunParseAtrIntegrity p len buf = (if len \<noteq> 20 then Some None else do { v \<leftarrow> buf_rd p len buf; Some (Some v) })"

text \<open>Four bytes are read of an attribute that has fewer than four.\<close>

definition turnParseAtrChannelNumber :: "nat \<Rightarrow> nat \<Rightarrow> u8 list \<Rightarrow> turn_atr_channel option option" where
  "turnParseAtrChannelNumber p len buf =
     (if len \<ge> 4 then Some None
      else if len mod 4 \<noteq> 0 then Some None
      else do {
        v \<leftarrow> buf_rd p 4 buf;
        Some (Some \<lparr>ac_number = be16 (take 2 v), ac_rffu = be16 (drop 2 v)\<rparr>) })"

definition turnParseAtrLifetime :: "nat \<Rightarrow> nat \<Rightarrow> u8 list \<Rightarrow> u32 option option" where
  "turnParseAtrLifetime = stun_parse32"

definition turnParseAtrData :: "nat \<Rightarrow> nat \<Rightarrow> u8 list \<Rightarrow> u8 list option option" where
  "turnParseAtrData p len buf = (if len \<ge> 1500 then Some None else do { v \<leftarrow> buf_rd p len buf; Some (Some v) })"

definition turnParseAtrRequestedTransport :: "nat \<Rightarrow> nat \<Rightarrow> u8 list \<Rightarrow> turn_atr_transport option option" where
  "turnParseAtrRequestedTransport p len buf =
     (if len \<noteq> 4 then Some None
      else do {
        v \<leftarrow> buf_rd p 4 buf;
        Some (Some \<lparr>at_proto = v ! 0, at_pad1 = v ! 1, at_pad2 = v ! 2, at_pad3 = v ! 3\<rparr>) })"

definition htonq :: "u64 \<Rightarrow> u8 list" where
  "htonq v = be32_bytes (ucast (drop_bit 32 v)) @ be32_bytes (ucast v)"

definition ntohq :: "u8 list \<Rightarrow> u64" where
  "ntohq bs = push_bit 32 (ucast (be32 (take 4 bs))) OR ucast (be32 (drop 4 bs))"

definition stun_parse64 :: "nat \<Rightarrow> nat \<Rightarrow> u8 list \<Rightarrow> u64 option option" where
  "stun_parse64 p len buf = (if len \<noteq> 8 then Some None else do { v \<leftarrow> buf_rd p 8 buf; Some (Some (ntohq v)) })"

definition turnParseAtrReservationToken :: "nat \<Rightarrow> nat \<Rightarrow> u8 list \<Rightarrow> u64 option option" where
  "turnParseAtrReservationToken = stun_parse64"

definition stunParseAtrFingerprint :: "nat \<Rightarrow> nat \<Rightarrow> u8 list \<Rightarrow> u32 option option" where
  "stunParseAtrFingerprint = stun_parse32"

definition iceParseAtrPriority :: "nat \<Rightarrow> nat \<Rightarrow> u8 list \<Rightarrow> u32 option option" where
  "iceParseAtrPriority = stun_parse32"

definition iceParseAtrIceControll :: "nat \<Rightarrow> nat \<Rightarrow> u8 list \<Rightarrow> u64 option option" where
  "iceParseAtrIceControll = stun_parse64"

text \<open>The address of a mapped address that is sent exclusive-or the cookie.\<close>

definition STUN_COOKIE :: u32 where "STUN_COOKIE = 0x2112A442"

definition xor_address :: "stun_atr_address4 \<Rightarrow> stun_atr_address4" where
  "xor_address a = a\<lparr>aa_ipv4 := \<lparr>sa_port = sa_port (aa_ipv4 a) XOR ucast (drop_bit 16 STUN_COOKIE),
     sa_addr = sa_addr (aa_ipv4 a) XOR STUN_COOKIE\<rparr>\<rparr>"

definition stun_store ::
  "'a option option \<Rightarrow> ('a \<Rightarrow> stun_message \<Rightarrow> stun_message) \<Rightarrow> stun_message \<Rightarrow> stun_message option option" where
  "stun_store r upd m = do { v \<leftarrow> r; case v of None \<Rightarrow> Some None | Some v \<Rightarrow> Some (Some (upd v m)) }"

text \<open>One attribute; types above 0x7FFF that are not known are skipped.\<close>

definition stun_parse_attr :: "u16 \<Rightarrow> nat \<Rightarrow> nat \<Rightarrow> u8 list \<Rightarrow> stun_message \<Rightarrow> stun_message option option" where
  "stun_parse_attr ty len p buf m =
    (if ty = SA_MAPPEDADDRESS then
       stun_store (stunParseAtrAddress p len buf) (\<lambda>v m. m\<lparr>mapped_address := Some v\<rparr>) m
     else if ty = SA_RESPONSEADDRESS then
       stun_store (stunParseAtrAddress p len buf) (\<lambda>v m. m\<lparr>response_address := Some v\<rparr>) m
     else if ty = SA_CHANGEREQUEST then
       stun_store (stunParseAtrChangeRequest p len buf) (\<lambda>v m. m\<lparr>change_request := Some v\<rparr>) m
     else if ty = SA_SOURCEADDRESS then
       stun_store (stunParseAtrAddress p len buf) (\<lambda>v m. m\<lparr>source_address := Some v\<rparr>) m
     else if ty = SA_CHANGEDADDRESS then
       stun_store (stunParseAtrAddress p len buf) (\<lambda>v m. m\<lparr>changed_address := Some v\<rparr>) m
     else if ty = SA_USERNAME then
       stun_store (stunParseAtrString p len buf) (\<lambda>v m. m\<lparr>username := Some v\<rparr>) m
     else if ty = SA_PASSWORD then
       stun_store (stunParseAtrString p len buf) (\<lambda>v m. m\<lparr>password := Some v\<rparr>) m
     else if ty = SA_MESSAGEINTEGRITY then
       stun_store (stunParseAtrIntegrity p len buf) (\<lambda>v m. m\<lparr>message_integrity := Some v\<rparr>) m
     else if ty = SA_ERRORCODE then
       stun_store (stunParseAtrError p len buf) (\<lambda>v m. m\<lparr>error_code := Some v\<rparr>) m
     else if ty = SA_UNKNOWNATTRIBUTE then
       stun_store (stunParseAtrUnknown p len buf) (\<lambda>v m. m\<lparr>unknown_attributes := Some v\<rparr>) m
     else if ty = SA_REFLECTEDFROM then
       stun_store (stunParseAtrAddress p len buf) (\<lambda>v m. m\<lparr>reflected_from := Some v\<rparr>) m
     else if ty = SA_REALM then
       stun_store (stunParseAtrString p len buf) (\<lambda>v m. m\<lparr>realm_name := Some v\<rparr>) m
     else if ty = SA_NONCE then
       stun_store (stunParseAtrString p len buf) (\<lambda>v m. m\<lparr>nonce_name := Some v\<rparr>) m
     else if ty = SA_XORMAPPEDADDRESS \<or> ty = SA_XORMAPPEDADDRESS2 then
       stun_store (stunParseAtrAddress p len buf) (\<lambda>v m. m\<lparr>xor_mapped_address := Some (xor_address v)\<rparr>) m
     else if ty = SA_XORONLY then Some (Some m)
     else if ty = SA_SECONDARYADDRESS then Some (Some m)
     else if ty = SA_SOFTWARE then
       stun_store (stunParseAtrString p len buf) (\<lambda>v m. m\<lparr>software_name := Some v\<rparr>) m
     else if ty = TA_CHANNELNUMBER then
       stun_store (turnParseAtrChannelNumber p len buf) (\<lambda>v m. m\<lparr>channel_number := Some v\<rparr>) m
     else if ty = TA_LIFETIME then
       stun_store (turnParseAtrLifetime p len buf) (\<lambda>v m. m\<lparr>turn_lifetime := Some v\<rparr>) m
     else if ty = TA_DEPRECATEDBANDWIDTH then Some (Some m)
     else if ty = TA_XORPEERADDRESS then
       stun_store (stunParseAtrAddress p len buf) (\<lambda>v m. m\<lparr>xor_peer_address := Some v\<rparr>) m
     else if ty = TA_DATA then
       stun_store (turnParseAtrData p len buf) (\<lambda>v m. m\<lparr>turn_data := Some v\<rparr>) m
     else if ty = TA_XORRELAYEDADDRESS then
       stun_store (stunParseAtrAddress p len buf) (\<lambda>v m. m\<lparr>xor_relayed_address := Some v\<rparr>) m
     else if ty = TA_EVENPORT then Some (Some m)
     else if ty = TA_REQUESTEDTRANSPORT then
       stun_store (turnParseAtrRequestedTransport p len buf) (\<lambda>v m. m\<lparr>requested_transport := Some v\<rparr>) m
     else if ty = TA_DONTFRAGMENT then Some (Some (m\<lparr>dont_fragment := True\<rparr>))
     else if ty = TA_DEPRECATEDTIMERVAL then Some (Some m)
     else if ty = TA_RESERVATIONTOKEN then
       stun_store (turnParseAtrReservationToken p len buf) (\<lambda>v m. m\<lparr>reservation_token := Some v\<rparr>) m
     else if ty = SA_FINGERPRINT then
       stun_store (stunParseAtrFingerprint p len buf) (\<lambda>v m. m\<lparr>fingerprint := Some v\<rparr>) m
     else if ty = ICEA_PRIORITY then
       stun_store (iceParseAtrPriority p len buf) (\<lambda>v m. m\<lparr>ice_priority := Some v\<rparr>) m
     else if ty = ICEA_USECANDIDATE then Some (Some (m\<lparr>use_candidate := True\<rparr>))
     else if ty = ICEA_ICECONTROLLED then
       stun_store (iceParseAtrIceControll p len buf) (\<lambda>v m. m\<lparr>ice_controlled := Some v\<rparr>) m
     else if ty = ICEA_ICECONTROLLING then
       stun_store (iceParseAtrIceControll p len buf) (\<lambda>v m. m\<lparr>ice_controlling := Some v\<rparr>) m
     else if ty \<le> 0x7FFF then Some None
     else Some (Some m))"

text \<open>
  The loop over the attributes: the position in the buffer and the bytes that remain, an unsigned
  number that wraps when the padding of the last attribute is missing. The result is whether the parse
  succeeded, and the message as far as it was read: after a failure without the attribute that failed (where
  the code has set its \<^verbatim>\<open>has...\<close> flag and left its value).
\<close>

partial_function (option) stun_parse_loop :: "nat \<Rightarrow> u32 \<Rightarrow> u8 list \<Rightarrow> stun_message \<Rightarrow> (bool \<times> stun_message) option" where
  "stun_parse_loop p n buf m =
     (if n = 0 then Some (True, m)
      else do {
        h \<leftarrow> buf_rd p 4 buf;
        let attrLen = unat (be16 (drop 2 h));
        let atrType = be16 (take 2 h);
        if attrLen + 4 > unat n then Some (False, m)
        else do {
          r \<leftarrow> stun_parse_attr atrType attrLen (p + 4) buf m;
          case r of None \<Rightarrow> Some (False, m)
          | Some m \<Rightarrow>
              let attrLen = (if attrLen mod 4 > 0 then attrLen + (4 - attrLen mod 4) else attrLen)
              in stun_parse_loop (p + 4 + attrLen) (n - 4 - of_nat attrLen) buf m } })"

text \<open>The cookie stays in the order of the network; the buffer has \<open>bufLen\<close> bytes.\<close>

definition stunParseMessage :: "u8 list \<Rightarrow> (bool \<times> stun_message) option" where
  "stunParseMessage buf =
     (if 20 > length buf then Some (False, stun_zero)
      else
        let hdr = \<lparr>sh_type = be16 (sub 0 2 buf), sh_length = be16 (sub 2 2 buf), sh_cookie = le32 (sub 4 4 buf),
              sh_tr_id = sub 8 12 buf\<rparr>
        in if unat (sh_length hdr) + 20 \<noteq> length buf then Some (False, stun_zero\<lparr>msg_hdr := hdr\<rparr>)
           else stun_parse_loop 20 (ucast (sh_length hdr)) buf (stun_zero\<lparr>msg_hdr := hdr\<rparr>))"

section \<open>Encoding\<close>

definition encode16 :: "u16 \<Rightarrow> u8 list" where "encode16 v = be16_bytes v"
definition encode32 :: "u32 \<Rightarrow> u8 list" where "encode32 v = be32_bytes v"
definition encode64 :: "u64 \<Rightarrow> u8 list" where "encode64 v = htonq v"

text \<open>The family that is written is always that of IPv4.\<close>

definition encodeAtrAddress4 :: "u16 \<Rightarrow> stun_atr_address4 \<Rightarrow> u8 list" where
  "encodeAtrAddress4 ty a = encode16 ty @ encode16 8 @ [aa_pad a, IPv4Family] @ encode16 (sa_port (aa_ipv4 a)) @
     encode32 (sa_addr (aa_ipv4 a))"

definition encodeAtrChangeRequest :: "u32 \<Rightarrow> u8 list" where
  "encodeAtrChangeRequest v = encode16 SA_CHANGEREQUEST @ encode16 4 @ encode32 v"

definition stun_padding :: "nat \<Rightarrow> u8 list" where
  "stun_padding n = (if n mod 4 > 0 then replicate (4 - n mod 4) 0 else [])"

definition encodeAtrError :: "stun_atr_error \<Rightarrow> u8 list" where
  "encodeAtrError e = encode16 SA_ERRORCODE @ encode16 (of_nat (4 + length (ae_reason e))) @ encode16 (ae_pad e) @
     [ae_class e, ae_number e] @ ae_reason e @ stun_padding (length (ae_reason e) + 4)"

definition encodeAtrUnknown :: "u16 list \<Rightarrow> u8 list" where
  "encodeAtrUnknown ts = encode16 SA_UNKNOWNATTRIBUTE @ encode16 (of_nat (2 + 2 * length ts)) @ concat (map encode16 ts)"

definition encodeAtrString :: "u16 \<Rightarrow> u8 list \<Rightarrow> u8 list" where
  "encodeAtrString ty s = encode16 ty @ encode16 (of_nat (length s)) @ s @ stun_padding (length s)"

definition encodeAtrIntegrity :: "u8 list \<Rightarrow> u8 list" where
  "encodeAtrIntegrity h = encode16 SA_MESSAGEINTEGRITY @ encode16 20 @ h"

definition encodeAtrFingerprint :: "u32 \<Rightarrow> u8 list" where
  "encodeAtrFingerprint v = encode16 SA_FINGERPRINT @ encode16 4 @ encode32 (v XOR 0x5354554E)"

definition encodeAtrRequestedTransport :: "turn_atr_transport \<Rightarrow> u8 list" where
  "encodeAtrRequestedTransport v =
     encode16 TA_REQUESTEDTRANSPORT @ encode16 4 @ [at_proto v, at_pad1 v, at_pad2 v, at_pad3 v]"

definition encodeAtrLifeTime :: "u32 \<Rightarrow> u8 list" where
  "encodeAtrLifeTime v = encode16 TA_LIFETIME @ encode16 4 @ encode32 v"

definition encodeAtrDontFragment :: "u8 list" where
  "encodeAtrDontFragment = encode16 TA_DONTFRAGMENT @ encode16 0"

definition encodeAtrUseCandidate :: "u8 list" where
  "encodeAtrUseCandidate = encode16 ICEA_USECANDIDATE @ encode16 0"

definition encodeAtrPriority :: "u32 \<Rightarrow> u8 list" where
  "encodeAtrPriority v = encode16 ICEA_PRIORITY @ encode16 4 @ encode32 v"

definition encodeAtrIceControll :: "u16 \<Rightarrow> u64 \<Rightarrow> u8 list" where
  "encodeAtrIceControll ty v = encode16 ty @ encode16 8 @ encode64 v"

text \<open>
  A message is a list of bytes that grows; \<open>put_len\<close> writes the length field of the header again.
  \<open>hmac_long message username realm password\<close> and \<open>hmac_short message password\<close> stand for the two
  functions that call OpenSSL. \<^verbatim>\<open>bufLen\<close> is not used by the code: a message that does not fit
  is written past the end of the buffer.
\<close>

definition enc_opt :: "('a \<Rightarrow> u8 list) \<Rightarrow> 'a option \<Rightarrow> u8 list" where
  "enc_opt f x = (case x of None \<Rightarrow> [] | Some v \<Rightarrow> f v)"

definition put_len :: "nat \<Rightarrow> u8 list \<Rightarrow> u8 list" where
  "put_len n b = take 2 b @ encode16 (of_nat n) @ drop 4 b"

definition stun_sized :: "u8 list option \<Rightarrow> bool" where
  "stun_sized s = (case s of None \<Rightarrow> False | Some v \<Rightarrow> length v > 0)"

definition stun_header :: "stun_message \<Rightarrow> u8 list" where
  "stun_header msg = encode16 (sh_type (msg_hdr msg)) @ encode16 0 @ encode32 (sh_cookie (msg_hdr msg)) @
     sh_tr_id (msg_hdr msg)"

definition stun_body :: "stun_message \<Rightarrow> u8 list" where
  "stun_body msg =
     enc_opt encodeAtrRequestedTransport (requested_transport msg)
     @ enc_opt encodeAtrLifeTime (turn_lifetime msg)
     @ (if dont_fragment msg then encodeAtrDontFragment else [])
     @ enc_opt (encodeAtrAddress4 SA_MAPPEDADDRESS) (mapped_address msg)
     @ enc_opt (encodeAtrAddress4 SA_RESPONSEADDRESS) (response_address msg)
     @ enc_opt encodeAtrChangeRequest (change_request msg)
     @ enc_opt (encodeAtrAddress4 SA_SOURCEADDRESS) (source_address msg)
     @ enc_opt (encodeAtrAddress4 SA_CHANGEDADDRESS) (changed_address msg)
     @ enc_opt (encodeAtrString SA_USERNAME) (username msg)
     @ enc_opt encodeAtrError (error_code msg)
     @ enc_opt encodeAtrUnknown (unknown_attributes msg)
     @ enc_opt (encodeAtrAddress4 SA_REFLECTEDFROM) (reflected_from msg)
     @ enc_opt (encodeAtrString SA_NONCE) (nonce_name msg)
     @ enc_opt (encodeAtrString SA_REALM) (realm_name msg)
     @ enc_opt (encodeAtrAddress4 SA_XORMAPPEDADDRESS) (xor_mapped_address msg)
     @ enc_opt encodeAtrPriority (ice_priority msg)
     @ (if use_candidate msg then encodeAtrUseCandidate else [])
     @ enc_opt (encodeAtrIceControll ICEA_ICECONTROLLED) (ice_controlled msg)
     @ enc_opt (encodeAtrIceControll ICEA_ICECONTROLLING) (ice_controlling msg)
     @ enc_opt (encodeAtrString SA_SOFTWARE) (software_name msg)"

definition stun_integrity ::
  "(u8 list \<Rightarrow> u8 list \<Rightarrow> u8 list \<Rightarrow> u8 list \<Rightarrow> u8 list) \<Rightarrow> (u8 list \<Rightarrow> u8 list \<Rightarrow> u8 list) \<Rightarrow> stun_message \<Rightarrow>
   u8 list option \<Rightarrow> u8 list \<Rightarrow> u8 list" where
  "stun_integrity hmac_long hmac_short msg pw b =
     (if message_integrity msg \<noteq> None \<and> stun_sized pw \<and> stun_sized (username msg) \<and> stun_sized (realm_name msg)
      then let b = put_len (length b - 20 + 24) b
           in b @ encodeAtrIntegrity (hmac_long b (the (username msg)) (the (realm_name msg)) (the pw))
      else if message_integrity msg \<noteq> None \<and> stun_sized pw \<and> stun_sized (username msg)
      then let b = put_len (length b - 20 + 24) b in b @ encodeAtrIntegrity (hmac_short b (the pw))
      else b)"

definition stun_add_fingerprint :: "stun_message \<Rightarrow> u8 list \<Rightarrow> u8 list" where
  "stun_add_fingerprint msg b =
     (if fingerprint msg \<noteq> None
      then let b = put_len (length b - 20 + 8) b in b @ encodeAtrFingerprint (stunCalculateFingerprint b)
      else b)"

definition stunEncodeMessage ::
  "(u8 list \<Rightarrow> u8 list \<Rightarrow> u8 list \<Rightarrow> u8 list \<Rightarrow> u8 list) \<Rightarrow> (u8 list \<Rightarrow> u8 list \<Rightarrow> u8 list) \<Rightarrow> stun_message \<Rightarrow>
   nat \<Rightarrow> u8 list option \<Rightarrow> u8 list option" where
  "stunEncodeMessage hmac_long hmac_short msg bufLen pw =
     (let b = stun_header msg @ stun_body msg;
          b = stun_integrity hmac_long hmac_short msg pw b;
          b = stun_add_fingerprint msg b;
          b = put_len (length b - 20) b
      in if length b \<le> bufLen then Some b else None)"

section \<open>What is parsed of an encoded message\<close>

lemma length_encode [simp]:
  "length (encode16 a) = 2" "length (encode32 b) = 4" "length (encode64 c) = 8"
  by (simp_all add: encode16_def encode32_def encode64_def htonq_def)

lemma be_encode [simp]: "be16 (encode16 a) = a" "be32 (encode32 b) = b"
  by (simp_all add: encode16_def encode32_def)

lemma ntohq_encode [simp]: "ntohq (encode64 v) = v"
proof -
  have "push_bit 32 (ucast (ucast (drop_bit 32 v) :: u32)) OR ucast (ucast v :: u32) = v"
    by (rule bit_word_eqI) (auto simp: bit_simps dest: bit_imp_le_length)
  then show ?thesis by (simp add: ntohq_def encode64_def htonq_def)
qed

lemma buf_rd_at: "length pre = p \<Longrightarrow> length v = n \<Longrightarrow> buf_rd p n (pre @ v @ post) = Some v"
  by (simp add: buf_rd_def sub_middle)

lemma buf_rd_part:
  assumes "buf_rd p n buf = Some v" and "i + k \<le> n"
  shows "buf_rd (p + i) k buf = Some (sub i k v)"
  using assms by (auto simp: buf_rd_def sub_def drop_take min_def add.commute split: if_splits)

lemma buf_rd_length: "buf_rd p n buf = Some v \<Longrightarrow> length v = n"
  by (auto simp: buf_rd_def split: if_splits)

text \<open>\<open>stun_seg A m m'\<close>: the parser goes over the bytes \<open>A\<close> and turns the message \<open>m\<close> into \<open>m'\<close>.\<close>

definition stun_seg :: "u8 list \<Rightarrow> stun_message \<Rightarrow> stun_message \<Rightarrow> bool" where
  "stun_seg A m m' \<longleftrightarrow> (\<forall>pre post. length A + length post < 2 ^ 32 \<longrightarrow>
     stun_parse_loop (length pre) (of_nat (length A + length post)) (pre @ A @ post) m =
     stun_parse_loop (length pre + length A) (of_nat (length post)) (pre @ A @ post) m')"

lemma stun_segD:
  assumes "stun_seg A m m'" and "length A + length post < 2 ^ 32"
  shows "stun_parse_loop (length pre) (of_nat (length A + length post)) (pre @ A @ post) m =
     stun_parse_loop (length pre + length A) (of_nat (length post)) (pre @ A @ post) m'"
  using assms unfolding stun_seg_def by blast

lemma stun_seg_Nil: "stun_seg [] m m"
  by (simp add: stun_seg_def)

lemma stun_seg_append:
  assumes "stun_seg A m m1" and "stun_seg B m1 m2"
  shows "stun_seg (A @ B) m m2"
  unfolding stun_seg_def
proof (intro allI impI)
  fix pre post :: "u8 list" assume l: "length (A @ B) + length post < (2::nat) ^ 32"
  have "length A + length (B @ post) < (2::nat) ^ 32" "length B + length post < (2::nat) ^ 32"
    using l by simp_all
  note stun_segD [OF assms(1) this(1), of pre] stun_segD [OF assms(2) this(2), of "pre @ A"]
  then show "stun_parse_loop (length pre) (of_nat (length (A @ B) + length post)) (pre @ (A @ B) @ post) m =
      stun_parse_loop (length pre + length (A @ B)) (of_nat (length post)) (pre @ (A @ B) @ post) m2"
    by (simp add: add.assoc)
qed

lemma unat_of_nat_u32: "n < 2 ^ 32 \<Longrightarrow> unat (of_nat n :: u32) = n"
  by (simp add: unat_of_nat take_bit_nat_eq_self)

lemma length_stun_padding: "length (stun_padding n) = (if n mod 4 > 0 then 4 - n mod 4 else 0)"
  by (simp add: stun_padding_def)

lemma stun_seg_attr:
  assumes attr: "\<And>p buf. buf_rd p (length v) buf = Some v \<Longrightarrow> stun_parse_attr ty (length v) p buf m = Some (Some m')"
    and lv: "length v < 65536"
  shows "stun_seg (encode16 ty @ encode16 (of_nat (length v)) @ v @ stun_padding (length v)) m m'"
  unfolding stun_seg_def
proof (intro allI impI)
  fix pre post :: "u8 list"
  let ?h = "encode16 ty @ encode16 (of_nat (length v))"
  let ?A = "encode16 ty @ encode16 (of_nat (length v)) @ v @ stun_padding (length v)"
  let ?buf = "pre @ ?A @ post"
  let ?n = "of_nat (length ?A + length post) :: u32"
  assume l: "length ?A + length post < (2::nat) ^ 32"
  have un: "unat ?n = length ?A + length post" using l by (rule unat_of_nat_u32)
  have n0: "?n \<noteq> 0" using un by (metis add_is_0 length_append length_encode(1) numeral_2_eq_2 nat.distinct(1) unat_0)
  have h: "buf_rd (length pre) 4 ?buf = Some ?h"
    using buf_rd_at [of pre "length pre" ?h 4 "v @ stun_padding (length v) @ post"] by simp
  have r: "buf_rd (length pre + 4) (length v) ?buf = Some v"
    using buf_rd_at [of "pre @ ?h" "length pre + 4" v "length v" "stun_padding (length v) @ post"] by simp
  have al: "unat (of_nat (length v) :: u16) = length v" using lv by (simp add: unat_of_nat take_bit_nat_eq_self)
  have parts: "take 2 ?h = encode16 ty" "drop 2 ?h = encode16 (of_nat (length v))" by simp_all
  have pad: "(if length v mod 4 > 0 then length v + (4 - length v mod 4) else length v) =
      length v + length (stun_padding (length v))" by (simp add: length_stun_padding)
  have rest: "?n - 4 - of_nat (length v + length (stun_padding (length v))) = of_nat (length post)"
    by simp
  have le: "\<not> length v + 4 > unat ?n" using un by simp
  have len: "length pre + 4 + (length v + length (stun_padding (length v))) = length pre + length ?A" by simp
  show "stun_parse_loop (length pre) ?n ?buf m =
      stun_parse_loop (length pre + length ?A) (of_nat (length post)) ?buf m'"
    unfolding stun_parse_loop.simps [of "length pre" ?n ?buf m] if_not_P [OF n0] h bind.bind_lunit Let_def parts
      be_encode al if_not_P [OF le] attr [OF r] option.case pad rest len
    by (rule refl)
qed

lemma stun_seg_attr4:
  assumes "\<And>p buf. buf_rd p n buf = Some v \<Longrightarrow> stun_parse_attr ty n p buf m = Some (Some m')"
    and "length v = n" "n < 65536" "n mod 4 = 0"
  shows "stun_seg (encode16 ty @ encode16 (of_nat n) @ v) m m'"
  using stun_seg_attr [of v ty m m'] assms by (simp add: stun_padding_def)

lemma enc_opt_seg:
  assumes "\<And>v. x = Some v \<Longrightarrow> stun_seg (f v) m (u (Some (h v)))" and "u None = m"
  shows "stun_seg (enc_opt f x) m (u (map_option h x))"
  using assms by (cases x) (simp_all add: enc_opt_def stun_seg_Nil)

section \<open>The attributes\<close>

definition ipv4_family :: "stun_atr_address4 \<Rightarrow> stun_atr_address4" where
  "ipv4_family a = a\<lparr>aa_family := IPv4Family\<rparr>"

lemma parse_address:
  assumes "buf_rd p 8 buf = Some ([aa_pad a, IPv4Family] @ encode16 (sa_port (aa_ipv4 a)) @ encode32 (sa_addr (aa_ipv4 a)))"
  shows "stunParseAtrAddress p 8 buf = Some (Some (ipv4_family a))"
  using buf_rd_part [OF assms, of 0 2] buf_rd_part [OF assms, of 2 2] buf_rd_part [OF assms, of 4 4]
  by (simp add: stunParseAtrAddress_def sub_def ipv4_family_def)

lemma seg_address:
  assumes "\<And>p buf. stun_parse_attr ty 8 p buf m = stun_store (stunParseAtrAddress p 8 buf) upd m"
  shows "stun_seg (encodeAtrAddress4 ty a) m (upd (ipv4_family a) m)"
  unfolding encodeAtrAddress4_def using stun_seg_attr4 [of 8 _ ty m "upd (ipv4_family a) m"]
  by (simp add: assms parse_address stun_store_def)

lemma seg_mapped: "mapped_address m = None \<Longrightarrow>
    stun_seg (enc_opt (encodeAtrAddress4 SA_MAPPEDADDRESS) x) m (m\<lparr>mapped_address := map_option ipv4_family x\<rparr>)"
  by (rule enc_opt_seg, rule seg_address [where upd = "\<lambda>v m. m\<lparr>mapped_address := Some v\<rparr>"])
    (simp_all add: stun_parse_attr_def stun_types)

lemma seg_response: "response_address m = None \<Longrightarrow>
    stun_seg (enc_opt (encodeAtrAddress4 SA_RESPONSEADDRESS) x) m (m\<lparr>response_address := map_option ipv4_family x\<rparr>)"
  by (rule enc_opt_seg, rule seg_address [where upd = "\<lambda>v m. m\<lparr>response_address := Some v\<rparr>"])
    (simp_all add: stun_parse_attr_def stun_types)

lemma seg_source: "source_address m = None \<Longrightarrow>
    stun_seg (enc_opt (encodeAtrAddress4 SA_SOURCEADDRESS) x) m (m\<lparr>source_address := map_option ipv4_family x\<rparr>)"
  by (rule enc_opt_seg, rule seg_address [where upd = "\<lambda>v m. m\<lparr>source_address := Some v\<rparr>"])
    (simp_all add: stun_parse_attr_def stun_types)

lemma seg_changed: "changed_address m = None \<Longrightarrow>
    stun_seg (enc_opt (encodeAtrAddress4 SA_CHANGEDADDRESS) x) m (m\<lparr>changed_address := map_option ipv4_family x\<rparr>)"
  by (rule enc_opt_seg, rule seg_address [where upd = "\<lambda>v m. m\<lparr>changed_address := Some v\<rparr>"])
    (simp_all add: stun_parse_attr_def stun_types)

lemma seg_reflected: "reflected_from m = None \<Longrightarrow>
    stun_seg (enc_opt (encodeAtrAddress4 SA_REFLECTEDFROM) x) m (m\<lparr>reflected_from := map_option ipv4_family x\<rparr>)"
  by (rule enc_opt_seg, rule seg_address [where upd = "\<lambda>v m. m\<lparr>reflected_from := Some v\<rparr>"])
    (simp_all add: stun_parse_attr_def stun_types)

lemma seg_xor_mapped: "xor_mapped_address m = None \<Longrightarrow>
    stun_seg (enc_opt (encodeAtrAddress4 SA_XORMAPPEDADDRESS) x) m
      (m\<lparr>xor_mapped_address := map_option (\<lambda>a. xor_address (ipv4_family a)) x\<rparr>)"
  by (rule enc_opt_seg, rule seg_address [where upd = "\<lambda>v m. m\<lparr>xor_mapped_address := Some (xor_address v)\<rparr>"])
    (simp_all add: stun_parse_attr_def stun_types)

lemma parse_32: "buf_rd p 4 buf = Some (encode32 v) \<Longrightarrow> stun_parse32 p 4 buf = Some (Some v)"
  by (simp add: stun_parse32_def)

lemma seg_32:
  assumes "\<And>p buf. stun_parse_attr ty 4 p buf m = stun_store (stun_parse32 p 4 buf) upd m"
  shows "stun_seg (encode16 ty @ encode16 4 @ encode32 v) m (upd v m)"
  using stun_seg_attr4 [of 4 "encode32 v" ty m "upd v m"] by (simp add: assms parse_32 stun_store_def)

lemma parse_64: "buf_rd p 8 buf = Some (encode64 v) \<Longrightarrow> stun_parse64 p 8 buf = Some (Some v)"
  by (simp add: stun_parse64_def)

lemma seg_64:
  assumes "\<And>p buf. stun_parse_attr ty 8 p buf m = stun_store (stun_parse64 p 8 buf) upd m"
  shows "stun_seg (encode16 ty @ encode16 8 @ encode64 v) m (upd v m)"
  using stun_seg_attr4 [of 8 "encode64 v" ty m "upd v m"] by (simp add: assms parse_64 stun_store_def)

lemma seg_string:
  assumes "\<And>p buf. stun_parse_attr ty (length s) p buf m = stun_store (stunParseAtrString p (length s) buf) upd m"
    and "length s < STUN_MAX_STRING"
  shows "stun_seg (encodeAtrString ty s) m (upd s m)"
  unfolding encodeAtrString_def
  by (rule stun_seg_attr) (use assms in \<open>simp_all add: stunParseAtrString_def stun_store_def STUN_MAX_STRING_def\<close>)

lemma seg_lifetime: "turn_lifetime m = None \<Longrightarrow> stun_seg (enc_opt encodeAtrLifeTime x) m (m\<lparr>turn_lifetime := map_option id x\<rparr>)"
  unfolding encodeAtrLifeTime_def
  by (rule enc_opt_seg, rule seg_32 [where upd = "\<lambda>v m. m\<lparr>turn_lifetime := Some (id v)\<rparr>"])
    (simp_all add: stun_parse_attr_def stun_types turnParseAtrLifetime_def)

lemma seg_change: "change_request m = None \<Longrightarrow> stun_seg (enc_opt encodeAtrChangeRequest x) m (m\<lparr>change_request := map_option id x\<rparr>)"
  unfolding encodeAtrChangeRequest_def
  by (rule enc_opt_seg, rule seg_32 [where upd = "\<lambda>v m. m\<lparr>change_request := Some (id v)\<rparr>"])
    (simp_all add: stun_parse_attr_def stun_types stunParseAtrChangeRequest_def)

lemma seg_priority: "ice_priority m = None \<Longrightarrow> stun_seg (enc_opt encodeAtrPriority x) m (m\<lparr>ice_priority := map_option id x\<rparr>)"
  unfolding encodeAtrPriority_def
  by (rule enc_opt_seg, rule seg_32 [where upd = "\<lambda>v m. m\<lparr>ice_priority := Some (id v)\<rparr>"])
    (simp_all add: stun_parse_attr_def stun_types iceParseAtrPriority_def)

lemma seg_controlled: "ice_controlled m = None \<Longrightarrow>
    stun_seg (enc_opt (encodeAtrIceControll ICEA_ICECONTROLLED) x) m (m\<lparr>ice_controlled := map_option id x\<rparr>)"
  unfolding encodeAtrIceControll_def
  by (rule enc_opt_seg, rule seg_64 [where upd = "\<lambda>v m. m\<lparr>ice_controlled := Some (id v)\<rparr>"])
    (simp_all add: stun_parse_attr_def stun_types iceParseAtrIceControll_def)

lemma seg_controlling: "ice_controlling m = None \<Longrightarrow>
    stun_seg (enc_opt (encodeAtrIceControll ICEA_ICECONTROLLING) x) m (m\<lparr>ice_controlling := map_option id x\<rparr>)"
  unfolding encodeAtrIceControll_def
  by (rule enc_opt_seg, rule seg_64 [where upd = "\<lambda>v m. m\<lparr>ice_controlling := Some (id v)\<rparr>"])
    (simp_all add: stun_parse_attr_def stun_types iceParseAtrIceControll_def)

definition short_string :: "u8 list option \<Rightarrow> bool" where
  "short_string x = (case x of None \<Rightarrow> True | Some s \<Rightarrow> length s < STUN_MAX_STRING)"

lemma seg_username: "username m = None \<Longrightarrow> short_string x \<Longrightarrow>
    stun_seg (enc_opt (encodeAtrString SA_USERNAME) x) m (m\<lparr>username := map_option id x\<rparr>)"
  by (rule enc_opt_seg, rule seg_string [where upd = "\<lambda>v m. m\<lparr>username := Some (id v)\<rparr>"])
    (simp_all add: stun_parse_attr_def stun_types short_string_def)

lemma seg_nonce: "nonce_name m = None \<Longrightarrow> short_string x \<Longrightarrow>
    stun_seg (enc_opt (encodeAtrString SA_NONCE) x) m (m\<lparr>nonce_name := map_option id x\<rparr>)"
  by (rule enc_opt_seg, rule seg_string [where upd = "\<lambda>v m. m\<lparr>nonce_name := Some (id v)\<rparr>"])
    (simp_all add: stun_parse_attr_def stun_types short_string_def)

lemma seg_realm: "realm_name m = None \<Longrightarrow> short_string x \<Longrightarrow>
    stun_seg (enc_opt (encodeAtrString SA_REALM) x) m (m\<lparr>realm_name := map_option id x\<rparr>)"
  by (rule enc_opt_seg, rule seg_string [where upd = "\<lambda>v m. m\<lparr>realm_name := Some (id v)\<rparr>"])
    (simp_all add: stun_parse_attr_def stun_types short_string_def)

lemma seg_software: "software_name m = None \<Longrightarrow> short_string x \<Longrightarrow>
    stun_seg (enc_opt (encodeAtrString SA_SOFTWARE) x) m (m\<lparr>software_name := map_option id x\<rparr>)"
  by (rule enc_opt_seg, rule seg_string [where upd = "\<lambda>v m. m\<lparr>software_name := Some (id v)\<rparr>"])
    (simp_all add: stun_parse_attr_def stun_types short_string_def)

lemma seg_error:
  assumes "error_code m = None" and "\<And>e. x = Some e \<Longrightarrow> length (ae_reason e) < 128"
  shows "stun_seg (enc_opt encodeAtrError x) m (m\<lparr>error_code := map_option id x\<rparr>)"
proof (rule enc_opt_seg)
  fix e assume x: "x = Some e"
  let ?v = "encode16 (ae_pad e) @ [ae_class e, ae_number e] @ ae_reason e"
  have len: "length ?v = 4 + length (ae_reason e)" by simp
  have short: "length (ae_reason e) < 128" using assms(2) x .
  have fields: "be16 (take 2 (sub 0 4 ?v)) = ae_pad e" "sub 0 4 ?v ! 2 = ae_class e" "sub 0 4 ?v ! 3 = ae_number e"
    "sub 4 (length (ae_reason e)) ?v = ae_reason e"
    by (simp_all add: sub_def nth_append)
  have "stun_parse_attr SA_ERRORCODE (length ?v) p buf m = Some (Some (m\<lparr>error_code := Some (id e)\<rparr>))"
    if "buf_rd p (length ?v) buf = Some ?v" for p buf
  proof -
    note r = that [unfolded len]
    have "buf_rd p 4 buf = Some (sub 0 4 ?v)" "buf_rd (p + 4) (length (ae_reason e)) buf = Some (sub 4 (length (ae_reason e)) ?v)"
      using buf_rd_part [OF r, of 0 4] buf_rd_part [OF r, of 4 "length (ae_reason e)"] by simp_all
    moreover have "\<not> (4 + length (ae_reason e) < 4 \<or> 4 + length (ae_reason e) \<ge> 128 + 4)"
      "4 + length (ae_reason e) - 4 = length (ae_reason e)" using short by simp_all
    ultimately have "stunParseAtrError p (4 + length (ae_reason e)) buf = Some (Some e)"
      unfolding stunParseAtrError_def by (simp only: if_False fields bind.bind_lunit) simp
    then show ?thesis unfolding len by (simp add: stun_parse_attr_def stun_types stun_store_def)
  qed
  note s = stun_seg_attr [OF this]
  show "stun_seg (encodeAtrError e) m (m\<lparr>error_code := Some (id e)\<rparr>)"
    using s short unfolding len by (simp add: encodeAtrError_def add.commute)
qed (use assms(1) in simp)

lemma seg_transport:
  assumes "requested_transport m = None"
  shows "stun_seg (enc_opt encodeAtrRequestedTransport x) m (m\<lparr>requested_transport := map_option id x\<rparr>)"
proof (rule enc_opt_seg)
  fix v :: turn_atr_transport
  let ?v = "[at_proto v, at_pad1 v, at_pad2 v, at_pad3 v]"
  have "stun_seg (encode16 TA_REQUESTEDTRANSPORT @ encode16 (of_nat 4) @ ?v) m (m\<lparr>requested_transport := Some (id v)\<rparr>)"
    by (rule stun_seg_attr4) (simp_all add: stun_parse_attr_def stun_types stun_store_def turnParseAtrRequestedTransport_def)
  then show "stun_seg (encodeAtrRequestedTransport v) m (m\<lparr>requested_transport := Some (id v)\<rparr>)"
    by (simp add: encodeAtrRequestedTransport_def)
qed (use assms in simp)

lemma seg_dont_fragment:
  assumes "\<not> dont_fragment m"
  shows "stun_seg (if b then encodeAtrDontFragment else []) m (m\<lparr>dont_fragment := b\<rparr>)"
proof (cases b)
  case True
  then show ?thesis using stun_seg_attr4 [of 0 "[]" TA_DONTFRAGMENT m "m\<lparr>dont_fragment := True\<rparr>"]
    by (simp add: encodeAtrDontFragment_def stun_parse_attr_def stun_types)
next
  case False
  moreover have "m\<lparr>dont_fragment := False\<rparr> = m" using assms by (cases m) simp
  ultimately show ?thesis by (simp add: stun_seg_Nil)
qed

lemma seg_use_candidate:
  assumes "\<not> use_candidate m"
  shows "stun_seg (if b then encodeAtrUseCandidate else []) m (m\<lparr>use_candidate := b\<rparr>)"
proof (cases b)
  case True
  then show ?thesis using stun_seg_attr4 [of 0 "[]" ICEA_USECANDIDATE m "m\<lparr>use_candidate := True\<rparr>"]
    by (simp add: encodeAtrUseCandidate_def stun_parse_attr_def stun_types)
next
  case False
  moreover have "m\<lparr>use_candidate := False\<rparr> = m" using assms by (cases m) simp
  ultimately show ?thesis by (simp add: stun_seg_Nil)
qed

lemma seg_integrity:
  assumes "length h = 20"
  shows "stun_seg (encodeAtrIntegrity h) m (m\<lparr>message_integrity := Some h\<rparr>)"
proof -
  have "stun_seg (encode16 SA_MESSAGEINTEGRITY @ encode16 (of_nat 20) @ h) m (m\<lparr>message_integrity := Some h\<rparr>)"
    using assms
    by (intro stun_seg_attr4) (simp_all add: stun_parse_attr_def stun_types stun_store_def stunParseAtrIntegrity_def)
  then show ?thesis by (simp add: encodeAtrIntegrity_def)
qed

lemma seg_fingerprint:
  "stun_seg (encodeAtrFingerprint v) m (m\<lparr>fingerprint := Some (v XOR 0x5354554E)\<rparr>)"
  unfolding encodeAtrFingerprint_def
  by (rule seg_32 [where upd = "\<lambda>v m. m\<lparr>fingerprint := Some v\<rparr>"])
    (simp add: stun_parse_attr_def stun_types stunParseAtrFingerprint_def)

section \<open>The whole message\<close>

definition stun_encodable :: "stun_message \<Rightarrow> bool" where
  "stun_encodable msg \<longleftrightarrow> length (sh_tr_id (msg_hdr msg)) = 12 \<and> unknown_attributes msg = None \<and>
     short_string (username msg) \<and> short_string (nonce_name msg) \<and> short_string (realm_name msg) \<and>
     short_string (software_name msg) \<and>
     (case error_code msg of None \<Rightarrow> True | Some e \<Rightarrow> length (ae_reason e) < 128)"

text \<open>The keyed hash of a message with the bytes \<open>c\<close>, if it gets one.\<close>

definition stun_hash ::
  "(u8 list \<Rightarrow> u8 list \<Rightarrow> u8 list \<Rightarrow> u8 list \<Rightarrow> u8 list) \<Rightarrow> (u8 list \<Rightarrow> u8 list \<Rightarrow> u8 list) \<Rightarrow> stun_message \<Rightarrow>
   u8 list option \<Rightarrow> u8 list \<Rightarrow> u8 list option" where
  "stun_hash hmac_long hmac_short msg pw c =
     (if message_integrity msg \<noteq> None \<and> stun_sized pw \<and> stun_sized (username msg)
      then Some (if stun_sized (realm_name msg) then hmac_long c (the (username msg)) (the (realm_name msg)) (the pw)
                 else hmac_short c (the pw))
      else None)"

text \<open>
  What the receiver of the bytes \<open>b\<close> reads: the attributes of the sender, those that are never sent
  absent, the mapped address exclusive-or the cookie once more, the cookie in the order of the network, the
  hash over the bytes in front of its attribute (with the length up to its end) and the CRC of all bytes in
  front of the last eight.
\<close>

definition stun_received ::
  "(u8 list \<Rightarrow> u8 list \<Rightarrow> u8 list \<Rightarrow> u8 list \<Rightarrow> u8 list) \<Rightarrow> (u8 list \<Rightarrow> u8 list \<Rightarrow> u8 list) \<Rightarrow> u8 list option \<Rightarrow>
   stun_message \<Rightarrow> u8 list \<Rightarrow> stun_message" where
  "stun_received hmac_long hmac_short pw msg b =
     (let n = length b - (if fingerprint msg = None then 24 else 32)
      in msg\<lparr>msg_hdr := \<lparr>sh_type = sh_type (msg_hdr msg), sh_length = of_nat (length b - 20),
            sh_cookie = le32 (be32_bytes (sh_cookie (msg_hdr msg))), sh_tr_id = sh_tr_id (msg_hdr msg)\<rparr>,
          mapped_address := map_option ipv4_family (mapped_address msg),
          response_address := map_option ipv4_family (response_address msg),
          source_address := map_option ipv4_family (source_address msg),
          changed_address := map_option ipv4_family (changed_address msg),
          password := None,
          message_integrity := stun_hash hmac_long hmac_short msg pw (put_len (n + 4) (take n b)),
          reflected_from := map_option ipv4_family (reflected_from msg),
          xor_mapped_address := map_option (\<lambda>a. xor_address (ipv4_family a)) (xor_mapped_address msg),
          xor_peer_address := None, xor_relayed_address := None,
          fingerprint := (if fingerprint msg = None then None
             else Some (stunCalculateFingerprint (take (length b - 8) b) XOR 0x5354554E)),
          channel_number := None, turn_data := None, reservation_token := None\<rparr>)"

lemma map_option_id [simp]: "map_option id x = x" "map_option (\<lambda>x. x) x = x"
  by (cases x; simp)+

lemma seg_body:
  assumes "stun_encodable msg"
  shows "stun_seg (stun_body msg) (stun_zero\<lparr>msg_hdr := h\<rparr>)
    (msg\<lparr>msg_hdr := h, mapped_address := map_option ipv4_family (mapped_address msg),
       response_address := map_option ipv4_family (response_address msg),
       source_address := map_option ipv4_family (source_address msg),
       changed_address := map_option ipv4_family (changed_address msg), password := None,
       message_integrity := None, reflected_from := map_option ipv4_family (reflected_from msg),
       xor_mapped_address := map_option (\<lambda>a. xor_address (ipv4_family a)) (xor_mapped_address msg),
       xor_peer_address := None, xor_relayed_address := None, fingerprint := None, channel_number := None,
       turn_data := None, reservation_token := None\<rparr>)" (is "stun_seg _ ?m0 ?m1")
proof -
  have u: "unknown_attributes msg = None" "enc_opt encodeAtrUnknown (unknown_attributes msg) = []"
    using assms by (simp_all add: stun_encodable_def enc_opt_def)
  have e: "length (ae_reason e) < 128" if "error_code msg = Some e" for e
    using assms that by (simp add: stun_encodable_def)
  have s: "short_string (username msg)" "short_string (nonce_name msg)" "short_string (realm_name msg)"
    "short_string (software_name msg)"
    using assms by (simp_all add: stun_encodable_def)
  have "\<exists>m. stun_seg (stun_body msg) ?m0 m \<and> m = ?m1"
    unfolding stun_body_def u(2) append_Nil
    apply (rule exI, rule conjI)
     apply (rule stun_seg_append seg_transport seg_lifetime seg_dont_fragment seg_mapped seg_response seg_change
       seg_source seg_changed seg_username seg_error seg_reflected seg_nonce seg_realm seg_xor_mapped seg_priority
       seg_use_candidate seg_controlled seg_controlling seg_software s | simp add: stun_zero_def e)+
    apply (simp add: stun_zero_def u(1))
    done
  then show ?thesis by blast
qed

definition stun_hdr :: "stun_message \<Rightarrow> nat \<Rightarrow> u8 list" where
  "stun_hdr msg n = encode16 (sh_type (msg_hdr msg)) @ encode16 (of_nat n) @ encode32 (sh_cookie (msg_hdr msg)) @
     sh_tr_id (msg_hdr msg)"

lemma put_len_hdr: "put_len n (stun_hdr msg k @ r) = stun_hdr msg n @ r"
  by (simp add: put_len_def stun_hdr_def)

lemma length_stun_hdr: "stun_encodable msg \<Longrightarrow> length (stun_hdr msg n) = 20"
  by (simp add: stun_hdr_def stun_encodable_def)

text \<open>The hash and the fingerprint as segments behind the body.\<close>

lemma stun_integrity_seg:
  assumes "stun_encodable msg"
  shows "\<exists>k. stun_integrity hl hs msg pw (stun_hdr msg 0 @ body) = stun_hdr msg k @ body @
     enc_opt encodeAtrIntegrity (stun_hash hl hs msg pw (stun_hdr msg (length body + 24) @ body))"
  using length_stun_hdr [OF assms]
  by (auto simp: stun_integrity_def stun_hash_def enc_opt_def Let_def put_len_hdr)

lemma stun_fingerprint_seg:
  assumes "stun_encodable msg"
  shows "\<exists>k. stun_add_fingerprint msg (stun_hdr msg j @ r) = stun_hdr msg k @ r @
     (if fingerprint msg = None then []
      else encodeAtrFingerprint (stunCalculateFingerprint (stun_hdr msg (length r + 8) @ r)))"
  using length_stun_hdr [OF assms] by (auto simp: stun_add_fingerprint_def Let_def put_len_hdr)

lemma length_enc_integrity: "length h = 20 \<Longrightarrow> length (encodeAtrIntegrity h) = 24"
  by (simp add: encodeAtrIntegrity_def)

lemma length_enc_fingerprint: "length (encodeAtrFingerprint v) = 8"
  by (simp add: encodeAtrFingerprint_def)

lemma take_before: "length ys = n \<Longrightarrow> take (length (xs @ ys) - n) (xs @ ys) = xs"
  by simp

lemma if_Some_D:
  assumes "(if P then Some x else None) = Some y"
  shows "P" and "y = x"
  using assms by (auto split: if_splits)

lemma stun_encode_parts:
  assumes enc: "stunEncodeMessage hl hs msg bufLen pw = Some b" and ok: "stun_encodable msg"
    and len: "\<And>c u r p. length (hl c u r p) = 20" "\<And>c p. length (hs c p) = 20"
  defines "h \<equiv> message_integrity (stun_received hl hs pw msg b)"
    and "f \<equiv> fingerprint (stun_received hl hs pw msg b)"
  defines "r \<equiv> stun_body msg @ enc_opt encodeAtrIntegrity h @ enc_opt (\<lambda>v. encodeAtrFingerprint (v XOR 0x5354554E)) f"
  shows "b = stun_hdr msg (length r) @ r" and "case h of None \<Rightarrow> True | Some h \<Rightarrow> length h = 20" and "length b \<le> bufLen"
proof -
  let ?hash = "stun_hash hl hs msg pw (stun_hdr msg (length (stun_body msg) + 24) @ stun_body msg)"
  let ?I = "enc_opt encodeAtrIntegrity ?hash"
  let ?m = "stun_body msg @ ?I"
  let ?F = "if fingerprint msg = None then []
     else encodeAtrFingerprint (stunCalculateFingerprint (stun_hdr msg (length ?m + 8) @ ?m))"
  note hl = length_stun_hdr [OF ok]
  have h0: "stun_header msg = stun_hdr msg 0" by (simp add: stun_header_def stun_hdr_def)
  obtain j where j: "stun_integrity hl hs msg pw (stun_hdr msg 0 @ stun_body msg) = stun_hdr msg j @ ?m"
    using stun_integrity_seg [OF ok] by fast
  obtain k where k: "stun_add_fingerprint msg (stun_hdr msg j @ ?m) = stun_hdr msg k @ ?m @ ?F"
    using stun_fingerprint_seg [OF ok] by fast
  have len_b: "length (stun_hdr msg k @ ?m @ ?F) - 20 = length (?m @ ?F)" by (simp add: hl)
  have enc': "(if length (stun_hdr msg (length (?m @ ?F)) @ ?m @ ?F) \<le> bufLen
      then Some (stun_hdr msg (length (?m @ ?F)) @ ?m @ ?F) else None) = Some b"
    using enc unfolding stunEncodeMessage_def Let_def h0 j k put_len_hdr len_b .
  have b: "b = stun_hdr msg (length (?m @ ?F)) @ ?m @ ?F"
    using enc' by (rule if_Some_D(2))
  show "length b \<le> bufLen" unfolding b using enc' by (rule if_Some_D(1))
  have lh: "length x = 20" if "?hash = Some x" for x
    using that len by (auto simp: stun_hash_def split: if_splits)
  have hh: "h = ?hash"
  proof (cases "?hash")
    case None
    then show ?thesis by (simp add: h_def stun_received_def Let_def stun_hash_def split: if_splits)
  next
    case (Some x)
    have "length b = 20 + length (stun_body msg) + 24 + (if fingerprint msg = None then 0 else 8)"
      unfolding b using Some lh by (simp add: hl enc_opt_def length_enc_integrity length_enc_fingerprint)
    then have n: "length b - (if fingerprint msg = None then 24 else 32) = 20 + length (stun_body msg)" by simp
    have "take (20 + length (stun_body msg)) b = stun_hdr msg (length (?m @ ?F)) @ stun_body msg"
      unfolding b by (simp add: hl)
    then have "put_len (20 + length (stun_body msg) + 4) (take (20 + length (stun_body msg)) b) =
        stun_hdr msg (length (stun_body msg) + 24) @ stun_body msg"
      by (simp only: put_len_hdr) (simp add: add.commute)
    then show ?thesis unfolding h_def by (simp add: stun_received_def n Let_def del: put_len_def)
  qed
  then show "case h of None \<Rightarrow> True | Some h \<Rightarrow> length h = 20" using lh by (auto split: option.split)
  have "enc_opt (\<lambda>v. encodeAtrFingerprint (v XOR 0x5354554E)) f = ?F"
  proof (cases "fingerprint msg = None")
    case False
    then have no: "(fingerprint msg = None) = False" by simp
    have bx: "b = (stun_hdr msg (length ?m + 8) @ ?m) @
        encodeAtrFingerprint (stunCalculateFingerprint (stun_hdr msg (length ?m + 8) @ ?m))"
      by (subst b) (simp add: no length_enc_fingerprint add.assoc del: not_None_eq)
    have "take (length b - 8) b = stun_hdr msg (length ?m + 8) @ ?m"
      by (subst (1 2) bx) (rule take_before, rule length_enc_fingerprint)
    then show ?thesis
      by (simp add: no f_def stun_received_def Let_def enc_opt_def xor.assoc del: not_None_eq)
  qed (simp add: f_def stun_received_def Let_def enc_opt_def)
  then show "b = stun_hdr msg (length r) @ r" unfolding r_def hh b by simp
qed

lemma stun_seg_parse:
  assumes seg: "stun_seg r (stun_zero\<lparr>msg_hdr := \<lparr>sh_type = sh_type (msg_hdr msg), sh_length = of_nat (length r),
      sh_cookie = le32 (be32_bytes (sh_cookie (msg_hdr msg))), sh_tr_id = sh_tr_id (msg_hdr msg)\<rparr>\<rparr>) m"
    and ok: "stun_encodable msg" and len: "length r < 65536"
  shows "stunParseMessage (stun_hdr msg (length r) @ r) = Some (True, m)"
proof -
  let ?buf = "stun_hdr msg (length r) @ r"
  have tr: "length (sh_tr_id (msg_hdr msg)) = 12" using ok by (simp add: stun_encodable_def)
  have parts: "sub 0 2 ?buf = encode16 (sh_type (msg_hdr msg))" "sub 2 2 ?buf = encode16 (of_nat (length r))"
    "sub 4 4 ?buf = encode32 (sh_cookie (msg_hdr msg))" "sub 8 12 ?buf = sh_tr_id (msg_hdr msg)"
    using tr by (simp_all add: sub_def stun_hdr_def)
  have u16: "unat (of_nat (length r) :: u16) = length r"
    using len by (simp add: unat_of_nat take_bit_nat_eq_self)
  have u32: "ucast (of_nat (length r) :: u16) = (of_nat (length r) :: u32)"
    by (metis u16 of_nat_unat)
  have l: "length ?buf = 20 + length r" using length_stun_hdr [OF ok] by simp
  let ?m0 = "stun_zero\<lparr>msg_hdr := \<lparr>sh_type = sh_type (msg_hdr msg), sh_length = of_nat (length r),
      sh_cookie = le32 (be32_bytes (sh_cookie (msg_hdr msg))), sh_tr_id = sh_tr_id (msg_hdr msg)\<rparr>\<rparr>"
  have "stunParseMessage ?buf = stun_parse_loop 20 (of_nat (length r)) ?buf ?m0"
    using l u32 by (simp add: stunParseMessage_def parts u16 encode32_def)
  also have "\<dots> = stun_parse_loop (20 + length r) 0 ?buf m"
    using stun_segD [OF seg, of "[]" "stun_hdr msg (length r)"] len length_stun_hdr [OF ok] by simp
  also have "\<dots> = Some (True, m)" by (simp add: stun_parse_loop.simps [of "20 + length r" 0 ?buf m])
  finally show ?thesis .
qed

lemma round_trip:
  assumes "stunEncodeMessage hmac_long hmac_short msg bufLen pw = Some b" and "bufLen < 65536"
    and "stun_encodable msg"
    and "\<And>c u r p. length (hmac_long c u r p) = 20" and "\<And>c p. length (hmac_short c p) = 20"
  shows "stunParseMessage b = Some (True, stun_received hmac_long hmac_short pw msg b)"
proof -
  let ?rec = "stun_received hmac_long hmac_short pw msg b"
  let ?I = "enc_opt encodeAtrIntegrity (message_integrity ?rec)"
  let ?F = "enc_opt (\<lambda>v. encodeAtrFingerprint (v XOR 0x5354554E)) (fingerprint ?rec)"
  note parts = stun_encode_parts [OF assms(1,3-5)]
  define r where "r = stun_body msg @ ?I @ ?F"
  have b: "b = stun_hdr msg (length r) @ r" unfolding r_def by (rule parts(1))
  have lr: "length r = length b - 20" unfolding b using length_stun_hdr [OF assms(3)] by simp
  have segI: "stun_seg ?I m (m\<lparr>message_integrity := map_option id (message_integrity ?rec)\<rparr>)"
    if "message_integrity m = None" for m
    using that parts(2) by (intro enc_opt_seg) (simp_all add: seg_integrity)
  have segF: "stun_seg ?F m (m\<lparr>fingerprint := map_option id (fingerprint ?rec)\<rparr>)" if "fingerprint m = None" for m
    using that seg_fingerprint [of "v XOR 0x5354554E" m for v] by (intro enc_opt_seg) (simp_all add: xor.assoc)
  have "stun_seg r (stun_zero\<lparr>msg_hdr := \<lparr>sh_type = sh_type (msg_hdr msg), sh_length = of_nat (length r),
      sh_cookie = le32 (be32_bytes (sh_cookie (msg_hdr msg))), sh_tr_id = sh_tr_id (msg_hdr msg)\<rparr>\<rparr>) ?rec"
    unfolding r_def [symmetric] lr
    by (subst r_def, rule stun_seg_append [OF seg_body [OF assms(3)]], rule back_subst [where P = "stun_seg _ _"],
        rule stun_seg_append [OF segI segF])
      (simp_all add: stun_received_def Let_def)
  from stun_seg_parse [OF this assms(3)] show ?thesis
    using parts(3) assms(2) lr unfolding b [symmetric] by simp
qed

text \<open>
  C16. A STUN message read back. Whatever attributes are set, the parser accepts the bytes of the
  encoder and reads them as \<open>stun_received\<close>: every attribute with its value, the message integrity as
  the keyed hash of the bytes in front of it, the fingerprint as the CRC of the bytes in front of it. The
  strings are shorter than 514 bytes and the reason of an error than 128, the limits of the parser;
  the list of unknown attributes, which the parser does not read as the encoder writes it, is absent.
\<close>

theorem stun_round_trip:
  assumes "stunEncodeMessage hmac_long hmac_short msg bufLen pw = Some b" and "bufLen < 65536"
    and "stun_encodable msg"
    and "\<And>c u r p. length (hmac_long c u r p) = 20" and "\<And>c p. length (hmac_short c p) = 20"
  shows "stunParseMessage b = Some (True, stun_received hmac_long hmac_short pw msg b)"
  using assms by (rule round_trip)

text \<open>The round trip on a request with a user name, a hash and a fingerprint.\<close>

definition demo_request :: stun_message where
  "demo_request = stun_zero\<lparr>msg_hdr := \<lparr>sh_type = 1, sh_length = 0, sh_cookie = STUN_COOKIE, sh_tr_id = replicate 12 7\<rparr>,
     username := Some [97, 98, 99], message_integrity := Some [], ice_priority := Some 5, fingerprint := Some 0\<rparr>"

definition demo_long :: "u8 list \<Rightarrow> u8 list \<Rightarrow> u8 list \<Rightarrow> u8 list \<Rightarrow> u8 list" where
  "demo_long c u r p = replicate 20 (of_nat (length c + length p))"

definition demo_short :: "u8 list \<Rightarrow> u8 list \<Rightarrow> u8 list" where
  "demo_short c p = replicate 20 (of_nat (length c + length p))"

lemma demo_encoded:
  "\<exists>b. stunEncodeMessage demo_long demo_short demo_request 2048 (Some [1, 2]) = Some b \<and> length b = 68"
  by (simp add: stunEncodeMessage_def stun_header_def stun_body_def stun_integrity_def stun_add_fingerprint_def
      demo_request_def stun_zero_def hdr_zero_def enc_opt_def stun_sized_def demo_short_def encodeAtrIntegrity_def
      encodeAtrFingerprint_def encodeAtrString_def encodeAtrPriority_def stun_padding_def put_len_def)

lemma stun_round_trip_witness:
  "\<exists>b. stunEncodeMessage demo_long demo_short demo_request 2048 (Some [1, 2]) = Some b \<and>
     stunParseMessage b = Some (True, stun_received demo_long demo_short (Some [1, 2]) demo_request b)"
proof -
  obtain b where b: "stunEncodeMessage demo_long demo_short demo_request 2048 (Some [1, 2]) = Some b"
    using demo_encoded by blast
  have "stun_encodable demo_request"
    by (simp add: stun_encodable_def demo_request_def stun_zero_def short_string_def STUN_MAX_STRING_def)
  from stun_round_trip [OF b _ this] b show ?thesis by (simp add: demo_long_def demo_short_def)
qed

section \<open>Any datagram\<close>

lemma buf_rd_ok: "p + n \<le> length buf \<Longrightarrow> \<exists>v. buf_rd p n buf = Some v"
  by (simp add: buf_rd_def)

lemma stun_store_ok: "r \<noteq> None \<Longrightarrow> stun_store r upd m \<noteq> None"
  by (cases r) (simp_all add: stun_store_def split: option.split)

lemma parse_value_ok:
  assumes "p + len \<le> length buf"
  shows "stunParseAtrAddress p len buf \<noteq> None" "stun_parse32 p len buf \<noteq> None" "stunParseAtrError p len buf \<noteq> None"
    "stunParseAtrUnknown p len buf \<noteq> None" "stunParseAtrString p len buf \<noteq> None"
    "stunParseAtrIntegrity p len buf \<noteq> None" "turnParseAtrData p len buf \<noteq> None"
    "turnParseAtrRequestedTransport p len buf \<noteq> None" "stun_parse64 p len buf \<noteq> None"
proof -
  have u: "p + 2 * (len div 4) \<le> length buf" using assms by linarith
  show "stunParseAtrUnknown p len buf \<noteq> None" using u by (simp add: stunParseAtrUnknown_def buf_rd_def)
qed (use assms in \<open>auto simp: stunParseAtrAddress_def stun_parse32_def stunParseAtrError_def stunParseAtrString_def
  stunParseAtrIntegrity_def turnParseAtrData_def turnParseAtrRequestedTransport_def stun_parse64_def buf_rd_def\<close>)

lemma parse_channel_ok:
  "p + len \<le> length buf \<Longrightarrow> len \<noteq> 0 \<or> p + 4 \<le> length buf \<Longrightarrow> turnParseAtrChannelNumber p len buf \<noteq> None"
  by (auto simp: turnParseAtrChannelNumber_def buf_rd_def)

lemma if_not_None: "(c \<Longrightarrow> x \<noteq> None) \<Longrightarrow> y \<noteq> None \<Longrightarrow> (if c then x else y) \<noteq> None"
  by simp

lemma stun_parse_attr_ok:
  assumes "p + len \<le> length buf" and "ty = TA_CHANNELNUMBER \<Longrightarrow> len \<noteq> 0 \<or> p + 4 \<le> length buf"
  shows "stun_parse_attr ty len p buf m \<noteq> None"
  unfolding stun_parse_attr_def stunParseAtrChangeRequest_def turnParseAtrLifetime_def turnParseAtrReservationToken_def
    stunParseAtrFingerprint_def iceParseAtrPriority_def iceParseAtrIceControll_def
  by (intro if_not_None stun_store_ok parse_value_ok [OF assms(1)] parse_channel_ok [OF assms(1)] option.distinct(2)
      assms(2))

definition ends_in_channel :: "u8 list \<Rightarrow> bool" where
  "ends_in_channel buf \<longleftrightarrow> be16 (sub (length buf - 4) 2 buf) = TA_CHANNELNUMBER \<and> be16 (sub (length buf - 2) 2 buf) = 0"

lemma unat_ucast_u32: "unat (ucast (w :: u16) :: u32) = unat w"
  using unsigned_less [of w, where 'a = nat] by (simp add: unsigned_ucast_eq take_bit_nat_eq_self)

lemma sub_halves: "take 2 (sub p 4 buf) = sub p 2 buf" "drop 2 (sub p 4 buf) = sub (p + 2) 2 buf"
  by (simp_all add: sub_def min_def drop_take add.commute)

lemma padded_attr:
  fixes l n :: nat
  assumes "l + 4 \<le> n" and "n mod 4 = 0"
  defines "p \<equiv> if l mod 4 > 0 then l + (4 - l mod 4) else l"
  shows "p + 4 \<le> n" and "l \<le> p" and "p mod 4 = 0"
proof -
  obtain k where k: "n = 4 * k" using assms(2) by (metis mult_0_right add_0_right mult_div_mod_eq)
  define q r where "q = l div 4" and "r = l mod 4"
  have l: "l = 4 * q + r" "r < 4" by (simp_all add: q_def r_def)
  have p: "p = (if r > 0 then 4 * (q + 1) else 4 * q)" unfolding p_def r_def [symmetric] using l by simp
  have le: "4 * q + r + 4 \<le> 4 * k" using assms(1) l(1) k by simp
  show "p + 4 \<le> n"
  proof (cases "r = 0")
    case False
    then have "q + 2 \<le> k" using le by presburger
    then show ?thesis using False unfolding p k by simp
  qed (use le in \<open>simp add: p k\<close>)
  show "l \<le> p" "p mod 4 = 0" using l unfolding p by simp_all
qed

lemma stun_parse_loop_ok:
  assumes "p + unat n = length buf" and "unat n mod 4 = 0" and "\<not> ends_in_channel buf"
  shows "stun_parse_loop p n buf m \<noteq> None"
  using assms
proof (induction "unat n" arbitrary: p n m rule: less_induct)
  case less
  let ?len = "unat (be16 (sub (p + 2) 2 buf))"
  let ?ty = "be16 (sub p 2 buf)"
  let ?pad = "if ?len mod 4 > 0 then ?len + (4 - ?len mod 4) else ?len"
  show ?case
  proof (cases "n = 0 \<or> ?len + 4 > unat n")
    case True
    have "unat n = 0 \<or> 4 \<le> unat n" using less.prems(2) by (metis mod_less not_less)
    then have "unat n = 0 \<or> p + 4 \<le> length buf" using less.prems(1) by linarith
    then show ?thesis using True
      by (auto simp: stun_parse_loop.simps [of p n buf m] buf_rd_def sub_halves Let_def unat_eq_zero)
  next
    case False
    then have n: "n \<noteq> 0" "?len + 4 \<le> unat n" by auto
    have pad: "?pad + 4 \<le> unat n" "?len \<le> ?pad" "?pad mod 4 = 0" using padded_attr [OF n(2) less.prems(2)] .
    have rd: "buf_rd p 4 buf = Some (sub p 4 buf)" using less.prems(1) n(2) by (simp add: buf_rd_def)
    have "stun_parse_attr ?ty ?len (p + 4) buf m \<noteq> None"
    proof (rule stun_parse_attr_ok)
      show "p + 4 + ?len \<le> length buf" using less.prems(1) n(2) by simp
      show "?len \<noteq> 0 \<or> p + 4 + 4 \<le> length buf" if "?ty = TA_CHANNELNUMBER"
      proof (rule ccontr)
        assume c: "\<not> (?len \<noteq> 0 \<or> p + 4 + 4 \<le> length buf)"
        then have "unat n < 8" "4 \<le> unat n" using less.prems(1) n(2) by linarith+
        then have "unat n = 4" using less.prems(2) by presburger
        then have "length buf - 4 = p" "length buf - 2 = p + 2" using less.prems(1) by simp_all
        then show False using less.prems(3) that c by (simp add: ends_in_channel_def unat_eq_zero)
      qed
    qed
    then obtain r where r: "stun_parse_attr ?ty ?len (p + 4) buf m = Some r" by blast
    have un: "unat (n - 4 - of_nat ?pad) = unat n - (4 + ?pad)"
    proof -
      have "n - 4 - of_nat ?pad = of_nat (unat n - (4 + ?pad))" using pad(1) by (simp add: of_nat_diff)
      moreover have "unat n - (4 + ?pad) < 2 ^ 32" using unsigned_less [of n, where 'a = nat] by simp
      ultimately show ?thesis by (simp only: unat_of_nat_u32)
    qed
    have next_ok: "stun_parse_loop (p + 4 + ?pad) (n - 4 - of_nat ?pad) buf m' \<noteq> None" for m'
    proof (rule less.hyps)
      show "unat (n - 4 - of_nat ?pad) < unat n" using un pad(1) by linarith
      show "p + 4 + ?pad + unat (n - 4 - of_nat ?pad) = length buf" using un pad(1) less.prems(1) by linarith
      show "unat (n - 4 - of_nat ?pad) mod 4 = 0" unfolding un
        using mod_diff_left_eq dvd_diff_nat [of 4 "unat n" "4 + ?pad"] pad(3) less.prems(2) by (simp add: mod_eq_0_iff_dvd)
    qed (rule less.prems(3))
    have len: "\<not> ?len + 4 > unat n" using n(2) by simp
    show ?thesis
      unfolding stun_parse_loop.simps [of p n buf m] if_not_P [OF n(1)] rd bind.bind_lunit Let_def sub_halves
        if_not_P [OF len] r
      by (cases r) (simp_all only: option.case next_ok option.distinct not_False_eq_True)
  qed
qed



text \<open>A message whose last attribute lacks its padding is read past its end.\<close>

lemma stun_missing_padding:
  "stunParseMessage ([0, 1, 0, 5] @ replicate 16 0 @ [0x80, 0x23, 0, 1, 7]) = None"
proof -
  define b :: "u8 list" where "b = [0, 1, 0, 5] @ replicate 16 0 @ [0x80, 0x23, 0, 1, 7]"
  have v: "buf_rd 20 4 b = Some [0x80, 0x23, 0, 1]" "buf_rd 28 4 b = None" "sub 2 2 b = [0, 5]" "length b = 25"
    by (simp_all add: b_def buf_rd_def sub_def numeral_eq_Suc)
  have e: "be16 [0, 1] = 1" "be16 [0x80, 0x23] = 0x8023" "be16 [0, 5] = 5" by code_simp+
  have a: "stun_parse_attr 0x8023 (Suc 0) 24 b m = Some (Some m)" for m by (simp add: stun_parse_attr_def stun_types)
  have "stun_parse_loop 20 5 b m = None" for m
    unfolding stun_parse_loop.simps [of 20 5] v bind.bind_lunit Let_def
    by (simp add: e a stun_parse_loop.simps [of 28] v)
  then have "stunParseMessage b = None" by (simp add: stunParseMessage_def v e Let_def)
  then show ?thesis by (simp only: b_def)
qed

end
