(* ===== verification/Stun_Exchange.thy ===== *)
theory Stun_Exchange
  imports Stun_Message
begin

text \<open>
  Requests, answers and the detection of the kind of NAT, \<^verbatim>\<open>oRTP/src/stun.c\<close>: the request a
  client builds, the answer of the server, the reading of the answer, and the loop of
  \<^verbatim>\<open>stunNatType\<close> with its decision. The sockets (\<^verbatim>\<open>stun_udp.c\<close>), the clock and
  the random numbers are inputs of the definitions.
\<close>

section \<open>Requests\<close>

definition ChangeIpFlag :: u32 where "ChangeIpFlag = 0x04"
definition ChangePortFlag :: u32 where "ChangePortFlag = 0x02"
definition STUN_REQUEST :: u16 where "STUN_REQUEST = 0x0000"
definition STUN_SUCCESS_RESP :: u16 where "STUN_SUCCESS_RESP = 0x0100"
definition STUN_ERR_RESP :: u16 where "STUN_ERR_RESP = 0x0110"
definition STUN_METHOD_BINDING :: u16 where "STUN_METHOD_BINDING = 0x0001"
definition STUN_MAX_MESSAGE_SIZE :: nat where "STUN_MAX_MESSAGE_SIZE = 2048"

lemmas stun_methods = STUN_REQUEST_def STUN_SUCCESS_RESP_def STUN_ERR_RESP_def STUN_METHOD_BINDING_def

text \<open>\<open>rnd\<close> gives the three values of \<^verbatim>\<open>stunRand\<close>, an identifier of 0 leaves them as they are.\<close>

definition stunBuildReqSimple :: "(nat \<Rightarrow> u32) \<Rightarrow> u8 list option \<Rightarrow> bool \<Rightarrow> bool \<Rightarrow> u32 \<Rightarrow> stun_message" where
  "stunBuildReqSimple rnd uname changePort changeIp ident =
     (let tr = concat (map (\<lambda>i. le32_bytes (rnd i)) [0..<3]);
          tr = (if ident \<noteq> 0 then tr[0 := ucast ident] else tr);
          msg = stun_zero\<lparr>msg_hdr := \<lparr>sh_type = STUN_METHOD_BINDING OR STUN_REQUEST, sh_length = 0,
             sh_cookie = STUN_COOKIE, sh_tr_id = tr\<rparr>\<rparr>;
          msg = (if changePort \<or> changeIp
             then msg\<lparr>change_request := Some ((if changeIp then ChangeIpFlag else 0) OR
                 (if changePort then ChangePortFlag else 0))\<rparr>
             else msg)
      in if stun_sized uname then msg\<lparr>username := uname\<rparr> else msg)"

text \<open>The flags of a test: change of the port and of the address.\<close>

definition test_flags :: "nat \<Rightarrow> (bool \<times> bool) option" where
  "test_flags n = (if n \<in> {1, 10, 11} then Some (False, False) else if n = 2 then Some (False, True)
     else if n = 3 then Some (True, False) else if n = 4 then Some (False, True) else None)"

text \<open>The datagram that is sent, if the test is known.\<close>

definition stunSendTest ::
  "(u8 list \<Rightarrow> u8 list \<Rightarrow> u8 list \<Rightarrow> u8 list \<Rightarrow> u8 list) \<Rightarrow> (u8 list \<Rightarrow> u8 list \<Rightarrow> u8 list) \<Rightarrow> (nat \<Rightarrow> u32) \<Rightarrow>
   u8 list option \<Rightarrow> u8 list option \<Rightarrow> nat \<Rightarrow> u8 list option option" where
  "stunSendTest hmac_long hmac_short rnd uname pw testNum =
     (case test_flags testNum of
        None \<Rightarrow> Some None
      | Some (changePort, changeIP) \<Rightarrow> do {
          b \<leftarrow> stunEncodeMessage hmac_long hmac_short (stunBuildReqSimple rnd uname changePort changeIP (of_nat testNum))
            STUN_MAX_MESSAGE_SIZE pw;
          Some (Some b) })"

section \<open>The server\<close>

text \<open>The text of the reason is copied, but its size, which is what is sent, stays zero.\<close>

definition stunCreateErrorResponse :: "stun_message \<Rightarrow> u8 \<Rightarrow> u8 \<Rightarrow> stun_message" where
  "stunCreateErrorResponse response cl n = response\<lparr>
     msg_hdr := (msg_hdr response)\<lparr>sh_type := STUN_METHOD_BINDING OR STUN_ERR_RESP\<rparr>,
     error_code := Some \<lparr>ae_pad = 0, ae_class = cl, ae_number = n, ae_reason = []\<rparr>\<rparr>"

record stun_answer =
  an_resp :: stun_message
  an_destination :: "stun_address4 option"  \<comment> \<open>left as it was when \<open>None\<close>\<close>
  an_change_port :: bool
  an_change_ip :: bool

definition addr4_zero :: stun_address4 where "addr4_zero = \<lparr>sa_port = 0, sa_addr = 0\<rparr>"

definition addr4_of :: "stun_atr_address4 option \<Rightarrow> stun_address4" where
  "addr4_of a = (case a of None \<Rightarrow> addr4_zero | Some a \<Rightarrow> aa_ipv4 a)"

definition atr_address :: "u16 \<Rightarrow> u32 \<Rightarrow> stun_atr_address4" where
  "atr_address port addr = \<lparr>aa_pad = 0, aa_family = 0, aa_ipv4 = \<lparr>sa_port = port, sa_addr = addr\<rparr>\<rparr>"

definition server_name :: "u8 list" where
  "server_name = [0x6f, 0x52, 0x54, 0x50, 0x20, 0x20, 0x20, 0x30, 0x2e, 0x39, 0x39, 0]"

text \<open>
  \<^verbatim>\<open>sscanf\<close> with \<open>%x\<close>: white space, a sign, a prefix, digits. Without digits the variable
  is not set, a value of more than 32 bits is undefined: \<open>None\<close>.
\<close>

definition hex_value :: "u8 \<Rightarrow> nat option" where
  "hex_value c = (let n = unat c in
     if 48 \<le> n \<and> n \<le> 57 then Some (n - 48) else if 65 \<le> n \<and> n \<le> 70 then Some (n - 55)
     else if 97 \<le> n \<and> n \<le> 102 then Some (n - 87) else None)"

fun hex_digits :: "nat \<Rightarrow> u8 list \<Rightarrow> nat" where
  "hex_digits acc [] = acc"
| "hex_digits acc (c # cs) = (case hex_value c of None \<Rightarrow> acc | Some d \<Rightarrow> hex_digits (16 * acc + d) cs)"

definition scan_hex :: "u8 list \<Rightarrow> u32 option" where
  "scan_hex s =
     (let s = dropWhile (\<lambda>c. c = 32 \<or> 9 \<le> c \<and> c \<le> 13) s;
          neg = (s \<noteq> [] \<and> hd s = 45);
          s = (if s \<noteq> [] \<and> (hd s = 45 \<or> hd s = 43) then tl s else s);
          s = (if take 2 s \<in> {[48, 120], [48, 88]} then drop 2 s else s)
      in if s = [] \<or> hex_value (hd s) = None \<or> hex_digits 0 s \<ge> 2 ^ 32 then None
         else Some (if neg then - of_nat (hex_digits 0 s) else of_nat (hex_digits 0 s)))"

definition c_str :: "u8 list \<Rightarrow> u8 list" where "c_str s = takeWhile (\<lambda>c. c \<noteq> 0) s"

text \<open>
  The check of a request with a hash: the answer so far, or the error to send. The hash is compared with
  the first bytes of the message.
\<close>

definition check_request ::
  "(u8 list \<Rightarrow> u8 list \<Rightarrow> u8 list) \<Rightarrow> u8 list \<Rightarrow> stun_message \<Rightarrow> stun_message \<Rightarrow> stun_message + stun_message" where
  "check_request hmac buf req resp =
     (if message_integrity req = None then Inr resp
      else case username req of
          None \<Rightarrow> Inl (stunCreateErrorResponse resp 4 32)
        | Some u \<Rightarrow>
            if c_str u = [0x74, 0x65, 0x73, 0x74] then
              if take 20 buf \<noteq> take 20 (hmac (take (length buf - 20 - 4) buf) [0x31, 0x32, 0x33, 0x34])
              then Inl (stunCreateErrorResponse resp 4 3)
              else Inr (resp\<lparr>message_integrity := Some (replicate 20 0), username := Some u\<rparr>)
            else Inr resp)"

definition stunServerProcessMsg ::
  "(u8 list \<Rightarrow> u8 list \<Rightarrow> u8 list) \<Rightarrow> u8 list \<Rightarrow> stun_address4 \<Rightarrow> stun_address4 \<Rightarrow> stun_address4 \<Rightarrow>
   stun_answer option option" where
  "stunServerProcessMsg hmac buf from myAddr altAddr = do {
     (ok, req) \<leftarrow> stunParseMessage buf;
     if \<not> ok then Some None
     else if sh_type (msg_hdr req) = STUN_METHOD_BINDING OR STUN_REQUEST then
       (case check_request hmac buf req stun_zero of
          Inl resp \<Rightarrow> Some (Some \<lparr>an_resp = resp, an_destination = None, an_change_port = False, an_change_ip = False\<rparr>)
        | Inr resp \<Rightarrow>
            let mapped = addr4_of (mapped_address req);
                respondTo = addr4_of (response_address req);
                flags = (case change_request req of None \<Rightarrow> 0 | Some v \<Rightarrow> v);
                respondTo = (if sa_port respondTo = 0 then from else respondTo);
                mapped = (if sa_port mapped = 0 then from else mapped);
                changeIp = (flags AND ChangeIpFlag \<noteq> 0);
                changePort = (flags AND ChangePortFlag \<noteq> 0);
                resp = resp\<lparr>msg_hdr := \<lparr>sh_type = STUN_METHOD_BINDING OR STUN_SUCCESS_RESP, sh_length = 0,
                    sh_cookie = be32 (le32_bytes (sh_cookie (msg_hdr req))), sh_tr_id = sh_tr_id (msg_hdr req)\<rparr>,
                  xor_mapped_address := Some (atr_address (sa_port mapped XOR ucast (drop_bit 16 STUN_COOKIE))
                    (sa_addr mapped XOR STUN_COOKIE)),
                  mapped_address := Some (atr_address (sa_port mapped) (sa_addr mapped)),
                  source_address := Some (atr_address (sa_port (if changePort then altAddr else myAddr))
                    (sa_addr (if changeIp then altAddr else myAddr))),
                  changed_address := Some (atr_address (sa_port altAddr) (sa_addr altAddr))\<rparr>;
                resp = (if stun_sized (username req) then resp\<lparr>username := username req\<rparr> else resp);
                resp = resp\<lparr>software_name := Some server_name\<rparr>;
                answer = (\<lambda>resp. Some (Some \<lparr>an_resp = resp, an_destination = Some respondTo,
                  an_change_port = changePort, an_change_ip = changeIp\<rparr>))
            in case username req of
                 Some u \<Rightarrow> if length u > 64 then do {
                     source \<leftarrow> scan_hex (c_str u);
                     answer (resp\<lparr>reflected_from := Some (atr_address 0 source)\<rparr>) }
                   else answer resp
               | None \<Rightarrow> answer resp)
     else Some None }"

section \<open>The client reads its address\<close>

text \<open>\<^verbatim>\<open>stunOpenSocket\<close> and \<^verbatim>\<open>stunTest\<close> with a datagram received.\<close>

definition mapped_result :: "stun_message \<Rightarrow> stun_address4" where
  "mapped_result resp = (case xor_mapped_address resp of
      Some a \<Rightarrow> aa_ipv4 a
    | None \<Rightarrow> addr4_of (mapped_address resp))"

definition stunOpenSocket :: "u8 list \<Rightarrow> stun_address4 option option" where
  "stunOpenSocket msg = do {
     (ok, resp) \<leftarrow> stunParseMessage msg;
     if \<not> ok then Some None else Some (Some (mapped_result resp)) }"

definition stunTest :: "u8 list \<Rightarrow> (bool \<times> stun_address4 \<times> stun_address4) option" where
  "stunTest msg = do {
     (ok, resp) \<leftarrow> stunParseMessage msg;
     Some (ok, addr4_of (mapped_address resp), addr4_of (changed_address resp)) }"

section \<open>An exchange\<close>

lemma stun_encode_exists:
  assumes ok: "stun_encodable msg" and fit: "length (stun_body msg) + 52 \<le> bufLen"
    and len: "\<And>c u r p. length (hl c u r p) = 20" "\<And>c p. length (hs c p) = 20"
  shows "\<exists>b. stunEncodeMessage hl hs msg bufLen pw = Some b"
proof -
  let ?hash = "stun_hash hl hs msg pw (stun_hdr msg (length (stun_body msg) + 24) @ stun_body msg)"
  let ?m = "stun_body msg @ enc_opt encodeAtrIntegrity ?hash"
  have lh: "length x = 20" if "?hash = Some x" for x
    using that len by (auto simp: stun_hash_def split: if_splits)
  then have "length (enc_opt encodeAtrIntegrity ?hash) \<le> 24"
    by (cases ?hash) (simp_all add: enc_opt_def length_enc_integrity)
  note bounds = this fit length_stun_hdr [OF ok]
  obtain j where j: "stun_integrity hl hs msg pw (stun_hdr msg 0 @ stun_body msg) = stun_hdr msg j @ ?m"
    using stun_integrity_seg [OF ok] by fast
  obtain k where k: "stun_add_fingerprint msg (stun_hdr msg j @ ?m) = stun_hdr msg k @ ?m @
      (if fingerprint msg = None then []
       else encodeAtrFingerprint (stunCalculateFingerprint (stun_hdr msg (length ?m + 8) @ ?m)))"
    using stun_fingerprint_seg [OF ok] by fast
  have h0: "stun_header msg = stun_hdr msg 0" by (simp add: stun_header_def stun_hdr_def)
  show ?thesis
    unfolding stunEncodeMessage_def Let_def h0 j k put_len_hdr
    using bounds by (auto simp: length_enc_fingerprint)
qed

definition short_uname :: "u8 list option \<Rightarrow> bool" where
  "short_uname u = (case u of None \<Rightarrow> True | Some s \<Rightarrow> length s \<le> 64)"

lemma test_flagsD:
  "test_flags n = Some (cp, ci) \<Longrightarrow> n \<in> {1, 2, 3, 4, 10, 11} \<and> cp = (n = 3) \<and> ci = (n = 2 \<or> n = 4)"
  by (auto simp: test_flags_def split: if_splits)

lemma length_string_attr: "length s \<le> 64 \<Longrightarrow> length (encodeAtrString ty s) \<le> 71"
  by (auto simp: encodeAtrString_def length_stun_padding)

lemma length_uname: "short_uname u \<Longrightarrow> length (enc_opt (encodeAtrString ty) u) \<le> 71"
  using length_string_attr by (auto simp: enc_opt_def short_uname_def split: option.split)

lemma length_attrs:
  "length (encodeAtrAddress4 ty a) = 12" "length (encodeAtrChangeRequest v) = 8"
  by (simp_all add: encodeAtrAddress4_def encodeAtrChangeRequest_def)

text \<open>The request of a test, and what the server reads of it.\<close>

lemma build_request:
  fixes rnd cp ci ident
  assumes "short_uname u"
  defines "m \<equiv> stunBuildReqSimple rnd u cp ci ident"
  shows "stun_encodable m" and "length (stun_body m) \<le> 79" and "message_integrity m = None"
    and "mapped_address m = None" and "response_address m = None" and "fingerprint m = None"
    and "username m = (if stun_sized u then u else None)"
    and "(case change_request m of None \<Rightarrow> 0 | Some v \<Rightarrow> v) =
      (if ci then ChangeIpFlag else 0) OR (if cp then ChangePortFlag else 0)"
    and "sh_type (msg_hdr m) = STUN_METHOD_BINDING OR STUN_REQUEST" and "sh_cookie (msg_hdr m) = STUN_COOKIE"
    and "ident \<noteq> 0 \<Longrightarrow> sh_tr_id (msg_hdr m) ! 0 = ucast ident"
proof -
  have l: "length (concat (map (\<lambda>i. le32_bytes (rnd i)) [0..<3])) = 12" by (simp add: numeral_eq_Suc)
  have s: "short_string u" using assms(1)
    by (auto simp: short_uname_def short_string_def STUN_MAX_STRING_def split: option.splits)
  note defs = m_def stunBuildReqSimple_def Let_def stun_zero_def
  show "stun_encodable m" using s l by (simp add: defs stun_encodable_def short_string_def)
  show "length (stun_body m) \<le> 79"
    using length_uname [OF assms(1), of SA_USERNAME]
    by (simp add: defs stun_body_def enc_opt_def length_attrs split: option.splits)
  show "ident \<noteq> 0 \<Longrightarrow> sh_tr_id (msg_hdr m) ! 0 = ucast ident"
    using l by (simp add: defs)
qed (simp_all add: m_def stunBuildReqSimple_def Let_def stun_zero_def)

definition binding_answer ::
  "u8 list \<Rightarrow> u8 list option \<Rightarrow> stun_address4 \<Rightarrow> stun_address4 \<Rightarrow> stun_address4 \<Rightarrow> bool \<Rightarrow> bool \<Rightarrow> stun_message" where
  "binding_answer tr uname from myAddr altAddr cp ci = stun_zero\<lparr>
     msg_hdr := \<lparr>sh_type = STUN_METHOD_BINDING OR STUN_SUCCESS_RESP, sh_length = 0, sh_cookie = STUN_COOKIE, sh_tr_id = tr\<rparr>,
     xor_mapped_address := Some (atr_address (sa_port from XOR ucast (drop_bit 16 STUN_COOKIE)) (sa_addr from XOR STUN_COOKIE)),
     mapped_address := Some (atr_address (sa_port from) (sa_addr from)),
     source_address := Some (atr_address (sa_port (if cp then altAddr else myAddr)) (sa_addr (if ci then altAddr else myAddr))),
     changed_address := Some (atr_address (sa_port altAddr) (sa_addr altAddr)),
     username := (if stun_sized uname then uname else None), software_name := Some server_name\<rparr>"

lemma cookie_back: "be32 (le32_bytes (le32 (be32_bytes c))) = c"
  by (simp add: le32_bytes_le32)

lemma change_flags:
  "((if ci then ChangeIpFlag else 0) OR (if cp then ChangePortFlag else 0)) AND ChangeIpFlag \<noteq> 0 \<longleftrightarrow> ci"
  "((if ci then ChangeIpFlag else 0) OR (if cp then ChangePortFlag else 0)) AND ChangePortFlag \<noteq> 0 \<longleftrightarrow> cp"
  by (simp_all add: ChangeIpFlag_def ChangePortFlag_def)

lemma server_answers:
  fixes rnd cp ci ident
  assumes u: "short_uname u"
  defines "m \<equiv> stunBuildReqSimple rnd u cp ci ident"
  assumes p: "stunParseMessage req = Some (True, stun_received hl hs pw m req)"
  shows "stunServerProcessMsg hm req peer my alt = Some (Some
    \<lparr>an_resp = binding_answer (sh_tr_id (msg_hdr m)) u peer my alt cp ci, an_destination = Some peer,
      an_change_port = cp, an_change_ip = ci\<rparr>)"
proof -
  let ?r = "stun_received hl hs pw m req"
  note b = build_request [where rnd = rnd and cp = cp and ci = ci and ident = ident, OF u, folded m_def]
  have r: "message_integrity ?r = None" "sh_type (msg_hdr ?r) = STUN_METHOD_BINDING OR STUN_REQUEST"
    "mapped_address ?r = None" "response_address ?r = None" "username ?r = (if stun_sized u then u else None)"
    "(case change_request ?r of None \<Rightarrow> 0 | Some v \<Rightarrow> v) = (if ci then ChangeIpFlag else 0) OR (if cp then ChangePortFlag else 0)"
    "be32 (le32_bytes (sh_cookie (msg_hdr ?r))) = STUN_COOKIE" "sh_tr_id (msg_hdr ?r) = sh_tr_id (msg_hdr m)"
    using b by (simp_all add: stun_received_def stun_hash_def Let_def cookie_back)
  have un: "username ?r = Some v \<Longrightarrow> length v \<le> 64" for v
    using u r(5) by (auto simp: short_uname_def split: if_splits)
  have c: "check_request hm req ?r stun_zero = Inr stun_zero" by (simp add: check_request_def r)
  show ?thesis
  proof (cases "stun_sized u")
    case True
    then obtain v where v: "u = Some v" by (cases u) (simp_all add: stun_sized_def)
    then have "username ?r = Some v" "\<not> length v > 64" using r(5) un True by auto
    then show ?thesis using True v
      by (simp add: stunServerProcessMsg_def p c [unfolded stun_zero_def] r(2-4,6-8) Let_def change_flags addr4_of_def addr4_zero_def binding_answer_def
          stun_zero_def)
  next
    case False
    then have "username ?r = None" using r(5) by simp
    then show ?thesis using False
      by (simp add: stunServerProcessMsg_def p c [unfolded stun_zero_def] r(2-4,6-8) Let_def change_flags addr4_of_def addr4_zero_def binding_answer_def
          stun_zero_def stun_sized_def)
  qed
qed

lemma answer_read:
  fixes tr :: "u8 list" and peer my alt cp ci
  assumes u: "short_uname u" and tr: "length tr = 12"
    and len: "\<And>c u r p. length (hl c u r p) = 20" "\<And>c p. length (hs c p) = 20"
  defines "a \<equiv> binding_answer tr u peer my alt cp ci"
  shows "\<exists>b r. stunEncodeMessage hl hs a STUN_MAX_MESSAGE_SIZE pw = Some b \<and> stunParseMessage b = Some (True, r) \<and>
    sh_tr_id (msg_hdr r) = tr \<and> mapped_result r = peer \<and> addr4_of (mapped_address r) = peer \<and>
    addr4_of (changed_address r) = alt"
proof -
  have s: "short_string u" using u
    by (auto simp: short_uname_def short_string_def STUN_MAX_STRING_def split: option.splits)
  have ok: "stun_encodable a" using s tr
    by (simp add: a_def binding_answer_def stun_zero_def stun_encodable_def short_string_def server_name_def STUN_MAX_STRING_def)
  have "length (stun_body a) + 52 \<le> STUN_MAX_MESSAGE_SIZE"
    using length_uname [OF u, of SA_USERNAME]
    by (auto simp: a_def binding_answer_def stun_zero_def stun_body_def enc_opt_def length_attrs encodeAtrString_def
        stun_padding_def server_name_def STUN_MAX_MESSAGE_SIZE_def)
  then have "\<exists>b. stunEncodeMessage hl hs a STUN_MAX_MESSAGE_SIZE pw = Some b"
    by (rule stun_encode_exists [OF ok]) (rule len)+
  then obtain b where b: "stunEncodeMessage hl hs a STUN_MAX_MESSAGE_SIZE pw = Some b" by blast
  have "stunParseMessage b = Some (True, stun_received hl hs pw a b)"
    by (rule round_trip [OF b _ ok]) (simp_all add: STUN_MAX_MESSAGE_SIZE_def len)
  moreover have "sh_tr_id (msg_hdr (stun_received hl hs pw a b)) = tr"
    "mapped_result (stun_received hl hs pw a b) = peer"
    "addr4_of (mapped_address (stun_received hl hs pw a b)) = peer"
    "addr4_of (changed_address (stun_received hl hs pw a b)) = alt"
    by (simp_all add: a_def binding_answer_def stun_received_def Let_def mapped_result_def addr4_of_def atr_address_def
        xor_address_def ipv4_family_def xor.assoc)
  ultimately show ?thesis using b by blast
qed

text \<open>
  C18. A binding exchange. For every known test the client sends a datagram that the server answers to
  its sender, with the changes of address and port that the test asks for; the client reads in the answer the
  address it was seen at, in the exclusive-or form as in the plain one, the other address of the server, and
  the number of its test. Nothing is assumed of the addresses, the random numbers and the server's hash; the
  user name, if any, has at most 64 bytes.
\<close>

theorem binding_exchange:
  assumes "test_flags n = Some (changePort, changeIp)" and "short_uname uname"
    and "\<And>c u r p. length (hmac_long c u r p) = 20" and "\<And>c p. length (hmac_short c p) = 20"
  shows "\<exists>req ans b r. stunSendTest hmac_long hmac_short rnd uname pw n = Some (Some req) \<and>
    stunServerProcessMsg hmac req client myAddr altAddr = Some (Some ans) \<and>
    an_destination ans = Some client \<and> an_change_port ans = changePort \<and> an_change_ip ans = changeIp \<and>
    stunEncodeMessage hmac_long hmac_short (an_resp ans) STUN_MAX_MESSAGE_SIZE pw2 = Some b \<and>
    stunOpenSocket b = Some (Some client) \<and> stunTest b = Some (True, client, altAddr) \<and>
    stunParseMessage b = Some (True, r) \<and> sh_tr_id (msg_hdr r) ! 0 = of_nat n"
proof -
  note len = assms(3,4)
  define m where "m = stunBuildReqSimple rnd uname changePort changeIp (of_nat n)"
  note q = build_request [where rnd = rnd and cp = changePort and ci = changeIp and ident = "of_nat n", OF assms(2), folded m_def]
  have n: "(of_nat n :: u32) \<noteq> 0" "ucast (of_nat n :: u32) = (of_nat n :: u8)"
    using test_flagsD [OF assms(1)] by auto
  have "length (stun_body m) + 52 \<le> STUN_MAX_MESSAGE_SIZE" using q(2) by (simp add: STUN_MAX_MESSAGE_SIZE_def)
  then have "\<exists>req. stunEncodeMessage hmac_long hmac_short m STUN_MAX_MESSAGE_SIZE pw = Some req"
    by (rule stun_encode_exists [OF q(1)]) (rule len)+
  then obtain req where req: "stunEncodeMessage hmac_long hmac_short m STUN_MAX_MESSAGE_SIZE pw = Some req" by blast
  have "stunParseMessage req = Some (True, stun_received hmac_long hmac_short pw m req)"
    by (rule round_trip [OF req _ q(1)]) (simp_all add: STUN_MAX_MESSAGE_SIZE_def len)
  note ans = server_answers [OF assms(2) this [unfolded m_def], folded m_def, where hm = hmac and peer = client and my = myAddr and alt = altAddr]
  have tr: "length (sh_tr_id (msg_hdr m)) = 12" using q(1) by (simp add: stun_encodable_def)
  have "\<exists>b r. stunEncodeMessage hmac_long hmac_short
        (binding_answer (sh_tr_id (msg_hdr m)) uname client myAddr altAddr changePort changeIp) STUN_MAX_MESSAGE_SIZE pw2 = Some b \<and>
      stunParseMessage b = Some (True, r) \<and> sh_tr_id (msg_hdr r) = sh_tr_id (msg_hdr m) \<and> mapped_result r = client \<and>
      addr4_of (mapped_address r) = client \<and> addr4_of (changed_address r) = altAddr"
    by (rule answer_read [OF assms(2) tr]) (rule len)+
  then obtain b r where b: "stunEncodeMessage hmac_long hmac_short
      (binding_answer (sh_tr_id (msg_hdr m)) uname client myAddr altAddr changePort changeIp) STUN_MAX_MESSAGE_SIZE pw2 = Some b"
    and r: "stunParseMessage b = Some (True, r)" "sh_tr_id (msg_hdr r) = sh_tr_id (msg_hdr m)" "mapped_result r = client"
      "addr4_of (mapped_address r) = client" "addr4_of (changed_address r) = altAddr" by blast
  have s: "stunSendTest hmac_long hmac_short rnd uname pw n = Some (Some req)"
    using req by (simp add: stunSendTest_def assms(1) m_def)
  show ?thesis
    using s ans b r q(11) [OF n(1)] n(2) by (fastforce simp: stunOpenSocket_def stunTest_def)
qed

lemma binding_exchange_witness:
  "test_flags 2 = Some (False, True) \<and> short_uname (Some []) \<and>
    (\<exists>req ans. stunSendTest demo_long demo_short (\<lambda>i. 7) (Some []) (Some []) 2 = Some (Some req) \<and>
       stunServerProcessMsg demo_short req \<lparr>sa_port = 0, sa_addr = 9\<rparr> addr4_zero addr4_zero = Some (Some ans) \<and>
       an_destination ans = Some \<lparr>sa_port = 0, sa_addr = 9\<rparr> \<and> an_change_ip ans)"
proof -
  have t: "test_flags 2 = Some (False, True)" "short_uname (Some [])"
    by (simp_all add: test_flags_def short_uname_def)
  note ex = binding_exchange [where hmac_long = demo_long and hmac_short = demo_short and rnd = "\<lambda>i. 7" and pw = "Some []"
    and hmac = demo_short and client = "\<lparr>sa_port = 0, sa_addr = 9\<rparr>" and myAddr = addr4_zero and altAddr = addr4_zero, OF t]
  show ?thesis using ex t by (fastforce simp: demo_long_def demo_short_def)
qed

end
