(* ===== verification/Stun_Nat.thy ===== *)
theory Stun_Nat
  imports Stun_Exchange
begin

text \<open>
  The kind of NAT a client is behind, \<^verbatim>\<open>stunNatType\<close> of \<^verbatim>\<open>oRTP/src/stun.c\<close>:
  the loop that sends the tests and reads the answers on two sockets, as a function over the outcomes of
  \<^verbatim>\<open>select\<close> with the time of each, and the decision. A datagram that cannot be received
  (the code goes on with what is in its buffer) is not an outcome of the model.
\<close>

section \<open>The loop\<close>

datatype nat_type = StunTypeUnknown | StunTypeOpen | StunTypeConeNat | StunTypeRestrictedNat
  | StunTypePortRestrictedNat | StunTypeSymNat | StunTypeSymFirewall | StunTypeBlocked | StunTypeFailure

datatype select_outcome = Select_error | Select_timeout | Readable "u8 list option" "u8 list option"

record nat_state =
  respTestI :: bool
  respTestI2 :: bool
  respTestII :: bool
  respTestIII :: bool
  respTestHairpin :: bool
  mappedIpSame :: bool
  testImappedAddr :: stun_address4
  testI2dest :: stun_address4
  n_count :: nat
  n_elapsed :: u64
  n_preserve :: "bool option"
  n_saddr :: "stun_address4 option"
  n_sent :: "(nat \<times> stun_address4 \<times> nat) list"  \<comment> \<open>socket, destination, test\<close>

text \<open>The outputs that the caller did not ask for are \<open>None\<close> all along.\<close>

definition nat_start :: "stun_address4 \<Rightarrow> bool option \<Rightarrow> stun_address4 option \<Rightarrow> nat_state" where
  "nat_start dest preserve saddr = \<lparr>respTestI = False, respTestI2 = False, respTestII = False, respTestIII = False,
     respTestHairpin = False, mappedIpSame = True, testImappedAddr = addr4_zero, testI2dest = dest, n_count = 0,
     n_elapsed = 1, n_preserve = preserve, n_saddr = saddr, n_sent = []\<rparr>"

definition nat_send :: "nat \<Rightarrow> stun_address4 \<Rightarrow> nat \<Rightarrow> nat_state \<Rightarrow> nat_state" where
  "nat_send fd to test st = st\<lparr>n_sent := n_sent st @ [(fd, to, test)]\<rparr>"

definition addr4_valid :: "stun_address4 \<Rightarrow> bool" where
  "addr4_valid a \<longleftrightarrow> sa_addr a \<noteq> 0 \<and> sa_port a \<noteq> 0"

definition nat_timeout :: "stun_address4 \<Rightarrow> nat_state \<Rightarrow> nat_state" where
  "nat_timeout dest st =
     (let st = st\<lparr>n_count := n_count st + 1\<rparr>;
          st = (if \<not> respTestI st then nat_send 1 dest 1 st else st);
          st = (if \<not> respTestI2 st \<and> respTestI st \<and> addr4_valid (testI2dest st) then nat_send 1 (testI2dest st) 10 st else st);
          st = (if \<not> respTestII st then nat_send 2 dest 2 st else st);
          st = (if \<not> respTestIII st then nat_send 2 dest 3 st else st)
      in if respTestI st \<and> \<not> respTestHairpin st \<and> addr4_valid (testImappedAddr st)
         then nat_send 1 (testImappedAddr st) 11 st else st)"

text \<open>A message that was received, told by the first byte of its transaction.\<close>

definition answer_id :: "stun_message \<Rightarrow> u8" where
  "answer_id r = sh_tr_id (msg_hdr r) ! 0"

definition nat_receive :: "int \<Rightarrow> stun_message \<Rightarrow> nat_state \<Rightarrow> nat_state" where
  "nat_receive port resp st =
     (if answer_id resp = 1 then
        (let st = (if \<not> respTestI st then
              let a = addr4_of (mapped_address resp)
              in st\<lparr>testImappedAddr := a, n_preserve := map_option (\<lambda>p. uint (sa_port a) = port) (n_preserve st),
                   testI2dest := (testI2dest st)\<lparr>sa_addr := sa_addr (addr4_of (changed_address resp))\<rparr>,
                   n_saddr := map_option (\<lambda>s. a) (n_saddr st), n_count := 0\<rparr>
            else st)
         in st\<lparr>respTestI := True\<rparr>)
      else if answer_id resp = 2 then st\<lparr>respTestII := True\<rparr>
      else if answer_id resp = 3 then st\<lparr>respTestIII := True\<rparr>
      else if answer_id resp = 10 then
        (let st = (if \<not> respTestI2 st then
              let a = addr4_of (mapped_address resp)
              in st\<lparr>mappedIpSame := (sa_addr a = sa_addr (testImappedAddr st) \<and> sa_port a = sa_port (testImappedAddr st))\<rparr>
            else st)
         in st\<lparr>respTestI2 := True\<rparr>)
      else if answer_id resp = 11 then st\<lparr>respTestHairpin := True\<rparr>
      else st)"

definition nat_datagram :: "int \<Rightarrow> u8 list option \<Rightarrow> nat_state \<Rightarrow> nat_state option" where
  "nat_datagram port d st = (case d of None \<Rightarrow> Some st
     | Some bs \<Rightarrow> do { (ok, resp) \<leftarrow> stunParseMessage bs; Some (nat_receive port resp st) })"

text \<open>\<open>None\<close> when the outcomes are used up before the loop ends.\<close>

fun nat_loop ::
  "int \<Rightarrow> stun_address4 \<Rightarrow> u64 \<Rightarrow> (u64 \<times> select_outcome) list \<Rightarrow> nat_state \<Rightarrow> (nat_type + nat_state) option" where
  "nat_loop port dest started evs st =
     (if \<not> (n_count st < 3 \<and> n_elapsed st < 5) then Some (Inr st)
      else case evs of
          [] \<Rightarrow> None
        | (now, ev) # evs \<Rightarrow>
            let st = st\<lparr>n_elapsed := now - started\<rparr>
            in case ev of
                 Select_error \<Rightarrow> Some (Inl StunTypeFailure)
               | Select_timeout \<Rightarrow> nat_loop port dest started evs (nat_timeout dest st)
               | Readable d1 d2 \<Rightarrow> do {
                   st \<leftarrow> nat_datagram port d1 st;
                   st \<leftarrow> nat_datagram port d2 st;
                   nat_loop port dest started evs st })"

declare nat_loop.simps [simp del]

text \<open>The flow chart of the draft.\<close>

definition nat_verdict :: "bool \<Rightarrow> nat_state \<Rightarrow> nat_type" where
  "nat_verdict isNat st =
     (if respTestI st then
        if isNat then
          if respTestII st then StunTypeConeNat
          else if mappedIpSame st then
            if respTestIII st then StunTypeRestrictedNat else StunTypePortRestrictedNat
          else StunTypeSymNat
        else if respTestII st then StunTypeOpen else StunTypeSymFirewall
      else StunTypeBlocked)"

text \<open>
  \<open>opened\<close>: both sockets could be opened; \<open>bindable\<close> tells of an address whether a socket can be
  bound to it, that is, whether it is one of the host.
\<close>

definition stunNatType ::
  "bool \<Rightarrow> (u32 \<Rightarrow> bool) \<Rightarrow> u64 \<Rightarrow> (u64 \<times> select_outcome) list \<Rightarrow> stun_address4 \<Rightarrow> int \<Rightarrow> bool option \<Rightarrow>
   stun_address4 option \<Rightarrow> nat_type option" where
  "stunNatType opened bindable started evs dest port preserve saddr =
     (if \<not> opened then Some StunTypeFailure
      else do {
        r \<leftarrow> nat_loop port dest started evs (nat_start dest preserve saddr);
        case r of Inl v \<Rightarrow> Some v
        | Inr st \<Rightarrow> Some (nat_verdict (\<not> bindable (sa_addr (testImappedAddr st))) st) })"

section \<open>The decision as a function of the answers\<close>

definition datagrams :: "select_outcome \<Rightarrow> u8 list list" where
  "datagrams ev = (case ev of Readable d1 d2 \<Rightarrow> (case d1 of None \<Rightarrow> [] | Some d \<Rightarrow> [d]) @ (case d2 of None \<Rightarrow> [] | Some d \<Rightarrow> [d])
     | _ \<Rightarrow> [])"

definition answers :: "(u64 \<times> select_outcome) list \<Rightarrow> stun_message list" where
  "answers evs = concat (map (\<lambda>(t, ev). map (\<lambda>d. snd (the (stunParseMessage d))) (datagrams ev)) evs)"

definition answered :: "u8 \<Rightarrow> stun_message list \<Rightarrow> bool" where
  "answered k rs \<longleftrightarrow> (\<exists>r \<in> set rs. answer_id r = k)"

text \<open>The address in the first answer to a test.\<close>

definition seen_as :: "u8 \<Rightarrow> stun_message list \<Rightarrow> stun_address4" where
  "seen_as k rs = (case find (\<lambda>r. answer_id r = k) rs of None \<Rightarrow> addr4_zero | Some r \<Rightarrow> addr4_of (mapped_address r))"

text \<open>The address seen by the second address of the server is that seen by the first, as far as known then.\<close>

definition same_mapping :: "stun_message list \<Rightarrow> bool" where
  "same_mapping rs \<longleftrightarrow> \<not> answered 10 rs \<or> seen_as 10 rs = seen_as 1 (takeWhile (\<lambda>r. answer_id r \<noteq> 10) rs)"

definition nat_kind :: "(u32 \<Rightarrow> bool) \<Rightarrow> stun_message list \<Rightarrow> nat_type" where
  "nat_kind bindable rs =
     (if \<not> answered 1 rs then StunTypeBlocked
      else if bindable (sa_addr (seen_as 1 rs)) then (if answered 2 rs then StunTypeOpen else StunTypeSymFirewall)
      else if answered 2 rs then StunTypeConeNat
      else if \<not> same_mapping rs then StunTypeSymNat
      else if answered 3 rs then StunTypeRestrictedNat else StunTypePortRestrictedNat)"

definition nat_inv :: "stun_message list \<Rightarrow> nat_state \<Rightarrow> bool" where
  "nat_inv rs st \<longleftrightarrow> respTestI st = answered 1 rs \<and> respTestI2 st = answered 10 rs \<and> respTestII st = answered 2 rs \<and>
     respTestIII st = answered 3 rs \<and> mappedIpSame st = same_mapping rs \<and> testImappedAddr st = seen_as 1 rs"

lemma answered_append: "answered k (rs @ [r]) \<longleftrightarrow> answered k rs \<or> answer_id r = k"
  by (auto simp: answered_def)

lemma find_append: "find P (xs @ ys) = (case find P xs of None \<Rightarrow> find P ys | Some x \<Rightarrow> Some x)"
  by (induction xs) auto

lemma answered_find: "answered k rs \<longleftrightarrow> find (\<lambda>r. answer_id r = k) rs \<noteq> None"
  by (auto simp: answered_def find_None_iff)

lemma seen_as_append:
  "seen_as k (rs @ [r]) = (if answered k rs \<or> answer_id r \<noteq> k then seen_as k rs else addr4_of (mapped_address r))"
  by (auto simp: seen_as_def find_append answered_find split: option.split)

lemma takeWhile_unanswered: "\<not> answered k rs \<Longrightarrow> takeWhile (\<lambda>r. answer_id r \<noteq> k) rs = rs"
  by (auto simp: answered_def takeWhile_eq_all_conv)

lemma same_mapping_append:
  "same_mapping (rs @ [r]) \<longleftrightarrow>
     (if answered 10 rs \<or> answer_id r \<noteq> 10 then same_mapping rs else addr4_of (mapped_address r) = seen_as 1 rs)"
proof (cases "answered 10 rs")
  case True
  then have "takeWhile (\<lambda>r. answer_id r \<noteq> 10) (rs @ [r]) = takeWhile (\<lambda>r. answer_id r \<noteq> 10) rs"
    by (auto simp: answered_def takeWhile_append1)
  then show ?thesis using True by (simp add: same_mapping_def answered_append seen_as_append)
next
  case False
  then show ?thesis
    by (auto simp: same_mapping_def answered_append seen_as_append takeWhile_unanswered takeWhile_append)
qed

lemma nat_receive_inv:
  assumes "nat_inv rs st"
  shows "nat_inv (rs @ [r]) (nat_receive port r st)"
  using assms by (auto simp: nat_inv_def nat_receive_def Let_def answered_append seen_as_append same_mapping_append)

text \<open>The loop ends after five seconds or three timeouts.\<close>

definition late :: "u64 \<Rightarrow> u64 \<times> select_outcome \<Rightarrow> bool" where "late started e \<longleftrightarrow> 5 \<le> fst e - started"

lemma late_pair: "late started (now, ev) \<longleftrightarrow> 5 \<le> now - started"
  by (simp add: late_def)

definition timed_out :: "u64 \<times> select_outcome \<Rightarrow> bool" where "timed_out e \<longleftrightarrow> snd e = Select_timeout"

definition nat_over :: "u64 \<Rightarrow> (u64 \<times> select_outcome) list \<Rightarrow> bool" where
  "nat_over started evs \<longleftrightarrow> list_ex (late started) evs \<or> 3 \<le> length (filter timed_out evs)"

definition readable_ok :: "u64 \<times> select_outcome \<Rightarrow> bool" where
  "readable_ok e \<longleftrightarrow> snd e \<noteq> Select_error \<and> (\<forall>d \<in> set (datagrams (snd e)). stunParseMessage d \<noteq> None)"

definition clock_inv :: "u64 \<Rightarrow> (u64 \<times> select_outcome) list \<Rightarrow> nat_state \<Rightarrow> bool" where
  "clock_inv started evs st \<longleftrightarrow> n_count st \<le> length (filter timed_out evs) \<and>
     (5 \<le> n_elapsed st \<longrightarrow> list_ex (late started) evs)"

lemma answers_append: "answers (xs @ ys) = answers xs @ answers ys"
  by (simp add: answers_def)

lemma nat_send_inv: "nat_inv rs (nat_send fd a t st) = nat_inv rs st"
  "n_count (nat_send fd a t st) = n_count st" "n_elapsed (nat_send fd a t st) = n_elapsed st"
  by (simp_all add: nat_send_def nat_inv_def)

lemma nat_timeout_inv:
  "nat_inv rs st \<Longrightarrow> nat_inv rs (nat_timeout dest st)" "n_count (nat_timeout dest st) = n_count st + 1"
  "n_elapsed (nat_timeout dest st) = n_elapsed st"
  by (auto simp: nat_timeout_def Let_def nat_send_inv) (simp_all add: nat_inv_def)

lemma nat_receive_clock:
  "n_count (nat_receive port r st) \<le> n_count st" "n_elapsed (nat_receive port r st) = n_elapsed st"
  by (simp_all add: nat_receive_def Let_def)

lemma nat_datagram_inv:
  assumes "d \<noteq> None \<Longrightarrow> stunParseMessage (the d) \<noteq> None" and "nat_inv rs st"
  shows "\<exists>st'. nat_datagram port d st = Some st' \<and> n_count st' \<le> n_count st \<and> n_elapsed st' = n_elapsed st \<and>
    nat_inv (rs @ (case d of None \<Rightarrow> [] | Some bs \<Rightarrow> [snd (the (stunParseMessage bs))])) st'"
proof (cases d)
  case None
  then show ?thesis using assms(2) by (simp add: nat_datagram_def)
next
  case (Some bs)
  then obtain ok r where "stunParseMessage bs = Some (ok, r)" using assms(1) by fastforce
  then show ?thesis using Some nat_receive_inv [OF assms(2)] by (simp add: nat_datagram_def nat_receive_clock)
qed

lemma nat_step:
  assumes inv: "nat_inv rs st" and ok: "readable_ok (now, ev)" and clk: "clock_inv started es st"
    and go: "n_count st < 3 \<and> n_elapsed st < 5"
  shows "\<exists>st'. nat_loop port dest started ((now, ev) # evs) st = nat_loop port dest started evs st' \<and>
    nat_inv (rs @ answers [(now, ev)]) st' \<and> clock_inv started (es @ [(now, ev)]) st' \<and>
    n_elapsed st' = now - started"
proof -
  let ?st = "st\<lparr>n_elapsed := now - started\<rparr>"
  have i: "nat_inv rs ?st" using inv by (simp add: nat_inv_def)
  have g: "\<not> \<not> (n_count st < 3 \<and> n_elapsed st < 5)" using go by blast
  note l = nat_loop.simps [of port dest started "(now, ev) # evs" st, unfolded if_not_P [OF g] list.case prod.case Let_def]
  show ?thesis
  proof (cases ev)
    case Select_error
    then show ?thesis using ok by (simp add: readable_ok_def)
  next
    case Select_timeout
    then have "nat_loop port dest started ((now, ev) # evs) st = nat_loop port dest started evs (nat_timeout dest ?st)"
      using l by simp
    then show ?thesis using clk nat_timeout_inv(1) [OF i] nat_timeout_inv(2,3) [of dest ?st] Select_timeout
      by (intro exI [of _ "nat_timeout dest ?st"]) (auto simp: answers_def datagrams_def clock_inv_def timed_out_def late_def)
  next
    case (Readable d1 d2)
    have p: "d1 \<noteq> None \<Longrightarrow> stunParseMessage (the d1) \<noteq> None" "d2 \<noteq> None \<Longrightarrow> stunParseMessage (the d2) \<noteq> None"
      using ok by (auto simp: readable_ok_def datagrams_def Readable)
    from nat_datagram_inv [OF p(1) i] obtain s1 where s1: "nat_datagram port d1 ?st = Some s1" "n_count s1 \<le> n_count ?st"
      "n_elapsed s1 = n_elapsed ?st" "nat_inv (rs @ (case d1 of None \<Rightarrow> [] | Some bs \<Rightarrow> [snd (the (stunParseMessage bs))])) s1"
      by blast
    from nat_datagram_inv [OF p(2) s1(4)] obtain s2 where s2: "nat_datagram port d2 s1 = Some s2" "n_count s2 \<le> n_count s1"
      "n_elapsed s2 = n_elapsed s1" "nat_inv ((rs @ (case d1 of None \<Rightarrow> [] | Some bs \<Rightarrow> [snd (the (stunParseMessage bs))])) @
        (case d2 of None \<Rightarrow> [] | Some bs \<Rightarrow> [snd (the (stunParseMessage bs))])) s2"
      by blast
    have "answers [(now, ev)] = (case d1 of None \<Rightarrow> [] | Some bs \<Rightarrow> [snd (the (stunParseMessage bs))]) @
        (case d2 of None \<Rightarrow> [] | Some bs \<Rightarrow> [snd (the (stunParseMessage bs))])"
      by (simp add: answers_def datagrams_def Readable split: option.split)
    moreover have "clock_inv started (es @ [(now, ev)]) s2"
      using clk s1(2,3) s2(2,3) by (auto simp: clock_inv_def late_def)
    moreover have "nat_loop port dest started ((now, ev) # evs) st = nat_loop port dest started evs s2"
      using l s1(1) s2(1) by (simp add: Readable)
    ultimately show ?thesis using s1(3) s2(3,4) by (intro exI [of _ s2]) simp
  qed
qed

lemma nat_loop_ends:
  assumes "nat_inv rs st" and "clock_inv started es st" and "list_all readable_ok evs"
    and "list_ex (late started) evs \<or> 5 \<le> n_elapsed st"
  shows "\<exists>k st'. k \<le> length evs \<and> nat_loop port dest started evs st = Some (Inr st') \<and>
    nat_inv (rs @ answers (take k evs)) st' \<and> nat_over started (es @ take k evs)"
  using assms
proof (induction evs arbitrary: st rs es)
  case Nil
  then show ?case by (auto simp: answers_def nat_over_def clock_inv_def nat_loop.simps [of _ _ _ "[]"])
next
  case (Cons e evs)
  show ?case
  proof (cases "n_count st < 3 \<and> n_elapsed st < 5")
    case False
    then show ?thesis using Cons.prems
      by (intro exI [of _ 0] exI [of _ st])
        (auto simp: answers_def nat_over_def clock_inv_def nat_loop.simps [of _ _ _ "e # evs"])
  next
    case True
    obtain now ev where e: "e = (now, ev)" by (cases e)
    have ok: "readable_ok (now, ev)" using Cons.prems(3) e by simp
    from nat_step [OF Cons.prems(1) ok Cons.prems(2) True] obtain s where
      s: "nat_loop port dest started ((now, ev) # evs) st = nat_loop port dest started evs s"
        "nat_inv (rs @ answers [(now, ev)]) s" "clock_inv started (es @ [(now, ev)]) s" "n_elapsed s = now - started"
      by blast
    have "list_ex (late started) evs \<or> 5 \<le> n_elapsed s"
      using Cons.prems(4) True s(4) e by (auto simp: late_pair)
    from Cons.IH [OF s(2,3) _ this] Cons.prems(3) obtain k st' where
      "k \<le> length evs" "nat_loop port dest started evs s = Some (Inr st')"
      "nat_inv ((rs @ answers [(now, ev)]) @ answers (take k evs)) st'" "nat_over started ((es @ [(now, ev)]) @ take k evs)"
      by auto
    then show ?thesis using s(1) e answers_append [of "[e]" "take k evs"]
      by (intro exI [of _ "Suc k"] exI [of _ st']) simp
  qed
qed



end
