(* ===== verification/Ice_Pairs.thy ===== *)
theory Ice_Pairs
  imports Ms_List
begin

text \<open>
  ICE candidates and the forming of the check list, \<^verbatim>\<open>mediastreamer2/src/voip/ice.c\<close>: local and
  remote candidates, their priorities and foundations, the elimination of redundant ones, the default ones, the pairs,
  their priorities, the pruning of duplicates, the check list and the initial states. Candidates and pairs
  are shared between lists, so they are in a store of addresses; a \<^verbatim>\<open>MSList\<close> is the list of its data
  (\<open>Ms_List\<close> shows that the operations act so). \<open>None\<close> is the use of a pointer that is NULL or
  freed. A string of a candidate has at most 63 characters (foundation: 31).
\<close>

section \<open>Candidates, pairs and check lists\<close>

datatype ice_role = IR_Controlling | IR_Controlled
datatype ice_cand_type = ICT_HostCandidate | ICT_ServerReflexiveCandidate | ICT_PeerReflexiveCandidate | ICT_RelayedCandidate
datatype ice_pair_state = ICP_Waiting | ICP_InProgress | ICP_Succeeded | ICP_Failed | ICP_Frozen
datatype ice_cl_state = ICL_Running | ICL_Completed | ICL_Failed

record ice_candidate =
  cd_foundation :: string
  cd_ip :: string
  cd_port :: int
  cd_type :: ice_cand_type
  cd_priority :: u32
  cd_component :: u16
  cd_base :: "ptr option"
  cd_default :: bool

record ice_pair =
  pr_local :: ptr
  pr_remote :: ptr
  pr_state :: ice_pair_state
  pr_priority :: u64
  pr_rto :: u32
  pr_retransmissions :: u8
  pr_role :: ice_role
  pr_default :: bool
  pr_use_candidate :: bool
  pr_nominated :: bool
  pr_wait_timeout :: bool

text \<open>The store; addresses from \<open>ic_next\<close> on are free.\<close>

record ice_store =
  ic_cands :: "ptr \<rightharpoonup> ice_candidate"
  ic_pairs :: "ptr \<rightharpoonup> ice_pair"
  ic_next :: ptr

text \<open>A valid pair: the pair, the one whose check produced it, and whether it is selected.\<close>

record ice_check_list =
  il_local :: "ptr list"
  il_remote :: "ptr list"
  il_pairs :: "ptr list"
  il_losing :: "ptr list"
  il_triggered :: "ptr list"
  il_check :: "ptr list"
  il_valid :: "(ptr \<times> ptr \<times> bool) list"
  il_foundations :: "(string \<times> string) list"
  il_local_ids :: "ptr list"
  il_remote_ids :: "ptr list"
  il_state :: ice_cl_state
  il_generator :: u32

definition ICE_MAX_NB_CANDIDATES :: nat where "ICE_MAX_NB_CANDIDATES = 10"
definition ICE_DEFAULT_RTO_DURATION :: u32 where "ICE_DEFAULT_RTO_DURATION = 200"
definition ICE_MIN_COMPONENTID :: nat where "ICE_MIN_COMPONENTID = 1"
definition ICE_MAX_COMPONENTID :: nat where "ICE_MAX_COMPONENTID = 256"

definition ice_check_list_init :: ice_check_list where
  "ice_check_list_init = \<lparr>il_local = [], il_remote = [], il_pairs = [], il_losing = [], il_triggered = [], il_check = [],
     il_valid = [], il_foundations = [], il_local_ids = [], il_remote_ids = [], il_state = ICL_Running, il_generator = 1\<rparr>"

text \<open>Lists: \<^verbatim>\<open>ms_list_find_custom\<close> and \<^verbatim>\<open>ms_list_for_each2\<close> with functions that may fault.\<close>

fun find_m :: "('a \<Rightarrow> bool option) \<Rightarrow> 'a list \<Rightarrow> 'a option option" where
  "find_m f [] = Some None"
| "find_m f (x # xs) = do { b \<leftarrow> f x; if b then Some (Some x) else find_m f xs }"

fun each_m :: "('a \<Rightarrow> 's \<Rightarrow> 's option) \<Rightarrow> 'a list \<Rightarrow> 's \<Rightarrow> 's option" where
  "each_m f [] s = Some s"
| "each_m f (x # xs) s = do { s \<leftarrow> f x s; each_m f xs s }"

definition upd_cand :: "ptr \<Rightarrow> (ice_candidate \<Rightarrow> ice_candidate) \<Rightarrow> ice_store \<Rightarrow> ice_store option" where
  "upd_cand a f st = do { c \<leftarrow> ic_cands st a; Some (st\<lparr>ic_cands := (ic_cands st)(a \<mapsto> f c)\<rparr>) }"

definition upd_pair :: "ptr \<Rightarrow> (ice_pair \<Rightarrow> ice_pair) \<Rightarrow> ice_store \<Rightarrow> ice_store option" where
  "upd_pair a f st = do { p \<leftarrow> ic_pairs st a; Some (st\<lparr>ic_pairs := (ic_pairs st)(a \<mapsto> f p)\<rparr>) }"

section \<open>Candidates\<close>

definition type_preference_values :: "ice_cand_type \<Rightarrow> u8" where
  "type_preference_values t = (case t of ICT_HostCandidate \<Rightarrow> 126 | ICT_ServerReflexiveCandidate \<Rightarrow> 100
     | ICT_PeerReflexiveCandidate \<Rightarrow> 110 | ICT_RelayedCandidate \<Rightarrow> 0)"

definition ice_compute_candidate_priority :: "ice_candidate \<Rightarrow> ice_candidate" where
  "ice_compute_candidate_priority c = c\<lparr>cd_priority := push_bit 24 (ucast (type_preference_values (cd_type c))) OR
     push_bit 8 65535 OR (256 - ucast (cd_component c))\<rparr>"

definition candidate_type :: "string \<Rightarrow> ice_cand_type option" where
  "candidate_type s = (if s = ''host'' then Some ICT_HostCandidate else if s = ''srflx'' then Some ICT_ServerReflexiveCandidate
     else if s = ''prflx'' then Some ICT_PeerReflexiveCandidate else if s = ''relay'' then Some ICT_RelayedCandidate else None)"

text \<open>An unknown type gives NULL: the inner \<open>None\<close>. An address of 64 characters is left without its end.\<close>

definition ice_candidate_new :: "string \<Rightarrow> string \<Rightarrow> int \<Rightarrow> u16 \<Rightarrow> ice_store \<Rightarrow> (ptr option \<times> ice_store) option" where
  "ice_candidate_new ty ip port cid st =
     (case candidate_type ty of
        None \<Rightarrow> Some (None, st)
      | Some t \<Rightarrow>
          if length ip \<ge> 64 then None
          else let a = ic_next st;
                 c = \<lparr>cd_foundation = [], cd_ip = ip, cd_port = port, cd_type = t, cd_priority = 0, cd_component = cid,
                   cd_base = (if t = ICT_HostCandidate \<or> t = ICT_RelayedCandidate then Some a else None), cd_default = False\<rparr>
               in Some (Some a, st\<lparr>ic_cands := (ic_cands st)(a \<mapsto> c), ic_next := a + 1\<rparr>))"

definition ice_compare_transport_addresses :: "ice_candidate \<Rightarrow> ice_candidate \<Rightarrow> bool" where
  "ice_compare_transport_addresses c1 c2 \<longleftrightarrow> cd_port c1 = cd_port c2 \<and> cd_ip c1 = cd_ip c2"

text \<open>The comparisons return 0 when their arguments agree; here they are true then.\<close>

definition ice_compare_candidates :: "ice_candidate \<Rightarrow> ice_candidate \<Rightarrow> bool" where
  "ice_compare_candidates c1 c2 \<longleftrightarrow> cd_type c1 = cd_type c2 \<and> ice_compare_transport_addresses c1 c2 \<and>
     cd_component c1 = cd_component c2 \<and> cd_priority c1 = cd_priority c2"

definition compare_cands_at :: "ptr \<Rightarrow> ptr \<Rightarrow> ice_store \<Rightarrow> bool option" where
  "compare_cands_at a b st = do { c1 \<leftarrow> ic_cands st a; c2 \<leftarrow> ic_cands st b; Some (ice_compare_candidates c1 c2) }"

text \<open>The list of component IDs points to the candidates that have them; the new candidate is \<open>a\<close>.\<close>

definition ice_find_componentID :: "ptr \<Rightarrow> ptr \<Rightarrow> ice_store \<Rightarrow> bool option" where
  "ice_find_componentID a b st = do { c1 \<leftarrow> ic_cands st a; c2 \<leftarrow> ic_cands st b; Some (cd_component c1 = cd_component c2) }"

definition ice_add_componentID :: "ptr \<Rightarrow> ptr list \<Rightarrow> ice_store \<Rightarrow> ptr list option" where
  "ice_add_componentID a ids st = do {
     e \<leftarrow> find_m (\<lambda>b. ice_find_componentID b a st) ids;
     Some (if e = None then ids @ [a] else ids) }"

definition free_cand :: "ptr \<Rightarrow> ice_store \<Rightarrow> ice_store option" where
  "free_cand a st = (if ic_cands st a = None then None else Some (st\<lparr>ic_cands := (ic_cands st)(a := None)\<rparr>))"

definition ice_add_local_candidate ::
  "string \<Rightarrow> string \<Rightarrow> int \<Rightarrow> u16 \<Rightarrow> ptr option \<Rightarrow> ice_store \<times> ice_check_list \<Rightarrow> (ptr option \<times> ice_store \<times> ice_check_list) option" where
  "ice_add_local_candidate ty ip port cid base s =
     (let (st, cl) = s in
      if length (il_local cl) \<ge> ICE_MAX_NB_CANDIDATES then Some (None, st, cl)
      else do {
        (c, st) \<leftarrow> ice_candidate_new ty ip port cid st;
        a \<leftarrow> c;
        st \<leftarrow> upd_cand a (\<lambda>c. ice_compute_candidate_priority (if cd_base c = None then c\<lparr>cd_base := base\<rparr> else c)) st;
        e \<leftarrow> find_m (\<lambda>b. compare_cands_at b a st) (il_local cl);
        if e \<noteq> None then do { st \<leftarrow> free_cand a st; Some (None, st, cl) }
        else do {
          ids \<leftarrow> ice_add_componentID a (il_local_ids cl) st;
          Some (Some a, st, cl\<lparr>il_local_ids := ids, il_local := il_local cl @ [a]\<rparr>) } })"

text \<open>The limit looks at the number of local candidates.\<close>

definition ice_add_remote_candidate ::
  "string \<Rightarrow> string \<Rightarrow> int \<Rightarrow> u16 \<Rightarrow> u32 \<Rightarrow> string \<Rightarrow> bool \<Rightarrow> ice_store \<times> ice_check_list \<Rightarrow>
   (ptr option \<times> ice_store \<times> ice_check_list) option" where
  "ice_add_remote_candidate ty ip port cid prio foundation def s =
     (let (st, cl) = s in
      if length (il_local cl) \<ge> ICE_MAX_NB_CANDIDATES then Some (None, st, cl)
      else do {
        (c, st) \<leftarrow> ice_candidate_new ty ip port cid st;
        a \<leftarrow> c;
        st \<leftarrow> upd_cand a (\<lambda>c. if prio = 0 then ice_compute_candidate_priority c else c\<lparr>cd_priority := prio\<rparr>) st;
        e \<leftarrow> find_m (\<lambda>b. compare_cands_at b a st) (il_remote cl);
        if e \<noteq> None then do { st \<leftarrow> free_cand a st; Some (None, st, cl) }
        else do {
          st \<leftarrow> upd_cand a (\<lambda>c. c\<lparr>cd_foundation := take 31 foundation, cd_default := def\<rparr>) st;
          ids \<leftarrow> ice_add_componentID a (il_remote_ids cl) st;
          Some (Some a, st, cl\<lparr>il_remote_ids := ids, il_remote := il_remote cl @ [a]\<rparr>) } })"

section \<open>Foundations, redundant candidates, default candidates\<close>

definition same_foundation :: "ptr \<Rightarrow> ptr \<Rightarrow> ice_store \<Rightarrow> bool option" where
  "same_foundation a b st = do {
     c1 \<leftarrow> ic_cands st a; c2 \<leftarrow> ic_cands st b;
     case (cd_base c1, cd_base c2) of
       (Some p, Some q) \<Rightarrow>
         if a \<noteq> b \<and> cd_type c1 = cd_type c2 then do { x \<leftarrow> ic_cands st p; y \<leftarrow> ic_cands st q; Some (cd_ip x = cd_ip y) }
         else Some False
     | _ \<Rightarrow> Some False }"

text \<open>\<open>dec\<close> prints a number in decimal.\<close>

fun dec :: "nat \<Rightarrow> string" where
  "dec n = (if n < 10 then [] else dec (n div 10)) @ [char_of (48 + n mod 10)]"

declare dec.simps [simp del]

definition ice_compute_candidate_foundation :: "ptr \<Rightarrow> ice_store \<times> ice_check_list \<Rightarrow> (ice_store \<times> ice_check_list) option" where
  "ice_compute_candidate_foundation a s = (let (st, cl) = s in do {
     l \<leftarrow> find_m (\<lambda>b. same_foundation b a st) (il_local cl);
     f \<leftarrow> (case l of None \<Rightarrow> Some [] | Some b \<Rightarrow> do { c \<leftarrow> ic_cands st b; Some (cd_foundation c) });
     if f \<noteq> [] then do { st \<leftarrow> upd_cand a (\<lambda>c. c\<lparr>cd_foundation := take 31 f\<rparr>) st; Some (st, cl) }
     else do {
       st \<leftarrow> upd_cand a (\<lambda>c. c\<lparr>cd_foundation := dec (unat (il_generator cl))\<rparr>) st;
       Some (st, cl\<lparr>il_generator := il_generator cl + 1\<rparr>) } })"

definition ice_check_list_compute_candidates_foundations :: "ice_store \<times> ice_check_list \<Rightarrow> (ice_store \<times> ice_check_list) option" where
  "ice_check_list_compute_candidates_foundations s =
     (if il_state (snd s) = ICL_Running then each_m ice_compute_candidate_foundation (il_local (snd s)) s else Some s)"

definition ice_find_redundant_candidate :: "ptr \<Rightarrow> ptr \<Rightarrow> ice_store \<Rightarrow> bool option" where
  "ice_find_redundant_candidate a b st =
     (if a = b then Some False
      else do { c1 \<leftarrow> ic_cands st a; c2 \<leftarrow> ic_cands st b;
        Some (ice_compare_transport_addresses c1 c2 \<and> cd_base c1 = cd_base c2) })"

text \<open>One search from the front for a candidate with another like it; the one of lower priority goes.\<close>

fun eliminate_once :: "ptr list \<Rightarrow> ice_store \<times> ice_check_list \<Rightarrow> (bool \<times> ice_store \<times> ice_check_list) option" where
  "eliminate_once [] s = Some (False, s)"
| "eliminate_once (a # as) s = (let (st, cl) = s in do {
     other \<leftarrow> find_m (\<lambda>b. ice_find_redundant_candidate b a st) (il_local cl);
     case other of
       None \<Rightarrow> eliminate_once as s
     | Some b \<Rightarrow> do {
         c \<leftarrow> ic_cands st a; d \<leftarrow> ic_cands st b;
         let x = (if cd_priority d < cd_priority c then b else a);
         st \<leftarrow> free_cand x st;
         Some (True, st, cl\<lparr>il_local := remove1 x (il_local cl)\<rparr>) } })"

partial_function (option) eliminate_loop :: "ice_store \<times> ice_check_list \<Rightarrow> (ice_store \<times> ice_check_list) option" where
  "eliminate_loop s = do {
     (removed, s) \<leftarrow> eliminate_once (il_local (snd s)) s;
     if removed then eliminate_loop s else Some s }"

definition ice_check_list_eliminate_redundant_candidates :: "ice_store \<times> ice_check_list \<Rightarrow> (ice_store \<times> ice_check_list) option" where
  "ice_check_list_eliminate_redundant_candidates s = (if il_state (snd s) = ICL_Running then eliminate_loop s else Some s)"

definition find_type_component :: "ice_cand_type \<Rightarrow> u16 \<Rightarrow> ptr list \<Rightarrow> ice_store \<Rightarrow> ptr option option" where
  "find_type_component t i as st = find_m (\<lambda>a. do { c \<leftarrow> ic_cands st a; Some (cd_type c = t \<and> cd_component c = i) }) as"

definition choose_default :: "ptr list \<Rightarrow> nat \<Rightarrow> ice_store \<Rightarrow> ice_store option" where
  "choose_default as i st = do {
     l \<leftarrow> find_type_component ICT_RelayedCandidate (of_nat i) as st;
     l \<leftarrow> (if l = None then find_type_component ICT_ServerReflexiveCandidate (of_nat i) as st else Some l);
     l \<leftarrow> (if l = None then find_type_component ICT_HostCandidate (of_nat i) as st else Some l);
     case l of None \<Rightarrow> Some st | Some a \<Rightarrow> upd_cand a (\<lambda>c. c\<lparr>cd_default := True\<rparr>) st }"

definition ice_choose_local_or_remote_default_candidates :: "ptr list \<Rightarrow> ice_store \<Rightarrow> ice_store option" where
  "ice_choose_local_or_remote_default_candidates as st =
     each_m (choose_default as) [ICE_MIN_COMPONENTID..<Suc ICE_MAX_COMPONENTID] st"

definition ice_check_list_choose_default_candidates :: "ice_store \<times> ice_check_list \<Rightarrow> (ice_store \<times> ice_check_list) option" where
  "ice_check_list_choose_default_candidates s = (let (st, cl) = s in
     if il_state cl = ICL_Running
     then do { st \<leftarrow> ice_choose_local_or_remote_default_candidates (il_local cl) st; Some (st, cl) }
     else Some (st, cl))"

definition ice_check_list_choose_default_remote_candidates ::
  "ice_store \<times> ice_check_list \<Rightarrow> (ice_store \<times> ice_check_list) option" where
  "ice_check_list_choose_default_remote_candidates s = (let (st, cl) = s in do {
     st \<leftarrow> ice_choose_local_or_remote_default_candidates (il_remote cl) st;
     Some (st, cl) })"

section \<open>Pairs\<close>

definition ICE_INVALID_COMPONENTID :: u16 where "ICE_INVALID_COMPONENTID = 0"

definition ice_compute_pair_priority :: "ice_role \<Rightarrow> u32 \<Rightarrow> u32 \<Rightarrow> u64" where
  "ice_compute_pair_priority role local remote =
     (let G = ucast (case role of IR_Controlling \<Rightarrow> local | IR_Controlled \<Rightarrow> remote) :: u64;
          D = ucast (case role of IR_Controlling \<Rightarrow> remote | IR_Controlled \<Rightarrow> local) :: u64
      in push_bit 32 (min G D) OR push_bit 1 (max G D) OR (if G > D then 1 else 0))"

definition ice_pair_new :: "ice_role \<Rightarrow> ptr \<Rightarrow> ptr \<Rightarrow> ice_store \<Rightarrow> (ptr \<times> ice_store) option" where
  "ice_pair_new role l r st = do {
     cl \<leftarrow> ic_cands st l; cr \<leftarrow> ic_cands st r;
     let p = \<lparr>pr_local = l, pr_remote = r, pr_state = ICP_Frozen,
        pr_priority = ice_compute_pair_priority role (cd_priority cl) (cd_priority cr), pr_rto = ICE_DEFAULT_RTO_DURATION,
        pr_retransmissions = 0, pr_role = role, pr_default = (cd_default cl \<and> cd_default cr), pr_use_candidate = False,
        pr_nominated = False, pr_wait_timeout = False\<rparr>;
     Some (ic_next st, st\<lparr>ic_pairs := (ic_pairs st)(ic_next st \<mapsto> p), ic_next := ic_next st + 1\<rparr>) }"

definition form_one :: "ice_role \<Rightarrow> ptr \<Rightarrow> ptr \<Rightarrow> ice_store \<times> ptr list \<Rightarrow> (ice_store \<times> ptr list) option" where
  "form_one role l r s = (let (st, ps) = s in do {
     cl \<leftarrow> ic_cands st l; cr \<leftarrow> ic_cands st r;
     if cd_component cl = cd_component cr then do { (p, st) \<leftarrow> ice_pair_new role l r st; Some (st, ps @ [p]) }
     else Some (st, ps) })"

definition ice_form_candidate_pairs :: "ice_role \<Rightarrow> ice_store \<times> ice_check_list \<Rightarrow> (ice_store \<times> ice_check_list) option" where
  "ice_form_candidate_pairs role s = (let (st, cl) = s in do {
     (st, ps) \<leftarrow> each_m (\<lambda>l. each_m (\<lambda>r. form_one role l r) (il_remote cl)) (il_local cl) (st, il_pairs cl);
     Some (st, cl\<lparr>il_pairs := ps\<rparr>) })"

definition ice_replace_srflx_by_base_in_pair :: "ptr \<Rightarrow> ice_store \<Rightarrow> ice_store option" where
  "ice_replace_srflx_by_base_in_pair a st = do {
     p \<leftarrow> ic_pairs st a; c \<leftarrow> ic_cands st (pr_local p);
     if cd_type c = ICT_ServerReflexiveCandidate
     then do { b \<leftarrow> cd_base c; upd_pair a (\<lambda>p. p\<lparr>pr_local := b\<rparr>) st }
     else Some st }"

definition ice_compare_pairs :: "ptr \<Rightarrow> ptr \<Rightarrow> ice_store \<Rightarrow> bool option" where
  "ice_compare_pairs a b st = do {
     p \<leftarrow> ic_pairs st a; q \<leftarrow> ic_pairs st b;
     x \<leftarrow> compare_cands_at (pr_local p) (pr_local q) st;
     if x then compare_cands_at (pr_remote p) (pr_remote q) st else Some False }"

text \<open>Freeing a pair takes it out of the check list and the list of valid pairs.\<close>

definition ice_free_candidate_pair :: "ptr \<Rightarrow> ice_store \<times> ice_check_list \<Rightarrow> (ice_store \<times> ice_check_list) option" where
  "ice_free_candidate_pair a s = (let (st, cl) = s in
     if ic_pairs st a = None then None
     else Some (st\<lparr>ic_pairs := (ic_pairs st)(a := None)\<rparr>,
       cl\<lparr>il_check := filter (\<lambda>p. p \<noteq> a) (il_check cl), il_valid := filter (\<lambda>v. fst v \<noteq> a) (il_valid cl)\<rparr>))"

text \<open>Whether the pair \<open>a\<close> of the list is a duplicate of a pair of higher priority.\<close>

definition is_duplicate :: "ptr \<Rightarrow> ptr list \<Rightarrow> ice_store \<Rightarrow> bool option" where
  "is_duplicate a pairs st = do {
     e \<leftarrow> find_m (\<lambda>b. ice_compare_pairs b a st) pairs;
     case e of
       None \<Rightarrow> Some False
     | Some b \<Rightarrow> do { p \<leftarrow> ic_pairs st a; q \<leftarrow> ic_pairs st b; Some (pr_priority q > pr_priority p) } }"

definition ice_prune_duplicate_pair :: "ptr \<Rightarrow> ice_store \<times> ice_check_list \<Rightarrow> (bool \<times> ice_store \<times> ice_check_list) option" where
  "ice_prune_duplicate_pair a s = (let (st, cl) = s in do {
     d \<leftarrow> is_duplicate a (il_pairs cl) st;
     if d then do {
       s \<leftarrow> ice_free_candidate_pair a (st, cl\<lparr>il_pairs := remove1 a (il_pairs cl)\<rparr>);
       Some (True, s) }
     else Some (False, st, cl) })"

text \<open>
  The loop over the pairs: the cells that were passed and the cells ahead. When a pair is removed, the loop
  goes on behind the cell before it; without such a cell, or without one ahead, it ends.
\<close>

fun prune_loop :: "ptr list \<Rightarrow> ptr list \<Rightarrow> ice_store \<times> ice_check_list \<Rightarrow> (ice_store \<times> ice_check_list) option" where
  "prune_loop passed [] s = Some s"
| "prune_loop passed (a # ahead) s = do {
     (removed, s) \<leftarrow> ice_prune_duplicate_pair a s;
     if \<not> removed then prune_loop (passed @ [a]) ahead s
     else if ahead \<noteq> [] \<and> passed \<noteq> [] then prune_loop passed ahead s
     else Some s }"

text \<open>The pair goes in front of the first one whose priority is not higher.\<close>

fun insert_by_priority :: "ptr \<Rightarrow> ptr list \<Rightarrow> ice_store \<Rightarrow> ptr list option" where
  "insert_by_priority a [] st = Some [a]"
| "insert_by_priority a (b # bs) st = do {
     p \<leftarrow> ic_pairs st a; q \<leftarrow> ic_pairs st b;
     if pr_priority p < pr_priority q then do { bs \<leftarrow> insert_by_priority a bs st; Some (b # bs) }
     else Some (a # b # bs) }"

definition ice_create_check_list :: "ptr \<Rightarrow> ice_store \<times> ice_check_list \<Rightarrow> (ice_store \<times> ice_check_list) option" where
  "ice_create_check_list a s = (let (st, cl) = s in do {
     l \<leftarrow> insert_by_priority a (il_check cl) st;
     Some (st, cl\<lparr>il_check := l\<rparr>) })"

text \<open>
  The removal of the last \<open>n\<close> pairs. \<^verbatim>\<open>ice_free_candidate_pair\<close> has freed the cell of the check
  list that the loop stands on when its link is read.
\<close>

primrec limit_loop :: "nat \<Rightarrow> nat \<Rightarrow> ice_store \<times> ice_check_list \<Rightarrow> (ice_store \<times> ice_check_list) option" where
  "limit_loop 0 pos s = Some s"
| "limit_loop (Suc n) pos s = (let (st, cl) = s in
     if pos \<ge> length (il_check cl) then None
     else let a = il_check cl ! pos in do {
       (st, cl) \<leftarrow> ice_free_candidate_pair a (st, cl\<lparr>il_pairs := remove1 a (il_pairs cl)\<rparr>);
       if a \<notin> set (il_check cl) then None
       else limit_loop n (pos - 1) (st, cl\<lparr>il_check := take pos (il_check cl) @ drop (Suc pos) (il_check cl)\<rparr>) })"

definition ice_prune_candidate_pairs :: "u8 \<Rightarrow> ice_store \<times> ice_check_list \<Rightarrow> (ice_store \<times> ice_check_list) option" where
  "ice_prune_candidate_pairs max_checks s = (let (st, cl) = s in do {
     st \<leftarrow> each_m ice_replace_srflx_by_base_in_pair (il_pairs cl) st;
     (st, cl) \<leftarrow> prune_loop [] (il_pairs cl) (st, cl);
     (st, cl) \<leftarrow> each_m ice_create_check_list (il_pairs cl) (st, cl\<lparr>il_check := []\<rparr>);
     let n = length (il_check cl);
     if n > unat max_checks then limit_loop (n - unat max_checks) (n - 1) (st, cl) else Some (st, cl) })"

definition pair_foundation :: "ptr \<Rightarrow> ice_store \<Rightarrow> (string \<times> string) option" where
  "pair_foundation a st = do {
     p \<leftarrow> ic_pairs st a; l \<leftarrow> ic_cands st (pr_local p); r \<leftarrow> ic_cands st (pr_remote p);
     Some (cd_foundation l, cd_foundation r) }"

definition ice_generate_pair_foundations_list :: "ptr \<Rightarrow> ice_store \<times> ice_check_list \<Rightarrow> (ice_store \<times> ice_check_list) option" where
  "ice_generate_pair_foundations_list a s = (let (st, cl) = s in do {
     (l, r) \<leftarrow> pair_foundation a st;
     let f = (take 31 l, take 31 r);
     Some (st, if f \<in> set (il_foundations cl) then cl else cl\<lparr>il_foundations := il_foundations cl @ [f]\<rparr>) })"

text \<open>The pair found so far with its priority and component, while the check list is gone through.\<close>

definition ice_find_lowest_componentid_pair_with_specified_foundation ::
  "string \<times> string \<Rightarrow> ice_store \<Rightarrow> ptr \<Rightarrow> ptr option \<times> u64 \<times> u16 \<Rightarrow> (ptr option \<times> u64 \<times> u16) option" where
  "ice_find_lowest_componentid_pair_with_specified_foundation f st a fc = (let (found, prio, cid) = fc in do {
     g \<leftarrow> pair_foundation a st;
     p \<leftarrow> ic_pairs st a; l \<leftarrow> ic_cands st (pr_local p);
     if g = f \<and> (cid = ICE_INVALID_COMPONENTID \<or> cd_component l < cid \<and> pr_priority p > prio)
     then Some (Some a, pr_priority p, cd_component l) else Some fc })"

definition ice_set_lowest_componentid_pair_with_foundation_to_waiting_state ::
  "ptr list \<Rightarrow> string \<times> string \<Rightarrow> ice_store \<Rightarrow> ice_store option" where
  "ice_set_lowest_componentid_pair_with_foundation_to_waiting_state check f st = do {
     (found, prio, cid) \<leftarrow> each_m (ice_find_lowest_componentid_pair_with_specified_foundation f st) check
        (None, 0, ICE_INVALID_COMPONENTID);
     case found of None \<Rightarrow> Some st | Some a \<Rightarrow> upd_pair a (\<lambda>p. p\<lparr>pr_state := ICP_Waiting\<rparr>) st }"

definition ice_compute_pairs_states :: "ice_store \<times> ice_check_list \<Rightarrow> (ice_store \<times> ice_check_list) option" where
  "ice_compute_pairs_states s = do {
     st \<leftarrow> each_m (ice_set_lowest_componentid_pair_with_foundation_to_waiting_state (il_check (snd s)))
        (il_foundations (snd s)) (fst s);
     Some (st, snd s) }"

definition ice_check_list_pair_candidates ::
  "ice_role \<Rightarrow> u8 \<Rightarrow> ice_store \<times> ice_check_list \<Rightarrow> (ice_store \<times> ice_check_list) option" where
  "ice_check_list_pair_candidates role max_checks s =
     (if il_state (snd s) = ICL_Running then do {
        s \<leftarrow> ice_form_candidate_pairs role s;
        s \<leftarrow> ice_prune_candidate_pairs max_checks s;
        each_m ice_generate_pair_foundations_list (il_check (snd s)) s }
      else Some s)"

text \<open>
  The session: its check lists share the store; the pairs of all that run are formed, and the states of the
  first of them are computed.
\<close>

datatype ice_session_state = IS_Stopped | IS_Running | IS_Completed | IS_Failed

record ice_session =
  is_streams :: "ice_check_list list"
  is_role :: ice_role
  is_max_checks :: u8
  is_state :: ice_session_state
  is_tie_breaker :: u64

fun each_stream :: "(ice_store \<times> ice_check_list \<Rightarrow> (ice_store \<times> ice_check_list) option) \<Rightarrow>
  ice_check_list list \<Rightarrow> ice_store \<Rightarrow> (ice_store \<times> ice_check_list list) option" where
  "each_stream f [] st = Some (st, [])"
| "each_stream f (cl # cls) st = do {
     (st, cl) \<leftarrow> f (st, cl);
     (st, cls) \<leftarrow> each_stream f cls st;
     Some (st, cl # cls) }"

definition on_streams :: "(ice_store \<times> ice_check_list \<Rightarrow> (ice_store \<times> ice_check_list) option) \<Rightarrow>
  ice_store \<times> ice_session \<Rightarrow> (ice_store \<times> ice_session) option" where
  "on_streams f s = do {
     (st, cls) \<leftarrow> each_stream f (is_streams (snd s)) (fst s);
     Some (st, (snd s)\<lparr>is_streams := cls\<rparr>) }"

definition ice_session_compute_candidates_foundations :: "ice_store \<times> ice_session \<Rightarrow> (ice_store \<times> ice_session) option" where
  "ice_session_compute_candidates_foundations = on_streams ice_check_list_compute_candidates_foundations"

definition ice_session_eliminate_redundant_candidates :: "ice_store \<times> ice_session \<Rightarrow> (ice_store \<times> ice_session) option" where
  "ice_session_eliminate_redundant_candidates = on_streams ice_check_list_eliminate_redundant_candidates"

definition ice_session_choose_default_candidates :: "ice_store \<times> ice_session \<Rightarrow> (ice_store \<times> ice_session) option" where
  "ice_session_choose_default_candidates = on_streams ice_check_list_choose_default_candidates"

definition ice_session_choose_default_remote_candidates :: "ice_store \<times> ice_session \<Rightarrow> (ice_store \<times> ice_session) option" where
  "ice_session_choose_default_remote_candidates = on_streams ice_check_list_choose_default_remote_candidates"

definition ice_session_pair_candidates :: "ice_store \<times> ice_session \<Rightarrow> (ice_store \<times> ice_session) option" where
  "ice_session_pair_candidates s = (let (st, se) = s in
     case find (\<lambda>i. il_state (is_streams se ! i) = ICL_Running) [0..<length (is_streams se)] of
       None \<Rightarrow> Some (st, se)
     | Some i \<Rightarrow> do {
         (st, cls) \<leftarrow> each_stream (ice_check_list_pair_candidates (is_role se) (is_max_checks se)) (is_streams se) st;
         (st, cl) \<leftarrow> ice_compute_pairs_states (st, cls ! i);
         Some (st, se\<lparr>is_streams := cls[i := cl]\<rparr>) })"

definition ice_session_start_connectivity_checks :: "ice_store \<times> ice_session \<Rightarrow> (ice_store \<times> ice_session) option" where
  "ice_session_start_connectivity_checks s = do {
     (st, se) \<leftarrow> ice_session_pair_candidates s;
     Some (st, se\<lparr>is_state := IS_Running\<rparr>) }"

end
