(* ===== verification/Ice_Prio.thy ===== *)
theory Ice_Prio
  imports Ice_Pairs
begin

lemma bit_below: "(y :: u64) < 2 ^ 31 \<Longrightarrow> bit y n \<Longrightarrow> n < 31"
proof -
  assume y: "y < 2 ^ 31" "bit y n"
  have "take_bit 31 (unat y) = unat y" using y(1) by (simp add: take_bit_nat_eq_self word_less_nat_alt)
  moreover have "bit (unat y) n" using y(2) bit_imp_le_length [OF y(2)] by (simp add: bit_unsigned_iff)
  ultimately show "n < 31" by (metis bit_take_bit_iff)
qed

lemma priority_sum:
  assumes "(y :: u64) < 2 ^ 31" and "(b :: u64) = 0 \<or> b = 1"
  shows "push_bit 32 x OR push_bit 1 y OR b = 2 ^ 32 * x + (2 * y + b)"
proof -
  define z where "z = push_bit 1 y"
  have z0: "\<not> bit z 0" unfolding z_def by (simp add: bit_0)
  have z: "n < 32" if "bit z n" for n
  proof -
    have "bit y (n - 1)" using that unfolding z_def bit_push_bit_iff by blast
    then show ?thesis using bit_below [OF assms(1)] by fastforce
  qed
  have a: "z OR b = z + b"
    by (rule disjunctive_add [symmetric]) (use assms(2) z0 in \<open>auto simp: bit_1_iff\<close>)
  have "push_bit 32 x OR (z OR b) = push_bit 32 x + (z OR b)"
    by (rule disjunctive_add [symmetric]) (use assms(2) z in \<open>fastforce simp: bit_push_bit_iff bit_1_iff bit_or_iff\<close>)
  then show ?thesis unfolding z_def [symmetric] a or.assoc by (simp add: z_def push_bit_eq_mult ac_simps)
qed

text \<open>The formula of RFC 5245, 5.7.2.\<close>

definition rfc_pair_priority :: "nat \<Rightarrow> nat \<Rightarrow> nat" where
  "rfc_pair_priority G D = 2 ^ 32 * min G D + 2 * max G D + (if G > D then 1 else 0)"

lemma unat_priority:
  assumes "x < 2 ^ 31" and "y < 2 ^ 31" and "b = 0 \<or> b = (1 :: u64)"
  shows "unat (2 ^ 32 * x + (2 * y + b) :: u64) = 2 ^ 32 * unat x + (2 * unat y + unat b)"
proof -
  have l: "unat x < 2 ^ 31" "unat y < 2 ^ 31" using assms(1,2) by (simp_all add: word_less_nat_alt)
  have b: "unat b \<le> 1" using assms(3) by auto
  have "2 ^ 32 * x + (2 * y + b) = of_nat (2 ^ 32 * unat x + (2 * unat y + unat b))" by simp
  moreover have "2 ^ 32 * unat x + (2 * unat y + unat b) < 2 ^ 64" using l b by simp
  ultimately show ?thesis by (simp only: unat_of_nat) (simp add: take_bit_nat_eq_self)
qed

lemma pair_priority_formula:
  assumes "l < 2 ^ 31" and "r < (2 ^ 31 :: u32)"
  shows "unat (ice_compute_pair_priority role l r) =
    (case role of IR_Controlling \<Rightarrow> rfc_pair_priority (unat l) (unat r) | IR_Controlled \<Rightarrow> rfc_pair_priority (unat r) (unat l))"
proof -
  have *: "unat (push_bit 32 (min (ucast G) (ucast D)) OR push_bit 1 (max (ucast G) (ucast D)) OR (if (ucast G :: u64) > ucast D then 1 else 0) :: u64)
      = rfc_pair_priority (unat G) (unat D)" if "G < 2 ^ 31" "D < 2 ^ 31" for G D :: u32
  proof -
    have u: "unat (ucast G :: u64) = unat G" "unat (ucast D :: u64) = unat D"
      by (simp_all add: unsigned_ucast_eq take_bit_nat_eq_self order.strict_trans [OF unsigned_less])
    have lt: "(ucast G :: u64) < 2 ^ 31" "(ucast D :: u64) < 2 ^ 31"
      using that by (simp_all add: word_less_nat_alt u)
    have mm: "unat (min (ucast G) (ucast D) :: u64) = min (unat G) (unat D)" "unat (max (ucast G) (ucast D) :: u64) = max (unat G) (unat D)"
      by (simp_all add: min_def max_def word_le_nat_alt u)
    have b: "(if (ucast G :: u64) > ucast D then 1 else 0) = (0::u64) \<or> (if (ucast G :: u64) > ucast D then 1 else 0) = (1::u64)" by simp
    have lt2: "min (ucast G) (ucast D) < (2 ^ 31 :: u64)" "max (ucast G) (ucast D) < (2 ^ 31 :: u64)" using lt by (simp_all add: min_def max_def)
    show ?thesis
      unfolding priority_sum [OF lt2(2) b] unat_priority [OF lt2 b] mm rfc_pair_priority_def
      by (simp add: word_less_nat_alt u)
  qed
  show ?thesis using assms by (cases role) (simp_all only: ice_compute_pair_priority_def Let_def ice_role.case *)
qed

lemma rfc_mono:
  "g < g' \<Longrightarrow> rfc_pair_priority g d < rfc_pair_priority g' d" "d < d' \<Longrightarrow> rfc_pair_priority g d < rfc_pair_priority g d'"
  by (auto simp: rfc_pair_priority_def min_def max_def)

lemma pair_priority_mono:
  assumes "l < l'" and "l' < 2 ^ 31" and "r < (2 ^ 31 :: u32)"
  shows "ice_compute_pair_priority role l r < ice_compute_pair_priority role l' r"
proof -
  have "l < 2 ^ 31" using assms(1,2) by (rule order.strict_trans)
  then show ?thesis using assms rfc_mono [of "unat l" "unat l'"]
    by (cases role) (simp_all add: word_less_nat_alt pair_priority_formula)
qed

end
