(* ===== verification/Ice_Check_List.thy ===== *)
theory Ice_Check_List
  imports Ice_Prio "HOL-Library.Multiset"
begin

text \<open>
  What \<^verbatim>\<open>ice_check_list_pair_candidates\<close> makes of gathered candidates: one pair for each local
  candidate that is not server reflexive and each remote one of its component, in the order of priority.
\<close>

section \<open>Gathered candidates\<close>

abbreviation cand :: "ice_store \<Rightarrow> ptr \<Rightarrow> ice_candidate" where "cand st a \<equiv> the (ic_cands st a)"
abbreviation pair :: "ice_store \<Rightarrow> ptr \<Rightarrow> ice_pair" where "pair st a \<equiv> the (ic_pairs st a)"

definition is_srflx :: "ice_store \<Rightarrow> ptr \<Rightarrow> bool" where
  "is_srflx st a \<longleftrightarrow> cd_type (cand st a) = ICT_ServerReflexiveCandidate"

definition cand_key :: "ice_candidate \<Rightarrow> ice_cand_type \<times> string \<times> int \<times> u16 \<times> u32" where
  "cand_key c = (cd_type c, cd_ip c, cd_port c, cd_component c, cd_priority c)"

text \<open>
  The base of a server reflexive candidate is a local candidate that was gathered before it, with the same
  component and a higher priority; candidates of one side differ; the priorities are those of RFC 5245, less than 2^31.
\<close>

definition base_before :: "ice_store \<Rightarrow> ptr list \<Rightarrow> ptr \<Rightarrow> bool" where
  "base_before st earlier l \<longleftrightarrow> (\<exists>b \<in> set earlier. cd_base (cand st l) = Some b \<and> \<not> is_srflx st b \<and>
     cd_component (cand st b) = cd_component (cand st l) \<and> cd_priority (cand st l) < cd_priority (cand st b))"

fun bases_first :: "ice_store \<Rightarrow> ptr list \<Rightarrow> ptr list \<Rightarrow> bool" where
  "bases_first st earlier [] = True"
| "bases_first st earlier (l # ls) = ((is_srflx st l \<longrightarrow> base_before st earlier l) \<and> bases_first st (earlier @ [l]) ls)"

definition cands_ok :: "ice_store \<Rightarrow> ptr list \<Rightarrow> bool" where
  "cands_ok st as \<longleftrightarrow> distinct (map (\<lambda>a. cand_key (cand st a)) as) \<and>
     (\<forall>a \<in> set as. ic_cands st a \<noteq> None \<and> cd_priority (cand st a) < 2 ^ 31 \<and> cd_component (cand st a) \<noteq> 0 \<and>
        length (cd_foundation (cand st a)) \<le> 31)"

definition ice_gathered :: "ice_store \<Rightarrow> ice_check_list \<Rightarrow> bool" where
  "ice_gathered st cl \<longleftrightarrow> cands_ok st (il_local cl) \<and> cands_ok st (il_remote cl) \<and> bases_first st [] (il_local cl) \<and>
     il_state cl = ICL_Running \<and> il_pairs cl = [] \<and> il_valid cl = [] \<and> il_foundations cl = [] \<and>
     (\<forall>a \<ge> ic_next st. ic_pairs st a = None)"

section \<open>Lists\<close>

lemma find_m_Some: "(\<And>x. x \<in> set xs \<Longrightarrow> f x = Some (g x)) \<Longrightarrow> find_m f xs = Some (find g xs)"
  by (induction xs) simp_all

lemma find_filter_append:
  "(\<And>x. find P (xs @ zs) = Some x \<Longrightarrow> Q x) \<Longrightarrow> find P (filter Q xs @ zs) = find P (xs @ zs)"
  by (induction xs) (auto split: if_splits)

section \<open>Forming pairs\<close>

definition new_pair :: "ice_role \<Rightarrow> ice_store \<Rightarrow> ptr \<times> ptr \<Rightarrow> ice_pair" where
  "new_pair role st lr = \<lparr>pr_local = fst lr, pr_remote = snd lr, pr_state = ICP_Frozen,
     pr_priority = ice_compute_pair_priority role (cd_priority (cand st (fst lr))) (cd_priority (cand st (snd lr))),
     pr_rto = ICE_DEFAULT_RTO_DURATION, pr_retransmissions = 0, pr_role = role,
     pr_default = (cd_default (cand st (fst lr)) \<and> cd_default (cand st (snd lr))), pr_use_candidate = False,
     pr_nominated = False, pr_wait_timeout = False\<rparr>"

text \<open>The pairs \<open>ps\<close> are in the store with the records \<open>rs\<close>.\<close>

definition stored :: "ice_store \<Rightarrow> ptr list \<Rightarrow> ice_pair list \<Rightarrow> bool" where
  "stored st ps rs \<longleftrightarrow> map (ic_pairs st) ps = map Some rs \<and> distinct ps \<and> (\<forall>p \<in> set ps. p < ic_next st)"

definition matching :: "ice_store \<Rightarrow> ptr list \<Rightarrow> ptr list \<Rightarrow> (ptr \<times> ptr) list" where
  "matching st ls rs = concat (map (\<lambda>l. map (\<lambda>r. (l, r)) (filter (\<lambda>r. cd_component (cand st l) = cd_component (cand st r)) rs)) ls)"

lemma form_one_stored:
  assumes "stored st ps recs" and "ic_cands st = ic_cands st0" and "ic_cands st0 l \<noteq> None" and "ic_cands st0 r \<noteq> None"
    and "\<forall>a \<ge> ic_next st. ic_pairs st a = None"
  shows "\<exists>st' ps'. form_one role l r (st, ps) = Some (st', ps') \<and>
    stored st' ps' (recs @ (if cd_component (cand st0 l) = cd_component (cand st0 r) then [new_pair role st0 (l, r)] else [])) \<and>
    ic_cands st' = ic_cands st0 \<and> (\<forall>a \<ge> ic_next st'. ic_pairs st' a = None)"
proof -
  obtain cl cr where c: "ic_cands st0 l = Some cl" "ic_cands st0 r = Some cr" using assms(3,4) by blast
  have "ic_next st \<notin> set ps" using assms(1) unfolding stored_def by blast
  moreover from this have "map ((ic_pairs st)(ic_next st \<mapsto> x)) ps = map (ic_pairs st) ps" for x
    by (intro map_cong) auto
  ultimately show ?thesis using assms(1,2,5) c
    by (auto simp: form_one_def ice_pair_new_def new_pair_def stored_def less_Suc_eq)
qed

lemma form_row:
  assumes "stored st ps recs" and "ic_cands st = ic_cands st0" and "ic_cands st0 l \<noteq> None"
    and "\<forall>r \<in> set rs. ic_cands st0 r \<noteq> None" and "\<forall>a \<ge> ic_next st. ic_pairs st a = None"
  shows "\<exists>st' ps'. each_m (\<lambda>r. form_one role l r) rs (st, ps) = Some (st', ps') \<and>
    stored st' ps' (recs @ map (new_pair role st0) (matching st0 [l] rs)) \<and>
    ic_cands st' = ic_cands st0 \<and> (\<forall>a \<ge> ic_next st'. ic_pairs st' a = None)"
  using assms
proof (induction rs arbitrary: st ps recs)
  case Nil
  then show ?case by (auto simp: matching_def)
next
  case (Cons r rs)
  from form_one_stored [OF Cons.prems(1-3) _ Cons.prems(5), of r role] Cons.prems(4) obtain st1 ps1 where
    s: "form_one role l r (st, ps) = Some (st1, ps1)"
      "stored st1 ps1 (recs @ (if cd_component (cand st0 l) = cd_component (cand st0 r) then [new_pair role st0 (l, r)] else []))"
      "ic_cands st1 = ic_cands st0" "\<forall>a \<ge> ic_next st1. ic_pairs st1 a = None"
    by auto
  from Cons.IH [OF s(2,3) Cons.prems(3) _ s(4)] Cons.prems(4) show ?case
    using s(1) by (auto simp: matching_def)
qed

lemma form_all:
  assumes "stored st ps recs" and "ic_cands st = ic_cands st0"
    and "\<forall>l \<in> set ls. ic_cands st0 l \<noteq> None" and "\<forall>r \<in> set rs. ic_cands st0 r \<noteq> None"
    and "\<forall>a \<ge> ic_next st. ic_pairs st a = None"
  shows "\<exists>st' ps'. each_m (\<lambda>l. each_m (\<lambda>r. form_one role l r) rs) ls (st, ps) = Some (st', ps') \<and>
    stored st' ps' (recs @ map (new_pair role st0) (matching st0 ls rs)) \<and> ic_cands st' = ic_cands st0"
  using assms
proof (induction ls arbitrary: st ps recs)
  case Nil
  then show ?case by (simp add: matching_def)
next
  case (Cons l ls)
  from form_row [OF Cons.prems(1,2) _ Cons.prems(4,5), of l role] Cons.prems(3) obtain st1 ps1 where
    s: "each_m (\<lambda>r. form_one role l r) rs (st, ps) = Some (st1, ps1)"
      "stored st1 ps1 (recs @ map (new_pair role st0) (matching st0 [l] rs))"
      "ic_cands st1 = ic_cands st0" "\<forall>a \<ge> ic_next st1. ic_pairs st1 a = None"
    by auto
  from Cons.IH [OF s(2,3) _ Cons.prems(4) s(4)] Cons.prems(3) obtain st2 ps2 where
    "each_m (\<lambda>l. each_m (\<lambda>r. form_one role l r) rs) ls (st1, ps1) = Some (st2, ps2)"
    "stored st2 ps2 ((recs @ map (new_pair role st0) (matching st0 [l] rs)) @ map (new_pair role st0) (matching st0 ls rs))"
    "ic_cands st2 = ic_cands st0"
    by auto
  then show ?case using s(1) by (simp add: matching_def)
qed

section \<open>Bases for server reflexive candidates\<close>

definition base_of :: "ice_store \<Rightarrow> ptr \<Rightarrow> ptr" where
  "base_of st l = (if is_srflx st l then the (cd_base (cand st l)) else l)"

definition on_base :: "ice_store \<Rightarrow> ice_pair \<Rightarrow> ice_pair" where
  "on_base st r = r\<lparr>pr_local := base_of st (pr_local r)\<rparr>"

lemma replace_one:
  assumes "ic_pairs st a = Some r" and "ic_cands st (pr_local r) \<noteq> None"
    and "is_srflx st (pr_local r) \<Longrightarrow> cd_base (cand st (pr_local r)) \<noteq> None"
  shows "ice_replace_srflx_by_base_in_pair a st = Some (st\<lparr>ic_pairs := (ic_pairs st)(a \<mapsto> on_base st r)\<rparr>)"
proof -
  obtain c where c: "ic_cands st (pr_local r) = Some c" using assms(2) by blast
  have same: "st\<lparr>ic_pairs := (ic_pairs st)(a \<mapsto> r)\<rparr> = st" using assms(1) by (simp add: fun_upd_idem)
  show ?thesis
    using assms c same by (auto simp: ice_replace_srflx_by_base_in_pair_def is_srflx_def on_base_def base_of_def upd_pair_def)
qed

lemma replace_all:
  assumes "map (ic_pairs st) ps = map Some rs" and "distinct ps"
    and "\<And>r. r \<in> set rs \<Longrightarrow> ic_cands st (pr_local r) \<noteq> None \<and> (is_srflx st (pr_local r) \<longrightarrow> cd_base (cand st (pr_local r)) \<noteq> None)"
  shows "\<exists>st'. each_m ice_replace_srflx_by_base_in_pair ps st = Some st' \<and>
    map (ic_pairs st') ps = map (\<lambda>r. Some (on_base st r)) rs \<and> ic_cands st' = ic_cands st \<and> ic_next st' = ic_next st \<and>
    (\<forall>p. p \<notin> set ps \<longrightarrow> ic_pairs st' p = ic_pairs st p)"
  using assms
proof (induction ps arbitrary: rs st)
  case Nil
  then show ?case by simp
next
  case (Cons p ps)
  then obtain r rs' where rs: "rs = r # rs'" by (cases rs) auto
  let ?st = "st\<lparr>ic_pairs := (ic_pairs st)(p \<mapsto> on_base st r)\<rparr>"
  have p: "ic_pairs st p = Some r" "map (ic_pairs st) ps = map Some rs'" using Cons.prems(1) rs by simp_all
  have one: "ice_replace_srflx_by_base_in_pair p st = Some ?st"
    using Cons.prems(3) [of r] rs by (intro replace_one) (use p in auto)
  have same: "is_srflx ?st = is_srflx st" "on_base ?st = on_base st"
    by (simp_all add: is_srflx_def on_base_def base_of_def fun_eq_iff)
  have "map (ic_pairs ?st) ps = map Some rs'"
    using p(2) Cons.prems(2) by (metis (no_types, lifting) distinct.simps(2) fun_upd_other ice_store.select_convs(2)
        ice_store.surjective ice_store.update_convs(2) map_eq_conv)
  from Cons.IH [OF this] Cons.prems(2,3) rs same obtain st' where
    "each_m ice_replace_srflx_by_base_in_pair ps ?st = Some st'" "map (ic_pairs st') ps = map (\<lambda>r. Some (on_base st r)) rs'"
    "ic_cands st' = ic_cands st" "ic_next st' = ic_next st" "\<forall>q. q \<notin> set ps \<longrightarrow> ic_pairs st' q = ic_pairs ?st q"
    by auto
  then show ?case using one rs Cons.prems(2) by auto
qed

section \<open>Pruning\<close>

definition pair_ok :: "ice_store \<Rightarrow> ptr \<Rightarrow> bool" where
  "pair_ok st p \<longleftrightarrow> ic_pairs st p \<noteq> None \<and> ic_cands st (pr_local (pair st p)) \<noteq> None \<and> ic_cands st (pr_remote (pair st p)) \<noteq> None"

definition pair_key :: "ice_store \<Rightarrow> ptr \<Rightarrow>
  (ice_cand_type \<times> string \<times> int \<times> u16 \<times> u32) \<times> (ice_cand_type \<times> string \<times> int \<times> u16 \<times> u32)" where
  "pair_key st p = (cand_key (cand st (pr_local (pair st p))), cand_key (cand st (pr_remote (pair st p))))"

definition duplicate_of_better :: "ice_store \<Rightarrow> ptr list \<Rightarrow> ptr \<Rightarrow> bool" where
  "duplicate_of_better st ps p \<longleftrightarrow>
     (\<exists>b. find (\<lambda>b. pair_key st b = pair_key st p) ps = Some b \<and> pr_priority (pair st b) > pr_priority (pair st p))"

definition agree_on :: "ptr list \<Rightarrow> ice_store \<Rightarrow> ice_store \<Rightarrow> bool" where
  "agree_on ps st st0 \<longleftrightarrow> ic_cands st = ic_cands st0 \<and> (\<forall>p \<in> set ps. ic_pairs st p = ic_pairs st0 p)"

lemma compare_key: "ice_compare_candidates c1 c2 \<longleftrightarrow> cand_key c1 = cand_key c2"
  by (auto simp: ice_compare_candidates_def ice_compare_transport_addresses_def cand_key_def)

lemma compare_pairs_eval:
  assumes "pair_ok st a" and "pair_ok st b"
  shows "ice_compare_pairs b a st = Some (pair_key st b = pair_key st a)"
  using assms by (auto simp: pair_ok_def ice_compare_pairs_def compare_cands_at_def compare_key pair_key_def)

lemma is_duplicate_eval:
  assumes "\<forall>p \<in> set ps. pair_ok st p" and "a \<in> set ps"
  shows "is_duplicate a ps st = Some (duplicate_of_better st ps a)"
proof -
  have f: "find_m (\<lambda>b. ice_compare_pairs b a st) ps = Some (find (\<lambda>b. pair_key st b = pair_key st a) ps)"
    using assms by (intro find_m_Some compare_pairs_eval) auto
  show ?thesis
  proof (cases "find (\<lambda>b. pair_key st b = pair_key st a) ps")
    case None
    then show ?thesis using f by (simp add: is_duplicate_def duplicate_of_better_def)
  next
    case (Some b)
    then have "b \<in> set ps" by (auto simp: find_Some_iff)
    then have "pair_ok st a" "pair_ok st b" using assms by auto
    then show ?thesis using f Some by (auto simp: is_duplicate_def duplicate_of_better_def pair_ok_def)
  qed
qed

lemma first_not_duplicate:
  assumes "find (\<lambda>b. pair_key st b = pair_key st p) ps = Some x"
  shows "\<not> duplicate_of_better st ps x"
proof -
  have "pair_key st x = pair_key st p" using assms by (auto simp: find_Some_iff)
  then show ?thesis using assms by (simp add: duplicate_of_better_def)
qed

lemma duplicate_agree:
  assumes "agree_on ps st st0" and "a \<in> set ps"
  shows "duplicate_of_better st ps a = duplicate_of_better st0 ps a"
proof -
  have k: "\<And>p. p \<in> set ps \<Longrightarrow> pair_key st p = pair_key st0 p \<and> pair st p = pair st0 p"
    using assms(1) by (simp add: agree_on_def pair_key_def)
  have "find (\<lambda>b. pair_key st b = pair_key st a) ps = find (\<lambda>b. pair_key st0 b = pair_key st0 a) ps"
    using k assms(2) by (intro find_cong) auto
  then show ?thesis using k assms(2) unfolding duplicate_of_better_def by (auto simp: find_Some_iff)
qed

lemma prune_loop_filters:
  assumes "\<forall>p \<in> set (done @ ahead). pair_ok st0 p" and "distinct (done @ ahead)"
    and "passed = filter (\<lambda>p. \<not> duplicate_of_better st0 (done @ ahead) p) done"
    and "agree_on (passed @ ahead) st st0" and "il_pairs cl = passed @ ahead"
  shows "\<exists>st' cl'. prune_loop passed ahead (st, cl) = Some (st', cl') \<and>
    il_pairs cl' = filter (\<lambda>p. \<not> duplicate_of_better st0 (done @ ahead) p) (done @ ahead) \<and>
    agree_on (il_pairs cl') st' st0 \<and> ic_next st' = ic_next st \<and>
    (il_valid cl = [] \<longrightarrow> cl' = cl\<lparr>il_pairs := il_pairs cl', il_check := il_check cl'\<rparr>)"
  using assms
proof (induction ahead arbitrary: "done" passed st cl)
  case Nil
  then show ?case by simp
next
  case (Cons a ahead)
  let ?orig = "done @ a # ahead"
  let ?dup = "duplicate_of_better st0 ?orig"
  have in_pa: "a \<in> set (passed @ a # ahead)" by simp
  have ok: "\<forall>p \<in> set (passed @ a # ahead). pair_ok st p"
    using Cons.prems(1,3,4) by (auto simp: pair_ok_def agree_on_def)
  have "find (\<lambda>b. pair_key st0 b = pair_key st0 a) (passed @ a # ahead) = find (\<lambda>b. pair_key st0 b = pair_key st0 a) ?orig"
    unfolding Cons.prems(3) by (rule find_filter_append) (rule first_not_duplicate)
  then have "duplicate_of_better st0 (passed @ a # ahead) a = ?dup a" by (simp add: duplicate_of_better_def)
  then have d: "is_duplicate a (il_pairs cl) st = Some (?dup a)"
    using is_duplicate_eval [OF ok in_pa] duplicate_agree [OF Cons.prems(4) in_pa] Cons.prems(5) by simp
  have split: "(done @ [a]) @ ahead = ?orig" by simp
  show ?case
  proof (cases "?dup a")
    case False
    have p: "passed @ [a] = filter (\<lambda>p. \<not> duplicate_of_better st0 ((done @ [a]) @ ahead) p) (done @ [a])"
      using False Cons.prems(3) by simp
    have "prune_loop passed (a # ahead) (st, cl) = prune_loop (passed @ [a]) ahead (st, cl)"
      using d False by (simp add: ice_prune_duplicate_pair_def)
    then show ?thesis using Cons.IH [OF _ _ p, unfolded split, of st cl] Cons.prems(1,2,4,5) by simp
  next
    case True
    have fresh: "a \<notin> set passed" "a \<notin> set ahead" using Cons.prems(2,3) by auto
    let ?st = "st\<lparr>ic_pairs := (ic_pairs st)(a := None)\<rparr>"
    let ?cl = "cl\<lparr>il_pairs := passed @ ahead, il_check := filter (\<lambda>p. p \<noteq> a) (il_check cl), il_valid := filter (\<lambda>v. fst v \<noteq> a) (il_valid cl)\<rparr>"
    have "remove1 a (passed @ a # ahead) = passed @ ahead" using fresh by (simp add: remove1_append)
    moreover have "ic_pairs st a \<noteq> None" using ok in_pa unfolding pair_ok_def by blast
    ultimately have pr: "ice_prune_duplicate_pair a (st, cl) = Some (True, ?st, ?cl)"
      using d True Cons.prems(5) by (auto simp: ice_prune_duplicate_pair_def ice_free_candidate_pair_def)
    have p: "passed = filter (\<lambda>p. \<not> duplicate_of_better st0 ((done @ [a]) @ ahead) p) (done @ [a])"
      using True Cons.prems(3) by simp
    have ag: "agree_on (passed @ ahead) ?st st0" using Cons.prems(4) fresh by (auto simp: agree_on_def)
    have "passed \<noteq> []"
    proof
      assume e: "passed = []"
      from True obtain b where b: "find (\<lambda>b. pair_key st0 b = pair_key st0 a) ?orig = Some b"
        "pr_priority (pair st0 a) < pr_priority (pair st0 b)" unfolding duplicate_of_better_def by blast
      have "find (\<lambda>b. pair_key st0 b = pair_key st0 a) (passed @ a # ahead) = Some b"
        unfolding Cons.prems(3) b(1) [symmetric] by (rule find_filter_append) (rule first_not_duplicate)
      then have "b = a" using e by simp
      then show False using b(2) by simp
    qed
    then have "prune_loop passed (a # ahead) (st, cl) = prune_loop passed ahead (?st, ?cl)"
      using pr by (cases ahead) simp_all
    moreover have "il_pairs ?cl = passed @ ahead" by simp
    from Cons.IH [OF _ _ p ag this, unfolded split, OF Cons.prems(1,2)] obtain st' cl' where
      r: "prune_loop passed ahead (?st, ?cl) = Some (st', cl')" "il_pairs cl' = filter (\<lambda>p. \<not> ?dup p) ?orig"
        "agree_on (il_pairs cl') st' st0" "ic_next st' = ic_next ?st"
        "il_valid ?cl = [] \<longrightarrow> cl' = ?cl\<lparr>il_pairs := il_pairs cl', il_check := il_check cl'\<rparr>" by blast
    moreover have "il_valid cl = [] \<longrightarrow> cl' = cl\<lparr>il_pairs := il_pairs cl', il_check := il_check cl'\<rparr>"
    proof
      assume v: "il_valid cl = []"
      then have "cl' = ?cl\<lparr>il_pairs := il_pairs cl', il_check := il_check cl'\<rparr>" using r(5) by simp
      also have "\<dots> = cl\<lparr>il_pairs := il_pairs cl', il_check := il_check cl'\<rparr>" using v by (cases cl) simp
      finally show "cl' = cl\<lparr>il_pairs := il_pairs cl', il_check := il_check cl'\<rparr>" .
    qed
    ultimately show ?thesis by (intro exI [of _ st'] exI [of _ cl']) simp
  qed
qed

section \<open>The check list\<close>

definition by_priority :: "ice_store \<Rightarrow> ptr list \<Rightarrow> bool" where
  "by_priority st ps \<longleftrightarrow> sorted_wrt (\<lambda>p q. pr_priority (pair st q) \<le> pr_priority (pair st p)) ps"

lemma by_priority_simps [simp]:
  "by_priority st []" "by_priority st (p # ps) \<longleftrightarrow> (\<forall>q \<in> set ps. pr_priority (pair st q) \<le> pr_priority (pair st p)) \<and> by_priority st ps"
  by (simp_all add: by_priority_def)

lemma insert_by_priority_sorted:
  assumes "\<forall>p \<in> set (a # bs). ic_pairs st p \<noteq> None" and "by_priority st bs"
  shows "\<exists>l. insert_by_priority a bs st = Some l \<and> mset l = add_mset a (mset bs) \<and>
    by_priority st l"
  using assms
proof (induction bs)
  case (Cons b bs)
  then obtain l where l: "insert_by_priority a bs st = Some l" "mset l = add_mset a (mset bs)"
    "by_priority st l" by auto
  have s: "set l = insert a (set bs)" using l(2) by (metis set_mset_add_mset_insert set_mset_mset)
  show ?case
  proof (cases "pr_priority (pair st a) < pr_priority (pair st b)")
    case True
    then have "by_priority st (b # l)"
      using l(3) Cons.prems(2) s by auto
    then show ?thesis using True Cons.prems(1) l(1,2) by (intro exI [of _ "b # l"]) auto
  next
    case False
    then have "by_priority st (a # b # bs)"
      using Cons.prems(2) by (auto simp: not_less)
    then show ?thesis using False Cons.prems(1) by (intro exI [of _ "a # b # bs"]) auto
  qed
qed simp

lemma create_check_list:
  assumes "\<forall>p \<in> set (ps @ il_check cl). ic_pairs st p \<noteq> None"
    and "by_priority st (il_check cl)"
  shows "\<exists>l. each_m ice_create_check_list ps (st, cl) = Some (st, cl\<lparr>il_check := l\<rparr>) \<and> mset l = mset ps + mset (il_check cl) \<and>
    by_priority st l"
  using assms
proof (induction ps arbitrary: cl)
  case Nil
  then show ?case by (intro exI [of _ "il_check cl"]) simp
next
  case (Cons p ps)
  from insert_by_priority_sorted [OF _ Cons.prems(2), of p] Cons.prems(1) obtain l where
    l: "insert_by_priority p (il_check cl) st = Some l" "mset l = add_mset p (mset (il_check cl))"
      "by_priority st l" by auto
  have s: "set l = insert p (set (il_check cl))" using l(2) by (metis set_mset_add_mset_insert set_mset_mset)
  from Cons.IH [of "cl\<lparr>il_check := l\<rparr>"] Cons.prems(1) l(3) s obtain l' where
    "each_m ice_create_check_list ps (st, cl\<lparr>il_check := l\<rparr>) = Some (st, cl\<lparr>il_check := l'\<rparr>)"
    "mset l' = mset ps + mset l" "by_priority st l'" by auto
  moreover have "ice_create_check_list p (st, cl) = Some (st, cl\<lparr>il_check := l\<rparr>)"
    using l(1) by (simp add: ice_create_check_list_def)
  ultimately show ?case using l(2) by (intro exI [of _ l']) simp
qed

section \<open>Which pairs are pruned\<close>

lemma find_SomeD: "find P xs = Some x \<Longrightarrow> P x \<and> x \<in> set xs"
  by (auto simp: find_Some_iff)

lemma find_append_Some: "find P xs = Some x \<Longrightarrow> find P (xs @ zs) = Some x"
  by (induction xs) (auto split: if_splits)

lemma find_all2:
  assumes "list_all2 (\<lambda>p c. P p = Q c) ps cs"
  shows "find P ps = None \<and> find Q cs = None \<or> (\<exists>i < length ps. find P ps = Some (ps ! i) \<and> find Q cs = Some (cs ! i))"
  using assms
proof (induction rule: list_all2_induct)
  case (Cons p ps c cs)
  then show ?case by (auto intro: exI [of _ 0] exI [of _ "Suc i" for i])
qed simp

lemma filter_all2:
  "list_all2 (\<lambda>p c. P p = Q c \<and> (Q c \<longrightarrow> f p = g c)) ps cs \<Longrightarrow> map f (filter P ps) = map g (filter Q cs)"
  by (induction rule: list_all2_induct) auto

lemma matching_append: "matching st (ls @ ls') rs = matching st ls rs @ matching st ls' rs"
  by (simp add: matching_def)

lemma matching_set: "(l, r) \<in> set (matching st ls rs) \<longleftrightarrow> l \<in> set ls \<and> r \<in> set rs \<and> cd_component (cand st l) = cd_component (cand st r)"
  by (auto simp: matching_def)

lemma distinct_matching: "distinct ls \<Longrightarrow> distinct rs \<Longrightarrow> distinct (matching st ls rs)"
proof (induction ls)
  case (Cons l ls)
  have "matching st (l # ls) rs = map (Pair l) (filter (\<lambda>r. cd_component (cand st l) = cd_component (cand st r)) rs) @ matching st ls rs"
    by (simp add: matching_def)
  then show ?case using Cons by (auto simp: distinct_map inj_on_def matching_set)
qed (simp add: matching_def)

lemma bases_first_split:
  "bases_first st es (xs @ l # ys) \<Longrightarrow> is_srflx st l \<Longrightarrow> base_before st (es @ xs) l"
proof (induction xs arbitrary: es)
  case (Cons a xs)
  from Cons.IH [of "es @ [a]"] Cons.prems show ?case by simp
qed simp

lemma cands_okD:
  assumes "cands_ok st as"
  shows "distinct as" and "\<And>a b. a \<in> set as \<Longrightarrow> b \<in> set as \<Longrightarrow> cand_key (cand st a) = cand_key (cand st b) \<Longrightarrow> a = b"
    and "\<And>a. a \<in> set as \<Longrightarrow> ic_cands st a \<noteq> None \<and> cd_priority (cand st a) < 2 ^ 31 \<and> cd_component (cand st a) \<noteq> 0 \<and>
      length (cd_foundation (cand st a)) \<le> 31"
  using assms by (auto simp: cands_ok_def distinct_map inj_on_def)

lemma base_of_local:
  assumes "bases_first st [] ls" and "l \<in> set ls"
  shows "base_of st l \<in> set ls" and "\<not> is_srflx st (base_of st l)"
    and "cd_component (cand st (base_of st l)) = cd_component (cand st l)"
    and "is_srflx st l \<Longrightarrow> cd_base (cand st l) = Some (base_of st l) \<and> cd_priority (cand st l) < cd_priority (cand st (base_of st l))"
proof -
  obtain xs ys where s: "ls = xs @ l # ys" using assms(2) by (meson split_list)
  have b: "is_srflx st l \<Longrightarrow> base_before st xs l" using bases_first_split [of st "[]" xs l ys] assms(1) s by simp
  show "base_of st l \<in> set ls" "\<not> is_srflx st (base_of st l)"
    "cd_component (cand st (base_of st l)) = cd_component (cand st l)"
    using b assms(2) s by (auto simp: base_of_def base_before_def)
  show "is_srflx st l \<Longrightarrow> cd_base (cand st l) = Some (base_of st l) \<and> cd_priority (cand st l) < cd_priority (cand st (base_of st l))"
    using b by (auto simp: base_of_def base_before_def)
qed

text \<open>The first pair on a base is that of the base itself.\<close>

lemma first_on_base:
  assumes "bases_first st [] ls" and "distinct ls"
    and f: "find (\<lambda>c. base_of st (fst c) = b \<and> snd c = r) (matching st ls rs) = Some (l, r')"
  shows "l = b \<and> r' = r"
proof -
  have p: "base_of st l = b" "r' = r" "(l, r) \<in> set (matching st ls rs)" using find_SomeD [OF f] by auto
  have "\<not> is_srflx st l"
  proof
    assume s: "is_srflx st l"
    have l: "l \<in> set ls" "r \<in> set rs" "cd_component (cand st l) = cd_component (cand st r)"
      using p(3) by (simp_all add: matching_set)
    obtain xs ys where ls: "ls = xs @ l # ys" using l(1) by (meson split_list)
    have "base_before st xs l" using bases_first_split [of st "[]" xs l ys] assms(1) ls s by simp
    then have b: "b \<in> set xs" "\<not> is_srflx st b" "cd_component (cand st b) = cd_component (cand st l)"
      using p(1) s by (auto simp: base_before_def base_of_def)
    have m: "(b, r) \<in> set (matching st xs rs)" using b l by (simp add: matching_set)
    then obtain c where c: "find (\<lambda>c. base_of st (fst c) = b \<and> snd c = r) (matching st xs rs) = Some c" "c \<in> set (matching st xs rs)"
      using b(2) by (cases "find (\<lambda>c. base_of st (fst c) = b \<and> snd c = r) (matching st xs rs)")
        (force simp: find_None_iff base_of_def, auto simp: find_Some_iff)
    have "find (\<lambda>c. base_of st (fst c) = b \<and> snd c = r) (matching st xs rs @ zs) = Some c" for zs
      by (rule find_append_Some [OF c(1)])
    then have "c = (l, r')" using f ls by (simp add: matching_append [of st xs "l # ys"])
    then have "l \<in> set xs" using c(2) by (simp add: matching_set)
    then show False using assms(2) ls by simp
  qed
  then show ?thesis using p by (simp add: base_of_def)
qed

text \<open>The pairs after the bases have been put in, and the records they have.\<close>

definition based :: "ice_role \<Rightarrow> ice_store \<Rightarrow> ptr \<times> ptr \<Rightarrow> ice_pair" where
  "based role st lr = on_base st (new_pair role st lr)"

definition holds_pairs :: "ice_role \<Rightarrow> ice_store \<Rightarrow> ice_store \<Rightarrow> ptr list \<Rightarrow> (ptr \<times> ptr) list \<Rightarrow> bool" where
  "holds_pairs role st0 st ps cs \<longleftrightarrow> ic_cands st = ic_cands st0 \<and> distinct ps \<and>
     list_all2 (\<lambda>p c. ic_pairs st p = Some (based role st0 c)) ps cs"

lemma based_simps [simp]:
  "pr_local (based role st (l, r)) = base_of st l" "pr_remote (based role st (l, r)) = r"
  "pr_state (based role st (l, r)) = ICP_Frozen"
  "pr_priority (based role st (l, r)) = ice_compute_pair_priority role (cd_priority (cand st l)) (cd_priority (cand st r))"
  by (simp_all add: based_def on_base_def new_pair_def)

lemma formed_and_based:
  assumes g: "ice_gathered st cl"
  shows "\<exists>st1 ps st2. ice_form_candidate_pairs role (st, cl) = Some (st1, cl\<lparr>il_pairs := ps\<rparr>) \<and>
    each_m ice_replace_srflx_by_base_in_pair ps st1 = Some st2 \<and>
    holds_pairs role st st2 ps (matching st (il_local cl) (il_remote cl))"
proof -
  have s0: "stored st [] []" by (simp add: stored_def)
  have ok: "cands_ok st (il_local cl)" "cands_ok st (il_remote cl)" "bases_first st [] (il_local cl)"
    using g by (simp_all add: ice_gathered_def)
  have fresh: "\<forall>a \<ge> ic_next st. ic_pairs st a = None" using g by (simp add: ice_gathered_def)
  have l: "\<forall>l \<in> set (il_local cl). ic_cands st l \<noteq> None" "\<forall>r \<in> set (il_remote cl). ic_cands st r \<noteq> None"
    using cands_okD(3) [OF ok(1)] cands_okD(3) [OF ok(2)] by auto
  let ?cs = "matching st (il_local cl) (il_remote cl)"
  from form_all [OF s0 refl l fresh, of role] obtain st1 ps where
    f: "each_m (\<lambda>l. each_m (\<lambda>r. form_one role l r) (il_remote cl)) (il_local cl) (st, []) = Some (st1, ps)"
      "stored st1 ps (map (new_pair role st) ?cs)" "ic_cands st1 = ic_cands st" by auto
  have form: "ice_form_candidate_pairs role (st, cl) = Some (st1, cl\<lparr>il_pairs := ps\<rparr>)"
    using f(1) g by (simp add: ice_form_candidate_pairs_def ice_gathered_def)
  have same: "is_srflx st1 = is_srflx st" "on_base st1 = on_base st"
    using f(3) by (simp_all add: is_srflx_def on_base_def base_of_def fun_eq_iff)
  have r: "ic_cands st1 (pr_local r) \<noteq> None \<and> (is_srflx st1 (pr_local r) \<longrightarrow> cd_base (cand st1 (pr_local r)) \<noteq> None)"
    if "r \<in> set (map (new_pair role st) ?cs)" for r
    using that l(1) base_of_local(4) [OF ok(3)] unfolding same f(3)
    by (auto simp: new_pair_def matching_set)
  have st: "map (ic_pairs st1) ps = map Some (map (new_pair role st) ?cs)" "distinct ps"
    using f(2) by (simp_all add: stored_def)
  from replace_all [OF st r] obtain st2 where
    b: "each_m ice_replace_srflx_by_base_in_pair ps st1 = Some st2"
      "map (ic_pairs st2) ps = map (\<lambda>r. Some (on_base st1 r)) (map (new_pair role st) ?cs)" "ic_cands st2 = ic_cands st1" by blast
  have "list_all2 (\<lambda>p c. ic_pairs st2 p = Some (based role st c)) ps ?cs"
    using b(2) by (simp add: list_all2_conv_all_nth same based_def list_eq_iff_nth_eq)
  then show ?thesis using form b(1,3) f(3) st(2) unfolding holds_pairs_def by auto
qed

lemma holds_pairs_in_set:
  assumes "holds_pairs role st0 st ps cs" and "p \<in> set ps"
  shows "\<exists>c \<in> set cs. ic_pairs st p = Some (based role st0 c)"
proof -
  obtain i where i: "i < length ps" "p = ps ! i" using assms(2) by (metis in_set_conv_nth)
  then have "ic_pairs st p = Some (based role st0 (cs ! i))" "i < length cs"
    using assms(1) by (simp_all add: holds_pairs_def list_all2_conv_all_nth)
  then show ?thesis using nth_mem by blast
qed

lemma holds_pair_ok:
  assumes h: "holds_pairs role st0 st ps (matching st0 ls rs)" and ok: "cands_ok st0 ls" "cands_ok st0 rs" "bases_first st0 [] ls"
  shows "\<forall>p \<in> set ps. pair_ok st p"
proof
  fix p assume "p \<in> set ps"
  from holds_pairs_in_set [OF h this] obtain l r where
    lr: "(l, r) \<in> set (matching st0 ls rs)" "ic_pairs st p = Some (based role st0 (l, r))" by (metis surj_pair)
  then have "l \<in> set ls" "r \<in> set rs" by (simp_all add: matching_set)
  then have "ic_cands st0 (base_of st0 l) \<noteq> None" "ic_cands st0 r \<noteq> None"
    using cands_okD(3) [OF ok(1) base_of_local(1) [OF ok(3)]] cands_okD(3) [OF ok(2)] by blast+
  moreover have "ic_cands st = ic_cands st0" using h by (simp add: holds_pairs_def)
  ultimately show "pair_ok st p" using lr(2) unfolding pair_ok_def by simp
qed

lemma duplicate_iff_srflx:
  assumes h: "holds_pairs role st0 st ps (matching st0 ls rs)" and ok: "cands_ok st0 ls" "cands_ok st0 rs" "bases_first st0 [] ls"
    and p: "ic_pairs st p = Some (based role st0 (l, r))" "(l, r) \<in> set (matching st0 ls rs)"
  shows "duplicate_of_better st ps p \<longleftrightarrow> is_srflx st0 l"
proof -
  let ?cs = "matching st0 ls rs"
  have lr: "l \<in> set ls" "r \<in> set rs" "cd_component (cand st0 l) = cd_component (cand st0 r)" using p(2) by (simp_all add: matching_set)
  have key: "pair_key st q = pair_key st p \<longleftrightarrow> base_of st0 (fst c) = base_of st0 l \<and> snd c = r"
    if "ic_pairs st q = Some (based role st0 c)" "c \<in> set ?cs" for q c
  proof -
    obtain a b where c: "c = (a, b)" by (cases c)
    then have "a \<in> set ls" "b \<in> set rs" using that(2) by (simp_all add: matching_set)
    then show ?thesis using that(1) p(1) h lr cands_okD(2) [OF ok(1)] cands_okD(2) [OF ok(2)] base_of_local(1) [OF ok(3)]
      by (auto simp: pair_key_def holds_pairs_def c)
  qed
  have "list_all2 (\<lambda>q c. (pair_key st q = pair_key st p) = (base_of st0 (fst c) = base_of st0 l \<and> snd c = r)) ps ?cs"
    using h key unfolding holds_pairs_def list_all2_conv_all_nth by (metis nth_mem)
  note all2 = find_all2 [OF this]
  have "find (\<lambda>c. base_of st0 (fst c) = base_of st0 l \<and> snd c = r) ?cs \<noteq> None"
    using p(2) unfolding find_None_iff by fastforce
  with all2 have "\<exists>i < length ps. find (\<lambda>q. pair_key st q = pair_key st p) ps = Some (ps ! i) \<and>
      find (\<lambda>c. base_of st0 (fst c) = base_of st0 l \<and> snd c = r) ?cs = Some (?cs ! i)"
    by blast
  then obtain i where i: "i < length ps" "find (\<lambda>q. pair_key st q = pair_key st p) ps = Some (ps ! i)"
    "find (\<lambda>c. base_of st0 (fst c) = base_of st0 l \<and> snd c = r) ?cs = Some (?cs ! i)" by blast
  obtain l' r' where c: "?cs ! i = (l', r')" by (cases "?cs ! i")
  have first: "l' = base_of st0 l" "r' = r"
    using first_on_base [OF ok(3) cands_okD(1) [OF ok(1)] i(3) [unfolded c]] by simp_all
  have q: "ic_pairs st (ps ! i) = Some (based role st0 (base_of st0 l, r))"
    using h i(1) c first by (simp add: holds_pairs_def list_all2_conv_all_nth)
  have "duplicate_of_better st ps p \<longleftrightarrow> pr_priority (pair st p) < pr_priority (pair st (ps ! i))"
    using i(2) by (simp add: duplicate_of_better_def)
  also have "\<dots> \<longleftrightarrow> ice_compute_pair_priority role (cd_priority (cand st0 l)) (cd_priority (cand st0 r)) <
      ice_compute_pair_priority role (cd_priority (cand st0 (base_of st0 l))) (cd_priority (cand st0 r))"
    using p(1) q by simp
  also have "\<dots> \<longleftrightarrow> is_srflx st0 l"
  proof (cases "is_srflx st0 l")
    case True
    then have "cd_priority (cand st0 l) < cd_priority (cand st0 (base_of st0 l))" using base_of_local(4) [OF ok(3) lr(1)] by blast
    then show ?thesis
      using True pair_priority_mono cands_okD(3) [OF ok(1) base_of_local(1) [OF ok(3) lr(1)]] cands_okD(3) [OF ok(2) lr(2)] by blast
  qed (simp add: base_of_def)
  finally show ?thesis .
qed

section \<open>The result\<close>

text \<open>One pair for each local candidate that is its own base and each remote one of its component.\<close>

definition expected_pairs :: "ice_store \<Rightarrow> ice_check_list \<Rightarrow> (ptr \<times> ptr) list" where
  "expected_pairs st cl = filter (\<lambda>(l, r). \<not> is_srflx st l) (matching st (il_local cl) (il_remote cl))"

lemma based_own: "\<not> is_srflx st l \<Longrightarrow> based role st (l, r) = new_pair role st (l, r)"
  by (simp add: based_def on_base_def base_of_def new_pair_def)

lemma pairs_pruned:
  assumes g: "ice_gathered st cl"
  shows "\<exists>st1 ps st2 st3 cl3. ice_form_candidate_pairs role (st, cl) = Some (st1, cl\<lparr>il_pairs := ps\<rparr>) \<and>
    each_m ice_replace_srflx_by_base_in_pair ps st1 = Some st2 \<and>
    prune_loop [] ps (st2, cl\<lparr>il_pairs := ps\<rparr>) = Some (st3, cl3) \<and> ic_cands st3 = ic_cands st \<and>
    cl3 = cl\<lparr>il_pairs := il_pairs cl3, il_check := il_check cl3\<rparr> \<and> distinct (il_pairs cl3) \<and>
    map (ic_pairs st3) (il_pairs cl3) = map (\<lambda>c. Some (new_pair role st c)) (expected_pairs st cl)"
proof -
  have ok: "cands_ok st (il_local cl)" "cands_ok st (il_remote cl)" "bases_first st [] (il_local cl)" "il_valid cl = []"
    using g by (simp_all add: ice_gathered_def)
  let ?cs = "matching st (il_local cl) (il_remote cl)"
  from formed_and_based [OF g, of role] obtain st1 ps st2 where
    f: "ice_form_candidate_pairs role (st, cl) = Some (st1, cl\<lparr>il_pairs := ps\<rparr>)"
      "each_m ice_replace_srflx_by_base_in_pair ps st1 = Some st2" and h: "holds_pairs role st st2 ps ?cs" by blast
  have d: "distinct ([] @ ps)" "\<forall>p \<in> set ([] @ ps). pair_ok st2 p"
    using h holds_pair_ok [OF h ok(1-3)] by (simp_all add: holds_pairs_def)
  have "[] = filter (\<lambda>p. \<not> duplicate_of_better st2 ([] @ ps) p) []" "agree_on ([] @ ps) st2 st2"
    "il_pairs (cl\<lparr>il_pairs := ps\<rparr>) = [] @ ps" by (simp_all add: agree_on_def)
  from prune_loop_filters [OF d(2,1) this] obtain st3 cl3 where
    p: "prune_loop [] ps (st2, cl\<lparr>il_pairs := ps\<rparr>) = Some (st3, cl3)"
      "il_pairs cl3 = filter (\<lambda>p. \<not> duplicate_of_better st2 ps p) ps" "agree_on (il_pairs cl3) st3 st2"
      "cl3 = cl\<lparr>il_pairs := il_pairs cl3, il_check := il_check cl3\<rparr>" using ok(4) by auto
  have "list_all2 (\<lambda>p c. (\<not> duplicate_of_better st2 ps p) = (case c of (l, r) \<Rightarrow> \<not> is_srflx st l) \<and>
      ((case c of (l, r) \<Rightarrow> \<not> is_srflx st l) \<longrightarrow> ic_pairs st2 p = Some (new_pair role st c))) ps ?cs"
    unfolding list_all2_conv_all_nth
  proof (intro conjI allI impI)
    show "length ps = length ?cs" using h by (simp add: holds_pairs_def list_all2_conv_all_nth)
    fix i assume i: "i < length ps"
    obtain l r where c: "?cs ! i = (l, r)" by (cases "?cs ! i")
    have rec: "ic_pairs st2 (ps ! i) = Some (based role st (l, r))"
      using h i c by (simp add: holds_pairs_def list_all2_conv_all_nth)
    have m: "(l, r) \<in> set ?cs" using i c h by (metis holds_pairs_def list_all2_lengthD nth_mem)
    show "(\<not> duplicate_of_better st2 ps (ps ! i)) = (case ?cs ! i of (l, r) \<Rightarrow> \<not> is_srflx st l)"
      using duplicate_iff_srflx [OF h ok(1-3) rec m] c by simp
    show "case ?cs ! i of (l, r) \<Rightarrow> \<not> is_srflx st l \<Longrightarrow> ic_pairs st2 (ps ! i) = Some (new_pair role st (?cs ! i))"
      using rec c by (simp add: based_own)
  qed
  then have "map (ic_pairs st2) (il_pairs cl3) = map (\<lambda>c. Some (new_pair role st c)) (expected_pairs st cl)"
    unfolding p(2) expected_pairs_def by (rule filter_all2)
  moreover have "map (ic_pairs st3) (il_pairs cl3) = map (ic_pairs st2) (il_pairs cl3)" "ic_cands st3 = ic_cands st"
    using p(3) h by (simp_all add: agree_on_def holds_pairs_def)
  moreover have "distinct (il_pairs cl3)" using p(2) d(1) by simp
  ultimately show ?thesis using f p(1,4) by metis
qed

section \<open>The foundations of the pairs\<close>

definition found :: "ice_store \<Rightarrow> ptr \<Rightarrow> string \<times> string" where
  "found st p = (cd_foundation (cand st (pr_local (pair st p))), cd_foundation (cand st (pr_remote (pair st p))))"

definition short_founds :: "ice_store \<Rightarrow> ptr \<Rightarrow> bool" where
  "short_founds st p \<longleftrightarrow> pair_ok st p \<and> length (fst (found st p)) \<le> 31 \<and> length (snd (found st p)) \<le> 31"

lemma pair_foundation_eval: "pair_ok st p \<Longrightarrow> pair_foundation p st = Some (found st p)"
  by (auto simp: pair_ok_def pair_foundation_def found_def)

lemma foundations_listed:
  assumes "\<forall>p \<in> set ps. short_founds st p" and "distinct (il_foundations cl)"
  shows "\<exists>fs. each_m ice_generate_pair_foundations_list ps (st, cl) = Some (st, cl\<lparr>il_foundations := fs\<rparr>) \<and>
    distinct fs \<and> set fs = set (il_foundations cl) \<union> found st ` set ps"
  using assms
proof (induction ps arbitrary: cl)
  case Nil
  then show ?case by (intro exI [of _ "il_foundations cl"]) simp
next
  case (Cons p ps)
  let ?fs = "if found st p \<in> set (il_foundations cl) then il_foundations cl else il_foundations cl @ [found st p]"
  have "short_founds st p" using Cons.prems(1) by simp
  then have "ice_generate_pair_foundations_list p (st, cl) = Some (st, cl\<lparr>il_foundations := ?fs\<rparr>)"
    by (cases "found st p") (auto simp: short_founds_def ice_generate_pair_foundations_list_def pair_foundation_eval Let_def)
  moreover have "distinct ?fs" using Cons.prems(2) by simp
  with Cons.IH [of "cl\<lparr>il_foundations := ?fs\<rparr>"] Cons.prems(1) obtain fs where
    "each_m ice_generate_pair_foundations_list ps (st, cl\<lparr>il_foundations := ?fs\<rparr>) = Some (st, cl\<lparr>il_foundations := fs\<rparr>)"
    "distinct fs" "set fs = set ?fs \<union> found st ` set ps"
    by (metis (no_types, lifting) ice_check_list.select_convs(8) ice_check_list.surjective ice_check_list.update_convs(8) list.set_intros(2))
  ultimately show ?case by (intro exI [of _ fs]) auto
qed

section \<open>The check list of gathered candidates\<close>

lemma limit_faults: "limit_loop (Suc n) pos s = None"
  by (cases s) (auto simp: ice_free_candidate_pair_def Let_def split: Option.bind_splits)

lemma expected_in:
  "(l, r) \<in> set (expected_pairs st cl) \<Longrightarrow> l \<in> set (il_local cl) \<and> r \<in> set (il_remote cl) \<and>
     cd_component (cand st l) = cd_component (cand st r) \<and> \<not> is_srflx st l"
  by (auto simp: expected_pairs_def matching_set)

text \<open>What the store holds of the pairs of a check list.\<close>

definition lists_pairs :: "ice_role \<Rightarrow> ice_store \<Rightarrow> ice_check_list \<Rightarrow> ice_store \<Rightarrow> ptr list \<Rightarrow> bool" where
  "lists_pairs role st0 cl st ps \<longleftrightarrow> distinct ps \<and> ic_cands st = ic_cands st0 \<and>
     mset (map (ic_pairs st) ps) = mset (map (\<lambda>c. Some (new_pair role st0 c)) (expected_pairs st0 cl))"

lemma lists_pairs_in:
  assumes "lists_pairs role st0 cl st ps" and "p \<in> set ps"
  shows "\<exists>c \<in> set (expected_pairs st0 cl). ic_pairs st p = Some (new_pair role st0 c)"
proof -
  have "set (map (ic_pairs st) ps) = set (map (\<lambda>c. Some (new_pair role st0 c)) (expected_pairs st0 cl))"
    using assms(1) unfolding lists_pairs_def by (metis set_mset_mset)
  moreover have "ic_pairs st p \<in> set (map (ic_pairs st) ps)" using assms(2) by simp
  ultimately show ?thesis by auto
qed

lemma lists_pairs_short:
  assumes g: "ice_gathered st0 cl" and l: "lists_pairs role st0 cl st ps" and p: "p \<in> set ps"
  shows "short_founds st p" and "cd_component (cand st (pr_local (pair st p))) \<noteq> 0"
proof -
  obtain a b where c: "(a, b) \<in> set (expected_pairs st0 cl)" "ic_pairs st p = Some (new_pair role st0 (a, b))"
    using lists_pairs_in [OF l p] by auto
  have ok: "cands_ok st0 (il_local cl)" "cands_ok st0 (il_remote cl)" using g by (simp_all add: ice_gathered_def)
  have ab: "a \<in> set (il_local cl)" "b \<in> set (il_remote cl)" using expected_in [OF c(1)] by simp_all
  have "ic_cands st = ic_cands st0" using l by (simp add: lists_pairs_def)
  then show "short_founds st p" "cd_component (cand st (pr_local (pair st p))) \<noteq> 0"
    using c(2) cands_okD(3) [OF ok(1) ab(1)] cands_okD(3) [OF ok(2) ab(2)]
    by (auto simp: short_founds_def pair_ok_def found_def new_pair_def)
qed

lemma pruned_and_listed:
  assumes g: "ice_gathered st cl"
  shows "\<exists>st1 ps st3 cl3 l. ice_form_candidate_pairs role (st, cl) = Some (st1, cl\<lparr>il_pairs := ps\<rparr>) \<and>
    ice_prune_candidate_pairs mx (st1, cl\<lparr>il_pairs := ps\<rparr>) =
      (if length l > unat mx then None else Some (st3, cl3)) \<and>
    il_check cl3 = l \<and> lists_pairs role st cl st3 l \<and> by_priority st3 l \<and> mset (il_pairs cl3) = mset l \<and>
    cl3 = cl\<lparr>il_pairs := il_pairs cl3, il_check := l\<rparr>"
proof -
  from pairs_pruned [OF g, of role] obtain st1 ps st2 st3 cl3 where
    f: "ice_form_candidate_pairs role (st, cl) = Some (st1, cl\<lparr>il_pairs := ps\<rparr>)"
      "each_m ice_replace_srflx_by_base_in_pair ps st1 = Some st2"
      "prune_loop [] ps (st2, cl\<lparr>il_pairs := ps\<rparr>) = Some (st3, cl3)" "ic_cands st3 = ic_cands st"
      "cl3 = cl\<lparr>il_pairs := il_pairs cl3, il_check := il_check cl3\<rparr>" "distinct (il_pairs cl3)"
      "map (ic_pairs st3) (il_pairs cl3) = map (\<lambda>c. Some (new_pair role st c)) (expected_pairs st cl)" by blast
  have "ic_pairs st3 p \<noteq> None" if "p \<in> set (il_pairs cl3)" for p
  proof -
    have "ic_pairs st3 p \<in> set (map (ic_pairs st3) (il_pairs cl3))" using that by simp
    then show ?thesis unfolding f(7) by auto
  qed
  then have "\<forall>p \<in> set (il_pairs cl3 @ il_check (cl3\<lparr>il_check := []\<rparr>)). ic_pairs st3 p \<noteq> None" by simp
  from create_check_list [OF this] obtain l where
    l: "each_m ice_create_check_list (il_pairs cl3) (st3, cl3\<lparr>il_check := []\<rparr>) = Some (st3, cl3\<lparr>il_check := l\<rparr>)"
      "mset l = mset (il_pairs cl3)" "by_priority st3 l" by auto
  have n: "limit_loop (length l - unat mx) (length l - 1) (st3, cl3\<lparr>il_check := l\<rparr>) = None" if "length l > unat mx"
    using that by (metis limit_faults Suc_diff_Suc)
  have pr: "ice_prune_candidate_pairs mx (st1, cl\<lparr>il_pairs := ps\<rparr>) =
      (if length l > unat mx then None else Some (st3, cl3\<lparr>il_check := l\<rparr>))"
    using f(2,3) l(1) n by (simp add: ice_prune_candidate_pairs_def Let_def)
  have "mset (map (ic_pairs st3) l) = mset (map (ic_pairs st3) (il_pairs cl3))" using l(2) by simp
  then have "lists_pairs role st cl st3 l"
    using f(4,6,7) l(2) unfolding lists_pairs_def by (metis mset_eq_imp_distinct_iff)
  moreover have "cl3\<lparr>il_check := l\<rparr> = cl\<lparr>il_pairs := il_pairs cl3, il_check := l\<rparr>"
  proof -
    have "cl3\<lparr>il_check := l\<rparr> = cl\<lparr>il_pairs := il_pairs cl3, il_check := il_check cl3\<rparr>\<lparr>il_check := l\<rparr>" using f(5) by simp
    then show ?thesis by simp
  qed
  ultimately show ?thesis using f(1) pr l(2,3)
    by (intro exI [of _ st1] exI [of _ ps] exI [of _ st3] exI [of _ "cl3\<lparr>il_check := l\<rparr>"] exI [of _ l]) simp
qed

lemma listed_length: "lists_pairs role st0 cl st ps \<Longrightarrow> length ps = length (expected_pairs st0 cl)"
  unfolding lists_pairs_def by (metis length_map size_mset)

lemma check_list_eval:
  assumes g: "ice_gathered st cl"
  shows "if length (expected_pairs st cl) > unat mx then ice_check_list_pair_candidates role mx (st, cl) = None
    else \<exists>st' ps l fs. ice_check_list_pair_candidates role mx (st, cl) =
        Some (st', cl\<lparr>il_pairs := ps, il_check := l, il_foundations := fs\<rparr>) \<and>
      lists_pairs role st cl st' l \<and> by_priority st' l \<and> mset ps = mset l \<and> distinct fs \<and> set fs = found st' ` set l"
proof -
  from pruned_and_listed [OF g, of role mx] obtain st1 ps st3 cl3 l where
    f: "ice_form_candidate_pairs role (st, cl) = Some (st1, cl\<lparr>il_pairs := ps\<rparr>)"
      "ice_prune_candidate_pairs mx (st1, cl\<lparr>il_pairs := ps\<rparr>) = (if length l > unat mx then None else Some (st3, cl3))"
      "il_check cl3 = l" "lists_pairs role st cl st3 l" "by_priority st3 l" "mset (il_pairs cl3) = mset l"
      "cl3 = cl\<lparr>il_pairs := il_pairs cl3, il_check := l\<rparr>" by blast
  have run: "il_state cl = ICL_Running" "il_foundations cl = []" using g by (simp_all add: ice_gathered_def)
  show ?thesis
  proof (cases "length (expected_pairs st cl) > unat mx")
    case True
    then show ?thesis using f(1,2) run listed_length [OF f(4)] by (simp add: ice_check_list_pair_candidates_def)
  next
    case False
    have "il_foundations cl3 = []" using f(7) run(2) by (metis ice_check_list.select_convs(8) ice_check_list.surjective
        ice_check_list.update_convs(3) ice_check_list.update_convs(6))
    then have "\<exists>fs. each_m ice_generate_pair_foundations_list l (st3, cl3) = Some (st3, cl3\<lparr>il_foundations := fs\<rparr>) \<and>
        distinct fs \<and> set fs = found st3 ` set l"
      using foundations_listed [of l st3 cl3] lists_pairs_short(1) [OF g f(4)] by simp
    then obtain fs where fs: "each_m ice_generate_pair_foundations_list l (st3, cl3) = Some (st3, cl3\<lparr>il_foundations := fs\<rparr>)"
      "distinct fs" "set fs = found st3 ` set l" by blast
    have "cl3\<lparr>il_foundations := fs\<rparr> = cl\<lparr>il_pairs := il_pairs cl3, il_check := l\<rparr>\<lparr>il_foundations := fs\<rparr>" using f(7) by simp
    then show ?thesis using False f(1-6) fs run listed_length [OF f(4)]
      by (auto simp: ice_check_list_pair_candidates_def)
  qed
qed

end
