(* ===== verification/Ice_Session.thy ===== *)
theory Ice_Session
  imports Ice_Check_List
begin

text \<open>
  The states of the pairs and the start of the connectivity checks; the properties of ICE.
\<close>

section \<open>The first pair of a foundation waits\<close>

definition lead_of :: "ice_store \<Rightarrow> ptr list \<Rightarrow> string \<times> string \<Rightarrow> ptr option" where
  "lead_of st ps f = find (\<lambda>p. found st p = f) ps"

definition comp_of :: "ice_store \<Rightarrow> ptr \<Rightarrow> u16" where
  "comp_of st p = cd_component (cand st (pr_local (pair st p)))"

lemma find_lowest_step:
  assumes "pair_ok st p"
  shows "ice_find_lowest_componentid_pair_with_specified_foundation f st p (a, prio, cid) =
    Some (if found st p = f \<and> (cid = 0 \<or> comp_of st p < cid \<and> pr_priority (pair st p) > prio)
      then (Some p, pr_priority (pair st p), comp_of st p) else (a, prio, cid))"
  using assms pair_foundation_eval [OF assms]
  by (auto simp: ice_find_lowest_componentid_pair_with_specified_foundation_def pair_ok_def comp_of_def ICE_INVALID_COMPONENTID_def)

lemma find_lowest_keeps:
  assumes "\<forall>p \<in> set ps. pair_ok st p \<and> pr_priority (pair st p) \<le> prio" and "cid \<noteq> 0"
  shows "each_m (ice_find_lowest_componentid_pair_with_specified_foundation f st) ps (a, prio, cid) = Some (a, prio, cid)"
  using assms(1)
proof (induction ps)
  case (Cons p ps)
  then have "pair_ok st p" "\<not> pr_priority (pair st p) > prio" by (simp_all add: not_less)
  then show ?case using Cons assms(2) by (simp add: find_lowest_step)
qed simp

text \<open>The list is sorted, so a pair behind the first one never replaces it, whatever its component.\<close>

lemma find_lowest_first:
  assumes "\<forall>p \<in> set ps. pair_ok st p \<and> comp_of st p \<noteq> 0" and "by_priority st ps"
  shows "each_m (ice_find_lowest_componentid_pair_with_specified_foundation f st) ps (None, 0, 0) =
    Some (case lead_of st ps f of None \<Rightarrow> (None, 0, 0) | Some p \<Rightarrow> (Some p, pr_priority (pair st p), comp_of st p))"
  using assms
proof (induction ps)
  case Nil
  then show ?case by (simp add: lead_of_def)
next
  case (Cons p ps)
  then have "pair_ok st p" "comp_of st p \<noteq> 0" "\<forall>q \<in> set ps. pair_ok st q \<and> pr_priority (pair st q) \<le> pr_priority (pair st p)"
    by simp_all
  then show ?case using Cons by (simp add: find_lowest_step find_lowest_keeps lead_of_def)
qed

lemma set_waiting_eval:
  assumes "\<forall>p \<in> set ps. pair_ok st p \<and> comp_of st p \<noteq> 0" and "by_priority st ps"
  shows "ice_set_lowest_componentid_pair_with_foundation_to_waiting_state ps f st =
    Some (case lead_of st ps f of None \<Rightarrow> st
      | Some p \<Rightarrow> st\<lparr>ic_pairs := (ic_pairs st)(p \<mapsto> (pair st p)\<lparr>pr_state := ICP_Waiting\<rparr>)\<rparr>)"
proof (cases "lead_of st ps f")
  case (Some p)
  then have "ic_pairs st p \<noteq> None" using assms(1) by (auto simp: lead_of_def find_Some_iff pair_ok_def)
  then show ?thesis using Some find_lowest_first [OF assms, of f]
    by (auto simp: ice_set_lowest_componentid_pair_with_foundation_to_waiting_state_def ICE_INVALID_COMPONENTID_def upd_pair_def)
qed (use find_lowest_first [OF assms, of f] in
  \<open>simp add: ice_set_lowest_componentid_pair_with_foundation_to_waiting_state_def ICE_INVALID_COMPONENTID_def\<close>)

text \<open>The store \<open>st'\<close> is \<open>st\<close> with some pairs waiting.\<close>

definition but_states :: "(ptr \<Rightarrow> bool) \<Rightarrow> ice_store \<Rightarrow> ice_store \<Rightarrow> bool" where
  "but_states W st st' \<longleftrightarrow> ic_cands st' = ic_cands st \<and> ic_next st' = ic_next st \<and>
     (\<forall>p. ic_pairs st' p = (if W p then Some ((pair st p)\<lparr>pr_state := ICP_Waiting\<rparr>) else ic_pairs st p))"

lemma but_states_same:
  assumes "but_states W st st'" and "\<And>p. W p \<Longrightarrow> ic_pairs st p \<noteq> None"
  shows "pair_ok st' p = pair_ok st p" "found st' = found st" "comp_of st' = comp_of st"
    "by_priority st' ps = by_priority st ps" "lead_of st' = lead_of st"
proof -
  have f: "pr_local (pair st' p) = pr_local (pair st p)" "pr_remote (pair st' p) = pr_remote (pair st p)"
    "pr_priority (pair st' p) = pr_priority (pair st p)" "(ic_pairs st' p = None) = (ic_pairs st p = None)" for p
    using assms unfolding but_states_def by auto
  have c: "ic_cands st' = ic_cands st" using assms(1) by (simp add: but_states_def)
  show "pair_ok st' p = pair_ok st p" "found st' = found st" "comp_of st' = comp_of st" "by_priority st' ps = by_priority st ps"
    by (simp_all add: pair_ok_def found_def comp_of_def by_priority_def f c fun_eq_iff)
  show "lead_of st' = lead_of st" by (simp add: lead_of_def found_def f c fun_eq_iff)
qed

lemma lead_of_in: "lead_of st ps f = Some p \<Longrightarrow> p \<in> set ps \<and> found st p = f"
  by (auto simp: lead_of_def find_Some_iff)

lemma states_computed:
  assumes "\<forall>p \<in> set ps. pair_ok st0 p \<and> comp_of st0 p \<noteq> 0" and "by_priority st0 ps"
    and "but_states (\<lambda>p. \<exists>f \<in> F. lead_of st0 ps f = Some p) st0 st"
  shows "\<exists>st'. each_m (ice_set_lowest_componentid_pair_with_foundation_to_waiting_state ps) fs st = Some st' \<and>
    but_states (\<lambda>p. \<exists>f \<in> F \<union> set fs. lead_of st0 ps f = Some p) st0 st'"
  using assms(3)
proof (induction fs arbitrary: F st)
  case Nil
  then show ?case by simp
next
  case (Cons f fs)
  have W: "ic_pairs st0 p \<noteq> None" if "\<exists>f \<in> F. lead_of st0 ps f = Some p" for p F
    using that assms(1) lead_of_in by (auto simp: pair_ok_def)
  note same = but_states_same [OF Cons.prems W]
  let ?st = "case lead_of st0 ps f of None \<Rightarrow> st
      | Some p \<Rightarrow> st\<lparr>ic_pairs := (ic_pairs st)(p \<mapsto> (pair st p)\<lparr>pr_state := ICP_Waiting\<rparr>)\<rparr>"
  have "ice_set_lowest_componentid_pair_with_foundation_to_waiting_state ps f st = Some ?st"
    using set_waiting_eval [of ps st f] assms(1,2) same by simp
  moreover have "but_states (\<lambda>p. \<exists>g \<in> insert f F. lead_of st0 ps g = Some p) st0 ?st"
    using Cons.prems by (auto simp: but_states_def split: option.splits)
  from Cons.IH [OF this] obtain st' where "each_m (ice_set_lowest_componentid_pair_with_foundation_to_waiting_state ps) fs ?st = Some st'"
    "but_states (\<lambda>p. \<exists>g \<in> insert f F \<union> set fs. lead_of st0 ps g = Some p) st0 st'" by blast
  ultimately show ?case by simp
qed

lemma lead_of_own: "(\<exists>f \<in> found st ` set ps. lead_of st ps f = Some p) \<longleftrightarrow> p \<in> set ps \<and> lead_of st ps (found st p) = Some p"
proof
  assume "\<exists>f \<in> found st ` set ps. lead_of st ps f = Some p"
  then obtain f where "lead_of st ps f = Some p" by blast
  with lead_of_in [OF this] show "p \<in> set ps \<and> lead_of st ps (found st p) = Some p" by simp
qed blast

section \<open>The priority of a candidate\<close>

lemma candidate_priority_bits:
  assumes "x < (256 :: u32)"
  shows "push_bit 24 t OR push_bit 8 65535 OR x = push_bit 24 t + (push_bit 8 65535 + x)"
proof -
  have b: "n < 8" if "bit x n" for n
  proof -
    have "take_bit 8 (unat x) = unat x" using assms by (simp add: take_bit_nat_eq_self word_less_nat_alt)
    moreover have "bit (unat x) n" using that bit_imp_le_length [OF that] by (simp add: bit_unsigned_iff)
    ultimately show ?thesis by (metis bit_take_bit_iff)
  qed
  have 1: "push_bit 8 65535 OR x = push_bit 8 65535 + x"
  proof (rule disjunctive_add [symmetric])
    show "\<not> bit (push_bit 8 65535 :: u32) n \<or> \<not> bit x n" for n
      using b [of n] unfolding bit_push_bit_iff by auto
  qed
  have "\<not> bit (push_bit 8 65535 OR x) n" if "24 \<le> n" for n
  proof -
    have "\<not> bit (65535 :: u32) (n - 8)"
    proof -
      have "(65535 :: u32) = mask 16" by (simp add: mask_eq_exp_minus_1)
      moreover have "16 \<le> n - 8" using that by simp
      ultimately show ?thesis by (simp only: bit_mask_iff) simp
    qed
    moreover have "\<not> bit x n" using b [of n] that by auto
    ultimately show ?thesis unfolding bit_or_iff bit_push_bit_iff by blast
  qed
  then have "push_bit 24 t OR (push_bit 8 65535 OR x) = push_bit 24 t + (push_bit 8 65535 OR x)"
    by (intro disjunctive_add [symmetric]) (auto simp: bit_push_bit_iff)
  then show ?thesis by (simp only: 1)
qed

lemma candidate_priority:
  assumes "1 \<le> cd_component c" and "cd_component c \<le> 256"
  shows "unat (cd_priority (ice_compute_candidate_priority c)) =
    2 ^ 24 * unat (type_preference_values (cd_type c)) + 2 ^ 8 * 65535 + (256 - unat (cd_component c))"
proof -
  let ?x = "256 - ucast (cd_component c) :: u32"
  have u: "unat (ucast (cd_component c) :: u32) = unat (cd_component c)"
    by (simp add: unsigned_ucast_eq take_bit_nat_eq_self order.strict_trans [OF unsigned_less])
  have n: "1 \<le> unat (cd_component c)" "unat (cd_component c) \<le> 256" using assms by (simp_all add: word_le_nat_alt)
  have le: "(ucast (cd_component c) :: u32) \<le> 256" using n(2) by (simp add: word_le_nat_alt u)
  have x: "unat ?x = 256 - unat (cd_component c)" using le by (simp add: unat_sub u)
  then have lt: "?x < 256" using n(1) by (simp add: word_less_nat_alt)
  have "cd_priority (ice_compute_candidate_priority c) =
      of_nat (2 ^ 24 * unat (type_preference_values (cd_type c)) + (2 ^ 8 * 65535 + (256 - unat (cd_component c))))"
  proof -
    have "cd_priority (ice_compute_candidate_priority c) =
        push_bit 24 (ucast (type_preference_values (cd_type c))) OR push_bit 8 65535 OR ?x"
      unfolding ice_compute_candidate_priority_def by (cases c, simp only: ice_candidate.simps)
    also have "\<dots> = 2 ^ 24 * ucast (type_preference_values (cd_type c)) + (2 ^ 8 * 65535 + ?x)"
      by (subst candidate_priority_bits [OF lt]) (simp only: push_bit_eq_mult ac_simps)
    also have "\<dots> = 2 ^ 24 * of_nat (unat (type_preference_values (cd_type c))) + (2 ^ 8 * 65535 + of_nat (unat ?x))"
    proof -
      have "(ucast (type_preference_values (cd_type c)) :: u32) = of_nat (unat (type_preference_values (cd_type c)))" by simp
      moreover have "of_nat (unat ?x) = ?x" by simp
      ultimately show ?thesis by (simp only:)
    qed
    finally show ?thesis unfolding x by simp
  qed
  moreover have "2 ^ 24 * unat (type_preference_values (cd_type c)) + (2 ^ 8 * 65535 + (256 - unat (cd_component c))) < 2 ^ 32"
    using n by (cases "cd_type c") (simp_all add: type_preference_values_def)
  ultimately have "unat (cd_priority (ice_compute_candidate_priority c)) =
      2 ^ 24 * unat (type_preference_values (cd_type c)) + (2 ^ 8 * 65535 + (256 - unat (cd_component c)))"
    by (simp only: unat_of_nat) (simp add: take_bit_nat_eq_self)
  then show ?thesis by simp
qed

text \<open>So the computed priorities are small enough for the formula of the pairs.\<close>

lemma candidate_priority_bound:
  assumes "1 \<le> cd_component c" and "cd_component c \<le> 256"
  shows "cd_priority (ice_compute_candidate_priority c) < 2 ^ 31"
proof -
  have "unat (cd_component c) \<ge> 1" using assms(1) by (simp add: word_le_nat_alt)
  then show ?thesis
    unfolding word_less_nat_alt candidate_priority [OF assms]
    by (cases "cd_type c") (simp_all add: type_preference_values_def)
qed

section \<open>An example: two local candidates, one of them server reflexive, and two remote ones\<close>

definition demo_store :: ice_store where
  "demo_store = \<lparr>ic_cands = [
       0 \<mapsto> \<lparr>cd_foundation = ''1'', cd_ip = ''10.0.0.1'', cd_port = 7078, cd_type = ICT_HostCandidate, cd_priority = 2130706431,
         cd_component = 1, cd_base = Some 0, cd_default = False\<rparr>,
       1 \<mapsto> \<lparr>cd_foundation = ''2'', cd_ip = ''80.1.1.1'', cd_port = 7078, cd_type = ICT_ServerReflexiveCandidate,
         cd_priority = 1694498815, cd_component = 1, cd_base = Some 0, cd_default = False\<rparr>,
       2 \<mapsto> \<lparr>cd_foundation = ''1'', cd_ip = ''10.0.0.2'', cd_port = 9000, cd_type = ICT_HostCandidate, cd_priority = 2130706431,
         cd_component = 1, cd_base = Some 2, cd_default = True\<rparr>,
       3 \<mapsto> \<lparr>cd_foundation = ''2'', cd_ip = ''90.1.1.1'', cd_port = 9000, cd_type = ICT_ServerReflexiveCandidate,
         cd_priority = 1694498815, cd_component = 1, cd_base = None, cd_default = False\<rparr>],
     ic_pairs = Map.empty, ic_next = 4\<rparr>"

definition demo_list :: ice_check_list where
  "demo_list = ice_check_list_init\<lparr>il_local := [0, 1], il_remote := [2, 3], il_local_ids := [0], il_remote_ids := [2],
     il_generator := 3\<rparr>"

lemma demo_gathers:
  "do { (a, s) \<leftarrow> ice_add_local_candidate ''host'' ''10.0.0.1'' 7078 1 None
          (\<lparr>ic_cands = Map.empty, ic_pairs = Map.empty, ic_next = 0\<rparr>, ice_check_list_init);
        (b, s) \<leftarrow> ice_add_local_candidate ''srflx'' ''80.1.1.1'' 7078 1 a s;
        s \<leftarrow> ice_check_list_compute_candidates_foundations s;
        (c, s) \<leftarrow> ice_add_remote_candidate ''host'' ''10.0.0.2'' 9000 1 0 ''1'' True s;
        (d, s) \<leftarrow> ice_add_remote_candidate ''srflx'' ''90.1.1.1'' 9000 1 0 ''2'' False s;
        Some s } = Some (demo_store, demo_list)"
  by (simp add: ice_add_local_candidate_def ice_add_remote_candidate_def ice_check_list_init_def ice_candidate_new_def
      candidate_type_def ICE_MAX_NB_CANDIDATES_def ice_add_componentID_def ice_find_componentID_def compare_cands_at_def ice_compare_candidates_def
      ice_compare_transport_addresses_def ice_compute_candidate_priority_def type_preference_values_def upd_cand_def
      ice_check_list_compute_candidates_foundations_def ice_compute_candidate_foundation_def same_foundation_def
      dec.simps demo_store_def demo_list_def fun_eq_iff char_of_def bit_0)

lemma demo_gathered: "ice_gathered demo_store demo_list"
  by (simp add: ice_gathered_def demo_store_def demo_list_def ice_check_list_init_def cands_ok_def cand_key_def
      is_srflx_def base_before_def)

lemma demo_expected: "expected_pairs demo_store demo_list = [(0, 2), (0, 3)]"
  by (simp add: expected_pairs_def matching_def demo_store_def demo_list_def ice_check_list_init_def is_srflx_def)

section \<open>Properties\<close>

lemma lists_pairs_ready:
  assumes "ice_gathered st0 cl" and "lists_pairs role st0 cl st ps"
  shows "\<forall>p \<in> set ps. pair_ok st p \<and> comp_of st p \<noteq> 0"
  using lists_pairs_short [OF assms] by (simp add: short_founds_def comp_of_def)

lemma lists_pairs_frozen:
  assumes "lists_pairs role st0 cl st ps" and "p \<in> set ps"
  shows "pr_state (pair st p) = ICP_Frozen" and "pr_role (pair st p) = role"
    and "pr_priority (pair st p) = ice_compute_pair_priority role
      (cd_priority (cand st (pr_local (pair st p)))) (cd_priority (cand st (pr_remote (pair st p))))"
  using lists_pairs_in [OF assms] assms(1) by (auto simp: new_pair_def lists_pairs_def)

text \<open>
  The priority of a pair (ice_compute_pair_priority) is the number of RFC 5245, 5.7.2, of the priorities of the
  controlling and the controlled agent, so the two agents, which have the roles and the candidates exchanged, compute
  the same.
\<close>

theorem ice_pair_priority:
  assumes "l < 2 ^ 31" and "r < 2 ^ 31"
  shows "unat (ice_compute_pair_priority IR_Controlling l r) = rfc_pair_priority (unat l) (unat r) \<and>
    ice_compute_pair_priority IR_Controlled r l = ice_compute_pair_priority IR_Controlling l r"
proof
  show c: "unat (ice_compute_pair_priority IR_Controlling l r) = rfc_pair_priority (unat l) (unat r)"
    using pair_priority_formula [OF assms, of IR_Controlling] by simp
  have "unat (ice_compute_pair_priority IR_Controlled r l) = rfc_pair_priority (unat l) (unat r)"
    using pair_priority_formula [OF assms(2,1), of IR_Controlled] by simp
  then show "ice_compute_pair_priority IR_Controlled r l = ice_compute_pair_priority IR_Controlling l r"
    using c by (simp add: word_unat_eq_iff)
qed

theorem ice_pair_priority_witness:
  "unat (ice_compute_pair_priority IR_Controlling 2130706431 1694498815) = rfc_pair_priority 2130706431 1694498815"
  using ice_pair_priority [of 2130706431 1694498815] by simp

text \<open>
  C21. For gathered candidates and a limit that is not exceeded, ice_check_list_pair_candidates puts into the check list
  exactly one pair for each local candidate that is not server reflexive and each remote one of the same component,
  frozen, with its priority, in the order of decreasing priority; the foundations are those of the pairs, each once.
\<close>

theorem ice_check_list_formed:
  assumes "ice_gathered st cl" and "length (expected_pairs st cl) \<le> unat mx"
  shows "\<exists>st' cl'. ice_check_list_pair_candidates role mx (st, cl) = Some (st', cl') \<and>
    mset (map (ic_pairs st') (il_check cl')) = mset (map (\<lambda>c. Some (new_pair role st c)) (expected_pairs st cl)) \<and>
    distinct (il_check cl') \<and> by_priority st' (il_check cl') \<and> mset (il_pairs cl') = mset (il_check cl') \<and>
    distinct (il_foundations cl') \<and> set (il_foundations cl') = found st' ` set (il_check cl')"
proof -
  from check_list_eval [OF assms(1), of mx role] assms(2) obtain st' ps l fs where
    "ice_check_list_pair_candidates role mx (st, cl) = Some (st', cl\<lparr>il_pairs := ps, il_check := l, il_foundations := fs\<rparr>)"
    "lists_pairs role st cl st' l" "by_priority st' l" "mset ps = mset l" "distinct fs" "set fs = found st' ` set l"
    by (auto simp: not_less)
  then show ?thesis unfolding lists_pairs_def
    by (intro exI [of _ st'] exI [of _ "cl\<lparr>il_pairs := ps, il_check := l, il_foundations := fs\<rparr>"]) simp
qed

theorem ice_check_list_formed_witness:
  "\<exists>st' cl'. ice_check_list_pair_candidates IR_Controlling 100 (demo_store, demo_list) = Some (st', cl') \<and>
     mset (map (ic_pairs st') (il_check cl')) = {#Some (new_pair IR_Controlling demo_store (0, 2)), Some (new_pair IR_Controlling demo_store (0, 3))#}"
  using ice_check_list_formed [OF demo_gathered, of 100 IR_Controlling] by (auto simp: demo_expected)

text \<open>
  With more pairs than the limit of connectivity checks, ice_check_list_pair_candidates faults: the
  cell of the check list is used after ice_free_candidate_pair has freed it.
\<close>

theorem ice_limit_faults:
  assumes "ice_gathered st cl" and "length (expected_pairs st cl) > unat mx"
  shows "ice_check_list_pair_candidates role mx (st, cl) = None"
  using check_list_eval [OF assms(1), of mx role] assms(2) by simp

theorem ice_limit_faults_witness: "ice_check_list_pair_candidates IR_Controlled 1 (demo_store, demo_list) = None"
  using ice_limit_faults [OF demo_gathered, of 1 IR_Controlled] by (simp add: demo_expected)

text \<open>
  C20. Starting the connectivity checks of a session with one stream of gathered candidates, the first pair
  in the check list of each foundation waits and all others are frozen.
\<close>

theorem ice_session_started:
  assumes "ice_gathered st cl" and "is_streams se = [cl]" and "length (expected_pairs st cl) \<le> unat (is_max_checks se)"
  shows "\<exists>st' cl'. ice_session_start_connectivity_checks (st, se) = Some (st', se\<lparr>is_streams := [cl'], is_state := IS_Running\<rparr>) \<and>
    length (il_check cl') = length (expected_pairs st cl) \<and> by_priority st' (il_check cl') \<and>
    (\<forall>p \<in> set (il_check cl'). pr_state (pair st' p) =
      (if find (\<lambda>q. found st' q = found st' p) (il_check cl') = Some p then ICP_Waiting else ICP_Frozen))"
proof -
  from check_list_eval [OF assms(1), of "is_max_checks se" "is_role se"] assms(3) obtain st1 ps l fs where
    e: "ice_check_list_pair_candidates (is_role se) (is_max_checks se) (st, cl) =
        Some (st1, cl\<lparr>il_pairs := ps, il_check := l, il_foundations := fs\<rparr>)"
      "lists_pairs (is_role se) st cl st1 l" "by_priority st1 l" "set fs = found st1 ` set l"
    by (auto simp: not_less)
  let ?cl = "cl\<lparr>il_pairs := ps, il_check := l, il_foundations := fs\<rparr>"
  have ready: "\<forall>p \<in> set l. pair_ok st1 p \<and> comp_of st1 p \<noteq> 0" by (rule lists_pairs_ready [OF assms(1) e(2)])
  have "but_states (\<lambda>p. \<exists>f \<in> {}. lead_of st1 l f = Some p) st1 st1" by (simp add: but_states_def)
  from states_computed [OF ready e(3) this, of fs] obtain st2 where
    s: "each_m (ice_set_lowest_componentid_pair_with_foundation_to_waiting_state l) fs st1 = Some st2"
      "but_states (\<lambda>p. p \<in> set l \<and> lead_of st1 l (found st1 p) = Some p) st1 st2"
    unfolding Un_empty_left e(4) lead_of_own by blast
  have run: "il_state cl = ICL_Running" using assms(1) by (simp add: ice_gathered_def)
  then have "ice_session_start_connectivity_checks (st, se) = Some (st2, se\<lparr>is_streams := [?cl], is_state := IS_Running\<rparr>)"
    using e(1) s(1) assms(2)
    by (simp add: ice_session_start_connectivity_checks_def ice_session_pair_candidates_def ice_compute_pairs_states_def)
  moreover have "by_priority st2 l" and f: "found st2 = found st1"
    using but_states_same [OF s(2)] ready e(3) by (auto simp: pair_ok_def)
  moreover have "pr_state (pair st2 p) = (if find (\<lambda>q. found st2 q = found st2 p) l = Some p then ICP_Waiting else ICP_Frozen)"
    if "p \<in> set l" for p
    using s(2) that lists_pairs_frozen(1) [OF e(2) that] by (simp add: f but_states_def lead_of_def)
  ultimately show ?thesis using listed_length [OF e(2)] by (intro exI [of _ st2] exI [of _ ?cl]) simp
qed

theorem ice_session_started_witness:
  "\<exists>st' cl'. ice_session_start_connectivity_checks (demo_store, \<lparr>is_streams = [demo_list], is_role = IR_Controlling,
       is_max_checks = 100, is_state = IS_Stopped, is_tie_breaker = 7\<rparr>) =
     Some (st', \<lparr>is_streams = [cl'], is_role = IR_Controlling, is_max_checks = 100, is_state = IS_Running, is_tie_breaker = 7\<rparr>) \<and>
     length (il_check cl') = 2 \<and> by_priority st' (il_check cl')"
  using ice_session_started [OF demo_gathered, of "\<lparr>is_streams = [demo_list], is_role = IR_Controlling,
       is_max_checks = 100, is_state = IS_Stopped, is_tie_breaker = 7\<rparr>"] by (auto simp: demo_expected)

end
