(* ===== verification/Ice_Redundant.thy ===== *)
theory Ice_Redundant
  imports Ice_Check_List
begin

text \<open>
  The elimination of redundant candidates, \<^verbatim>\<open>ice_check_list_eliminate_redundant_candidates\<close>.
\<close>

text \<open>Two candidates are alike when they have the same address and the same base.\<close>

definition alike :: "ice_store \<Rightarrow> ptr \<Rightarrow> ptr \<Rightarrow> bool" where
  "alike st a b \<longleftrightarrow> cd_ip (cand st a) = cd_ip (cand st b) \<and> cd_port (cand st a) = cd_port (cand st b) \<and>
     cd_base (cand st a) = cd_base (cand st b)"

definition listed :: "ice_store \<Rightarrow> ice_check_list \<Rightarrow> bool" where
  "listed st cl \<longleftrightarrow> distinct (il_local cl) \<and> (\<forall>a \<in> set (il_local cl). ic_cands st a \<noteq> None)"

lemma find_redundant_eval:
  assumes "ic_cands st a \<noteq> None" and "ic_cands st b \<noteq> None"
  shows "ice_find_redundant_candidate b a st = Some (b \<noteq> a \<and> alike st b a)"
  using assms by (auto simp: ice_find_redundant_candidate_def ice_compare_transport_addresses_def alike_def)

definition without :: "ptr \<Rightarrow> ice_store \<times> ice_check_list \<Rightarrow> ice_store \<times> ice_check_list" where
  "without x s = ((fst s)\<lparr>ic_cands := (ic_cands (fst s))(x := None)\<rparr>, (snd s)\<lparr>il_local := remove1 x (il_local (snd s))\<rparr>)"

lemma eliminate_once_cases:
  assumes "listed st cl" and "set as \<subseteq> set (il_local cl)"
  shows "eliminate_once as (st, cl) = Some (False, st, cl) \<and> (\<forall>a \<in> set as. \<forall>b \<in> set (il_local cl). alike st b a \<longrightarrow> b = a) \<or>
    (\<exists>x y. x \<in> set (il_local cl) \<and> y \<in> set (il_local cl) \<and> x \<noteq> y \<and> alike st y x \<and> cd_priority (cand st x) \<le> cd_priority (cand st y) \<and>
      eliminate_once as (st, cl) = Some (True, without x (st, cl)))"
  using assms(2)
proof (induction as)
  case (Cons a as)
  have some: "ic_cands st b \<noteq> None" if "b \<in> set (il_local cl)" for b using that assms(1) by (simp add: listed_def)
  have a: "a \<in> set (il_local cl)" using Cons.prems by simp
  have f: "find_m (\<lambda>b. ice_find_redundant_candidate b a st) (il_local cl) =
      Some (find (\<lambda>b. b \<noteq> a \<and> alike st b a) (il_local cl))"
    using some a by (intro find_m_Some find_redundant_eval) auto
  show ?case
  proof (cases "find (\<lambda>b. b \<noteq> a \<and> alike st b a) (il_local cl)")
    case None
    then have "\<forall>b \<in> set (il_local cl). alike st b a \<longrightarrow> b = a" by (auto simp: find_None_iff)
    moreover have "eliminate_once (a # as) (st, cl) = eliminate_once as (st, cl)" using f None by simp
    ultimately show ?thesis using Cons.IH Cons.prems by auto
  next
    case (Some b)
    then have b: "b \<in> set (il_local cl)" "b \<noteq> a" "alike st b a" using find_SomeD [OF Some] by auto
    then have ab: "alike st a b" by (simp add: alike_def)
    have e: "eliminate_once (a # as) (st, cl) =
        Some (True, without (if cd_priority (cand st b) < cd_priority (cand st a) then b else a) (st, cl))"
      using f Some some [OF a] some [OF b(1)] by (auto simp: free_cand_def without_def Let_def)
    show ?thesis
    proof (rule disjI2, cases "cd_priority (cand st b) < cd_priority (cand st a)")
      case True
      with e have "eliminate_once (a # as) (st, cl) = Some (True, without b (st, cl))" by (simp only: if_True)
      then show "\<exists>x y. x \<in> set (il_local cl) \<and> y \<in> set (il_local cl) \<and> x \<noteq> y \<and> alike st y x \<and>
          cd_priority (cand st x) \<le> cd_priority (cand st y) \<and> eliminate_once (a # as) (st, cl) = Some (True, without x (st, cl))"
        using a b ab True by (blast intro: order.strict_implies_order)
    next
      case False
      with e have "eliminate_once (a # as) (st, cl) = Some (True, without a (st, cl))" by (simp only: if_False)
      then show "\<exists>x y. x \<in> set (il_local cl) \<and> y \<in> set (il_local cl) \<and> x \<noteq> y \<and> alike st y x \<and>
          cd_priority (cand st x) \<le> cd_priority (cand st y) \<and> eliminate_once (a # as) (st, cl) = Some (True, without x (st, cl))"
        using a b False by (blast intro: leI)
    qed
  qed
qed simp

text \<open>What is left of a list of candidates: nothing alike, and for each removed one another like it of no lower priority.\<close>

definition irredundant :: "ice_store \<Rightarrow> ice_check_list \<Rightarrow> ice_store \<Rightarrow> ice_check_list \<Rightarrow> bool" where
  "irredundant st cl st' cl' \<longleftrightarrow> listed st' cl' \<and> set (il_local cl') \<subseteq> set (il_local cl) \<and>
     cl' = cl\<lparr>il_local := il_local cl'\<rparr> \<and> ic_pairs st' = ic_pairs st \<and>
     (\<forall>a \<in> set (il_local cl'). ic_cands st' a = ic_cands st a) \<and>
     (\<forall>a \<in> set (il_local cl'). \<forall>b \<in> set (il_local cl'). alike st b a \<longrightarrow> b = a) \<and>
     (\<forall>a \<in> set (il_local cl). \<exists>b \<in> set (il_local cl'). alike st a b \<and> cd_priority (cand st a) \<le> cd_priority (cand st b))"

lemma listed_without:
  assumes "listed st cl" and "x \<in> set (il_local cl)" and "without x (st, cl) = (st1, cl1)"
  shows "listed st1 cl1" and "set (il_local cl1) = set (il_local cl) - {x}" and "length (il_local cl1) < length (il_local cl)"
    and "\<forall>a. a \<noteq> x \<longrightarrow> ic_cands st1 a = ic_cands st a" and "ic_pairs st1 = ic_pairs st"
    and "cl1 = cl\<lparr>il_local := il_local cl1\<rparr>"
  using assms length_pos_if_in_set [OF assms(2)] by (auto simp: listed_def without_def length_remove1)

lemma alike_trans: "alike st a b \<Longrightarrow> alike st b c \<Longrightarrow> alike st a c"
  by (simp add: alike_def)

lemma irredundant_step:
  assumes l: "listed st cl" and x: "x \<in> set (il_local cl)" "y \<in> set (il_local cl)" "x \<noteq> y" "alike st y x"
      "cd_priority (cand st x) \<le> cd_priority (cand st y)"
    and w: "without x (st, cl) = (st1, cl1)" and i: "irredundant st1 cl1 st' cl'"
  shows "irredundant st cl st' cl'"
proof -
  note r = listed_without [OF l x(1) w]
  have same: "cand st1 a = cand st a" if "a \<in> set (il_local cl1)" for a using that r(2,4) by auto
  have ak: "alike st1 a b = alike st a b" if "a \<in> set (il_local cl1)" "b \<in> set (il_local cl1)" for a b
    using same [OF that(1)] same [OF that(2)] by (simp add: alike_def)
  have sub: "set (il_local cl') \<subseteq> set (il_local cl1)" using i by (simp add: irredundant_def)
  have ex: "\<exists>b \<in> set (il_local cl'). alike st a b \<and> cd_priority (cand st a) \<le> cd_priority (cand st b)"
    if "a \<in> set (il_local cl1)" for a
  proof -
    have "\<forall>a \<in> set (il_local cl1). \<exists>b \<in> set (il_local cl'). alike st1 a b \<and> cd_priority (cand st1 a) \<le> cd_priority (cand st1 b)"
      using i unfolding irredundant_def by (elim conjE)
    from this [rule_format, OF that] obtain b where
      "b \<in> set (il_local cl')" "alike st1 a b" "cd_priority (cand st1 a) \<le> cd_priority (cand st1 b)" by blast
    note b = this
    from b(1) sub have "b \<in> set (il_local cl1)" by blast
    then show ?thesis using b ak [OF that] same [OF that] same [of b] by (intro bexI [OF _ b(1)]) simp
  qed
  have "\<exists>b \<in> set (il_local cl'). alike st x b \<and> cd_priority (cand st x) \<le> cd_priority (cand st b)"
  proof -
    have "y \<in> set (il_local cl1)" using r(2) x(2,3) by auto
    then obtain b where b: "b \<in> set (il_local cl')" "alike st y b" "cd_priority (cand st y) \<le> cd_priority (cand st b)" using ex by blast
    have "alike st x y" using x(4) by (simp add: alike_def)
    then show ?thesis using b x(5) alike_trans order.trans by blast
  qed
  then have all: "\<forall>a \<in> set (il_local cl). \<exists>b \<in> set (il_local cl'). alike st a b \<and> cd_priority (cand st a) \<le> cd_priority (cand st b)"
    using ex r(2) by blast
  have "cl' = cl\<lparr>il_local := il_local cl'\<rparr>"
  proof -
    have "cl' = cl1\<lparr>il_local := il_local cl'\<rparr>" using i by (simp add: irredundant_def)
    also have "\<dots> = cl\<lparr>il_local := il_local cl1\<rparr>\<lparr>il_local := il_local cl'\<rparr>" using r(6) by simp
    finally show ?thesis by simp
  qed
  moreover have "\<forall>a \<in> set (il_local cl'). ic_cands st' a = ic_cands st a"
    using i sub r(2,4) by (auto simp: irredundant_def)
  moreover have "\<forall>a \<in> set (il_local cl'). \<forall>b \<in> set (il_local cl'). alike st b a \<longrightarrow> b = a"
  proof -
    have "\<forall>a \<in> set (il_local cl'). \<forall>b \<in> set (il_local cl'). alike st1 b a \<longrightarrow> b = a"
      using i unfolding irredundant_def by (elim conjE)
    then show ?thesis using sub ak by (meson subsetD)
  qed
  ultimately show ?thesis using i all sub r(2,5) by (auto simp: irredundant_def)
qed

lemma eliminate_loop_irredundant:
  assumes "listed st cl"
  shows "\<exists>st' cl'. eliminate_loop (st, cl) = Some (st', cl') \<and> irredundant st cl st' cl'"
  using assms
proof (induction "length (il_local cl)" arbitrary: st cl rule: less_induct)
  case less
  consider "eliminate_once (il_local cl) (st, cl) = Some (False, st, cl)"
      "\<forall>a \<in> set (il_local cl). \<forall>b \<in> set (il_local cl). alike st b a \<longrightarrow> b = a"
    | x y where "x \<in> set (il_local cl)" "y \<in> set (il_local cl)" "x \<noteq> y" "alike st y x"
      "cd_priority (cand st x) \<le> cd_priority (cand st y)" "eliminate_once (il_local cl) (st, cl) = Some (True, without x (st, cl))"
    using eliminate_once_cases [OF less.prems order.refl] by blast
  then show ?case
  proof cases
    case 1
    moreover have "irredundant st cl st cl" using less.prems 1(2) by (auto simp: irredundant_def alike_def)
    ultimately show ?thesis by (subst eliminate_loop.simps) simp
  next
    case 2
    obtain st1 cl1 where w: "without x (st, cl) = (st1, cl1)" by fastforce
    from less.hyps [OF listed_without(3,1) [OF less.prems 2(1) w]] obtain st' cl' where
      e: "eliminate_loop (st1, cl1) = Some (st', cl')" "irredundant st1 cl1 st' cl'" by blast
    have "irredundant st cl st' cl'" by (rule irredundant_step [OF less.prems 2(1-5) w e(2)])
    then show ?thesis using 2(6) e(1) w by (subst eliminate_loop.simps) simp
  qed
qed

text \<open>
  C22. ice_check_list_eliminate_redundant_candidates ends for any list of different candidates, without a fault: no two of the
  candidates that are left have the same address and base, they are unchanged, and for each one that was
  removed one like it of no lower priority is left.
\<close>

theorem ice_redundant_eliminated:
  assumes "listed st cl" and "il_state cl = ICL_Running"
  shows "\<exists>st' cl'. ice_check_list_eliminate_redundant_candidates (st, cl) = Some (st', cl') \<and> irredundant st cl st' cl'"
  using eliminate_loop_irredundant [OF assms(1)] assms(2) by (simp add: ice_check_list_eliminate_redundant_candidates_def)

theorem ice_redundant_eliminated_witness:
  "\<exists>st' cl'. ice_check_list_eliminate_redundant_candidates
     (\<lparr>ic_cands = [0 \<mapsto> \<lparr>cd_foundation = [], cd_ip = ''10.0.0.1'', cd_port = 7078, cd_type = ICT_HostCandidate, cd_priority = 2130706431,
           cd_component = 1, cd_base = Some 0, cd_default = False\<rparr>,
         1 \<mapsto> \<lparr>cd_foundation = [], cd_ip = ''10.0.0.1'', cd_port = 7078, cd_type = ICT_ServerReflexiveCandidate, cd_priority = 1694498815,
           cd_component = 1, cd_base = Some 0, cd_default = False\<rparr>], ic_pairs = Map.empty, ic_next = 2\<rparr>,
      ice_check_list_init\<lparr>il_local := [0, 1]\<rparr>) = Some (st', cl') \<and> set (il_local cl') \<subseteq> {0, 1}"
  using ice_redundant_eliminated [of "\<lparr>ic_cands = [0 \<mapsto> \<lparr>cd_foundation = [], cd_ip = ''10.0.0.1'', cd_port = 7078,
           cd_type = ICT_HostCandidate, cd_priority = 2130706431, cd_component = 1, cd_base = Some 0, cd_default = False\<rparr>,
         1 \<mapsto> \<lparr>cd_foundation = [], cd_ip = ''10.0.0.1'', cd_port = 7078, cd_type = ICT_ServerReflexiveCandidate, cd_priority = 1694498815,
           cd_component = 1, cd_base = Some 0, cd_default = False\<rparr>], ic_pairs = Map.empty, ic_next = 2\<rparr>"
       "ice_check_list_init\<lparr>il_local := [0, 1]\<rparr>"]
  by (auto simp: listed_def irredundant_def ice_check_list_init_def)

end
