(* ===== verification/B64.thy ===== *)
theory B64
  imports Prelude
begin

text \<open>
  Base64, \<^verbatim>\<open>oRTP/src/b64.c\<close>. A destination is NULL (\<open>None\<close>) or its size; what is written is a list that
  grows, and a byte written behind the end of the destination, like a failed assertion, is the fault
  \<open>None\<close>. Sizes have the width of \<^verbatim>\<open>size_t\<close>.
\<close>

unbundle bit_operations_syntax

section \<open>The alphabet\<close>

datatype b64_rc = B64_RC_OK | B64_RC_INSUFFICIENT_BUFFER | B64_RC_TRUNCATED_INPUT | B64_RC_DATA_ERROR

definition B64_F_STOP_ON_UNKNOWN_CHAR :: u32 where "B64_F_STOP_ON_UNKNOWN_CHAR = 0x100"
definition B64_F_STOP_ON_UNEXPECTED_WS :: u32 where "B64_F_STOP_ON_UNEXPECTED_WS = 0x200"
definition B64_F_STOP_ON_NOTHING :: u32 where "B64_F_STOP_ON_NOTHING = 0"
definition B64_F_LINE_LEN_MASK :: u32 where "B64_F_LINE_LEN_MASK = 0xf"

definition b64_chars :: "u8 list" where
  "b64_chars = map of_char ''ABCDEFGHIJKLMNOPQRSTUVWXYZabcdefghijklmnopqrstuvwxyz0123456789+/''"

definition b64_indexes :: "int list" where
  "b64_indexes = replicate 43 (-1) @ [62, -1, -1, -1, 63] @ [52..61] @ replicate 7 (-1) @ [0..25] @ replicate 6 (-1) @
     [26..51] @ replicate 133 (-1)"

section \<open>Encoding\<close>

definition b64_put :: "nat \<Rightarrow> u8 \<Rightarrow> u8 list \<Rightarrow> u8 list option" where
  "b64_put cap c out = (if length out < cap then Some (out @ [c]) else None)"

definition enc_chars :: "u8 \<Rightarrow> u8 \<Rightarrow> u8 \<Rightarrow> u8 list" where
  "enc_chars a b c = [drop_bit 2 (a AND 0xfc), push_bit 4 (a AND 0x03) + drop_bit 4 (b AND 0xf0),
     push_bit 2 (b AND 0x0f) + drop_bit 6 (c AND 0xc0), c AND 0x3f]"

definition b64_char :: "u8 \<Rightarrow> u8" where
  "b64_char i = b64_chars ! unat i"

text \<open>The characters of a group; behind each but the last it is asserted that the line does not end.\<close>

fun enc_put :: "nat \<Rightarrow> nat \<Rightarrow> u8 list \<Rightarrow> nat \<Rightarrow> u8 list \<Rightarrow> u8 list option" where
  "enc_put cap ll [] len out = Some out"
| "enc_put cap ll [c] len out = b64_put cap (b64_char c) out"
| "enc_put cap ll (c # cs) len out = do {
     out \<leftarrow> b64_put cap (b64_char c) out;
     if len + 1 = ll then None else enc_put cap ll cs (len + 1) out }"

text \<open>\<open>fin\<close> is the pointer \<^verbatim>\<open>end\<close>; what is left of the source is returned.\<close>

fun enc_loop :: "nat \<Rightarrow> nat \<Rightarrow> nat \<Rightarrow> u8 list \<Rightarrow> nat \<Rightarrow> u8 list \<Rightarrow> (u8 list \<times> u8 list) option" where
  "enc_loop cap fin ll (a # b # c # src) len out = do {
     out \<leftarrow> enc_put cap ll (enc_chars a b c) len out;
     if len + 4 = ll \<and> length out \<noteq> fin then do {
       out \<leftarrow> b64_put cap 13 out;
       out \<leftarrow> b64_put cap 10 out;
       enc_loop cap fin ll src 0 out }
     else enc_loop cap fin ll src (len + 4) out }"
| "enc_loop cap fin ll rest len out = Some (rest, out)"

text \<open>
  The overspill: three bytes with zeros are encoded behind what was written, in a destination that is said to have
  twelve bytes, and the characters that stand for zeros only are overwritten.
\<close>

fun put_pads :: "nat \<Rightarrow> nat \<Rightarrow> u8 list \<Rightarrow> u8 list option" where
  "put_pads 0 cap out = Some out"
| "put_pads (Suc n) cap out = do { out \<leftarrow> b64_put cap 61 out; put_pads n cap out }"

definition enc_rest :: "nat \<Rightarrow> u8 list \<Rightarrow> u8 list \<Rightarrow> u8 list option" where
  "enc_rest cap rest out =
     (if rest = [] then Some out
      else do {
        (r, out') \<leftarrow> enc_loop cap (length out + 12) 0 (rest @ replicate (3 - length rest) 0) 0 out;
        put_pads (3 - length rest) cap (take (length out + 1 + length rest) out') })"

definition b64_total :: "nat \<Rightarrow> u32 \<Rightarrow> u64" where
  "b64_total n lineLen =
     (let total = (of_nat n + 2) div 3 * 4
      in if lineLen > 0 then total + 2 * ((total + ucast (lineLen - 1)) div ucast lineLen - 1) else total)"

definition b64_encode_impl :: "u8 list \<Rightarrow> u64 option \<Rightarrow> u32 \<Rightarrow> (u64 \<times> u8 list \<times> b64_rc) option" where
  "b64_encode_impl src dest lineLen =
     (let total = b64_total (length src) lineLen in
      case dest of
        None \<Rightarrow> Some (total, [], B64_RC_OK)
      | Some destLen \<Rightarrow>
          if destLen < total then Some (0, [], B64_RC_INSUFFICIENT_BUFFER)
          else do {
            (rest, out) \<leftarrow> enc_loop (unat destLen) (unat destLen) (unat lineLen) src 0 [];
            out \<leftarrow> enc_rest (unat destLen) rest out;
            Some (total, out, B64_RC_OK) })"

definition b64_encode :: "u8 list \<Rightarrow> u64 option \<Rightarrow> (u64 \<times> u8 list) option" where
  "b64_encode src dest = do { (n, out, rc) \<leftarrow> b64_encode_impl src dest 0; Some (n, out) }"

text \<open>The length of a line that the flags choose.\<close>

definition b64_line_len :: "u32 \<Rightarrow> int \<Rightarrow> int" where
  "b64_line_len flags lineLen =
     (let f = B64_F_LINE_LEN_MASK AND flags in
      if f = 0 then (if lineLen \<ge> 0 then lineLen else 64) else if f = 2 then 64 else if f = 3 then 76 else 0)"

definition b64_encode2 :: "u8 list \<Rightarrow> u64 option \<Rightarrow> u32 \<Rightarrow> int \<Rightarrow> (u64 \<times> u8 list \<times> b64_rc) option" where
  "b64_encode2 src dest flags lineLen =
     (let l = b64_line_len flags lineLen in
      if l mod 4 \<noteq> 0 then None else b64_encode_impl src dest (of_int l))"

section \<open>Decoding\<close>

definition dec_group :: "nat \<Rightarrow> u8 list \<Rightarrow> nat \<Rightarrow> u8 list \<Rightarrow> u8 list option" where
  "dec_group cap idx pads out = do {
     out \<leftarrow> b64_put cap (push_bit 2 (idx ! 0) + drop_bit 4 (idx ! 1 AND 0x30)) out;
     if pads = 2 then Some out
     else do {
       out \<leftarrow> b64_put cap (push_bit 4 (idx ! 1 AND 0xf) + drop_bit 2 (idx ! 2 AND 0x3c)) out;
       if pads = 1 then Some out
       else b64_put cap (push_bit 6 (idx ! 2 AND 0x3) + idx ! 3) out } }"

text \<open>The returned size, the bytes written, the position of a bad character, the code.\<close>

type_synonym b64_result = "nat \<times> u8 list \<times> nat option \<times> b64_rc"

fun dec_loop :: "nat \<Rightarrow> u32 \<Rightarrow> nat \<Rightarrow> u8 list \<Rightarrow> u8 list \<Rightarrow> nat \<Rightarrow> u8 list \<Rightarrow> b64_result option" where
  "dec_loop cap flags pos [] idx pads out = Some (length out, out, None, B64_RC_OK)"
| "dec_loop cap flags pos (ch # src) idx pads out =
     (let ix = b64_indexes ! unat ch in
      if ch \<noteq> 61 \<and> ix = -1 then
        if ch \<in> {32, 9, 8, 11} \<and> B64_F_STOP_ON_UNEXPECTED_WS AND flags \<noteq> 0
        then Some (0, out, Some pos, B64_RC_DATA_ERROR)
        else if ch \<notin> {32, 9, 8, 11, 13, 10} \<and> B64_F_STOP_ON_UNKNOWN_CHAR AND flags \<noteq> 0
        then Some (0, out, Some pos, B64_RC_DATA_ERROR)
        else dec_loop cap flags (pos + 1) src idx pads out
      else if length idx \<ge> 4 then None
      else
        let idx = idx @ [if ch = 61 then 0 else of_int ix];
            pads = (if ch = 61 then pads + 1 else 0)
        in if length idx = 4 then do {
             out \<leftarrow> dec_group cap idx pads out;
             if pads \<noteq> 0 then Some (length out, out, None, B64_RC_OK)
             else dec_loop cap flags (pos + 1) src [] pads out }
           else dec_loop cap flags (pos + 1) src idx pads out)"

definition b64_decode_impl :: "u8 list \<Rightarrow> nat option \<Rightarrow> u32 \<Rightarrow> b64_result option" where
  "b64_decode_impl src dest flags =
     (let maxTotal = (length src div 4 + (if length src mod 4 \<noteq> 0 then 1 else 0)) * 3 in
      case dest of
        None \<Rightarrow> Some (maxTotal, [], None, B64_RC_OK)
      | Some destSize \<Rightarrow>
          if destSize < maxTotal then Some (0, [], None, B64_RC_INSUFFICIENT_BUFFER)
          else dec_loop destSize flags 0 src [] 0 [])"

definition b64_decode :: "u8 list \<Rightarrow> nat option \<Rightarrow> (nat \<times> u8 list) option" where
  "b64_decode src dest = do { (n, out, bad, rc) \<leftarrow> b64_decode_impl src dest B64_F_STOP_ON_NOTHING; Some (n, out) }"

definition b64_decode2 :: "u8 list \<Rightarrow> nat option \<Rightarrow> u32 \<Rightarrow> b64_result option" where
  "b64_decode2 src dest flags = b64_decode_impl src dest flags"

text \<open>The descriptions of the codes; another number has none.\<close>

definition b64_strings :: "string list" where
  "b64_strings = [''Operation was successful'', ''The given translation buffer was not of sufficient size'',
     ''The input did not represent a fully formed stream of octet couplings'', ''Invalid data'']"

definition b64_LookupErrorString :: "int \<Rightarrow> string" where
  "b64_LookupErrorString code = (if 0 \<le> code \<and> code < 4 then b64_strings ! nat code else [])"

section \<open>A group of characters\<close>

lemma u8_bits: "(x :: u8) = y \<longleftrightarrow> (\<forall>n \<in> {0, 1, 2, 3, 4, 5, 6, 7}. bit x n = bit y n)"
proof
  assume "\<forall>n \<in> {0, 1, 2, 3, 4, 5, 6, 7}. bit x n = bit y n"
  moreover have "n < 8 \<Longrightarrow> n \<in> {0, 1, 2, 3, 4, 5, 6, 7 :: nat}" for n by auto
  ultimately show "x = y" by (intro bit_word_eqI) auto
qed simp

lemma add_disjoint: "(x :: u8) AND y = 0 \<Longrightarrow> x + y = x OR y"
  by (rule disjunctive_add) (metis bit_0_eq bit_and_iff bot_apply bot_bool_def)

lemma enc_chars_or:
  "enc_chars a b c = [drop_bit 2 (a AND 0xfc), push_bit 4 (a AND 0x03) OR drop_bit 4 (b AND 0xf0),
     push_bit 2 (b AND 0x0f) OR drop_bit 6 (c AND 0xc0), c AND 0x3f]"
  unfolding enc_chars_def
  by (simp add: add_disjoint u8_bits bit_simps)

lemma dec_chars:
  assumes "enc_chars a b c = [c0, c1, c2, c3]"
  shows "push_bit 2 c0 + drop_bit 4 (c1 AND 0x30) = a"
    and "push_bit 4 (c1 AND 0xf) + drop_bit 2 (c2 AND 0x3c) = b"
    and "push_bit 6 (c2 AND 0x3) + c3 = c"
proof -
  have c: "c0 = drop_bit 2 (a AND 0xfc)" "c1 = push_bit 4 (a AND 0x03) OR drop_bit 4 (b AND 0xf0)"
    "c2 = push_bit 2 (b AND 0x0f) OR drop_bit 6 (c AND 0xc0)" "c3 = c AND 0x3f"
    using assms by (simp_all add: enc_chars_or)
  have d: "push_bit 2 c0 + drop_bit 4 (c1 AND 0x30) = push_bit 2 c0 OR drop_bit 4 (c1 AND 0x30)"
    "push_bit 4 (c1 AND 0xf) + drop_bit 2 (c2 AND 0x3c) = push_bit 4 (c1 AND 0xf) OR drop_bit 2 (c2 AND 0x3c)"
    "push_bit 6 (c2 AND 0x3) + c3 = push_bit 6 (c2 AND 0x3) OR c3"
    by (rule add_disjoint, simp add: c u8_bits bit_simps)+
  show "push_bit 2 c0 + drop_bit 4 (c1 AND 0x30) = a"
    "push_bit 4 (c1 AND 0xf) + drop_bit 2 (c2 AND 0x3c) = b"
    "push_bit 6 (c2 AND 0x3) + c3 = c"
    unfolding d by (simp_all add: c u8_bits bit_simps) (simp_all add: numeral_2_eq_2 numeral_3_eq_3)?
qed

lemma enc_chars_small: "\<forall>i \<in> set (enc_chars a b c). i < 64"
proof -
  have "i < 64" if "\<not> bit i 6" "\<not> bit i 7" for i :: u8
  proof -
    have "i = take_bit 6 i" using that by (simp add: u8_bits bit_simps)
    moreover have "unat (take_bit 6 i) < 64" unfolding unsigned_take_bit_eq by (simp add: take_bit_eq_mod)
    ultimately show ?thesis by (simp add: word_less_nat_alt)
  qed
  then show ?thesis by (auto simp: enc_chars_or bit_simps)
qed

definition char_codes :: "nat list" where
  "char_codes = [65..<91] @ [97..<123] @ [48..<58] @ [43, 47]"

lemma char_codes: "map unat b64_chars = char_codes" "length char_codes = 64"
  by (simp_all add: b64_chars_def char_codes_def upt_rec of_char_def)

lemma codes_index: "map ((!) b64_indexes) char_codes = map int [0..<64]" "61 \<notin> set char_codes"
  by code_simp+

lemma index_char:
  assumes "i < 64"
  shows "b64_indexes ! unat (b64_char i) = int (unat i)" and "b64_char i \<noteq> 61"
proof -
  have i: "unat i < 64" using assms by (simp add: word_less_nat_alt)
  have "length b64_chars = 64" using char_codes by (metis length_map)
  then have c: "unat (b64_char i) = char_codes ! unat i" unfolding b64_char_def char_codes(1) [symmetric] using i by simp
  have "map ((!) b64_indexes) char_codes ! unat i = int (unat i)" unfolding codes_index(1) using i by simp
  then show "b64_indexes ! unat (b64_char i) = int (unat i)" using i c char_codes(2) by simp
  have "char_codes ! unat i \<noteq> 61" using codes_index(2) i char_codes(2) by (metis nth_mem)
  then show "b64_char i \<noteq> 61" using c by auto
qed

section \<open>The text\<close>

text \<open>What the encoder should write: groups of four characters, lines of \<open>ll\<close> of them, padding at the end.\<close>

fun b64_text :: "nat \<Rightarrow> nat \<Rightarrow> u8 list \<Rightarrow> u8 list" where
  "b64_text ll len (a # b # c # src) = map b64_char (enc_chars a b c) @
     (if len + 4 = ll \<and> src \<noteq> [] then 13 # 10 # b64_text ll 0 src else b64_text ll (len + 4) src)"
| "b64_text ll len [a, b] = map b64_char (take 3 (enc_chars a b 0)) @ [61]"
| "b64_text ll len [a] = map b64_char (take 2 (enc_chars a 0 0)) @ [61, 61]"
| "b64_text ll len [] = []"

lemma length_enc_chars: "length (enc_chars a b c) = 4"
  by (simp add: enc_chars_def)

lemma enc_put_all:
  assumes "length out + length cs \<le> cap" and "\<forall>k < length cs - 1. len + k + 1 \<noteq> ll"
  shows "enc_put cap ll cs len out = Some (out @ map b64_char cs)"
  using assms
proof (induction cap ll cs len out rule: enc_put.induct)
  case (3 cap ll c d cs len out)
  from "3.prems"(2) have "len + 1 \<noteq> ll" "\<forall>k < length (d # cs) - 1. len + 1 + k + 1 \<noteq> ll" by auto
  moreover have "b64_put cap (b64_char c) out = Some (out @ [b64_char c])" using "3.prems"(1) by (simp add: b64_put_def)
  ultimately show ?case using "3.IH" [of "out @ [b64_char c]"] "3.prems"(1) by simp
qed (simp_all add: b64_put_def)

lemma no_line_end:
  assumes "len mod 4 = 0" and "ll mod 4 = (0 :: nat)"
  shows "\<forall>k < length (enc_chars a b c) - 1. len + k + 1 \<noteq> ll"
proof (intro allI impI)
  fix k assume "k < length (enc_chars a b c) - 1"
  then have "k < 3" by (simp add: length_enc_chars)
  then show "len + k + 1 \<noteq> ll" using assms by presburger
qed

definition enc_all :: "nat \<Rightarrow> nat \<Rightarrow> u8 list \<Rightarrow> nat \<Rightarrow> u8 list \<Rightarrow> u8 list option" where
  "enc_all cap ll src len out = do { (rest, out) \<leftarrow> enc_loop cap cap ll src len out; enc_rest cap rest out }"

lemma enc_rest_writes:
  assumes "length rest \<in> {1, 2}" and "length out + 4 \<le> cap"
  shows "enc_rest cap rest out = Some (out @ b64_text ll len rest)"
proof -
  have l: "enc_loop cap (length out + 12) 0 [a, b, c] 0 out = Some ([], out @ map b64_char (enc_chars a b c))" for a b c
    using enc_put_all [of out "enc_chars a b c" cap 0 0] assms(2) by (simp add: length_enc_chars)
  have pads: "put_pads n cap (out @ xs) = Some (out @ xs @ replicate n 61)" if "n + length xs = 4" for n xs
    using that assms(2) by (induction n arbitrary: xs) (auto simp: b64_put_def replicate_app_Cons_same)
  have t: "take (length out + k) (out @ map b64_char (enc_chars a b c)) = out @ map b64_char (take k (enc_chars a b c))" for a b c k
    by (simp add: take_map)
  consider a where "rest = [a]" | a b where "rest = [a, b]"
    using assms(1) by (auto simp: length_Suc_conv numeral_2_eq_2)
  then show ?thesis
  proof cases
    case (1 a)
    then show ?thesis using l [of a 0 0] t [of 2 a 0 0] pads [of 2 "map b64_char (take 2 (enc_chars a 0 0))"]
      by (simp add: enc_rest_def length_enc_chars numeral_2_eq_2)
  next
    case (2 a b)
    then show ?thesis using l [of a b 0] t [of 3 a b 0] pads [of 1 "map b64_char (take 3 (enc_chars a b 0))"]
      by (simp add: enc_rest_def length_enc_chars numeral_2_eq_2 numeral_3_eq_3)
  qed
qed

lemma enc_all_text:
  assumes "length out + length (b64_text ll len src) = cap" and "len mod 4 = 0" and "ll mod 4 = 0"
  shows "enc_all cap ll src len out = Some (out @ b64_text ll len src)"
  using assms
proof (induction ll len src arbitrary: out rule: b64_text.induct)
  case (1 ll len a b c src)
  have p: "enc_put cap ll (enc_chars a b c) len out = Some (out @ map b64_char (enc_chars a b c))"
    using "1.prems" by (intro enc_put_all no_line_end) (simp_all add: length_enc_chars)
  show ?case
  proof (cases "len + 4 = ll \<and> src \<noteq> []")
    case True
    then have "length (b64_text ll 0 src) \<ge> 0" "cap \<ge> length out + 6" using "1.prems"(1) by (simp_all add: length_enc_chars)
    then show ?thesis using "1.IH"(1) [OF True, of "out @ map b64_char (enc_chars a b c) @ [13, 10]"] "1.prems" p True
      by (simp add: enc_all_def b64_put_def length_enc_chars)
  next
    case False
    have "(len + 4 = ll \<and> length (out @ map b64_char (enc_chars a b c)) \<noteq> cap) = False"
      using False "1.prems"(1) by (auto simp: length_enc_chars)
    then have "enc_all cap ll (a # b # c # src) len out = enc_all cap ll src (len + 4) (out @ map b64_char (enc_chars a b c))"
      by (simp only: enc_all_def enc_loop.simps p Option.bind.bind_lunit if_False)
    then show ?thesis using "1.IH"(2) [OF False, of "out @ map b64_char (enc_chars a b c)"] "1.prems" False
      by (simp add: length_enc_chars)
  qed
next
  case (2 ll len a b)
  then show ?case using enc_rest_writes [of "[a, b]" out cap ll len] by (simp add: enc_all_def length_enc_chars)
next
  case (3 ll len a)
  then show ?case using enc_rest_writes [of "[a]" out cap ll len] by (simp add: enc_all_def length_enc_chars)
next
  case (4 ll len)
  then show ?case by (simp add: enc_all_def enc_rest_def)
qed

section \<open>Its length\<close>

text \<open>The number of groups.\<close>

definition groups :: "nat \<Rightarrow> nat" where
  "groups n = (n + 2) div 3"

lemma groups_simps [simp]: "groups 0 = 0" "groups (Suc 0) = 1" "groups (Suc (Suc 0)) = 1" "groups (Suc (Suc (Suc n))) = Suc (groups n)"
  by (simp_all add: groups_def)

lemma groups_0 [simp]: "groups n = 0 \<longleftrightarrow> n = 0"
  by (auto simp: groups_def div_eq_0_iff)

lemma breaks_step:
  assumes "j < (q :: nat)" and "0 < g"
  shows "(j + g) div q = (if j + 1 = q then 1 + (g - 1) div q else (j + 1 + g - 1) div q)"
proof (cases "j + 1 = q")
  case True
  then have "j + g = q + (g - 1)" using assms(2) by simp
  moreover have "(q + (g - 1)) div q = (g - 1) div q + 1" by (rule div_add_self1) (use assms(1) in simp)
  ultimately show ?thesis using True by (simp only: if_True) simp
qed simp

lemma length_b64_text:
  assumes "j < q"
  shows "length (b64_text (4 * q) (4 * j) src) = 4 * groups (length src) + 2 * ((j + groups (length src) - 1) div q)"
  using assms
proof (induction "4 * q" "4 * j" src arbitrary: j rule: b64_text.induct)
  case (1 a b c src)
  let ?g = "groups (length src)"
  have s: "4 * j + 4 = 4 * (j + 1)" by simp
  show ?case
  proof (cases "src = []")
    case True
    then show ?thesis using 1(3) by (simp add: length_enc_chars)
  next
    case False
    then have g: "0 < ?g" by (simp add: neq0_conv [symmetric] del: neq0_conv)
    show ?thesis
    proof (cases "j + 1 = q")
      case True
      then have c: "4 * j + 4 = 4 * q \<and> src \<noteq> []" using False by simp
      have "length (b64_text (4 * q) 0 src) = 4 * ?g + 2 * ((?g - 1) div q)"
        using 1(1) [OF c, of 0] 1(3) by simp
      then show ?thesis using c breaks_step [OF 1(3) g] True by (simp add: length_enc_chars)
    next
      case nq: False
      then have c: "\<not> (4 * j + 4 = 4 * q \<and> src \<noteq> [])" by simp
      have "length (b64_text (4 * q) (4 * (j + 1)) src) = 4 * ?g + 2 * ((j + 1 + ?g - 1) div q)"
        using 1(2) [OF c, of "j + 1"] 1(3) nq by simp
      then show ?thesis using c nq unfolding b64_text.simps(1) s by (simp add: length_enc_chars)
    qed
  qed
qed (simp_all add: length_enc_chars)

lemma length_b64_text_0: "length (b64_text 0 len src) = 4 * groups (length src)"
  by (induction "0 :: nat" len src rule: b64_text.induct) (simp_all add: length_enc_chars)

definition b64_size :: "nat \<Rightarrow> nat \<Rightarrow> nat" where
  "b64_size n l = (let t = groups n * 4 in if l > 0 then t + 2 * ((t + (l - 1)) div l - 1) else t)"

lemma length_b64_size:
  assumes "l mod 4 = 0" and "src \<noteq> []"
  shows "length (b64_text l 0 src) = b64_size (length src) l"
proof (cases "l = 0")
  case False
  then obtain q where q: "l = 4 * q" "0 < q" using assms(1) by (metis mod_0_imp_dvd dvd_def mult_0_right not_gr_zero)
  let ?g = "groups (length src)"
  have "0 < ?g" using assms(2) by (simp add: neq0_conv [symmetric] del: neq0_conv)
  then have e: "?g * 4 + (4 * q - 1) = 4 * (?g + q - 1) + 3" "?g + q - 1 = q + (?g - 1)" using q(2) by simp_all
  have "(4 * (?g + q - 1) + 3) div (4 * q) = (4 * (?g + q - 1) + 3) div 4 div q" by (rule div_mult2_eq)
  also have "(4 * (?g + q - 1) + 3) div 4 = q + (?g - 1)" unfolding e(2) by simp
  also have "(q + (?g - 1)) div q = (?g - 1) div q + 1" by (rule div_add_self1) (use q(2) in simp)
  finally have "(?g * 4 + (4 * q - 1)) div (4 * q) - 1 = (?g - 1) div q" unfolding e(1) by simp
  then show ?thesis using length_b64_text [OF q(2), of src] q by (simp add: b64_size_def Let_def)
qed (simp add: length_b64_text_0 b64_size_def)

lemma unat_nat64: "n < 2 ^ 64 \<Longrightarrow> unat (of_nat n :: u64) = n"
  by (simp add: unat_of_nat take_bit_nat_eq_self)

lemma groups_le: "groups n \<le> n"
  by (simp add: groups_def)

lemma size_bound: "(t :: nat) < 2 ^ 34 \<Longrightarrow> u < 2 ^ 32 \<Longrightarrow> k \<le> t + (u - 1) \<Longrightarrow> t + 2 * (k - 1) < 2 ^ 64"
  by simp

lemma unat_total:
  assumes "0 < n" and "n < 2 ^ 32"
  shows "unat (b64_total n l) = b64_size n (unat l)"
proof -
  let ?t = "groups n * 4"
  have bound: "?t < 2 ^ 34" using assms(2) groups_le [of n] by simp
  have "unat (of_nat n + 2 :: u64) = n + 2" using unat_nat64 [of "n + 2"] assms(2) by (simp add: add.commute)
  then have "(of_nat n + 2 :: u64) div 3 = of_nat (groups n)" unfolding word_arith_nat_div groups_def by simp
  then have t: "(of_nat n + 2 :: u64) div 3 * 4 = of_nat ?t" by simp
  show ?thesis
  proof (cases "l > 0")
    case False
    then show ?thesis using bound unat_nat64 [of ?t] by (simp add: b64_total_def b64_size_def t Let_def word_less_nat_alt del: of_nat_mult)
  next
    case True
    then have l: "0 < unat l" "unat (l - 1) = unat l - 1"
      by (simp_all add: word_less_nat_alt unat_minus_one word_neq_0_conv)
    let ?k = "(?t + (unat l - 1)) div unat l"
    have lt: "unat l < 2 ^ 32" using unsigned_less [of l] by simp
    have u: "(ucast x :: u64) = of_nat (unat x)" for x :: u32 by simp
    have sum: "unat (of_nat ?t + ucast (l - 1) :: u64) = ?t + (unat l - 1)"
      unfolding u l(2) of_nat_add [symmetric] by (rule unat_nat64) (use bound lt in simp)
    have "unat (ucast l :: u64) = unat l" unfolding u by (rule unat_nat64) (use lt in simp)
    then have k: "(of_nat ?t + ucast (l - 1) :: u64) div ucast l = of_nat ?k" by (simp only: word_arith_nat_div sum)
    have "4 \<le> ?t" using assms(1) by (simp add: neq0_conv [symmetric] Suc_le_eq del: neq0_conv)
    then have "unat l \<le> ?t + (unat l - 1)" using l(1) by simp
    then have k1: "1 \<le> ?k" using l(1) by (metis div_greater_zero_iff less_eq_Suc_le One_nat_def)
    then have "of_nat ?t + 2 * ((of_nat ?t + ucast (l - 1) :: u64) div ucast l - 1) = of_nat (?t + 2 * (?k - 1))"
      unfolding k by (simp add: of_nat_diff)
    moreover have "?k \<le> ?t + (unat l - 1)" by (rule div_le_dividend)
    then have "?t + 2 * (?k - 1) < 2 ^ 64" by (rule size_bound [OF bound lt])
    ultimately show ?thesis using True l(1) unat_nat64 [of "?t + 2 * (?k - 1)"]
      by (simp only: b64_total_def b64_size_def Let_def t if_True)
  qed
qed

section \<open>Decoding the text\<close>

lemma dec_code:
  assumes "i < 64" and "length idx < 3"
  shows "dec_loop cap flags pos (b64_char i # src) idx 0 out = dec_loop cap flags (pos + 1) src (idx @ [i]) 0 out"
proof -
  have "uint i \<noteq> -1" using uint_nonnegative [of i] by linarith
  then show ?thesis using index_char [OF assms(1)] assms(2) by (simp add: Let_def)
qed

lemma dec_code_last:
  assumes "i < 64" and "length idx = 3"
  shows "dec_loop cap flags pos (b64_char i # src) idx 0 out =
    do { out \<leftarrow> dec_group cap (idx @ [i]) 0 out; dec_loop cap flags (pos + 1) src [] 0 out }"
proof -
  have "uint i \<noteq> -1" using uint_nonnegative [of i] by linarith
  then show ?thesis using index_char [OF assms(1)] assms(2) by (simp add: Let_def)
qed

lemma dec_line_end: "dec_loop cap flags pos (13 # 10 # src) idx pads out = dec_loop cap flags (pos + 2) src idx pads out"
proof -
  have "b64_indexes ! 13 = -1" "b64_indexes ! 10 = -1" by code_simp+
  then show ?thesis by (simp add: Let_def)
qed

lemma dec_pad_1:
  "length idx = 3 \<Longrightarrow> dec_loop cap flags pos (61 # src) idx 0 out =
     do { out \<leftarrow> dec_group cap (idx @ [0]) 1 out; Some (length out, out, None, B64_RC_OK) }"
  by (simp add: Let_def)

lemma dec_pad_2:
  "length idx = 2 \<Longrightarrow> dec_loop cap flags pos (61 # 61 # src) idx 0 out =
     do { out \<leftarrow> dec_group cap (idx @ [0, 0]) 2 out; Some (length out, out, None, B64_RC_OK) }"
  by (simp add: Let_def numeral_2_eq_2)

lemma dec_text:
  assumes "length out + length src \<le> cap"
  shows "dec_loop cap flags pos (b64_text ll len src) [] 0 out = Some (length out + length src, out @ src, None, B64_RC_OK)"
  using assms
proof (induction ll len src arbitrary: pos out rule: b64_text.induct)
  case (1 ll len a b c src)
  obtain c0 c1 c2 c3 where e: "enc_chars a b c = [c0, c1, c2, c3]" by (simp add: enc_chars_def)
  then have small: "c0 < 64" "c1 < 64" "c2 < 64" "c3 < 64" using enc_chars_small [of a b c] by simp_all
  have "dec_group cap [c0, c1, c2, c3] 0 out = Some (out @ [a, b, c])"
    using dec_chars [OF e] "1.prems" by (simp add: dec_group_def b64_put_def)
  then have step: "dec_loop cap flags pos (map b64_char (enc_chars a b c) @ xs) [] 0 out = dec_loop cap flags (pos + 4) xs [] 0 (out @ [a, b, c])"
    for xs using small by (simp add: e dec_code dec_code_last eval_nat_numeral del: dec_loop.simps)
  have l: "length (out @ [a, b, c]) + length src \<le> cap" using "1.prems" by simp
  show ?case
  proof (cases "len + 4 = ll \<and> src \<noteq> []")
    case True
    have "dec_loop cap flags pos (b64_text ll len (a # b # c # src)) [] 0 out = dec_loop cap flags (pos + 4 + 2) (b64_text ll 0 src) [] 0 (out @ [a, b, c])"
      by (simp only: b64_text.simps step if_P [OF True] dec_line_end)
    also have "\<dots> = Some (length (out @ [a, b, c]) + length src, (out @ [a, b, c]) @ src, None, B64_RC_OK)"
      by (rule "1.IH"(1) [OF True l])
    finally show ?thesis by simp
  next
    case False
    have "dec_loop cap flags pos (b64_text ll len (a # b # c # src)) [] 0 out = dec_loop cap flags (pos + 4) (b64_text ll (len + 4) src) [] 0 (out @ [a, b, c])"
      by (simp only: b64_text.simps step if_not_P [OF False])
    also have "\<dots> = Some (length (out @ [a, b, c]) + length src, (out @ [a, b, c]) @ src, None, B64_RC_OK)"
      by (rule "1.IH"(2) [OF False l])
    finally show ?thesis by simp
  qed
next
  case (2 ll len a b)
  obtain c0 c1 c2 c3 where e: "enc_chars a b 0 = [c0, c1, c2, c3]" by (simp add: enc_chars_def)
  then have small: "c0 < 64" "c1 < 64" "c2 < 64" "c3 < 64" using enc_chars_small [of a b 0] by simp_all
  have "dec_group cap [c0, c1, c2, 0] 1 out = Some (out @ [a, b])"
    using dec_chars [OF e] 2 by (simp add: dec_group_def b64_put_def)
  then show ?case using small by (simp add: e dec_code dec_pad_1 del: dec_loop.simps)
next
  case (3 ll len a)
  obtain c0 c1 c2 c3 where e: "enc_chars a 0 0 = [c0, c1, c2, c3]" by (simp add: enc_chars_def)
  then have small: "c0 < 64" "c1 < 64" "c2 < 64" "c3 < 64" using enc_chars_small [of a 0 0] by simp_all
  have "dec_group cap [c0, c1, 0, 0] 2 out = Some (out @ [a])"
    using dec_chars [OF e] 3 by (simp add: dec_group_def b64_put_def)
  then show ?case using small by (simp add: e dec_code dec_pad_2 del: dec_loop.simps)
qed simp

section \<open>No write outside of the destination\<close>

lemma b64_put_Some: "length out < cap \<Longrightarrow> b64_put cap c out = Some (out @ [c])"
  by (simp add: b64_put_def)

lemma dec_group_fits:
  assumes "length out + 3 \<le> cap"
  shows "\<exists>xs. dec_group cap idx pads out = Some (out @ xs) \<and> 1 \<le> length xs \<and> length xs \<le> 3"
  using assms by (simp add: dec_group_def b64_put_def)

definition dec_sound :: "nat \<Rightarrow> nat \<Rightarrow> b64_result \<Rightarrow> bool" where
  "dec_sound cap n r = (case r of (m, out, bad, rc) \<Rightarrow> length out \<le> cap \<and>
     (case bad of None \<Rightarrow> m = length out \<and> rc = B64_RC_OK | Some k \<Rightarrow> k < n \<and> m = 0 \<and> rc = B64_RC_DATA_ERROR))"

lemma dec_loop_safe:
  assumes "length idx < 4" and "length out + (length idx + length src + 3) div 4 * 3 \<le> cap" and "pos + length src = n"
  shows "\<exists>r. dec_loop cap flags pos src idx pads out = Some r \<and> dec_sound cap n r"
  using assms
proof (induction cap flags pos src idx pads out rule: dec_loop.induct)
  case (1 cap flags pos idx pads out)
  then show ?case by (simp add: dec_sound_def)
next
  case (2 cap flags pos ch src idx pads out)
  let ?ix = "b64_indexes ! unat ch"
  have skip: "length out + (length idx + length src + 3) div 4 * 3 \<le> cap" "pos + 1 + length src = n"
  proof -
    have "(length idx + length src + 3) div 4 \<le> (length idx + length (ch # src) + 3) div 4" by (rule div_le_mono) simp
    then have "(length idx + length src + 3) div 4 * 3 \<le> (length idx + length (ch # src) + 3) div 4 * 3" by simp
    then show "length out + (length idx + length src + 3) div 4 * 3 \<le> cap" using "2.prems"(2) by linarith
    show "pos + 1 + length src = n" using "2.prems"(3) by simp
  qed
  show ?case
  proof (cases "ch \<noteq> 61 \<and> ?ix = -1")
    case True
    have "length out \<le> cap" "pos < n" using "2.prems" by simp_all
    then show ?thesis
      using True "2.IH"(1) [OF refl True _ _ "2.prems"(1) skip] by (auto simp: dec_sound_def Let_def)
  next
    case code: False
    let ?idx = "idx @ [if ch = 61 then 0 else of_int ?ix]" and ?p = "if ch = 61 then pads + 1 else 0"
    show ?thesis
    proof (cases "length ?idx = 4")
      case True
      then have "length idx + length (ch # src) + 3 = (length src + 3) + 4" by simp
      moreover have "((length src + 3) + 4) div 4 = (length src + 3) div 4 + 1" by (rule div_add_self2) simp
      ultimately have "length out + 3 + (length src + 3) div 4 * 3 \<le> cap" using "2.prems"(2) by simp
      moreover from this obtain xs where "dec_group cap ?idx ?p out = Some (out @ xs)" "length xs \<le> 3"
        using dec_group_fits [of out cap ?idx ?p] by auto
      ultimately show ?thesis using "2.IH"(2) [OF refl code _ refl refl True, of "out @ xs"] True code skip(2)
        by (auto simp: dec_sound_def Let_def)
    next
      case False
      then show ?thesis using "2.IH"(3) [OF refl code _ refl refl False] "2.prems" code skip(2) by (auto simp: Let_def)
    qed
  qed
qed

section \<open>Properties\<close>

lemma max_total: "(n div 4 + (if n mod 4 \<noteq> 0 then 1 else 0)) * 3 = (n + 3) div 4 * (3 :: nat)"
proof -
  have "(n + 3) div 4 = n div 4 + (n mod 4 + 3) div 4" using div_add1_eq [of n 3 4] by simp
  moreover have "n mod 4 \<in> {0, 1, 2, 3}" using mod_less_divisor [of 4 n] by auto
  ultimately show ?thesis by auto
qed

lemma b64_decode2_eval:
  "b64_decode2 src (Some cap) flags =
    (if cap < (length src + 3) div 4 * 3 then Some (0, [], None, B64_RC_INSUFFICIENT_BUFFER) else dec_loop cap flags 0 src [] 0 [])"
  unfolding b64_decode2_def b64_decode_impl_def max_total Let_def option.case ..

text \<open>
  C23. Base64: what b64_encode2 writes for any bytes, with any length of lines that is a multiple of four, into a destination of the
  size it asks for, fills it exactly, and b64_decode2 gives the bytes back from it, with any flags.
\<close>

theorem b64_round_trip:
  assumes "src \<noteq> []" and "length src < 2 ^ 32" and "b64_line_len flags lineLen mod 4 = 0" and "lineLen < 2 ^ 31"
    and "n = b64_total (length src) (of_int (b64_line_len flags lineLen))"
  shows "\<exists>txt. b64_encode2 src (Some n) flags lineLen = Some (n, txt, B64_RC_OK) \<and> length txt = unat n \<and>
    b64_encode2 src None flags lineLen = Some (n, [], B64_RC_OK) \<and>
    (\<forall>cap dflags. cap \<ge> (length txt + 3) div 4 * 3 \<longrightarrow>
       b64_decode2 txt (Some cap) dflags = Some (length src, src, None, B64_RC_OK))"
proof -
  let ?l = "b64_line_len flags lineLen"
  have l: "0 \<le> ?l" "?l < 2 ^ 32" using assms(4) by (simp_all add: b64_line_len_def Let_def)
  define L where "L = nat ?l"
  have L: "unat (of_int ?l :: u32) = L" "L mod 4 = 0"
    using l assms(3) nat_mod_distrib [of ?l 4] by (simp_all add: L_def unsigned_of_int take_bit_int_eq_self)
  let ?txt = "b64_text L 0 src"
  have n: "unat n = length ?txt"
    using unat_total [of "length src" "of_int ?l"] assms(1,2,5) L length_b64_size [OF L(2) assms(1)] by simp
  have "enc_all (unat n) L src 0 [] = Some ?txt"
    using enc_all_text [of "[]" L 0 src "unat n"] n L(2) by simp
  then have e: "b64_encode2 src (Some n) flags lineLen = Some (n, ?txt, B64_RC_OK)"
    using assms(3,5) L(1) by (auto simp: b64_encode2_def b64_encode_impl_def enc_all_def Let_def split: Option.bind_splits)
  have src_le: "length src \<le> (length ?txt + 3) div 4 * 3"
  proof -
    have "4 * groups (length src) \<le> length ?txt" 
      using length_b64_size [OF L(2) assms(1)] by (simp add: b64_size_def Let_def)
    then have "groups (length src) \<le> (length ?txt + 3) div 4" by simp
    moreover have "length src \<le> groups (length src) * 3" by (simp add: groups_def)
    ultimately show ?thesis by (meson le_trans mult_le_mono1)
  qed
  have "b64_decode2 ?txt (Some cap) dflags = Some (length src, src, None, B64_RC_OK)"
    if "cap \<ge> (length ?txt + 3) div 4 * 3" for cap dflags
    using that src_le dec_text [of "[]" src cap dflags 0 L 0]
    by (simp add: b64_decode2_eval)
  moreover have "b64_encode2 src None flags lineLen = Some (n, [], B64_RC_OK)"
    using assms(3,5) by (simp add: b64_encode2_def b64_encode_impl_def)
  ultimately show ?thesis using e n by metis
qed

theorem b64_round_trip_witness:
  "\<exists>txt. b64_encode2 [1, 2, 3, 4] (Some 8) 1 0 = Some (8, txt, B64_RC_OK) \<and> length txt = 8 \<and>
     b64_decode2 txt (Some 6) 0 = Some (4, [1, 2, 3, 4], None, B64_RC_OK)"
proof -
  have l: "b64_line_len 1 0 = 0" by code_simp
  have n: "(8 :: u64) = b64_total (length [1, 2, 3, 4 :: u8]) (of_int (b64_line_len 1 0))" unfolding l by code_simp
  have src: "[1, 2, 3, 4 :: u8] \<noteq> []" "length [1, 2, 3, 4 :: u8] < 2 ^ 32" "b64_line_len 1 0 mod 4 = 0" by (simp_all add: l)
  from b64_round_trip [OF src _ n] obtain xs where t: "b64_encode2 [1, 2, 3, 4] (Some 8) 1 0 = Some (8, xs, B64_RC_OK)"
    "length xs = unat (8 :: u64)" and d: "\<forall>cap dflags. cap \<ge> (length xs + 3) div 4 * 3 \<longrightarrow>
      b64_decode2 xs (Some cap) dflags = Some (length [1, 2, 3, 4 :: u8], [1, 2, 3, 4], None, B64_RC_OK)" by fastforce
  have "b64_decode2 xs (Some 6) 0 = Some (4, [1, 2, 3, 4], None, B64_RC_OK)"
    using d [rule_format, of 6 0] t(2) by simp
  then show ?thesis using t by (intro exI [of _ xs]) simp
qed

text \<open>
  C24. Base64: whatever the text and the flags, b64_decode2 neither fails an assertion nor writes outside of the destination; it returns the
  number of the bytes written, or zero with the place of the bad character.
\<close>

theorem b64_decode_safe:
  "\<exists>r. b64_decode2 src (Some cap) flags = Some r \<and>
     (r = (0, [], None, B64_RC_INSUFFICIENT_BUFFER) \<or> dec_sound cap (length src) r)"
  using dec_loop_safe [of "[]" "[]" src cap 0 "length src" flags 0] by (auto simp: b64_decode2_eval)

text \<open>
  A destination that is one byte larger than needed overflows when the text ends at the end of a line: the break after it takes two. For
  no bytes and lines of a given length the size wraps. Three padding characters count as none.
\<close>

lemma b64_break_overflows:
  "b64_total 3 4 = 4" "b64_encode2 [0, 0, 0] (Some 5) 0 4 = None"
  by code_simp+

lemma b64_empty_wraps: "b64_total 0 64 = -2"
  by code_simp

lemma b64_three_pads: "b64_decode2 [65, 61, 61, 61] (Some 3) 0x300 = Some (3, [0, 0, 0], None, B64_RC_OK)"
  by code_simp

end
