(* ===== verification/Spec2Isabelle.thy ===== *)
theory Spec2Isabelle
  imports Msg_Queue Rtcp_Roundtrip Rtp_Transfer Rfc3984 Ms_List Ms_Schedule Ms_Event_Queue
    Ms_G711 Stun_Nat Ice_Session Ice_Redundant B64
begin

text \<open>
  Verification of the media engine: the real-time transport library oRTP and the core of the
  streaming library mediastreamer2 (both under \<^verbatim>\<open>src/submodules/\<close>).

  \<^bold>\<open>The program.\<close> An application builds a graph of filters (capture, encoder, RTP sender; RTP
  receiver, decoder, playback) and attaches it to a ticker, which runs every filter once in each interval of
  ten milliseconds. Filters hand each other message blocks through queues. The RTP filters own an RTP session
  of oRTP, which numbers and stamps outgoing packets, puts incoming ones into a jitter buffer ordered by
  sequence number, reports the reception with RTCP, signals events by callbacks, and finds its public
  address with STUN.

  \<^bold>\<open>How the code is translated.\<close> A struct is a record, an enum a datatype, an unsigned
  integer of the code a word of its width, an \<^verbatim>\<open>int\<close> an integer; \<^verbatim>\<open>float\<close>
  and \<^verbatim>\<open>double\<close> are rational numbers rounded after each operation (\<open>C_Float\<close>). State is
  passed explicitly; what is linked by pointers and shared (message blocks, list cells, payload types,
  filters and queues) is in a store that maps addresses to records. \<open>None\<close> is the fault: a NULL or freed
  pointer, a read or write outside of a buffer, an abort, a loop without end. So a theorem that a result is
  \<open>Some\<close> says that the code neither faults nor hangs. Loops without a structural measure are
  partial functions with values in the option type; no fuel is used anywhere, except that loops over the
  outside world (received datagrams, outcomes of \<^verbatim>\<open>select\<close>, ticks) consume a list of its events.
  The host is little endian, as in the targets of the library.
  Sockets, clocks, random numbers, allocation of fresh addresses, codecs, keyed hashes and the callbacks of the
  application are parameters.

  \<^bold>\<open>Shared theories.\<close> \<open>Prelude\<close>: the word types, the comparison of sequence numbers and
  timestamps modulo their width, rules for options. \<open>C_Strings\<close>: the string functions of C on
  lists of characters. \<open>C_Float\<close>: rounding of rational numbers to the formats of C.

  \<^bold>\<open>Message blocks\<close> (\<^verbatim>\<open>oRTP/src/str_utils.c\<close>). \<open>Str_Utils\<close>: a heap of blocks,
  reference counted data and circular queues, every operation of the file. \<open>Msg_Queue\<close>: a queue refines
  a list, for any sequence of operations.

  \<^bold>\<open>The packet queue\<close> (\<^verbatim>\<open>rtp_putq\<close>, \<^verbatim>\<open>rtp_getq\<close> of
  \<^verbatim>\<open>rtpsession.c\<close>). \<open>Rtp_Queue\<close>: insertion on the heap is insertion into a sorted list
  without duplicates; which packet is delivered. \<open>Rtp_Packet\<close>: packets as lists of bytes, the accessors of
  the header.

  \<^bold>\<open>Parts of a session.\<close> \<open>Payload\<close> (\<^verbatim>\<open>payloadtype.c\<close>,
  \<^verbatim>\<open>rtpprofile.c\<close>): payload types on a store, profiles, the round trip of an rtpmap, parameters
  of fmtp strings. \<open>Av_Profile\<close> (\<^verbatim>\<open>avprofile.c\<close>): the static payload types.
  \<open>Jitter\<close> (\<^verbatim>\<open>jitterctl.c\<close>): the adaptive delay and its bounds. \<open>Signal_Tables\<close>
  (\<^verbatim>\<open>rtpsignaltable.c\<close>): callbacks. \<open>Session_Set\<close> (\<^verbatim>\<open>sessionset.c\<close>): bit sets of
  sessions and the polling select. \<open>Netsim\<close> (\<^verbatim>\<open>netsim.c\<close>): the simulated network, its rate
  limit, its order. \<open>Telephone_Events\<close> (\<^verbatim>\<open>telephonyevents.c\<close>): DTMF events.

  \<^bold>\<open>The session.\<close> \<open>Rtp_Session\<close> and \<open>Rtp_Settings\<close> (\<^verbatim>\<open>rtpsession.h\<close>,
  \<^verbatim>\<open>rtpsession.c\<close>): the state, creation, settings, resets. \<open>Rtp_Parse\<close>
  (\<^verbatim>\<open>rtpparse.c\<close>): what happens to an arriving datagram: no sequence of datagrams faults, the limit
  and the order of the queue, the switch of the source, the extended sequence number. \<open>Rtcp_Parse\<close>
  (\<^verbatim>\<open>rtcpparse.c\<close>) and \<open>Rtcp_Build\<close> (\<^verbatim>\<open>rtcp.c\<close>): reading and writing of
  reports; \<open>Rtcp_Roundtrip\<close>: what is written is read back, and reading stays inside of the datagram.
  \<open>Rtp_Io\<close> (\<^verbatim>\<open>rtpsession_inet.c\<close>): sending, receiving and the calls of the application; its
  main theorem is that no interleaving of calls and datagrams faults. \<open>Rtp_Transfer\<close>: the composition of two
  sessions: what one sends is queued complete and in order by the other.

  \<^bold>\<open>Base64\<close> (\<^verbatim>\<open>b64.c\<close>). \<open>B64\<close>: encoder and decoder with lines and flags, their round trip, the safety of
  the decoder.

  \<^bold>\<open>STUN\<close> (\<^verbatim>\<open>stun.c\<close>). \<open>Stun_Crc\<close>: the table driven CRC is the bitwise one.
  \<open>Stun_Message\<close>: parser and encoder with all attributes, their round trip, safety of the parser.
  \<open>Stun_Exchange\<close>: the request of a client, the answer of the server, and that the client reads its
  address in it. \<open>Stun_Nat\<close>: the loop that finds the kind of NAT, its end and its decision.

  \<^bold>\<open>mediastreamer2.\<close> \<open>Ms_List\<close> (\<^verbatim>\<open>base/mscommon.c\<close>): doubly linked lists refine
  sequences. \<open>Ms_Filter\<close> (\<^verbatim>\<open>base/msfilter.c\<close>, \<^verbatim>\<open>base/msqueue.c\<close>): registry,
  creation, methods, links. \<open>Ms_Graph\<close>: well-formed graphs and the component of a filter.
  \<open>Ms_Ticker\<close> (\<^verbatim>\<open>base/msticker.c\<close>): attaching, detaching, one tick, the clock and its
  synchronisation. \<open>Ms_Basic_Filters\<close>: tee, join and the void filters. \<open>Ms_Schedule\<close>: a graph that is
  attached runs without fault and each filter once per tick. \<open>Ms_Event_Queue\<close>
  (\<^verbatim>\<open>base/eventqueue.c\<close>): the ring of notifications, a bounded queue for events of one size that divides
  it, and the fault for the others. \<open>Ms_Bufferizer\<close>: the queue of bytes. \<open>Ms_G711\<close>: the
  codecs of G.711 and their filters. \<open>Rfc3984\<close> (\<^verbatim>\<open>voip/rfc3984.c\<close>): H.264 in RTP packets.

  \<^bold>\<open>ICE\<close> (\<^verbatim>\<open>voip/ice.c\<close>). \<open>Ice_Pairs\<close>: candidates, their priorities, foundations and
  defaults, the elimination of redundant ones, the pairs, their pruning, the check list and the initial states.
  \<open>Ice_Prio\<close>: the priorities are the numbers of RFC 5245. \<open>Ice_Redundant\<close>: the elimination ends with no two
  candidates alike. \<open>Ice_Check_List\<close> and \<open>Ice_Session\<close>: which pairs the check list has, their order,
  their states at the start, and the fault when there are more of them than the limit.

  \<^bold>\<open>Interfaces.\<close> A locale states a contract where one part relies on another, and is interpreted on the
  definitions of the part that provides it: \<open>msg_queue\<close> (the queues of message blocks), \<open>bounded_fifo\<close>
  (the event ring), \<open>filter_code\<close> (what the ticker relies on in the code of a filter: the basic filters),
  \<open>total_machine\<close> (a step function with an invariant that never faults: the RTP parser under datagrams, the
  session under calls).

  \<^bold>\<open>Bounds.\<close> Sizes that the code fixes are kept (the limit of a queue, 255 bytes of an SDES item, 1500 bytes of
  a datagram, 8192 bytes of the event ring, 514 and 2048 bytes in STUN, 32 sessions to a word). The hypotheses of a
  theorem that bound a length only exclude the wrap of an integer or a limit of the code named beside it.

  \<^bold>\<open>Not modelled.\<close> Threads and the locks between them: an operation is one step. Sockets, files, host
  names, devices, logging and the timers of the system (\<^verbatim>\<open>port.c\<close>, \<^verbatim>\<open>stun_udp.c\<close>,
  \<^verbatim>\<open>posixtimer.c\<close>, sound cards, cameras, displays). SRTP and ZRTP, the codecs other than G.711, signal
  processing, the C++ front end, the gathering and the connectivity checks of ICE, UPnP, the code that assembles streams
  from filters, quality analysis and bitrate control. The vendored libraries under \<^verbatim>\<open>externals/\<close>, which are the greater part of the
  tree and are third party code.
\<close>

end
